(* ===== verification/Prelude.thy ===== *)
theory Prelude
  imports Main "HOL-Library.Word" "HOL-Library.Char_ord"
begin

text \<open>
  The vocabulary every component shares.

  \<^item> Machine integers: Go's \<open>uint8\<close> .. \<open>uint64\<close> are words of that width, so that
    conversions narrow and arithmetic wraps as in Go.
  \<^item> Go strings are byte sequences; they are modelled as \<open>string\<close>, whose characters are
    exactly the 256 bytes.
  \<^item> Errors: a Go error value is modelled by the list of sentinels in its wrap chain, so that
    \<open>errors.Is\<close> becomes membership.  Message texts are not modelled.
  \<^item> Fallible functions return \<open>go_error + 'a\<close>.
  \<^item> The big-endian accessors of \<open>encoding/binary\<close> and the fixed-offset buffer update.
\<close>

section \<open>Collections of facts\<close>

named_theorems wire_simps \<open>unfolding facts of the wire codec\<close>
named_theorems step_simps \<open>one-step unfolding facts of the state machines\<close>
named_theorems inv_intros \<open>preservation lemmas of invariants\<close>

section \<open>Types\<close>

type_synonym u8 = "8 word"
type_synonym u16 = "16 word"
type_synonym u32 = "32 word"
type_synonym u64 = "64 word"
type_synonym bytes = "u8 list"

text \<open>The sentinel errors, one datatype per package that declares them: \<open>pkg/domain/errors.go\<close>
  and \<open>remote.go\<close>, the I/O errors of the standard library that the code distinguishes,
  \<open>internal/app/errors.go\<close> (with \<open>internal/netopts\<close>), the kernel adapter's own, the command's and those that
  the public facade declares anew (\<open>pkg/usbip/errors.go\<close>).
  \<open>Errno n\<close> is a system call error number, \<open>OtherErr n\<close> any error the code never inspects.\<close>

datatype domain_error =
    ErrDeviceNotFound | ErrDeviceAlreadyBound | ErrDeviceNotBound | ErrPortInUse | ErrNoFreePort
  | ErrProtocolMismatch | ErrProtocolError | ErrAlreadyRunning | ErrDomainAlreadyShutdown
  | ErrBusIDInvalid | ErrPermission | ErrKernelModuleMissing | ErrAttachInProgress
  | ErrUnsupportedDevice | ErrDeviceUnavailable | ErrInvalidRemote

datatype io_error =
    EOF | ErrUnexpectedEOF | ContextCanceled | ContextDeadlineExceeded | NetErrClosed | NetTimeout
  | StrconvErrSyntax | StrconvErrRange | FsErrNotExist | FsErrPermission | FsErrExist | FsErrInvalid
  | BufioErrTooLong | NetError | HttpErrServerClosed

datatype wire_error = ErrDeviceFieldTooLarge | ErrDevlistTruncated | ErrDevlistCountOverflow

datatype app_error =
    ErrAttachPublicationReservationLost | ErrHandleNotFound | ErrImporterClosed
  | ErrEventStreamClosed | ErrPortDetached | ErrAlreadyShutdown | ErrServeAlreadyRunning
  | ErrMaxSessionsExceeded | ErrPerPeerLimitExceeded | ErrRateLimited | ErrAcceptRateLimitInvalid
  | ErrListenerFactoryNil | ErrHandshakeTooLarge | ErrHandshakeTimeout | ErrACLRejected
  | ErrACLInvalid | ErrAttachOptionsInvalid | ErrTransportOptionsInvalid

datatype kernel_error =
    ErrSysfsSpeedUnrecognized | ErrStatusRowControllerMismatch | ErrStatusControllerNotReady
  | ErrStatusRowZeroVHCIPorts | ErrNonSysfsPath | ErrConnNotSyscall | ErrSysfsValueOutOfRange
  | ErrPortOutOfRange | ErrTopologyNoControllers | ErrTopologyInconsistent
  | ErrTopologyZeroNPorts | ErrTopologyIncomplete

datatype cli_error =
    UsageError | CliAlreadyRunning | DrainTimeout | StatusSocketDisabled | DrainPollIntervalInvalid
  | DrainPostFailed | DrainStatusResponse | InvalidBackoff | AmbiguousSocketNames | StatusLockFdTooLarge

datatype facade_error =
    PubImporterClosed | PubEventStreamClosed | PubServeAlreadyRunning | PubAttachOptionsInvalid
  | PubTransportOptionsInvalid | PubACLInvalid | PubExponentialBackoffConfigInvalid | PubAcceptRateLimitInvalid

datatype sentinel =
    Dom domain_error | Io io_error | Wire wire_error | App app_error | Kern kernel_error
  | Cli cli_error | Pub facade_error | Errno nat | OtherErr nat

type_synonym go_error = "sentinel list"

text \<open>\<open>errors.Is err s\<close>\<close>

definition errors_Is :: "go_error \<Rightarrow> sentinel \<Rightarrow> bool" where
  "errors_Is e s \<longleftrightarrow> s \<in> set e"

lemma errors_Is_Nil [simp]: "\<not> errors_Is [] s"
  by (simp add: errors_Is_def)

lemma errors_Is_Cons [simp]: "errors_Is (x # e) s \<longleftrightarrow> x = s \<or> errors_Is e s"
  by (auto simp: errors_Is_def)

lemma errors_Is_append [simp]: "errors_Is (a @ b) s \<longleftrightarrow> errors_Is a s \<or> errors_Is b s"
  by (auto simp: errors_Is_def)

section \<open>Bytes and characters\<close>

definition char_of_byte :: "u8 \<Rightarrow> char" where
  "char_of_byte b = char_of (unat b)"

definition byte_of_char :: "char \<Rightarrow> u8" where
  "byte_of_char c = of_nat (of_char c)"

lemma unat_byte_of_char [simp]: "unat (byte_of_char c) = of_char c"
proof -
  have "(of_char c :: nat) < 256"
    using nat_of_char_less_256 by simp
  thus ?thesis
    by (simp add: byte_of_char_def unat_of_nat)
qed

lemma char_of_byte_of_char [simp]: "char_of_byte (byte_of_char c) = c"
  by (simp add: char_of_byte_def)

lemma byte_of_char_of_byte [simp]: "byte_of_char (char_of_byte b) = b"
proof -
  have "unat b < 256"
    using unsigned_less [of b] by simp
  thus ?thesis
    by (simp add: byte_of_char_def char_of_byte_def)
qed

lemma map_char_byte_char [simp]: "map (char_of_byte \<circ> byte_of_char) s = s"
  by (simp add: comp_def)

lemma map_byte_char_byte [simp]: "map (byte_of_char \<circ> char_of_byte) s = s"
  by (simp add: comp_def)

lemma byte_of_char_inject [simp]: "byte_of_char a = byte_of_char b \<longleftrightarrow> a = b"
  using char_of_byte_of_char by metis

section \<open>Big-endian accessors of encoding/binary\<close>

definition PutUint16 :: "u16 \<Rightarrow> bytes" where
  "PutUint16 v = [ucast (drop_bit 8 v), ucast v]"

definition PutUint32 :: "u32 \<Rightarrow> bytes" where
  "PutUint32 v = [ucast (drop_bit 24 v), ucast (drop_bit 16 v), ucast (drop_bit 8 v), ucast v]"

unbundle bit_operations_syntax

definition Uint16 :: "bytes \<Rightarrow> u16" where
  "Uint16 b = ucast (b ! 1) OR push_bit 8 (ucast (b ! 0))"

definition Uint32 :: "bytes \<Rightarrow> u32" where
  "Uint32 b = ucast (b ! 3) OR push_bit 8 (ucast (b ! 2)) OR push_bit 16 (ucast (b ! 1))
     OR push_bit 24 (ucast (b ! 0))"

lemma length_PutUint16 [simp]: "length (PutUint16 v) = 2"
  by (simp add: PutUint16_def)

lemma length_PutUint32 [simp]: "length (PutUint32 v) = 4"
  by (simp add: PutUint32_def)

lemma Uint16_PutUint16 [simp]: "Uint16 (PutUint16 v @ r) = v"
  by (rule bit_word_eqI) (auto simp: Uint16_def PutUint16_def bit_simps)

lemma Uint32_PutUint32 [simp]: "Uint32 (PutUint32 v @ r) = v"
proof (rule bit_word_eqI)
  fix n assume "n < LENGTH(32)"
  moreover have "n < 32 \<Longrightarrow> n < 8 \<or> (8 \<le> n \<and> n < 16) \<or> (16 \<le> n \<and> n < 24) \<or> (24 \<le> n \<and> n < 32)"
    by linarith
  ultimately show "bit (Uint32 (PutUint32 v @ r)) n \<longleftrightarrow> bit v n"
    by (auto simp: Uint32_def PutUint32_def bit_simps)
qed

lemma Uint16_PutUint16_Nil [simp]: "Uint16 (PutUint16 v) = v"
  using Uint16_PutUint16 [of v "[]"] by simp

lemma Uint32_PutUint32_Nil [simp]: "Uint32 (PutUint32 v) = v"
  using Uint32_PutUint32 [of v "[]"] by simp

lemma not_bit_u8 [simp]: "8 \<le> n \<Longrightarrow> \<not> bit (b :: u8) n"
  using bit_imp_le_length [of b n] by auto

lemma PutUint16_Uint16: "PutUint16 (Uint16 [a, b]) = [a, b]"
  by (auto simp: Uint16_def PutUint16_def bit_simps intro!: bit_word_eqI)

lemma PutUint32_Uint32: "PutUint32 (Uint32 [a, b, c, d]) = [a, b, c, d]"
  by (auto simp: Uint32_def PutUint32_def bit_simps intro!: bit_word_eqI)

text \<open>\<open>put_at buf off bs\<close> is what storing \<open>bs\<close> through the slice \<open>buf[off:]\<close> leaves in
  \<open>buf\<close>; the source only does so with the bytes in range.\<close>

definition put_at :: "bytes \<Rightarrow> nat \<Rightarrow> bytes \<Rightarrow> bytes" where
  "put_at buf off bs = take off buf @ bs @ drop (off + length bs) buf"

lemma length_put_at [simp]:
  "off + length bs \<le> length buf \<Longrightarrow> length (put_at buf off bs) = length buf"
  by (simp add: put_at_def)

text \<open>Filling a zeroed buffer field by field from the left gives the concatenation of the
  fields.\<close>

lemma put_at_step:
  assumes "off = length pre" "length bs \<le> n"
  shows "put_at (pre @ replicate n 0) off bs = (pre @ bs) @ replicate (n - length bs) 0"
  using assms by (simp add: put_at_def)

lemma put_at_first:
  assumes "length bs \<le> n"
  shows "put_at (replicate n 0) 0 bs = bs @ replicate (n - length bs) 0"
  using assms by (simp add: put_at_def)

section \<open>Lists and options\<close>

lemma takeWhile_append_stop: "(\<forall>x\<in>set xs. P x) \<Longrightarrow> \<not> P y \<Longrightarrow> takeWhile P (xs @ y # ys) = xs"
  by (induction xs) auto

lemma dropWhile_append_stop:
  "(\<forall>x\<in>set xs. P x) \<Longrightarrow> \<not> P y \<Longrightarrow> dropWhile P (xs @ y # ys) = y # ys"
  by (induction xs) auto

lemma takeWhile_all_id: "(\<forall>x\<in>set xs. P x) \<Longrightarrow> takeWhile P xs = xs"
  by simp

lemma card_dom_upd_new:
  "finite (dom m) \<Longrightarrow> m k = None \<Longrightarrow> card (dom (m(k \<mapsto> v))) = Suc (card (dom m))"
  by (simp add: card_insert_if domIff)

lemma card_dom_del:
  "finite (dom m) \<Longrightarrow> m k = Some v \<Longrightarrow> card (dom (m(k := None))) = card (dom m) - 1"
  by (simp add: domI)

end
