(* ===== verification/Go_Text.thy ===== *)
theory Go_Text
  imports Prelude
begin

text \<open>
  The parts of \<open>strconv\<close> and \<open>strings\<close> the code uses: unsigned parsing in base 10 and 16 with
  the left-to-right error order of \<open>strconv.ParseUint\<close>, decimal formatting, splitting on a byte,
  trimming and fields.
\<close>

section \<open>Numbers\<close>

definition digit_val :: "char \<Rightarrow> nat option" where
  "digit_val c =
     (if CHR ''0'' \<le> c \<and> c \<le> CHR ''9'' then Some (of_char c - 48)
      else if CHR ''a'' \<le> c \<and> c \<le> CHR ''z'' then Some (of_char c - 87)
      else if CHR ''A'' \<le> c \<and> c \<le> CHR ''Z'' then Some (of_char c - 55)
      else None)"

text \<open>The digit loop of \<open>strconv.ParseUint\<close>: a bad digit is a syntax error, exceeding the width is
  a range error, whichever comes first from the left.\<close>

fun parse_uint_loop :: "nat \<Rightarrow> nat \<Rightarrow> nat \<Rightarrow> string \<Rightarrow> go_error + nat" where
  "parse_uint_loop base mx n [] = Inr n"
| "parse_uint_loop base mx n (c # cs) =
     (case digit_val c of
        None \<Rightarrow> Inl [Io StrconvErrSyntax]
      | Some d \<Rightarrow>
          if base \<le> d then Inl [Io StrconvErrSyntax]
          else if mx < n * base + d then Inl [Io StrconvErrRange]
          else parse_uint_loop base mx (n * base + d) cs)"

definition ParseUint :: "string \<Rightarrow> nat \<Rightarrow> nat \<Rightarrow> go_error + nat" where
  "ParseUint s base bits =
     (if s = [] then Inl [Io StrconvErrSyntax] else parse_uint_loop base (2 ^ bits - 1) 0 s)"

fun FormatUint :: "nat \<Rightarrow> string" where
  "FormatUint n =
     (if n < 10 then [char_of (48 + n)] else FormatUint (n div 10) @ [char_of (48 + n mod 10)])"

declare FormatUint.simps [simp del]

lemma digit_val_digit [simp]: "d < 10 \<Longrightarrow> digit_val (char_of (48 + d)) = Some d"
  by (simp add: digit_val_def less_eq_char_def)

lemma parse_uint_loop_append:
  "parse_uint_loop base mx n (xs @ ys) =
     (case parse_uint_loop base mx n xs of Inl e \<Rightarrow> Inl e | Inr m \<Rightarrow> parse_uint_loop base mx m ys)"
  by (induction base mx n xs rule: parse_uint_loop.induct) (auto split: option.splits)

lemma parse_uint_loop_Format: "n \<le> mx \<Longrightarrow> parse_uint_loop 10 mx 0 (FormatUint n) = Inr n"
proof (induction n rule: FormatUint.induct)
  case (1 n)
  show ?case
  proof (cases "n < 10")
    case True
    thus ?thesis
      using "1.prems" by (simp add: FormatUint.simps [of n])
  next
    case False
    have "parse_uint_loop 10 mx 0 (FormatUint (n div 10)) = Inr (n div 10)"
      using "1.IH" [OF False] "1.prems" by (meson div_le_dividend le_trans)
    moreover have "n div 10 * 10 + n mod 10 = n"
      by simp
    ultimately show ?thesis
      using False "1.prems" by (simp add: FormatUint.simps [of n] parse_uint_loop_append)
  qed
qed

lemma FormatUint_not_Nil [simp]: "FormatUint n \<noteq> []"
  by (subst FormatUint.simps) simp

lemma ParseUint_FormatUint: "n < 2 ^ bits \<Longrightarrow> ParseUint (FormatUint n) 10 bits = Inr n"
  by (simp add: ParseUint_def parse_uint_loop_Format)

lemma parse_uint_loop_bound: "parse_uint_loop base mx n s = Inr m \<Longrightarrow> n \<le> mx \<Longrightarrow> m \<le> mx"
  by (induction base mx n s rule: parse_uint_loop.induct) (auto split: option.splits if_splits)

lemma ParseUint_bound: "ParseUint s base bits = Inr m \<Longrightarrow> m < 2 ^ bits"
proof -
  assume "ParseUint s base bits = Inr m"
  hence "m \<le> 2 ^ bits - 1"
    using parse_uint_loop_bound [of base "2 ^ bits - 1" 0 s m]
    by (auto simp: ParseUint_def split: if_splits)
  moreover have "(0 :: nat) < 2 ^ bits"
    by simp
  ultimately show "m < 2 ^ bits"
    by linarith
qed

text \<open>Formatting in another base, and \<open>fmt\<close>'s zero padding.\<close>

definition digit_char :: "nat \<Rightarrow> char" where
  "digit_char d = char_of (if d < 10 then 48 + d else 87 + d)"

function format_base :: "nat \<Rightarrow> nat \<Rightarrow> string" where
  "format_base b n =
     (if b < 2 \<or> n < b then [digit_char n] else format_base b (n div b) @ [digit_char (n mod b)])"
  by pat_completeness auto
termination
  by (relation "measure snd") auto

declare format_base.simps [simp del]

definition zero_pad :: "nat \<Rightarrow> string \<Rightarrow> string" where
  "zero_pad w s = replicate (w - length s) (CHR ''0'') @ s"

lemma digit_table:
  "list_all (\<lambda>d. digit_val (digit_char d) = Some d \<and> digit_char d \<in> set ''0123456789abcdef'') [0..<16]"
  by code_simp

lemma digit_char_cases: "d < 16 \<Longrightarrow> digit_char d \<in> set ''0123456789abcdef''"
  using digit_table unfolding list_all_iff by (metis atLeastLessThan_iff le0 set_upt)

lemma digit_val_char: "d < 16 \<Longrightarrow> digit_val (digit_char d) = Some d"
  using digit_table unfolding list_all_iff by (metis atLeastLessThan_iff le0 set_upt)

lemma parse_format_base:
  "2 \<le> b \<Longrightarrow> b \<le> 16 \<Longrightarrow> n \<le> mx \<Longrightarrow> parse_uint_loop b mx 0 (format_base b n) = Inr n"
proof (induction b n rule: format_base.induct)
  case (1 b n)
  show ?case
  proof (cases "n < b")
    case True
    thus ?thesis
      using "1.prems" by (simp add: format_base.simps [of b n] digit_val_char)
  next
    case False
    have "parse_uint_loop b mx 0 (format_base b (n div b)) = Inr (n div b)"
      using "1.IH" False "1.prems" by (meson div_le_dividend le_trans not_less)
    moreover have "\<not> b \<le> n mod b" "n div b * b + n mod b = n"
      using "1.prems" by (simp_all add: not_le)
    moreover from this have "digit_val (digit_char (n mod b)) = Some (n mod b)"
      using "1.prems" digit_val_char [of "n mod b"] by linarith
    ultimately show ?thesis
      using False "1.prems" by (simp add: format_base.simps [of b n] parse_uint_loop_append)
  qed
qed

lemma parse_zeros: "2 \<le> b \<Longrightarrow> parse_uint_loop b mx 0 (replicate k (CHR ''0'') @ s) = parse_uint_loop b mx 0 s"
  by (induction k) (simp_all add: digit_val_def less_eq_char_def)

lemma ParseUint_padded:
  assumes "2 \<le> b" "b \<le> 16" "n < 2 ^ bits"
  shows "ParseUint (zero_pad w (format_base b n)) b bits = Inr n"
proof -
  have "zero_pad w (format_base b n) \<noteq> []"
    by (simp add: zero_pad_def) (subst format_base.simps, simp)
  thus ?thesis
    using assms by (simp add: ParseUint_def zero_pad_def parse_zeros parse_format_base)
qed

lemma set_format_base:
  "2 \<le> b \<Longrightarrow> b \<le> 16 \<Longrightarrow> set (zero_pad w (format_base b n)) \<subseteq> set ''0123456789abcdef''"
proof (induction b n rule: format_base.induct)
  case (1 b n)
  have "set (format_base b n) \<subseteq> set ''0123456789abcdef''"
  proof (cases "n < b")
    case True
    thus ?thesis
      using "1.prems" digit_char_cases [of n] by (simp add: format_base.simps [of b n])
  next
    case False
    have "n mod b < 16"
      using "1.prems" mod_less_divisor [of b n] by linarith
    thus ?thesis
      using False "1.IH" "1.prems" digit_char_cases [of "n mod b"]
      by (simp add: format_base.simps [of b n] zero_pad_def)
  qed
  thus ?case
    by (auto simp: zero_pad_def)
qed

lemma set_FormatUint: "c \<in> set (FormatUint n) \<Longrightarrow> CHR ''0'' \<le> c \<and> c \<le> CHR ''9''"
proof (induction n rule: FormatUint.induct)
  case (1 n)
  show ?case
  proof (cases "n < 10")
    case True
    thus ?thesis
      using "1.prems" by (simp add: FormatUint.simps [of n] less_eq_char_def)
  next
    case False
    moreover have "of_char (char_of (48 + n mod 10) :: char) = 48 + n mod 10"
      by simp
    ultimately show ?thesis
      using 1 by (auto simp: FormatUint.simps [of n] less_eq_char_def)
  qed
qed

section \<open>Splitting\<close>

text \<open>\<open>strings.Split(s, sep)\<close> for a one-byte separator: never empty.\<close>

fun split_on :: "'a \<Rightarrow> 'a list \<Rightarrow> 'a list list" where
  "split_on sep [] = [[]]"
| "split_on sep (c # cs) =
     (if c = sep then [] # split_on sep cs
      else case split_on sep cs of [] \<Rightarrow> [[c]] | w # ws \<Rightarrow> (c # w) # ws)"

lemma split_on_not_Nil [simp]: "split_on sep s \<noteq> []"
  by (induction sep s rule: split_on.induct) (auto split: list.splits)

lemma split_on_no_sep: "sep \<notin> set s \<Longrightarrow> split_on sep s = [s]"
  by (induction sep s rule: split_on.induct) auto

lemma split_on_pieces: "p \<in> set (split_on sep s) \<Longrightarrow> sep \<notin> set p"
  by (induction sep s arbitrary: p rule: split_on.induct) (auto split: list.splits if_splits)

lemma split_on_append_sep: "split_on sep (s @ sep # t) = split_on sep s @ split_on sep t"
proof (induction s)
  case (Cons c s)
  thus ?case
    by (cases "split_on sep s") (auto split: list.splits)
qed simp

definition is_ascii_space :: "char \<Rightarrow> bool" where
  "is_ascii_space c \<longleftrightarrow> c \<in> {CHR '' '', CHR 0x09, CHR 0x0A, CHR 0x0B, CHR 0x0C, CHR 0x0D}"

definition HasPrefix :: "'a list \<Rightarrow> 'a list \<Rightarrow> bool" where
  "HasPrefix s p \<longleftrightarrow> take (length p) s = p"

definition TrimPrefix :: "'a list \<Rightarrow> 'a list \<Rightarrow> 'a list" where
  "TrimPrefix s p = (if HasPrefix s p then drop (length p) s else s)"

definition HasSuffix :: "'a list \<Rightarrow> 'a list \<Rightarrow> bool" where
  "HasSuffix s p \<longleftrightarrow> length p \<le> length s \<and> drop (length s - length p) s = p"

definition TrimSuffix :: "'a list \<Rightarrow> 'a list \<Rightarrow> 'a list" where
  "TrimSuffix s p = (if HasSuffix s p then take (length s - length p) s else s)"

text \<open>\<open>strings.TrimSpace\<close> strips the runes of \<open>unicode.IsSpace\<close>; \<open>space_runes\<close> lists their
  UTF-8 encodings.  The first byte of an encoding is never a continuation byte, so a rune of the
  list stands at the front (at the back) of a string exactly when its encoding is a prefix (a
  suffix).\<close>

definition space_runes :: "string list" where
  "space_runes =
     [[CHR 0x09], [CHR 0x0A], [CHR 0x0B], [CHR 0x0C], [CHR 0x0D], [CHR 0x20],
      [CHR 0xC2, CHR 0x85], [CHR 0xC2, CHR 0xA0], [CHR 0xE1, CHR 0x9A, CHR 0x80]]
     @ map (\<lambda>b. [CHR 0xE2, CHR 0x80, char_of (128 + b)]) [0..<11]
     @ [[CHR 0xE2, CHR 0x80, CHR 0xA8], [CHR 0xE2, CHR 0x80, CHR 0xA9],
        [CHR 0xE2, CHR 0x80, CHR 0xAF], [CHR 0xE2, CHR 0x81, CHR 0x9F],
        [CHR 0xE3, CHR 0x80, CHR 0x80]]"

function strip_by :: "'a list list \<Rightarrow> 'a list \<Rightarrow> 'a list" where
  "strip_by ps s =
     (case find (\<lambda>p. p \<noteq> [] \<and> HasPrefix s p) ps of
        None \<Rightarrow> s
      | Some p \<Rightarrow> strip_by ps (drop (length p) s))"
  by pat_completeness auto
termination
  by (relation "measure (\<lambda>(ps, s). length s)")
    (auto simp: find_Some_iff HasPrefix_def intro!: diff_less)

declare strip_by.simps [simp del]

definition TrimSpace :: "string \<Rightarrow> string" where
  "TrimSpace s = rev (strip_by (map rev space_runes) (rev (strip_by space_runes s)))"

lemma strip_by_id: "(\<And>p. p \<in> set ps \<Longrightarrow> p \<noteq> [] \<Longrightarrow> \<not> HasPrefix s p) \<Longrightarrow> strip_by ps s = s"
  by (subst strip_by.simps) (auto split: option.splits simp: find_Some_iff)

lemma TrimSpace_id:
  assumes "\<And>p. p \<in> set space_runes \<Longrightarrow> \<not> HasPrefix s p"
    "\<And>p. p \<in> set space_runes \<Longrightarrow> \<not> HasPrefix (rev s) (rev p)"
  shows "TrimSpace s = s"
proof -
  have "strip_by space_runes s = s"
    using assms(1) by (rule strip_by_id)
  moreover have "strip_by (map rev space_runes) (rev s) = rev s"
    using assms(2) by (intro strip_by_id) auto
  ultimately show ?thesis
    by (simp add: TrimSpace_def)
qed

lemma HasPrefix_hd: "HasPrefix s p \<Longrightarrow> p \<noteq> [] \<Longrightarrow> s \<noteq> [] \<and> hd s = hd p"
  by (cases s; cases p) (auto simp: HasPrefix_def)

text \<open>A string that neither begins nor ends with a byte of the encodings is left alone.\<close>

definition space_byte :: "char \<Rightarrow> bool" where
  "space_byte c \<longleftrightarrow> of_char c \<le> (32 :: nat) \<or> (128 :: nat) \<le> of_char c"

lemma space_runes_bytes: "p \<in> set space_runes \<Longrightarrow> p \<noteq> [] \<and> (\<forall>c\<in>set p. space_byte c)"
  by (auto simp: space_runes_def space_byte_def)

lemma TrimSpace_plain:
  assumes "s \<noteq> []" "\<not> space_byte (hd s)" "\<not> space_byte (last s)"
  shows "TrimSpace s = s"
proof (rule TrimSpace_id)
  fix p assume p: "p \<in> set space_runes"
  show "\<not> HasPrefix s p"
    using HasPrefix_hd [of s p] space_runes_bytes [OF p] assms by (metis hd_in_set)
  show "\<not> HasPrefix (rev s) (rev p)"
    using HasPrefix_hd [of "rev s" "rev p"] space_runes_bytes [OF p] assms
    by (metis hd_in_set hd_rev rev_is_Nil_conv set_rev)
qed

text \<open>The white space rune at the front of a string, if there is one.\<close>

definition leading_space :: "string \<Rightarrow> string option" where
  "leading_space s = find (\<lambda>p. p \<noteq> [] \<and> HasPrefix s p) space_runes"

text \<open>\<open>strings.Fields\<close>: the non-empty words between runs of white space.\<close>

function fields_acc :: "string \<Rightarrow> string \<Rightarrow> string list" where
  "fields_acc w s =
     (case s of
        [] \<Rightarrow> (if w = [] then [] else [w])
      | c # cs \<Rightarrow>
          (case leading_space s of
             None \<Rightarrow> fields_acc (w @ [c]) cs
           | Some p \<Rightarrow> (if w = [] then [] else [w]) @ fields_acc [] (drop (length p) s)))"
  by pat_completeness auto
termination
  by (relation "measure (\<lambda>(w, s). length s)")
    (auto simp: leading_space_def find_Some_iff HasPrefix_def intro!: diff_less)

declare fields_acc.simps [simp del]

definition Fields :: "string \<Rightarrow> string list" where
  "Fields s = fields_acc [] s"

lemma leading_space_None: "s \<noteq> [] \<Longrightarrow> \<not> space_byte (hd s) \<Longrightarrow> leading_space s = None"
  using HasPrefix_hd [of s] space_runes_bytes
  by (auto simp: leading_space_def find_None_iff)

lemma leading_space_blank: "leading_space (CHR '' '' # s) = Some '' ''"
  by (simp add: leading_space_def space_runes_def HasPrefix_def)

lemma fields_acc_word:
  "\<forall>c\<in>set v. \<not> space_byte c \<Longrightarrow> fields_acc w (v @ s) = fields_acc (w @ v) s"
proof (induction v arbitrary: w)
  case (Cons c v)
  thus ?case
    by (subst fields_acc.simps) (simp add: leading_space_None)
qed simp

lemma fields_acc_blank: "fields_acc w (CHR '' '' # s) = (if w = [] then [] else [w]) @ fields_acc [] s"
  by (subst fields_acc.simps) (simp add: leading_space_blank)

lemma fields_acc_Nil: "fields_acc w [] = (if w = [] then [] else [w])"
  by (simp add: fields_acc.simps)

text \<open>Words separated by blanks are the fields.\<close>

lemma Fields_word:
  assumes "w \<noteq> []" "\<forall>c\<in>set w. \<not> space_byte c"
  shows "Fields (w @ CHR '' '' # s) = w # Fields s"
  using assms fields_acc_word [of w "[]"] by (simp add: Fields_def fields_acc_blank)

lemma Fields_last: "w \<noteq> [] \<Longrightarrow> \<forall>c\<in>set w. \<not> space_byte c \<Longrightarrow> Fields w = [w]"
  using fields_acc_word [of w "[]" "[]"] by (simp add: Fields_def fields_acc_Nil)

lemma Fields_blank: "Fields (CHR '' '' # s) = Fields s"
  by (simp add: Fields_def fields_acc_blank)

text \<open>\<open>bufio.Scanner\<close> with \<open>ScanLines\<close>: lines without their end-of-line bytes, no last empty line; a
  line of 64 KiB or more stops the scan with an error.\<close>

definition dropCR :: "string \<Rightarrow> string" where
  "dropCR l = (if l \<noteq> [] \<and> last l = CHR 0x0D then butlast l else l)"

definition ScanLines :: "string \<Rightarrow> string list \<times> go_error option" where
  "ScanLines s =
     (let ls = split_on (CHR 0x0A) s;
          ls = (if last ls = [] then butlast ls else ls);
          ok = takeWhile (\<lambda>l. length l < 65536) ls
      in (map dropCR ok, if length ok < length ls then Some [Io BufioErrTooLong] else None))"

text \<open>\<open>strings.Cut(s, sep)\<close> for a one-byte separator.\<close>

definition cut :: "'a \<Rightarrow> 'a list \<Rightarrow> ('a list \<times> 'a list) option" where
  "cut sep s =
     (if sep \<in> set s then Some (takeWhile (\<lambda>c. c \<noteq> sep) s, tl (dropWhile (\<lambda>c. c \<noteq> sep) s))
      else None)"

lemma cut_Some:
  assumes "cut sep s = Some (a, b)"
  shows "s = a @ sep # b \<and> sep \<notin> set a"
proof -
  have "sep \<in> set s" and ab: "a = takeWhile (\<lambda>c. c \<noteq> sep) s" "b = tl (dropWhile (\<lambda>c. c \<noteq> sep) s)"
    using assms by (auto simp: cut_def split: if_splits)
  then obtain y ys where d: "dropWhile (\<lambda>c. c \<noteq> sep) s = y # ys"
    by (cases "dropWhile (\<lambda>c. c \<noteq> sep) s") (auto simp: dropWhile_eq_Nil_conv)
  moreover have "y = sep"
    using d hd_dropWhile [of "\<lambda>c. c \<noteq> sep" s] by simp
  ultimately show ?thesis
    using ab takeWhile_dropWhile_id [of "\<lambda>c. c \<noteq> sep" s] by (auto dest: set_takeWhileD)
qed

lemma cut_append: "sep \<notin> set a \<Longrightarrow> cut sep (a @ sep # b) = Some (a, b)"
  by (induction a) (auto simp: cut_def)

end
