(* ===== verification/Domain_Types.thy ===== *)
theory Domain_Types
  imports Go_Text
begin

text \<open>
  The value types of \<open>pkg/domain\<close>: ports, statuses, speeds, device identifiers, devices and
  interfaces, and the protocol constants of \<open>constants.go\<close> and \<open>internal/protocol\<close>.  The open
  enums of the source (\<open>Status\<close>, \<open>Speed\<close>) are 32-bit words with named constants, because a peer
  or a kernel file can produce any value of the width.
\<close>

section \<open>constants.go, internal/protocol/opcodes.go\<close>

definition ProtocolVersion :: u16 where "ProtocolVersion = 0x0111"
definition BusIDSize :: nat where "BusIDSize = 32"
definition SysPathSize :: nat where "SysPathSize = 256"
definition DefaultPort :: u16 where "DefaultPort = 3240"

definition OpReqDevlist :: u16 where "OpReqDevlist = 0x8005"
definition OpRepDevlist :: u16 where "OpRepDevlist = 0x0005"
definition OpReqImport :: u16 where "OpReqImport = 0x8003"
definition OpRepImport :: u16 where "OpRepImport = 0x0003"

definition ImportStatusNA :: u32 where "ImportStatusNA = 1"
definition ImportStatusDevBusy :: u32 where "ImportStatusDevBusy = 2"
definition ImportStatusDevErr :: u32 where "ImportStatusDevErr = 3"
definition ImportStatusNoDev :: u32 where "ImportStatusNoDev = 4"

lemmas protocol_consts = ProtocolVersion_def OpReqDevlist_def OpRepDevlist_def OpReqImport_def
  OpRepImport_def ImportStatusNA_def ImportStatusDevBusy_def ImportStatusDevErr_def
  ImportStatusNoDev_def

section \<open>deviceid.go\<close>

unbundle bit_operations_syntax

type_synonym DeviceID = u32

definition DeviceID_BusNum :: "DeviceID \<Rightarrow> u16" where
  "DeviceID_BusNum d = ucast ((drop_bit 16 d) AND 0xFFFF)"

definition DeviceID_DevNum :: "DeviceID \<Rightarrow> u16" where
  "DeviceID_DevNum d = ucast (d AND 0xFFFF)"

section \<open>status.go, speed.go\<close>

type_synonym Status = u32

definition StatusNull :: Status where "StatusNull = 0"
definition StatusNotAssigned :: Status where "StatusNotAssigned = 1"
definition StatusAvailable :: Status where "StatusAvailable = 2"
definition StatusUsed :: Status where "StatusUsed = 3"
definition StatusError :: Status where "StatusError = 4"

lemmas status_consts = StatusNull_def StatusNotAssigned_def StatusAvailable_def StatusUsed_def
  StatusError_def

type_synonym Speed = u32

definition SpeedUnknown :: Speed where "SpeedUnknown = 0"
definition SpeedLow :: Speed where "SpeedLow = 1"
definition SpeedFull :: Speed where "SpeedFull = 2"
definition SpeedHigh :: Speed where "SpeedHigh = 3"
definition SpeedWireless :: Speed where "SpeedWireless = 4"
definition SpeedSuper :: Speed where "SpeedSuper = 5"
definition SpeedSuperPlus :: Speed where "SpeedSuperPlus = 6"

lemmas speed_consts = SpeedUnknown_def SpeedLow_def SpeedFull_def SpeedHigh_def
  SpeedWireless_def SpeedSuper_def SpeedSuperPlus_def

definition Speed_IsKnown :: "Speed \<Rightarrow> bool" where
  "Speed_IsKnown s \<longleftrightarrow> s \<in> {SpeedUnknown, SpeedLow, SpeedFull, SpeedHigh, SpeedWireless,
     SpeedSuper, SpeedSuperPlus}"

lemma Speed_IsKnown_iff: "Speed_IsKnown s \<longleftrightarrow> s \<le> 6"
proof -
  have "s \<le> 6 \<longleftrightarrow> unat s \<le> 6"
    by (simp add: word_le_nat_alt)
  also have "\<dots> \<longleftrightarrow> unat s = 0 \<or> unat s = 1 \<or> unat s = 2 \<or> unat s = 3 \<or> unat s = 4
      \<or> unat s = 5 \<or> unat s = 6"
    by linarith
  also have "\<dots> \<longleftrightarrow> s = 0 \<or> s = 1 \<or> s = 2 \<or> s = 3 \<or> s = 4 \<or> s = 5 \<or> s = 6"
    by (auto simp: word_unat_eq_iff)
  finally show ?thesis
    by (simp add: Speed_IsKnown_def speed_consts)
qed

section \<open>device.go\<close>

record Interface =
  iClass :: u8
  iSubclass :: u8
  iProtocol :: u8
  iAlt :: u8

record Device =
  dPath :: string
  dBusID :: string
  dBusNum :: u16
  dDevNum :: u16
  dSpeed :: Speed
  dVendorID :: u16
  dProductID :: u16
  dBcdDevice :: u16
  dClass :: u8
  dSubclass :: u8
  dProtocol :: u8
  dConfigValue :: u8
  dNumConfigs :: u8
  dNumInterfaces :: u8
  dManufacturer :: string
  dProduct :: string
  dInterfaces :: "Interface list"

section \<open>remote.go, port.go: endpoint and port records\<close>

record RemoteEndpoint =
  reHost :: string
  rePort :: u16

type_synonym PortID = u32

record Port =
  pID :: PortID
  pStatus :: Status
  pSpeed :: Speed
  pDeviceID :: DeviceID
  pRemote :: RemoteEndpoint
  pBusID :: string
  pLocalBusID :: string

section \<open>Labels\<close>

definition Status_String :: "Status \<Rightarrow> string" where
  "Status_String s =
     (if s = StatusNull then ''null''
      else if s = StatusNotAssigned then ''not-assigned''
      else if s = StatusAvailable then ''available''
      else if s = StatusUsed then ''used''
      else if s = StatusError then ''error''
      else ''status('' @ FormatUint (unat s) @ '')'')"

definition Speed_String :: "Speed \<Rightarrow> string" where
  "Speed_String s =
     (if s = SpeedUnknown then ''unknown''
      else if s = SpeedLow then ''Low-Speed (1.5Mbps)''
      else if s = SpeedFull then ''Full-Speed (12Mbps)''
      else if s = SpeedHigh then ''High-Speed (480Mbps)''
      else if s = SpeedWireless then ''Wireless''
      else if s = SpeedSuper then ''SuperSpeed (5Gbps)''
      else if s = SpeedSuperPlus then ''SuperSpeed+ (10/20Gbps)''
      else ''speed('' @ FormatUint (unat s) @ '')'')"

definition hexByte :: "u8 \<Rightarrow> string" where
  "hexByte b = (let hex = ''0123456789abcdef'' in [hex ! unat (drop_bit 4 b), hex ! unat (b AND 0xF)])"

end
