(* ===== verification/Go_IO.thy ===== *)
theory Go_IO
  imports Prelude
begin

text \<open>
  The parts of Go's \<open>io\<close> and \<open>bufio\<close> packages that the code uses.

  A reader is a buffer of bytes already fetched (\<open>rbuf\<close>), the chunks that successive reads of the
  underlying connection will deliver (\<open>rchunks\<close>) and the error the source reports once they are
  exhausted (\<open>rend\<close>; a clean close is \<open>io.EOF\<close>).  For a \<open>bufio.Reader\<close>, \<open>rbuf\<close> is what
  \<open>Buffered\<close> counts; for a plain connection it is the rest of the segment in progress.
  \<open>io_ReadFull\<close> fetches chunk after chunk and leaves the surplus of the last one in the buffer;
  its result depends only on the byte stream (\<open>rcontent\<close>), which \<open>io_ReadFull_content\<close> shows.

  A writer accumulates bytes and may fail once a capacity is exceeded, in which case a prefix has
  been written, as the contract of \<open>io.Writer\<close> allows.
\<close>

section \<open>Sequencing with early return\<close>

text \<open>\<open>x, err := f(r); if err != nil { return err }; ...\<close> for readers and for writers.\<close>

fun rbind :: "(('e + 'a) \<times> 'r) \<Rightarrow> ('a \<Rightarrow> 'r \<Rightarrow> ('e + 'b) \<times> 'r) \<Rightarrow> ('e + 'b) \<times> 'r" where
  "rbind (Inl e, r) f = (Inl e, r)"
| "rbind (Inr a, r) f = f a r"

fun wbind :: "('e option \<times> 'w) \<Rightarrow> ('w \<Rightarrow> 'e option \<times> 'w) \<Rightarrow> 'e option \<times> 'w" where
  "wbind (Some e, w) f = (Some e, w)"
| "wbind (None, w) f = f w"

lemma rbind_eq_Inr:
  "rbind x f = (Inr b, r) \<longleftrightarrow> (\<exists>a r1. x = (Inr a, r1) \<and> f a r1 = (Inr b, r))"
  by (cases "(x, f)" rule: rbind.cases) auto

lemma fst_rbind_Inl: "fst x = Inl e \<Longrightarrow> fst (rbind x f) = Inl e"
  by (cases x) auto

lemma fst_rbind_error:
  "\<exists>e. fst x = Inl e \<and> P e \<Longrightarrow> \<exists>e. fst (rbind x f) = Inl e \<and> P e"
  by (metis fst_rbind_Inl)

lemma wbind_eq_None: "wbind x f = (None, w) \<longleftrightarrow> (\<exists>w1. x = (None, w1) \<and> f w1 = (None, w))"
  by (cases "(x, f)" rule: wbind.cases) auto

section \<open>Readers\<close>

record reader =
  rbuf :: bytes
  rchunks :: "bytes list"
  rend :: go_error

definition rcontent :: "reader \<Rightarrow> bytes" where
  "rcontent r = rbuf r @ concat (rchunks r)"

definition reader_of :: "bytes \<Rightarrow> reader" where
  "reader_of bs = \<lparr>rbuf = [], rchunks = [bs], rend = [Io EOF]\<rparr>"

text \<open>Fetch chunks until the buffer holds \<open>n\<close> bytes or the source is exhausted.\<close>

fun refill :: "bytes \<Rightarrow> bytes list \<Rightarrow> nat \<Rightarrow> bytes \<times> bytes list" where
  "refill buf [] n = (buf, [])"
| "refill buf (c # cs) n = (if n \<le> length buf then (buf, c # cs) else refill (buf @ c) cs n)"

text \<open>\<open>io.ReadFull(r, buf)\<close> with \<open>len(buf) = n\<close>: either the \<open>n\<close> bytes, or the number of bytes
  read together with the error.  Bytes of a short read are consumed.\<close>

definition io_ReadFull :: "reader \<Rightarrow> nat \<Rightarrow> ((nat \<times> go_error) + bytes) \<times> reader" where
  "io_ReadFull r n =
     (let (buf, cs) = refill (rbuf r) (rchunks r) n in
      if n \<le> length buf then (Inr (take n buf), r\<lparr>rbuf := drop n buf, rchunks := cs\<rparr>)
      else (Inl (length buf,
                 if 0 < length buf \<and> rend r = [Io EOF] then [Io ErrUnexpectedEOF] else rend r),
            r\<lparr>rbuf := [], rchunks := cs\<rparr>))"

lemma refill_content: "refill buf cs n = (buf', cs') \<Longrightarrow> buf' @ concat cs' = buf @ concat cs"
  by (induction buf cs n arbitrary: buf' cs' rule: refill.induct) (auto split: if_splits)

lemma refill_short: "refill buf cs n = (buf', cs') \<Longrightarrow> length buf' < n \<Longrightarrow> cs' = []"
  by (induction buf cs n arbitrary: buf' cs' rule: refill.induct) (auto split: if_splits)

text \<open>The chunking of the stream is irrelevant to what is read.\<close>

lemma io_ReadFull_ok:
  assumes "rcontent r = bs @ rest"
  obtains r' where "io_ReadFull r (length bs) = (Inr bs, r')" "rcontent r' = rest" "rend r' = rend r"
proof -
  obtain buf cs where *: "refill (rbuf r) (rchunks r) (length bs) = (buf, cs)"
    by fastforce
  have **: "buf @ concat cs = bs @ rest"
    using refill_content [OF *] assms by (simp add: rcontent_def)
  moreover have le: "length bs \<le> length buf"
    using ** refill_short [OF *] by (metis append.right_neutral concat.simps(1) length_append
        linorder_not_less not_add_less1)
  ultimately have "take (length bs) buf = bs" "drop (length bs) buf @ concat cs = rest"
    by (auto simp: append_eq_append_conv_if split: if_splits)
  thus thesis
    using * le by (intro that [of "r\<lparr>rbuf := drop (length bs) buf, rchunks := cs\<rparr>"])
      (simp_all add: io_ReadFull_def rcontent_def)
qed

lemma io_ReadFull_short:
  assumes "length (rcontent r) < n"
  shows "fst (io_ReadFull r n) = Inl (length (rcontent r),
           if rcontent r \<noteq> [] \<and> rend r = [Io EOF] then [Io ErrUnexpectedEOF] else rend r)"
proof -
  obtain buf cs where *: "refill (rbuf r) (rchunks r) n = (buf, cs)"
    by fastforce
  have **: "buf @ concat cs = rcontent r"
    using refill_content [OF *] by (simp add: rcontent_def)
  hence lt: "length buf < n"
    using assms by (metis length_append trans_le_add1 linorder_not_le not_less)
  hence "buf = rcontent r"
    using ** refill_short [OF *] by simp
  thus ?thesis
    using * lt by (auto simp: io_ReadFull_def)
qed

lemma io_ReadFull_content:
  assumes "n \<le> length (rcontent r)"
  shows "fst (io_ReadFull r n) = Inr (take n (rcontent r))"
    and "rcontent (snd (io_ReadFull r n)) = drop n (rcontent r)"
    and "rend (snd (io_ReadFull r n)) = rend r"
proof -
  have len: "length (take n (rcontent r)) = n"
    using assms by simp
  obtain r' where "io_ReadFull r n = (Inr (take n (rcontent r)), r')"
      "rcontent r' = drop n (rcontent r)" "rend r' = rend r"
    using io_ReadFull_ok [of r "take n (rcontent r)" "drop n (rcontent r)"] len by auto
  thus "fst (io_ReadFull r n) = Inr (take n (rcontent r))"
      "rcontent (snd (io_ReadFull r n)) = drop n (rcontent r)"
      "rend (snd (io_ReadFull r n)) = rend r"
    by simp_all
qed

lemma io_ReadFull_short_rest:
  assumes "length (rcontent r) < n"
  shows "rcontent (snd (io_ReadFull r n)) = []"
proof -
  obtain buf cs where *: "refill (rbuf r) (rchunks r) n = (buf, cs)"
    by fastforce
  have "length buf < n"
    using refill_content [OF *] assms
    by (metis length_append linorder_not_le not_less rcontent_def trans_le_add1)
  thus ?thesis
    using * refill_short [OF *] by (simp add: io_ReadFull_def rcontent_def)
qed

lemma io_ReadFull_Inr:
  assumes "io_ReadFull r n = (Inr bs, r')"
  shows "length bs = n \<and> rcontent r = bs @ rcontent r' \<and> rend r' = rend r"
proof (cases "n \<le> length (rcontent r)")
  case True
  from io_ReadFull_content [OF this] assms show ?thesis
    using True by auto
next
  case False
  with io_ReadFull_short [of r n] assms show ?thesis
    by simp
qed

lemma rcontent_reader_of [simp]: "rcontent (reader_of bs) = bs"
  by (simp add: rcontent_def reader_of_def)

lemma rend_reader_of [simp]: "rend (reader_of bs) = [Io EOF]"
  by (simp add: reader_of_def)

section \<open>Writers\<close>

record writer =
  wout :: bytes
  wcap :: "nat option"
  werr :: go_error

definition io_Write :: "writer \<Rightarrow> bytes \<Rightarrow> go_error option \<times> writer" where
  "io_Write w bs =
     (case wcap w of
        None \<Rightarrow> (None, w\<lparr>wout := wout w @ bs\<rparr>)
      | Some c \<Rightarrow>
          if length (wout w) + length bs \<le> c then (None, w\<lparr>wout := wout w @ bs\<rparr>)
          else (Some (werr w), w\<lparr>wout := wout w @ take (c - length (wout w)) bs\<rparr>))"

definition sink :: writer where
  "sink = \<lparr>wout = [], wcap = None, werr = []\<rparr>"

lemma io_Write_sink [simp]: "wcap w = None \<Longrightarrow> io_Write w bs = (None, w\<lparr>wout := wout w @ bs\<rparr>)"
  by (simp add: io_Write_def)

lemma io_Write_extends: "\<exists>k. wout (snd (io_Write w bs)) = wout w @ take k bs"
  by (cases "wcap w") (auto simp: io_Write_def intro: exI [of _ "length bs"])

lemma io_Write_ok: "io_Write w bs = (None, w') \<Longrightarrow> w' = w\<lparr>wout := wout w @ bs\<rparr>"
  by (auto simp: io_Write_def split: option.splits if_splits)

end
