(* ===== verification/Domain_Session.thy ===== *)
theory Domain_Session
  imports Domain_Types Go_IO
begin

text \<open>
  \<open>pkg/domain/session.go\<close> and \<open>events.go\<close>: UUIDv7 session identifiers, the session record and the
  domain events.  Times are \<open>int\<close> (nanoseconds for clock readings, milliseconds where the source
  uses \<open>UnixMilli\<close>); a network address is its textual form.
\<close>

section \<open>Definitions\<close>

unbundle bit_operations_syntax

type_synonym SessionID = bytes

definition uuidVersion7High :: u8 where "uuidVersion7High = 0x70"
definition uuidVersionByteMask :: u8 where "uuidVersionByteMask = 0x0f"
definition uuidVariantRFC4122High :: u8 where "uuidVariantRFC4122High = 0x80"
definition uuidVariantByteMask :: u8 where "uuidVariantByteMask = 0x3f"

text \<open>\<open>newSessionID(random, now)\<close>: 16 random bytes, the millisecond time stamp over the first six,
  version and variant bits over bytes 6 and 8.  \<open>ms\<close> is \<open>now.UnixMilli()\<close>.\<close>

definition newSessionID :: "reader \<Rightarrow> int \<Rightarrow> (go_error + SessionID) \<times> reader" where
  "newSessionID random ms =
     (case io_ReadFull random 16 of
        (Inl (n, err), random) \<Rightarrow> (Inl err, random)
      | (Inr uid, random) \<Rightarrow>
          let ms = word_of_int ms :: u64;
              high = ucast ((drop_bit 32 ms) AND 0xffff) :: u16;
              low = ucast (ms AND 0xffffffff) :: u32;
              uid = put_at uid 0 (PutUint16 high);
              uid = put_at uid 2 (PutUint32 low);
              uid = uid[6 := ((uid ! 6) AND uuidVersionByteMask) OR uuidVersion7High];
              uid = uid[8 := ((uid ! 8) AND uuidVariantByteMask) OR uuidVariantRFC4122High]
          in (Inr uid, random))"

definition hex_encode :: "bytes \<Rightarrow> string" where
  "hex_encode bs = concat (map hexByte bs)"

definition put_str :: "string \<Rightarrow> nat \<Rightarrow> string \<Rightarrow> string" where
  "put_str buf off s = take off buf @ s @ drop (off + length s) buf"

definition SessionID_String :: "SessionID \<Rightarrow> string" where
  "SessionID_String uid =
     (let b = replicate 36 (CHR 0x00);
          b = put_str b 0 (hex_encode (take 4 uid));
          b = put_str b 9 (hex_encode (take 2 (drop 4 uid)));
          b = put_str b 14 (hex_encode (take 2 (drop 6 uid)));
          b = put_str b 19 (hex_encode (take 2 (drop 8 uid)));
          b = put_str b 24 (hex_encode (take 6 (drop 10 uid)))
      in b[8 := CHR ''-'', 13 := CHR ''-'', 18 := CHR ''-'', 23 := CHR ''-''])"

record Session =
  sID :: SessionID
  sRemoteAddr :: string
  sBusID :: string
  sStartedAt :: int
  sBytesIn :: u64
  sBytesOut :: u64

datatype EventKind =
    EventPortAttached | EventPortDetached | EventPortErrored | EventPortReconnectExhausted
  | EventDeviceBound | EventDeviceUnbound | EventSessionStarted | EventSessionEnded

datatype Event =
    PortAttachedEvent (evAt: int) (evPort: Port)
  | PortDetachedEvent (evAt: int) (evPort: Port) (evReason: string)
  | PortErroredEvent (evAt: int) (evPort: Port) (evErr: string)
  | PortReconnectExhaustedEvent (evAt: int) (evPort: Port) (evAttempts: int) (evLastError: string)
  | DeviceBoundEvent (evAt: int) (evDevice: Device)
  | DeviceUnboundEvent (evAt: int) (evDevice: Device)
  | SessionStartedEvent (evAt: int) (evSession: Session)
  | SessionEndedEvent (evAt: int) (evSession: Session) (evReason: string)

fun EventKind_of :: "Event \<Rightarrow> EventKind" where
  "EventKind_of (PortAttachedEvent _ _) = EventPortAttached"
| "EventKind_of (PortDetachedEvent _ _ _) = EventPortDetached"
| "EventKind_of (PortErroredEvent _ _ _) = EventPortErrored"
| "EventKind_of (PortReconnectExhaustedEvent _ _ _ _) = EventPortReconnectExhausted"
| "EventKind_of (DeviceBoundEvent _ _) = EventDeviceBound"
| "EventKind_of (DeviceUnboundEvent _ _) = EventDeviceUnbound"
| "EventKind_of (SessionStartedEvent _ _) = EventSessionStarted"
| "EventKind_of (SessionEndedEvent _ _ _) = EventSessionEnded"

section \<open>The UUID layout\<close>

text \<open>Big-endian value of a byte sequence, for the 48-bit time stamp.\<close>

definition be_value :: "bytes \<Rightarrow> nat" where
  "be_value bs = foldl (\<lambda>n b. n * 256 + unat b) 0 bs"

lemma unat_drop_bit_div: "unat (drop_bit n w) = unat w div 2 ^ n"
  by (subst unat_drop_bit_eq) (rule drop_bit_eq_div)

lemma unat_ucast_byte: "unat (ucast w :: u8) = unat w mod 256"
  by (simp add: unsigned_ucast_eq take_bit_nat_def)

lemma be_value_PutUint16: "be_value (PutUint16 v) = unat v"
proof -
  have "unat v < 65536"
    using unsigned_less [of v, where ?'a = nat] by simp
  hence "unat v div 256 mod 256 = unat v div 256"
    by simp
  thus ?thesis
    by (simp add: be_value_def PutUint16_def unat_ucast_byte unat_drop_bit_div del: drop_bit_numeral_bit0)
qed

lemma four_digits:
  fixes n :: nat
  shows "((n div 2 ^ 24 * 256 + n div 2 ^ 16 mod 256) * 256 + n div 2 ^ 8 mod 256) * 256
      + n mod 256 = n"
proof -
  have "n div 2 ^ 16 = n div 2 ^ 8 div 256" "n div 2 ^ 24 = n div 2 ^ 8 div 256 div 256"
    by (simp_all add: div_mult2_eq [symmetric])
  hence "n div 2 ^ 24 * 256 + n div 2 ^ 16 mod 256 = n div 2 ^ 16"
    by simp
  moreover have "n div 2 ^ 16 * 256 + n div 2 ^ 8 mod 256 = n div 2 ^ 8"
    using \<open>n div 2 ^ 16 = n div 2 ^ 8 div 256\<close> by simp
  ultimately show ?thesis
    by simp
qed

lemma be_value_PutUint32: "be_value (PutUint32 v) = unat v"
proof -
  have "unat v < 2 ^ 32"
    using unsigned_less [of v, where ?'a = nat] by simp
  hence "unat v div 2 ^ 24 mod 256 = unat v div 2 ^ 24"
    by (simp add: div_less_iff_less_mult)
  with four_digits [of "unat v"] show ?thesis
    by (simp add: be_value_def PutUint32_def unat_ucast_byte unat_drop_bit_div)
qed

lemma be_value_append: "be_value (a @ b) = be_value a * 256 ^ length b + be_value b"
proof -
  let ?f = "\<lambda>n b. n * 256 + unat (b :: u8)"
  have "foldl ?f n bs = n * 256 ^ length bs + foldl ?f 0 bs" for n bs
  proof (induction bs arbitrary: n)
    case (Cons x bs)
    have "foldl ?f n (x # bs) = (n * 256 + unat x) * 256 ^ length bs + foldl ?f 0 bs"
      by (simp only: foldl_Cons Cons [of "n * 256 + unat x"])
    moreover have "foldl ?f 0 (x # bs) = unat x * 256 ^ length bs + foldl ?f 0 bs"
      by (simp only: foldl_Cons mult_zero_left add_0_left Cons [of "unat x"])
    ultimately show ?case
      by (simp add: algebra_simps)
  qed simp
  thus ?thesis
    unfolding be_value_def foldl_append by blast
qed

lemma version_bits: "drop_bit 4 (((x :: u8) AND 0x0f) OR 0x70) = 7"
  "(((x :: u8) AND 0x0f) OR 0x70) AND 0x0f = x AND 0x0f"
  by (rule bit_word_eqI; auto simp: bit_simps less_Suc_eq numeral_eq_Suc)+

lemma variant_bits: "drop_bit 6 (((x :: u8) AND 0x3f) OR 0x80) = 2"
  "(((x :: u8) AND 0x3f) OR 0x80) AND 0x3f = x AND 0x3f"
  by (rule bit_word_eqI; auto simp: bit_simps less_Suc_eq numeral_eq_Suc)+

lemma split48:
  fixes m :: u64
  shows "unat (ucast ((drop_bit 32 m) AND 0xffff) :: u16) * 256 ^ 4 + unat (ucast (m AND 0xffffffff) :: u32)
    = unat m mod 2 ^ 48"
proof -
  have masks: "(0xffff :: u64) = mask 16" "(0xffffffff :: u64) = mask 32"
    by (simp_all add: mask_eq_exp_minus_1)
  have "ucast ((drop_bit 32 m) AND 0xffff) = (ucast (drop_bit 32 m) :: u16)"
    unfolding masks by (rule bit_word_eqI) (auto simp: bit_simps)
  hence h: "unat (ucast ((drop_bit 32 m) AND 0xffff) :: u16) = unat m div 2 ^ 32 mod 2 ^ 16"
    by (simp add: unsigned_ucast_eq unat_drop_bit_div take_bit_nat_def)
  have "ucast (m AND 0xffffffff) = (ucast m :: u32)"
    unfolding masks by (rule bit_word_eqI) (auto simp: bit_simps)
  hence l: "unat (ucast (m AND 0xffffffff) :: u32) = unat m mod 2 ^ 32"
    by (simp add: unsigned_ucast_eq take_bit_nat_def)
  have "unat m mod (2 ^ 32 * 2 ^ 16) = 2 ^ 32 * (unat m div 2 ^ 32 mod 2 ^ 16) + unat m mod 2 ^ 32"
    by (rule mod_mult2_eq)
  thus ?thesis
    unfolding h l by simp
qed

definition uuid_layout :: "bytes \<Rightarrow> int \<Rightarrow> bytes" where
  "uuid_layout rnd ms =
     PutUint16 (ucast ((drop_bit 32 (word_of_int ms :: u64)) AND 0xffff))
     @ PutUint32 (ucast ((word_of_int ms :: u64) AND 0xffffffff))
     @ [((rnd ! 6) AND 0x0f) OR 0x70, rnd ! 7, ((rnd ! 8) AND 0x3f) OR 0x80] @ drop 9 rnd"

lemma newSessionID_layout:
  assumes "io_ReadFull random 16 = (Inr rnd, random')"
  shows "newSessionID random ms = (Inr (uuid_layout rnd ms), random')"
proof -
  have "length rnd = 16"
    using io_ReadFull_Inr [OF assms] by simp
  then obtain a b c d e f g h i j k l m n p q where
    rnd: "rnd = [a, b, c, d, e, f, g, h, i, j, k, l, m, n, p, q]"
    by (auto simp: numeral_eq_Suc length_Suc_conv)
  show ?thesis
    using assms by (simp add: newSessionID_def uuid_layout_def put_at_def rnd PutUint16_def
        PutUint32_def uuidVersion7High_def uuidVersionByteMask_def uuidVariantRFC4122High_def
        uuidVariantByteMask_def Let_def)
qed

lemma nat_ms: "int (unat (word_of_int ms :: u64) mod 2 ^ 48) = ms mod 2 ^ 48"
proof -
  have "int (unat (word_of_int ms :: u64)) = ms mod 2 ^ 64"
    by (simp add: unsigned_of_int take_bit_int_def)
  moreover have "ms mod 2 ^ 64 mod 2 ^ 48 = ms mod 2 ^ 48"
    by (simp add: mod_mod_cancel)
  ultimately show ?thesis
    by (simp add: zmod_int)
qed

section \<open>Properties\<close>

text \<open>Session identifiers are version-7 UUIDs.  Whenever the random source delivers 16 bytes
  the identifier has 16 bytes, its first six are the millisecond time stamp modulo 2^48, the
  version nibble is 7, the variant bits are 10, and every other bit is the random source's.\<close>

theorem newSessionID_uuid7:
  assumes "16 \<le> length (rcontent random)"
  shows "\<exists>uid random'. newSessionID random ms = (Inr uid, random')
    \<and> rcontent random' = drop 16 (rcontent random) \<and> length uid = 16
    \<and> int (be_value (take 6 uid)) = ms mod 2 ^ 48
    \<and> drop_bit 4 (uid ! 6) = 7 \<and> drop_bit 6 (uid ! 8) = 2
    \<and> (uid ! 6) AND 0x0f = (rcontent random ! 6) AND 0x0f \<and> uid ! 7 = rcontent random ! 7
    \<and> (uid ! 8) AND 0x3f = (rcontent random ! 8) AND 0x3f
    \<and> drop 9 uid = take 7 (drop 9 (rcontent random))"
proof -
  let ?rnd = "take 16 (rcontent random)"
  obtain random' where r: "io_ReadFull random 16 = (Inr ?rnd, random')"
      "rcontent random' = drop 16 (rcontent random)"
    using io_ReadFull_content [OF assms] by (metis prod.collapse)
  let ?uid = "uuid_layout ?rnd ms"
  have ts: "take 6 ?uid = PutUint16 (ucast ((drop_bit 32 (word_of_int ms :: u64)) AND 0xffff))
      @ PutUint32 (ucast ((word_of_int ms :: u64) AND 0xffffffff))"
    by (simp add: uuid_layout_def)
  have "int (be_value (take 6 ?uid)) = ms mod 2 ^ 48"
    unfolding ts be_value_append be_value_PutUint16 be_value_PutUint32 length_PutUint32 split48
    by (rule nat_ms)
  moreover have nth: "?uid ! 6 = ((rcontent random ! 6) AND 0x0f) OR 0x70"
      "?uid ! 7 = rcontent random ! 7" "?uid ! 8 = ((rcontent random ! 8) AND 0x3f) OR 0x80"
      "drop 9 ?uid = take 7 (drop 9 (rcontent random))" "length ?uid = 16"
    using assms by (simp_all add: uuid_layout_def nth_append take_drop)
  ultimately show ?thesis
    using newSessionID_layout [OF r(1), where ms = ms] r(2)
    by (intro exI [of _ ?uid] exI [of _ random'] conjI;
        (assumption | simp only: nth version_bits variant_bits))
qed

theorem newSessionID_uuid7_witness:
  "\<exists>uid r'. newSessionID (reader_of (replicate 16 0xAB)) 1700000000000 = (Inr uid, r')
     \<and> length uid = 16 \<and> drop_bit 4 (uid ! 6) = 7"
  using newSessionID_uuid7 [of "reader_of (replicate 16 0xAB)" 1700000000000] by auto

end
