(* ===== verification/Exporter_Limits.thy ===== *)
theory Exporter_Limits
  imports Complex_Main Domain_Session
begin

text \<open>
  \<open>internal/app/limits.go\<close> and \<open>cidr.go\<close>: the resource limits of the exporter.  \<open>float64\<close> values
  are modelled with their special values; the token bucket of \<open>golang.org/x/time/rate\<close> and the
  CIDR parser and matcher of \<open>net\<close> are parameters.  The main part is the handshake limit reader:
  reading through it is shown to be reading from the stream cut at the limit
  (\<open>hlr_ReadFull_refines\<close>).
\<close>

section \<open>Limits\<close>

datatype float64 = Fin real | PosInf | NegInf | NaN

record exporterConfig =
  ecMaxSessions :: int
  ecMaxSessionsPerPeer :: int
  ecAcceptRateLimit :: float64
  ecAcceptRateLimitSet :: bool
  ecAcceptBurst :: int
  ecMaxHandshakeBytes :: int
  ecHandshakeTimeout :: int
  ecAclCIDRs :: "string list"
  ecShutdownTimeout :: int
  ecStatusPollInterval :: int

record exporterLimits =
  maxSessions :: int
  maxSessionsPerPeer :: int
  maxHandshakeBytes :: int
  handshakeTimeout :: int

text \<open>Durations in nanoseconds.\<close>

definition second :: int where "second = 1000000000"
definition millisecond :: int where "millisecond = 1000000"

definition defaultMaxSessions :: int where "defaultMaxSessions = 128"
definition defaultMaxSessionsPerPeer :: int where "defaultMaxSessionsPerPeer = 8"
definition defaultAcceptRateLimit :: float64 where "defaultAcceptRateLimit = Fin 10"
definition defaultAcceptBurst :: int where "defaultAcceptBurst = 20"
definition defaultMaxHandshakeBytes :: int where "defaultMaxHandshakeBytes = 64 * 1024"
definition defaultHandshakeTimeout :: int where "defaultHandshakeTimeout = 10 * second"

definition resolveExporterLimits :: "exporterConfig \<Rightarrow> exporterLimits" where
  "resolveExporterLimits cfg =
     \<lparr>maxSessions = (if ecMaxSessions cfg = 0 then defaultMaxSessions else ecMaxSessions cfg),
      maxSessionsPerPeer =
        (if ecMaxSessionsPerPeer cfg = 0 then defaultMaxSessionsPerPeer else ecMaxSessionsPerPeer cfg),
      maxHandshakeBytes =
        (if ecMaxHandshakeBytes cfg = 0 then defaultMaxHandshakeBytes else ecMaxHandshakeBytes cfg),
      handshakeTimeout =
        (if ecHandshakeTimeout cfg = 0 then defaultHandshakeTimeout else ecHandshakeTimeout cfg)\<rparr>"

text \<open>\<open>rps <= 0\<close> in IEEE arithmetic is false for NaN.\<close>

fun float_le_zero :: "float64 \<Rightarrow> bool" where
  "float_le_zero (Fin x) = (x \<le> 0)"
| "float_le_zero NegInf = True"
| "float_le_zero PosInf = False"
| "float_le_zero NaN = False"

text \<open>The bucket is \<open>None\<close> when disabled, else its rate and burst.\<close>

definition newAcceptLimiter :: "float64 \<Rightarrow> int \<Rightarrow> (float64 \<times> int) option" where
  "newAcceptLimiter rps burst =
     (if float_le_zero rps then None
      else let burst = (if burst \<le> 0 then defaultAcceptBurst else burst) in Some (rps, burst))"

fun ValidateAcceptRateLimit :: "float64 \<Rightarrow> go_error option" where
  "ValidateAcceptRateLimit (Fin _) = None"
| "ValidateAcceptRateLimit _ = Some [App ErrAcceptRateLimitInvalid]"

definition resolveAcceptRate :: "exporterConfig \<Rightarrow> float64" where
  "resolveAcceptRate cfg =
     (if \<not> ecAcceptRateLimitSet cfg then defaultAcceptRateLimit else ecAcceptRateLimit cfg)"

definition resolveAcceptBurst :: "exporterConfig \<Rightarrow> int" where
  "resolveAcceptBurst cfg = (if ecAcceptBurst cfg = 0 then defaultAcceptBurst else ecAcceptBurst cfg)"

text \<open>\<open>acceptLimiter.allow\<close>, over the state of the bucket; \<open>bucketAllow\<close> is \<open>rate.Limiter.Allow\<close>.\<close>

definition acceptLimiter_allow :: "('b \<Rightarrow> bool \<times> 'b) \<Rightarrow> 'b option \<Rightarrow> bool \<times> 'b option" where
  "acceptLimiter_allow bucketAllow l =
     (case l of None \<Rightarrow> (True, None) | Some b \<Rightarrow> (let (ok, b) = bucketAllow b in (ok, Some b)))"

section \<open>The access list\<close>

text \<open>\<open>parseCIDR\<close> is \<open>net.ParseCIDR\<close>, \<open>contains\<close> is \<open>IPNet.Contains\<close>; a peer address is the IP
  recovered from it, if any (\<open>ipFromAddr\<close>).\<close>

fun parseACL :: "(string \<Rightarrow> go_error + 'n) \<Rightarrow> string list \<Rightarrow> go_error + 'n list" where
  "parseACL parseCIDR [] = Inr []"
| "parseACL parseCIDR (s # ss) =
     (case parseCIDR s of
        Inl err \<Rightarrow> Inl (App ErrACLInvalid # err)
      | Inr n \<Rightarrow> (case parseACL parseCIDR ss of Inl e \<Rightarrow> Inl e | Inr ns \<Rightarrow> Inr (n # ns)))"

definition ValidateExporterACL :: "(string \<Rightarrow> go_error + 'n) \<Rightarrow> string list \<Rightarrow> go_error option" where
  "ValidateExporterACL parseCIDR cidrs =
     (case parseACL parseCIDR cidrs of Inl e \<Rightarrow> Some e | Inr _ \<Rightarrow> None)"

datatype net_addr = TCPAddr "string option" string | OtherAddr string

text \<open>\<open>ipFromAddr\<close>: a TCP address carries its IP (possibly none); any other address is parsed from
  its text, as host:port first and as a bare address second.\<close>

definition ipFromAddr ::
  "(string \<Rightarrow> string option) \<Rightarrow> (string \<Rightarrow> string option) \<Rightarrow> net_addr option \<Rightarrow> string option" where
  "ipFromAddr parseAddrPort parseAddr addr =
     (case addr of
        None \<Rightarrow> None
      | Some (TCPAddr ip _) \<Rightarrow> ip
      | Some (OtherAddr s) \<Rightarrow> (case parseAddrPort s of Some a \<Rightarrow> Some a | None \<Rightarrow> parseAddr s))"

fun acl_loop :: "('n \<Rightarrow> string \<Rightarrow> bool) \<Rightarrow> 'n list \<Rightarrow> string \<Rightarrow> bool" where
  "acl_loop contains [] ip = False"
| "acl_loop contains (n # ns) ip = (if contains n ip then True else acl_loop contains ns ip)"

definition acl_allow :: "('n \<Rightarrow> string \<Rightarrow> bool) \<Rightarrow> 'n list \<Rightarrow> string option \<Rightarrow> bool" where
  "acl_allow contains nets ip =
     (if nets = [] then True
      else case ip of None \<Rightarrow> False | Some ip \<Rightarrow> acl_loop contains nets ip)"

lemma acl_loop_iff: "acl_loop contains nets ip \<longleftrightarrow> (\<exists>n\<in>set nets. contains n ip)"
  by (induction contains nets ip rule: acl_loop.induct) auto

lemma parseACL_Inr_iff:
  "(\<exists>ns. parseACL p ss = Inr ns) \<longleftrightarrow> (\<forall>s\<in>set ss. \<exists>n. p s = Inr n)"
  by (induction p ss rule: parseACL.induct) (auto split: sum.splits)

lemma parseACL_length: "parseACL p ss = Inr ns \<Longrightarrow> length ns = length ss"
  by (induction p ss arbitrary: ns rule: parseACL.induct) (auto split: sum.splits)

section \<open>The handshake limit reader\<close>

text \<open>\<open>Read\<close> of the underlying connection: at most \<open>n\<close> bytes of the segment in progress, or the
  end-of-stream error.\<close>

fun io_Read :: "reader \<Rightarrow> nat \<Rightarrow> (bytes \<times> go_error option) \<times> reader" where
  "io_Read r n =
     (if rbuf r \<noteq> [] then ((take n (rbuf r), None), r\<lparr>rbuf := drop n (rbuf r)\<rparr>)
      else case rchunks r of
        c # cs \<Rightarrow> ((take n c, None), r\<lparr>rbuf := drop n c, rchunks := cs\<rparr>)
      | [] \<Rightarrow> (([], Some (rend r)), r))"

record handshakeLimitReader =
  hr :: reader
  hn :: int
  hlimit :: int

definition newHandshakeLimitReader :: "reader \<Rightarrow> int \<Rightarrow> handshakeLimitReader" where
  "newHandshakeLimitReader r limit = \<lparr>hr = r, hn = 0, hlimit = limit\<rparr>"

definition classifyReadErr :: "go_error option \<Rightarrow> go_error option" where
  "classifyReadErr err =
     (case err of
        None \<Rightarrow> None
      | Some e \<Rightarrow> if errors_Is e (Io EOF) then Some [Io EOF] else Some e)"

definition readUnbounded ::
  "handshakeLimitReader \<Rightarrow> nat \<Rightarrow> (bytes \<times> go_error option) \<times> handshakeLimitReader" where
  "readUnbounded h p =
     (case io_Read (hr h) p of ((bs, err), r) \<Rightarrow> ((bs, classifyReadErr err), h\<lparr>hr := r\<rparr>))"

definition hlr_Read ::
  "handshakeLimitReader \<Rightarrow> nat \<Rightarrow> (bytes \<times> go_error option) \<times> handshakeLimitReader" where
  "hlr_Read h p =
     (if hlimit h \<le> 0 then readUnbounded h p
      else let remaining = hlimit h - hn h
        in if remaining \<le> 0 then (([], Some [App ErrHandshakeTooLarge]), h)
           else let want = min p (nat remaining)
             in case io_Read (hr h) want of
                  ((bs, err), r) \<Rightarrow>
                    ((bs, classifyReadErr err), h\<lparr>hr := r, hn := hn h + int (length bs)\<rparr>))"

text \<open>\<open>io.ReadFull\<close> through the limit reader.\<close>

lemma io_Read_progress:
  "io_Read r n = ((bs, None), r') \<Longrightarrow> 0 < n \<Longrightarrow>
     bs \<noteq> [] \<or> length (rchunks r') < length (rchunks r)"
  by (auto split: if_splits list.splits)

lemma hlr_Read_progress:
  "hlr_Read h n = ((bs, None), h') \<Longrightarrow> 0 < n \<Longrightarrow>
     bs \<noteq> [] \<or> length (rchunks (hr h')) < length (rchunks (hr h))"
  by (auto simp: hlr_Read_def readUnbounded_def Let_def classifyReadErr_def
      dest!: io_Read_progress simp del: io_Read.simps split: if_splits prod.splits option.splits)

lemma hlr_Read_decreases:
  "hlr_Read h (n - length got) = ((bs, None), h') \<Longrightarrow> \<not> n \<le> length got \<Longrightarrow>
     \<not> n - (length got + length bs) < n - length got \<Longrightarrow>
     length (rchunks (hr h')) < length (rchunks (hr h))"
  using hlr_Read_progress [of h "n - length got" bs h'] by (cases bs) auto

function hlr_ReadFull_loop ::
  "handshakeLimitReader \<Rightarrow> nat \<Rightarrow> bytes \<Rightarrow> ((nat \<times> go_error) + bytes) \<times> handshakeLimitReader" where
  "hlr_ReadFull_loop h n got =
     (if n \<le> length got then (Inr got, h)
      else case hlr_Read h (n - length got) of
        ((bs, None), h) \<Rightarrow> hlr_ReadFull_loop h n (got @ bs)
      | ((bs, Some e), h) \<Rightarrow>
          (Inl (length (got @ bs),
                if 0 < length (got @ bs) \<and> e = [Io EOF] then [Io ErrUnexpectedEOF] else e), h))"
  by pat_completeness auto
termination
  by (relation "measures [\<lambda>(h, n, got). n - length got, \<lambda>(h, n, got). length (rchunks (hr h))]")
    (auto dest!: sym [of _ "hlr_Read _ _"] intro: hlr_Read_decreases)

declare hlr_ReadFull_loop.simps [simp del]

definition hlr_ReadFull ::
  "handshakeLimitReader \<Rightarrow> nat \<Rightarrow> ((nat \<times> go_error) + bytes) \<times> handshakeLimitReader" where
  "hlr_ReadFull h n = hlr_ReadFull_loop h n []"

text \<open>The stream as seen through the limit: cut at the limit, and ending in
  \<open>ErrHandshakeTooLarge\<close> once the limit is what ends it.\<close>

definition hlr_content :: "handshakeLimitReader \<Rightarrow> bytes" where
  "hlr_content h =
     (if hlimit h \<le> 0 then rcontent (hr h) else take (nat (hlimit h - hn h)) (rcontent (hr h)))"

definition hlr_end :: "handshakeLimitReader \<Rightarrow> go_error" where
  "hlr_end h =
     (if 0 < hlimit h \<and> nat (hlimit h - hn h) \<le> length (rcontent (hr h))
      then [App ErrHandshakeTooLarge] else the (classifyReadErr (Some (rend (hr h)))))"

definition limited :: "handshakeLimitReader \<Rightarrow> reader" where
  "limited h = \<lparr>rbuf = [], rchunks = [hlr_content h], rend = hlr_end h\<rparr>"

lemma io_Read_None:
  "io_Read r n = ((bs, None), r') \<Longrightarrow>
     rcontent r = bs @ rcontent r' \<and> rend r' = rend r \<and> length bs \<le> n"
  by (auto simp: rcontent_def append_assoc [symmetric] simp del: append_assoc
      split: if_splits list.splits)

lemma io_Read_Some:
  "io_Read r n = ((bs, Some e), r') \<Longrightarrow> bs = [] \<and> rcontent r = [] \<and> e = rend r \<and> r' = r"
  by (auto simp: rcontent_def split: if_splits list.splits)

lemma hlr_Read_None:
  assumes "hlr_Read h n = ((bs, None), h')"
  shows "hlr_content h = bs @ hlr_content h' \<and> hlr_end h' = hlr_end h \<and> length bs \<le> n
    \<and> rcontent (hr h) = bs @ rcontent (hr h') \<and> hlimit h' = hlimit h
    \<and> (0 < hlimit h \<longrightarrow> hn h' = hn h + int (length bs) \<and> hn h' \<le> hlimit h)"
proof (cases "hlimit h \<le> 0")
  case True
  with assms obtain r where "io_Read (hr h) n = ((bs, None), r)" "h' = h\<lparr>hr := r\<rparr>"
    by (auto simp: hlr_Read_def readUnbounded_def classifyReadErr_def simp del: io_Read.simps
        split: prod.splits option.splits if_splits)
  with io_Read_None [OF this(1)] True show ?thesis
    by (simp add: hlr_content_def hlr_end_def)
next
  case False
  with assms obtain r where r: "io_Read (hr h) (min n (nat (hlimit h - hn h))) = ((bs, None), r)"
      "h' = h\<lparr>hr := r, hn := hn h + int (length bs)\<rparr>" "hn h < hlimit h"
    by (auto simp: hlr_Read_def classifyReadErr_def Let_def simp del: io_Read.simps
        split: prod.splits option.splits if_splits)
  have c: "rcontent (hr h) = bs @ rcontent r" "rend r = rend (hr h)"
      and le: "length bs \<le> min n (nat (hlimit h - hn h))"
    using io_Read_None [OF r(1)] by auto
  have "nat (hlimit h - (hn h + int (length bs))) = nat (hlimit h - hn h) - length bs"
    using le by linarith
  thus ?thesis
    using c le False r(2,3) by (auto simp: hlr_content_def hlr_end_def)
qed

lemma hlr_Read_Some:
  assumes "hlr_Read h n = ((bs, Some e), h')"
  shows "bs = [] \<and> hlr_content h = [] \<and> e = hlr_end h \<and> hr h' = hr h \<and> hlr_end h' = hlr_end h
    \<and> hlr_content h' = [] \<and> hlimit h' = hlimit h \<and> hn h' = hn h"
  using assms
  by (auto simp: hlr_Read_def readUnbounded_def classifyReadErr_def Let_def hlr_content_def
      hlr_end_def simp del: io_Read.simps dest!: io_Read_Some
      split: prod.splits option.splits if_splits)

lemma hlr_ReadFull_loop_stream:
  "hlr_ReadFull_loop h n got = (res, h') \<Longrightarrow>
     (if n \<le> length got then res = Inr got \<and> h' = h
      else let c = hlr_content h; k = n - length got in
        (if k \<le> length c then res = Inr (got @ take k c) \<and> hlr_content h' = drop k c
         else res = Inl (length got + length c,
                if 0 < length got + length c \<and> hlr_end h = [Io EOF] then [Io ErrUnexpectedEOF]
                else hlr_end h) \<and> hlr_content h' = []))
     \<and> hlr_end h' = hlr_end h \<and> hlimit h' = hlimit h
     \<and> (0 < hlimit h \<and> hn h \<le> hlimit h \<longrightarrow> hn h' \<le> hlimit h)"
proof (induction h n got rule: hlr_ReadFull_loop.induct)
  case (1 h n got)
  show ?case
  proof (cases "n \<le> length got")
    case True
    thus ?thesis
      using "1.prems" by (auto simp: hlr_ReadFull_loop.simps)
  next
    case False
    obtain bs err h1 where rd: "hlr_Read h (n - length got) = ((bs, err), h1)"
      by (metis surj_pair)
    show ?thesis
    proof (cases err)
      case None
      have l: "hlr_ReadFull_loop h1 n (got @ bs) = (res, h')"
        using "1.prems" False rd None by (simp add: hlr_ReadFull_loop.simps [of h])
      note IH = "1.IH" [OF False rd [symmetric] refl None l]
      note R = hlr_Read_None [OF rd [unfolded None]]
      show ?thesis
        using IH R False by (auto simp: Let_def split: if_splits)
    next
      case (Some e)
      note R = hlr_Read_Some [OF rd [unfolded Some]]
      show ?thesis
        using "1.prems" False rd Some R
        by (auto simp: hlr_ReadFull_loop.simps [of h] Let_def)
    qed
  qed
qed

lemma rcontent_limited [simp]: "rcontent (limited h) = hlr_content h" "rend (limited h) = hlr_end h"
  by (simp_all add: limited_def rcontent_def)

section \<open>Properties\<close>

text \<open>C15: reading through the handshake limit reader is reading from the connection's stream cut at
  the limit: same bytes, same errors, same remaining stream, and never more than the limit is
  taken from the connection.  In particular a peer that sends the limit or more gets
  \<open>ErrHandshakeTooLarge\<close> as soon as the handshake asks for more than the limit.\<close>

theorem handshake_limit_refines:
  assumes "hlr_ReadFull h n = (res, h')"
  shows "res = fst (io_ReadFull (limited h) n)
    \<and> hlr_content h' = rcontent (snd (io_ReadFull (limited h) n))
    \<and> (0 < hlimit h \<and> hn h \<le> hlimit h \<longrightarrow> hn h' \<le> hlimit h)
    \<and> (0 < hlimit h \<and> hn h = 0 \<and> hlimit h < int n \<and> hlimit h \<le> int (length (rcontent (hr h)))
        \<longrightarrow> (\<exists>k. res = Inl (k, [App ErrHandshakeTooLarge])))"
proof -
  note S = hlr_ReadFull_loop_stream [OF assms [unfolded hlr_ReadFull_def]]
  have eq: "res = fst (io_ReadFull (limited h) n)
      \<and> hlr_content h' = rcontent (snd (io_ReadFull (limited h) n))"
  proof (cases "n \<le> length (hlr_content h)")
    case True
    hence "n \<le> length (rcontent (limited h))"
      by simp
    from io_ReadFull_content [OF this] S True show ?thesis
      by (cases "n = 0") (simp_all add: Let_def)
  next
    case False
    hence "length (rcontent (limited h)) < n"
      by simp
    from io_ReadFull_short [OF this] io_ReadFull_short_rest [OF this] S False show ?thesis
      by (auto simp: Let_def)
  qed
  have large: "0 < hlimit h \<and> hn h = 0 \<and> hlimit h < int n \<and> hlimit h \<le> int (length (rcontent (hr h)))
        \<longrightarrow> (\<exists>k. res = Inl (k, [App ErrHandshakeTooLarge]))"
    using S by (auto simp: hlr_content_def hlr_end_def Let_def split: if_splits)
  show ?thesis
    using eq large S by blast
qed

theorem handshake_limit_refines_witness:
  "\<exists>k h'. hlr_ReadFull (newHandshakeLimitReader (reader_of (replicate 100 0)) 16) 40
     = (Inl (k, [App ErrHandshakeTooLarge]), h') \<and> hn h' \<le> 16"
proof -
  obtain res h' where *: "hlr_ReadFull (newHandshakeLimitReader (reader_of (replicate 100 0)) 16) 40
      = (res, h')"
    by fastforce
  from handshake_limit_refines [OF *] * show ?thesis
    by (auto simp: newHandshakeLimitReader_def)
qed

text \<open>The access list fails closed and validates up front.  An empty list permits everyone; a
  non-empty one permits exactly the peers whose address is recoverable and lies in one of the
  configured networks; and a list with any malformed entry is refused as a whole with
  \<open>ErrACLInvalid\<close>, for whatever parser and matcher the net package provides.\<close>

theorem acl_fail_closed:
  fixes parseCIDR :: "string \<Rightarrow> go_error + 'n"
  shows "(acl_allow contains nets ip
      \<longleftrightarrow> nets = [] \<or> (\<exists>a. ip = Some a \<and> (\<exists>n. n \<in> set nets \<and> contains n a)))
    \<and> (ValidateExporterACL parseCIDR cidrs = None \<longleftrightarrow> (\<forall>s\<in>set cidrs. \<exists>n. parseCIDR s = Inr n))
    \<and> (ValidateExporterACL parseCIDR cidrs = Some e \<longrightarrow> errors_Is e (App ErrACLInvalid))"
proof (intro conjI impI)
  show "acl_allow contains nets ip
      \<longleftrightarrow> nets = [] \<or> (\<exists>a. ip = Some a \<and> (\<exists>n. n \<in> set nets \<and> contains n a))"
    by (auto simp: acl_allow_def acl_loop_iff split: option.splits)
  show "ValidateExporterACL parseCIDR cidrs = None \<longleftrightarrow> (\<forall>s\<in>set cidrs. \<exists>n. parseCIDR s = Inr n)"
    using parseACL_Inr_iff [of parseCIDR cidrs]
    by (auto simp: ValidateExporterACL_def split: sum.splits)
  show "ValidateExporterACL parseCIDR cidrs = Some e \<Longrightarrow> errors_Is e (App ErrACLInvalid)"
    by (induction parseCIDR cidrs rule: parseACL.induct)
      (auto simp: ValidateExporterACL_def split: sum.splits)
qed

theorem acl_fail_closed_witness:
  "ValidateExporterACL (\<lambda>s. if s = ''10.0.0.0/8'' then Inr s else Inl [OtherErr 0]) [''10.0.0.0/8'', ''x'']
     = Some [App ErrACLInvalid, OtherErr 0]
   \<and> errors_Is [App ErrACLInvalid, OtherErr 0] (App ErrACLInvalid)"
proof -
  have *: "ValidateExporterACL (\<lambda>s. if s = ''10.0.0.0/8'' then Inr s else Inl [OtherErr 0]) [''10.0.0.0/8'', ''x'']
     = Some [App ErrACLInvalid, OtherErr 0]"
    by (simp add: ValidateExporterACL_def)
  with acl_fail_closed [where parseCIDR = "\<lambda>s. if s = ''10.0.0.0/8'' then Inr s else Inl [OtherErr 0]"
      and cidrs = "[''10.0.0.0/8'', ''x'']" and e = "[App ErrACLInvalid, OtherErr 0]"]
  show ?thesis
    by blast
qed

end
