(* ===== verification/Session_Handle.thy ===== *)
theory Session_Handle
  imports Domain_Session
begin

text \<open>
  \<open>internal/app/exporter.go\<close>, \<open>sessionHandle\<close>: the kernel handoff state machine that decides who
  issues the one \<open>Disconnect\<close> of a session.  Every function of the source that runs under
  \<open>handoffMu\<close> is one definition; \<open>runHandoff\<close>, which releases the mutex around the kernel call, is
  its two locked halves.  Closing a closed channel is a Go panic, modelled by \<open>None\<close>.

  The second half composes the functions the way the goroutines do: the session handler
  (\<open>runRegisteredSession\<close>, \<open>runHandoffAndPark\<close>, \<open>endSession\<close>) on one side, \<open>Shutdown\<close>
  (\<open>spawnGracefulDisconnects\<close> and the \<open>disconnectSession\<close> goroutine it starts) on the other, as a
  step relation in which each locked section or kernel call is one step, so that every
  interleaving is a run.
\<close>

section \<open>The handle\<close>

datatype kernelHandoffState =
  kernelHandoffNotStarted | kernelHandoffInProgress | kernelHandoffSucceeded | kernelHandoffFailed

record sessionHandle =
  shSession :: Session
  shDone :: bool
  shPeerKey :: string
  shConn :: nat
  shReason :: "string option"
  handoffState :: kernelHandoffState
  cancelled :: bool
  cleanupClaimed :: bool
  cleanupDone :: bool
  cleanupErr :: "go_error option"

definition new_sessionHandle :: "Session \<Rightarrow> string \<Rightarrow> nat \<Rightarrow> sessionHandle" where
  "new_sessionHandle sess peerKey conn =
     \<lparr>shSession = sess, shDone = False, shPeerKey = peerKey, shConn = conn, shReason = None,
      handoffState = kernelHandoffNotStarted, cancelled = False, cleanupClaimed = False,
      cleanupDone = False, cleanupErr = None\<rparr>"

text \<open>\<open>cancel\<close> closes \<open>done\<close> under a \<open>sync.Once\<close>.\<close>

definition handle_cancel :: "sessionHandle \<Rightarrow> sessionHandle" where
  "handle_cancel h = h\<lparr>shDone := True\<rparr>"

definition close_cleanupDone :: "sessionHandle \<Rightarrow> sessionHandle option" where
  "close_cleanupDone h = (if cleanupDone h then None else Some (h\<lparr>cleanupDone := True\<rparr>))"

definition claimCleanupLocked :: "sessionHandle \<Rightarrow> bool \<times> sessionHandle" where
  "claimCleanupLocked h =
     (if cleanupClaimed h then (False, h) else (True, h\<lparr>cleanupClaimed := True\<rparr>))"

definition completeWithoutDisconnectLocked :: "sessionHandle \<Rightarrow> (bool \<times> sessionHandle) option" where
  "completeWithoutDisconnectLocked h =
     (case claimCleanupLocked h of
        (False, h) \<Rightarrow> Some (False, h)
      | (True, h) \<Rightarrow> map_option (Pair True) (close_cleanupDone h))"

definition completeWithoutDisconnect :: "sessionHandle \<Rightarrow> (bool \<times> sessionHandle) option" where
  "completeWithoutDisconnect h = completeWithoutDisconnectLocked h"

definition finishCleanup :: "sessionHandle \<Rightarrow> go_error option \<Rightarrow> sessionHandle option" where
  "finishCleanup h err = close_cleanupDone (h\<lparr>cleanupErr := err\<rparr>)"

definition completedCleanupResult :: "sessionHandle \<Rightarrow> bool \<times> go_error option" where
  "completedCleanupResult h = (if cleanupDone h then (True, cleanupErr h) else (False, None))"

definition signalCancel :: "sessionHandle \<Rightarrow> (bool \<times> sessionHandle) option" where
  "signalCancel h =
     (let h = h\<lparr>cancelled := True\<rparr>
      in case handoffState h of
           kernelHandoffSucceeded \<Rightarrow> Some (claimCleanupLocked h)
         | kernelHandoffNotStarted \<Rightarrow> map_option (\<lambda>(_, h). (False, h)) (completeWithoutDisconnectLocked h)
         | kernelHandoffFailed \<Rightarrow> map_option (\<lambda>(_, h). (False, h)) (completeWithoutDisconnectLocked h)
         | kernelHandoffInProgress \<Rightarrow> Some (False, h))"

text \<open>\<open>runHandoff\<close> up to the call of \<open>fn\<close> (whether to call it) and from its return on
  (\<open>disconnectAfterHandoff\<close>).\<close>

definition runHandoff_begin :: "sessionHandle \<Rightarrow> bool \<times> sessionHandle" where
  "runHandoff_begin h =
     (if cancelled h then (False, h) else (True, h\<lparr>handoffState := kernelHandoffInProgress\<rparr>))"

definition runHandoff_end :: "sessionHandle \<Rightarrow> go_error option \<Rightarrow> (bool \<times> sessionHandle) option" where
  "runHandoff_end h err =
     (case err of
        Some e \<Rightarrow>
          map_option (\<lambda>(_, h). (False, h))
            (completeWithoutDisconnectLocked (h\<lparr>handoffState := kernelHandoffFailed\<rparr>))
      | None \<Rightarrow>
          let h = h\<lparr>handoffState := kernelHandoffSucceeded\<rparr>
          in if cancelled h then Some (claimCleanupLocked h) else Some (False, h))"

section \<open>The goroutines of one session\<close>

text \<open>Where the session handler is: registered and before the kernel handoff, inside
  \<open>ExportOnConn\<close>, about to call \<open>Disconnect\<close> because it claimed the cleanup, about to publish its
  result, parked in \<open>waitForSessionEnd\<close>, in the deferred \<open>endSession\<close>, about to unregister, gone.\<close>

datatype handler_pc =
    HRegistered | HHandoff | HDisconnect | HPublish "go_error option" | HParked | HEnding
  | HUnregister | HGone

text \<open>Where \<open>Shutdown\<close> is with respect to this handle: not arrived, between \<open>signalCancel\<close> and
  \<open>cancel\<close>, in the spawned \<open>disconnectSession\<close> before and after the kernel call, finished.\<close>

datatype shutdown_pc =
  SIdle | SSignalled bool | SDisconnect | SPublish "go_error option" | SFinished

record session_sys =
  sysHandle :: sessionHandle
  hpc :: handler_pc
  spc :: shutdown_pc
  disconnects :: nat
  peerGone :: bool

datatype config = Running session_sys | Panicked

fun running :: "('a \<times> sessionHandle) option \<Rightarrow> ('a \<Rightarrow> sessionHandle \<Rightarrow> session_sys) \<Rightarrow> config" where
  "running None f = Panicked"
| "running (Some (a, h)) f = Running (f a h)"

definition initial_sys :: "Session \<Rightarrow> string \<Rightarrow> nat \<Rightarrow> session_sys" where
  "initial_sys sess peerKey conn =
     \<lparr>sysHandle = new_sessionHandle sess peerKey conn, hpc = HRegistered, spc = SIdle,
      disconnects = 0, peerGone = False\<rparr>"

inductive session_step :: "config \<Rightarrow> config \<Rightarrow> bool" where
  handler_abort: \<comment> \<open>subscription or reply failed before the handoff\<close>
    "hpc s = HRegistered \<Longrightarrow> session_step (Running s) (Running (s\<lparr>hpc := HEnding\<rparr>))"
| handler_begin:
    "hpc s = HRegistered \<Longrightarrow> runHandoff_begin (sysHandle s) = (started, h) \<Longrightarrow>
     session_step (Running s)
       (Running (s\<lparr>sysHandle := h, hpc := (if started then HHandoff else HEnding)\<rparr>))"
| handler_exported: \<comment> \<open>\<open>ExportOnConn\<close> returned, with or without an error\<close>
    "hpc s = HHandoff \<Longrightarrow>
     session_step (Running s) (running (runHandoff_end (sysHandle s) err) (\<lambda>disc h.
       s\<lparr>sysHandle := h, hpc := (if err \<noteq> None then HEnding else if disc then HDisconnect
                               else HParked)\<rparr>))"
| handler_disconnect:
    "hpc s = HDisconnect \<Longrightarrow>
     session_step (Running s) (Running (s\<lparr>hpc := HPublish err, disconnects := disconnects s + 1\<rparr>))"
| handler_publish:
    "hpc s = HPublish err \<Longrightarrow>
     session_step (Running s) (running (map_option (Pair ()) (finishCleanup (sysHandle s) err))
       (\<lambda>_ h. s\<lparr>sysHandle := h, hpc := HEnding\<rparr>))"
| handler_done: \<comment> \<open>\<open>handle.done\<close> observed in \<open>waitForSessionEndTick\<close>\<close>
    "hpc s = HParked \<Longrightarrow> shDone (sysHandle s) \<Longrightarrow>
     session_step (Running s) (Running (s\<lparr>hpc := HEnding\<rparr>))"
| handler_peer_gone: \<comment> \<open>\<open>completedSessionEndTick\<close>\<close>
    "hpc s = HParked \<Longrightarrow>
     session_step (Running s) (running (completeWithoutDisconnect (sysHandle s)) (\<lambda>won h.
       s\<lparr>sysHandle := h, hpc := HEnding, peerGone := won\<rparr>))"
| handler_end: \<comment> \<open>\<open>endSession\<close>: the cleanup is settled whatever happened\<close>
    "hpc s = HEnding \<Longrightarrow>
     session_step (Running s) (running (completeWithoutDisconnect (sysHandle s)) (\<lambda>_ h.
       s\<lparr>sysHandle := h, hpc := HUnregister\<rparr>))"
| handler_unregister:
    "hpc s = HUnregister \<Longrightarrow>
     session_step (Running s) (Running (s\<lparr>sysHandle := handle_cancel (sysHandle s), hpc := HGone\<rparr>))"
| shutdown_signal:
    "spc s = SIdle \<Longrightarrow>
     session_step (Running s) (running (signalCancel (sysHandle s)) (\<lambda>handedOff h.
       s\<lparr>sysHandle := h, spc := SSignalled handedOff\<rparr>))"
| shutdown_cancel:
    "spc s = SSignalled handedOff \<Longrightarrow>
     session_step (Running s)
       (Running (s\<lparr>sysHandle := handle_cancel (sysHandle s),
                  spc := (if handedOff then SDisconnect else SFinished)\<rparr>))"
| shutdown_disconnect:
    "spc s = SDisconnect \<Longrightarrow>
     session_step (Running s) (Running (s\<lparr>spc := SPublish err, disconnects := disconnects s + 1\<rparr>))"
| shutdown_publish:
    "spc s = SPublish err \<Longrightarrow>
     session_step (Running s) (running (map_option (Pair ()) (finishCleanup (sysHandle s) err))
       (\<lambda>_ h. s\<lparr>sysHandle := h, spc := SFinished\<rparr>))"

inductive session_reach :: "session_sys \<Rightarrow> config \<Rightarrow> bool" for s0 where
  reach_init: "session_reach s0 (Running s0)"
| reach_step: "session_reach s0 c \<Longrightarrow> session_step c c' \<Longrightarrow> session_reach s0 c'"

inductive_cases session_stepE: "session_step (Running s) c"
inductive_cases session_step_PanickedE: "session_step Panicked c"

section \<open>The invariant\<close>

text \<open>The cleanup future has at most one owner; while it is claimed and open somebody owns it, and
  an owner means it is still open.\<close>

fun h_owner :: "handler_pc \<Rightarrow> bool" where
  "h_owner HDisconnect = True" | "h_owner (HPublish _) = True" | "h_owner _ = False"

fun s_owner :: "shutdown_pc \<Rightarrow> bool" where
  "s_owner (SSignalled handedOff) = handedOff" | "s_owner SDisconnect = True"
| "s_owner (SPublish _) = True" | "s_owner _ = False"

fun h_called :: "handler_pc \<Rightarrow> bool" where
  "h_called (HPublish _) = True" | "h_called _ = False"

fun s_called :: "shutdown_pc \<Rightarrow> bool" where
  "s_called (SPublish _) = True" | "s_called _ = False"

fun past_cancel :: "shutdown_pc \<Rightarrow> bool" where
  "past_cancel SIdle = False" | "past_cancel (SSignalled _) = False" | "past_cancel _ = True"

fun after_export :: "handler_pc \<Rightarrow> bool" where
  "after_export HParked = True" | "after_export pc = h_owner pc"

definition claim_inv :: "session_sys \<Rightarrow> bool" where
  "claim_inv s \<longleftrightarrow> (let h = sysHandle s in
     (h_owner (hpc s) \<or> s_owner (spc s) \<longleftrightarrow> cleanupClaimed h \<and> \<not> cleanupDone h)
     \<and> \<not> (h_owner (hpc s) \<and> s_owner (spc s))
     \<and> (cleanupDone h \<longrightarrow> cleanupClaimed h))"

definition phase_inv :: "session_sys \<Rightarrow> bool" where
  "phase_inv s \<longleftrightarrow> (let h = sysHandle s in
     (cancelled h \<longleftrightarrow> spc s \<noteq> SIdle)
     \<and> (hpc s = HRegistered \<longrightarrow> handoffState h = kernelHandoffNotStarted)
     \<and> (hpc s = HHandoff \<longleftrightarrow> handoffState h = kernelHandoffInProgress)
     \<and> (after_export (hpc s) \<longrightarrow> handoffState h = kernelHandoffSucceeded)
     \<and> (shDone h \<longrightarrow> hpc s = HGone \<or> past_cancel (spc s))
     \<and> (past_cancel (spc s) \<longrightarrow> shDone h))"

definition claimed_inv :: "session_sys \<Rightarrow> bool" where
  "claimed_inv s \<longleftrightarrow> (let h = sysHandle s in
     (hpc s \<in> {HUnregister, HGone} \<longrightarrow> cleanupClaimed h)
     \<and> (hpc s = HRegistered \<and> spc s = SIdle \<longrightarrow> \<not> cleanupClaimed h)
     \<and> (handoffState h = kernelHandoffFailed \<longrightarrow> cleanupClaimed h)
     \<and> (handoffState h = kernelHandoffInProgress \<longrightarrow> \<not> cleanupClaimed h)
     \<and> (cancelled h \<and> handoffState h \<noteq> kernelHandoffInProgress \<longrightarrow> cleanupClaimed h)
     \<and> (h_owner (hpc s) \<or> s_owner (spc s) \<longrightarrow> handoffState h = kernelHandoffSucceeded \<and> cancelled h)
     \<and> (handoffState h = kernelHandoffSucceeded \<and> hpc s = HEnding \<longrightarrow> cleanupClaimed h))"

definition count_inv :: "session_sys \<Rightarrow> bool" where
  "count_inv s \<longleftrightarrow> (let h = sysHandle s in
     (disconnects s = 0 \<or> disconnects s = 1)
     \<and> (disconnects s = 1 \<longrightarrow> cleanupClaimed h \<and> handoffState h = kernelHandoffSucceeded \<and> cancelled h)
     \<and> (disconnects s = 1 \<and> (h_owner (hpc s) \<or> s_owner (spc s)) \<longrightarrow> h_called (hpc s) \<or> s_called (spc s))
     \<and> (h_called (hpc s) \<or> s_called (spc s) \<longrightarrow> disconnects s = 1)
     \<and> (peerGone s \<longrightarrow> cleanupDone h \<and> disconnects s = 0 \<and> hpc s \<in> {HEnding, HUnregister, HGone})
     \<and> (handoffState h = kernelHandoffSucceeded \<and> cleanupDone h \<longrightarrow> disconnects s = 1 \<or> peerGone s))"

definition session_inv :: "session_sys \<Rightarrow> bool" where
  "session_inv s \<longleftrightarrow> claim_inv s \<and> phase_inv s \<and> claimed_inv s \<and> count_inv s"

fun config_inv :: "config \<Rightarrow> bool" where
  "config_inv Panicked = False"
| "config_inv (Running s) = session_inv s"

lemmas session_invs = session_inv_def claim_inv_def phase_inv_def claimed_inv_def count_inv_def

lemmas handle_ops = handle_cancel_def close_cleanupDone_def claimCleanupLocked_def
  completeWithoutDisconnectLocked_def completeWithoutDisconnect_def finishCleanup_def
  signalCancel_def runHandoff_begin_def runHandoff_end_def

lemmas session_unfold = session_invs Let_def handle_ops

lemma initial_inv: "session_inv (initial_sys sess peerKey conn)"
  by (simp add: session_unfold initial_sys_def new_sessionHandle_def)

lemma handler_abort_inv:
  "session_inv s \<Longrightarrow> hpc s = HRegistered \<Longrightarrow> session_inv (s\<lparr>hpc := HEnding\<rparr>)"
  by (cases "spc s"; simp add: session_unfold; auto)

lemma handler_begin_inv:
  "session_inv s \<Longrightarrow> hpc s = HRegistered \<Longrightarrow> runHandoff_begin (sysHandle s) = (started, h) \<Longrightarrow>
   session_inv (s\<lparr>sysHandle := h, hpc := (if started then HHandoff else HEnding)\<rparr>)"
  by (cases "spc s"; simp add: session_unfold split: if_splits; auto)

lemma handler_exported_inv:
  "session_inv s \<Longrightarrow> hpc s = HHandoff \<Longrightarrow>
   config_inv (running (runHandoff_end (sysHandle s) err) (\<lambda>disc h.
     s\<lparr>sysHandle := h, hpc := (if err \<noteq> None then HEnding else if disc then HDisconnect
                             else HParked)\<rparr>))"
  by (cases "spc s"; cases err; simp add: session_unfold split: if_splits; auto)

lemma handler_disconnect_inv:
  "session_inv s \<Longrightarrow> hpc s = HDisconnect \<Longrightarrow>
   session_inv (s\<lparr>hpc := HPublish err, disconnects := disconnects s + 1\<rparr>)"
  by (cases "spc s"; simp add: session_unfold; auto)

lemma handler_publish_inv:
  "session_inv s \<Longrightarrow> hpc s = HPublish err \<Longrightarrow>
   config_inv (running (map_option (Pair ()) (finishCleanup (sysHandle s) err))
       (\<lambda>_ h. s\<lparr>sysHandle := h, hpc := HEnding\<rparr>))"
  by (cases "spc s"; simp add: session_unfold; auto)

lemma handler_done_inv:
  "session_inv s \<Longrightarrow> hpc s = HParked \<Longrightarrow> shDone (sysHandle s) \<Longrightarrow> session_inv (s\<lparr>hpc := HEnding\<rparr>)"
  by (cases "spc s"; simp add: session_unfold; auto)

lemma handler_peer_gone_inv:
  "session_inv s \<Longrightarrow> hpc s = HParked \<Longrightarrow>
   config_inv (running (completeWithoutDisconnect (sysHandle s)) (\<lambda>won h.
       s\<lparr>sysHandle := h, hpc := HEnding, peerGone := won\<rparr>))"
  by (cases "spc s"; simp add: session_unfold; auto)

lemma handler_end_inv:
  "session_inv s \<Longrightarrow> hpc s = HEnding \<Longrightarrow>
   config_inv (running (completeWithoutDisconnect (sysHandle s)) (\<lambda>_ h.
       s\<lparr>sysHandle := h, hpc := HUnregister\<rparr>))"
  by (cases "spc s"; cases "handoffState (sysHandle s)"; simp add: session_unfold; auto)

lemma handler_unregister_inv:
  "session_inv s \<Longrightarrow> hpc s = HUnregister \<Longrightarrow>
   session_inv (s\<lparr>sysHandle := handle_cancel (sysHandle s), hpc := HGone\<rparr>)"
  by (cases "spc s"; simp add: session_unfold; auto)

lemma shutdown_signal_inv:
  "session_inv s \<Longrightarrow> spc s = SIdle \<Longrightarrow>
   config_inv (running (signalCancel (sysHandle s)) (\<lambda>handedOff h.
       s\<lparr>sysHandle := h, spc := SSignalled handedOff\<rparr>))"
  by (cases "hpc s"; cases "handoffState (sysHandle s)"; simp add: session_unfold; auto)

lemma shutdown_cancel_inv:
  "session_inv s \<Longrightarrow> spc s = SSignalled handedOff \<Longrightarrow>
   session_inv (s\<lparr>sysHandle := handle_cancel (sysHandle s),
                  spc := (if handedOff then SDisconnect else SFinished)\<rparr>)"
  by (cases "hpc s"; cases handedOff; simp add: session_unfold; auto)

lemma shutdown_disconnect_inv:
  "session_inv s \<Longrightarrow> spc s = SDisconnect \<Longrightarrow>
   session_inv (s\<lparr>spc := SPublish err, disconnects := disconnects s + 1\<rparr>)"
  by (cases "hpc s"; simp add: session_unfold; auto)

lemma shutdown_publish_inv:
  "session_inv s \<Longrightarrow> spc s = SPublish err \<Longrightarrow>
   config_inv (running (map_option (Pair ()) (finishCleanup (sysHandle s) err))
       (\<lambda>_ h. s\<lparr>sysHandle := h, spc := SFinished\<rparr>))"
  by (cases "hpc s"; simp add: session_unfold; auto)

lemmas session_step_invs = handler_abort_inv handler_begin_inv handler_exported_inv
  handler_disconnect_inv handler_publish_inv handler_done_inv handler_peer_gone_inv
  handler_end_inv handler_unregister_inv shutdown_signal_inv shutdown_cancel_inv
  shutdown_disconnect_inv shutdown_publish_inv

lemma session_step_inv: "session_step (Running s) c \<Longrightarrow> session_inv s \<Longrightarrow> config_inv c"
  by (erule session_stepE) (auto dest: session_step_invs)

lemma session_reach_inv:
  "session_reach (initial_sys sess peerKey conn) c \<Longrightarrow> \<exists>s. c = Running s \<and> session_inv s"
proof (induction rule: session_reach.induct)
  case reach_init
  show ?case by (simp add: initial_inv)
next
  case (reach_step c c')
  then obtain s where "c = Running s" "config_inv c'"
    using session_step_inv by blast
  thus ?case
    by (cases c') auto
qed

section \<open>Termination and progress\<close>

text \<open>Every step moves one of the two goroutines forward.\<close>

fun h_rank :: "handler_pc \<Rightarrow> nat" where
  "h_rank HRegistered = 6" | "h_rank HHandoff = 5" | "h_rank HDisconnect = 4"
| "h_rank (HPublish _) = 3" | "h_rank HParked = 3" | "h_rank HEnding = 2"
| "h_rank HUnregister = 1" | "h_rank HGone = 0"

fun s_rank :: "shutdown_pc \<Rightarrow> nat" where
  "s_rank SIdle = 4" | "s_rank (SSignalled _) = 3" | "s_rank SDisconnect = 2"
| "s_rank (SPublish _) = 1" | "s_rank SFinished = 0"

fun config_rank :: "config \<Rightarrow> nat" where
  "config_rank Panicked = 0"
| "config_rank (Running s) = Suc (h_rank (hpc s) + s_rank (spc s))"

lemma config_rank_running:
  "(\<And>a h. config_rank (Running (f a h)) < n) \<Longrightarrow> 0 < n \<Longrightarrow> config_rank (running x f) < n"
  by (cases "(x, f)" rule: running.cases) auto

lemma session_step_rank: "session_step c c' \<Longrightarrow> config_rank c' < config_rank c"
  by (erule session_step.cases) (auto intro!: config_rank_running split: if_splits)

lemma session_progress:
  assumes "session_inv s" "spc s \<noteq> SIdle" "hpc s \<noteq> HGone \<or> spc s \<noteq> SFinished"
  shows "\<exists>c. session_step (Running s) c"
proof (cases "spc s")
  case SFinished
  hence "shDone (sysHandle s)"
    using assms(1) by (simp add: session_inv_def phase_inv_def Let_def)
  thus ?thesis
    using assms(3) SFinished
    by (cases "hpc s"; fastforce intro: session_step.intros)
qed (use assms(2) in \<open>auto intro: session_step.intros\<close>)

lemma session_quiescent:
  assumes "session_inv s" "hpc s = HGone" "spc s \<in> {SIdle, SFinished}"
  shows "cleanupDone (sysHandle s)
    \<and> (handoffState (sysHandle s) = kernelHandoffSucceeded \<longrightarrow> disconnects s = 1 \<or> peerGone s)"
  using assms by (auto simp: session_invs Let_def)

section \<open>Properties\<close>

text \<open>C1: under every interleaving of the session handler with Shutdown, no channel is closed twice
  (no panic), the kernel is asked to Disconnect at most once, and only for a session whose
  ExportOnConn succeeded and that Shutdown cancelled.\<close>

theorem session_disconnect_at_most_once:
  assumes "session_reach (initial_sys sess peerKey conn) c"
  shows "\<exists>s. c = Running s \<and> disconnects s \<le> 1
    \<and> (disconnects s = 1 \<longrightarrow> handoffState (sysHandle s) = kernelHandoffSucceeded
         \<and> cancelled (sysHandle s) \<and> \<not> peerGone s)"
proof -
  obtain s where "c = Running s" "count_inv s"
    using session_reach_inv [OF assms] by (auto simp: session_inv_def)
  thus ?thesis
    unfolding count_inv_def Let_def by (intro exI [of _ s]) (elim conjE disjE; simp)
qed

definition sample_session :: Session where
  "sample_session = \<lparr>sID = replicate 16 1, sRemoteAddr = ''192.0.2.1:4000'', sBusID = ''1-1'',
     sStartedAt = 0, sBytesIn = 0, sBytesOut = 0\<rparr>"

theorem session_disconnect_at_most_once_witness:
  "\<exists>s. session_reach (initial_sys sample_session ''192.0.2.1'' 3) (Running s)
     \<and> spc s = SSignalled False \<and> disconnects s \<le> 1"
proof -
  let ?s0 = "initial_sys sample_session ''192.0.2.1'' 3"
  have "session_step (Running ?s0) (running (signalCancel (sysHandle ?s0)) (\<lambda>handedOff h.
       ?s0\<lparr>sysHandle := h, spc := SSignalled handedOff\<rparr>))"
    by (rule shutdown_signal) (simp add: initial_sys_def)
  hence "\<exists>s. session_step (Running ?s0) (Running s) \<and> spc s = SSignalled False"
    by (simp add: signalCancel_def completeWithoutDisconnectLocked_def claimCleanupLocked_def
        close_cleanupDone_def initial_sys_def new_sessionHandle_def) (intro exI conjI, assumption, simp)
  then obtain s where "session_reach ?s0 (Running s)" "spc s = SSignalled False"
    using reach_step [OF reach_init] by blast
  with session_disconnect_at_most_once [OF this(1)] show ?thesis
    by auto
qed

text \<open>C2: the cleanup of a session always completes once Shutdown has arrived.  Every step
  strictly decreases a rank, some step is enabled until both goroutines are finished, and when
  they are the cleanup future is closed and an export that succeeded was either disconnected or
  ended by the peer, so that no kernel export is orphaned and no Shutdown waiter is left hanging.\<close>

theorem session_cleanup_completes:
  assumes "session_reach (initial_sys sess peerKey conn) (Running s)"
  shows "(\<forall>c. session_step (Running s) c \<longrightarrow> config_rank c < config_rank (Running s))
    \<and> (spc s \<noteq> SIdle \<longrightarrow> hpc s = HGone \<and> spc s = SFinished \<or> (\<exists>c. session_step (Running s) c))
    \<and> (hpc s = HGone \<and> spc s = SFinished \<longrightarrow> cleanupDone (sysHandle s)
         \<and> (handoffState (sysHandle s) = kernelHandoffSucceeded \<longrightarrow> disconnects s = 1 \<or> peerGone s))"
proof -
  have inv: "session_inv s"
    using session_reach_inv [OF assms] by auto
  show ?thesis
    using session_step_rank [of "Running s"] session_progress [OF inv] session_quiescent [OF inv]
    by auto
qed

theorem session_cleanup_completes_witness:
  "\<exists>c. session_step (Running (initial_sys sample_session ''192.0.2.1'' 3)) c
     \<and> config_rank c < config_rank (Running (initial_sys sample_session ''192.0.2.1'' 3))"
proof -
  have "session_step (Running (initial_sys sample_session ''192.0.2.1'' 3))
      (Running ((initial_sys sample_session ''192.0.2.1'' 3)\<lparr>hpc := HEnding\<rparr>))"
    by (rule handler_abort) (simp add: initial_sys_def)
  with session_cleanup_completes [OF reach_init] show ?thesis
    by blast
qed

end
