(* ===== verification/BusID.thy ===== *)
theory BusID
  imports Domain_Types Go_Text
begin

text \<open>
  \<open>pkg/domain/busid.go\<close>: the three acceptance checks for bus ids.  The regular expression of the
  source is modelled by a deterministic matcher; \<open>busid_lang\<close> is the language it denotes, and
  \<open>busIDPattern_lang\<close> shows that the matcher decides it.  User input goes through the topology
  check (\<open>ParseBusID\<close>), bytes from a peer through the charset check (\<open>ValidateWireBusID\<close>).
\<close>

section \<open>Definitions\<close>

definition is_digit :: "char \<Rightarrow> bool" where
  "is_digit c \<longleftrightarrow> CHR ''0'' \<le> c \<and> c \<le> CHR ''9''"

text \<open>\<open>[0-9]+\<close>, returning the rest of the subject.\<close>

definition match_digits :: "string \<Rightarrow> string option" where
  "match_digits s = (if takeWhile is_digit s = [] then None else Some (dropWhile is_digit s))"

lemma match_digits_length: "match_digits s = Some r \<Longrightarrow> length r < length s"
  by (cases s) (auto simp: match_digits_def length_dropWhile_le less_Suc_eq_le split: if_splits)

text \<open>\<open>(\.[0-9]+)*$\<close>\<close>

function match_ports :: "string \<Rightarrow> bool" where
  "match_ports s =
     (if s = [] then True
      else if hd s = CHR ''.'' then
        (case match_digits (tl s) of None \<Rightarrow> False | Some r \<Rightarrow> match_ports r)
      else False)"
  by pat_completeness auto
termination
  by (relation "measure length") (auto dest!: match_digits_length simp: length_greater_0_conv
      intro: less_le_trans)

declare match_ports.simps [simp del]

text \<open>\<open>^[0-9]+-[0-9]+(\.[0-9]+)*$\<close>\<close>

definition busIDPattern :: "string \<Rightarrow> bool" where
  "busIDPattern s =
     (case match_digits s of
        None \<Rightarrow> False
      | Some r \<Rightarrow>
          r \<noteq> [] \<and> hd r = CHR ''-'' \<and>
          (case match_digits (tl r) of None \<Rightarrow> False | Some r' \<Rightarrow> match_ports r'))"

definition ParseBusID :: "string \<Rightarrow> go_error + string" where
  "ParseBusID s =
     (if s = [] then Inl [Dom ErrBusIDInvalid]
      else if TrimSpace s = [] then Inl [Dom ErrBusIDInvalid]
      else if BusIDSize \<le> length s then Inl [Dom ErrBusIDInvalid]
      else if CHR 0x00 \<in> set s then Inl [Dom ErrBusIDInvalid]
      else if \<not> busIDPattern s then Inl [Dom ErrBusIDInvalid]
      else Inr s)"

definition BusID_IsValid :: "string \<Rightarrow> bool" where
  "BusID_IsValid b =
     (if b = [] then False
      else if BusIDSize \<le> length b then False
      else if CHR 0x00 \<in> set b then False
      else if TrimSpace b = [] then False
      else busIDPattern b)"

definition isWireBusIDRune :: "char \<Rightarrow> bool" where
  "isWireBusIDRune r \<longleftrightarrow>
     (let isAlpha = (CHR ''a'' \<le> r \<and> r \<le> CHR ''z'') \<or> (CHR ''A'' \<le> r \<and> r \<le> CHR ''Z'');
          isDigit = CHR ''0'' \<le> r \<and> r \<le> CHR ''9'';
          isPunct = (r = CHR ''.'' \<or> r = CHR ''_'' \<or> r = CHR ''-'')
      in isAlpha \<or> isDigit \<or> isPunct)"

text \<open>The loop of the source ranges over runes; every rune of a multi-byte sequence lies outside
  the ASCII charset, as each of its bytes does, so the byte-wise check is the same.\<close>

definition ValidateWireBusID :: "string \<Rightarrow> go_error + string" where
  "ValidateWireBusID s =
     (if s = [] then Inl [Dom ErrBusIDInvalid]
      else if BusIDSize \<le> length s then Inl [Dom ErrBusIDInvalid]
      else if list_ex (\<lambda>r. \<not> isWireBusIDRune r) s then Inl [Dom ErrBusIDInvalid]
      else Inr s)"

section \<open>The language of the pattern\<close>

definition numeral_text :: "string \<Rightarrow> bool" where
  "numeral_text d \<longleftrightarrow> d \<noteq> [] \<and> (\<forall>c\<in>set d. is_digit c)"

definition topology_text :: "string \<Rightarrow> string \<Rightarrow> string list \<Rightarrow> string" where
  "topology_text bus port ports = bus @ ''-'' @ port @ concat (map (\<lambda>p. CHR ''.'' # p) ports)"

definition busid_lang :: "string \<Rightarrow> bool" where
  "busid_lang s \<longleftrightarrow> (\<exists>bus port ports. s = topology_text bus port ports
     \<and> numeral_text bus \<and> numeral_text port \<and> (\<forall>p\<in>set ports. numeral_text p))"

section \<open>Lemmas\<close>

lemma is_digit_not [simp]: "\<not> is_digit (CHR ''-'')" "\<not> is_digit (CHR ''.'')"
  by (simp_all add: is_digit_def less_eq_char_def)

lemma match_digits_Some:
  "match_digits s = Some r \<longleftrightarrow> (\<exists>d. numeral_text d \<and> s = d @ r \<and> (r = [] \<or> \<not> is_digit (hd r)))"
proof
  assume "match_digits s = Some r"
  thus "\<exists>d. numeral_text d \<and> s = d @ r \<and> (r = [] \<or> \<not> is_digit (hd r))"
    by (intro exI [of _ "takeWhile is_digit s"])
      (auto simp: match_digits_def numeral_text_def hd_dropWhile dest: set_takeWhileD
        split: if_splits)
next
  assume "\<exists>d. numeral_text d \<and> s = d @ r \<and> (r = [] \<or> \<not> is_digit (hd r))"
  then obtain d where d: "numeral_text d" "s = d @ r" "r = [] \<or> \<not> is_digit (hd r)"
    by blast
  hence "takeWhile is_digit s = d" "dropWhile is_digit s = r"
    by (cases r; auto simp: numeral_text_def takeWhile_append dropWhile_append)+
  thus "match_digits s = Some r"
    using d(1) by (simp add: match_digits_def numeral_text_def)
qed

lemma match_ports_stop: "match_ports r \<Longrightarrow> r = [] \<or> \<not> is_digit (hd r)"
  by (subst (asm) match_ports.simps) (auto split: if_splits)

lemma match_ports_lang:
  "match_ports s \<longleftrightarrow> (\<exists>ports. s = concat (map (\<lambda>p. CHR ''.'' # p) ports) \<and> (\<forall>p\<in>set ports. numeral_text p))"
    (is "_ \<longleftrightarrow> ?L s")
proof
  show "match_ports s \<Longrightarrow> ?L s"
  proof (induction s rule: match_ports.induct)
    case (1 s)
    show ?case
    proof (cases "s = []")
      case False
      with "1.prems" obtain r where r: "hd s = CHR ''.''" "match_digits (tl s) = Some r"
          "match_ports r"
        by (subst (asm) match_ports.simps) (auto split: option.splits if_splits)
      from "1.IH" [OF False r] obtain ports where
        "r = concat (map (\<lambda>p. CHR ''.'' # p) ports)" "\<forall>p\<in>set ports. numeral_text p"
        by blast
      moreover from r(2) obtain d where "numeral_text d" "tl s = d @ r"
        by (auto simp: match_digits_Some)
      ultimately show ?thesis
        using r(1) False by (intro exI [of _ "d # ports"]) (cases s, auto)
    qed (auto intro: exI [of _ "[]"])
  qed
next
  assume "?L s"
  then obtain ports where "s = concat (map (\<lambda>p. CHR ''.'' # p) ports)"
    "\<forall>p\<in>set ports. numeral_text p"
    by blast
  thus "match_ports s"
  proof (induction ports arbitrary: s)
    case Nil
    thus ?case by (simp add: match_ports.simps)
  next
    case (Cons p ports)
    let ?r = "concat (map (\<lambda>p. CHR ''.'' # p) ports)"
    have "match_ports ?r"
      using Cons by simp
    moreover have "match_digits (p @ ?r) = Some ?r"
      using Cons.prems(2) match_ports_stop [OF calculation] by (auto simp: match_digits_Some)
    ultimately show ?case
      using Cons.prems(1) by (subst match_ports.simps) simp
  qed
qed

lemma busIDPattern_lang: "busIDPattern s \<longleftrightarrow> busid_lang s"
proof
  assume "busIDPattern s"
  then obtain r r' where r: "match_digits s = Some (CHR ''-'' # r)" "match_digits r = Some r'"
      "match_ports r'"
    by (auto simp: busIDPattern_def neq_Nil_conv split: option.splits)
  thus "busid_lang s"
    by (auto simp: match_digits_Some match_ports_lang busid_lang_def topology_text_def)
next
  assume "busid_lang s"
  then obtain bus port ports where s: "s = topology_text bus port ports" and
      n: "numeral_text bus" "numeral_text port" "\<forall>p\<in>set ports. numeral_text p"
    by (auto simp: busid_lang_def)
  let ?r = "concat (map (\<lambda>p. CHR ''.'' # p) ports)"
  have m: "match_ports ?r"
    using n(3) by (auto simp: match_ports_lang)
  have "match_digits s = Some (CHR ''-'' # port @ ?r)"
    using n(1) by (auto simp: match_digits_Some s topology_text_def)
  moreover have "match_digits (port @ ?r) = Some ?r"
    using n(2) match_ports_stop [OF m] by (auto simp: match_digits_Some)
  ultimately show "busIDPattern s"
    using m by (simp add: busIDPattern_def)
qed

text \<open>The characters a topology text can contain.\<close>

lemma busid_lang_chars:
  assumes "busid_lang s" "c \<in> set s"
  shows "is_digit c \<or> c = CHR ''-'' \<or> c = CHR ''.''"
  using assms by (auto simp: busid_lang_def topology_text_def numeral_text_def split: if_splits)

lemma wire_rune_of_busid: "busid_lang b \<Longrightarrow> c \<in> set b \<Longrightarrow> isWireBusIDRune c"
  using busid_lang_chars [of b c] by (auto simp: isWireBusIDRune_def is_digit_def)

lemma busid_lang_not_space: "busid_lang s \<Longrightarrow> s \<noteq> [] \<and> TrimSpace s \<noteq> [] \<and> CHR 0x00 \<notin> set s"
proof -
  assume *: "busid_lang s"
  hence ne: "s \<noteq> []"
    by (auto simp: busid_lang_def topology_text_def)
  have "\<not> space_byte c" if "c \<in> set s" for c
    using busid_lang_chars [OF * that] by (auto simp: is_digit_def space_byte_def less_eq_char_def)
  hence "TrimSpace s = s"
    using ne by (simp add: TrimSpace_plain)
  moreover have "CHR 0x00 \<notin> set s"
    using busid_lang_chars [OF *, of "CHR 0x00"] by (auto simp: is_digit_def less_eq_char_def)
  ultimately show ?thesis
    using ne by simp
qed

lemma isWireBusIDRune_safe:
  "isWireBusIDRune c \<Longrightarrow> c \<noteq> CHR ''/'' \<and> c \<noteq> CHR 0x00 \<and> \<not> is_ascii_space c \<and> of_char c < (128 :: nat)"
  by (auto simp: isWireBusIDRune_def less_eq_char_def is_ascii_space_def)

lemma digit_wire: "is_digit c \<Longrightarrow> isWireBusIDRune c"
  by (simp add: is_digit_def isWireBusIDRune_def)

lemma ValidateWireBusID_iff:
  "ValidateWireBusID s = Inr b \<longleftrightarrow>
     b = s \<and> s \<noteq> [] \<and> length s < BusIDSize \<and> (\<forall>c\<in>set s. isWireBusIDRune c)"
  by (auto simp: ValidateWireBusID_def list_ex_iff not_le)

lemma ValidateWireBusID_error:
  "ValidateWireBusID s = Inl e \<Longrightarrow> e = [Dom ErrBusIDInvalid]"
  by (auto simp: ValidateWireBusID_def split: if_splits)

section \<open>Properties\<close>

text \<open>The user-facing parser accepts exactly the topology texts that fit the wire field; it
  returns its input unchanged, every rejection is the \<open>ErrBusIDInvalid\<close> sentinel, \<open>IsValid\<close>
  decides the same set, and what it accepts also passes the check applied to peers.\<close>

theorem ParseBusID_spec:
  "ParseBusID s = (if busid_lang s \<and> length s < 32 then Inr s else Inl [Dom ErrBusIDInvalid])
   \<and> BusID_IsValid s = (ParseBusID s = Inr s)
   \<and> (ParseBusID s = Inr s \<longrightarrow> ValidateWireBusID s = Inr s)"
proof -
  have 1: "ParseBusID s = (if busid_lang s \<and> length s < 32 then Inr s else Inl [Dom ErrBusIDInvalid])"
    using busid_lang_not_space [of s]
    by (auto simp: ParseBusID_def busIDPattern_lang BusIDSize_def not_le)
  have 2: "BusID_IsValid s \<longleftrightarrow> busid_lang s \<and> length s < 32"
    using busid_lang_not_space [of s]
    by (auto simp: BusID_IsValid_def busIDPattern_lang BusIDSize_def not_le)
  have 3: "busid_lang s \<Longrightarrow> \<forall>c\<in>set s. isWireBusIDRune c"
    by (auto dest!: busid_lang_chars simp: isWireBusIDRune_def is_digit_def)
  show ?thesis
    using 1 2 3 busid_lang_not_space [of s]
    by (auto simp: ValidateWireBusID_iff BusIDSize_def)
qed

theorem ParseBusID_spec_witness:
  "ParseBusID ''1-1.2'' = Inr ''1-1.2'' \<and> ValidateWireBusID ''1-1.2'' = Inr ''1-1.2''
   \<and> ParseBusID ''1-1.'' = Inl [Dom ErrBusIDInvalid]"
proof -
  have "busIDPattern ''1-1.2''"
    by (simp add: busIDPattern_def match_digits_def match_ports.simps is_digit_def less_eq_char_def)
  moreover have "\<not> busIDPattern ''1-1.''"
    by (simp add: busIDPattern_def match_digits_def match_ports.simps is_digit_def less_eq_char_def)
  ultimately show ?thesis
    using ParseBusID_spec [of "''1-1.2''"] ParseBusID_spec [of "''1-1.''"]
    by (simp add: busIDPattern_lang)
qed

text \<open>What the wire check lets through can be appended to a directory as one path component:
  non-empty, shorter than the 32-byte field, and free of path separators, NULs, white space and
  non-ASCII bytes.  The two dot names are the exception the character check cannot see: \<open>..\<close> is
  accepted.\<close>

theorem ValidateWireBusID_basename:
  "(ValidateWireBusID s = Inr b \<longrightarrow>
      b = s \<and> 0 < length s \<and> length s < 32
      \<and> (\<forall>c\<in>set s. c \<noteq> CHR ''/'' \<and> c \<noteq> CHR 0x00 \<and> \<not> is_ascii_space c \<and> of_char c < (128 :: nat)))
   \<and> ValidateWireBusID ''..'' = Inr ''..''"
proof -
  have "ValidateWireBusID ''..'' = Inr ''..''"
    by (simp add: ValidateWireBusID_def isWireBusIDRune_def BusIDSize_def)
  thus ?thesis
    using isWireBusIDRune_safe by (auto simp: ValidateWireBusID_iff BusIDSize_def)
qed

theorem ValidateWireBusID_basename_witness:
  "ValidateWireBusID ''usbip-vudc.0'' = Inr ''usbip-vudc.0''
   \<and> CHR ''/'' \<notin> set ''usbip-vudc.0''"
proof -
  have "ValidateWireBusID ''usbip-vudc.0'' = Inr ''usbip-vudc.0''"
    by (simp add: ValidateWireBusID_def isWireBusIDRune_def BusIDSize_def less_eq_char_def)
  thus ?thesis
    using ValidateWireBusID_basename [of "''usbip-vudc.0''" "''usbip-vudc.0''"] by blast
qed

end
