(* ===== verification/Exporter_Registry.thy ===== *)
theory Exporter_Registry
  imports Exporter_Limits Session_Handle BusID "HOL-Library.AList"
begin

text \<open>
  \<open>internal/app/exporter.go\<close>: the state of the Exporter that its mutex guards, and every operation
  on it.  Session handles are Go pointers shared between the session map, the retained Shutdown
  snapshot and the handler goroutine; they are addresses into \<open>eHeap\<close>.  The session map is an
  association list with distinct keys, whose order stands for the iteration order of a Go map.
\<close>

section \<open>State\<close>

record Exporter =
  eCfg :: exporterLimits
  eAcl :: "string list"
  eShutdownTimeout :: int
  eStatusPollInterval :: int
  eShutdown :: bool
  eServing :: bool
  eListener :: "nat option"
  eServeCancel :: "nat option"
  eSessions :: "(SessionID \<times> nat) list"
  ePerPeer :: "string \<rightharpoonup> nat"
  eHeap :: "sessionHandle list"
  eShutdownHandles :: "nat list"
  eAcceptLoopExited :: "nat option"

definition defaultExportSessionStatusPollInterval :: int where
  "defaultExportSessionStatusPollInterval = 5 * second"

definition resolveExporterStatusPollInterval :: "int \<Rightarrow> int" where
  "resolveExporterStatusPollInterval interval =
     (if interval = 0 then defaultExportSessionStatusPollInterval else interval)"

definition NewExporterWithError ::
  "(string \<Rightarrow> go_error + string) \<Rightarrow> exporterConfig \<Rightarrow> go_error + Exporter" where
  "NewExporterWithError parseCIDR cfg =
     (case parseACL parseCIDR (ecAclCIDRs cfg) of
        Inl e \<Rightarrow> Inl e
      | Inr acl \<Rightarrow>
          (case (if ecAcceptRateLimitSet cfg then ValidateAcceptRateLimit (ecAcceptRateLimit cfg)
                 else None) of
             Some e \<Rightarrow> Inl e
           | None \<Rightarrow> Inr
               \<lparr>eCfg = resolveExporterLimits cfg, eAcl = acl,
                eShutdownTimeout = ecShutdownTimeout cfg,
                eStatusPollInterval = resolveExporterStatusPollInterval (ecStatusPollInterval cfg),
                eShutdown = False, eServing = False, eListener = None, eServeCancel = None,
                eSessions = [], ePerPeer = Map.empty, eHeap = [], eShutdownHandles = [],
                eAcceptLoopExited = None\<rparr>))"

section \<open>Sessions\<close>

definition session_handles :: "Exporter \<Rightarrow> sessionHandle list" where
  "session_handles e = map (\<lambda>(_, a). eHeap e ! a) (eSessions e)"

text \<open>Reading a Go map at an absent key gives zero.\<close>

definition perPeer_at :: "(string \<rightharpoonup> nat) \<Rightarrow> string \<Rightarrow> nat" where
  "perPeer_at m k = (case m k of None \<Rightarrow> 0 | Some n \<Rightarrow> n)"

definition registerSession ::
  "Exporter \<Rightarrow> Session \<Rightarrow> string \<Rightarrow> nat \<Rightarrow> (go_error + nat) \<times> Exporter" where
  "registerSession e sess peerKey conn =
     (if eShutdown e then (Inl [App ErrAlreadyShutdown], e)
      else if 0 < maxSessions (eCfg e) \<and> maxSessions (eCfg e) \<le> int (length (eSessions e))
      then (Inl [App ErrMaxSessionsExceeded], e)
      else if 0 < maxSessionsPerPeer (eCfg e) \<and>
              maxSessionsPerPeer (eCfg e) \<le> int (perPeer_at (ePerPeer e) peerKey)
      then (Inl [App ErrPerPeerLimitExceeded], e)
      else if list_ex (\<lambda>existing. sBusID (shSession existing) = sBusID sess) (session_handles e)
      then (Inl [Dom ErrDeviceAlreadyBound], e)
      else let h = length (eHeap e)
        in (Inr h,
            e\<lparr>eHeap := eHeap e @ [new_sessionHandle sess peerKey conn],
              eSessions := AList.update (sID sess) h (eSessions e),
              ePerPeer := (ePerPeer e)(peerKey \<mapsto> perPeer_at (ePerPeer e) peerKey + 1)\<rparr>))"

definition unregisterSession :: "Exporter \<Rightarrow> SessionID \<Rightarrow> Exporter" where
  "unregisterSession e uid =
     (case map_of (eSessions e) uid of
        None \<Rightarrow> e
      | Some a \<Rightarrow>
          let h = eHeap e ! a;
              pp = ePerPeer e;
              pp = (if 0 < perPeer_at pp (shPeerKey h)
                    then pp(shPeerKey h \<mapsto> perPeer_at pp (shPeerKey h) - 1) else pp);
              pp = (if perPeer_at pp (shPeerKey h) = 0 then pp(shPeerKey h := None) else pp)
          in e\<lparr>eSessions := AList.delete uid (eSessions e), ePerPeer := pp,
              eHeap := (eHeap e)[a := handle_cancel h]\<rparr>)"

section \<open>Serve and Shutdown\<close>

definition startServing :: "Exporter \<Rightarrow> nat \<Rightarrow> nat \<Rightarrow> (go_error + nat) \<times> Exporter" where
  "startServing e cancel newChan =
     (if eShutdown e then (Inl [App ErrAlreadyShutdown], e)
      else if eServing e then (Inl [App ErrServeAlreadyRunning], e)
      else (Inr newChan,
            e\<lparr>eServing := True, eListener := None, eServeCancel := Some cancel,
              eAcceptLoopExited := Some newChan\<rparr>))"

definition installServingListener :: "Exporter \<Rightarrow> nat \<Rightarrow> go_error option \<times> Exporter" where
  "installServingListener e listener =
     (if eShutdown e then (Some [App ErrAlreadyShutdown], e)
      else (None, e\<lparr>eListener := Some listener\<rparr>))"

text \<open>Returns the cancel function to call after the mutex is released.\<close>

definition stopServing :: "Exporter \<Rightarrow> nat option \<times> Exporter" where
  "stopServing e =
     (eServeCancel e, e\<lparr>eServing := False, eListener := None, eServeCancel := None\<rparr>)"

record shutdownState =
  firstShutdown :: bool
  ssHandles :: "nat list"
  ssListener :: "nat option"
  ssServeCancel :: "nat option"
  ssAcceptLoopExited :: "nat option"

definition captureShutdownState :: "Exporter \<Rightarrow> shutdownState \<times> Exporter" where
  "captureShutdownState e =
     (let first = \<not> eShutdown e;
          e' = e\<lparr>eShutdown := True\<rparr>;
          e' = (if first then e'\<lparr>eListener := None, eShutdownHandles := map snd (eSessions e)\<rparr> else e')
      in (\<lparr>firstShutdown = first, ssHandles = eShutdownHandles e', ssListener = eListener e,
           ssServeCancel = eServeCancel e, ssAcceptLoopExited = eAcceptLoopExited e\<rparr>, e'))"

text \<open>The loop over the snapshot: signal, cancel, and collect the handles whose \<open>Disconnect\<close> a new
  goroutine performs.  \<open>None\<close> is the panic of a double close.\<close>

fun spawnGracefulDisconnects :: "sessionHandle list \<Rightarrow> nat list \<Rightarrow> (sessionHandle list \<times> nat list) option"
where
  "spawnGracefulDisconnects hp [] = Some (hp, [])"
| "spawnGracefulDisconnects hp (a # as) =
     (case signalCancel (hp ! a) of
        None \<Rightarrow> None
      | Some (handedOff, h) \<Rightarrow>
          (case spawnGracefulDisconnects (hp[a := handle_cancel h]) as of
             None \<Rightarrow> None
           | Some (hp, spawned) \<Rightarrow> Some (hp, if handedOff then a # spawned else spawned)))"

text \<open>\<open>disconnectSession\<close>: \<open>err\<close> is what \<open>kernel.Disconnect\<close> returned.\<close>

definition disconnectSession :: "sessionHandle list \<Rightarrow> nat \<Rightarrow> go_error option \<Rightarrow> sessionHandle list option" where
  "disconnectSession hp a err = map_option (\<lambda>h. hp[a := h]) (finishCleanup (hp ! a) err)"

definition countSessions :: "Exporter \<Rightarrow> nat" where
  "countSessions e = length (eSessions e)"

definition forceCloseSessionConns :: "Exporter \<Rightarrow> nat list" where
  "forceCloseSessionConns e = map shConn (session_handles e)"

definition applyShutdownBackstop :: "Exporter \<Rightarrow> int option \<Rightarrow> int \<Rightarrow> int option" where
  "applyShutdownBackstop e deadline now =
     (if eShutdownTimeout e \<le> 0 then deadline
      else case deadline of
        None \<Rightarrow> Some (now + eShutdownTimeout e)
      | Some d \<Rightarrow> Some (min d (now + eShutdownTimeout e)))"

text \<open>\<open>waitSessionCleanup\<close>: \<open>h0\<close> is the handle at the first check, \<open>ctxWon\<close> which branch of the
  select ran, \<open>h1\<close> the handle when it did.\<close>

definition waitSessionCleanup ::
  "sessionHandle \<Rightarrow> bool \<Rightarrow> sessionHandle \<Rightarrow> bool \<times> go_error option" where
  "waitSessionCleanup h0 ctxWon h1 =
     (case completedCleanupResult h0 of
        (True, err) \<Rightarrow> (False, err)
      | (False, _) \<Rightarrow>
          if \<not> ctxWon then (False, snd (completedCleanupResult h1))
          else (case completedCleanupResult h1 of
                  (True, err) \<Rightarrow> (False, err)
                | (False, _) \<Rightarrow> (True, None)))"

fun completedCleanupErrors :: "sessionHandle list \<Rightarrow> go_error list" where
  "completedCleanupErrors [] = []"
| "completedCleanupErrors (h # hs) =
     (case completedCleanupResult h of
        (True, Some e) \<Rightarrow> e # completedCleanupErrors hs
      | _ \<Rightarrow> completedCleanupErrors hs)"

text \<open>\<open>waitCleanupBounded\<close>: each handle with its observations \<open>(h0, ctxWon, h1)\<close>; the sweep after
  a timeout looks at the remaining handles as they are then (\<open>h1\<close>).\<close>

fun waitCleanupBounded ::
  "go_error \<Rightarrow> (sessionHandle \<times> bool \<times> sessionHandle) list \<Rightarrow> go_error list" where
  "waitCleanupBounded ctxErr [] = []"
| "waitCleanupBounded ctxErr ((h0, ctxWon, h1) # obs) =
     (case waitSessionCleanup h0 ctxWon h1 of
        (timedOut, err) \<Rightarrow>
          (case err of None \<Rightarrow> [] | Some e \<Rightarrow> [e])
          @ (if timedOut then ctxErr # completedCleanupErrors (map (\<lambda>(_, _, h). h) obs)
             else waitCleanupBounded ctxErr obs))"

text \<open>\<open>waitSessionsBounded\<close>: whether the drain future or the context won the first select, whether
  the re-check saw the drain, and what happened within the grace period.\<close>

definition waitSessionsBounded :: "go_error \<Rightarrow> bool \<Rightarrow> bool \<Rightarrow> bool \<Rightarrow> go_error option" where
  "waitSessionsBounded ctxErr doneWon doneAtRecheck doneInGrace =
     (if doneWon then None
      else if doneAtRecheck then None
      else if doneInGrace then Some ctxErr
      else Some ctxErr)"

section \<open>The registry invariant\<close>

definition peer_count :: "Exporter \<Rightarrow> string \<Rightarrow> nat" where
  "peer_count e k = length (filter (\<lambda>h. shPeerKey h = k) (session_handles e))"

text \<open>The map is keyed by the session id stored in the handle, pointers are not shared between
  entries, no two sessions export the same device, the per-peer counters count, the caps hold, and
  after Shutdown began every session still registered is in the retained snapshot.\<close>

definition map_inv :: "Exporter \<Rightarrow> bool" where
  "map_inv e \<longleftrightarrow> distinct (map fst (eSessions e)) \<and> distinct (map snd (eSessions e))
     \<and> (\<forall>(i, a)\<in>set (eSessions e). a < length (eHeap e) \<and> sID (shSession (eHeap e ! a)) = i)"

definition caps_inv :: "Exporter \<Rightarrow> bool" where
  "caps_inv e \<longleftrightarrow>
     distinct (map (\<lambda>h. sBusID (shSession h)) (session_handles e))
     \<and> (\<forall>k. ePerPeer e k = (if peer_count e k = 0 then None else Some (peer_count e k)))
     \<and> (0 < maxSessions (eCfg e) \<longrightarrow> int (length (eSessions e)) \<le> maxSessions (eCfg e))
     \<and> (0 < maxSessionsPerPeer (eCfg e) \<longrightarrow> (\<forall>k. int (peer_count e k) \<le> maxSessionsPerPeer (eCfg e)))"

definition snapshot_inv :: "Exporter \<Rightarrow> bool" where
  "snapshot_inv e \<longleftrightarrow> (eShutdown e \<longrightarrow> set (map snd (eSessions e)) \<subseteq> set (eShutdownHandles e))
     \<and> (\<not> eShutdown e \<longrightarrow> eShutdownHandles e = [])"

definition registry_inv :: "Exporter \<Rightarrow> bool" where
  "registry_inv e \<longleftrightarrow> map_inv e \<and> caps_inv e \<and> snapshot_inv e"

lemmas registry_invs = registry_inv_def map_inv_def caps_inv_def snapshot_inv_def

lemma update_fresh: "k \<notin> fst ` set xs \<Longrightarrow> AList.update k v xs = xs @ [(k, v)]"
  by (induction xs) auto

lemma session_handles_append:
  assumes "map_inv e" "i \<notin> fst ` set (eSessions e)"
  shows "session_handles (e\<lparr>eHeap := eHeap e @ [h], eSessions := AList.update i (length (eHeap e)) (eSessions e),
      ePerPeer := pp\<rparr>) = session_handles e @ [h]"
proof -
  have "map (\<lambda>(_, a). (eHeap e @ [h]) ! a) (eSessions e) = map (\<lambda>(_, a). eHeap e ! a) (eSessions e)"
    using assms(1) by (auto simp: map_inv_def nth_append)
  thus ?thesis
    by (simp add: session_handles_def update_fresh [OF assms(2)])
qed

lemma perPeer_at_count: "caps_inv e \<Longrightarrow> perPeer_at (ePerPeer e) k = peer_count e k"
  by (simp add: caps_inv_def perPeer_at_def)

lemma NewExporter_inv: "NewExporterWithError p cfg = Inr e \<Longrightarrow> registry_inv e"
  by (auto simp: NewExporterWithError_def registry_invs session_handles_def peer_count_def
      split: sum.splits option.splits)

lemma register_map_inv:
  assumes "registerSession e sess k c = (Inr a, e')" "map_inv e" "sID sess \<notin> fst ` set (eSessions e)"
  shows "map_inv e' \<and> session_handles e' = session_handles e @ [new_sessionHandle sess k c]
    \<and> a = length (eHeap e) \<and> length (eSessions e') = Suc (length (eSessions e)) \<and> eCfg e' = eCfg e"
proof -
  let ?h = "new_sessionHandle sess k c"
  have e': "\<exists>pp. e' = e\<lparr>eHeap := eHeap e @ [?h],
      eSessions := AList.update (sID sess) (length (eHeap e)) (eSessions e), ePerPeer := pp\<rparr>"
      and a: "a = length (eHeap e)"
    using assms(1) by (auto simp: registerSession_def Let_def split: if_splits)
  then obtain pp where e': "e' = e\<lparr>eHeap := eHeap e @ [?h],
      eSessions := AList.update (sID sess) (length (eHeap e)) (eSessions e), ePerPeer := pp\<rparr>"
    by blast
  have "map_inv e'"
    using assms(2,3) by (auto simp: map_inv_def e' update_fresh [OF assms(3)] nth_append
        new_sessionHandle_def)
  thus ?thesis
    using session_handles_append [OF assms(2,3), where h = ?h and pp = pp] a
    by (simp add: e' update_fresh [OF assms(3)])
qed

lemma register_inv:
  assumes "registerSession e sess k c = (Inr a, e')" "registry_inv e"
    "sID sess \<notin> fst ` set (eSessions e)"
  shows "registry_inv e'"
proof -
  have inv: "map_inv e" "caps_inv e" "snapshot_inv e"
    using assms(2) by (simp_all add: registry_inv_def)
  note M = register_map_inv [OF assms(1) inv(1) assms(3)]
  have pc: "peer_count e' x = peer_count e x + (if x = k then 1 else 0)" for x
    using M by (simp add: peer_count_def new_sessionHandle_def)
  have pp: "ePerPeer e' = (ePerPeer e)(k \<mapsto> peer_count e k + 1)"
    using assms(1) perPeer_at_count [OF inv(2)]
    by (auto simp: registerSession_def Let_def split: if_splits)
  have ok: "\<not> eShutdown e" "0 < maxSessions (eCfg e) \<longrightarrow> int (length (eSessions e)) < maxSessions (eCfg e)"
      "0 < maxSessionsPerPeer (eCfg e) \<longrightarrow> int (peer_count e k) < maxSessionsPerPeer (eCfg e)"
      "sBusID sess \<notin> set (map (\<lambda>h. sBusID (shSession h)) (session_handles e))"
    using assms(1) perPeer_at_count [OF inv(2)]
    by (auto simp: registerSession_def list_ex_iff split: if_splits)
  have "caps_inv e'"
    using inv(2) ok M pc pp by (auto simp: caps_inv_def new_sessionHandle_def)
  moreover have "snapshot_inv e'"
    using assms(1) inv(3) ok(1) by (auto simp: registerSession_def snapshot_inv_def Let_def
        split: if_splits)
  ultimately show ?thesis
    using M by (simp add: registry_inv_def)
qed

text \<open>Updating a handle in place, as the state machine of \<open>Session_Handle\<close> does, keeps its identity.\<close>

definition same_identity :: "sessionHandle \<Rightarrow> sessionHandle \<Rightarrow> bool" where
  "same_identity h h' \<longleftrightarrow> shSession h' = shSession h \<and> shPeerKey h' = shPeerKey h \<and> shConn h' = shConn h"

lemma same_identity_cancel [simp]: "same_identity h (handle_cancel h)"
  by (simp add: same_identity_def handle_cancel_def)

lemma heap_update_identity:
  assumes "same_identity (hp ! a) h"
  shows "shSession (hp[a := h] ! b) = shSession (hp ! b)" "shPeerKey (hp[a := h] ! b) = shPeerKey (hp ! b)"
proof -
  have "a < length hp \<or> hp[a := h] = hp"
    by (metis leI list_update_beyond)
  thus "shSession (hp[a := h] ! b) = shSession (hp ! b)" "shPeerKey (hp[a := h] ! b) = shPeerKey (hp ! b)"
    using assms by (auto simp: same_identity_def nth_list_update)
qed

lemma heap_update_inv:
  assumes "registry_inv e" "same_identity (eHeap e ! a) h"
  shows "registry_inv (e\<lparr>eHeap := (eHeap e)[a := h]\<rparr>)"
proof -
  let ?e = "e\<lparr>eHeap := (eHeap e)[a := h]\<rparr>"
  have "map (\<lambda>x. f (shSession x) (shPeerKey x)) (session_handles ?e)
      = map (\<lambda>x. f (shSession x) (shPeerKey x)) (session_handles e)" for f :: "Session \<Rightarrow> string \<Rightarrow> 'x"
    by (simp add: session_handles_def comp_def split_beta heap_update_identity [OF assms(2)])
  note keys = this
  have busids: "map (\<lambda>h. sBusID (shSession h)) (session_handles ?e) = map (\<lambda>h. sBusID (shSession h)) (session_handles e)"
    using keys [of "\<lambda>s _. sBusID s"] by simp
  have count: "peer_count x k = length (filter (\<lambda>p. p = k) (map shPeerKey (session_handles x)))" for x k
    by (simp add: peer_count_def filter_map comp_def)
  have peers: "peer_count ?e k = peer_count e k" for k
    unfolding count using keys [of "\<lambda>_ p. p"] by simp
  show ?thesis
    using assms(1) busids peers
    by (auto simp: registry_invs heap_update_identity [OF assms(2)])
qed

lemma delete_append: "AList.delete k (xs @ ys) = AList.delete k xs @ AList.delete k ys"
  by (simp add: AList.delete_eq)

lemma delete_fresh: "k \<notin> fst ` set xs \<Longrightarrow> AList.delete k xs = xs"
  by (induction xs) auto

lemma remove_entry:
  assumes "distinct (map fst xs)" "map_of xs k = Some a"
  obtains ys zs where "xs = ys @ (k, a) # zs" "AList.delete k xs = ys @ zs"
proof -
  obtain ys zs where xs: "xs = ys @ (k, a) # zs"
    using map_of_SomeD [OF assms(2)] by (meson split_list)
  hence "k \<notin> fst ` set ys" "k \<notin> fst ` set zs"
    using assms(1) by auto
  hence "AList.delete k xs = ys @ zs"
    by (simp add: xs delete_append delete_fresh)
  thus thesis
    using that xs by blast
qed

lemma caps_inv_shrink:
  assumes "caps_inv e1" "distinct (map (\<lambda>h. sBusID (shSession h)) (session_handles e2))"
    "\<And>x. ePerPeer e2 x = (if peer_count e2 x = 0 then None else Some (peer_count e2 x))"
    "eCfg e2 = eCfg e1" "length (eSessions e2) \<le> length (eSessions e1)"
    "\<And>x. peer_count e2 x \<le> peer_count e1 x"
  shows "caps_inv e2"
  unfolding caps_inv_def assms(4)
proof (intro conjI impI allI assms(2,3))
  assume "0 < maxSessions (eCfg e1)"
  with assms(1,5) show "int (length (eSessions e2)) \<le> maxSessions (eCfg e1)"
    by (simp add: caps_inv_def)
next
  fix x assume "0 < maxSessionsPerPeer (eCfg e1)"
  hence "int (peer_count e1 x) \<le> maxSessionsPerPeer (eCfg e1)"
    using assms(1) by (simp add: caps_inv_def)
  with assms(6) [of x] show "int (peer_count e2 x) \<le> maxSessionsPerPeer (eCfg e1)"
    by linarith
qed

text \<open>Dropping one entry of the session table and counting its peer down keeps the invariant.\<close>

lemma drop_entry_inv:
  assumes inv: "registry_inv e" and xs: "eSessions e = ys @ (uid, a) # zs"
    and k: "k = shPeerKey (eHeap e ! a)"
    and pp: "pp = (if peer_count e k - 1 = 0 then (ePerPeer e)(k := None) else (ePerPeer e)(k \<mapsto> peer_count e k - 1))"
  shows "registry_inv (e\<lparr>eSessions := ys @ zs, ePerPeer := pp\<rparr>)"
proof -
  define e2 where "e2 = e\<lparr>eSessions := ys @ zs, ePerPeer := pp\<rparr>"
  define A where "A = map (\<lambda>(_, a). eHeap e ! a) ys"
  define B where "B = map (\<lambda>(_, a). eHeap e ! a) zs"
  have i: "map_inv e" "caps_inv e" "snapshot_inv e"
    using inv by (simp_all add: registry_inv_def)
  have h1: "session_handles e = A @ eHeap e ! a # B" and h2: "session_handles e2 = A @ B"
    by (simp_all add: session_handles_def xs e2_def A_def B_def)
  have count: "peer_count e x = peer_count e2 x + (if x = k then 1 else 0)" for x
    by (simp add: peer_count_def h1 h2 k)
  have "ePerPeer e y = (if peer_count e y = 0 then None else Some (peer_count e y))" for y
    using i(2) by (simp add: caps_inv_def)
  moreover have "ePerPeer e2 = pp"
    by (simp add: e2_def)
  ultimately have pp_ok: "ePerPeer e2 x = (if peer_count e2 x = 0 then None else Some (peer_count e2 x))" for x
    using count [of x] count [of k] by (simp add: pp)
  have d: "distinct (map (\<lambda>h. sBusID (shSession h)) (session_handles e2))"
    using i(2) by (simp add: caps_inv_def h1 h2)
  have "caps_inv e2"
    by (rule caps_inv_shrink [OF i(2) d pp_ok]) (simp_all add: e2_def xs count)
  moreover have "map_inv e2" "snapshot_inv e2"
    using i(1,3) by (auto simp: map_inv_def snapshot_inv_def xs e2_def)
  ultimately show ?thesis
    by (simp add: registry_inv_def e2_def)
qed

lemma unregister_inv:
  assumes "registry_inv e"
  shows "registry_inv (unregisterSession e uid)"
proof (cases "map_of (eSessions e) uid")
  case None
  thus ?thesis
    using assms by (simp add: unregisterSession_def)
next
  case (Some a)
  define e1 where "e1 = e\<lparr>eHeap := (eHeap e)[a := handle_cancel (eHeap e ! a)]\<rparr>"
  define k where "k = shPeerKey (eHeap e ! a)"
  define pp where "pp = (if peer_count e1 k - 1 = 0 then (ePerPeer e1)(k := None)
             else (ePerPeer e1)(k \<mapsto> peer_count e1 k - 1))"
  have inv: "registry_inv e1"
    using heap_update_inv [OF assms same_identity_cancel, of a] by (simp add: e1_def)
  have k: "k = shPeerKey (eHeap e1 ! a)"
    using heap_update_identity(2) [OF same_identity_cancel, where hp = "eHeap e"]
    by (simp add: e1_def k_def)
  obtain ys zs where xs: "eSessions e1 = ys @ (uid, a) # zs" "AList.delete uid (eSessions e) = ys @ zs"
    using remove_entry [of "eSessions e1" uid a] Some inv by (auto simp: registry_inv_def map_inv_def e1_def)
  have "perPeer_at (ePerPeer e) k = peer_count e1 k"
    using perPeer_at_count [of e1] inv by (simp add: registry_inv_def e1_def)
  hence "unregisterSession e uid = e1\<lparr>eSessions := ys @ zs, ePerPeer := pp\<rparr>"
    using Some
    by (simp add: unregisterSession_def Let_def xs(2) e1_def [symmetric] k_def [symmetric] pp_def)
      (simp add: e1_def perPeer_at_def)
  thus ?thesis
    using drop_entry_inv [OF inv xs(1) k pp_def] by simp
qed

section \<open>Reachable states\<close>

text \<open>Every locked section of the Exporter is one step; the handler's updates of its own handle are
  arbitrary as far as the registry is concerned, except that they keep the handle's identity.
  Session identifiers are fresh (they are random UUIDs).\<close>

inductive exporter_step :: "Exporter \<Rightarrow> Exporter \<Rightarrow> bool" where
  register: "registerSession e sess k c = (r, e') \<Longrightarrow> sID sess \<notin> fst ` set (eSessions e)
    \<Longrightarrow> exporter_step e e'"
| unregister: "exporter_step e (unregisterSession e uid)"
| handle: "same_identity (eHeap e ! a) h \<Longrightarrow> exporter_step e (e\<lparr>eHeap := (eHeap e)[a := h]\<rparr>)"
| start: "startServing e cancel ch = (r, e') \<Longrightarrow> exporter_step e e'"
| install: "installServingListener e l = (r, e') \<Longrightarrow> exporter_step e e'"
| stop: "stopServing e = (r, e') \<Longrightarrow> exporter_step e e'"
| capture: "captureShutdownState e = (st, e') \<Longrightarrow> exporter_step e e'"

inductive exporter_reach :: "Exporter \<Rightarrow> bool" where
  new: "NewExporterWithError parseCIDR cfg = Inr e \<Longrightarrow> exporter_reach e"
| step: "exporter_reach e \<Longrightarrow> exporter_step e e' \<Longrightarrow> exporter_reach e'"

inductive_cases exporter_stepE: "exporter_step e e'"

lemma registerSession_refused: "registerSession e sess k c = (Inl err, e') \<Longrightarrow> e' = e"
  by (auto simp: registerSession_def Let_def split: if_splits)

text \<open>Operations that touch neither the session map, the counters nor the handles.\<close>

lemma registry_inv_frame:
  assumes "registry_inv e" "eSessions e' = eSessions e" "eHeap e' = eHeap e" "ePerPeer e' = ePerPeer e"
    "eCfg e' = eCfg e" "snapshot_inv e'"
  shows "registry_inv e'"
  using assms by (simp add: registry_inv_def map_inv_def caps_inv_def session_handles_def peer_count_def)

lemma serving_inv:
  assumes "registry_inv e"
  shows "startServing e cancel ch = (r, e') \<Longrightarrow> registry_inv e'"
    and "installServingListener e l = (r', e') \<Longrightarrow> registry_inv e'"
    and "stopServing e = (r'', e') \<Longrightarrow> registry_inv e'"
    and "captureShutdownState e = (st, e') \<Longrightarrow> registry_inv e'"
proof -
  have s: "snapshot_inv e"
    using assms by (simp add: registry_inv_def)
  show "startServing e cancel ch = (r, e') \<Longrightarrow> registry_inv e'"
    using s by (intro registry_inv_frame [OF assms])
      (auto simp: startServing_def snapshot_inv_def split: if_splits)
  show "installServingListener e l = (r', e') \<Longrightarrow> registry_inv e'"
    using s by (intro registry_inv_frame [OF assms])
      (auto simp: installServingListener_def snapshot_inv_def split: if_splits)
  show "stopServing e = (r'', e') \<Longrightarrow> registry_inv e'"
    using s by (intro registry_inv_frame [OF assms]) (force simp: stopServing_def snapshot_inv_def)+
  show "captureShutdownState e = (st, e') \<Longrightarrow> registry_inv e'"
    using s by (intro registry_inv_frame [OF assms])
      (force simp: captureShutdownState_def snapshot_inv_def Let_def split: if_splits)+
qed

lemma exporter_step_inv:
  assumes "exporter_step e e'" "registry_inv e"
  shows "registry_inv e'"
  using assms(1)
proof (cases rule: exporter_step.cases)
  case (register sess k c r)
  thus ?thesis
    using assms(2) register_inv registerSession_refused by (cases r) blast+
qed (use assms(2) in \<open>auto intro: unregister_inv heap_update_inv serving_inv\<close>)

lemma exporter_reach_inv: "exporter_reach e \<Longrightarrow> registry_inv e"
  by (induction rule: exporter_reach.induct) (auto intro: NewExporter_inv exporter_step_inv)

lemma shutdown_stays:
  assumes "exporter_step e e'" "eShutdown e"
  shows "eShutdown e' \<and> eShutdownHandles e' = eShutdownHandles e"
  using assms by (cases rule: exporter_step.cases)
    (auto simp: registerSession_def unregisterSession_def startServing_def installServingListener_def
      stopServing_def captureShutdownState_def Let_def split: if_splits option.splits)

section \<open>Properties\<close>

text \<open>C9: in every reachable state of the Exporter the session registry respects its limits: at most
  \<open>maxSessions\<close> sessions, at most \<open>maxSessionsPerPeer\<close> per peer, no two sessions for the same
  device, and the per-peer counters are exactly the number of live sessions of the peer (absent
  when zero), whatever sequence of registrations, endings, Serve and Shutdown calls led there.\<close>

theorem exporter_registry_limits:
  assumes "exporter_reach e"
  shows "(0 < maxSessions (eCfg e) \<longrightarrow> int (length (eSessions e)) \<le> maxSessions (eCfg e))
    \<and> (0 < maxSessionsPerPeer (eCfg e) \<longrightarrow> int (peer_count e k) \<le> maxSessionsPerPeer (eCfg e))
    \<and> distinct (map (\<lambda>h. sBusID (shSession h)) (session_handles e))
    \<and> perPeer_at (ePerPeer e) k = peer_count e k
    \<and> (k \<in> dom (ePerPeer e) \<longleftrightarrow> 0 < peer_count e k)"
proof -
  have c: "caps_inv e"
    using exporter_reach_inv [OF assms] by (simp add: registry_inv_def)
  thus ?thesis
    using perPeer_at_count [OF c, of k] by (auto simp: caps_inv_def split: if_splits)
qed

definition sample_config :: exporterConfig where
  "sample_config = \<lparr>ecMaxSessions = 0, ecMaxSessionsPerPeer = 1, ecAcceptRateLimit = Fin 0,
     ecAcceptRateLimitSet = False, ecAcceptBurst = 0, ecMaxHandshakeBytes = 0,
     ecHandshakeTimeout = 0, ecAclCIDRs = [], ecShutdownTimeout = 0, ecStatusPollInterval = 0\<rparr>"

definition sample_exporter :: Exporter where
  "sample_exporter =
     \<lparr>eCfg = resolveExporterLimits sample_config, eAcl = [], eShutdownTimeout = 0,
      eStatusPollInterval = defaultExportSessionStatusPollInterval, eShutdown = False,
      eServing = False, eListener = None, eServeCancel = None, eSessions = [],
      ePerPeer = Map.empty, eHeap = [], eShutdownHandles = [], eAcceptLoopExited = None\<rparr>"

lemma sample_exporter_reach: "exporter_reach sample_exporter"
  by (rule exporter_reach.new [where parseCIDR = "\<lambda>_. Inl []" and cfg = sample_config])
    (simp add: NewExporterWithError_def sample_config_def sample_exporter_def
      resolveExporterStatusPollInterval_def)

definition sample_registered :: Exporter where
  "sample_registered = snd (registerSession sample_exporter sample_session ''192.0.2.1'' 3)"

lemma sample_registered_reach: "exporter_reach sample_registered"
proof -
  obtain r e' where re: "registerSession sample_exporter sample_session ''192.0.2.1'' 3 = (r, e')"
    by fastforce
  moreover have "sID sample_session \<notin> fst ` set (eSessions sample_exporter)"
    by (simp add: sample_exporter_def)
  ultimately have "exporter_step sample_exporter e'"
    by (rule exporter_step.register)
  thus ?thesis
    using exporter_reach.step [OF sample_exporter_reach] re by (simp add: sample_registered_def)
qed

theorem exporter_registry_limits_witness:
  "length (eSessions sample_registered) = 1
   \<and> int (peer_count sample_registered ''192.0.2.1'') \<le> maxSessionsPerPeer (eCfg sample_registered)"
proof -
  have "length (eSessions sample_registered) = 1"
      "0 < maxSessionsPerPeer (eCfg sample_registered)"
    by (simp_all add: sample_registered_def sample_exporter_def registerSession_def
        sample_config_def resolveExporterLimits_def defaultMaxSessions_def perPeer_at_def
        session_handles_def)
  with exporter_registry_limits [OF sample_registered_reach, of "''192.0.2.1''"] show ?thesis
    by blast
qed

text \<open>C12: Shutdown is terminal and misses no session.  Once Shutdown has captured the state, every
  session still registered is in the retained snapshot whose handles Shutdown signals and waits
  for; no session can register and no Serve can start or install a listener any more; and a
  repeated Shutdown sees the same snapshot without being first.\<close>

theorem exporter_shutdown_complete:
  assumes "exporter_reach e" "eShutdown e"
  shows "(\<forall>(i, a)\<in>set (eSessions e). a \<in> set (eShutdownHandles e))
    \<and> registerSession e sess k c = (Inl [App ErrAlreadyShutdown], e)
    \<and> startServing e cancel ch = (Inl [App ErrAlreadyShutdown], e)
    \<and> installServingListener e l = (Some [App ErrAlreadyShutdown], e)
    \<and> ssHandles (fst (captureShutdownState e)) = eShutdownHandles e
    \<and> \<not> firstShutdown (fst (captureShutdownState e))
    \<and> (\<forall>e'. exporter_step e e' \<longrightarrow> eShutdown e' \<and> eShutdownHandles e' = eShutdownHandles e)"
proof -
  have "snapshot_inv e"
    using exporter_reach_inv [OF assms(1)] by (simp add: registry_inv_def)
  thus ?thesis
    using assms(2) shutdown_stays [of e]
    by (auto simp: snapshot_inv_def registerSession_def startServing_def
        installServingListener_def captureShutdownState_def)
qed

theorem exporter_shutdown_complete_witness:
  "eSessions (snd (captureShutdownState sample_registered)) = [(replicate 16 1, 0)]
   \<and> registerSession (snd (captureShutdownState sample_registered)) sample_session ''p'' 4
      = (Inl [App ErrAlreadyShutdown], snd (captureShutdownState sample_registered))"
proof -
  have "exporter_reach (snd (captureShutdownState sample_registered))"
    using exporter_reach.step [OF sample_registered_reach exporter_step.capture]
    by (metis prod.collapse)
  moreover have "eShutdown (snd (captureShutdownState sample_registered))"
    by (simp add: captureShutdownState_def Let_def)
  moreover have "eSessions (snd (captureShutdownState sample_registered)) = [(replicate 16 1, 0)]"
    by (simp add: captureShutdownState_def Let_def sample_registered_def sample_exporter_def
        registerSession_def sample_config_def resolveExporterLimits_def defaultMaxSessions_def
        perPeer_at_def session_handles_def sample_session_def)
  ultimately show ?thesis
    using exporter_shutdown_complete by blast
qed

end
