(* ===== verification/Wire_Header.thy ===== *)
theory Wire_Header
  imports Domain_Types Go_IO
begin

text \<open>
  \<open>internal/adapter/wire/opcodes.go\<close> and \<open>header.go\<close>: the 8-byte OP header (version, opcode,
  status, big-endian), its encoder and the two decoders, with the error matrix of the source.
\<close>

section \<open>Definitions\<close>

definition isKnownOpCode :: "u16 \<Rightarrow> bool" where
  "isKnownOpCode op \<longleftrightarrow> op \<in> {OpReqDevlist, OpRepDevlist, OpReqImport, OpRepImport}"

definition headerSize :: nat where "headerSize = 8"
definition offHdrVersion :: nat where "offHdrVersion = 0"
definition offHdrOpCode :: nat where "offHdrOpCode = 2"
definition offHdrStatus :: nat where "offHdrStatus = 4"

definition EncodeHeader :: "u16 \<Rightarrow> u32 \<Rightarrow> bytes" where
  "EncodeHeader op status =
     (let buf = replicate headerSize 0;
          buf = put_at buf offHdrVersion (PutUint16 ProtocolVersion);
          buf = put_at buf offHdrOpCode (PutUint16 op)
      in put_at buf offHdrStatus (PutUint32 status))"

definition mapHeaderReadErr :: "nat \<Rightarrow> go_error \<Rightarrow> go_error" where
  "mapHeaderReadErr n err =
     (if n = 0 \<and> errors_Is err (Io EOF) then [Io EOF]
      else if errors_Is err (Io ErrUnexpectedEOF) \<or> errors_Is err (Io EOF)
      then [Io ErrUnexpectedEOF]
      else err)"

definition decodeHeaderAllowStatus ::
  "reader \<Rightarrow> (go_error + (u16 \<times> u16 \<times> u32)) \<times> reader" where
  "decodeHeaderAllowStatus r =
     (case io_ReadFull r headerSize of
        (Inl (n, err), r) \<Rightarrow> (Inl (mapHeaderReadErr n err), r)
      | (Inr buf, r) \<Rightarrow>
          let version = Uint16 (drop offHdrVersion buf);
              op = Uint16 (drop offHdrOpCode buf);
              status = Uint32 (drop offHdrStatus buf)
          in if version \<noteq> ProtocolVersion then (Inl [Dom ErrProtocolMismatch], r)
             else if \<not> isKnownOpCode op then (Inl [Dom ErrProtocolMismatch], r)
             else (Inr (version, op, status), r))"

definition DecodeHeader :: "reader \<Rightarrow> (go_error + (u16 \<times> u16 \<times> u32)) \<times> reader" where
  "DecodeHeader r =
     rbind (decodeHeaderAllowStatus r) (\<lambda>(version, op, status) r.
       if status \<noteq> 0 then (Inl [Dom ErrProtocolError], r)
       else (Inr (version, op, status), r))"

section \<open>Lemmas\<close>

lemmas header_offsets = headerSize_def offHdrVersion_def offHdrOpCode_def offHdrStatus_def

lemma EncodeHeader_bytes [wire_simps]:
  "EncodeHeader op status = PutUint16 ProtocolVersion @ PutUint16 op @ PutUint32 status"
proof -
  have "put_at (replicate 8 0) 0 (PutUint16 ProtocolVersion)
      = PutUint16 ProtocolVersion @ replicate 6 0"
    by (simp add: put_at_first)
  moreover have "put_at (PutUint16 ProtocolVersion @ replicate 6 0) 2 (PutUint16 op)
      = (PutUint16 ProtocolVersion @ PutUint16 op) @ replicate 4 0"
    by (simp add: put_at_step)
  moreover have "put_at ((PutUint16 ProtocolVersion @ PutUint16 op) @ replicate 4 0) 4
      (PutUint32 status) = ((PutUint16 ProtocolVersion @ PutUint16 op) @ PutUint32 status) @ []"
    by (subst put_at_step) simp_all
  ultimately show ?thesis
    by (simp add: EncodeHeader_def header_offsets)
qed

lemma length_EncodeHeader [simp]: "length (EncodeHeader op status) = 8"
  by (simp add: EncodeHeader_bytes)

text \<open>Decoding what the encoder wrote, whatever follows it on the stream.\<close>

lemma decodeHeaderAllowStatus_Encode:
  assumes "rcontent r = EncodeHeader op status @ rest" "isKnownOpCode op"
  obtains r' where "decodeHeaderAllowStatus r = (Inr (ProtocolVersion, op, status), r')"
    "rcontent r' = rest" "rend r' = rend r"
proof -
  obtain r' where r': "io_ReadFull r 8 = (Inr (EncodeHeader op status), r')"
      "rcontent r' = rest" "rend r' = rend r"
    using io_ReadFull_ok [OF assms(1)] by (metis length_EncodeHeader)
  have "drop 2 (EncodeHeader op status) = PutUint16 op @ PutUint32 status"
      "drop 4 (EncodeHeader op status) = PutUint32 status"
      "Uint16 (EncodeHeader op status) = ProtocolVersion"
    by (simp_all add: EncodeHeader_bytes)
  hence "decodeHeaderAllowStatus r = (Inr (ProtocolVersion, op, status), r')"
    using r'(1) assms(2) by (simp add: decodeHeaderAllowStatus_def header_offsets)
  thus thesis
    using r'(2,3) that by blast
qed

lemma DecodeHeader_Encode:
  assumes "rcontent r = EncodeHeader op 0 @ rest" "isKnownOpCode op"
  obtains r' where "DecodeHeader r = (Inr (ProtocolVersion, op, 0), r')"
    "rcontent r' = rest" "rend r' = rend r"
proof -
  obtain r' where "decodeHeaderAllowStatus r = (Inr (ProtocolVersion, op, 0), r')"
      "rcontent r' = rest" "rend r' = rend r"
    using decodeHeaderAllowStatus_Encode [OF assms] .
  thus thesis
    by (intro that [of r']) (simp_all add: DecodeHeader_def)
qed

text \<open>What a successful decode tells about the stream: the decoder accepts exactly the encoder's
  image.\<close>

lemma Encode_decodeHeader:
  assumes "decodeHeaderAllowStatus r = (Inr (v, op, status), r')"
  shows "v = ProtocolVersion \<and> isKnownOpCode op \<and> rcontent r = EncodeHeader op status @ rcontent r'
    \<and> rend r' = rend r"
proof -
  obtain buf where buf: "io_ReadFull r 8 = (Inr buf, r')"
      and v: "v = Uint16 buf" "op = Uint16 (drop 2 buf)" "status = Uint32 (drop 4 buf)"
      and ok: "v = ProtocolVersion" "isKnownOpCode op"
    using assms by (auto simp: decodeHeaderAllowStatus_def header_offsets Let_def
        split: prod.splits sum.splits if_splits)
  have len: "length buf = 8" and cont: "rcontent r = buf @ rcontent r'" "rend r' = rend r"
    using io_ReadFull_Inr [OF buf] by auto
  from len obtain a b c d e f g h where bs: "buf = [a, b, c, d, e, f, g, h]"
    by (auto simp: numeral_eq_Suc length_Suc_conv)
  have "Uint16 buf = Uint16 [a, b]" "drop 2 buf = [c, d, e, f, g, h]" "drop 4 buf = [e, f, g, h]"
       "Uint16 [c, d, e, f, g, h] = Uint16 [c, d]"
    by (simp_all add: bs Uint16_def)
  hence "PutUint16 v = [a, b]" "PutUint16 op = [c, d]" "PutUint32 status = [e, f, g, h]"
    using v by (simp_all add: PutUint16_Uint16 PutUint32_Uint32)
  hence "EncodeHeader op status = buf"
    unfolding EncodeHeader_bytes ok(1) [symmetric] by (simp add: bs)
  thus ?thesis
    using ok cont by simp
qed

lemma DecodeHeader_Inr:
  assumes "DecodeHeader r = (Inr (v, op, status), r')"
  shows "status = 0 \<and> decodeHeaderAllowStatus r = (Inr (v, op, 0), r')"
  using assms by (auto simp: DecodeHeader_def rbind_eq_Inr split: if_splits)

end
