(* ===== verification/Wire_Fields.thy ===== *)
theory Wire_Fields
  imports Domain_Types Go_IO
begin

text \<open>
  \<open>internal/adapter/wire/fields.go\<close>: NUL-padded fixed-width string fields and the advisory
  flags a permissive decode returns.  \<open>padded\<close> is the byte layout the writer implements;
  \<open>paddedStringFromBytes_padded\<close> is the round trip and \<open>paddedStringFromBytes_clean\<close> says exactly
  when the reader does not raise the truncation flag.
\<close>

section \<open>Definitions\<close>

record PaddedStringTruncation =
  ptField :: string
  ptDeviceIndex :: nat

record DecodeFlags =
  TruncatedPaddedStrings :: "PaddedStringTruncation list"
  TrailingBytes :: bool

definition noFlags :: DecodeFlags where
  "noFlags = \<lparr>TruncatedPaddedStrings = [], TrailingBytes = False\<rparr>"

definition minPrintableASCII :: u8 where "minPrintableASCII = 0x20"
definition maxPrintableASCII :: u8 where "maxPrintableASCII = 0x7E"

definition overflowErr :: "nat \<Rightarrow> nat \<Rightarrow> go_error" where
  "overflowErr len sz = (if sz = BusIDSize then [Dom ErrBusIDInvalid] else [Dom ErrProtocolError])"

definition WritePaddedString :: "writer \<Rightarrow> string \<Rightarrow> nat \<Rightarrow> go_error option \<times> writer" where
  "WritePaddedString w s sz =
     (if sz \<le> length s then (Some (overflowErr (length s) sz), w)
      else let buf = put_at (replicate sz 0) 0 (map byte_of_char s)
           in io_Write w buf)"

fun isAllPrintable :: "bytes \<Rightarrow> bool" where
  "isAllPrintable [] = True"
| "isAllPrintable (b # buf) =
     (if b < minPrintableASCII \<or> maxPrintableASCII < b then False else isAllPrintable buf)"

text \<open>The slow path: \<open>pre\<close> is \<open>buf[:i]\<close>, the second argument what the loop has still to scan.\<close>

fun padded_scan :: "bytes \<Rightarrow> bytes \<Rightarrow> string \<times> bool" where
  "padded_scan pre [] = (map char_of_byte pre, True)"
| "padded_scan pre (b # bs) =
     (if b < minPrintableASCII \<or> maxPrintableASCII < b then (map char_of_byte pre, True)
      else padded_scan (pre @ [b]) bs)"

definition paddedStringFromBytes :: "bytes \<Rightarrow> string \<times> bool" where
  "paddedStringFromBytes buf =
     (let before = takeWhile (\<lambda>b. b \<noteq> 0) buf; found = (0 \<in> set buf)
      in if found \<and> isAllPrintable before then (map char_of_byte before, False)
         else padded_scan [] buf)"

definition ReadPaddedString :: "reader \<Rightarrow> nat \<Rightarrow> (go_error + (string \<times> bool)) \<times> reader" where
  "ReadPaddedString r sz =
     (case io_ReadFull r sz of
        (Inl (n, err), r) \<Rightarrow>
          if errors_Is err (Io ErrUnexpectedEOF) \<or> errors_Is err (Io EOF)
          then (Inl [Io ErrUnexpectedEOF], r) else (Inl err, r)
      | (Inr buf, r) \<Rightarrow> (Inr (paddedStringFromBytes buf), r))"

section \<open>Layout and lemmas\<close>

definition printable_byte :: "u8 \<Rightarrow> bool" where
  "printable_byte b \<longleftrightarrow> 0x20 \<le> b \<and> b \<le> 0x7E"

definition printable :: "string \<Rightarrow> bool" where
  "printable s \<longleftrightarrow> (\<forall>c\<in>set s. printable_byte (byte_of_char c))"

definition padded :: "string \<Rightarrow> nat \<Rightarrow> bytes" where
  "padded s sz = map byte_of_char s @ replicate (sz - length s) 0"

lemma length_padded [simp]: "length s \<le> sz \<Longrightarrow> length (padded s sz) = sz"
  by (simp add: padded_def)

lemma printable_bounds: "(b < minPrintableASCII \<or> maxPrintableASCII < b) = (\<not> printable_byte b)"
  by (auto simp: printable_byte_def minPrintableASCII_def maxPrintableASCII_def)

lemma isAllPrintable_iff: "isAllPrintable buf \<longleftrightarrow> (\<forall>b\<in>set buf. printable_byte b)"
  by (induction buf) (auto simp: printable_bounds)

lemma padded_scan_takeWhile:
  "padded_scan pre bs = (map char_of_byte (pre @ takeWhile printable_byte bs), True)"
  by (induction pre bs rule: padded_scan.induct) (auto simp: printable_bounds)

lemma not_printable_0 [simp]: "\<not> printable_byte 0"
  by (simp add: printable_byte_def)

lemma WritePaddedString_ok:
  assumes "length s < sz" "wcap w = None"
  shows "WritePaddedString w s sz = (None, w\<lparr>wout := wout w @ padded s sz\<rparr>)"
  using assms by (simp add: WritePaddedString_def put_at_first padded_def)

lemma WritePaddedString_overflow:
  "sz \<le> length s \<Longrightarrow> WritePaddedString w s sz
     = (Some (if sz = BusIDSize then [Dom ErrBusIDInvalid] else [Dom ErrProtocolError]), w)"
  by (simp add: WritePaddedString_def overflowErr_def)

lemma paddedStringFromBytes_padded:
  assumes "length s < sz" "printable s"
  shows "paddedStringFromBytes (padded s sz) = (s, False)"
proof -
  obtain k where k: "sz - length s = Suc k"
    using assms(1) by (metis Suc_diff_Suc)
  have nz: "\<forall>b\<in>set (map byte_of_char s). b \<noteq> 0"
    using assms(2) by (auto simp: printable_def)
  have tw: "takeWhile (\<lambda>b. b \<noteq> 0) (padded s sz) = map byte_of_char s"
    using takeWhile_append_stop [OF nz, of 0 "replicate k 0"] by (simp add: padded_def k)
  have "isAllPrintable (map byte_of_char s)"
    using assms(2) by (auto simp: isAllPrintable_iff printable_def)
  moreover have "0 \<in> set (padded s sz)"
    by (simp add: padded_def k)
  ultimately show ?thesis
    by (simp add: paddedStringFromBytes_def tw)
qed

text \<open>The unflagged result: there is a NUL, and what precedes the first one is printable.  Bytes
  after the first NUL are not looked at.\<close>

lemma paddedStringFromBytes_clean:
  "paddedStringFromBytes buf = (s, False) \<longleftrightarrow>
     (\<exists>rest. buf = map byte_of_char s @ 0 # rest) \<and> printable s"
proof
  assume *: "paddedStringFromBytes buf = (s, False)"
  hence found: "0 \<in> set buf" and pr: "isAllPrintable (takeWhile (\<lambda>b. b \<noteq> 0) buf)"
      and s: "s = map char_of_byte (takeWhile (\<lambda>b. b \<noteq> 0) buf)"
    by (auto simp: paddedStringFromBytes_def padded_scan_takeWhile Let_def split: if_splits)
  from found have "dropWhile (\<lambda>b. b \<noteq> 0) buf \<noteq> []"
    by (auto simp: dropWhile_eq_Nil_conv)
  then obtain y rest where d: "dropWhile (\<lambda>b. b \<noteq> 0) buf = y # rest"
    by (cases "dropWhile (\<lambda>b. b \<noteq> 0) buf") auto
  have "y = 0"
    using hd_dropWhile [of "\<lambda>b. b \<noteq> 0" buf] d by simp
  moreover have "buf = takeWhile (\<lambda>b. b \<noteq> 0) buf @ dropWhile (\<lambda>b. b \<noteq> 0) buf"
    by simp
  ultimately have "buf = map byte_of_char s @ 0 # rest"
    using d s by (simp add: comp_def)
  thus "(\<exists>rest. buf = map byte_of_char s @ 0 # rest) \<and> printable s"
    using pr s by (auto simp: isAllPrintable_iff printable_def)
next
  assume "(\<exists>rest. buf = map byte_of_char s @ 0 # rest) \<and> printable s"
  then obtain rest where buf: "buf = map byte_of_char s @ 0 # rest" and pr: "printable s"
    by blast
  have "takeWhile (\<lambda>b. b \<noteq> 0) buf = map byte_of_char s"
    unfolding buf using pr by (intro takeWhile_append_stop) (auto simp: printable_def)
  thus "paddedStringFromBytes buf = (s, False)"
    using pr buf by (auto simp: paddedStringFromBytes_def isAllPrintable_iff printable_def)
qed

text \<open>Whatever the peer sent, the decoded string is printable and fits the field.\<close>

lemma paddedStringFromBytes_printable: "printable (fst (paddedStringFromBytes buf))"
  by (auto simp: paddedStringFromBytes_def padded_scan_takeWhile Let_def printable_def
      isAllPrintable_iff dest: set_takeWhileD)

lemma paddedStringFromBytes_length: "length (fst (paddedStringFromBytes buf)) \<le> length buf"
  by (simp add: paddedStringFromBytes_def padded_scan_takeWhile Let_def length_takeWhile_le)

lemma ReadPaddedString_content:
  assumes "rcontent r = bs @ rest" "length bs = sz"
  obtains r' where "ReadPaddedString r sz = (Inr (paddedStringFromBytes bs), r')"
    "rcontent r' = rest" "rend r' = rend r"
  using io_ReadFull_ok [OF assms(1)] assms(2)
  by (metis (no_types, lifting) ReadPaddedString_def case_prod_conv old.sum.simps(6))

lemma ReadPaddedString_short:
  assumes "length (rcontent r) < sz" "rend r = [Io EOF]"
  shows "fst (ReadPaddedString r sz) = Inl [Io ErrUnexpectedEOF]"
  using io_ReadFull_short [OF assms(1)] assms(2)
  by (cases "io_ReadFull r sz") (auto simp: ReadPaddedString_def)

end
