(* ===== verification/Codec_Spec.thy ===== *)
theory Codec_Spec
  imports Go_IO
begin

text \<open>
  The contract of a wire codec, as \<open>app.ProtocolCodec\<close> relies on it: an encoder writes the frame
  of a value, the decoder reads it back from a stream and leaves exactly the bytes after it, no
  matter how the network cut the stream into segments.  \<open>frame\<close> is the byte layout, \<open>ok\<close> the
  values that can be encoded, and \<open>view\<close> what survives on the wire.  The locale is interpreted on
  every encoder/decoder pair of the wire adapter.
\<close>

locale frame_codec =
  fixes enc :: "writer \<Rightarrow> 'a \<Rightarrow> go_error option \<times> writer"
    and dec :: "reader \<Rightarrow> (go_error + 'b) \<times> reader"
    and frame :: "'a \<Rightarrow> bytes"
    and ok :: "'a \<Rightarrow> bool"
    and view :: "'a \<Rightarrow> 'b"
  assumes enc_frame: "ok a \<Longrightarrow> wcap w = None \<Longrightarrow> enc w a = (None, w\<lparr>wout := wout w @ frame a\<rparr>)"
    and dec_frame: "ok a \<Longrightarrow> rcontent r = frame a @ rest \<Longrightarrow>
          \<exists>r'. dec r = (Inr (view a), r') \<and> rcontent r' = rest \<and> rend r' = rend r"
begin

lemma roundtrip:
  assumes "ok a" "wcap w = None" "wout w = []" "rcontent r = wout (snd (enc w a)) @ rest"
  shows "fst (enc w a) = None \<and> (\<exists>r'. dec r = (Inr (view a), r') \<and> rcontent r' = rest)"
  using assms enc_frame [of a w] dec_frame [of a r rest] by auto

text \<open>Two values with the same wire view are the only way to confuse two frames: no frame is a
  prefix of a stream that starts with a frame of a different view.\<close>

lemma unambiguous:
  assumes "ok a" "ok b" "frame a @ x = frame b @ y"
  shows "view a = view b \<and> x = y"
  using dec_frame [OF assms(1), of "reader_of (frame a @ x)" x]
    dec_frame [OF assms(2), of "reader_of (frame a @ x)" y] assms(3) by auto

text \<open>Frames written back to back are read back in order: the loop that decodes one after the
  other consumes exactly what the loop that encodes them wrote.\<close>

lemma pipelined:
  assumes "\<forall>a\<in>set as. ok a" "rcontent r = concat (map frame as) @ rest"
  shows "\<exists>r'. fold (\<lambda>_ (bs, r). case dec r of (Inr b, r) \<Rightarrow> (bs @ [b], r) | (Inl e, r) \<Rightarrow> (bs, r))
      as (pre, r) = (pre @ map view as, r') \<and> rcontent r' = rest \<and> rend r' = rend r"
  using assms
proof (induction as arbitrary: r pre)
  case (Cons a as)
  obtain r1 where r1: "dec r = (Inr (view a), r1)"
      "rcontent r1 = concat (map frame as) @ rest" "rend r1 = rend r"
    using dec_frame [of a r "concat (map frame as) @ rest"] Cons.prems by auto
  show ?case
    using Cons.IH [of r1 "pre @ [view a]"] Cons.prems(1) r1 by auto
qed simp

end

text \<open>A codec whose encoder also refuses what it cannot represent, before or while writing.\<close>

locale checked_codec = frame_codec enc dec frame ok view
  for enc :: "writer \<Rightarrow> 'a \<Rightarrow> go_error option \<times> writer"
    and dec :: "reader \<Rightarrow> (go_error + 'b) \<times> reader"
    and frame :: "'a \<Rightarrow> bytes" and ok :: "'a \<Rightarrow> bool" and view :: "'a \<Rightarrow> 'b" +
  fixes representable :: "'a \<Rightarrow> bool"
  assumes enc_refuses: "\<not> representable a \<Longrightarrow> wcap w = None \<Longrightarrow> fst (enc w a) \<noteq> None"
    and ok_representable: "ok a \<Longrightarrow> representable a"
begin

lemma encodes_only_representable: "wcap w = None \<Longrightarrow> fst (enc w a) = None \<Longrightarrow> representable a"
  using enc_refuses by blast

end

end
