(* ===== verification/Wire_Layout.thy ===== *)
theory Wire_Layout
  imports Wire_Fields Codec_Spec
begin

text \<open>
  \<open>internal/adapter/wire/layout.go\<close>: the 312-byte device descriptor.  \<open>device_frame\<close> is the byte
  layout as a concatenation of its fields; the encoder, which fills a buffer at the source's
  offsets, is shown to produce it, and the pair is an instance of \<open>checked_codec\<close>.
\<close>

section \<open>Definitions\<close>

definition DeviceWireSize :: nat where "DeviceWireSize = 312"
definition offDevPath :: nat where "offDevPath = 0"
definition offDevBusID :: nat where "offDevBusID = 256"
definition offDevBusNum :: nat where "offDevBusNum = 288"
definition offDevDevNum :: nat where "offDevDevNum = 292"
definition offDevSpeed :: nat where "offDevSpeed = 296"
definition offDevVendorID :: nat where "offDevVendorID = 300"
definition offDevProductID :: nat where "offDevProductID = 302"
definition offDevBcdDevice :: nat where "offDevBcdDevice = 304"
definition offDevClass :: nat where "offDevClass = 306"
definition offDevSubclass :: nat where "offDevSubclass = 307"
definition offDevProtocol :: nat where "offDevProtocol = 308"
definition offDevConfigValue :: nat where "offDevConfigValue = 309"
definition offDevNumConfigs :: nat where "offDevNumConfigs = 310"
definition offDevNumIntfs :: nat where "offDevNumIntfs = 311"
definition deviceTailStart :: nat where "deviceTailStart = offDevBusNum"

lemmas layout_offsets = DeviceWireSize_def offDevPath_def offDevBusID_def offDevBusNum_def
  offDevDevNum_def offDevSpeed_def offDevVendorID_def offDevProductID_def offDevBcdDevice_def
  offDevClass_def offDevSubclass_def offDevProtocol_def offDevConfigValue_def
  offDevNumConfigs_def offDevNumIntfs_def deviceTailStart_def

definition encodeDeviceTail :: "bytes \<Rightarrow> Device \<Rightarrow> bytes" where
  "encodeDeviceTail buf d =
     (let buf = put_at buf (offDevBusNum - deviceTailStart) (PutUint32 (ucast (dBusNum d)));
          buf = put_at buf (offDevDevNum - deviceTailStart) (PutUint32 (ucast (dDevNum d)));
          buf = put_at buf (offDevSpeed - deviceTailStart) (PutUint32 (dSpeed d));
          buf = put_at buf (offDevVendorID - deviceTailStart) (PutUint16 (dVendorID d));
          buf = put_at buf (offDevProductID - deviceTailStart) (PutUint16 (dProductID d));
          buf = put_at buf (offDevBcdDevice - deviceTailStart) (PutUint16 (dBcdDevice d));
          buf = buf[offDevClass - deviceTailStart := dClass d];
          buf = buf[offDevSubclass - deviceTailStart := dSubclass d];
          buf = buf[offDevProtocol - deviceTailStart := dProtocol d];
          buf = buf[offDevConfigValue - deviceTailStart := dConfigValue d];
          buf = buf[offDevNumConfigs - deviceTailStart := dNumConfigs d]
      in buf[offDevNumIntfs - deviceTailStart := dNumInterfaces d])"

definition EncodeDevice :: "writer \<Rightarrow> Device \<Rightarrow> go_error option \<times> writer" where
  "EncodeDevice w d =
     wbind (WritePaddedString w (dPath d) SysPathSize) (\<lambda>w.
     wbind (WritePaddedString w (dBusID d) BusIDSize) (\<lambda>w.
       io_Write w (encodeDeviceTail (replicate (DeviceWireSize - deviceTailStart) 0) d)))"

definition truncation :: "string \<Rightarrow> PaddedStringTruncation" where
  "truncation field = \<lparr>ptField = field, ptDeviceIndex = 0\<rparr>"

definition decodeDeviceBuf :: "bytes \<Rightarrow> go_error + (Device \<times> DecodeFlags)" where
  "decodeDeviceBuf buf =
     (let (path, pathTruncated) =
            paddedStringFromBytes (take (offDevBusID - offDevPath) (drop offDevPath buf));
          (busidStr, busidTruncated) =
            paddedStringFromBytes (take (offDevBusNum - offDevBusID) (drop offDevBusID buf));
          busnum32 = Uint32 (drop offDevBusNum buf);
          devnum32 = Uint32 (drop offDevDevNum buf);
          speed = Uint32 (drop offDevSpeed buf)
      in if ucast (- 1 :: u16) < busnum32 then Inl [Wire ErrDeviceFieldTooLarge, Dom ErrProtocolError]
         else if ucast (- 1 :: u16) < devnum32
         then Inl [Wire ErrDeviceFieldTooLarge, Dom ErrProtocolError]
         else if \<not> Speed_IsKnown speed then Inl [Dom ErrProtocolError]
         else Inr
           (\<lparr>dPath = path, dBusID = busidStr, dBusNum = ucast busnum32, dDevNum = ucast devnum32,
             dSpeed = speed,
             dVendorID = Uint16 (drop offDevVendorID buf),
             dProductID = Uint16 (drop offDevProductID buf),
             dBcdDevice = Uint16 (drop offDevBcdDevice buf),
             dClass = buf ! offDevClass, dSubclass = buf ! offDevSubclass,
             dProtocol = buf ! offDevProtocol, dConfigValue = buf ! offDevConfigValue,
             dNumConfigs = buf ! offDevNumConfigs, dNumInterfaces = buf ! offDevNumIntfs,
             dManufacturer = [], dProduct = [], dInterfaces = []\<rparr>,
            \<lparr>TruncatedPaddedStrings =
               (if pathTruncated then [truncation ''device.path''] else [])
               @ (if busidTruncated then [truncation ''device.busid''] else []),
             TrailingBytes = False\<rparr>))"

definition DecodeDevice :: "reader \<Rightarrow> (go_error + (Device \<times> DecodeFlags)) \<times> reader" where
  "DecodeDevice r =
     (case io_ReadFull r DeviceWireSize of
        (Inl (n, err), r) \<Rightarrow>
          if errors_Is err (Io ErrUnexpectedEOF) \<or> errors_Is err (Io EOF)
          then (Inl [Io ErrUnexpectedEOF], r) else (Inl err, r)
      | (Inr buf, r) \<Rightarrow> (decodeDeviceBuf buf, r))"

section \<open>The byte layout\<close>

definition device_tail :: "Device \<Rightarrow> bytes" where
  "device_tail d =
     PutUint32 (ucast (dBusNum d)) @ PutUint32 (ucast (dDevNum d)) @ PutUint32 (dSpeed d)
     @ PutUint16 (dVendorID d) @ PutUint16 (dProductID d) @ PutUint16 (dBcdDevice d)
     @ [dClass d, dSubclass d, dProtocol d, dConfigValue d, dNumConfigs d, dNumInterfaces d]"

definition device_frame :: "Device \<Rightarrow> bytes" where
  "device_frame d = padded (dPath d) SysPathSize @ padded (dBusID d) BusIDSize @ device_tail d"

text \<open>What can be written, what decodes back, and what of a device survives.\<close>

definition device_fits :: "Device \<Rightarrow> bool" where
  "device_fits d \<longleftrightarrow> length (dPath d) < SysPathSize \<and> length (dBusID d) < BusIDSize"

definition device_ok :: "Device \<Rightarrow> bool" where
  "device_ok d \<longleftrightarrow> device_fits d \<and> printable (dPath d) \<and> printable (dBusID d)
     \<and> Speed_IsKnown (dSpeed d)"

definition wire_view :: "Device \<Rightarrow> Device" where
  "wire_view d = d\<lparr>dManufacturer := [], dProduct := [], dInterfaces := []\<rparr>"

section \<open>Lemmas\<close>

lemma length_device_tail [simp]: "length (device_tail d) = 24"
  by (simp add: device_tail_def)

lemma encodeDeviceTail_layout: "encodeDeviceTail (replicate 24 0) d = device_tail d"
proof -
  define b1 where "b1 = PutUint32 (ucast (dBusNum d))"
  define b2 where "b2 = PutUint32 (ucast (dDevNum d))"
  define b3 where "b3 = PutUint32 (dSpeed d)"
  define b4 where "b4 = PutUint16 (dVendorID d)"
  define b5 where "b5 = PutUint16 (dProductID d)"
  define b6 where "b6 = PutUint16 (dBcdDevice d)"
  have len: "length b1 = 4" "length b2 = 4" "length b3 = 4" "length b4 = 2" "length b5 = 2"
      "length b6 = 2"
    by (simp_all add: b1_def b2_def b3_def b4_def b5_def b6_def)
  let ?pre = "((((b1 @ b2) @ b3) @ b4) @ b5) @ b6"
  have 1: "put_at (replicate 24 0) 0 b1 = b1 @ replicate 20 0"
    by (simp add: put_at_first len)
  have 2: "put_at (b1 @ replicate 20 0) 4 b2 = (b1 @ b2) @ replicate 16 0"
    by (subst put_at_step) (simp_all add: len)
  have 3: "put_at ((b1 @ b2) @ replicate 16 0) 8 b3 = ((b1 @ b2) @ b3) @ replicate 12 0"
    by (subst put_at_step) (simp_all add: len)
  have 4: "put_at (((b1 @ b2) @ b3) @ replicate 12 0) 12 b4
      = (((b1 @ b2) @ b3) @ b4) @ replicate 10 0"
    by (subst put_at_step) (simp_all add: len)
  have 5: "put_at ((((b1 @ b2) @ b3) @ b4) @ replicate 10 0) 14 b5
      = ((((b1 @ b2) @ b3) @ b4) @ b5) @ replicate 8 0"
    by (subst put_at_step) (simp_all add: len)
  have 6: "put_at (((((b1 @ b2) @ b3) @ b4) @ b5) @ replicate 8 0) 16 b6 = ?pre @ replicate 6 0"
    by (subst put_at_step) (simp_all add: len)
  have 7: "(?pre @ replicate 6 0)[18 := a, 19 := b, 20 := c, 21 := e, 22 := f, 23 := g]
      = ?pre @ [a, b, c, e, f, g]" for a b c e f g
    by (simp add: list_update_append len numeral_eq_Suc)
  show ?thesis
    unfolding encodeDeviceTail_def layout_offsets Let_def
    by (simp add: 1 2 3 4 5 6 7 device_tail_def del: append_assoc
        flip: b1_def b2_def b3_def b4_def b5_def b6_def)
qed

lemma EncodeDevice_frame:
  "device_fits d \<Longrightarrow> wcap w = None
    \<Longrightarrow> EncodeDevice w d = (None, w\<lparr>wout := wout w @ device_frame d\<rparr>)"
  by (simp add: EncodeDevice_def device_fits_def WritePaddedString_ok encodeDeviceTail_layout
      device_frame_def layout_offsets)

lemma length_device_frame [simp]: "device_fits d \<Longrightarrow> length (device_frame d) = 312"
  by (simp add: device_frame_def device_fits_def SysPathSize_def BusIDSize_def)

text \<open>Decoding the layout: the slices at the source's offsets are the fields.\<close>

lemma device_frame_slices:
  assumes "device_fits d"
  shows "take 256 (device_frame d) = padded (dPath d) 256"
    and "take 32 (drop 256 (device_frame d)) = padded (dBusID d) 32"
    and "drop 288 (device_frame d) = device_tail d"
  using assms by (simp_all add: device_frame_def device_fits_def SysPathSize_def BusIDSize_def)

lemma device_frame_tail:
  assumes "device_fits d"
  shows "drop 292 (device_frame d) = drop 4 (device_tail d)"
    and "drop 296 (device_frame d) = drop 8 (device_tail d)"
    and "drop 300 (device_frame d) = drop 12 (device_tail d)"
    and "drop 302 (device_frame d) = drop 14 (device_tail d)"
    and "drop 304 (device_frame d) = drop 16 (device_tail d)"
  by (simp_all add: drop_drop flip: device_frame_slices(3) [OF assms])

lemma device_frame_nth:
  assumes "device_fits d" "k < 24"
  shows "device_frame d ! (288 + k) = device_tail d ! k"
  using assms by (simp add: nth_drop flip: device_frame_slices(3) [OF assms(1)])

lemma device_tail_slices:
  "Uint32 (device_tail d) = ucast (dBusNum d)"
  "Uint32 (drop 4 (device_tail d)) = ucast (dDevNum d)"
  "Uint32 (drop 8 (device_tail d)) = dSpeed d"
  "Uint16 (drop 12 (device_tail d)) = dVendorID d"
  "Uint16 (drop 14 (device_tail d)) = dProductID d"
  "Uint16 (drop 16 (device_tail d)) = dBcdDevice d"
  "device_tail d ! 18 = dClass d" "device_tail d ! 19 = dSubclass d"
  "device_tail d ! 20 = dProtocol d" "device_tail d ! 21 = dConfigValue d"
  "device_tail d ! 22 = dNumConfigs d" "device_tail d ! 23 = dNumInterfaces d"
  by (simp_all add: device_tail_def nth_append)

lemma u16_in_u32: "ucast (x :: u16) \<le> (0xFFFF :: u32)" "ucast (ucast x :: u32) = x"
proof -
  have "unat x < 65536"
    using unsigned_less [of x] by simp
  thus "ucast x \<le> (0xFFFF :: u32)"
    by (simp add: word_le_nat_alt unsigned_ucast_eq take_bit_nat_def)
  show "ucast (ucast x :: u32) = x"
    by (rule bit_word_eqI) (simp add: bit_simps)
qed

lemma wire_view_fields:
  "wire_view d = \<lparr>dPath = dPath d, dBusID = dBusID d, dBusNum = dBusNum d, dDevNum = dDevNum d,
     dSpeed = dSpeed d, dVendorID = dVendorID d, dProductID = dProductID d,
     dBcdDevice = dBcdDevice d, dClass = dClass d, dSubclass = dSubclass d,
     dProtocol = dProtocol d, dConfigValue = dConfigValue d, dNumConfigs = dNumConfigs d,
     dNumInterfaces = dNumInterfaces d, dManufacturer = [], dProduct = [], dInterfaces = []\<rparr>"
  by (cases d) (simp add: wire_view_def)

lemma decodeDeviceBuf_frame:
  assumes "device_ok d"
  shows "decodeDeviceBuf (device_frame d) = Inr (wire_view d, noFlags)"
proof -
  have fits: "device_fits d"
    using assms by (simp add: device_ok_def)
  have strs: "paddedStringFromBytes (padded (dPath d) 256) = (dPath d, False)"
      "paddedStringFromBytes (padded (dBusID d) 32) = (dBusID d, False)"
    using assms by (simp_all add: paddedStringFromBytes_padded device_ok_def device_fits_def
        SysPathSize_def BusIDSize_def)
  have nth: "device_frame d ! 306 = dClass d" "device_frame d ! 307 = dSubclass d"
      "device_frame d ! 308 = dProtocol d" "device_frame d ! 309 = dConfigValue d"
      "device_frame d ! 310 = dNumConfigs d" "device_frame d ! 311 = dNumInterfaces d"
    using device_frame_nth [OF fits, of 18] device_frame_nth [OF fits, of 19]
      device_frame_nth [OF fits, of 20] device_frame_nth [OF fits, of 21]
      device_frame_nth [OF fits, of 22] device_frame_nth [OF fits, of 23]
    by (simp_all add: device_tail_slices)
  have known: "Speed_IsKnown (dSpeed d)"
    using assms by (simp add: device_ok_def)
  have max: "ucast (- 1 :: u16) = (0xFFFF :: u32)"
    by (simp add: unsigned_minus_1_eq_mask mask_eq_exp_minus_1)
  show ?thesis
    using u16_in_u32(1) [of "dBusNum d"] u16_in_u32(1) [of "dDevNum d"]
    by (simp add: decodeDeviceBuf_def layout_offsets Let_def max device_frame_slices [OF fits]
        device_frame_tail [OF fits] device_tail_slices strs nth known u16_in_u32(2) not_less
        wire_view_fields noFlags_def)
qed

lemma DecodeDevice_frame:
  assumes "device_ok d" "rcontent r = device_frame d @ rest"
  shows "\<exists>r'. DecodeDevice r = (Inr (wire_view d, noFlags), r') \<and> rcontent r' = rest
    \<and> rend r' = rend r"
proof -
  have "length (device_frame d) = 312"
    using assms(1) by (simp add: device_ok_def)
  then obtain r' where "io_ReadFull r 312 = (Inr (device_frame d), r')" "rcontent r' = rest"
      "rend r' = rend r"
    using io_ReadFull_ok [OF assms(2)] by metis
  thus ?thesis
    by (simp add: DecodeDevice_def DeviceWireSize_def decodeDeviceBuf_frame [OF assms(1)])
qed

lemma EncodeDevice_refuses:
  assumes "\<not> device_fits d" "wcap w = None"
  shows "fst (EncodeDevice w d)
    = Some (if SysPathSize \<le> length (dPath d) then [Dom ErrProtocolError] else [Dom ErrBusIDInvalid])"
proof (cases "SysPathSize \<le> length (dPath d)")
  case True
  thus ?thesis
    by (simp add: EncodeDevice_def WritePaddedString_overflow SysPathSize_def BusIDSize_def)
next
  case False
  hence "BusIDSize \<le> length (dBusID d)"
    using assms(1) by (simp add: device_fits_def)
  thus ?thesis
    using False assms(2) by (simp add: EncodeDevice_def WritePaddedString_ok
        WritePaddedString_overflow)
qed

interpretation device: checked_codec EncodeDevice DecodeDevice device_frame device_ok
  "\<lambda>d. (wire_view d, noFlags)" device_fits
proof unfold_locales
  show "device_ok d \<Longrightarrow> wcap w = None
      \<Longrightarrow> EncodeDevice w d = (None, w\<lparr>wout := wout w @ device_frame d\<rparr>)" for d w
    by (simp add: EncodeDevice_frame device_ok_def)
  show "\<not> device_fits d \<Longrightarrow> wcap w = None \<Longrightarrow> fst (EncodeDevice w d) \<noteq> None" for d w
    by (simp add: EncodeDevice_refuses)
qed (auto simp: device_ok_def intro: DecodeDevice_frame)

text \<open>Whatever 312 bytes a peer sends, an accepted descriptor is well formed: printable strings
  within their fields and a known speed.\<close>

lemma decodeDeviceBuf_wf:
  assumes "decodeDeviceBuf buf = Inr (d, flags)"
  shows "printable (dPath d) \<and> printable (dBusID d) \<and> length (dPath d) \<le> SysPathSize
    \<and> length (dBusID d) \<le> BusIDSize \<and> Speed_IsKnown (dSpeed d) \<and> dInterfaces d = []"
proof -
  let ?p = "paddedStringFromBytes (take 256 buf)"
  let ?b = "paddedStringFromBytes (take 32 (drop 256 buf))"
  have "dPath d = fst ?p" "dBusID d = fst ?b" "Speed_IsKnown (dSpeed d)" "dInterfaces d = []"
    using assms by (auto simp: decodeDeviceBuf_def layout_offsets Let_def
        split: prod.splits if_splits)
  moreover have "length (fst ?p) \<le> 256" "length (fst ?b) \<le> 32"
    using paddedStringFromBytes_length [of "take 256 buf"]
      paddedStringFromBytes_length [of "take 32 (drop 256 buf)"] by auto
  ultimately show ?thesis
    by (simp add: paddedStringFromBytes_printable SysPathSize_def BusIDSize_def)
qed

end
