(* ===== verification/Wire_Import.thy ===== *)
theory Wire_Import
  imports Wire_Header Wire_Layout BusID
begin

text \<open>
  \<open>internal/adapter/wire/import_op.go\<close>: OP_REQ_IMPORT and OP_REP_IMPORT.  The request decoder is
  the gate every peer-supplied bus id passes; the reply decoder maps the peer's status to a
  sentinel.
\<close>

section \<open>Definitions\<close>

definition EncodeOpReqImport :: "writer \<Rightarrow> string \<Rightarrow> go_error option \<times> writer" where
  "EncodeOpReqImport w busID =
     wbind (io_Write w (EncodeHeader OpReqImport 0)) (\<lambda>w. WritePaddedString w busID BusIDSize)"

definition DecodeOpReqImportBody :: "reader \<Rightarrow> (go_error + string) \<times> reader" where
  "DecodeOpReqImportBody r =
     rbind (ReadPaddedString r BusIDSize) (\<lambda>(busid, truncated) r.
       if truncated then (Inl [Dom ErrBusIDInvalid], r)
       else (ValidateWireBusID busid, r))"

definition DecodeOpReqImport :: "reader \<Rightarrow> (go_error + string) \<times> reader" where
  "DecodeOpReqImport r =
     rbind (DecodeHeader r) (\<lambda>(_, op, _) r.
       if op \<noteq> OpReqImport then (Inl [Dom ErrProtocolMismatch], r)
       else DecodeOpReqImportBody r)"

definition EncodeOpRepImport :: "writer \<Rightarrow> Device \<Rightarrow> go_error option \<times> writer" where
  "EncodeOpRepImport w dev =
     wbind (io_Write w (EncodeHeader OpRepImport 0)) (\<lambda>w. EncodeDevice w dev)"

definition EncodeOpRepImportError :: "writer \<Rightarrow> u32 \<Rightarrow> go_error option \<times> writer" where
  "EncodeOpRepImportError w status =
     (if status \<in> {ImportStatusNA, ImportStatusDevBusy, ImportStatusDevErr, ImportStatusNoDev}
      then io_Write w (EncodeHeader OpRepImport status)
      else (Some [Dom ErrProtocolError], w))"

definition mapImportStatus :: "u32 \<Rightarrow> go_error" where
  "mapImportStatus status =
     (if status = ImportStatusNA \<or> status = ImportStatusNoDev then [Dom ErrDeviceNotFound]
      else if status = ImportStatusDevBusy then [Dom ErrDeviceAlreadyBound]
      else if status = ImportStatusDevErr then [Dom ErrDeviceUnavailable]
      else [Dom ErrProtocolError])"

definition DecodeOpRepImport :: "reader \<Rightarrow> (go_error + (Device \<times> DecodeFlags)) \<times> reader" where
  "DecodeOpRepImport r =
     rbind (decodeHeaderAllowStatus r) (\<lambda>(_, op, status) r.
       if op \<noteq> OpRepImport then (Inl [Dom ErrProtocolMismatch], r)
       else if status \<noteq> 0 then (Inl (mapImportStatus status), r)
       else DecodeDevice r)"

section \<open>Lemmas\<close>

lemma known_ops [simp]:
  "isKnownOpCode OpReqImport" "isKnownOpCode OpRepImport" "isKnownOpCode OpReqDevlist"
  "isKnownOpCode OpRepDevlist"
  by (simp_all add: isKnownOpCode_def)

lemma distinct_ops [simp]:
  "OpReqImport \<noteq> OpRepImport" "OpReqImport \<noteq> OpReqDevlist" "OpReqImport \<noteq> OpRepDevlist"
  "OpRepImport \<noteq> OpReqDevlist" "OpRepImport \<noteq> OpRepDevlist" "OpReqDevlist \<noteq> OpRepDevlist"
  "OpRepImport \<noteq> OpReqImport" "OpReqDevlist \<noteq> OpReqImport" "OpRepDevlist \<noteq> OpReqImport"
  "OpReqDevlist \<noteq> OpRepImport" "OpRepDevlist \<noteq> OpRepImport" "OpRepDevlist \<noteq> OpReqDevlist"
  by (simp_all add: protocol_consts)

definition req_import_frame :: "string \<Rightarrow> bytes" where
  "req_import_frame b = EncodeHeader OpReqImport 0 @ padded b BusIDSize"

definition rep_import_frame :: "Device \<Rightarrow> bytes" where
  "rep_import_frame d = EncodeHeader OpRepImport 0 @ device_frame d"

definition wire_busid :: "string \<Rightarrow> bool" where
  "wire_busid b \<longleftrightarrow> ValidateWireBusID b = Inr b"

lemma wire_rune_printable: "isWireBusIDRune c \<Longrightarrow> printable_byte (byte_of_char c)"
  by (auto simp: isWireBusIDRune_def printable_byte_def less_eq_char_def word_le_nat_alt)

lemma wire_busid_printable: "wire_busid b \<Longrightarrow> printable b \<and> length b < BusIDSize"
  by (auto simp: wire_busid_def ValidateWireBusID_iff printable_def intro: wire_rune_printable)

lemma DecodeOpReqImportBody_padded:
  assumes "wire_busid b" "rcontent r = padded b BusIDSize @ rest"
  shows "\<exists>r'. DecodeOpReqImportBody r = (Inr b, r') \<and> rcontent r' = rest \<and> rend r' = rend r"
proof -
  have len: "length (padded b BusIDSize) = BusIDSize"
    using wire_busid_printable [OF assms(1)] by simp
  obtain r' where "ReadPaddedString r BusIDSize = (Inr (paddedStringFromBytes (padded b BusIDSize)), r')"
      "rcontent r' = rest" "rend r' = rend r"
    using ReadPaddedString_content [OF assms(2) len] .
  thus ?thesis
    using assms(1) wire_busid_printable [OF assms(1)]
    by (simp add: DecodeOpReqImportBody_def paddedStringFromBytes_padded wire_busid_def)
qed

interpretation req_import: checked_codec EncodeOpReqImport DecodeOpReqImport req_import_frame
  wire_busid "\<lambda>b. b" "\<lambda>b. length b < BusIDSize"
proof unfold_locales
  show "wire_busid b \<Longrightarrow> wcap w = None
      \<Longrightarrow> EncodeOpReqImport w b = (None, w\<lparr>wout := wout w @ req_import_frame b\<rparr>)" for b w
    using wire_busid_printable
    by (simp add: EncodeOpReqImport_def WritePaddedString_ok req_import_frame_def)
  show "\<exists>r'. DecodeOpReqImport r = (Inr b, r') \<and> rcontent r' = rest \<and> rend r' = rend r"
    if b: "wire_busid b" and r: "rcontent r = req_import_frame b @ rest" for b r rest
  proof -
    obtain r1 where r1: "DecodeHeader r = (Inr (ProtocolVersion, OpReqImport, 0), r1)"
        "rcontent r1 = padded b BusIDSize @ rest" "rend r1 = rend r"
      using DecodeHeader_Encode [of r OpReqImport "padded b BusIDSize @ rest"] r
      by (auto simp: req_import_frame_def)
    thus ?thesis
      using DecodeOpReqImportBody_padded [OF b r1(2)] by (simp add: DecodeOpReqImport_def)
  qed
  show "\<not> length b < BusIDSize \<Longrightarrow> wcap w = None \<Longrightarrow> fst (EncodeOpReqImport w b) \<noteq> None" for b w
    by (simp add: EncodeOpReqImport_def WritePaddedString_overflow)
qed (simp add: wire_busid_printable)

interpretation rep_import: checked_codec EncodeOpRepImport DecodeOpRepImport rep_import_frame
  device_ok "\<lambda>d. (wire_view d, noFlags)" device_fits
proof unfold_locales
  show "device_ok d \<Longrightarrow> wcap w = None
      \<Longrightarrow> EncodeOpRepImport w d = (None, w\<lparr>wout := wout w @ rep_import_frame d\<rparr>)" for d w
    by (simp add: EncodeOpRepImport_def device.enc_frame rep_import_frame_def)
  show "\<exists>r'. DecodeOpRepImport r = (Inr (wire_view d, noFlags), r') \<and> rcontent r' = rest
      \<and> rend r' = rend r"
    if d: "device_ok d" and r: "rcontent r = rep_import_frame d @ rest" for d r rest
  proof -
    obtain r1 where r1: "decodeHeaderAllowStatus r = (Inr (ProtocolVersion, OpRepImport, 0), r1)"
        "rcontent r1 = device_frame d @ rest" "rend r1 = rend r"
      using decodeHeaderAllowStatus_Encode [of r OpRepImport 0 "device_frame d @ rest"] r
      by (auto simp: rep_import_frame_def)
    thus ?thesis
      using device.dec_frame [OF d r1(2)] by (simp add: DecodeOpRepImport_def)
  qed
  show "\<not> device_fits d \<Longrightarrow> wcap w = None \<Longrightarrow> fst (EncodeOpRepImport w d) \<noteq> None" for d w
    by (simp add: EncodeOpRepImport_def EncodeDevice_refuses)
qed (simp add: device_ok_def)

text \<open>The rejection frames: the importer sees the sentinel of the status the exporter encoded.\<close>

lemma DecodeOpRepImport_status:
  assumes "rcontent r = EncodeHeader OpRepImport status @ rest" "status \<noteq> 0"
  shows "fst (DecodeOpRepImport r) = Inl (mapImportStatus status)"
proof -
  obtain r' where "decodeHeaderAllowStatus r = (Inr (ProtocolVersion, OpRepImport, status), r')"
    using decodeHeaderAllowStatus_Encode [OF assms(1)] by auto
  thus ?thesis
    using assms(2) by (simp add: DecodeOpRepImport_def)
qed

lemma DecodeOpReqImportBody_Inr:
  assumes "DecodeOpReqImportBody r = (Inr b, r')"
  shows "wire_busid b"
  using assms by (auto simp: DecodeOpReqImportBody_def rbind_eq_Inr wire_busid_def
      ValidateWireBusID_iff split: if_splits)

section \<open>Properties\<close>

text \<open>The import request survives the wire.  For every bus id the wire check accepts, the
  encoder succeeds and the decoder reads back that bus id, leaving exactly the bytes that
  followed the frame, however the network segmented the stream.\<close>

theorem import_request_roundtrip:
  assumes "ValidateWireBusID b = Inr b" "rcontent r = wout (snd (EncodeOpReqImport sink b)) @ rest"
  shows "fst (EncodeOpReqImport sink b) = None
    \<and> (\<exists>r'. DecodeOpReqImport r = (Inr b, r') \<and> rcontent r' = rest)"
  using req_import.roundtrip [of b sink r rest] assms by (simp add: wire_busid_def sink_def)

theorem import_request_roundtrip_witness:
  "\<exists>r'. DecodeOpReqImport (reader_of (wout (snd (EncodeOpReqImport sink ''1-1.2'')) @ [7, 8]))
     = (Inr ''1-1.2'', r') \<and> rcontent r' = [7, 8]"
proof -
  have "ValidateWireBusID ''1-1.2'' = Inr ''1-1.2''"
    by (simp add: ValidateWireBusID_def isWireBusIDRune_def BusIDSize_def less_eq_char_def)
  from import_request_roundtrip [OF this rcontent_reader_of] show ?thesis
    by blast
qed



text \<open>The reply survives the wire in both forms.  A device that fits its fields decodes to
  itself minus what the protocol does not carry; a rejection status arrives as the sentinel the
  importer reports for it, and a status outside the four defined ones is never sent.\<close>

theorem import_reply_roundtrip:
  "(device_ok d \<longrightarrow> rcontent r = wout (snd (EncodeOpRepImport sink d)) @ rest \<longrightarrow>
      (\<exists>r'. DecodeOpRepImport r = (Inr (wire_view d, noFlags), r') \<and> rcontent r' = rest))
   \<and> (case EncodeOpRepImportError sink status of
        (None, w) \<Rightarrow> status \<in> {1, 2, 3, 4} \<and> (\<forall>q. rcontent q = wout w @ rest \<longrightarrow>
          fst (DecodeOpRepImport q) = Inl (if status = 2 then [Dom ErrDeviceAlreadyBound]
            else if status = 3 then [Dom ErrDeviceUnavailable] else [Dom ErrDeviceNotFound]))
      | (Some e, w) \<Rightarrow> status \<notin> {1, 2, 3, 4} \<and> e = [Dom ErrProtocolError] \<and> wout w = [])"
proof (intro conjI impI)
  assume "device_ok d" "rcontent r = wout (snd (EncodeOpRepImport sink d)) @ rest"
  thus "\<exists>r'. DecodeOpRepImport r = (Inr (wire_view d, noFlags), r') \<and> rcontent r' = rest"
    using rep_import.roundtrip [of d sink r rest] by (simp add: sink_def)
next
  show "case EncodeOpRepImportError sink status of
        (None, w) \<Rightarrow> status \<in> {1, 2, 3, 4} \<and> (\<forall>q. rcontent q = wout w @ rest \<longrightarrow>
          fst (DecodeOpRepImport q) = Inl (if status = 2 then [Dom ErrDeviceAlreadyBound]
            else if status = 3 then [Dom ErrDeviceUnavailable] else [Dom ErrDeviceNotFound]))
      | (Some e, w) \<Rightarrow> status \<notin> {1, 2, 3, 4} \<and> e = [Dom ErrProtocolError] \<and> wout w = []"
    using DecodeOpRepImport_status [of _ status rest]
    by (auto simp: EncodeOpRepImportError_def sink_def protocol_consts(6-9) mapImportStatus_def)
qed

definition sample_device :: Device where
  "sample_device = \<lparr>dPath = ''/sys/devices/usb1/1-1'', dBusID = ''1-1'', dBusNum = 1, dDevNum = 2,
     dSpeed = SpeedHigh, dVendorID = 0x1d6b, dProductID = 2, dBcdDevice = 0x0100, dClass = 0,
     dSubclass = 0, dProtocol = 0, dConfigValue = 1, dNumConfigs = 1, dNumInterfaces = 2,
     dManufacturer = ''m'', dProduct = ''p'',
     dInterfaces = [\<lparr>iClass = 3, iSubclass = 1, iProtocol = 1, iAlt = 1\<rparr>]\<rparr>"

lemma sample_device_ok: "device_ok sample_device"
  by (simp add: device_ok_def device_fits_def sample_device_def printable_def printable_byte_def
      byte_of_char_def Speed_IsKnown_def SysPathSize_def BusIDSize_def)

theorem import_reply_roundtrip_witness:
  "\<exists>r'. DecodeOpRepImport (reader_of (wout (snd (EncodeOpRepImport sink sample_device)) @ [1]))
     = (Inr (wire_view sample_device, noFlags), r') \<and> rcontent r' = [1]"
  using import_reply_roundtrip [of sample_device
      "reader_of (wout (snd (EncodeOpRepImport sink sample_device)) @ [1])" "[1]" 2]
    sample_device_ok by simp

end
