(* ===== verification/Wire_Devlist.thy ===== *)
theory Wire_Devlist
  imports Wire_Import
begin

text \<open>
  \<open>internal/adapter/wire/devlist.go\<close>: OP_REQ_DEVLIST and OP_REP_DEVLIST.  The reply is a header,
  a 32-bit device count and, per device, the 312-byte descriptor followed by as many 4-byte
  interface descriptors as the device declares.
\<close>

section \<open>Definitions\<close>

definition interfaceWireSize :: nat where "interfaceWireSize = 4"
definition devlistCountSize :: nat where "devlistCountSize = 4"
definition MaxDevlistDevices :: u32 where "MaxDevlistDevices = 1024"
definition offIntfClass :: nat where "offIntfClass = 0"
definition offIntfSubclass :: nat where "offIntfSubclass = 1"
definition offIntfProtocol :: nat where "offIntfProtocol = 2"

lemmas devlist_consts = interfaceWireSize_def devlistCountSize_def offIntfClass_def
  offIntfSubclass_def offIntfProtocol_def

definition deviceCountU32 :: "int \<Rightarrow> go_error + u32" where
  "deviceCountU32 n =
     (if n < 0 \<or> 2 ^ 32 - 1 < n then Inl [Wire ErrDevlistCountOverflow] else Inr (word_of_int n))"

definition EncodeOpReqDevlist :: bytes where
  "EncodeOpReqDevlist = EncodeHeader OpReqDevlist 0"

text \<open>One turn of the loop of \<open>encodeInterfaces\<close>: the cleared buffer, filled when the index is in
  range of the slice.\<close>

definition interface_buf :: "Interface list \<Rightarrow> nat \<Rightarrow> bytes" where
  "interface_buf intfs i =
     (let buf = replicate interfaceWireSize 0
      in if i < length intfs
         then buf[offIntfClass := iClass (intfs ! i), offIntfSubclass := iSubclass (intfs ! i),
                  offIntfProtocol := iProtocol (intfs ! i)]
         else buf)"

fun encodeInterfaces_loop :: "writer \<Rightarrow> Interface list \<Rightarrow> nat list \<Rightarrow> go_error option \<times> writer"
where
  "encodeInterfaces_loop w intfs [] = (None, w)"
| "encodeInterfaces_loop w intfs (i # is) =
     wbind (io_Write w (interface_buf intfs i)) (\<lambda>w. encodeInterfaces_loop w intfs is)"

definition encodeInterfaces :: "writer \<Rightarrow> Device \<Rightarrow> go_error option \<times> writer" where
  "encodeInterfaces w d = encodeInterfaces_loop w (dInterfaces d) [0 ..< unat (dNumInterfaces d)]"

fun encodeDevices_loop :: "writer \<Rightarrow> Device list \<Rightarrow> go_error option \<times> writer" where
  "encodeDevices_loop w [] = (None, w)"
| "encodeDevices_loop w (d # ds) =
     wbind (EncodeDevice w d) (\<lambda>w.
     wbind (encodeInterfaces w d) (\<lambda>w. encodeDevices_loop w ds))"

definition EncodeOpRepDevlist :: "writer \<Rightarrow> Device list \<Rightarrow> go_error option \<times> writer" where
  "EncodeOpRepDevlist w devices =
     wbind (io_Write w (EncodeHeader OpRepDevlist 0)) (\<lambda>w.
       case deviceCountU32 (int (length devices)) of
         Inl e \<Rightarrow> (Some e, w)
       | Inr count \<Rightarrow>
           wbind (io_Write w (put_at (replicate devlistCountSize 0) 0 (PutUint32 count)))
             (\<lambda>w. encodeDevices_loop w devices))"

definition interface_at :: "bytes \<Rightarrow> nat \<Rightarrow> Interface" where
  "interface_at buf i =
     (let base = i * interfaceWireSize
      in \<lparr>iClass = buf ! (base + offIntfClass), iSubclass = buf ! (base + offIntfSubclass),
          iProtocol = buf ! (base + offIntfProtocol), iAlt = 0\<rparr>)"

definition decodeInterfaces :: "reader \<Rightarrow> u8 \<Rightarrow> (go_error + Interface list) \<times> reader" where
  "decodeInterfaces r count =
     (if count = 0 then (Inr [], r)
      else case io_ReadFull r (unat count * interfaceWireSize) of
        (Inl (n, err), r) \<Rightarrow>
          if errors_Is err (Io EOF) \<or> errors_Is err (Io ErrUnexpectedEOF)
          then (Inl [Wire ErrDevlistTruncated, Io ErrUnexpectedEOF], r) else (Inl err, r)
      | (Inr buf, r) \<Rightarrow> (Inr (map (interface_at buf) [0 ..< unat count]), r))"

definition decodeDevlistDeviceAt ::
  "reader \<Rightarrow> nat \<Rightarrow> (go_error + (Device \<times> DecodeFlags)) \<times> reader" where
  "decodeDevlistDeviceAt r idx =
     (case DecodeDevice r of
        (Inl err, r) \<Rightarrow>
          if errors_Is err (Io ErrUnexpectedEOF)
          then (Inl [Wire ErrDevlistTruncated, Io ErrUnexpectedEOF], r) else (Inl err, r)
      | (Inr (dev, devFlags), r) \<Rightarrow>
          rbind (decodeInterfaces r (dNumInterfaces dev)) (\<lambda>intfs r.
            (Inr (dev\<lparr>dInterfaces := intfs\<rparr>, devFlags), r)))"

definition mergeDeviceTruncationFlags :: "DecodeFlags \<Rightarrow> DecodeFlags \<Rightarrow> nat \<Rightarrow> DecodeFlags" where
  "mergeDeviceTruncationFlags dst src idx =
     dst\<lparr>TruncatedPaddedStrings := TruncatedPaddedStrings dst
           @ map (\<lambda>t. t\<lparr>ptDeviceIndex := idx\<rparr>) (TruncatedPaddedStrings src)\<rparr>"

text \<open>The loop \<open>for i := range count\<close>: index, devices still to read, and the accumulators.\<close>

fun decodeDevlist_loop ::
  "nat \<Rightarrow> nat \<Rightarrow> Device list \<Rightarrow> DecodeFlags \<Rightarrow> reader
     \<Rightarrow> (go_error + (Device list \<times> DecodeFlags)) \<times> reader" where
  "decodeDevlist_loop i 0 devices flags r = (Inr (devices, flags), r)"
| "decodeDevlist_loop i (Suc n) devices flags r =
     rbind (decodeDevlistDeviceAt r i) (\<lambda>(dev, devFlags) r.
       decodeDevlist_loop (Suc i) n (devices @ [dev]) (mergeDeviceTruncationFlags flags devFlags i) r)"

definition decodeDevlistBody ::
  "reader \<Rightarrow> u32 \<Rightarrow> (go_error + (Device list \<times> DecodeFlags)) \<times> reader" where
  "decodeDevlistBody r count =
     (if count = 0 then (Inr ([], noFlags), r)
      else decodeDevlist_loop 0 (unat count) [] noFlags r)"

definition wrapUnexpectedEOF :: "go_error \<Rightarrow> go_error" where
  "wrapUnexpectedEOF err =
     (if errors_Is err (Io EOF) \<or> errors_Is err (Io ErrUnexpectedEOF)
      then [Io ErrUnexpectedEOF] else err)"

definition hasTrailingBytes :: "reader \<Rightarrow> bool" where
  "hasTrailingBytes br \<longleftrightarrow> 0 < length (rbuf br)"

definition DecodeOpRepDevlist ::
  "reader \<Rightarrow> (go_error + (Device list \<times> DecodeFlags)) \<times> reader" where
  "DecodeOpRepDevlist br =
     rbind (DecodeHeader br) (\<lambda>(_, op, _) br.
       if op \<noteq> OpRepDevlist then (Inl [Dom ErrProtocolMismatch], br)
       else case io_ReadFull br devlistCountSize of
         (Inl (n, err), br) \<Rightarrow> (Inl (wrapUnexpectedEOF err), br)
       | (Inr countBuf, br) \<Rightarrow>
           let count = Uint32 countBuf
           in if MaxDevlistDevices < count then (Inl [Dom ErrProtocolMismatch], br)
              else rbind (decodeDevlistBody br count) (\<lambda>(devices, flags) br.
                (Inr (devices, flags\<lparr>TrailingBytes := hasTrailingBytes br\<rparr>), br)))"

section \<open>The byte layout\<close>

definition interface_frame :: "Interface \<Rightarrow> bytes" where
  "interface_frame i = [iClass i, iSubclass i, iProtocol i, 0]"

definition zero_interface :: Interface where
  "zero_interface = \<lparr>iClass = 0, iSubclass = 0, iProtocol = 0, iAlt = 0\<rparr>"

text \<open>The declared count wins: surplus interfaces are dropped, missing ones are zero; and the
  alternate setting is not on the wire.\<close>

definition wire_interfaces :: "Device \<Rightarrow> Interface list" where
  "wire_interfaces d =
     map (\<lambda>i. i\<lparr>iAlt := 0\<rparr>)
       (take (unat (dNumInterfaces d)) (dInterfaces d @ replicate (unat (dNumInterfaces d)) zero_interface))"

definition devlist_view :: "Device \<Rightarrow> Device" where
  "devlist_view d = (wire_view d)\<lparr>dInterfaces := wire_interfaces d\<rparr>"

definition devlist_entry_frame :: "Device \<Rightarrow> bytes" where
  "devlist_entry_frame d = device_frame d @ concat (map interface_frame (wire_interfaces d))"

definition devlist_frame :: "Device list \<Rightarrow> bytes" where
  "devlist_frame ds = EncodeHeader OpRepDevlist 0 @ PutUint32 (word_of_nat (length ds))
     @ concat (map devlist_entry_frame ds)"

section \<open>Interface lists\<close>

lemma length_wire_interfaces [simp]: "length (wire_interfaces d) = unat (dNumInterfaces d)"
  by (simp add: wire_interfaces_def)

lemma length_interface_frames [simp]: "length (concat (map interface_frame is)) = length is * 4"
  by (induction "is") (simp_all add: interface_frame_def)

lemma interface_buf_frame:
  assumes "i < n"
  shows "interface_buf intfs i
    = interface_frame (map (\<lambda>i. i\<lparr>iAlt := 0\<rparr>) (take n (intfs @ replicate n zero_interface)) ! i)"
proof (cases "i < length intfs")
  case True
  thus ?thesis
    using assms by (simp add: interface_buf_def devlist_consts interface_frame_def nth_append
        numeral_eq_Suc)
next
  case False
  hence "i - length intfs < n"
    using assms by simp
  thus ?thesis
    using assms False by (simp add: interface_buf_def devlist_consts interface_frame_def
        nth_append zero_interface_def numeral_eq_Suc)
qed

lemma encodeInterfaces_loop_ok:
  "wcap w = None \<Longrightarrow> encodeInterfaces_loop w intfs is
     = (None, w\<lparr>wout := wout w @ concat (map (interface_buf intfs) is)\<rparr>)"
  by (induction w intfs "is" rule: encodeInterfaces_loop.induct) auto

lemma encodeInterfaces_ok:
  assumes "wcap w = None"
  shows "encodeInterfaces w d
    = (None, w\<lparr>wout := wout w @ concat (map interface_frame (wire_interfaces d))\<rparr>)"
proof -
  have "map (interface_buf (dInterfaces d)) [0 ..< unat (dNumInterfaces d)]
      = map interface_frame (wire_interfaces d)"
  proof (rule nth_equalityI)
    fix i assume "i < length (map (interface_buf (dInterfaces d)) [0 ..< unat (dNumInterfaces d)])"
    hence i: "i < unat (dNumInterfaces d)"
      by simp
    show "map (interface_buf (dInterfaces d)) [0 ..< unat (dNumInterfaces d)] ! i
        = map interface_frame (wire_interfaces d) ! i"
      using interface_buf_frame [OF i, of "dInterfaces d", folded wire_interfaces_def] i by simp
  qed simp
  thus ?thesis
    using assms by (simp add: encodeInterfaces_def encodeInterfaces_loop_ok)
qed

lemma interface_at_frames:
  "i < length is \<Longrightarrow> interface_at (concat (map interface_frame is)) i = (is ! i)\<lparr>iAlt := 0\<rparr>"
proof (induction "is" arbitrary: i)
  case (Cons x xs)
  show ?case
  proof (cases i)
    case 0
    thus ?thesis
      by (cases x) (simp add: interface_at_def devlist_consts interface_frame_def)
  next
    case (Suc k)
    have "interface_at (interface_frame x @ ys) (Suc k) = interface_at ys k" for ys
      by (simp add: interface_at_def devlist_consts interface_frame_def nth_append Let_def)
    thus ?thesis
      using Cons Suc by simp
  qed
qed simp

lemma wire_interfaces_alt: "i < unat (dNumInterfaces d)
  \<Longrightarrow> (wire_interfaces d ! i)\<lparr>iAlt := 0\<rparr> = wire_interfaces d ! i"
  unfolding wire_interfaces_def by (subst (1 2) nth_map) simp_all

lemma decodeInterfaces_frames:
  assumes "rcontent r = concat (map interface_frame (wire_interfaces d)) @ rest"
  shows "\<exists>r'. decodeInterfaces r (dNumInterfaces d) = (Inr (wire_interfaces d), r')
    \<and> rcontent r' = rest \<and> rend r' = rend r"
proof (cases "dNumInterfaces d = 0")
  case True
  moreover hence "wire_interfaces d = []"
    by (simp add: wire_interfaces_def)
  ultimately show ?thesis
    using assms by (simp add: decodeInterfaces_def)
next
  case False
  let ?buf = "concat (map interface_frame (wire_interfaces d))"
  have "length ?buf = unat (dNumInterfaces d) * interfaceWireSize"
    by (simp add: devlist_consts)
  then obtain r' where r': "io_ReadFull r (unat (dNumInterfaces d) * interfaceWireSize) = (Inr ?buf, r')"
      "rcontent r' = rest" "rend r' = rend r"
    using io_ReadFull_ok [OF assms] by metis
  have "map (interface_at ?buf) [0 ..< unat (dNumInterfaces d)] = wire_interfaces d"
    by (rule nth_equalityI) (simp_all add: interface_at_frames wire_interfaces_alt)
  thus ?thesis
    using r' False by (simp add: decodeInterfaces_def)
qed

section \<open>Device entries and the whole reply\<close>

lemma dNumInterfaces_wire_view [simp]: "dNumInterfaces (wire_view d) = dNumInterfaces d"
  by (simp add: wire_view_def)

lemma decodeDevlistDeviceAt_frame:
  assumes "device_ok d" "rcontent r = devlist_entry_frame d @ rest"
  shows "\<exists>r'. decodeDevlistDeviceAt r i = (Inr (devlist_view d, noFlags), r')
    \<and> rcontent r' = rest \<and> rend r' = rend r"
proof -
  obtain r1 where r1: "DecodeDevice r = (Inr (wire_view d, noFlags), r1)"
      "rcontent r1 = concat (map interface_frame (wire_interfaces d)) @ rest" "rend r1 = rend r"
    using device.dec_frame [OF assms(1)] assms(2) by (fastforce simp: devlist_entry_frame_def)
  thus ?thesis
    using decodeInterfaces_frames [OF r1(2)]
    by (auto simp: decodeDevlistDeviceAt_def devlist_view_def)
qed

lemma merge_noFlags [simp]: "mergeDeviceTruncationFlags f noFlags i = f"
  by (simp add: mergeDeviceTruncationFlags_def noFlags_def)

lemma decodeDevlist_loop_frames:
  assumes "\<forall>d\<in>set ds. device_ok d" "rcontent r = concat (map devlist_entry_frame ds) @ rest"
  shows "\<exists>r'. decodeDevlist_loop i (length ds) acc noFlags r
    = (Inr (acc @ map devlist_view ds, noFlags), r') \<and> rcontent r' = rest \<and> rend r' = rend r"
  using assms
proof (induction ds arbitrary: i acc r)
  case (Cons d ds)
  obtain r1 where r1: "decodeDevlistDeviceAt r i = (Inr (devlist_view d, noFlags), r1)"
      "rcontent r1 = concat (map devlist_entry_frame ds) @ rest" "rend r1 = rend r"
    using decodeDevlistDeviceAt_frame [of d r "concat (map devlist_entry_frame ds) @ rest" i]
      Cons.prems by auto
  thus ?case
    using Cons.IH [of r1 "Suc i" "acc @ [devlist_view d]"] Cons.prems(1) by auto
qed simp

lemma encodeDevices_loop_ok:
  assumes "\<forall>d\<in>set ds. device_fits d" "wcap w = None"
  shows "encodeDevices_loop w ds
    = (None, w\<lparr>wout := wout w @ concat (map devlist_entry_frame ds)\<rparr>)"
  using assms by (induction ds arbitrary: w)
    (auto simp: EncodeDevice_frame encodeInterfaces_ok devlist_entry_frame_def)

definition devlist_ok :: "Device list \<Rightarrow> bool" where
  "devlist_ok ds \<longleftrightarrow> length ds \<le> 1024 \<and> (\<forall>d\<in>set ds. device_ok d)"

lemma EncodeOpRepDevlist_ok:
  assumes "\<forall>d\<in>set ds. device_fits d" "length ds < 2 ^ 32" "wcap w = None"
  shows "EncodeOpRepDevlist w ds = (None, w\<lparr>wout := wout w @ devlist_frame ds\<rparr>)"
proof -
  have "deviceCountU32 (int (length ds)) = Inr (word_of_nat (length ds))"
    using assms(2) by (simp add: deviceCountU32_def)
  thus ?thesis
    using assms by (simp add: EncodeOpRepDevlist_def encodeDevices_loop_ok devlist_frame_def
        devlist_consts put_at_first)
qed

lemma unat_count: "n \<le> 1024 \<Longrightarrow> unat (word_of_nat n :: u32) = n"
  by (simp add: unat_of_nat)

lemma DecodeOpRepDevlist_frame:
  assumes "devlist_ok ds" "rcontent r = devlist_frame ds @ rest"
  shows "\<exists>r'. DecodeOpRepDevlist r
    = (Inr (map devlist_view ds, noFlags\<lparr>TrailingBytes := hasTrailingBytes r'\<rparr>), r')
    \<and> rcontent r' = rest \<and> rend r' = rend r"
proof -
  let ?n = "word_of_nat (length ds) :: u32"
  have len: "length ds \<le> 1024" and ok: "\<forall>d\<in>set ds. device_ok d"
    using assms(1) by (simp_all add: devlist_ok_def)
  obtain r1 where r1: "DecodeHeader r = (Inr (ProtocolVersion, OpRepDevlist, 0), r1)"
      "rcontent r1 = PutUint32 ?n @ concat (map devlist_entry_frame ds) @ rest" "rend r1 = rend r"
    using DecodeHeader_Encode [of r OpRepDevlist] assms(2) by (auto simp: devlist_frame_def)
  obtain r2 where r2: "io_ReadFull r1 4 = (Inr (PutUint32 ?n), r2)"
      "rcontent r2 = concat (map devlist_entry_frame ds) @ rest" "rend r2 = rend r1"
    using io_ReadFull_ok [OF r1(2)] by (metis length_PutUint32)
  have cap: "\<not> MaxDevlistDevices < ?n"
    using len by (simp add: MaxDevlistDevices_def word_less_nat_alt unat_count)
  have "\<exists>r'. decodeDevlistBody r2 ?n = (Inr (map devlist_view ds, noFlags), r')
      \<and> rcontent r' = rest \<and> rend r' = rend r2"
  proof (cases "?n = 0")
    case True
    hence "ds = []"
      using unat_count [OF len] by simp
    thus ?thesis
      using r2(2) by (simp add: decodeDevlistBody_def)
  next
    case False
    thus ?thesis
      using decodeDevlist_loop_frames [OF ok r2(2), of 0 "[]"] unat_count [OF len]
      by (simp add: decodeDevlistBody_def)
  qed
  then obtain r' where "decodeDevlistBody r2 ?n = (Inr (map devlist_view ds, noFlags), r')"
      "rcontent r' = rest" "rend r' = rend r2"
    by blast
  thus ?thesis
    using r1 r2 cap by (simp add: DecodeOpRepDevlist_def devlist_consts)
qed

text \<open>The codec as the importer uses it: the advisory flags only reach the log.\<close>

definition Codec_DecodeOpRepDevlist :: "reader \<Rightarrow> (go_error + Device list) \<times> reader" where
  "Codec_DecodeOpRepDevlist r = rbind (DecodeOpRepDevlist r) (\<lambda>(devices, flags) r. (Inr devices, r))"

definition Codec_DecodeOpRepImport :: "reader \<Rightarrow> (go_error + Device) \<times> reader" where
  "Codec_DecodeOpRepImport r = rbind (DecodeOpRepImport r) (\<lambda>(dev, flags) r. (Inr dev, r))"

interpretation rep_devlist: frame_codec EncodeOpRepDevlist Codec_DecodeOpRepDevlist devlist_frame
  devlist_ok "map devlist_view"
proof unfold_locales
  show "devlist_ok ds \<Longrightarrow> wcap w = None
      \<Longrightarrow> EncodeOpRepDevlist w ds = (None, w\<lparr>wout := wout w @ devlist_frame ds\<rparr>)" for ds w
    by (rule EncodeOpRepDevlist_ok) (auto simp: devlist_ok_def device_ok_def)
  show "\<exists>r'. Codec_DecodeOpRepDevlist r = (Inr (map devlist_view ds), r') \<and> rcontent r' = rest
      \<and> rend r' = rend r"
    if "devlist_ok ds" "rcontent r = devlist_frame ds @ rest" for ds r rest
    using DecodeOpRepDevlist_frame [OF that] by (auto simp: Codec_DecodeOpRepDevlist_def)
qed

section \<open>What an accepted reply looks like\<close>

definition entry_size :: "Device \<Rightarrow> nat" where
  "entry_size d = 312 + 4 * unat (dNumInterfaces d)"

definition entry_wf :: "Device \<Rightarrow> bool" where
  "entry_wf d \<longleftrightarrow> printable (dPath d) \<and> printable (dBusID d) \<and> length (dPath d) \<le> 256
     \<and> length (dBusID d) \<le> 32 \<and> Speed_IsKnown (dSpeed d)
     \<and> length (dInterfaces d) = unat (dNumInterfaces d)"

lemma DecodeDevice_consumes:
  assumes "DecodeDevice r = (Inr (d, f), r')"
  shows "\<exists>buf. rcontent r = buf @ rcontent r' \<and> length buf = 312 \<and> decodeDeviceBuf buf = Inr (d, f)"
  using assms io_ReadFull_Inr [of r 312]
  by (fastforce simp: DecodeDevice_def DeviceWireSize_def split: prod.splits sum.splits if_splits)

lemma decodeInterfaces_consumes:
  assumes "decodeInterfaces r n = (Inr is, r')"
  shows "\<exists>buf. rcontent r = buf @ rcontent r' \<and> length buf = 4 * unat n \<and> length is = unat n"
proof (cases "n = 0")
  case False
  with assms obtain buf where "io_ReadFull r (unat n * 4) = (Inr buf, r')"
      "is = map (interface_at buf) [0 ..< unat n]"
    by (auto simp: decodeInterfaces_def devlist_consts split: prod.splits sum.splits if_splits)
  thus ?thesis
    using io_ReadFull_Inr [of r "unat n * 4" buf r'] by auto
qed (use assms in \<open>simp add: decodeInterfaces_def\<close>)

lemma decodeDevlistDeviceAt_consumes:
  assumes "decodeDevlistDeviceAt r i = (Inr (d, f), r')"
  shows "\<exists>buf. rcontent r = buf @ rcontent r' \<and> length buf = entry_size d \<and> entry_wf d"
proof -
  obtain d0 r1 intfs where d0: "DecodeDevice r = (Inr (d0, f), r1)"
      and intfs: "decodeInterfaces r1 (dNumInterfaces d0) = (Inr intfs, r')"
      and d: "d = d0\<lparr>dInterfaces := intfs\<rparr>"
    using assms by (auto simp: decodeDevlistDeviceAt_def rbind_eq_Inr
        split: prod.splits sum.splits if_splits)
  obtain b1 where b1: "rcontent r = b1 @ rcontent r1" "length b1 = 312"
      "decodeDeviceBuf b1 = Inr (d0, f)"
    using DecodeDevice_consumes [OF d0] by blast
  obtain b2 where b2: "rcontent r1 = b2 @ rcontent r'" "length b2 = 4 * unat (dNumInterfaces d0)"
      "length intfs = unat (dNumInterfaces d0)"
    using decodeInterfaces_consumes [OF intfs] by blast
  show ?thesis
    using b1 b2 d decodeDeviceBuf_wf [OF b1(3)]
    by (intro exI [of _ "b1 @ b2"])
      (auto simp: entry_size_def entry_wf_def SysPathSize_def BusIDSize_def)
qed

lemma decodeDevlist_loop_consumes:
  assumes "decodeDevlist_loop i n acc f r = (Inr (ds, f'), r')"
  shows "\<exists>new buf. ds = acc @ new \<and> length new = n \<and> (\<forall>d\<in>set new. entry_wf d)
    \<and> rcontent r = buf @ rcontent r' \<and> length buf = (\<Sum>d\<leftarrow>new. entry_size d)"
  using assms
proof (induction n arbitrary: i acc f r)
  case (Suc n)
  then obtain d fd r1 where d: "decodeDevlistDeviceAt r i = (Inr (d, fd), r1)"
      and l: "decodeDevlist_loop (Suc i) n (acc @ [d]) (mergeDeviceTruncationFlags f fd i) r1
        = (Inr (ds, f'), r')"
    by (auto simp: rbind_eq_Inr)
  obtain b where b: "rcontent r = b @ rcontent r1" "length b = entry_size d" "entry_wf d"
    using decodeDevlistDeviceAt_consumes [OF d] by blast
  obtain new buf where "ds = acc @ d # new" "length new = n" "\<forall>d\<in>set new. entry_wf d"
      "rcontent r1 = buf @ rcontent r'" "length buf = (\<Sum>d\<leftarrow>new. entry_size d)"
    using Suc.IH [OF l] by auto
  thus ?case
    using b by (intro exI [of _ "d # new"] exI [of _ "b @ buf"]) auto
qed simp

section \<open>Truncated streams\<close>

definition truncation_error :: "go_error \<Rightarrow> bool" where
  "truncation_error e \<longleftrightarrow> errors_Is e (Io EOF) \<or> errors_Is e (Io ErrUnexpectedEOF)"

lemma io_ReadFull_truncated:
  assumes "length (rcontent r) < n" "rend r = [Io EOF]"
  obtains k e r' where "io_ReadFull r n = (Inl (k, e), r')" "truncation_error e"
    "k = 0 \<longrightarrow> errors_Is e (Io EOF)"
  using io_ReadFull_short [OF assms(1)] assms(2)
  by (cases "io_ReadFull r n") (auto simp: truncation_error_def split: if_splits)

lemma decodeHeader_truncated:
  assumes "length (rcontent r) < 8" "rend r = [Io EOF]"
  shows "\<exists>e. fst (decodeHeaderAllowStatus r) = Inl e \<and> truncation_error e"
  by (rule io_ReadFull_truncated [OF assms])
    (auto simp: decodeHeaderAllowStatus_def headerSize_def mapHeaderReadErr_def truncation_error_def)

lemma DecodeHeader_truncated:
  assumes "length (rcontent r) < 8" "rend r = [Io EOF]"
  shows "\<exists>e. fst (DecodeHeader r) = Inl e \<and> truncation_error e"
  using decodeHeader_truncated [OF assms] by (auto simp: DecodeHeader_def intro: fst_rbind_Inl)

lemma decodeDevlistDeviceAt_truncated:
  assumes "device_ok d" "rcontent r = take k (devlist_entry_frame d)"
    "k < length (devlist_entry_frame d)" "rend r = [Io EOF]"
  shows "\<exists>e. fst (decodeDevlistDeviceAt r i) = Inl e \<and> truncation_error e"
proof (cases "k < 312")
  case True
  hence "length (rcontent r) < 312"
    using assms(2) by simp
  from io_ReadFull_truncated [OF this assms(4)] obtain j e r1
    where "io_ReadFull r 312 = (Inl (j, e), r1)" "truncation_error e" .
  thus ?thesis
    by (auto simp: decodeDevlistDeviceAt_def DecodeDevice_def DeviceWireSize_def
        truncation_error_def)
next
  case False
  let ?is = "concat (map interface_frame (wire_interfaces d))"
  have len: "length (device_frame d) = 312"
    using assms(1) by (simp add: device_ok_def)
  hence "rcontent r = device_frame d @ take (k - 312) ?is"
    using assms(2) False by (simp add: devlist_entry_frame_def)
  then obtain r1 where r1: "DecodeDevice r = (Inr (wire_view d, noFlags), r1)"
      "rcontent r1 = take (k - 312) ?is" "rend r1 = rend r"
    using device.dec_frame [OF assms(1)] by blast
  have short: "length (rcontent r1) < unat (dNumInterfaces d) * 4"
    using assms(3) False len r1(2) by (simp add: devlist_entry_frame_def)
  hence nz: "dNumInterfaces d \<noteq> 0"
    by auto
  obtain j e r2 where "io_ReadFull r1 (unat (dNumInterfaces d) * 4) = (Inl (j, e), r2)"
      "truncation_error e"
    using io_ReadFull_truncated [OF short] r1(3) assms(4) by metis
  thus ?thesis
    using r1(1) nz by (auto simp: decodeDevlistDeviceAt_def decodeInterfaces_def devlist_consts
        truncation_error_def)
qed

lemma decodeDevlist_loop_truncated:
  assumes "\<forall>d\<in>set ds. device_ok d" "rcontent r = take k (concat (map devlist_entry_frame ds))"
    "k < length (concat (map devlist_entry_frame ds))" "rend r = [Io EOF]"
  shows "\<exists>e. fst (decodeDevlist_loop i (length ds) acc noFlags r) = Inl e \<and> truncation_error e"
  using assms
proof (induction ds arbitrary: i acc r k)
  case (Cons d ds)
  let ?fr = "devlist_entry_frame d" and ?rest = "concat (map devlist_entry_frame ds)"
  show ?case
  proof (cases "k < length ?fr")
    case True
    have "\<exists>e. fst (decodeDevlistDeviceAt r i) = Inl e \<and> truncation_error e"
      using Cons.prems True by (intro decodeDevlistDeviceAt_truncated) auto
    thus ?thesis
      by (simp add: fst_rbind_error)
  next
    case False
    hence "rcontent r = ?fr @ take (k - length ?fr) ?rest"
      using Cons.prems(2) by simp
    then obtain r1 where r1: "decodeDevlistDeviceAt r i = (Inr (devlist_view d, noFlags), r1)"
        "rcontent r1 = take (k - length ?fr) ?rest" "rend r1 = rend r"
      using decodeDevlistDeviceAt_frame [of d r] Cons.prems(1) by fastforce
    thus ?thesis
      using Cons.IH [of r1 "k - length ?fr" "Suc i" "acc @ [devlist_view d]"] Cons.prems False
      by auto
  qed
qed simp

lemma DecodeOpRepDevlist_truncated:
  assumes "devlist_ok ds" "rcontent r = take k (devlist_frame ds)" "k < length (devlist_frame ds)"
    "rend r = [Io EOF]"
  shows "\<exists>e. fst (DecodeOpRepDevlist r) = Inl e \<and> truncation_error e"
proof (cases "k < 8")
  case True
  thus ?thesis
    using DecodeHeader_truncated [of r] assms(2,4) unfolding DecodeOpRepDevlist_def
    by (intro fst_rbind_error) simp
next
  case False
  let ?n = "word_of_nat (length ds) :: u32" and ?body = "concat (map devlist_entry_frame ds)"
  have len: "length ds \<le> 1024" and ok: "\<forall>d\<in>set ds. device_ok d"
    using assms(1) by (simp_all add: devlist_ok_def)
  have "rcontent r = EncodeHeader OpRepDevlist 0 @ take (k - 8) (PutUint32 ?n @ ?body)"
    using assms(2) False by (simp add: devlist_frame_def)
  then obtain r1 where r1: "DecodeHeader r = (Inr (ProtocolVersion, OpRepDevlist, 0), r1)"
      "rcontent r1 = take (k - 8) (PutUint32 ?n @ ?body)" "rend r1 = rend r"
    using DecodeHeader_Encode [of r OpRepDevlist] by auto
  show ?thesis
  proof (cases "k < 12")
    case True
    hence "length (rcontent r1) < 4"
      using r1(2) False by simp
    then obtain j e r2 where "io_ReadFull r1 4 = (Inl (j, e), r2)" "truncation_error e"
      using io_ReadFull_truncated [of r1 4] r1(3) assms(4) by metis
    thus ?thesis
      using r1(1) by (auto simp: DecodeOpRepDevlist_def devlist_consts wrapUnexpectedEOF_def
          truncation_error_def)
  next
    case k: False
    hence "rcontent r1 = PutUint32 ?n @ take (k - 12) ?body"
      using r1(2) by simp
    then obtain r2 where r2: "io_ReadFull r1 4 = (Inr (PutUint32 ?n), r2)"
        "rcontent r2 = take (k - 12) ?body" "rend r2 = rend r1"
      using io_ReadFull_ok [of r1 "PutUint32 ?n"] by auto
    have klt: "k - 12 < length ?body"
      using assms(3) k by (simp add: devlist_frame_def)
    hence "?n \<noteq> 0"
      using unat_count [OF len] by auto
    moreover have "\<not> MaxDevlistDevices < ?n"
      using len by (simp add: MaxDevlistDevices_def word_less_nat_alt unat_count)
    moreover have "\<exists>e. fst (decodeDevlist_loop 0 (length ds) [] noFlags r2) = Inl e
        \<and> truncation_error e"
      using decodeDevlist_loop_truncated [OF ok r2(2) klt] r2(3) r1(3) assms(4) by simp
    ultimately show ?thesis
      using r1(1) r2(1) unat_count [OF len]
      by (simp add: DecodeOpRepDevlist_def devlist_consts decodeDevlistBody_def fst_rbind_error)
  qed
qed

section \<open>Properties\<close>

text \<open>C13: the device list survives the wire.  For every list of at most 1024 devices whose strings
  fit, the encoder succeeds and the decoder returns the devices in order, each with exactly the
  declared number of interfaces, with no truncation flag, leaving the bytes after the frame; the
  trailing-bytes flag is raised only if such bytes exist.\<close>

theorem devlist_roundtrip:
  assumes "devlist_ok ds" "rcontent r = wout (snd (EncodeOpRepDevlist sink ds)) @ rest"
  shows "fst (EncodeOpRepDevlist sink ds) = None
    \<and> (\<exists>r' trailing. DecodeOpRepDevlist r
          = (Inr (map devlist_view ds, noFlags\<lparr>TrailingBytes := trailing\<rparr>), r')
        \<and> rcontent r' = rest \<and> (trailing \<longrightarrow> rest \<noteq> []))"
proof -
  have enc: "EncodeOpRepDevlist sink ds = (None, sink\<lparr>wout := devlist_frame ds\<rparr>)"
    using rep_devlist.enc_frame [OF assms(1), of sink] by (simp add: sink_def)
  hence "rcontent r = devlist_frame ds @ rest"
    using assms(2) by simp
  from DecodeOpRepDevlist_frame [OF assms(1) this] obtain r' where
    "DecodeOpRepDevlist r = (Inr (map devlist_view ds,
        noFlags\<lparr>TrailingBytes := hasTrailingBytes r'\<rparr>), r')" "rcontent r' = rest"
    by blast
  moreover have "hasTrailingBytes r' \<Longrightarrow> rcontent r' \<noteq> []"
    by (simp add: hasTrailingBytes_def rcontent_def)
  ultimately show ?thesis
    using enc by auto
qed

theorem devlist_roundtrip_witness:
  "\<exists>r' t. DecodeOpRepDevlist (reader_of (wout (snd (EncodeOpRepDevlist sink [sample_device])) @ []))
     = (Inr ([devlist_view sample_device], noFlags\<lparr>TrailingBytes := t\<rparr>), r') \<and> \<not> t"
proof -
  have "devlist_ok [sample_device]"
    by (simp add: devlist_ok_def sample_device_ok)
  from devlist_roundtrip [OF this rcontent_reader_of [of "_ @ []"]] show ?thesis
    by auto
qed

text \<open>Whatever a peer sends, an accepted device list has at most 1024 entries, every entry has
  printable strings within their fields, a known speed and exactly its declared number of
  interfaces, and the decoder consumed exactly the bytes the entries account for.\<close>

theorem devlist_decode_bounds:
  assumes "DecodeOpRepDevlist r = (Inr (ds, flags), r')"
  shows "length ds \<le> 1024 \<and> (\<forall>d\<in>set ds. entry_wf d)
    \<and> (\<exists>used. rcontent r = used @ rcontent r' \<and> length used = 12 + (\<Sum>d\<leftarrow>ds. entry_size d))"
proof -
  obtain v op st r1 where hdr0: "DecodeHeader r = (Inr (v, op, st), r1)"
    using assms by (auto simp: DecodeOpRepDevlist_def rbind_eq_Inr)
  hence hdr: "DecodeHeader r = (Inr (v, OpRepDevlist, st), r1)"
    using assms by (simp add: DecodeOpRepDevlist_def split: if_splits)
  obtain x r2 where x: "io_ReadFull r1 4 = (x, r2)"
    by fastforce
  then obtain cb where cb: "io_ReadFull r1 4 = (Inr cb, r2)"
    using assms hdr by (cases x) (auto simp: DecodeOpRepDevlist_def devlist_consts)
  hence cap: "\<not> MaxDevlistDevices < Uint32 cb"
      and "\<exists>f. decodeDevlistBody r2 (Uint32 cb) = (Inr (ds, f), r')"
    using assms hdr by (auto simp: DecodeOpRepDevlist_def devlist_consts rbind_eq_Inr Let_def
        split: if_splits)
  then obtain f where body: "decodeDevlistBody r2 (Uint32 cb) = (Inr (ds, f), r')"
    by blast
  have loop: "decodeDevlist_loop 0 (unat (Uint32 cb)) [] noFlags r2 = (Inr (ds, f), r')"
    using body by (auto simp: decodeDevlistBody_def split: if_splits)
  obtain buf where b: "length ds = unat (Uint32 cb)" "\<forall>d\<in>set ds. entry_wf d"
      "rcontent r2 = buf @ rcontent r'" "length buf = (\<Sum>d\<leftarrow>ds. entry_size d)"
    using decodeDevlist_loop_consumes [OF loop] by auto
  have "rcontent r = EncodeHeader OpRepDevlist 0 @ rcontent r1"
    using DecodeHeader_Inr [OF hdr] Encode_decodeHeader by blast
  moreover have "rcontent r1 = cb @ rcontent r2" "length cb = 4"
    using io_ReadFull_Inr [OF cb] by auto
  moreover have "unat (Uint32 cb) \<le> 1024"
    using cap by (simp add: MaxDevlistDevices_def word_less_nat_alt)
  ultimately show ?thesis
    using b by (intro conjI exI [of _ "EncodeHeader OpRepDevlist 0 @ cb @ buf"]) auto
qed

theorem devlist_decode_bounds_witness:
  "\<exists>ds flags r'. DecodeOpRepDevlist (reader_of (devlist_frame [sample_device])) = (Inr (ds, flags), r')
     \<and> length ds \<le> 1024"
proof -
  have "devlist_ok [sample_device]"
    by (simp add: devlist_ok_def sample_device_ok)
  then obtain ds flags r' where "DecodeOpRepDevlist (reader_of (devlist_frame [sample_device]))
      = (Inr (ds, flags), r')"
    using DecodeOpRepDevlist_frame [of "[sample_device]" "reader_of (devlist_frame [sample_device])" "[]"]
    by auto
  with devlist_decode_bounds [OF this] show ?thesis
    by blast
qed

text \<open>A device list cut anywhere is reported, never silently shortened: on every proper prefix
  of an encoded reply followed by a clean close the decoder fails with \<open>io.EOF\<close> or
  \<open>io.ErrUnexpectedEOF\<close>.\<close>

theorem devlist_truncated:
  assumes "devlist_ok ds" "k < length (wout (snd (EncodeOpRepDevlist sink ds)))"
    "rcontent r = take k (wout (snd (EncodeOpRepDevlist sink ds)))" "rend r = [Io EOF]"
  shows "\<exists>e. fst (DecodeOpRepDevlist r) = Inl e
    \<and> (errors_Is e (Io EOF) \<or> errors_Is e (Io ErrUnexpectedEOF))"
proof -
  have enc: "EncodeOpRepDevlist sink ds = (None, sink\<lparr>wout := devlist_frame ds\<rparr>)"
    using rep_devlist.enc_frame [OF assms(1), of sink] by (simp add: sink_def)
  show ?thesis
    using DecodeOpRepDevlist_truncated [of ds r k] assms by (simp add: enc truncation_error_def)
qed

theorem devlist_truncated_witness:
  "\<exists>e. fst (DecodeOpRepDevlist (reader_of (take 9 (wout (snd (EncodeOpRepDevlist sink [])))))) = Inl e
     \<and> (errors_Is e (Io EOF) \<or> errors_Is e (Io ErrUnexpectedEOF))"
  by (rule devlist_truncated [of "[]" 9])
    (simp_all add: devlist_ok_def EncodeOpRepDevlist_ok sink_def devlist_frame_def)

end
