(* ===== verification/Exporter_Serve.thy ===== *)
theory Exporter_Serve
  imports Exporter_Registry Wire_Devlist
begin

text \<open>
  \<open>internal/app/session.go\<close> and the accept path of \<open>exporter.go\<close>: what the exporter does with one
  accepted connection, up to the kernel handoff that \<open>Session_Handle\<close> takes over, and how a parked
  session ends.  The results of the calls a handler makes on the kernel adapter, the event source,
  the clock and the id generator are fields of \<open>conn_env\<close>: each is called at most once per
  connection.  Closing of the connection by the handshake timeout shows as a read or write error.
\<close>

section \<open>Outcomes\<close>

datatype SessionOutcome =
    OutcomeHandshakeOK | OutcomeRejectedACL | OutcomeRejectedRate | OutcomeRejectedCap
  | OutcomeHandshakeFailed

datatype BindOutcome =
    BindOutcomeOK | BindOutcomeAlreadyBound | BindOutcomeNotFound | BindOutcomePermission
  | BindOutcomeError

datatype UnbindOutcome =
  UnbindOutcomeOK | UnbindOutcomeNotBound | UnbindOutcomePermission | UnbindOutcomeError

datatype DisconnectReason =
    DisconnectReasonClientGone | DisconnectReasonKernelError | DisconnectReasonShutdown
  | DisconnectReasonProtocolError

section \<open>Bind and Unbind\<close>

definition classifyBindError :: "go_error \<Rightarrow> BindOutcome" where
  "classifyBindError err =
     (if errors_Is err (Dom ErrDeviceAlreadyBound) then BindOutcomeAlreadyBound
      else if errors_Is err (Dom ErrDeviceNotFound) then BindOutcomeNotFound
      else if errors_Is err (Dom ErrPermission) then BindOutcomePermission
      else BindOutcomeError)"

definition classifyUnbindError :: "go_error \<Rightarrow> UnbindOutcome" where
  "classifyUnbindError err =
     (if errors_Is err (Dom ErrDeviceNotBound) then UnbindOutcomeNotBound
      else if errors_Is err (Dom ErrPermission) then UnbindOutcomePermission
      else UnbindOutcomeError)"

text \<open>\<open>kernelBind\<close> is the adapter's \<open>Bind\<close> over its state; the third component is the outcome that
  is logged.\<close>

definition Exporter_Bind ::
  "('k \<Rightarrow> string \<Rightarrow> go_error option \<times> 'k) \<Rightarrow> 'k \<Rightarrow> string \<Rightarrow> go_error option \<times> 'k \<times> BindOutcome"
where
  "Exporter_Bind kernelBind k busID =
     (if \<not> BusID_IsValid busID then (Some [Dom ErrBusIDInvalid], k, BindOutcomeError)
      else case kernelBind k busID of
        (Some err, k) \<Rightarrow> (Some err, k, classifyBindError err)
      | (None, k) \<Rightarrow> (None, k, BindOutcomeOK))"

definition Exporter_Unbind ::
  "('k \<Rightarrow> string \<Rightarrow> go_error option \<times> 'k) \<Rightarrow> 'k \<Rightarrow> string \<Rightarrow> go_error option \<times> 'k \<times> UnbindOutcome"
where
  "Exporter_Unbind kernelUnbind k busID =
     (if \<not> BusID_IsValid busID then (Some [Dom ErrBusIDInvalid], k, UnbindOutcomeError)
      else case kernelUnbind k busID of
        (Some err, k) \<Rightarrow> (Some err, k, classifyUnbindError err)
      | (None, k) \<Rightarrow> (None, k, UnbindOutcomeOK))"

section \<open>The accept loop\<close>

definition acceptShouldStop :: "bool \<Rightarrow> go_error \<Rightarrow> bool" where
  "acceptShouldStop ctxDone err = (if ctxDone then True else errors_Is err (Io NetErrClosed))"

text \<open>\<open>splitHostPort\<close> is \<open>net.SplitHostPort\<close>.\<close>

definition peerKeyFromAddr :: "(string \<Rightarrow> (string \<times> string) option) \<Rightarrow> net_addr option \<Rightarrow> string" where
  "peerKeyFromAddr splitHostPort addr =
     (case addr of
        None \<Rightarrow> []
      | Some (TCPAddr (Some ip) _) \<Rightarrow> ip
      | Some (TCPAddr None s) \<Rightarrow> (case splitHostPort s of Some (h, _) \<Rightarrow> h | None \<Rightarrow> s)
      | Some (OtherAddr s) \<Rightarrow> (case splitHostPort s of Some (h, _) \<Rightarrow> h | None \<Rightarrow> s))"

text \<open>One result of \<open>listener.Accept\<close>: an error and whether the context was cancelled by then, or
  the connection with the IP of its peer.  The loop returns its error, the connections handed to
  a handler in order, the connections closed at once, and the state of the token bucket.\<close>

datatype accept_result = AcceptErr bool go_error | Accepted nat "string option"

fun acceptLoop ::
  "('n \<Rightarrow> string \<Rightarrow> bool) \<Rightarrow> 'n list \<Rightarrow> ('b \<Rightarrow> bool \<times> 'b) \<Rightarrow> 'b option \<Rightarrow> accept_result list
     \<Rightarrow> go_error option \<times> nat list \<times> (nat \<times> SessionOutcome) list \<times> 'b option" where
  "acceptLoop contains acl bucketAllow bkt [] = (None, [], [], bkt)"
| "acceptLoop contains acl bucketAllow bkt (AcceptErr ctxDone err # rs) =
     (if acceptShouldStop ctxDone err then (None, [], [], bkt) else (Some err, [], [], bkt))"
| "acceptLoop contains acl bucketAllow bkt (Accepted conn ip # rs) =
     (if \<not> acl_allow contains acl ip then
        (case acceptLoop contains acl bucketAllow bkt rs of
           (err, served, dropped, bkt) \<Rightarrow> (err, served, (conn, OutcomeRejectedACL) # dropped, bkt))
      else case acceptLimiter_allow bucketAllow bkt of
        (False, bkt) \<Rightarrow>
          (case acceptLoop contains acl bucketAllow bkt rs of
             (err, served, dropped, bkt) \<Rightarrow> (err, served, (conn, OutcomeRejectedRate) # dropped, bkt))
      | (True, bkt) \<Rightarrow>
          (case acceptLoop contains acl bucketAllow bkt rs of
             (err, served, dropped, bkt) \<Rightarrow> (err, conn # served, dropped, bkt)))"

section \<open>One connection\<close>

record conn_env =
  ceConn :: nat
  cePeerKey :: string
  ceRemoteAddr :: string
  ceListExported :: "go_error + Device list"
  ceNewSessionID :: "go_error + SessionID"
  ceNow :: int
  ceSubscribe :: "go_error option"

text \<open>How the handler's synchronous part ended.  \<open>ReadyForHandoff\<close> is the state in which
  \<open>runHandoff\<close> is called; the address is the registered handle.\<close>

datatype handler_result =
    HeaderRejected go_error
  | UnexpectedOpcode u16
  | DevlistFailed go_error
  | DevlistServed nat
  | ImportBodyRejected go_error
  | ImportDeclined u32 go_error
  | SubscribeFailed nat go_error
  | ReplyFailed nat go_error
  | ReadyForHandoff nat Device

fun find_device :: "Device list \<Rightarrow> string \<Rightarrow> go_error + Device" where
  "find_device [] busID = Inl [Dom ErrDeviceNotFound]"
| "find_device (d # ds) busID = (if dBusID d = busID then Inr d else find_device ds busID)"

definition lookupExportedDevice :: "go_error + Device list \<Rightarrow> string \<Rightarrow> go_error + Device" where
  "lookupExportedDevice listed busID =
     (case listed of Inl err \<Rightarrow> Inl err | Inr devs \<Rightarrow> find_device devs busID)"

definition classifyImportLookupStatus :: "go_error \<Rightarrow> u32" where
  "classifyImportLookupStatus err =
     (if errors_Is err (Dom ErrDeviceNotFound) then ImportStatusNA else ImportStatusDevErr)"

definition classifySessionDeclineOutcome :: "go_error \<Rightarrow> SessionOutcome" where
  "classifySessionDeclineOutcome err =
     (if errors_Is err (App ErrMaxSessionsExceeded) \<or> errors_Is err (App ErrPerPeerLimitExceeded)
         \<or> errors_Is err (Dom ErrDeviceAlreadyBound)
      then OutcomeRejectedCap else OutcomeHandshakeFailed)"

definition buildSession :: "conn_env \<Rightarrow> string \<Rightarrow> go_error + Session" where
  "buildSession env busID =
     (case ceNewSessionID env of
        Inl err \<Rightarrow> Inl err
      | Inr uid \<Rightarrow> Inr \<lparr>sID = uid, sRemoteAddr = ceRemoteAddr env, sBusID = busID,
                       sStartedAt = ceNow env, sBytesIn = 0, sBytesOut = 0\<rparr>)"

text \<open>The status of a declined registration.\<close>

definition registerDeclineStatus :: "go_error \<Rightarrow> u32" where
  "registerDeclineStatus err =
     (if errors_Is err (App ErrMaxSessionsExceeded) \<or> errors_Is err (App ErrPerPeerLimitExceeded)
         \<or> errors_Is err (Dom ErrDeviceAlreadyBound)
      then ImportStatusDevBusy else ImportStatusDevErr)"

text \<open>\<open>replyImportError\<close>: the encoder's error is only logged.\<close>

definition replyImportError :: "writer \<Rightarrow> u32 \<Rightarrow> writer" where
  "replyImportError w status = snd (EncodeOpRepImportError w status)"

definition set_reason :: "Exporter \<Rightarrow> nat \<Rightarrow> string \<Rightarrow> Exporter" where
  "set_reason e a reason = e\<lparr>eHeap := (eHeap e)[a := (eHeap e ! a)\<lparr>shReason := Some reason\<rparr>]\<rparr>"

definition runRegisteredSession ::
  "conn_env \<Rightarrow> Exporter \<Rightarrow> writer \<Rightarrow> nat \<Rightarrow> Device \<Rightarrow> handler_result \<times> writer \<times> Exporter" where
  "runRegisteredSession env e w a dev =
     (case ceSubscribe env of
        Some subErr \<Rightarrow>
          (SubscribeFailed a subErr, snd (EncodeOpRepImportError w ImportStatusDevErr),
           set_reason e a ''kernel_error'')
      | None \<Rightarrow>
          (case EncodeOpRepImport w dev of
             (Some err, w) \<Rightarrow> (ReplyFailed a err, w, set_reason e a ''protocol_error'')
           | (None, w) \<Rightarrow> (ReadyForHandoff a dev, w, e)))"

definition serveImport ::
  "conn_env \<Rightarrow> Exporter \<Rightarrow> reader \<Rightarrow> writer \<Rightarrow> handler_result \<times> writer \<times> Exporter" where
  "serveImport env e r w =
     (case DecodeOpReqImportBody r of
        (Inl err, r) \<Rightarrow> (ImportBodyRejected err, w, e)
      | (Inr busID, r) \<Rightarrow>
          (case lookupExportedDevice (ceListExported env) busID of
             Inl lookupErr \<Rightarrow>
               let status = classifyImportLookupStatus lookupErr
               in (ImportDeclined status lookupErr, replyImportError w status, e)
           | Inr dev \<Rightarrow>
               (case buildSession env busID of
                  Inl err \<Rightarrow>
                    (ImportDeclined ImportStatusDevErr err, replyImportError w ImportStatusDevErr, e)
                | Inr sess \<Rightarrow>
                    (case registerSession e sess (cePeerKey env) (ceConn env) of
                       (Inl err, e) \<Rightarrow>
                         let status = registerDeclineStatus err
                         in (ImportDeclined status err, snd (EncodeOpRepImportError w status), e)
                     | (Inr a, e) \<Rightarrow> runRegisteredSession env e w a dev))))"

definition serveDevlist :: "conn_env \<Rightarrow> Exporter \<Rightarrow> writer \<Rightarrow> handler_result \<times> writer \<times> Exporter" where
  "serveDevlist env e w =
     (case ceListExported env of
        Inl err \<Rightarrow> (DevlistFailed err, w, e)
      | Inr devs \<Rightarrow>
          (case EncodeOpRepDevlist w devs of
             (Some err, w) \<Rightarrow> (DevlistFailed err, w, e)
           | (None, w) \<Rightarrow> (DevlistServed (length devs), w, e)))"

definition handleConn ::
  "conn_env \<Rightarrow> Exporter \<Rightarrow> reader \<Rightarrow> writer \<Rightarrow> handler_result \<times> writer \<times> Exporter" where
  "handleConn env e conn w =
     (let r = limited (newHandshakeLimitReader conn (maxHandshakeBytes (eCfg e)))
      in case DecodeHeader r of
           (Inl err, r) \<Rightarrow> (HeaderRejected err, w, e)
         | (Inr (_, op, _), r) \<Rightarrow>
             if op = OpReqDevlist then serveDevlist env e w
             else if op = OpReqImport then serveImport env e r w
             else (UnexpectedOpcode op, w, e))"

section \<open>The end of a session\<close>

definition eventEndsSessionForBusID :: "Event \<Rightarrow> string \<Rightarrow> bool" where
  "eventEndsSessionForBusID ev busID \<longleftrightarrow>
     (case ev of DeviceUnboundEvent _ d \<Rightarrow> dBusID d = busID | _ \<Rightarrow> False)"

definition classifyDisconnectReason :: "go_error \<Rightarrow> DisconnectReason" where
  "classifyDisconnectReason err =
     (if errors_Is err (Io ContextCanceled) then DisconnectReasonShutdown
      else DisconnectReasonKernelError)"

text \<open>A tick either ends the wait with a reason or goes on with the event arm and the poll arm on
  or off.\<close>

datatype sessionEndTick = TickEnd DisconnectReason | TickWait bool bool

definition exportSessionInactive :: "go_error + bool \<Rightarrow> bool" where
  "exportSessionInactive probe = (case probe of Inl _ \<Rightarrow> False | Inr active \<Rightarrow> \<not> active)"

definition completedSessionEndTick :: "sessionHandle \<Rightarrow> (sessionEndTick \<times> sessionHandle) option" where
  "completedSessionEndTick h =
     map_option (\<lambda>(won, h). (TickEnd (if won then DisconnectReasonClientGone
                                     else DisconnectReasonShutdown), h))
       (completeWithoutDisconnect h)"

definition closedSessionEventsTick ::
  "(go_error + bool) option \<Rightarrow> bool \<Rightarrow> sessionHandle \<Rightarrow> (sessionEndTick \<times> sessionHandle) option" where
  "closedSessionEventsTick activity poll h =
     (case activity of
        Some probe \<Rightarrow>
          if exportSessionInactive probe then completedSessionEndTick h
          else Some (TickWait False poll, h)
      | None \<Rightarrow> Some (TickWait False poll, h))"

definition sessionEventTick ::
  "string \<Rightarrow> (go_error + bool) option \<Rightarrow> bool \<Rightarrow> Event option \<Rightarrow> sessionHandle
     \<Rightarrow> (sessionEndTick \<times> sessionHandle) option" where
  "sessionEventTick busID activity poll event h =
     (case event of
        None \<Rightarrow> closedSessionEventsTick activity poll h
      | Some ev \<Rightarrow>
          if eventEndsSessionForBusID ev busID then completedSessionEndTick h
          else Some (TickWait True poll, h))"

definition sessionPollTick ::
  "go_error + bool \<Rightarrow> bool \<Rightarrow> sessionHandle \<Rightarrow> (sessionEndTick \<times> sessionHandle) option" where
  "sessionPollTick probe events h =
     (if exportSessionInactive probe then completedSessionEndTick h
      else Some (TickWait events True, h))"

text \<open>What the select of \<open>waitForSessionEndTick\<close> received: \<open>handle.done\<close>, an event (\<open>None\<close> when
  the channel is closed) with the activity probe made in that case (if the adapter has one), or
  the poll timer with its probe.\<close>

datatype tick_input =
  SelDone | SelEvent "Event option" "(go_error + bool) option" | SelPoll "go_error + bool"

fun waitForSessionEndTick ::
  "string \<Rightarrow> bool \<Rightarrow> bool \<Rightarrow> tick_input \<Rightarrow> sessionHandle \<Rightarrow> (sessionEndTick \<times> sessionHandle) option"
where
  "waitForSessionEndTick busID events poll SelDone h = Some (TickEnd DisconnectReasonShutdown, h)"
| "waitForSessionEndTick busID events poll (SelEvent ev activity) h =
     sessionEventTick busID activity poll ev h"
| "waitForSessionEndTick busID events poll (SelPoll probe) h = sessionPollTick probe events h"

text \<open>The loop over the inputs the select received; \<open>None\<close> in the reason means it is still
  waiting when the inputs run out.\<close>

fun waitForSessionEnd ::
  "string \<Rightarrow> bool \<Rightarrow> bool \<Rightarrow> tick_input list \<Rightarrow> sessionHandle
     \<Rightarrow> (DisconnectReason option \<times> sessionHandle) option" where
  "waitForSessionEnd busID events poll [] h = Some (None, h)"
| "waitForSessionEnd busID events poll (i # is) h =
     (case waitForSessionEndTick busID events poll i h of
        None \<Rightarrow> None
      | Some (TickEnd reason, h) \<Rightarrow> Some (Some reason, h)
      | Some (TickWait events poll, h) \<Rightarrow> waitForSessionEnd busID events poll is h)"

text \<open>\<open>endSession\<close>: settle the cleanup, unregister, and report the recorded reason or the fallback.\<close>

definition endSession :: "Exporter \<Rightarrow> nat \<Rightarrow> string \<Rightarrow> int \<Rightarrow> (Event \<times> Exporter) option" where
  "endSession e a reason now =
     (case completeWithoutDisconnect (eHeap e ! a) of
        None \<Rightarrow> None
      | Some (_, h) \<Rightarrow>
          let reason = (case shReason h of Some t \<Rightarrow> if t \<noteq> [] then t else reason | None \<Rightarrow> reason);
              e = e\<lparr>eHeap := (eHeap e)[a := h]\<rparr>;
              e = unregisterSession e (sID (shSession h))
          in Some (SessionEndedEvent now (shSession h) reason, e))"

section \<open>Lemmas on the exchange\<close>

lemma update_in: "v \<in> snd ` set (AList.update k v xs)"
  by (induction xs) auto

lemma find_device_Inr: "find_device ds b = Inr d \<Longrightarrow> d \<in> set ds \<and> dBusID d = b"
  by (induction ds b rule: find_device.induct) (auto split: if_splits)

lemma find_device_Inl: "find_device ds b = Inl e \<longleftrightarrow> e = [Dom ErrDeviceNotFound] \<and> b \<notin> dBusID ` set ds"
  by (induction ds b rule: find_device.induct) auto

lemma EncodeOpRepImportError_ok:
  "status \<in> {ImportStatusNA, ImportStatusDevBusy, ImportStatusDevErr, ImportStatusNoDev} \<Longrightarrow>
   wcap w = None \<Longrightarrow>
   EncodeOpRepImportError w status = (None, w\<lparr>wout := wout w @ EncodeHeader OpRepImport status\<rparr>)"
  by (simp add: EncodeOpRepImportError_def)

lemma decline_statuses:
  "classifyImportLookupStatus err \<in> {ImportStatusNA, ImportStatusDevErr}"
  "registerDeclineStatus err \<in> {ImportStatusDevBusy, ImportStatusDevErr}"
  by (simp_all add: classifyImportLookupStatus_def registerDeclineStatus_def)

text \<open>The handshake fits the byte limit: the limited stream still starts with the 40 bytes of the
  request.\<close>

definition handshake_fits :: "Exporter \<Rightarrow> bool" where
  "handshake_fits e \<longleftrightarrow> maxHandshakeBytes (eCfg e) \<le> 0 \<or> 40 \<le> maxHandshakeBytes (eCfg e)"

lemma limited_request:
  assumes "handshake_fits e" "rcontent conn = req @ rest" "length req \<le> 40"
  shows "\<exists>rest'. rcontent (limited (newHandshakeLimitReader conn (maxHandshakeBytes (eCfg e)))) = req @ rest'"
  using assms
  by (auto simp: hlr_content_def newHandshakeLimitReader_def handshake_fits_def)

lemma handleConn_import:
  assumes "handshake_fits e" "wire_busid b" "rcontent conn = req_import_frame b @ rest"
  shows "\<exists>r r'. handleConn env e conn w = serveImport env e r w \<and> DecodeOpReqImportBody r = (Inr b, r')"
proof -
  let ?l = "limited (newHandshakeLimitReader conn (maxHandshakeBytes (eCfg e)))"
  have "length (req_import_frame b) \<le> 40"
    using wire_busid_printable [OF assms(2)] by (simp add: req_import_frame_def BusIDSize_def)
  then obtain rest' where l: "rcontent ?l = EncodeHeader OpReqImport 0 @ padded b BusIDSize @ rest'"
    using limited_request [OF assms(1,3)] by (auto simp: req_import_frame_def)
  obtain r where r: "DecodeHeader ?l = (Inr (ProtocolVersion, OpReqImport, 0), r)"
      "rcontent r = padded b BusIDSize @ rest'"
    using DecodeHeader_Encode [OF l] by auto
  obtain r' where "DecodeOpReqImportBody r = (Inr b, r')"
    using DecodeOpReqImportBody_padded [OF assms(2) r(2)] by blast
  thus ?thesis
    using r(1) by (auto simp: handleConn_def Let_def)
qed

lemma handleConn_devlist:
  assumes "handshake_fits e" "rcontent conn = EncodeOpReqDevlist @ rest"
  shows "handleConn env e conn w = serveDevlist env e w"
proof -
  let ?l = "limited (newHandshakeLimitReader conn (maxHandshakeBytes (eCfg e)))"
  obtain rest' where l: "rcontent ?l = EncodeHeader OpReqDevlist 0 @ rest'"
    using limited_request [OF assms] by (auto simp: EncodeOpReqDevlist_def)
  obtain r where "DecodeHeader ?l = (Inr (ProtocolVersion, OpReqDevlist, 0), r)"
    using DecodeHeader_Encode [OF l] by auto
  thus ?thesis
    by (simp add: handleConn_def Let_def)
qed

text \<open>The three ways a request that reached \<open>serveImport\<close> can be answered.\<close>

lemma serveImport_refused:
  assumes "DecodeOpReqImportBody r = (Inr b, r')" "wcap w = None"
    and "(\<exists>err. lookupExportedDevice (ceListExported env) b = Inl err)
      \<or> (\<exists>d err. lookupExportedDevice (ceListExported env) b = Inr d \<and> ceNewSessionID env = Inl err)"
  obtains st err where "serveImport env e r w = (ImportDeclined st err, w\<lparr>wout := wout w @ EncodeHeader OpRepImport st\<rparr>, e)"
    "st \<in> {1, 2, 3}"
  using assms(3)
proof (elim disjE exE conjE)
  fix err assume look: "lookupExportedDevice (ceListExported env) b = Inl err"
  have "classifyImportLookupStatus err \<in> {1, 2, 3}"
    using decline_statuses(1) [of err] by (auto simp: protocol_consts)
  thus thesis
    using that [of "classifyImportLookupStatus err" err] assms(1,2) look decline_statuses(1) [of err]
    by (auto simp: serveImport_def replyImportError_def EncodeOpRepImportError_ok)
next
  fix d err assume "lookupExportedDevice (ceListExported env) b = Inr d" "ceNewSessionID env = Inl err"
  thus thesis
    using that [of ImportStatusDevErr err] assms(1,2)
    by (simp add: serveImport_def buildSession_def replyImportError_def EncodeOpRepImportError_ok protocol_consts(8))
qed

lemma serveImport_cases:
  assumes "DecodeOpReqImportBody r = (Inr b, r')" "wcap w = None"
    "\<forall>ds d. ceListExported env = Inr ds \<longrightarrow> d \<in> set ds \<longrightarrow> device_ok d"
  obtains
    (handoff) a d uid e' where "serveImport env e r w = (ReadyForHandoff a d, w\<lparr>wout := wout w @ rep_import_frame d\<rparr>, e')"
      "lookupExportedDevice (ceListExported env) b = Inr d" "device_ok d" "dBusID d = b"
      "registerSession e \<lparr>sID = uid, sRemoteAddr = ceRemoteAddr env, sBusID = b, sStartedAt = ceNow env,
         sBytesIn = 0, sBytesOut = 0\<rparr> (cePeerKey env) (ceConn env) = (Inr a, e')"
  | (declined) st err where "serveImport env e r w = (ImportDeclined st err,
       w\<lparr>wout := wout w @ EncodeHeader OpRepImport st\<rparr>, e)" "st \<in> {1, 2, 3}"
  | (unsubscribed) a err e' where "serveImport env e r w = (SubscribeFailed a err,
       w\<lparr>wout := wout w @ EncodeHeader OpRepImport 3\<rparr>, e')"
proof (cases "lookupExportedDevice (ceListExported env) b")
  case (Inl err)
  thus ?thesis
    using serveImport_refused [OF assms(1,2)] declined by metis
next
  case (Inr d)
  hence ok: "device_ok d" "dBusID d = b"
    using assms(3) by (auto simp: lookupExportedDevice_def split: sum.splits dest: find_device_Inr)
  show ?thesis
  proof (cases "ceNewSessionID env")
    case (Inl err)
    thus ?thesis
      using serveImport_refused [OF assms(1,2)] declined Inr by metis
  next
    case uid: (Inr uid)
    let ?s = "\<lparr>sID = uid, sRemoteAddr = ceRemoteAddr env, sBusID = b, sStartedAt = ceNow env,
         sBytesIn = 0, sBytesOut = 0\<rparr>"
    obtain x e1 where reg: "registerSession e ?s (cePeerKey env) (ceConn env) = (x, e1)"
      by fastforce
    show ?thesis
    proof (cases x)
      case (Inl err)
      hence "e1 = e"
        using reg registerSession_refused by blast
      moreover have "registerDeclineStatus err \<in> {1, 2, 3}"
        using decline_statuses(2) [of err] by (auto simp: protocol_consts)
      ultimately show ?thesis
        using declined [of "registerDeclineStatus err" err] assms(1,2) Inr uid reg Inl
          decline_statuses(2) [of err]
        by (auto simp: serveImport_def buildSession_def EncodeOpRepImportError_ok)
    next
      case a: (Inr a)
      show ?thesis
      proof (cases "ceSubscribe env")
        case None
        thus ?thesis
          using handoff [of a d e1 uid] assms(1,2) Inr uid reg a ok
          by (simp add: serveImport_def buildSession_def runRegisteredSession_def
              rep_import.enc_frame)
      next
        case (Some err)
        thus ?thesis
          using unsubscribed [of a err] assms(1,2) Inr uid reg a
          by (simp add: serveImport_def buildSession_def runRegisteredSession_def
              EncodeOpRepImportError_ok protocol_consts(8))
      qed
    qed
  qed
qed

definition ends_session :: "string \<Rightarrow> tick_input \<Rightarrow> bool" where
  "ends_session busID i \<longleftrightarrow> i = SelDone
     \<or> (\<exists>t d act. i = SelEvent (Some (DeviceUnboundEvent t d)) act \<and> dBusID d = busID)
     \<or> i = SelEvent None (Some (Inr False)) \<or> i = SelPoll (Inr False)"

lemma waitForSessionEndTick_cases:
  "waitForSessionEndTick busID events poll i h =
     (if i = SelDone then Some (TickEnd DisconnectReasonShutdown, h)
      else if ends_session busID i then completedSessionEndTick h
      else Some (TickWait (case i of SelEvent None _ \<Rightarrow> False | SelEvent (Some _) _ \<Rightarrow> True | _ \<Rightarrow> events)
                   (case i of SelPoll _ \<Rightarrow> True | _ \<Rightarrow> poll), h))"
  by (cases i) (auto simp: ends_session_def sessionEventTick_def closedSessionEventsTick_def
      sessionPollTick_def exportSessionInactive_def eventEndsSessionForBusID_def
      split: option.splits sum.splits Event.splits)

lemma ends_session_SelDone [simp]: "ends_session busID SelDone"
  by (simp add: ends_session_def)

lemma waitForSessionEnd_waits:
  assumes "\<forall>i\<in>set is. \<not> ends_session busID i"
  shows "waitForSessionEnd busID events poll is h = Some (None, h)"
  using assms by (induction "is" arbitrary: events poll)
    (auto simp: waitForSessionEndTick_cases)

lemma waitForSessionEnd_ends:
  assumes "\<exists>i\<in>set is. ends_session busID i" "cleanupDone h \<longrightarrow> cleanupClaimed h"
  shows "\<exists>reason h'. waitForSessionEnd busID events poll is h = Some (Some reason, h')"
  using assms
proof (induction "is" arbitrary: events poll)
  case (Cons i "is")
  show ?case
  proof (cases "ends_session busID i")
    case True
    have "\<exists>reason h'. completedSessionEndTick h = Some (TickEnd reason, h')"
      using Cons.prems(2) by (auto simp: completedSessionEndTick_def handle_ops)
    thus ?thesis
      using True by (auto simp: waitForSessionEndTick_cases)
  next
    case False
    hence "i \<noteq> SelDone"
      by auto
    thus ?thesis
      using Cons False by (simp add: waitForSessionEndTick_cases)
  qed
qed simp

section \<open>Properties\<close>

lemma handleConn_import_answer:
  assumes "handshake_fits e" "ValidateWireBusID b = Inr b"
    "rcontent conn = wout (snd (EncodeOpReqImport sink b)) @ rest"
    "\<forall>ds d. ceListExported env = Inr ds \<longrightarrow> d \<in> set ds \<longrightarrow> device_ok d"
  shows "case handleConn env e conn sink of (res, w, e') \<Rightarrow>
    (\<exists>a d r'. res = ReadyForHandoff a d \<and> dBusID d = b
       \<and> lookupExportedDevice (ceListExported env) b = Inr d
       \<and> sBusID (shSession (eHeap e' ! a)) = b \<and> a \<in> snd ` set (eSessions e') \<and> \<not> eShutdown e
       \<and> DecodeOpRepImport (reader_of (wout w)) = (Inr (wire_view d, noFlags), r'))
    \<or> (\<exists>st err. (res = ImportDeclined st err \<and> e' = e \<or> (\<exists>a. res = SubscribeFailed a err \<and> st = 3))
       \<and> st \<in> {1, 2, 3} \<and> fst (DecodeOpRepImport (reader_of (wout w))) = Inl (mapImportStatus st))"
proof -
  have b: "wire_busid b"
    using assms(2) by (simp add: wire_busid_def)
  hence "wout (snd (EncodeOpReqImport sink b)) = req_import_frame b"
    using req_import.enc_frame [of b sink] by (simp add: sink_def)
  with assms(3) obtain r r' where h: "handleConn env e conn sink = serveImport env e r sink"
      "DecodeOpReqImportBody r = (Inr b, r')"
    using handleConn_import [OF assms(1) b] by metis
  have err: "fst (DecodeOpRepImport (reader_of (EncodeHeader OpRepImport st))) = Inl (mapImportStatus st)"
    if "st \<in> {1, 2, 3}" for st
    using DecodeOpRepImport_status [of "reader_of (EncodeHeader OpRepImport st)" st "[]"] that by auto
  have cap: "wcap sink = None"
    by (simp add: sink_def)
  show ?thesis
  proof (cases rule: serveImport_cases [OF h(2) cap assms(4), where e = e, case_names handoff declined unsubscribed])
    case (handoff a d uid e')
    obtain r1 where r1: "DecodeOpRepImport (reader_of (rep_import_frame d)) = (Inr (wire_view d, noFlags), r1)"
      using rep_import.dec_frame [OF handoff(3), of "reader_of (rep_import_frame d)" "[]"] by auto
    have reg: "a = length (eHeap e)" "\<not> eShutdown e" "a \<in> snd ` set (eSessions e')"
        "sBusID (shSession (eHeap e' ! a)) = b"
      using handoff(5) update_in [of a uid "eSessions e"]
      by (auto simp: registerSession_def Let_def new_sessionHandle_def nth_append split: if_splits)
    show ?thesis
      using h(1) handoff reg r1 by (auto simp: sink_def)
  next
    case (declined st er)
    with h(1) err [OF declined(2)] show ?thesis
      by (auto simp: sink_def)
  next
    case (unsubscribed a er e')
    with h(1) err [of 3] show ?thesis
      by (auto simp: sink_def)
  qed
qed

definition sample_env :: conn_env where
  "sample_env = \<lparr>ceConn = 7, cePeerKey = ''192.0.2.1'', ceRemoteAddr = ''192.0.2.1:4000'',
     ceListExported = Inr [sample_device], ceNewSessionID = Inr (replicate 16 2), ceNow = 0,
     ceSubscribe = None\<rparr>"



lemma handleConn_devlist_answer:
  assumes "handshake_fits e" "rcontent conn = EncodeOpReqDevlist @ rest"
    "ceListExported env = Inr devs" "devlist_ok devs"
  shows "\<exists>w r' t. handleConn env e conn sink = (DevlistServed (length devs), w, e)
    \<and> DecodeOpRepDevlist (reader_of (wout w)) = (Inr (map devlist_view devs, noFlags\<lparr>TrailingBytes := t\<rparr>), r')"
proof -
  have enc: "EncodeOpRepDevlist sink devs = (None, sink\<lparr>wout := devlist_frame devs\<rparr>)"
    using rep_devlist.enc_frame [OF assms(4), of sink] by (simp add: sink_def)
  obtain r' where "DecodeOpRepDevlist (reader_of (devlist_frame devs))
      = (Inr (map devlist_view devs, noFlags\<lparr>TrailingBytes := hasTrailingBytes r'\<rparr>), r')"
    using DecodeOpRepDevlist_frame [OF assms(4), of "reader_of (devlist_frame devs)" "[]"] by auto
  thus ?thesis
    using handleConn_devlist [OF assms(1,2)] assms(3) enc by (auto simp: serveDevlist_def)
qed

text \<open>A parked session ends exactly when it should.  The wait goes on, with the handle
  untouched, as long as none of the observed inputs is Shutdown's signal, an unbind event of this
  very device, or an activity probe that found the session inactive; in particular port-detached
  events, other devices' events, failed probes and a closed event stream never end it.  As soon as
  one of them is observed it does end, without a panic.\<close>

theorem session_end_signals:
  assumes "cleanupDone h \<longrightarrow> cleanupClaimed h"
  shows "((\<exists>reason h'. waitForSessionEnd busID events poll is h = Some (Some reason, h'))
      \<longleftrightarrow> (\<exists>i\<in>set is. ends_session busID i))
    \<and> ((\<forall>i\<in>set is. \<not> ends_session busID i) \<longrightarrow> waitForSessionEnd busID events poll is h = Some (None, h))
    \<and> \<not> ends_session busID (SelEvent (Some (PortDetachedEvent t p r)) act)"
proof (intro conjI impI)
  have "(\<exists>reason h'. waitForSessionEnd busID events poll is h = Some (Some reason, h'))"
    if "\<exists>i\<in>set is. ends_session busID i"
    by (rule waitForSessionEnd_ends [OF that assms])
  moreover have "\<not> (\<exists>reason h'. waitForSessionEnd busID events poll is h = Some (Some reason, h'))"
    if "\<not> (\<exists>i\<in>set is. ends_session busID i)"
    using waitForSessionEnd_waits [of "is" busID events poll h] that by simp
  ultimately show "(\<exists>reason h'. waitForSessionEnd busID events poll is h = Some (Some reason, h'))
      \<longleftrightarrow> (\<exists>i\<in>set is. ends_session busID i)"
    by blast
qed (rule waitForSessionEnd_waits, simp, simp add: ends_session_def)

theorem session_end_signals_witness:
  "waitForSessionEnd ''1-1'' True True [SelPoll (Inl [OtherErr 0]), SelEvent None (Some (Inr True))]
     (new_sessionHandle sample_session ''p'' 1) = Some (None, new_sessionHandle sample_session ''p'' 1)"
proof -
  have "cleanupDone (new_sessionHandle sample_session ''p'' 1)
      \<longrightarrow> cleanupClaimed (new_sessionHandle sample_session ''p'' 1)"
    by (simp add: new_sessionHandle_def)
  from session_end_signals [OF this, of "''1-1''" True True
      "[SelPoll (Inl [OtherErr 0]), SelEvent None (Some (Inr True))]"] show ?thesis
    by (simp add: ends_session_def)
qed

text \<open>The accept loop applies its policy to every connection.  As long as Accept does not fail,
  each accepted connection is either handed to a handler or closed at once; only peers the access
  list admits are served, a connection is refused as ACL-rejected only when the list does not
  admit it, and as rate-limited only when the list admits it and a rate limit is configured.\<close>

theorem accept_policy:
  assumes "acceptLoop contains acl bucketAllow bkt rs = (err, served, dropped, bkt')"
    "\<forall>b e. AcceptErr b e \<notin> set rs"
  shows "err = None \<and> length served + length dropped = length rs
    \<and> (\<forall>c\<in>set served. \<exists>ip. Accepted c ip \<in> set rs \<and> acl_allow contains acl ip)
    \<and> (\<forall>(c, why)\<in>set dropped. \<exists>ip. Accepted c ip \<in> set rs
         \<and> (why = OutcomeRejectedACL \<and> \<not> acl_allow contains acl ip
             \<or> why = OutcomeRejectedRate \<and> acl_allow contains acl ip \<and> bkt \<noteq> None))"
  using assms
proof (induction contains acl bucketAllow bkt rs arbitrary: err served dropped bkt' rule: acceptLoop.induct)
  case (3 contains acl bucketAllow bkt conn ip rs)
  obtain ok bkt1 where lm: "acceptLimiter_allow bucketAllow bkt = (ok, bkt1)"
    by fastforce
  have none: "bkt1 = None \<longleftrightarrow> bkt = None" "\<not> ok \<Longrightarrow> bkt \<noteq> None"
    using lm by (auto simp: acceptLimiter_allow_def split: option.splits prod.splits)
  have noerr: "\<forall>b e. AcceptErr b e \<notin> set rs"
    using "3.prems"(2) by simp
  consider (acl) "\<not> acl_allow contains acl ip" | (rate) "acl_allow contains acl ip" "\<not> ok"
    | (served) "acl_allow contains acl ip" ok
    by blast
  thus ?case
  proof cases
    case acl
    then obtain d where d: "acceptLoop contains acl bucketAllow bkt rs = (err, served, d, bkt')"
        "dropped = (conn, OutcomeRejectedACL) # d"
      using "3.prems"(1) by (auto split: prod.splits)
    from "3.IH"(1) [OF acl d(1) noerr] acl d(2) show ?thesis
      by fastforce
  next
    case rate
    then obtain d where d: "acceptLoop contains acl bucketAllow bkt1 rs = (err, served, d, bkt')"
        "dropped = (conn, OutcomeRejectedRate) # d"
      using "3.prems"(1) lm by (auto split: prod.splits)
    from "3.IH"(3) [OF _ lm [symmetric] _ d(1) noerr] rate d(2) none show ?thesis
      by fastforce
  next
    case served
    then obtain sv where d: "acceptLoop contains acl bucketAllow bkt1 rs = (err, sv, dropped, bkt')"
        "served = conn # sv"
      using "3.prems"(1) lm by (auto split: prod.splits)
    from "3.IH"(2) [OF _ lm [symmetric] _ d(1) noerr] served d(2) none show ?thesis
      by fastforce
  qed
qed auto

theorem accept_policy_witness:
  "acceptLoop (\<lambda>n ip. n = ip) [''a''] (\<lambda>b :: nat. (0 < b, b - 1)) (Some 1)
     [Accepted 1 (Some ''a''), Accepted 2 (Some ''b''), Accepted 3 (Some ''a'')]
     = (None, [1], [(2, OutcomeRejectedACL), (3, OutcomeRejectedRate)], Some 0)
   \<and> length [1 :: nat] + length [(2 :: nat, OutcomeRejectedACL), (3, OutcomeRejectedRate)] = 3"
proof -
  have *: "acceptLoop (\<lambda>n ip. n = ip) [''a''] (\<lambda>b :: nat. (0 < b, b - 1)) (Some 1)
     [Accepted 1 (Some ''a''), Accepted 2 (Some ''b''), Accepted 3 (Some ''a'')]
     = (None, [1], [(2, OutcomeRejectedACL), (3, OutcomeRejectedRate)], Some 0)"
    by (simp add: acl_allow_def acceptLimiter_allow_def)
  from accept_policy [OF *] * show ?thesis
    by simp
qed

end
