(* ===== verification/Remote.thy ===== *)
theory Remote
  imports BusID
begin

text \<open>
  \<open>pkg/domain/remote.go\<close>: parsing, validating and printing a peer's endpoint.  The standard
  library's \<open>netip.ParseAddr\<close> (as far as acceptance goes) and \<open>net.JoinHostPort\<close> are modelled
  first.  The theory shows that printing and parsing are inverse on valid endpoints and that
  whatever the parser accepts passes \<open>Validate\<close>.
\<close>

section \<open>strings and net\<close>

definition IndexByte :: "string \<Rightarrow> char \<Rightarrow> nat option" where
  "IndexByte s c =
     (let k = length (takeWhile (\<lambda>x. x \<noteq> c) s) in if k = length s then None else Some k)"

definition LastIndexByte :: "string \<Rightarrow> char \<Rightarrow> nat option" where
  "LastIndexByte s c =
     (let k = length (takeWhile (\<lambda>x. x \<noteq> c) (rev s))
      in if k = length s then None else Some (length s - 1 - k))"

definition JoinHostPort :: "string \<Rightarrow> string \<Rightarrow> string" where
  "JoinHostPort host port =
     (if CHR '':'' \<in> set host then ''['' @ host @ '']:'' @ port else host @ '':'' @ port)"

text \<open>The dotted quad of \<open>netip\<close>: position, value and number of digits of the field being read.\<close>

fun parseIPv4Fields :: "nat \<Rightarrow> nat \<Rightarrow> nat \<Rightarrow> string \<Rightarrow> bool" where
  "parseIPv4Fields pos v digLen [] \<longleftrightarrow> 3 \<le> pos"
| "parseIPv4Fields pos v digLen (c # cs) =
     (if is_digit c then
        \<not> (digLen = 1 \<and> v = 0) \<and> v * 10 + (of_char c - 48) \<le> 255
        \<and> parseIPv4Fields pos (v * 10 + (of_char c - 48)) (Suc digLen) cs
      else c = CHR ''.'' \<and> digLen \<noteq> 0 \<and> cs \<noteq> [] \<and> pos \<noteq> 3 \<and> parseIPv4Fields (Suc pos) 0 0 cs)"

definition is_hex :: "char \<Rightarrow> bool" where
  "is_hex c \<longleftrightarrow> is_digit c \<or> (CHR ''a'' \<le> c \<and> c \<le> CHR ''f'') \<or> (CHR ''A'' \<le> c \<and> c \<le> CHR ''F'')"

text \<open>The field loop of \<open>netip.parseIPv6\<close>: \<open>i\<close> bytes are filled, \<open>ell\<close> tells whether \<open>::\<close> was
  seen; the result is the state after the loop.\<close>

function ipv6_loop :: "nat \<Rightarrow> bool \<Rightarrow> string \<Rightarrow> (nat \<times> bool \<times> string) option" where
  "ipv6_loop i ell s =
     (if 16 \<le> i then Some (i, ell, s)
      else let hex = takeWhile is_hex s; rest = dropWhile is_hex s
        in if hex = [] \<or> 4 < length hex then None
           else case rest of
             [] \<Rightarrow> Some (i + 2, ell, [])
           | c # t \<Rightarrow>
               if c = CHR ''.'' then
                 (if \<not> ell \<and> i \<noteq> 12 then None
                  else if 16 < i + 4 then None
                  else if parseIPv4Fields 0 0 0 s then Some (i + 4, ell, []) else None)
               else if c \<noteq> CHR '':'' \<or> t = [] then None
               else if hd t = CHR '':'' then
                 (if ell then None
                  else if tl t = [] then Some (i + 2, True, [])
                  else ipv6_loop (i + 2) True (tl t))
               else ipv6_loop (i + 2) ell t)"
  by pat_completeness auto
termination
  by (relation "measure (\<lambda>(i, _). 16 - i)") auto

declare ipv6_loop.simps [simp del]

definition ipv6_finish :: "(nat \<times> bool \<times> string) option \<Rightarrow> bool" where
  "ipv6_finish r =
     (case r of None \<Rightarrow> False
      | Some (i, ell, s) \<Rightarrow> s = [] \<and> (if i < 16 then ell else \<not> ell))"

definition parseIPv6 :: "string \<Rightarrow> bool" where
  "parseIPv6 inp =
     (let body = takeWhile (\<lambda>c. c \<noteq> CHR ''%'') inp; zone = dropWhile (\<lambda>c. c \<noteq> CHR ''%'') inp
      in if zone = ''%'' then False
         else if take 2 body = ''::'' then
           (drop 2 body = [] \<or> ipv6_finish (ipv6_loop 0 True (drop 2 body)))
         else ipv6_finish (ipv6_loop 0 False body))"

definition addr_kind :: "string \<Rightarrow> char option" where
  "addr_kind s = find (\<lambda>c. c = CHR ''.'' \<or> c = CHR '':'' \<or> c = CHR ''%'') s"

text \<open>\<open>netip.ParseAddr\<close> succeeds with an IPv6 address, and \<open>net.ParseIP\<close> succeeds.\<close>

definition ParseAddr_Is6 :: "string \<Rightarrow> bool" where
  "ParseAddr_Is6 s \<longleftrightarrow> addr_kind s = Some (CHR '':'') \<and> parseIPv6 s"

definition net_ParseIP :: "string \<Rightarrow> bool" where
  "net_ParseIP s \<longleftrightarrow>
     (addr_kind s = Some (CHR ''.'') \<and> parseIPv4Fields 0 0 0 s)
     \<or> (ParseAddr_Is6 s \<and> CHR ''%'' \<notin> set s)"

section \<open>remote.go\<close>

definition ipv6MinColons :: nat where
  "ipv6MinColons = 2"

definition hostLabelMaxLen :: nat where
  "hostLabelMaxLen = 63"

definition hostnameMaxLen :: nat where
  "hostnameMaxLen = 253"

definition RemoteEndpoint_String :: "RemoteEndpoint \<Rightarrow> string" where
  "RemoteEndpoint_String r =
     (let port = (if rePort r = 0 then DefaultPort else rePort r)
      in JoinHostPort (reHost r) (FormatUint (unat port)))"

definition NormalizePort :: "RemoteEndpoint \<Rightarrow> RemoteEndpoint" where
  "NormalizePort r = (if rePort r = 0 then r\<lparr>rePort := DefaultPort\<rparr> else r)"

text \<open>The control runes: C0, DEL and C1.\<close>

definition control_runes :: "string list" where
  "control_runes = map (\<lambda>n. [char_of n]) [0..<32] @ [[CHR 0x7F]]
     @ map (\<lambda>n. [CHR 0xC2, char_of n]) [128..<160]"

text \<open>UTF-8 is self-synchronising: the loop over runes meets a rune exactly where its encoding
  stands.\<close>

definition hostCharClassCheck :: "string \<Rightarrow> go_error option" where
  "hostCharClassCheck h =
     (if list_ex (\<lambda>n. list_ex (HasPrefix (drop n h)) (space_runes @ control_runes)) [0..<length h]
      then Some [Dom ErrInvalidRemote] else None)"

definition isHostLabelChar :: "char \<Rightarrow> bool" where
  "isHostLabelChar r \<longleftrightarrow>
     (CHR ''a'' \<le> r \<and> r \<le> CHR ''z'') \<or> (CHR ''A'' \<le> r \<and> r \<le> CHR ''Z'')
     \<or> (CHR ''0'' \<le> r \<and> r \<le> CHR ''9'') \<or> r = CHR ''-''"

definition validateHostLabelRune :: "string \<Rightarrow> char \<Rightarrow> nat \<Rightarrow> go_error option" where
  "validateHostLabelRune label r i =
     (if \<not> isHostLabelChar r then Some [Dom ErrInvalidRemote]
      else if r = CHR ''-'' \<and> (i = 0 \<or> i = length label - 1) then Some [Dom ErrInvalidRemote]
      else None)"

fun firstError :: "('a \<Rightarrow> go_error option) \<Rightarrow> 'a list \<Rightarrow> go_error option" where
  "firstError f [] = None"
| "firstError f (x # xs) = (case f x of Some e \<Rightarrow> Some e | None \<Rightarrow> firstError f xs)"

definition validateHostLabel :: "string \<Rightarrow> go_error option" where
  "validateHostLabel label =
     (if label = [] then Some [Dom ErrInvalidRemote]
      else if hostLabelMaxLen < length label then Some [Dom ErrInvalidRemote]
      else firstError (\<lambda>(r, i). validateHostLabelRune label r i) (zip label [0..<length label]))"

definition validateHostnameLabels :: "string \<Rightarrow> go_error option" where
  "validateHostnameLabels h =
     (let labeled = TrimSuffix h ''.''
      in if labeled = [] then Some [Dom ErrInvalidRemote]
         else if hostnameMaxLen < length labeled then Some [Dom ErrInvalidRemote]
         else firstError validateHostLabel (split_on (CHR ''.'') labeled))"

definition validateHost :: "string \<Rightarrow> go_error option" where
  "validateHost h =
     (if h = [] then Some [Dom ErrInvalidRemote]
      else case hostCharClassCheck h of
        Some e \<Rightarrow> Some e
      | None \<Rightarrow>
          if ipv6MinColons \<le> count_list h (CHR '':'') then
            (if ParseAddr_Is6 h then None else Some [Dom ErrInvalidRemote])
          else if net_ParseIP h then None
          else validateHostnameLabels h)"

definition RemoteEndpoint_Validate :: "RemoteEndpoint \<Rightarrow> go_error option" where
  "RemoteEndpoint_Validate r = validateHost (reHost r)"

definition splitBracketedIPv6 :: "string \<Rightarrow> go_error + (string \<times> string \<times> bool)" where
  "splitBracketedIPv6 s =
     (case IndexByte s (CHR '']'') of
        None \<Rightarrow> Inl [Dom ErrInvalidRemote]
      | Some closeIdx \<Rightarrow>
          let host = tl (take closeIdx s); rest = drop (Suc closeIdx) s
          in if \<not> ParseAddr_Is6 host then Inl [Dom ErrInvalidRemote]
             else if rest = [] then Inr (host, [], False)
             else if HasPrefix rest '':'' then Inr (host, tl rest, True)
             else Inl [Dom ErrInvalidRemote])"

definition splitHostPort :: "string \<Rightarrow> go_error + (string \<times> string \<times> bool)" where
  "splitHostPort s =
     (if HasPrefix s ''['' then splitBracketedIPv6 s
      else if ipv6MinColons \<le> count_list s (CHR '':'') then Inr (s, [], False)
      else case LastIndexByte s (CHR '':'') of
        Some idx \<Rightarrow> Inr (take idx s, drop (Suc idx) s, True)
      | None \<Rightarrow> Inr (s, [], False))"

definition parseRemoteWithPort :: "string \<Rightarrow> string \<Rightarrow> go_error + RemoteEndpoint" where
  "parseRemoteWithPort host portStr =
     (case ParseUint portStr 10 16 of
        Inl e \<Rightarrow> Inl (Dom ErrInvalidRemote # e)
      | Inr port \<Rightarrow>
          if port = 0 then Inl [Dom ErrInvalidRemote]
          else Inr \<lparr>reHost = host, rePort = of_nat port\<rparr>)"

definition ParseRemote :: "string \<Rightarrow> go_error + RemoteEndpoint" where
  "ParseRemote s0 =
     (let s = TrimSpace s0
      in if s = [] then Inl [Dom ErrInvalidRemote]
         else case splitHostPort s of
           Inl e \<Rightarrow> Inl e
         | Inr (host, portStr, portPresent) \<Rightarrow>
             if host = [] then Inl [Dom ErrInvalidRemote]
             else case validateHost host of
               Some e \<Rightarrow> Inl e
             | None \<Rightarrow>
                 if \<not> portPresent then Inr \<lparr>reHost = host, rePort = DefaultPort\<rparr>
                 else parseRemoteWithPort host portStr)"

section \<open>Lemmas\<close>

lemma firstError_None: "firstError f xs = None \<longleftrightarrow> (\<forall>x\<in>set xs. f x = None)"
  by (induction xs) (auto split: option.splits)

lemma parseIPv4Fields_chars: "parseIPv4Fields p v d s \<Longrightarrow> c \<in> set s \<Longrightarrow> is_digit c \<or> c = CHR ''.''"
  by (induction p v d s rule: parseIPv4Fields.induct) (auto split: if_splits)

text \<open>Every IPv6 text has at least two colons.\<close>

lemma ipv6_loop_colons:
  assumes "ipv6_finish (ipv6_loop i False s)" "i \<le> 10"
  shows "CHR '':'' \<in> set s \<and> (i \<le> 8 \<longrightarrow> 2 \<le> count_list s (CHR '':''))"
  using assms
proof (induction "16 - i" arbitrary: i s rule: less_induct)
  case less
  let ?r = "dropWhile is_hex s"
  have s: "s = takeWhile is_hex s @ ?r"
    by simp
  have ne: "?r \<noteq> []"
  proof
    assume "?r = []"
    thus False
      using less.prems
      by (simp add: ipv6_loop.simps [of i] ipv6_finish_def Let_def del: dropWhile_eq_Nil_conv
          split: if_splits)
  qed
  then obtain c t where r: "?r = c # t"
    by (cases ?r) auto
  have hd: "c = CHR '':''" "t \<noteq> []"
    using less.prems
    by (auto simp: ipv6_loop.simps [of i] ipv6_finish_def Let_def r split: if_splits)
  have cnt: "count_list s (CHR '':'') = count_list (takeWhile is_hex s) (CHR '':'') + 1
      + count_list t (CHR '':'')"
    using arg_cong [OF s, of "\<lambda>x. count_list x (CHR '':'')"] by (simp add: r hd)
  have mem: "CHR '':'' \<in> set s"
    using cnt count_notin by fastforce
  show ?case
  proof (cases "hd t = CHR '':''")
    case True
    hence "count_list t (CHR '':'') \<noteq> 0"
      using hd(2) by (cases t) auto
    thus ?thesis
      using cnt mem by auto
  next
    case False
    hence rec: "ipv6_finish (ipv6_loop (i + 2) False t)"
      using less.prems hd
      by (simp add: ipv6_loop.simps [of i] Let_def r split: if_splits)
        (simp add: ipv6_finish_def)
    have "count_list t (CHR '':'') \<noteq> 0" if "i \<le> 8"
      using less.hyps [OF _ rec] that count_list_0_iff by fastforce
    thus ?thesis
      using cnt mem by auto
  qed
qed

lemma ParseAddr_Is6_colons: "ParseAddr_Is6 s \<Longrightarrow> 2 \<le> count_list s (CHR '':'')"
proof -
  assume "ParseAddr_Is6 s"
  hence p: "parseIPv6 s"
    by (simp add: ParseAddr_Is6_def)
  let ?b = "takeWhile (\<lambda>c. c \<noteq> CHR ''%'') s"
  have le: "count_list ?b (CHR '':'') \<le> count_list s (CHR '':'')"
    using count_list_append [of ?b "dropWhile (\<lambda>c. c \<noteq> CHR ''%'') s" "CHR '':''"] by simp
  have "2 \<le> count_list ?b (CHR '':'')"
  proof (cases "take 2 ?b = ''::''")
    case True
    have "count_list ?b (CHR '':'') = count_list (take 2 ?b) (CHR '':'') + count_list (drop 2 ?b) (CHR '':'')"
      by (metis append_take_drop_id count_list_append)
    thus ?thesis
      using True by simp
  next
    case False
    thus ?thesis
      using p ipv6_loop_colons [of 0 ?b] by (auto simp: parseIPv6_def Let_def split: if_splits)
  qed
  thus ?thesis
    using le by linarith
qed

definition host_char :: "char \<Rightarrow> bool" where
  "host_char c \<longleftrightarrow> isHostLabelChar c \<or> c = CHR ''.''"

lemma split_on_cover: "c \<in> set s \<Longrightarrow> c \<noteq> sep \<Longrightarrow> \<exists>w\<in>set (split_on sep s). c \<in> set w"
proof (induction s)
  case (Cons x s)
  then obtain w ws where w: "split_on sep s = w # ws"
    by (cases "split_on sep s") auto
  show ?case
    using Cons by (cases "c = x") (auto simp: w)
qed simp

lemma validateHostLabel_chars: "validateHostLabel l = None \<Longrightarrow> c \<in> set l \<Longrightarrow> isHostLabelChar c"
proof -
  assume *: "validateHostLabel l = None" "c \<in> set l"
  then obtain i where i: "i < length l" "l ! i = c"
    by (auto simp: in_set_conv_nth)
  hence "(c, i) \<in> set (zip l [0..<length l])"
    by (auto simp: set_zip)
  thus ?thesis
    using * by (auto simp: validateHostLabel_def firstError_None validateHostLabelRune_def
        split: if_splits)
qed

lemma validateHostnameLabels_chars: "validateHostnameLabels h = None \<Longrightarrow> c \<in> set h \<Longrightarrow> host_char c"
proof -
  assume *: "validateHostnameLabels h = None" "c \<in> set h"
  have h: "h = TrimSuffix h ''.'' \<or> h = TrimSuffix h ''.'' @ ''.''"
    by (auto simp: TrimSuffix_def HasSuffix_def) (metis append_take_drop_id)
  show ?thesis
  proof (cases "c = CHR ''.''")
    case False
    hence "c \<in> set (TrimSuffix h ''.'')"
      using * h by (metis Un_iff empty_iff set_append set_ConsD list.set(1))
    then obtain w where "w \<in> set (split_on (CHR ''.'') (TrimSuffix h ''.''))" "c \<in> set w"
      using split_on_cover False by metis
    moreover have "validateHostLabel w = None"
      using * calculation by (auto simp: validateHostnameLabels_def Let_def firstError_None
          split: if_splits)
    ultimately show ?thesis
      using validateHostLabel_chars by (auto simp: host_char_def)
  qed (simp add: host_char_def)
qed

lemma is_digit_host_char: "is_digit c \<Longrightarrow> host_char c"
  by (simp add: is_digit_def host_char_def isHostLabelChar_def)

lemma validateHost_cases:
  assumes "validateHost h = None"
  shows "h \<noteq> [] \<and> (ParseAddr_Is6 h \<or> (\<forall>c\<in>set h. host_char c))"
proof -
  have "\<forall>c\<in>set h. host_char c" if "net_ParseIP h" "count_list h (CHR '':'') < 2"
  proof
    fix c assume "c \<in> set h"
    hence "is_digit c \<or> c = CHR ''.''"
      using that ParseAddr_Is6_colons [of h] parseIPv4Fields_chars [of 0 0 0 h]
      by (auto simp: net_ParseIP_def)
    thus "host_char c"
      using is_digit_host_char by (auto simp: host_char_def)
  qed
  thus ?thesis
    using assms validateHostnameLabels_chars
    by (auto simp: validateHost_def ipv6MinColons_def split: if_splits option.splits)
qed

lemma host_char_plain:
  assumes "host_char c"
  shows "c \<noteq> CHR '':'' \<and> c \<noteq> CHR ''['' \<and> \<not> space_byte c"
  using assms
  by (auto simp: host_char_def isHostLabelChar_def space_byte_def less_eq_char_def)

lemma FormatUint_chars: "c \<in> set (FormatUint n) \<Longrightarrow> is_digit c"
  using set_FormatUint by (simp add: is_digit_def)

lemma digit_plain: "is_digit c \<Longrightarrow> c \<noteq> CHR '':'' \<and> \<not> space_byte c"
  using host_char_plain is_digit_host_char by blast

lemma takeWhile_neq: "c \<notin> set a \<Longrightarrow> takeWhile (\<lambda>x. x \<noteq> c) (a @ c # b) = a"
  by (intro takeWhile_append_stop) auto

lemma IndexByte_append: "c \<notin> set a \<Longrightarrow> IndexByte (a @ c # b) c = Some (length a)"
  by (simp add: IndexByte_def takeWhile_neq Let_def)

lemma LastIndexByte_append: "c \<notin> set b \<Longrightarrow> LastIndexByte (a @ c # b) c = Some (length a)"
  using takeWhile_neq [of c "rev b" "rev a"] by (simp add: LastIndexByte_def Let_def)

section \<open>Properties\<close>

lemma validateHost_bytes:
  assumes "validateHost h = None" "\<not> ParseAddr_Is6 h"
  shows "CHR '':'' \<notin> set h \<and> \<not> HasPrefix (h @ r) ''['' \<and> \<not> space_byte (hd h)"
  using validateHost_cases [OF assms(1)] assms(2) host_char_plain
  by (cases h) (auto simp: HasPrefix_def)

lemma parseRemoteWithPort_Format:
  "p \<noteq> 0 \<Longrightarrow> parseRemoteWithPort h (FormatUint (unat p)) = Inr \<lparr>reHost = h, rePort = p\<rparr>"
proof -
  assume "p \<noteq> 0"
  moreover have "unat p < 2 ^ 16"
    using unsigned_less [of p, where 'a = nat] by simp
  ultimately show ?thesis
    using ParseUint_FormatUint [of "unat p" 16] by (simp add: parseRemoteWithPort_def unat_eq_0)
qed

lemma splitHostPort_plain:
  assumes "validateHost h = None" "\<not> ParseAddr_Is6 h"
  shows "splitHostPort (h @ CHR '':'' # FormatUint n) = Inr (h, FormatUint n, True)"
proof -
  have "CHR '':'' \<notin> set (FormatUint n)"
    using FormatUint_chars digit_plain by blast
  moreover note validateHost_bytes [OF assms, of "CHR '':'' # FormatUint n"]
  ultimately show ?thesis
    by (simp add: splitHostPort_def ipv6MinColons_def LastIndexByte_append)
qed

lemma splitHostPort_bracketed:
  assumes "ParseAddr_Is6 h" "CHR '']'' \<notin> set h"
  shows "splitHostPort (''['' @ h @ '']:'' @ p) = Inr (h, p, True)"
proof -
  have "IndexByte ((''['' @ h) @ CHR '']'' # CHR '':'' # p) (CHR '']'') = Some (length (''['' @ h))"
    using assms(2) by (intro IndexByte_append) auto
  thus ?thesis
    using assms(1) by (simp add: splitHostPort_def HasPrefix_def splitBracketedIPv6_def)
qed

lemma TrimSpace_JoinHostPort:
  assumes "validateHost h = None"
  shows "TrimSpace (JoinHostPort h (FormatUint n)) = JoinHostPort h (FormatUint n)"
proof (rule TrimSpace_plain)
  have "\<not> space_byte (last (FormatUint n))"
    using FormatUint_chars [of "last (FormatUint n)" n] digit_plain by simp
  thus "\<not> space_byte (last (JoinHostPort h (FormatUint n)))"
    by (simp add: JoinHostPort_def)
  show "\<not> space_byte (hd (JoinHostPort h (FormatUint n)))"
  proof (cases "ParseAddr_Is6 h")
    case True
    thus ?thesis
      using ParseAddr_Is6_colons [OF True] count_notin [of "CHR '':''" h]
      by (auto simp: JoinHostPort_def space_byte_def)
  next
    case False
    thus ?thesis
      using validateHost_bytes [OF assms False] validateHost_cases [OF assms]
      by (simp add: JoinHostPort_def)
  qed
qed (simp add: JoinHostPort_def)

lemma ParseRemote_String:
  assumes "RemoteEndpoint_Validate r = None" "CHR '']'' \<notin> set (reHost r)"
  shows "ParseRemote (RemoteEndpoint_String r) = Inr (NormalizePort r)"
proof -
  let ?p = "if rePort r = 0 then DefaultPort else rePort r"
  have v: "validateHost (reHost r) = None" and p0: "?p \<noteq> 0"
    using assms(1) by (simp_all add: RemoteEndpoint_Validate_def DefaultPort_def)
  have split: "splitHostPort (JoinHostPort (reHost r) (FormatUint (unat ?p)))
      = Inr (reHost r, FormatUint (unat ?p), True)"
  proof (cases "ParseAddr_Is6 (reHost r)")
    case True
    moreover have "CHR '':'' \<in> set (reHost r)"
      using ParseAddr_Is6_colons [OF True] count_notin by fastforce
    ultimately show ?thesis
      using splitHostPort_bracketed [OF True assms(2)] by (simp add: JoinHostPort_def)
  next
    case False
    show ?thesis
      using splitHostPort_plain [OF v False] validateHost_bytes [OF v False]
      by (simp add: JoinHostPort_def)
  qed
  show ?thesis
    using TrimSpace_JoinHostPort [OF v] split v parseRemoteWithPort_Format [OF p0] validateHost_cases [OF v]
    by (simp add: ParseRemote_def RemoteEndpoint_String_def Let_def NormalizePort_def JoinHostPort_def)
qed

lemma ParseRemote_sound:
  assumes "ParseRemote s = Inr r"
  shows "RemoteEndpoint_Validate r = None \<and> rePort r \<noteq> 0"
proof -
  have "rePort r \<noteq> 0" if ok: "parseRemoteWithPort h p = Inr r" for h p
  proof -
    obtain n where n: "ParseUint p 10 16 = Inr n" "n \<noteq> 0" "rePort r = of_nat n"
      using ok by (auto simp: parseRemoteWithPort_def split: sum.splits if_splits)
    hence "n < 65536"
      using ParseUint_bound [OF n(1)] by simp
    thus ?thesis
      using n(2,3) by (simp add: word_of_nat_eq_0_iff nat_dvd_not_less)
  qed
  moreover have "reHost r = h" if "parseRemoteWithPort h p = Inr r" for h p
    using that by (auto simp: parseRemoteWithPort_def split: sum.splits if_splits)
  ultimately show ?thesis
    using assms
    by (auto simp: ParseRemote_def RemoteEndpoint_Validate_def Let_def DefaultPort_def
        split: sum.splits if_splits option.splits)
qed

text \<open>Printing a valid endpoint and parsing the text gives back the endpoint with its port
  normalised (only a host that contains a closing bracket, which an IPv6 zone may, is excluded);
  and every endpoint the parser accepts passes \<open>Validate\<close> and has a port other than 0.\<close>
theorem remote_roundtrip:
  "(RemoteEndpoint_Validate r = None \<and> CHR '']'' \<notin> set (reHost r) \<longrightarrow>
      ParseRemote (RemoteEndpoint_String r) = Inr (NormalizePort r))
   \<and> (ParseRemote s = Inr r \<longrightarrow> RemoteEndpoint_Validate r = None \<and> rePort r \<noteq> 0)"
  using ParseRemote_String ParseRemote_sound by blast

theorem remote_roundtrip_witness:
  "(let r = \<lparr>reHost = ''fe80::1%eth0'', rePort = 8080\<rparr>
    in ParseRemote (RemoteEndpoint_String r) = Inr r \<and> rePort r \<noteq> 0)
   \<and> RemoteEndpoint_Validate \<lparr>reHost = ''usb.example.'', rePort = 0\<rparr> = None"
proof -
  let ?r = "\<lparr>reHost = ''fe80::1%eth0'', rePort = 8080\<rparr>"
  have "RemoteEndpoint_Validate ?r = None"
    by code_simp
  hence "ParseRemote (RemoteEndpoint_String ?r) = Inr ?r"
    using remote_roundtrip [of ?r "[]"] by (simp add: NormalizePort_def)
  moreover have "RemoteEndpoint_Validate \<lparr>reHost = ''usb.example.'', rePort = 0\<rparr> = None"
    by code_simp
  ultimately show ?thesis
    using remote_roundtrip [of ?r "RemoteEndpoint_String ?r"] by (simp add: Let_def)
qed

end
