(* ===== verification/Importer_State.thy ===== *)
theory Importer_State
  imports Remote Exporter_Limits "HOL-Library.Monad_Syntax"
begin

text \<open>
  \<open>internal/app/importer.go\<close>: the state of the Importer and every critical section on it.  The Go
  pointers \<open>*portHandle\<close>, \<open>*attachReservation\<close> and \<open>*detachAttempt\<close> are addresses into three
  heaps that only grow, so that pointer equality is equality of addresses.  A channel that is only
  ever closed is a flag.  \<open>None\<close> as a result of an operation is a panic of the source: closing a
  closed channel, or a negative \<open>lifecycleWaitGroup\<close>.
\<close>

section \<open>lifecycleWaitGroup\<close>

text \<open>\<open>wgDrained\<close>: the channel is nil, open or closed.\<close>

record lifecycleWaitGroup =
  wgCount :: int
  wgDrained :: "bool option"

definition wg_Add :: "lifecycleWaitGroup \<Rightarrow> int \<Rightarrow> lifecycleWaitGroup option" where
  "wg_Add g delta =
     (if delta = 0 then Some g
      else
        let g1 = (if 0 < delta \<and> wgCount g = 0 then g\<lparr>wgDrained := Some False\<rparr> else g);
            n = wgCount g1 + delta
        in if n < 0 then None
           else if n = 0 then
             (if wgDrained g1 = Some False then Some (g1\<lparr>wgCount := n, wgDrained := Some True\<rparr>) else None)
           else Some (g1\<lparr>wgCount := n\<rparr>))"

definition wg_Done :: "lifecycleWaitGroup \<Rightarrow> lifecycleWaitGroup option" where
  "wg_Done g = wg_Add g (- 1)"

text \<open>\<open>DoneChan\<close>: a nil channel is replaced by a closed one; the result is whether it is closed.\<close>

definition wg_DoneChan :: "lifecycleWaitGroup \<Rightarrow> bool \<times> lifecycleWaitGroup" where
  "wg_DoneChan g =
     (case wgDrained g of
        None \<Rightarrow> (True, g\<lparr>wgDrained := Some True\<rparr>)
      | Some isClosed \<Rightarrow> (isClosed, g))"

definition wg_ok :: "lifecycleWaitGroup \<Rightarrow> nat \<Rightarrow> bool" where
  "wg_ok g n \<longleftrightarrow> wgCount g = int n \<and> (if n = 0 then wgDrained g \<noteq> Some False else wgDrained g = Some False)"

lemma wg_Add_1: "wg_ok g n \<Longrightarrow> \<exists>g'. wg_Add g 1 = Some g' \<and> wg_ok g' (Suc n)"
  by (auto simp: wg_ok_def wg_Add_def Let_def split: if_splits)

lemma wg_Done_ok: "wg_ok g (Suc n) \<Longrightarrow> \<exists>g'. wg_Done g = Some g' \<and> wg_ok g' n"
  by (auto simp: wg_ok_def wg_Done_def wg_Add_def Let_def)

section \<open>Records\<close>

text \<open>\<open>phWatcherDone\<close>: nil without AutoReconnect, otherwise whether the watcher has exited.\<close>

record portHandle =
  phDone :: bool
  phBusID :: string
  phRemote :: RemoteEndpoint
  phGeneration :: u64
  phWatcherDone :: "bool option"
  phShutdownTimeout :: int
  phDetaching :: bool
  phDetachAttempt :: "nat option"
  phLastKnownPort :: Port

record attachReservation =
  arID :: PortID
  arDone :: bool
  arShutdownTimeout :: int
  arTeardownRequested :: bool
  arDetachAttempt :: "nat option"

record detachAttempt =
  daDone :: bool
  daErr :: "go_error option"

record detachTarget =
  dtHandle :: "nat option"
  dtAttempt :: "nat option"
  dtReservation :: "nat option"
  dtUntracked :: bool
  dtOwner :: bool

type_synonym attachKey = "RemoteEndpoint \<times> string"

record Importer =
  iClosed :: bool
  iHandles :: "PortID \<rightharpoonup> nat"
  iReservations :: "PortID \<rightharpoonup> nat"
  iUntracked :: "PortID \<rightharpoonup> nat"
  iInFlight :: "attachKey list"
  iNextGen :: u64
  iWg :: lifecycleWaitGroup
  iHandleHeap :: "portHandle list"
  iResHeap :: "attachReservation list"
  iAttHeap :: "detachAttempt list"

definition NewImporter :: Importer where
  "NewImporter =
     \<lparr>iClosed = False, iHandles = Map.empty, iReservations = Map.empty, iUntracked = Map.empty,
      iInFlight = [], iNextGen = 0, iWg = \<lparr>wgCount = 0, wgDrained = None\<rparr>,
      iHandleHeap = [], iResHeap = [], iAttHeap = []\<rparr>"

definition zeroPort :: Port where
  "zeroPort = \<lparr>pID = 0, pStatus = 0, pSpeed = 0, pDeviceID = 0,
     pRemote = \<lparr>reHost = [], rePort = 0\<rparr>, pBusID = [], pLocalBusID = []\<rparr>"

section \<open>Handles, reservations and attempts\<close>

definition upd_handle :: "Importer \<Rightarrow> nat \<Rightarrow> (portHandle \<Rightarrow> portHandle) \<Rightarrow> Importer" where
  "upd_handle i h f = i\<lparr>iHandleHeap := (iHandleHeap i)[h := f (iHandleHeap i ! h)]\<rparr>"

definition upd_res :: "Importer \<Rightarrow> nat \<Rightarrow> (attachReservation \<Rightarrow> attachReservation) \<Rightarrow> Importer" where
  "upd_res i r f = i\<lparr>iResHeap := (iResHeap i)[r := f (iResHeap i ! r)]\<rparr>"

definition portHandle_cancel :: "Importer \<Rightarrow> nat \<Rightarrow> Importer" where
  "portHandle_cancel i h = upd_handle i h (\<lambda>x. x\<lparr>phDone := True\<rparr>)"

definition attachReservation_finish :: "Importer \<Rightarrow> nat \<Rightarrow> Importer" where
  "attachReservation_finish i r = upd_res i r (\<lambda>x. x\<lparr>arDone := True\<rparr>)"

definition wg_add_i :: "Importer \<Rightarrow> int \<Rightarrow> Importer option" where
  "wg_add_i i delta = map_option (\<lambda>g. i\<lparr>iWg := g\<rparr>) (wg_Add (iWg i) delta)"

definition wg_done_i :: "Importer \<Rightarrow> Importer option" where
  "wg_done_i i = map_option (\<lambda>g. i\<lparr>iWg := g\<rparr>) (wg_Done (iWg i))"

definition new_detachAttempt :: "Importer \<Rightarrow> nat \<times> Importer" where
  "new_detachAttempt i =
     (length (iAttHeap i), i\<lparr>iAttHeap := iAttHeap i @ [\<lparr>daDone = False, daErr = None\<rparr>]\<rparr>)"

definition acquireDetachAttempt :: "Importer \<Rightarrow> nat \<Rightarrow> nat \<times> bool \<times> Importer" where
  "acquireDetachAttempt i h =
     (case phDetachAttempt (iHandleHeap i ! h) of
        Some a \<Rightarrow> (a, False, i)
      | None \<Rightarrow>
          let (a, i) = new_detachAttempt i
          in (a, True, upd_handle i h (\<lambda>x. x\<lparr>phDetachAttempt := Some a\<rparr>)))"

text \<open>Storing the result and closing the channel of an attempt.\<close>

definition complete_attempt :: "Importer \<Rightarrow> nat \<Rightarrow> go_error option \<Rightarrow> Importer option" where
  "complete_attempt i a err =
     (if daDone (iAttHeap i ! a) then None
      else Some (i\<lparr>iAttHeap := (iAttHeap i)[a := \<lparr>daDone = True, daErr = err\<rparr>]\<rparr>))"

definition finishDetachAttempt :: "Importer \<Rightarrow> nat \<Rightarrow> nat \<Rightarrow> go_error option \<Rightarrow> Importer option" where
  "finishDetachAttempt i h a err = do {
     i \<leftarrow> complete_attempt i a err;
     Some (if err \<noteq> None \<and> phDetachAttempt (iHandleHeap i ! h) = Some a
           then upd_handle i h (\<lambda>x. x\<lparr>phDetachAttempt := None\<rparr>) else i) }"

text \<open>\<open>waitDetachAttempt\<close>: \<open>a0\<close> is the attempt at the first look, \<open>ctx\<close> is the context error if its
  arm won the select, \<open>a1\<close> the attempt when the select ended.\<close>

definition waitDetachAttempt :: "detachAttempt \<Rightarrow> go_error option \<Rightarrow> detachAttempt \<Rightarrow> go_error option" where
  "waitDetachAttempt a0 ctx a1 =
     (if daDone a0 then daErr a0
      else case ctx of
        None \<Rightarrow> daErr a1
      | Some ctxErr \<Rightarrow> if daDone a1 then daErr a1 else Some ctxErr)"

section \<open>Detach\<close>

definition acquireDetachTarget :: "Importer \<Rightarrow> PortID \<Rightarrow> ((go_error + detachTarget) \<times> Importer) option" where
  "acquireDetachTarget i p =
     (if iClosed i then Some (Inl [App ErrImporterClosed], i)
      else case iReservations i p of
        Some r \<Rightarrow>
          let i = (case iHandles i p of
                     Some h \<Rightarrow> portHandle_cancel (upd_handle i h (\<lambda>x. x\<lparr>phDetaching := True\<rparr>)) h
                   | None \<Rightarrow> i);
              i = upd_res i r (\<lambda>x. x\<lparr>arTeardownRequested := True\<rparr>)
          in Some (Inr \<lparr>dtHandle = None, dtAttempt = None, dtReservation = Some r,
                        dtUntracked = False, dtOwner = False\<rparr>, i)
      | None \<Rightarrow>
          (case iHandles i p of
             Some h \<Rightarrow>
               let (a, owner, i) = acquireDetachAttempt i h;
                   t = \<lparr>dtHandle = Some h, dtAttempt = Some a, dtReservation = None,
                        dtUntracked = False, dtOwner = owner\<rparr>
               in if owner then do {
                    i \<leftarrow> wg_add_i i 1;
                    Some (Inr t, upd_handle i h (\<lambda>x. x\<lparr>phDetaching := True\<rparr>)) }
                  else Some (Inr t, i)
           | None \<Rightarrow>
               (case iUntracked i p of
                  Some a \<Rightarrow>
                    Some (Inr \<lparr>dtHandle = None, dtAttempt = Some a, dtReservation = None,
                               dtUntracked = True, dtOwner = False\<rparr>, i)
                | None \<Rightarrow>
                    let (a, i) = new_detachAttempt i;
                        i = i\<lparr>iUntracked := (iUntracked i)(p \<mapsto> a)\<rparr>
                    in do {
                      i \<leftarrow> wg_add_i i 1;
                      Some (Inr \<lparr>dtHandle = None, dtAttempt = Some a, dtReservation = None,
                                 dtUntracked = True, dtOwner = True\<rparr>, i) })))"

definition deleteExactHandle :: "Importer \<Rightarrow> PortID \<Rightarrow> nat \<Rightarrow> Importer" where
  "deleteExactHandle i p h =
     (if iHandles i p = Some h then i\<lparr>iHandles := (iHandles i)(p := None)\<rparr> else i)"

text \<open>What \<open>finishUntrackedDetach\<close> does under the mutex; \<open>wg.Done\<close> follows after the unlock.\<close>

definition finishUntracked_locked :: "Importer \<Rightarrow> PortID \<Rightarrow> nat \<Rightarrow> go_error option \<Rightarrow> Importer option" where
  "finishUntracked_locked i p a err = do {
     i \<leftarrow> complete_attempt i a err;
     Some (if iUntracked i p = Some a then i\<lparr>iUntracked := (iUntracked i)(p := None)\<rparr> else i) }"

definition finishUntrackedDetach :: "Importer \<Rightarrow> PortID \<Rightarrow> nat \<Rightarrow> go_error option \<Rightarrow> Importer option" where
  "finishUntrackedDetach i p a err = do {
     i \<leftarrow> finishUntracked_locked i p a err;
     wg_done_i i }"

text \<open>\<open>detachHandle\<close> after the watcher wait: whether the entry is still this handle, and what the
  kernel's answer does to the map.\<close>

definition stillOurs :: "Importer \<Rightarrow> PortID \<Rightarrow> nat \<Rightarrow> bool" where
  "stillOurs i p h \<longleftrightarrow> iHandles i p = Some h"

definition detachHandle_result :: "Importer \<Rightarrow> PortID \<Rightarrow> nat \<Rightarrow> go_error option \<Rightarrow> Importer" where
  "detachHandle_result i p h kerr =
     (case kerr of
        None \<Rightarrow> deleteExactHandle i p h
      | Some e \<Rightarrow> if errors_Is e (Dom ErrDeviceNotBound) then deleteExactHandle i p h else i)"

text \<open>The whole of \<open>detachHandle\<close>: \<open>w\<close> and \<open>k\<close> are what other goroutines do to the state during the
  watcher wait and during \<open>kernel.DetachPort\<close>, \<open>kerr\<close> is the kernel's answer.\<close>

definition detachHandle ::
  "(Importer \<Rightarrow> Importer) \<Rightarrow> (Importer \<Rightarrow> Importer) \<Rightarrow> go_error option \<Rightarrow> Importer \<Rightarrow> PortID \<Rightarrow> nat
     \<Rightarrow> go_error option \<times> Importer" where
  "detachHandle w k kerr i p h =
     (let i = portHandle_cancel i h;
          i = (if phWatcherDone (iHandleHeap i ! h) \<noteq> None then w i else i)
      in if \<not> stillOurs i p h then (None, i)
         else (kerr, detachHandle_result (k i) p h kerr))"

text \<open>\<open>detachExactHandle\<close> up to the unlock: \<open>None\<close> when the entry is not this handle.\<close>

definition detachExactHandle_locked ::
  "Importer \<Rightarrow> PortID \<Rightarrow> nat \<Rightarrow> ((nat \<times> bool) option \<times> Importer) option" where
  "detachExactHandle_locked i p h =
     (if iHandles i p \<noteq> Some h then Some (None, i)
      else
        let (a, owner, i) = acquireDetachAttempt i h
        in if owner then do {
             i \<leftarrow> wg_add_i i 1;
             Some (Some (a, True), upd_handle i h (\<lambda>x. x\<lparr>phDetaching := True\<rparr>)) }
           else Some (Some (a, False), i))"

section \<open>Attach\<close>

definition acquireAttachSlot :: "Importer \<Rightarrow> RemoteEndpoint \<Rightarrow> string \<Rightarrow> ((go_error + unit) \<times> Importer) option"
where
  "acquireAttachSlot i endpoint busID =
     (if iClosed i then Some (Inl [App ErrImporterClosed], i)
      else if (endpoint, busID) \<in> set (iInFlight i)
      then Some (Inl [Dom ErrAttachInProgress], i)
      else do {
        i \<leftarrow> wg_add_i (i\<lparr>iInFlight := (endpoint, busID) # iInFlight i\<rparr>) 1;
        Some (Inr (), i) })"

text \<open>The function \<open>acquireAttachSlot\<close> returns: the part under the mutex, then \<open>wg.Done\<close>.\<close>

definition releaseAttachSlot_locked :: "Importer \<Rightarrow> RemoteEndpoint \<Rightarrow> string \<Rightarrow> Importer" where
  "releaseAttachSlot_locked i endpoint busID =
     i\<lparr>iInFlight := filter (\<lambda>k. k \<noteq> (endpoint, busID)) (iInFlight i)\<rparr>"

definition reserveAttachPort :: "Importer \<Rightarrow> PortID \<Rightarrow> int \<Rightarrow> (go_error + nat) \<times> Importer" where
  "reserveAttachPort i p timeout =
     (if iClosed i then (Inl [App ErrImporterClosed], i)
      else if iReservations i p \<noteq> None then (Inl [Dom ErrAttachInProgress], i)
      else if iUntracked i p \<noteq> None then (Inl [Dom ErrAttachInProgress], i)
      else if (case iHandles i p of Some h \<Rightarrow> phDetaching (iHandleHeap i ! h) | None \<Rightarrow> False)
      then (Inl [Dom ErrAttachInProgress], i)
      else let r = length (iResHeap i)
        in (Inr r,
            i\<lparr>iResHeap := iResHeap i @
                [\<lparr>arID = p, arDone = False, arShutdownTimeout = timeout,
                  arTeardownRequested = False, arDetachAttempt = None\<rparr>],
              iReservations := (iReservations i)(p \<mapsto> r)\<rparr>))"

definition abortAttachReservation :: "Importer \<Rightarrow> nat option \<Rightarrow> Importer" where
  "abortAttachReservation i reservation =
     (case reservation of
        None \<Rightarrow> i
      | Some r \<Rightarrow>
          let p = arID (iResHeap i ! r);
              i = (if iReservations i p = Some r
                   then i\<lparr>iReservations := (iReservations i)(p := None)\<rparr> else i)
          in attachReservation_finish i r)"

definition validateAttachReservationLocked :: "Importer \<Rightarrow> PortID \<Rightarrow> nat option \<Rightarrow> go_error option" where
  "validateAttachReservationLocked i p reservation =
     (case reservation of
        None \<Rightarrow> None
      | Some r \<Rightarrow> if iReservations i p \<noteq> Some r then Some [App ErrAttachPublicationReservationLost] else None)"

definition removeAttachReservationLocked :: "Importer \<Rightarrow> PortID \<Rightarrow> nat option \<Rightarrow> Importer" where
  "removeAttachReservationLocked i p reservation =
     (if reservation \<noteq> None then i\<lparr>iReservations := (iReservations i)(p := None)\<rparr> else i)"

definition completeAttachReservation :: "Importer \<Rightarrow> nat option \<Rightarrow> Importer" where
  "completeAttachReservation i reservation =
     (case reservation of None \<Rightarrow> i | Some r \<Rightarrow> attachReservation_finish i r)"

definition newPortHandleLocked ::
  "Importer \<Rightarrow> PortID \<Rightarrow> string \<Rightarrow> RemoteEndpoint \<Rightarrow> int \<Rightarrow> bool \<Rightarrow> nat \<times> Importer" where
  "newPortHandleLocked i p busID endpoint timeout autoReconnect =
     (let i = (case iHandles i p of Some old \<Rightarrow> portHandle_cancel i old | None \<Rightarrow> i);
          g = iNextGen i + 1
      in (length (iHandleHeap i),
          i\<lparr>iNextGen := g,
            iHandleHeap := iHandleHeap i @
              [\<lparr>phDone = False, phBusID = busID, phRemote = endpoint, phGeneration = g,
                phWatcherDone = (if autoReconnect then Some False else None),
                phShutdownTimeout = timeout, phDetaching = False, phDetachAttempt = None,
                phLastKnownPort = zeroPort\<rparr>]\<rparr>))"

definition teardown_wanted :: "Importer \<Rightarrow> nat option \<Rightarrow> bool" where
  "teardown_wanted i reservation =
     (case reservation of None \<Rightarrow> False | Some r \<Rightarrow> arTeardownRequested (iResHeap i ! r))"

definition prepareAttachCompensationLocked ::
  "Importer \<Rightarrow> nat \<Rightarrow> nat option \<Rightarrow> (nat option \<times> Importer) option" where
  "prepareAttachCompensationLocked i h reservation =
     (case reservation of
        None \<Rightarrow> Some (None, i)
      | Some r \<Rightarrow>
          if \<not> arTeardownRequested (iResHeap i ! r) then Some (None, i)
          else
            let (a, _, i) = acquireDetachAttempt i h;
                i = upd_handle i h (\<lambda>x. x\<lparr>phDetaching := True\<rparr>)
            in do {
              i \<leftarrow> wg_add_i i 1;
              Some (Some a, upd_res i r (\<lambda>x. x\<lparr>arDetachAttempt := Some a\<rparr>)) })"

definition registerHandle ::
  "Importer \<Rightarrow> PortID \<Rightarrow> string \<Rightarrow> RemoteEndpoint \<Rightarrow> int \<Rightarrow> bool \<Rightarrow> nat option
     \<Rightarrow> ((go_error + (nat \<times> nat option)) \<times> Importer) option" where
  "registerHandle i p busID endpoint timeout autoReconnect reservation =
     (case validateAttachReservationLocked i p reservation of
        Some e \<Rightarrow> Some (Inl e, i)
      | None \<Rightarrow>
          if iClosed i then
            Some (Inl [App ErrImporterClosed],
                  completeAttachReservation (removeAttachReservationLocked i p reservation) reservation)
          else
            let compensate = teardown_wanted i reservation;
                (h, i) = newPortHandleLocked i p busID endpoint timeout (autoReconnect \<and> \<not> compensate);
                i = i\<lparr>iHandles := (iHandles i)(p \<mapsto> h)\<rparr>
            in do {
              (compensation, i) \<leftarrow> prepareAttachCompensationLocked i h reservation;
              Some (Inr (h, compensation),
                    completeAttachReservation (removeAttachReservationLocked i p reservation) reservation) })"

section \<open>Close and timeouts\<close>

definition defaultShutdownTimeout :: int where
  "defaultShutdownTimeout = 5 * second"

definition resolveShutdownTimeout :: "int \<Rightarrow> int" where
  "resolveShutdownTimeout t = (if t = 0 then defaultShutdownTimeout else t)"

fun longest_loop :: "int \<Rightarrow> portHandle list \<Rightarrow> int" where
  "longest_loop longest [] = longest"
| "longest_loop longest (h # hs) =
     (if phShutdownTimeout h < 0 then - 1
      else longest_loop (if longest < phShutdownTimeout h then phShutdownTimeout h else longest) hs)"

definition longestShutdownTimeout :: "portHandle list \<Rightarrow> int" where
  "longestShutdownTimeout handles =
     (if handles = [] then defaultShutdownTimeout else longest_loop 0 handles)"

text \<open>\<open>Close\<close> under the mutex, and the cancellation of the handles it collected (\<open>hs\<close>, in the
  order of the map iteration).\<close>

definition Close_locked :: "Importer \<Rightarrow> Importer" where
  "Close_locked i = i\<lparr>iClosed := True\<rparr>"

definition Close_cancel :: "Importer \<Rightarrow> nat list \<Rightarrow> Importer" where
  "Close_cancel i hs = foldl portHandle_cancel i hs"

text \<open>\<open>waitGroupBounded\<close>: how long Close waits for the drain, \<open>None\<close> for ever.\<close>

definition waitGroupBounded :: "portHandle list \<Rightarrow> int option" where
  "waitGroupBounded handles =
     (let timeout = longestShutdownTimeout handles in if timeout < 0 then None else Some timeout)"

definition waitWatcherBounded :: "portHandle \<Rightarrow> int option" where
  "waitWatcherBounded h = (if phShutdownTimeout h < 0 then None else Some (phShutdownTimeout h))"

end
