(* ===== verification/Exporter_Lifecycle.thy ===== *)
theory Exporter_Lifecycle
  imports Exporter_Serve Importer_State
begin

text \<open>
  \<open>internal/app/exporter.go\<close>: \<open>Serve\<close> and \<open>Shutdown\<close> as goroutines that interleave.  Any number of calls of both may
  be in progress; each is a program counter over the locked sections of \<open>Exporter_Registry\<close>, the channel
  \<open>acceptLoopExited\<close>, the contexts and the wait group of the session handlers.  A \<open>Serve\<close> call is a number, which
  also names its context, its cancel function and its channel.
\<close>

section \<open>State\<close>

text \<open>\<open>serveWithListenerFactory\<close>: before \<open>startServing\<close>, in the factory, holding its listener, in the accept loop, past the
  loop, leaving before the loop, past \<open>signalAcceptExited\<close>, and returned.\<close>

datatype serve_pc =
    SvNew | SvReserved | SvFactory nat | SvAccepting nat | SvLooped "go_error option" | SvLeaving "go_error option"
  | SvStopping "go_error option" | SvReturned "go_error option"

text \<open>\<open>Shutdown\<close>: before the capture, and then after each of: the capture, the cancel, the close, the disconnects, the wait for the
  accept loop, the capture of the drain channel, the wait for the sessions.\<close>

datatype shut_pc =
    ShNew | ShCaptured shutdownState | ShCancelled shutdownState | ShClosed shutdownState | ShSpawned shutdownState
  | ShWaited shutdownState | ShDraining shutdownState | ShDrained "go_error option" | ShDone "go_error option"

text \<open>\<open>lcDrained\<close> is the captured drain channel: not yet captured, open, or closed.  While it is open it is the wait group's current
  channel, since the group makes a new one only after closing the old.  \<open>lcHandlers\<close> are the goroutines in that group: session
  handlers, and the watchers of their handshake timeouts, which the handlers start.\<close>

record lifecycle =
  lcE :: Exporter
  lcWG :: lifecycleWaitGroup
  lcDrained :: "bool option"
  lcServe :: "nat \<Rightarrow> serve_pc"
  lcShut :: "nat \<Rightarrow> shut_pc"
  lcExited :: "nat set"
  lcCancelled :: "nat set"
  lcClosed :: "nat set"
  lcHandlers :: nat

abbreviation serve_at :: "lifecycle \<Rightarrow> nat \<Rightarrow> serve_pc \<Rightarrow> lifecycle" where
  "serve_at w s pc \<equiv> w\<lparr>lcServe := (lcServe w)(s := pc)\<rparr>"

abbreviation shut_at :: "lifecycle \<Rightarrow> nat \<Rightarrow> shut_pc \<Rightarrow> lifecycle" where
  "shut_at w k pc \<equiv> w\<lparr>lcShut := (lcShut w)(k := pc)\<rparr>"

section \<open>Serve\<close>

definition serve_start :: "nat \<Rightarrow> lifecycle \<Rightarrow> lifecycle" where
  "serve_start s w =
     (case startServing (lcE w) s s of
        (Inl err, e) \<Rightarrow> (serve_at w s (SvReturned (Some err)))\<lparr>lcCancelled := insert s (lcCancelled w)\<rparr>
      | (Inr _, e) \<Rightarrow> (serve_at w s SvReserved)\<lparr>lcE := e\<rparr>)"

definition serve_factory :: "nat \<Rightarrow> go_error + nat option \<Rightarrow> lifecycle \<Rightarrow> lifecycle" where
  "serve_factory s made w =
     (case made of
        Inl err \<Rightarrow> serve_at w s (SvLeaving (Some err))
      | Inr None \<Rightarrow> serve_at w s (SvLeaving (Some [App ErrListenerFactoryNil]))
      | Inr (Some l) \<Rightarrow> serve_at w s (SvFactory l))"

definition serve_install :: "nat \<Rightarrow> nat \<Rightarrow> lifecycle \<Rightarrow> lifecycle" where
  "serve_install s l w =
     (case installServingListener (lcE w) l of
        (Some err, e) \<Rightarrow> (serve_at w s (SvLeaving (Some err)))\<lparr>lcClosed := insert l (lcClosed w)\<rparr>
      | (None, e) \<Rightarrow> (serve_at w s (SvAccepting l))\<lparr>lcE := e\<rparr>)"

text \<open>\<open>sessionsWG.Go\<close>, for a connection that was accepted or the watcher of its timeout.  \<open>None\<close> would be a panic of the wait group.\<close>

definition serve_dispatch :: "lifecycle \<Rightarrow> lifecycle option" where
  "serve_dispatch w = map_option (\<lambda>g. w\<lparr>lcWG := g, lcHandlers := Suc (lcHandlers w)\<rparr>) (wg_Add (lcWG w) 1)"

text \<open>The end of the accept loop on an error of \<open>Accept\<close>.\<close>

definition serve_accept_error :: "nat \<Rightarrow> go_error \<Rightarrow> lifecycle \<Rightarrow> lifecycle" where
  "serve_accept_error s err w =
     serve_at w s (SvLooped (if acceptShouldStop (s \<in> lcCancelled w) err then None else Some err))"

definition serve_signal :: "nat \<Rightarrow> go_error option \<Rightarrow> lifecycle \<Rightarrow> lifecycle" where
  "serve_signal s res w = (serve_at w s (SvStopping res))\<lparr>lcExited := insert s (lcExited w)\<rparr>"

definition serve_return :: "nat \<Rightarrow> go_error option \<Rightarrow> lifecycle \<Rightarrow> lifecycle" where
  "serve_return s res w =
     (case stopServing (lcE w) of
        (cancel, e) \<Rightarrow> (serve_at w s (SvReturned res))\<lparr>lcE := e, lcCancelled := set_option cancel \<union> lcCancelled w\<rparr>)"

section \<open>Shutdown\<close>

definition shutdown_capture :: "nat \<Rightarrow> lifecycle \<Rightarrow> lifecycle" where
  "shutdown_capture k w = (case captureShutdownState (lcE w) of (st, e) \<Rightarrow> (shut_at w k (ShCaptured st))\<lparr>lcE := e\<rparr>)"

definition shutdown_cancel :: "nat \<Rightarrow> shutdownState \<Rightarrow> lifecycle \<Rightarrow> lifecycle" where
  "shutdown_cancel k st w =
     (shut_at w k (ShCancelled st))
       \<lparr>lcCancelled := (if firstShutdown st then set_option (ssServeCancel st) else {}) \<union> lcCancelled w\<rparr>"

definition shutdown_close :: "nat \<Rightarrow> shutdownState \<Rightarrow> lifecycle \<Rightarrow> lifecycle" where
  "shutdown_close k st w =
     (shut_at w k (ShClosed st))\<lparr>lcClosed := (if firstShutdown st then set_option (ssListener st) else {}) \<union> lcClosed w\<rparr>"

definition shutdown_spawn :: "nat \<Rightarrow> shutdownState \<Rightarrow> sessionHandle list \<Rightarrow> lifecycle \<Rightarrow> lifecycle" where
  "shutdown_spawn k st hp w =
     (shut_at w k (ShSpawned st))\<lparr>lcE := (if firstShutdown st then (lcE w)\<lparr>eHeap := hp\<rparr> else lcE w)\<rparr>"

text \<open>\<open>drainFuture\<close>: the first caller captures the channel.\<close>

definition shutdown_future :: "nat \<Rightarrow> shutdownState \<Rightarrow> lifecycle \<Rightarrow> lifecycle" where
  "shutdown_future k st w =
     (let w' = shut_at w k (ShDraining st)
      in case lcDrained w of
           Some _ \<Rightarrow> w'
         | None \<Rightarrow> (case wg_DoneChan (lcWG w) of (isClosed, g) \<Rightarrow> w'\<lparr>lcWG := g, lcDrained := Some isClosed\<rparr>))"

text \<open>The end of a handler: \<open>Done\<close>, which closes the channel when it was the last.\<close>

definition handler_done :: "lifecycle \<Rightarrow> lifecycle option" where
  "handler_done w =
     map_option (\<lambda>g. w\<lparr>lcWG := g, lcHandlers := lcHandlers w - 1,
         lcDrained := (if lcDrained w = Some False then wgDrained g else lcDrained w)\<rparr>) (wg_Done (lcWG w))"

section \<open>Interleavings\<close>

text \<open>What a handler does to the registry: the steps of \<open>Exporter_Registry\<close> other than those of \<open>Serve\<close> and \<open>Shutdown\<close>.\<close>

definition serving_part :: "Exporter \<Rightarrow> bool \<times> bool \<times> nat option \<times> nat option \<times> nat option" where
  "serving_part e = (eShutdown e, eServing e, eListener e, eServeCancel e, eAcceptLoopExited e)"

inductive lifecycle_step :: "lifecycle \<Rightarrow> lifecycle \<Rightarrow> bool" where
  lc_start: "lcServe w s = SvNew \<Longrightarrow> lifecycle_step w (serve_start s w)"
| lc_factory: "lcServe w s = SvReserved \<Longrightarrow> lifecycle_step w (serve_factory s made w)"
| lc_install: "lcServe w s = SvFactory l \<Longrightarrow> lifecycle_step w (serve_install s l w)"
| lc_dispatch: "lcServe w s = SvAccepting l \<Longrightarrow> l \<notin> lcClosed w \<Longrightarrow> serve_dispatch w = Some w' \<Longrightarrow> lifecycle_step w w'"
| lc_accept_error: "lcServe w s = SvAccepting l \<Longrightarrow> (l \<in> lcClosed w \<Longrightarrow> errors_Is err (Io NetErrClosed)) \<Longrightarrow>
    lifecycle_step w (serve_accept_error s err w)"
| lc_watcher: "lcServe w s = SvAccepting l \<Longrightarrow> s \<in> lcCancelled w \<Longrightarrow> lifecycle_step w (w\<lparr>lcClosed := insert l (lcClosed w)\<rparr>)"
| lc_signal: "lcServe w s \<in> {SvLooped res, SvLeaving res} \<Longrightarrow> lifecycle_step w (serve_signal s res w)"
| lc_return: "lcServe w s = SvStopping res \<Longrightarrow> lifecycle_step w (serve_return s res w)"
| lc_parent: "lifecycle_step w (w\<lparr>lcCancelled := insert s (lcCancelled w)\<rparr>)"
| lc_capture: "lcShut w k = ShNew \<Longrightarrow> lifecycle_step w (shutdown_capture k w)"
| lc_cancel: "lcShut w k = ShCaptured st \<Longrightarrow> lifecycle_step w (shutdown_cancel k st w)"
| lc_close: "lcShut w k = ShCancelled st \<Longrightarrow> lifecycle_step w (shutdown_close k st w)"
| lc_spawn: "lcShut w k = ShClosed st \<Longrightarrow> spawnGracefulDisconnects (eHeap (lcE w)) (ssHandles st) = Some (hp, spawned) \<Longrightarrow>
    lifecycle_step w (shutdown_spawn k st hp w)"
| lc_wait: "lcShut w k = ShSpawned st \<Longrightarrow> set_option (ssAcceptLoopExited st) \<subseteq> lcExited w \<Longrightarrow>
    lifecycle_step w (shut_at w k (ShWaited st))"
| lc_future: "lcShut w k = ShWaited st \<Longrightarrow> lifecycle_step w (shutdown_future k st w)"
| lc_drained: "lcShut w k = ShDraining st \<Longrightarrow> lcDrained w = Some True \<Longrightarrow> lifecycle_step w (shut_at w k (ShDrained None))"
| lc_expired: "lcShut w k = ShDraining st \<Longrightarrow> lifecycle_step w (shut_at w k (ShDrained (Some ctxErr)))"
| lc_cleanup: "lcShut w k = ShDrained waitErr \<Longrightarrow>
    lifecycle_step w (shut_at w k (ShDone (if waitErr = None \<and> cleanupErrs = [] then None
        else Some (concat (case waitErr of None \<Rightarrow> [] | Some err \<Rightarrow> [err]) @ concat cleanupErrs))))"
| lc_handler: "0 < lcHandlers w \<Longrightarrow> exporter_step (lcE w) e \<Longrightarrow> serving_part e = serving_part (lcE w) \<Longrightarrow> lifecycle_step w (w\<lparr>lcE := e\<rparr>)"
| lc_timeout_watcher: "0 < lcHandlers w \<Longrightarrow> serve_dispatch w = Some w' \<Longrightarrow> lifecycle_step w w'"
| lc_handler_done: "0 < lcHandlers w \<Longrightarrow> handler_done w = Some w' \<Longrightarrow> lifecycle_step w w'"

definition lifecycle_init :: "Exporter \<Rightarrow> lifecycle" where
  "lifecycle_init e =
     \<lparr>lcE = e, lcWG = \<lparr>wgCount = 0, wgDrained = None\<rparr>, lcDrained = None, lcServe = (\<lambda>_. SvNew), lcShut = (\<lambda>_. ShNew),
      lcExited = {}, lcCancelled = {}, lcClosed = {}, lcHandlers = 0\<rparr>"

inductive lifecycle_reach :: "lifecycle \<Rightarrow> bool" where
  lc_new: "NewExporterWithError parseCIDR cfg = Inr e \<Longrightarrow> lifecycle_reach (lifecycle_init e)"
| lc_next: "lifecycle_reach w \<Longrightarrow> lifecycle_step w w' \<Longrightarrow> lifecycle_reach w'"

section \<open>Invariants\<close>

fun active :: "serve_pc \<Rightarrow> bool" where
  "active SvNew = False"
| "active (SvReturned _) = False"
| "active _ = True"

fun past_signal :: "serve_pc \<Rightarrow> bool" where
  "past_signal (SvStopping _) = True"
| "past_signal (SvReturned _) = True"
| "past_signal _ = False"

text \<open>The state a \<open>Shutdown\<close> call captured, while it still uses it.\<close>

fun captured :: "shut_pc \<Rightarrow> shutdownState option" where
  "captured (ShCaptured st) = Some st"
| "captured (ShCancelled st) = Some st"
| "captured (ShClosed st) = Some st"
| "captured (ShSpawned st) = Some st"
| "captured (ShWaited st) = Some st"
| "captured (ShDraining st) = Some st"
| "captured _ = None"

fun shut_past_cancel :: "shut_pc \<Rightarrow> bool" where
  "shut_past_cancel (ShCaptured _) = False"
| "shut_past_cancel ShNew = False"
| "shut_past_cancel _ = True"

fun shut_past_wait :: "shut_pc \<Rightarrow> bool" where
  "shut_past_wait (ShWaited _) = True"
| "shut_past_wait (ShDraining _) = True"
| "shut_past_wait _ = False"

text \<open>At most one \<open>Serve\<close> call is active, and the exporter's cancel function and channel are its own.\<close>

definition serve_inv :: "lifecycle \<Rightarrow> bool" where
  "serve_inv w \<longleftrightarrow>
     (\<forall>s. active (lcServe w s) \<longrightarrow> eServing (lcE w) \<and> eServeCancel (lcE w) = Some s \<and> eAcceptLoopExited (lcE w) = Some s)
   \<and> (\<forall>s \<in> lcExited w. past_signal (lcServe w s)) \<and> (\<forall>s res. lcServe w s = SvStopping res \<longrightarrow> s \<in> lcExited w)
   \<and> (\<forall>s. eAcceptLoopExited (lcE w) = Some s \<longrightarrow> active (lcServe w s) \<or> s \<in> lcExited w)"

text \<open>What a \<open>Shutdown\<close> call relies on: the channel it captured is the exporter's to stay, it belongs to a \<open>Serve\<close> call that has signalled or
  whose context the first \<open>Shutdown\<close> cancels, and past the wait it has been signalled.\<close>

definition call_ok :: "lifecycle \<Rightarrow> shut_pc \<Rightarrow> bool" where
  "call_ok w pc \<longleftrightarrow> (\<forall>st. captured pc = Some st \<longrightarrow> eShutdown (lcE w) \<and> ssAcceptLoopExited st = eAcceptLoopExited (lcE w)
        \<and> (\<forall>s. ssAcceptLoopExited st = Some s \<longrightarrow> ssServeCancel st = Some s \<or> s \<in> lcExited w)
        \<and> (shut_past_cancel pc \<and> firstShutdown st \<longrightarrow> set_option (ssServeCancel st) \<subseteq> lcCancelled w)
        \<and> (shut_past_wait pc \<longrightarrow> set_option (ssAcceptLoopExited st) \<subseteq> lcExited w))"

definition shut_inv :: "lifecycle \<Rightarrow> bool" where
  "shut_inv w \<longleftrightarrow> (\<forall>k. call_ok w (lcShut w k))
   \<and> (lcDrained w \<noteq> None \<longrightarrow> eShutdown (lcE w) \<and> set_option (eAcceptLoopExited (lcE w)) \<subseteq> lcExited w)"

definition drain_inv :: "lifecycle \<Rightarrow> bool" where
  "drain_inv w \<longleftrightarrow> wg_ok (lcWG w) (lcHandlers w) \<and> (lcDrained w = Some True \<longrightarrow> lcHandlers w = 0)
     \<and> (lcDrained w = Some False \<longrightarrow> 0 < lcHandlers w)"

lemmas serve_ops = serve_start_def serve_factory_def serve_install_def serve_dispatch_def serve_accept_error_def serve_signal_def
  serve_return_def startServing_def installServingListener_def stopServing_def

lemmas shutdown_ops = shutdown_capture_def shutdown_cancel_def shutdown_close_def shutdown_spawn_def shutdown_future_def
  captureShutdownState_def handler_done_def Let_def

lemma active_unique: "serve_inv w \<Longrightarrow> active (lcServe w s) \<Longrightarrow> active (lcServe w s') \<Longrightarrow> s' = s"
  unfolding serve_inv_def by (metis option.inject)

lemma serve_inv_frame:
  "serve_inv w \<Longrightarrow> lcServe w' = lcServe w \<Longrightarrow> lcExited w' = lcExited w \<Longrightarrow> eServing (lcE w') = eServing (lcE w) \<Longrightarrow>
     eServeCancel (lcE w') = eServeCancel (lcE w) \<Longrightarrow> eAcceptLoopExited (lcE w') = eAcceptLoopExited (lcE w) \<Longrightarrow> serve_inv w'"
  by (simp add: serve_inv_def)

text \<open>A step of an active call that stays active and does not touch the channel.\<close>

lemma serve_inv_move:
  assumes "serve_inv w" "active (lcServe w s)" "\<not> past_signal (lcServe w s)" "active pc" "\<And>res. pc \<noteq> SvStopping res"
    "lcServe w' = (lcServe w)(s := pc)" "lcExited w' = lcExited w" "eServing (lcE w') = eServing (lcE w)"
    "eServeCancel (lcE w') = eServeCancel (lcE w)" "eAcceptLoopExited (lcE w') = eAcceptLoopExited (lcE w)"
  shows "serve_inv w'"
proof -
  have "\<forall>s'. s' \<noteq> s \<longrightarrow> \<not> active (lcServe w s')"
    using active_unique [OF assms(1,2)] by blast
  thus ?thesis
    using assms by (auto simp: serve_inv_def)
qed

lemma serve_inv_step: "lifecycle_step w w' \<Longrightarrow> serve_inv w \<Longrightarrow> serve_inv w'"
proof (induction rule: lifecycle_step.induct)
  case (lc_start w s)
  show ?case
  proof (cases "eShutdown (lcE w) \<or> eServing (lcE w)")
    case True
    thus ?thesis
      using lc_start by (auto simp: serve_inv_def serve_start_def startServing_def)
  next
    case False
    hence "\<forall>s. \<not> active (lcServe w s)"
      using lc_start.prems by (auto simp: serve_inv_def)
    thus ?thesis
      using lc_start False by (auto simp: serve_inv_def serve_start_def startServing_def)
  qed
next
  case (lc_factory w s made)
  show ?case
    by (rule serve_inv_move [OF lc_factory.prems, of s "lcServe (serve_factory s made w) s"])
       (use lc_factory in \<open>auto simp: serve_factory_def split: sum.split option.split\<close>)
next
  case (lc_install w s l)
  show ?case
    by (rule serve_inv_move [OF lc_install.prems, of s "lcServe (serve_install s l w) s"])
       (use lc_install in \<open>auto simp: serve_install_def installServingListener_def\<close>)
next
  case (lc_accept_error w s l err)
  show ?case
    by (rule serve_inv_move [OF lc_accept_error.prems, of s "lcServe (serve_accept_error s err w) s"])
       (use lc_accept_error in \<open>auto simp: serve_accept_error_def\<close>)
next
  case (lc_signal w s res)
  hence "active (lcServe w s)"
    by auto
  moreover from this have "\<forall>s'. s' \<noteq> s \<longrightarrow> \<not> active (lcServe w s')"
    using active_unique [OF lc_signal.prems] by blast
  ultimately show ?case
    using lc_signal.prems by (auto simp: serve_inv_def serve_signal_def)
next
  case (lc_return w s res)
  have a: "active (lcServe w s)"
    by (simp add: lc_return)
  hence "\<forall>s'. s' \<noteq> s \<longrightarrow> \<not> active (lcServe w s')"
    using active_unique [OF lc_return.prems] by blast
  thus ?case
    using lc_return by (auto simp: serve_inv_def serve_return_def stopServing_def)
next
  case (lc_handler w e)
  show ?case
    by (rule serve_inv_frame [OF lc_handler.prems]) (use lc_handler in \<open>auto simp: serving_part_def\<close>)
next
  case (lc_handler_done w w')
  show ?case
    by (rule serve_inv_frame [OF lc_handler_done.prems]) (use lc_handler_done in \<open>auto simp: handler_done_def\<close>)
next
  case (lc_timeout_watcher w w')
  show ?case
    by (rule serve_inv_frame [OF lc_timeout_watcher.prems]) (use lc_timeout_watcher in \<open>auto simp: serve_dispatch_def\<close>)
next
  case (lc_dispatch w s l w')
  show ?case
    by (rule serve_inv_frame [OF lc_dispatch.prems]) (use lc_dispatch in \<open>auto simp: serve_dispatch_def\<close>)
qed (erule serve_inv_frame; auto simp: shutdown_ops split: option.split prod.split)+

text \<open>The steps of \<open>Serve\<close> and of the handlers keep what the \<open>Shutdown\<close> calls rely on.\<close>

lemma call_ok_mono:
  assumes "call_ok w pc" "lcExited w \<subseteq> lcExited w'" "lcCancelled w \<subseteq> lcCancelled w'" "eShutdown (lcE w) \<longrightarrow> eShutdown (lcE w')"
    "eShutdown (lcE w) \<longrightarrow> eAcceptLoopExited (lcE w') = eAcceptLoopExited (lcE w)"
  shows "call_ok w' pc"
  unfolding call_ok_def
proof (intro allI impI)
  fix st
  assume "captured pc = Some st"
  with assms(1) have c: "eShutdown (lcE w)" "ssAcceptLoopExited st = eAcceptLoopExited (lcE w)"
      "\<forall>s. ssAcceptLoopExited st = Some s \<longrightarrow> ssServeCancel st = Some s \<or> s \<in> lcExited w"
      "shut_past_cancel pc \<and> firstShutdown st \<longrightarrow> set_option (ssServeCancel st) \<subseteq> lcCancelled w"
      "shut_past_wait pc \<longrightarrow> set_option (ssAcceptLoopExited st) \<subseteq> lcExited w"
    by (auto simp: call_ok_def)
  show "eShutdown (lcE w') \<and> ssAcceptLoopExited st = eAcceptLoopExited (lcE w')
      \<and> (\<forall>s. ssAcceptLoopExited st = Some s \<longrightarrow> ssServeCancel st = Some s \<or> s \<in> lcExited w')
      \<and> (shut_past_cancel pc \<and> firstShutdown st \<longrightarrow> set_option (ssServeCancel st) \<subseteq> lcCancelled w')
      \<and> (shut_past_wait pc \<longrightarrow> set_option (ssAcceptLoopExited st) \<subseteq> lcExited w')"
  proof (intro conjI)
    show "eShutdown (lcE w')" "ssAcceptLoopExited st = eAcceptLoopExited (lcE w')"
      using c(1,2) assms(4,5) by simp_all
    show "\<forall>s. ssAcceptLoopExited st = Some s \<longrightarrow> ssServeCancel st = Some s \<or> s \<in> lcExited w'"
      using c(3) assms(2) by (metis subsetD)
    show "shut_past_cancel pc \<and> firstShutdown st \<longrightarrow> set_option (ssServeCancel st) \<subseteq> lcCancelled w'"
      using c(4) assms(3) by (metis subset_trans)
    show "shut_past_wait pc \<longrightarrow> set_option (ssAcceptLoopExited st) \<subseteq> lcExited w'"
      using c(5) assms(2) by (metis subset_trans)
  qed
qed

lemma shut_inv_mono:
  assumes "shut_inv w" "lcShut w' = lcShut w" "lcDrained w' \<noteq> None \<longrightarrow> lcDrained w \<noteq> None" "lcExited w \<subseteq> lcExited w'" "lcCancelled w \<subseteq> lcCancelled w'"
    "eShutdown (lcE w') = eShutdown (lcE w)" "eShutdown (lcE w) \<longrightarrow> eAcceptLoopExited (lcE w') = eAcceptLoopExited (lcE w)"
  shows "shut_inv w'"
proof -
  have "call_ok w' (lcShut w' k)" for k
    using assms(1,2,4-7) by (metis call_ok_mono shut_inv_def)
  moreover have "lcDrained w' \<noteq> None \<longrightarrow> eShutdown (lcE w') \<and> set_option (eAcceptLoopExited (lcE w')) \<subseteq> lcExited w'"
    using assms(1,3,4,6,7) unfolding shut_inv_def by (metis subset_trans)
  ultimately show ?thesis
    by (simp add: shut_inv_def)
qed

lemma drained_no_accept: "serve_inv w \<Longrightarrow> shut_inv w \<Longrightarrow> lcDrained w \<noteq> None \<Longrightarrow> lcServe w s \<noteq> SvAccepting l"
  unfolding serve_inv_def shut_inv_def by (metis active.simps(5) option.set_intros past_signal.simps(6) subset_iff)

lemma shut_inv_move:
  assumes "shut_inv w" "lcShut w' = (lcShut w)(k := pc)" "call_ok w' pc" "lcExited w' = lcExited w" "lcCancelled w \<subseteq> lcCancelled w'"
    "eShutdown (lcE w) \<longrightarrow> eShutdown (lcE w')" "eAcceptLoopExited (lcE w') = eAcceptLoopExited (lcE w)"
    "lcDrained w' \<noteq> None \<longrightarrow> lcDrained w \<noteq> None \<or> eShutdown (lcE w) \<and> set_option (eAcceptLoopExited (lcE w)) \<subseteq> lcExited w"
  shows "shut_inv w'"
proof -
  have "call_ok w' (lcShut w' j)" for j
    using assms(1-7) call_ok_mono [of w "lcShut w j" w'] by (cases "j = k") (simp_all add: shut_inv_def)
  moreover have "lcDrained w' \<noteq> None \<longrightarrow> eShutdown (lcE w') \<and> set_option (eAcceptLoopExited (lcE w')) \<subseteq> lcExited w'"
    using assms(1,4,6-8) unfolding shut_inv_def by metis
  ultimately show ?thesis
    by (simp add: shut_inv_def)
qed

lemma call_okD: "shut_inv w \<Longrightarrow> lcShut w k = pc \<Longrightarrow> call_ok w pc"
  by (auto simp: shut_inv_def)

lemma shut_inv_step: "lifecycle_step w w' \<Longrightarrow> serve_inv w \<Longrightarrow> shut_inv w \<Longrightarrow> shut_inv w'"
proof (induction rule: lifecycle_step.induct)
  case (lc_capture w k)
  have "\<forall>s. eAcceptLoopExited (lcE w) = Some s \<longrightarrow> eServeCancel (lcE w) = Some s \<or> s \<in> lcExited w"
    using lc_capture.prems(1) unfolding serve_inv_def by metis
  hence "call_ok (shutdown_capture k w) (lcShut (shutdown_capture k w) k)"
    by (simp add: call_ok_def shutdown_capture_def captureShutdownState_def Let_def)
  thus ?case
    by (intro shut_inv_move [OF lc_capture.prems(2), of _ k]) (auto simp: shutdown_capture_def captureShutdownState_def Let_def)
next
  case (lc_cancel w k st)
  show ?case
    using call_okD [OF lc_cancel.prems(2) lc_cancel.hyps(1)]
    by (intro shut_inv_move [OF lc_cancel.prems(2), of _ k]) (auto simp: shutdown_cancel_def call_ok_def)
next
  case (lc_close w k st)
  show ?case
    using call_okD [OF lc_close.prems(2) lc_close.hyps(1)]
    by (intro shut_inv_move [OF lc_close.prems(2), of _ k]) (auto simp: shutdown_close_def call_ok_def)
next
  case (lc_spawn w k st hp spawned)
  show ?case
    using call_okD [OF lc_spawn.prems(2) lc_spawn.hyps(1)]
    by (intro shut_inv_move [OF lc_spawn.prems(2), of _ k]) (auto simp: shutdown_spawn_def call_ok_def)
next
  case (lc_wait w k st)
  show ?case
    using call_okD [OF lc_wait.prems(2) lc_wait.hyps(1)] lc_wait.hyps(2)
    by (intro shut_inv_move [OF lc_wait.prems(2), of _ k]) (auto simp: call_ok_def)
next
  case (lc_future w k st)
  show ?case
    using call_okD [OF lc_future.prems(2) lc_future.hyps(1)]
    by (intro shut_inv_move [OF lc_future.prems(2), of _ k])
       (auto simp: call_ok_def shutdown_future_def Let_def split: option.splits prod.splits)
next
  case (lc_drained w k st)
  show ?case
    by (rule shut_inv_move [OF lc_drained.prems(2), of _ k]) (auto simp: call_ok_def)
next
  case (lc_expired w k st ctxErr)
  show ?case
    by (rule shut_inv_move [OF lc_expired.prems(2), of _ k]) (auto simp: call_ok_def)
next
  case (lc_cleanup w k waitErr cleanupErrs)
  show ?case
    by (rule shut_inv_move [OF lc_cleanup.prems(2), of _ k]) (auto simp: call_ok_def)
qed (erule shut_inv_mono; auto simp: serve_ops serving_part_def handler_done_def split: sum.splits option.splits prod.splits if_splits)+

lemma wg_DoneChan_ok: "wg_ok g n \<Longrightarrow> wg_DoneChan g = (isClosed, g') \<Longrightarrow> wg_ok g' n \<and> (isClosed \<longleftrightarrow> n = 0)"
  by (auto simp: wg_ok_def wg_DoneChan_def split: option.splits if_splits)

lemma drain_inv_frame:
  "drain_inv w \<Longrightarrow> lcWG w' = lcWG w \<Longrightarrow> lcHandlers w' = lcHandlers w \<Longrightarrow> lcDrained w' = lcDrained w \<Longrightarrow> drain_inv w'"
  by (simp add: drain_inv_def)

lemma drain_inv_step: "lifecycle_step w w' \<Longrightarrow> serve_inv w \<Longrightarrow> shut_inv w \<Longrightarrow> drain_inv w \<Longrightarrow> drain_inv w'"
proof (induction rule: lifecycle_step.induct)
  case (lc_dispatch w s l w')
  have "lcDrained w = None"
    using drained_no_accept [OF lc_dispatch.prems(1,2)] lc_dispatch.hyps(1) by blast
  thus ?case
    using lc_dispatch.prems(3) lc_dispatch.hyps(3) wg_Add_1 [of "lcWG w" "lcHandlers w"]
    by (auto simp: drain_inv_def serve_dispatch_def)
next
  case (lc_timeout_watcher w w')
  thus ?case
    using wg_Add_1 [of "lcWG w" "lcHandlers w"] by (auto simp: drain_inv_def serve_dispatch_def)
next
  case (lc_future w k st)
  thus ?case
    using wg_DoneChan_ok [of "lcWG w" "lcHandlers w"]
    by (auto simp: drain_inv_def shutdown_future_def Let_def split: option.split prod.split)
next
  case (lc_handler_done w w')
  obtain n where n: "lcHandlers w = Suc n"
    using lc_handler_done.hyps(1) gr0_implies_Suc by blast
  then obtain g where g: "wg_Done (lcWG w) = Some g" "wg_ok g n"
    using lc_handler_done.prems(3) wg_Done_ok [of "lcWG w" n] by (auto simp: drain_inv_def)
  hence "w' = w\<lparr>lcWG := g, lcHandlers := n, lcDrained := (if lcDrained w = Some False then wgDrained g else lcDrained w)\<rparr>"
    using lc_handler_done.hyps(2) n by (simp add: handler_done_def)
  thus ?case
    using g(2) lc_handler_done.prems(3) n by (auto simp: drain_inv_def wg_ok_def split: if_splits)
qed (erule drain_inv_frame; auto simp: serve_ops shutdown_ops split: sum.split option.split prod.split)+

lemma lifecycle_invariant: "lifecycle_reach w \<Longrightarrow> serve_inv w \<and> shut_inv w \<and> drain_inv w"
proof (induction rule: lifecycle_reach.induct)
  case (lc_new parseCIDR cfg e)
  hence "eAcceptLoopExited e = None"
    by (auto simp: NewExporterWithError_def split: sum.splits option.splits)
  thus ?case
    by (simp add: lifecycle_init_def serve_inv_def shut_inv_def call_ok_def drain_inv_def wg_ok_def)
next
  case (lc_next w w')
  thus ?case
    using serve_inv_step shut_inv_step drain_inv_step by blast
qed

lemma lifecycle_steps_reach: "lifecycle_step\<^sup>*\<^sup>* w w' \<Longrightarrow> lifecycle_reach w \<Longrightarrow> lifecycle_reach w'"
  by (induction rule: rtranclp_induct) (auto intro: lc_next)

text \<open>Once the drain channel is closed nothing runs any more.\<close>

lemma drained_step:
  assumes "lifecycle_step w w'" "serve_inv w" "shut_inv w" "lcDrained w = Some True" "lcHandlers w = 0"
  shows "lcDrained w' = Some True \<and> lcHandlers w' = 0"
  using assms(1)
proof cases
  case (lc_dispatch s l)
  thus ?thesis
    using drained_no_accept [OF assms(2,3)] assms(4) by blast
qed (use assms(4,5) in \<open>auto simp: serve_ops shutdown_ops split: sum.split option.split prod.split\<close>)

lemma drained_steps:
  assumes "lifecycle_step\<^sup>*\<^sup>* w w'" "lifecycle_reach w" "lcDrained w = Some True"
  shows "lcDrained w' = Some True \<and> lcHandlers w' = 0"
  using assms(1)
proof (induction rule: rtranclp_induct)
  case base
  show ?case
    using assms(3) lifecycle_invariant [OF assms(2)] by (simp add: drain_inv_def)
next
  case (step y z)
  have "serve_inv y" "shut_inv y"
    using lifecycle_invariant [OF lifecycle_steps_reach [OF step.hyps(1) assms(2)]] by simp_all
  thus ?case
    using drained_step [OF step.hyps(2)] step.IH by simp
qed

section \<open>Properties\<close>

text \<open>C10: a graceful Shutdown is one: when a \<open>Shutdown\<close> call sees its drain channel closed, no session handler (and no timeout watcher of
  one) is running and none will ever be started, however \<open>Serve\<close> calls, other \<open>Shutdown\<close> calls and connections interleave with it.  Along the way the wait
  group never panics, and at most one \<open>Serve\<close> call is active at a time.\<close>

theorem shutdown_drains:
  assumes "lifecycle_reach w"
  shows "serve_dispatch w \<noteq> None \<and> (0 < lcHandlers w \<longrightarrow> handler_done w \<noteq> None)
    \<and> (\<forall>s s'. active (lcServe w s) \<and> active (lcServe w s') \<longrightarrow> s = s')
    \<and> (\<forall>k st w'. lcShut w k = ShDraining st \<and> lcDrained w = Some True \<and> lifecycle_step\<^sup>*\<^sup>* w w' \<longrightarrow>
         lcHandlers w' = 0 \<and> (\<forall>s l. lcServe w' s \<noteq> SvAccepting l))"
proof -
  note inv = lifecycle_invariant [OF assms]
  have wg: "wg_ok (lcWG w) (lcHandlers w)"
    using inv by (simp add: drain_inv_def)
  have "serve_dispatch w \<noteq> None"
    using wg_Add_1 [OF wg] by (auto simp: serve_dispatch_def)
  moreover have "handler_done w \<noteq> None" if n: "0 < lcHandlers w"
  proof -
    have "wg_ok (lcWG w) (Suc (lcHandlers w - 1))"
      using wg n by simp
    from wg_Done_ok [OF this] show ?thesis
      by (auto simp: handler_done_def)
  qed
  moreover have "lcHandlers w' = 0 \<and> (\<forall>s l. lcServe w' s \<noteq> SvAccepting l)"
    if d: "lcDrained w = Some True" and steps: "lifecycle_step\<^sup>*\<^sup>* w w'" for w'
  proof -
    have "lcDrained w' = Some True" "lcHandlers w' = 0"
      using drained_steps [OF steps assms d] by auto
    thus ?thesis
      using drained_no_accept lifecycle_invariant [OF lifecycle_steps_reach [OF steps assms]] by (metis option.discI)
  qed
  ultimately show ?thesis
    using inv active_unique by blast
qed

text \<open>C11: the wait for the accept loop cannot hang on a loop nobody stops.  Past its cancel, the first \<open>Shutdown\<close> waits only for a \<open>Serve\<close>
  call that has already signalled, or whose context is cancelled: then a listener the factory still returns is refused and
  closed, the context's watcher closes the listener of a running loop, and the loop's next error ends it without an error.\<close>

theorem shutdown_unblocked:
  assumes "lifecycle_reach w" "lcShut w k = ShSpawned st" "firstShutdown st" "ssAcceptLoopExited st = Some s"
  shows "s \<in> lcExited w \<or>
    (s \<in> lcCancelled w
     \<and> (\<forall>l. lcServe w s = SvFactory l \<longrightarrow>
           lcServe (serve_install s l w) s = SvLeaving (Some [App ErrAlreadyShutdown]) \<and> l \<in> lcClosed (serve_install s l w))
     \<and> (\<forall>l. lcServe w s = SvAccepting l \<longrightarrow> lifecycle_step w (w\<lparr>lcClosed := insert l (lcClosed w)\<rparr>))
     \<and> (\<forall>l err. lcServe w s = SvAccepting l \<longrightarrow> lcServe (serve_accept_error s err w) s = SvLooped None))"
proof (cases "s \<in> lcExited w")
  case False
  have "call_ok w (ShSpawned st)"
    using lifecycle_invariant [OF assms(1)] assms(2) call_okD by blast
  hence "eShutdown (lcE w)" "s \<in> lcCancelled w"
    using assms(3,4) False by (auto simp: call_ok_def)
  thus ?thesis
    by (auto simp: serve_install_def installServingListener_def serve_accept_error_def acceptShouldStop_def intro: lc_watcher)
qed simp

text \<open>A server that is shut down while it accepts.\<close>

definition sample_serving :: lifecycle where
  "sample_serving = serve_install 1 5 (serve_factory 1 (Inr (Some 5)) (serve_start 1 (lifecycle_init sample_exporter)))"

definition sample_state :: shutdownState where
  "sample_state = \<lparr>firstShutdown = True, ssHandles = [], ssListener = Some 5, ssServeCancel = Some 1, ssAcceptLoopExited = Some 1\<rparr>"

definition sample_spawned :: lifecycle where
  "sample_spawned = shutdown_spawn 0 sample_state [] (shutdown_close 0 sample_state (shutdown_cancel 0 sample_state
     (shutdown_capture 0 sample_serving)))"

definition sample_draining :: lifecycle where
  "sample_draining = shutdown_future 0 sample_state
     (shut_at (serve_signal 1 None (serve_accept_error 1 [Io NetErrClosed] sample_spawned)) 0 (ShWaited sample_state))"

lemmas sample_lifecycle = sample_serving_def lifecycle_init_def sample_exporter_def serve_start_def startServing_def serve_factory_def
  serve_install_def installServingListener_def sample_state_def shutdown_capture_def captureShutdownState_def

lemma sample_serving_reach: "lifecycle_reach sample_serving"
proof -
  have "NewExporterWithError Inr sample_config = Inr sample_exporter"
    by (simp add: NewExporterWithError_def sample_config_def sample_exporter_def resolveExporterStatusPollInterval_def)
  hence "lifecycle_reach (lifecycle_init sample_exporter)"
    by (rule lc_new)
  hence "lifecycle_reach (serve_start 1 (lifecycle_init sample_exporter))"
    by (rule lc_next [OF _ lc_start]) (simp add: lifecycle_init_def)
  hence "lifecycle_reach (serve_factory 1 (Inr (Some 5)) (serve_start 1 (lifecycle_init sample_exporter)))"
    by (rule lc_next [OF _ lc_factory]) (simp add: sample_lifecycle)
  thus ?thesis
    unfolding sample_serving_def by (rule lc_next [OF _ lc_install]) (simp add: sample_lifecycle)
qed

lemma sample_spawned_reach: "lifecycle_reach sample_spawned"
proof -
  have "lifecycle_reach (shutdown_capture 0 sample_serving)"
    by (rule lc_next [OF sample_serving_reach lc_capture]) (simp add: sample_lifecycle)
  hence "lifecycle_reach (shutdown_cancel 0 sample_state (shutdown_capture 0 sample_serving))"
    by (rule lc_next [OF _ lc_cancel]) (simp add: sample_lifecycle)
  hence "lifecycle_reach (shutdown_close 0 sample_state (shutdown_cancel 0 sample_state (shutdown_capture 0 sample_serving)))"
    by (rule lc_next [OF _ lc_close]) (simp add: shutdown_cancel_def)
  thus ?thesis
    unfolding sample_spawned_def
    by (rule lc_next [OF _ lc_spawn [where spawned = "[]"]]) (simp_all add: shutdown_close_def shutdown_cancel_def sample_lifecycle)
qed

lemma sample_spawned_at:
  "lcShut sample_spawned 0 = ShSpawned sample_state" "lcServe sample_spawned 1 = SvAccepting 5" "lcHandlers sample_spawned = 0"
  "lcDrained sample_spawned = None" "lcWG sample_spawned = \<lparr>wgCount = 0, wgDrained = None\<rparr>" "lcExited sample_spawned = {}"
  by (simp_all add: sample_spawned_def shutdown_spawn_def shutdown_close_def shutdown_cancel_def) (simp_all add: sample_lifecycle)

theorem shutdown_unblocked_witness:
  "lcShut sample_spawned 0 = ShSpawned sample_state \<and> 1 \<in> lcCancelled sample_spawned
   \<and> lcServe (serve_accept_error 1 [Io EOF] sample_spawned) 1 = SvLooped None"
  using shutdown_unblocked [OF sample_spawned_reach sample_spawned_at(1), of 1] sample_spawned_at
  by (auto simp: sample_state_def)

lemma sample_draining_reach: "lifecycle_reach sample_draining"
proof -
  have "lifecycle_reach (serve_accept_error 1 [Io NetErrClosed] sample_spawned)"
    by (rule lc_next [OF sample_spawned_reach lc_accept_error [OF sample_spawned_at(2)]]) simp
  hence "lifecycle_reach (serve_signal 1 None (serve_accept_error 1 [Io NetErrClosed] sample_spawned))"
    by (rule lc_next [OF _ lc_signal]) (simp add: serve_accept_error_def acceptShouldStop_def)
  hence "lifecycle_reach (shut_at (serve_signal 1 None (serve_accept_error 1 [Io NetErrClosed] sample_spawned)) 0 (ShWaited sample_state))"
    by (rule lc_next [OF _ lc_wait]) (simp_all add: serve_signal_def serve_accept_error_def sample_spawned_at, simp add: sample_state_def)
  thus ?thesis
    unfolding sample_draining_def by (rule lc_next [OF _ lc_future]) simp
qed

theorem shutdown_drains_witness:
  "\<exists>st. lcShut sample_draining 0 = ShDraining st \<and> lcDrained sample_draining = Some True \<and> lcHandlers sample_draining = 0
     \<and> (\<forall>s l. lcServe sample_draining s \<noteq> SvAccepting l)"
proof -
  have "lcShut sample_draining 0 = ShDraining sample_state \<and> lcDrained sample_draining = Some True"
    by (simp add: sample_draining_def shutdown_future_def serve_signal_def serve_accept_error_def sample_spawned_at wg_DoneChan_def Let_def)
  thus ?thesis
    using shutdown_drains [OF sample_draining_reach] by blast
qed

end
