(* ===== verification/Exporter_Timeout.thy ===== *)
theory Exporter_Timeout
  imports Prelude
begin

text \<open>
  \<open>internal/app/session.go\<close>: the handshake timeout.  One connection has its handler, the watcher that \<open>armHandshakeTimeout\<close> starts, and
  the \<open>connCloser\<close> they share; \<open>timeout_step\<close> interleaves them.  A kernel handoff happens while the handler is at \<open>HdSession\<close>, after the
  timeout was disarmed.
\<close>

section \<open>State\<close>

datatype closer_once = CloserFresh | CloserRunning | CloserDone

text \<open>The watcher: in its select, before, in and after the close, and gone.\<close>

datatype watcher_pc = WtSelect | WtFired | WtClosing | WtClosed | WtExit

text \<open>The handler: in the handshake, in the stop function, past it, closing in its deferred function, and gone.\<close>

datatype conn_pc = HdHandshake | HdStopping | HdSession | HdClosing | HdDone

record timeout_sys =
  tsTimer :: bool
  tsStop :: bool
  tsOnce :: closer_once
  tsCloses :: nat
  tsWatcher :: watcher_pc
  tsHandler :: conn_pc

text \<open>\<open>armHandshakeTimeout\<close>: a timeout that is not positive starts no watcher.\<close>

definition armHandshakeTimeout :: "int \<Rightarrow> timeout_sys" where
  "armHandshakeTimeout handshakeTimeout =
     \<lparr>tsTimer = False, tsStop = False, tsOnce = CloserFresh, tsCloses = 0,
      tsWatcher = (if handshakeTimeout \<le> 0 then WtExit else WtSelect), tsHandler = HdHandshake\<rparr>"

text \<open>\<open>connCloser.close\<close> under its once: the call of \<open>conn.Close\<close>, and its end.\<close>

definition closer_begin :: "timeout_sys \<Rightarrow> timeout_sys" where
  "closer_begin s = s\<lparr>tsOnce := CloserRunning, tsCloses := Suc (tsCloses s)\<rparr>"

definition closer_end :: "timeout_sys \<Rightarrow> timeout_sys" where
  "closer_end s = s\<lparr>tsOnce := CloserDone\<rparr>"

inductive timeout_step :: "timeout_sys \<Rightarrow> timeout_sys \<Rightarrow> bool" where
  to_timer: "timeout_step s (s\<lparr>tsTimer := True\<rparr>)"
| to_fire: "tsWatcher s = WtSelect \<Longrightarrow> tsTimer s \<Longrightarrow> timeout_step s (s\<lparr>tsWatcher := WtFired\<rparr>)"
| to_stop: "tsWatcher s = WtSelect \<Longrightarrow> tsStop s \<Longrightarrow> timeout_step s (s\<lparr>tsWatcher := WtExit\<rparr>)"
| to_begin: "tsWatcher s = WtFired \<Longrightarrow> tsOnce s = CloserFresh \<Longrightarrow> timeout_step s ((closer_begin s)\<lparr>tsWatcher := WtClosing\<rparr>)"
| to_end: "tsWatcher s = WtClosing \<Longrightarrow> timeout_step s ((closer_end s)\<lparr>tsWatcher := WtClosed\<rparr>)"
| to_skip: "tsWatcher s = WtFired \<Longrightarrow> tsOnce s = CloserDone \<Longrightarrow> timeout_step s (s\<lparr>tsWatcher := WtClosed\<rparr>)"
| to_exit: "tsWatcher s = WtClosed \<Longrightarrow> timeout_step s (s\<lparr>tsWatcher := WtExit\<rparr>)"
| hd_stop: "tsHandler s = HdHandshake \<Longrightarrow> timeout_step s (s\<lparr>tsHandler := HdStopping, tsStop := True\<rparr>)"
| hd_disarmed: "tsHandler s = HdStopping \<Longrightarrow> tsWatcher s = WtExit \<Longrightarrow> timeout_step s (s\<lparr>tsHandler := HdSession\<rparr>)"
| hd_begin: "tsHandler s = HdSession \<Longrightarrow> tsOnce s = CloserFresh \<Longrightarrow> timeout_step s ((closer_begin s)\<lparr>tsHandler := HdClosing\<rparr>)"
| hd_end: "tsHandler s = HdClosing \<Longrightarrow> timeout_step s ((closer_end s)\<lparr>tsHandler := HdDone\<rparr>)"
| hd_skip: "tsHandler s = HdSession \<Longrightarrow> tsOnce s = CloserDone \<Longrightarrow> timeout_step s (s\<lparr>tsHandler := HdDone\<rparr>)"

inductive timeout_reach :: "timeout_sys \<Rightarrow> bool" where
  to_init: "timeout_reach (armHandshakeTimeout d)"
| to_next: "timeout_reach s \<Longrightarrow> timeout_step s s' \<Longrightarrow> timeout_reach s'"

section \<open>Invariant\<close>

definition timeout_inv :: "timeout_sys \<Rightarrow> bool" where
  "timeout_inv s \<longleftrightarrow>
     tsCloses s = (if tsOnce s = CloserFresh then 0 else 1)
   \<and> (tsOnce s = CloserRunning \<longleftrightarrow> tsWatcher s = WtClosing \<or> tsHandler s = HdClosing)
   \<and> (tsHandler s \<in> {HdSession, HdClosing, HdDone} \<longrightarrow> tsWatcher s = WtExit)
   \<and> (tsHandler s = HdDone \<longrightarrow> tsOnce s = CloserDone)
   \<and> (tsHandler s = HdHandshake \<or> tsStop s)"

lemma timeout_inv_step:
  assumes "timeout_step s s'" "timeout_inv s"
  shows "timeout_inv s'"
  using assms(1) by cases (use assms(2) in \<open>auto simp: timeout_inv_def closer_begin_def closer_end_def\<close>)

lemma timeout_invariant: "timeout_reach s \<Longrightarrow> timeout_inv s"
proof (induction rule: timeout_reach.induct)
  case (to_init d)
  show ?case
    by (simp add: timeout_inv_def armHandshakeTimeout_def)
qed (rule timeout_inv_step)

text \<open>A disarmed timeout cannot cut a session.  In every interleaving of a handler with its timeout watcher the connection is closed at
  most once; once the stop function has returned the watcher is gone, so that until the handler's own deferred close nothing closes the
  connection; the stop function never blocks for good, since the watcher can move whenever it has to wait; and when the
  handler is gone the connection is closed and no watcher is left.\<close>

theorem disarmed_timeout:
  assumes "timeout_reach s"
  shows "tsCloses s \<le> 1
    \<and> (tsHandler s = HdSession \<longrightarrow> tsWatcher s = WtExit
        \<and> (\<forall>s'. timeout_step s s' \<and> tsHandler s' = HdSession \<longrightarrow> tsCloses s' = tsCloses s))
    \<and> (tsHandler s = HdStopping \<and> tsWatcher s \<noteq> WtExit \<longrightarrow> (\<exists>s'. timeout_step s s' \<and> tsWatcher s' \<noteq> tsWatcher s))
    \<and> (tsHandler s = HdDone \<longrightarrow> tsCloses s = 1 \<and> tsWatcher s = WtExit)"
proof -
  note inv = timeout_invariant [OF assms, unfolded timeout_inv_def]
  have "tsCloses s' = tsCloses s" if "tsHandler s = HdSession" "timeout_step s s'" "tsHandler s' = HdSession" for s'
    using that(2) by cases (use that inv in \<open>auto simp: closer_begin_def closer_end_def\<close>)
  moreover have "\<exists>s'. timeout_step s s' \<and> tsWatcher s' \<noteq> tsWatcher s" if "tsHandler s = HdStopping" "tsWatcher s \<noteq> WtExit"
  proof (cases "tsWatcher s")
    case WtSelect
    thus ?thesis
      using inv that to_stop [of s] by fastforce
  next
    case WtFired
    thus ?thesis
      using inv that to_begin [of s] to_skip [of s] by (cases "tsOnce s") fastforce+
  next
    case WtClosing
    thus ?thesis
      using to_end [of s] by fastforce
  next
    case WtClosed
    thus ?thesis
      using to_exit [of s] by fastforce
  qed (use that in simp)
  ultimately show ?thesis
    using inv by auto
qed

theorem disarmed_timeout_witness:
  "timeout_reach ((armHandshakeTimeout 10)\<lparr>tsHandler := HdStopping, tsStop := True\<rparr>)
   \<and> (\<exists>s'. timeout_step ((armHandshakeTimeout 10)\<lparr>tsHandler := HdStopping, tsStop := True\<rparr>) s')"
proof -
  let ?s = "(armHandshakeTimeout 10)\<lparr>tsHandler := HdStopping, tsStop := True\<rparr>"
  have r: "timeout_reach ?s"
    by (rule to_next [OF to_init hd_stop]) (simp add: armHandshakeTimeout_def)
  moreover have "tsHandler ?s = HdStopping \<and> tsWatcher ?s \<noteq> WtExit"
    by (simp add: armHandshakeTimeout_def)
  ultimately show ?thesis
    using disarmed_timeout [OF r] by blast
qed

end
