(* ===== verification/Exporter_Sessions.thy ===== *)
theory Exporter_Sessions
  imports Exporter_Registry "HOL-Library.Multiset" "HOL-Library.List_Lexorder" "HOL-Library.Product_Lexorder"
begin

text \<open>
  \<open>internal/app/exporter_watch.go\<close>: \<open>Sessions\<close>, the snapshot of the registry that the status socket serves.  Go iterates
  over a map in any order and \<open>sort.Slice\<close> is not stable; \<open>sessions_canonical\<close>: the result depends on neither.
\<close>

section \<open>The snapshot\<close>

definition session_key :: "Session \<Rightarrow> int \<times> string" where
  "session_key s = (sStartedAt s, SessionID_String (sID s))"

text \<open>The comparison given to \<open>sort.Slice\<close>.  Go compares strings bytewise.\<close>

definition session_less :: "Session \<Rightarrow> Session \<Rightarrow> bool" where
  "session_less a b =
     (if sStartedAt a = sStartedAt b then SessionID_String (sID a) < SessionID_String (sID b)
      else sStartedAt a < sStartedAt b)"

text \<open>\<open>sort.Slice\<close>: any order that the comparison allows.\<close>

definition sort_Slice :: "('a \<Rightarrow> 'a \<Rightarrow> bool) \<Rightarrow> 'a list \<Rightarrow> 'a list \<Rightarrow> bool" where
  "sort_Slice lt out out' \<longleftrightarrow> mset out' = mset out \<and> sorted_wrt (\<lambda>x y. \<not> lt y x) out'"

text \<open>\<open>order\<close>: the sequence in which the map's entries are visited.\<close>

definition Sessions :: "Exporter \<Rightarrow> sessionHandle list \<Rightarrow> Session list \<Rightarrow> bool" where
  "Sessions e order out \<longleftrightarrow> mset order = mset (session_handles e) \<and> sort_Slice session_less (map shSession order) out"

text \<open>The reference: the registry sorted by key.\<close>

definition sorted_sessions :: "Exporter \<Rightarrow> Session list" where
  "sorted_sessions e = sort_key session_key (map shSession (session_handles e))"

section \<open>Session identifiers as strings\<close>

definition nibble_char :: "nat \<Rightarrow> char" where
  "nibble_char n = ''0123456789abcdef'' ! n"

lemma nibble_char_inj: "m < 16 \<Longrightarrow> n < 16 \<Longrightarrow> nibble_char m = nibble_char n \<longleftrightarrow> m = n"
  unfolding nibble_char_def by (rule nth_eq_iff_index_eq) simp_all

lemma nibbles: "unat (drop_bit 4 b) = unat b div 16" "unat (b AND 0xF) = unat b mod 16" for b :: u8
proof -
  show "unat (drop_bit 4 b) = unat b div 16"
    by (simp add: unat_drop_bit_div)
  have "b AND 0xF = take_bit 4 b"
    by (simp add: take_bit_eq_mask mask_eq_exp_minus_1)
  thus "unat (b AND 0xF) = unat b mod 16"
    using unsigned_take_bit_eq [of 4 b, where 'a = nat] by (simp add: take_bit_eq_mod)
qed

lemma hexByte_nibbles: "hexByte b = [nibble_char (unat b div 16), nibble_char (unat b mod 16)]"
  by (simp add: hexByte_def nibble_char_def nibbles Let_def)

lemma hexByte_inj: "hexByte b = hexByte c \<longleftrightarrow> b = c"
proof
  assume "hexByte b = hexByte c"
  moreover have "unat b div 16 < 16" "unat c div 16 < 16"
    using unsigned_less [of b, where 'a = nat] unsigned_less [of c, where 'a = nat] by auto
  ultimately have "unat b div 16 = unat c div 16" "unat b mod 16 = unat c mod 16"
    by (simp_all add: hexByte_nibbles nibble_char_inj)
  hence "unat b = unat c"
    by (metis div_mult_mod_eq)
  thus "b = c"
    by (simp add: word_unat_eq_iff)
qed simp

lemma hex_encode_inj: "length xs = length ys \<Longrightarrow> hex_encode xs = hex_encode ys \<longleftrightarrow> xs = ys"
proof (induction xs ys rule: list_induct2)
  case (Cons b bs c cs)
  have "length (hexByte b) = length (hexByte c)"
    by (simp add: hexByte_nibbles)
  thus ?case
    using Cons by (simp add: hex_encode_def hexByte_inj)
qed simp

lemma length_hex_encode [simp]: "length (hex_encode bs) = 2 * length bs"
  by (induction bs) (simp_all add: hex_encode_def hexByte_nibbles)

text \<open>The five groups between the dashes.\<close>

lemma SessionID_String_groups:
  assumes "length uid = 16"
  shows "SessionID_String uid =
    hex_encode (take 4 uid) @ ''-'' @ hex_encode (take 2 (drop 4 uid)) @ ''-'' @ hex_encode (take 2 (drop 6 uid)) @ ''-''
      @ hex_encode (take 2 (drop 8 uid)) @ ''-'' @ hex_encode (take 6 (drop 10 uid))"
proof -
  have "put_str (replicate 36 c) 0 a = a @ replicate 28 c" if "length a = 8" for a and c :: char
    using that by (simp add: put_str_def)
  thus ?thesis
    using assms by (simp add: SessionID_String_def put_str_def Let_def list_update_append numeral_eq_Suc)
qed

lemma SessionID_String_inj:
  assumes "length u = 16" "length v = 16" "SessionID_String u = SessionID_String v"
  shows "u = v"
proof -
  have "take 4 u = take 4 v" "take 2 (drop 4 u) = take 2 (drop 4 v)" "take 2 (drop 6 u) = take 2 (drop 6 v)"
      "take 2 (drop 8 u) = take 2 (drop 8 v)" "take 6 (drop 10 u) = take 6 (drop 10 v)"
    using assms by (simp_all add: SessionID_String_groups hex_encode_inj)
  moreover have "w = take 4 w @ take 2 (drop 4 w) @ take 2 (drop 6 w) @ take 2 (drop 8 w) @ take 6 (drop 10 w)" if "length w = 16" for w :: bytes
    using that by (intro nth_equalityI) (auto simp: nth_append min_def)
  ultimately show ?thesis
    using assms by metis
qed

section \<open>The order\<close>

lemma not_less_key: "\<not> session_less b a \<longleftrightarrow> session_key a \<le> session_key b"
  by (auto simp: session_less_def session_key_def less_eq_prod_def not_less)

lemma sort_Slice_sorted: "sort_Slice session_less out out' \<longleftrightarrow> mset out' = mset out \<and> sorted (map session_key out')"
  by (simp add: sort_Slice_def not_less_key sorted_map)

lemma session_key_inj:
  assumes "map_inv e" "\<forall>h\<in>set (session_handles e). length (sID (shSession h)) = 16"
  shows "inj_on session_key (set (map shSession (session_handles e)))"
proof (rule inj_onI)
  fix s t
  assume s: "s \<in> set (map shSession (session_handles e))" "t \<in> set (map shSession (session_handles e))" and k: "session_key s = session_key t"
  then obtain i a j b where a: "(i, a) \<in> set (eSessions e)" "s = shSession (eHeap e ! a)" and b: "(j, b) \<in> set (eSessions e)" "t = shSession (eHeap e ! b)"
    by (auto simp: session_handles_def)
  have "length (sID s) = 16" "length (sID t) = 16"
    using s assms(2) by auto
  hence "sID s = sID t"
    using k SessionID_String_inj by (simp add: session_key_def)
  moreover have law: "sID (shSession (eHeap e ! c)) = k" if "(k, c) \<in> set (eSessions e)" for k c
    using assms(1) that by (auto simp: map_inv_def)
  ultimately have "i = j"
    using law [OF a(1)] law [OF b(1)] a(2) b(2) by simp
  hence "a = b"
    using a(1) b(1) assms(1) by (metis eq_key_imp_eq_value map_inv_def)
  thus "s = t"
    using a b by simp
qed

section \<open>Property\<close>

text \<open>The session list is canonical.  Whatever order the map is visited in and whatever \<open>sort.Slice\<close> does with elements the comparison
  does not separate, \<open>Sessions\<close> returns the registry's sessions sorted by start time and then by identifier, each once; in particular the
  list is empty exactly when no session is registered, which is what \<open>drain\<close> reads.\<close>

theorem sessions_canonical:
  assumes "exporter_reach e" "\<forall>h\<in>set (session_handles e). length (sID (shSession h)) = 16"
  shows "(Sessions e order out \<longleftrightarrow> mset order = mset (session_handles e) \<and> out = sorted_sessions e)
    \<and> distinct (map sID (sorted_sessions e)) \<and> (sorted_sessions e = [] \<longleftrightarrow> countSessions e = 0)"
proof -
  have inv: "map_inv e"
    using exporter_reach_inv [OF assms(1)] by (simp add: registry_inv_def)
  have "out = sorted_sessions e" if "mset order = mset (session_handles e)" "sort_Slice session_less (map shSession order) out"
  proof -
    have "mset (map shSession (session_handles e)) = mset out"
      using that by (simp add: sort_Slice_def)
    thus ?thesis
      using that session_key_inj [OF inv assms(2)] unfolding sorted_sessions_def
      by (intro sort_key_inj_key_eq [symmetric]) (simp_all add: sort_Slice_sorted)
  qed
  moreover have "sort_Slice session_less (map shSession order) (sorted_sessions e)" if "mset order = mset (session_handles e)"
    using that by (simp add: sort_Slice_sorted sorted_sessions_def)
  moreover have "map sID (map shSession (session_handles e)) = map fst (eSessions e)"
    using inv by (auto simp: session_handles_def map_inv_def)
  hence "distinct (map sID (map shSession (session_handles e)))"
    using inv by (simp add: map_inv_def)
  hence "distinct (map sID (sorted_sessions e))"
    by (metis (no_types, lifting) mset_eq_imp_distinct_iff mset_map mset_sort sorted_sessions_def)
  moreover have "sorted_sessions e = [] \<longleftrightarrow> countSessions e = 0"
    by (simp add: sorted_sessions_def countSessions_def session_handles_def flip: length_0_conv)
  ultimately show ?thesis
    unfolding Sessions_def by blast
qed

theorem sessions_canonical_witness:
  "\<forall>out. Sessions sample_registered (session_handles sample_registered) out = (out = sorted_sessions sample_registered)"
proof -
  have "\<forall>h\<in>set (session_handles sample_registered). length (sID (shSession h)) = 16"
    by (simp add: sample_registered_def sample_exporter_def sample_session_def registerSession_def sample_config_def resolveExporterLimits_def
        defaultMaxSessions_def perPeer_at_def session_handles_def new_sessionHandle_def)
  thus ?thesis
    using sessions_canonical [OF sample_registered_reach, of "session_handles sample_registered"] by blast
qed

end
