(* ===== verification/Event_Feed.thy ===== *)
theory Event_Feed
  imports Domain_Session "HOL-Library.Sublist"
begin

text \<open>
  \<open>internal/app/exporter_watch.go\<close> and \<open>importer_watch.go\<close>: how events reach the callers that watch an
  exporter or an importer.  Each watcher owns a bounded buffer; publishing never waits and drops the
  event for a watcher whose buffer is full.  The locale states what such a feed promises and proves
  once what a consumer can rely on; it is interpreted on the subscribers of both files here and on
  the dispatcher of the kernel adapter in \<open>Kernel_Uevent\<close>.  A close of a closed channel would panic;
  the functions that close return \<open>None\<close> in that case.
\<close>

section \<open>The feed contract\<close>

datatype 'e feed_op = Offer 'e | Take | Shut

text \<open>The events a consumer takes during a run, and the feed afterwards.\<close>

fun feed_run ::
  "('c \<Rightarrow> 'e list) \<Rightarrow> ('e \<Rightarrow> 'c \<Rightarrow> 'c) \<Rightarrow> ('c \<Rightarrow> 'c) \<Rightarrow> ('c \<Rightarrow> 'c) \<Rightarrow> 'e feed_op list \<Rightarrow> 'c \<Rightarrow> 'e list \<times> 'c" where
  "feed_run buf offer take_one shut [] c = ([], c)"
| "feed_run buf offer take_one shut (Offer e # ops) c = feed_run buf offer take_one shut ops (offer e c)"
| "feed_run buf offer take_one shut (Take # ops) c =
     (case feed_run buf offer take_one shut ops (take_one c) of (es, c') \<Rightarrow> (take 1 (buf c) @ es, c'))"
| "feed_run buf offer take_one shut (Shut # ops) c = feed_run buf offer take_one shut ops (shut c)"

fun offered :: "'e feed_op list \<Rightarrow> 'e list" where
  "offered [] = []"
| "offered (Offer e # ops) = e # offered ops"
| "offered (Take # ops) = offered ops"
| "offered (Shut # ops) = []"

text \<open>The consumer never lets the buffer run full while the feed is open.\<close>

fun keeps_up :: "nat \<Rightarrow> nat \<Rightarrow> 'e feed_op list \<Rightarrow> bool" where
  "keeps_up cap n [] = True"
| "keeps_up cap n (Offer e # ops) = (n < cap \<and> keeps_up cap (Suc n) ops)"
| "keeps_up cap n (Take # ops) = keeps_up cap (n - 1) ops"
| "keeps_up cap n (Shut # ops) = True"

lemma feed_run_append:
  "feed_run buf offer take_one shut xs c = (es, c') \<Longrightarrow> feed_run buf offer take_one shut ys c' = (es', c'') \<Longrightarrow>
     feed_run buf offer take_one shut (xs @ ys) c = (es @ es', c'')"
  by (induction buf offer take_one shut xs c arbitrary: es rule: feed_run.induct) (auto split: prod.splits)

locale event_feed =
  fixes inv :: "'c \<Rightarrow> bool"
    and buf :: "'c \<Rightarrow> 'e list"
    and live :: "'c \<Rightarrow> bool"
    and cap :: nat
    and offer :: "'e \<Rightarrow> 'c \<Rightarrow> 'c"
    and take_one :: "'c \<Rightarrow> 'c"
    and shut :: "'c \<Rightarrow> 'c"
  assumes offer_inv: "inv c \<Longrightarrow> inv (offer e c)"
    and offer_buf: "inv c \<Longrightarrow> buf (offer e c) = (if live c \<and> length (buf c) < cap then buf c @ [e] else buf c)"
    and offer_live: "inv c \<Longrightarrow> live (offer e c) = live c"
    and take_inv: "inv c \<Longrightarrow> inv (take_one c)"
    and take_buf: "inv c \<Longrightarrow> buf (take_one c) = tl (buf c)"
    and take_live: "inv c \<Longrightarrow> live (take_one c) = live c"
    and shut_inv: "inv c \<Longrightarrow> inv (shut c)"
    and shut_buf: "inv c \<Longrightarrow> buf (shut c) = buf c"
    and shut_live: "inv c \<Longrightarrow> \<not> live (shut c)"
begin

lemmas offer_laws = offer_inv offer_buf offer_live
lemmas take_laws = take_inv take_buf take_live
lemmas shut_laws = shut_inv shut_buf shut_live

lemma closed_run:
  "inv c \<Longrightarrow> \<not> live c \<Longrightarrow> feed_run buf offer take_one shut ops c = (es, c') \<Longrightarrow> es @ buf c' = buf c"
proof (induction ops arbitrary: c es)
  case (Cons x ops)
  show ?case
  proof (cases x)
    case (Offer e)
    thus ?thesis
      using Cons.IH [of "offer e c" es] Cons.prems by (simp add: offer_laws)
  next
    case Take
    then obtain es' where "feed_run buf offer take_one shut ops (take_one c) = (es', c')" "es = take 1 (buf c) @ es'"
      using Cons.prems by (auto split: prod.splits)
    thus ?thesis
      using Cons.IH [of "take_one c" es'] Cons.prems by (cases "buf c") (simp_all add: take_laws)
  next
    case Shut
    thus ?thesis
      using Cons.IH [of "shut c" es] Cons.prems by (simp add: shut_laws)
  qed
qed simp

text \<open>What the consumer takes, followed by what is still buffered, is an ordered selection of what was
  offered before the close; it is all of it for a consumer that keeps up.\<close>

lemma open_run:
  "inv c \<Longrightarrow> live c \<Longrightarrow> feed_run buf offer take_one shut ops c = (es, c') \<Longrightarrow>
     \<exists>acc. es @ buf c' = buf c @ acc \<and> subseq acc (offered ops)
       \<and> (keeps_up cap (length (buf c)) ops \<longrightarrow> acc = offered ops)"
proof (induction ops arbitrary: c es)
  case (Cons x ops)
  show ?case
  proof (cases x)
    case (Offer e)
    then obtain acc where acc: "es @ buf c' = buf (offer e c) @ acc" "subseq acc (offered ops)"
      "keeps_up cap (length (buf (offer e c))) ops \<longrightarrow> acc = offered ops"
      using Cons.IH [of "offer e c" es] Cons.prems by (auto simp: offer_laws)
    show ?thesis
    proof (cases "length (buf c) < cap")
      case True
      thus ?thesis
        using acc Offer Cons.prems(1,2) by (intro exI [of _ "e # acc"]) (auto simp: offer_laws)
    next
      case False
      thus ?thesis
        using acc Offer Cons.prems(1) by (intro exI [of _ acc]) (auto simp: offer_laws)
    qed
  next
    case Take
    then obtain es' where es': "feed_run buf offer take_one shut ops (take_one c) = (es', c')"
      "es = take 1 (buf c) @ es'"
      using Cons.prems by (auto split: prod.splits)
    then obtain acc where "es' @ buf c' = buf (take_one c) @ acc" "subseq acc (offered ops)"
      "keeps_up cap (length (buf (take_one c))) ops \<longrightarrow> acc = offered ops"
      using Cons.IH [of "take_one c" es'] Cons.prems by (auto simp: take_laws)
    thus ?thesis
      using es'(2) Take Cons.prems(1) by (intro exI [of _ acc]) (cases "buf c"; simp add: take_laws)
  next
    case Shut
    thus ?thesis
      using closed_run [of "shut c" ops es c'] Cons.prems by (intro exI [of _ "[]"]) (simp add: shut_laws)
  qed
qed simp

lemma capacity:
  "inv c \<Longrightarrow> length (buf c) \<le> cap \<Longrightarrow> length (buf (snd (feed_run buf offer take_one shut ops c))) \<le> cap"
proof (induction ops arbitrary: c)
  case (Cons x ops)
  show ?case
    using Cons.prems Cons.IH [of "offer _ c"] Cons.IH [of "take_one c"] Cons.IH [of "shut c"]
    by (cases x) (auto simp: offer_laws take_laws shut_laws split: prod.splits)
qed simp

lemma still_open:
  "inv c \<Longrightarrow> live c \<Longrightarrow> Shut \<notin> set ops \<Longrightarrow> live (snd (feed_run buf offer take_one shut ops c))"
proof (induction ops arbitrary: c)
  case (Cons x ops)
  show ?case
    using Cons.prems Cons.IH [of "offer _ c"] Cons.IH [of "take_one c"]
    by (cases x) (auto simp: offer_laws take_laws split: prod.splits)
qed simp

end

section \<open>exporter_watch.go\<close>

definition sessionEventBufSize :: nat where "sessionEventBufSize = 16"

record sessionEventSubscriber =
  ssCh :: "Event list"
  ssDone :: bool
  ssClosed :: bool

definition newSessionSubscriber :: sessionEventSubscriber where
  "newSessionSubscriber = \<lparr>ssCh = [], ssDone = False, ssClosed = False\<rparr>"

definition session_closeDoneLocked :: "sessionEventSubscriber \<Rightarrow> sessionEventSubscriber option" where
  "session_closeDoneLocked s =
     (if ssClosed s then Some s
      else if ssDone s then None
      else Some (s\<lparr>ssClosed := True, ssDone := True\<rparr>))"

text \<open>Whether the subscriber was active and whether the event was buffered.\<close>

definition session_tryPublishLocked :: "Event \<Rightarrow> sessionEventSubscriber \<Rightarrow> (bool \<times> bool) \<times> sessionEventSubscriber" where
  "session_tryPublishLocked ev s =
     (if ssClosed s then ((False, False), s)
      else if length (ssCh s) < sessionEventBufSize then ((True, True), s\<lparr>ssCh := ssCh s @ [ev]\<rparr>)
      else ((True, False), s))"

text \<open>The exporter's share: its subscribers and the list of those that are registered, by address.\<close>

record session_watch =
  swHeap :: "sessionEventSubscriber list"
  swSubs :: "nat list"
  swShutdown :: bool

definition session_closeDone :: "nat \<Rightarrow> session_watch \<Rightarrow> session_watch option" where
  "session_closeDone a w =
     map_option (\<lambda>s. w\<lparr>swHeap := (swHeap w)[a := s]\<rparr>) (session_closeDoneLocked (swHeap w ! a))"

text \<open>The subscription a \<open>WatchSessions\<close> loop starts with; \<open>None\<close> for the empty sequence.\<close>

definition WatchSessions_subscribe :: "session_watch \<Rightarrow> nat option \<times> session_watch" where
  "WatchSessions_subscribe w =
     (if swShutdown w then (None, w)
      else let a = length (swHeap w)
        in (Some a, w\<lparr>swHeap := swHeap w @ [newSessionSubscriber], swSubs := swSubs w @ [a]\<rparr>))"

definition removeSubscriber :: "nat \<Rightarrow> session_watch \<Rightarrow> session_watch option" where
  "removeSubscriber a w = session_closeDone a (w\<lparr>swSubs := remove1 a (swSubs w)\<rparr>)"

fun publish_loop :: "Event \<Rightarrow> nat list \<Rightarrow> session_watch \<Rightarrow> session_watch" where
  "publish_loop ev [] w = w"
| "publish_loop ev (a # subs) w =
     publish_loop ev subs (w\<lparr>swHeap := (swHeap w)[a := snd (session_tryPublishLocked ev (swHeap w ! a))]\<rparr>)"

definition publishSessionEvent :: "Event \<Rightarrow> session_watch \<Rightarrow> session_watch" where
  "publishSessionEvent ev w = publish_loop ev (swSubs w) w"

fun close_loop :: "nat list \<Rightarrow> session_watch \<Rightarrow> session_watch option" where
  "close_loop [] w = Some w"
| "close_loop (a # subs) w = (case session_closeDone a w of None \<Rightarrow> None | Some w \<Rightarrow> close_loop subs w)"

definition closeAllSubscribers :: "session_watch \<Rightarrow> session_watch option" where
  "closeAllSubscribers w = close_loop (swSubs w) (w\<lparr>swSubs := []\<rparr>)"

text \<open>One watcher: what happens around it and which branch each of its selects takes.  \<open>keep ys\<close> is the
  consumer's answer once \<open>ys\<close> have been yielded; a branch that is not ready is not taken.\<close>

datatype watch_turn = EnvPublish Event | EnvClose | LoopCtx | LoopDone | LoopEvent

fun drain :: "(Event list \<Rightarrow> bool) \<Rightarrow> Event list \<Rightarrow> Event list \<Rightarrow> Event list \<times> Event list" where
  "drain keep ys [] = (ys, [])"
| "drain keep ys (ev # ch) = (if keep (ys @ [ev]) then drain keep (ys @ [ev]) ch else (ys @ [ev], ch))"

definition drainSessionEvents ::
  "(Event list \<Rightarrow> bool) \<Rightarrow> Event list \<Rightarrow> sessionEventSubscriber \<Rightarrow> Event list \<times> sessionEventSubscriber" where
  "drainSessionEvents keep ys s = (case drain keep ys (ssCh s) of (ys, ch) \<Rightarrow> (ys, s\<lparr>ssCh := ch\<rparr>))"

text \<open>The flag says that the loop has returned.\<close>

fun runSessionEventSeq ::
  "(Event list \<Rightarrow> bool) \<Rightarrow> watch_turn list \<Rightarrow> Event list \<Rightarrow> sessionEventSubscriber
     \<Rightarrow> bool \<times> Event list \<times> sessionEventSubscriber" where
  "runSessionEventSeq keep [] ys s = (False, ys, s)"
| "runSessionEventSeq keep (EnvPublish ev # ts) ys s =
     runSessionEventSeq keep ts ys (snd (session_tryPublishLocked ev s))"
| "runSessionEventSeq keep (EnvClose # ts) ys s =
     runSessionEventSeq keep ts ys (the (session_closeDoneLocked s))"
| "runSessionEventSeq keep (LoopCtx # ts) ys s = (True, ys, s)"
| "runSessionEventSeq keep (LoopDone # ts) ys s =
     (if ssDone s then (True, drainSessionEvents keep ys s) else runSessionEventSeq keep ts ys s)"
| "runSessionEventSeq keep (LoopEvent # ts) ys s =
     (case ssCh s of
        [] \<Rightarrow> runSessionEventSeq keep ts ys s
      | ev # ch \<Rightarrow>
          if keep (ys @ [ev]) then runSessionEventSeq keep ts (ys @ [ev]) (s\<lparr>ssCh := ch\<rparr>)
          else (True, ys @ [ev], s\<lparr>ssCh := ch\<rparr>))"

definition session_take :: "sessionEventSubscriber \<Rightarrow> sessionEventSubscriber" where
  "session_take s = s\<lparr>ssCh := tl (ssCh s)\<rparr>"

definition session_shut :: "sessionEventSubscriber \<Rightarrow> sessionEventSubscriber" where
  "session_shut s = the (session_closeDoneLocked s)"

text \<open>The flag and the channel are closed together.\<close>

definition session_sub_inv :: "sessionEventSubscriber \<Rightarrow> bool" where
  "session_sub_inv s \<longleftrightarrow> ssDone s = ssClosed s"

interpretation session_feed: event_feed session_sub_inv ssCh "\<lambda>s. \<not> ssClosed s" sessionEventBufSize
  "\<lambda>ev s. snd (session_tryPublishLocked ev s)" session_take session_shut
  by unfold_locales
    (auto simp: session_tryPublishLocked_def session_take_def session_shut_def session_closeDoneLocked_def
      session_sub_inv_def)

section \<open>importer_watch.go\<close>

definition importerEventBufSize :: nat where "importerEventBufSize = 16"

record importerEventSubscriber =
  isCh :: "Event list"
  isDone :: bool
  isClosed :: bool

definition importer_closeDoneLocked :: "importerEventSubscriber \<Rightarrow> importerEventSubscriber option" where
  "importer_closeDoneLocked s =
     (if isClosed s then Some s
      else if isDone s then None
      else Some (s\<lparr>isClosed := True, isDone := True\<rparr>))"

definition importer_tryPublishLocked :: "Event \<Rightarrow> importerEventSubscriber \<Rightarrow> (bool \<times> bool) \<times> importerEventSubscriber" where
  "importer_tryPublishLocked ev s =
     (if isClosed s then ((False, False), s)
      else if length (isCh s) < importerEventBufSize then ((True, True), s\<lparr>isCh := isCh s @ [ev]\<rparr>)
      else ((True, False), s))"

text \<open>What the merged sequence yields: an event of the kernel stream, an event of the importer itself, or the
  error.  A consumer sees only the event; the tag records its source.\<close>

datatype yielded = FromKernel Event | FromImporter Event | Failed go_error

datatype mergedSelectResult = mergedSelectStop | mergedSelectContinue | mergedSelectSourceClosed

datatype select_branch = OnCtx | OnDone | OnKernel "Event option" | OnOwn

definition mergedEventResult :: "bool \<Rightarrow> mergedSelectResult" where
  "mergedEventResult keepGoing = (if keepGoing then mergedSelectContinue else mergedSelectStop)"

fun drain_own :: "(yielded list \<Rightarrow> bool) \<Rightarrow> yielded list \<Rightarrow> Event list \<Rightarrow> yielded list \<times> Event list" where
  "drain_own keep ys [] = (ys, [])"
| "drain_own keep ys (ev # ch) =
     (if keep (ys @ [FromImporter ev]) then drain_own keep (ys @ [FromImporter ev]) ch
      else (ys @ [FromImporter ev], ch))"

definition drainImporterSubscriber ::
  "(yielded list \<Rightarrow> bool) \<Rightarrow> yielded list \<Rightarrow> importerEventSubscriber \<Rightarrow> yielded list \<times> importerEventSubscriber" where
  "drainImporterSubscriber keep ys s = (case drain_own keep ys (isCh s) of (ys, ch) \<Rightarrow> (ys, s\<lparr>isCh := ch\<rparr>))"

text \<open>One select with the branch it takes; \<open>None\<close>: that branch is not ready.  \<open>OnKernel None\<close> is a closed
  kernel channel.\<close>

definition mergedSelectOnce ::
  "(yielded list \<Rightarrow> bool) \<Rightarrow> select_branch \<Rightarrow> yielded list \<Rightarrow> importerEventSubscriber
     \<Rightarrow> (mergedSelectResult \<times> yielded list \<times> importerEventSubscriber) option" where
  "mergedSelectOnce keep br ys s =
     (case br of
        OnCtx \<Rightarrow> Some (mergedSelectStop, ys, s)
      | OnDone \<Rightarrow> if isDone s then Some (mergedSelectStop, drainImporterSubscriber keep ys s) else None
      | OnKernel None \<Rightarrow> Some (mergedSelectSourceClosed, ys, s)
      | OnKernel (Some ev) \<Rightarrow>
          (let ys = ys @ [FromKernel ev] in Some (mergedEventResult (keep ys), ys, s))
      | OnOwn \<Rightarrow>
          (case isCh s of
             [] \<Rightarrow> None
           | ev # ch \<Rightarrow>
               (let ys = ys @ [FromImporter ev] in Some (mergedEventResult (keep ys), ys, s\<lparr>isCh := ch\<rparr>))))"

text \<open>The context's error and the importer's closed flag at the moment they are read.\<close>

definition watchStopped :: "bool \<Rightarrow> bool \<Rightarrow> importerEventSubscriber \<Rightarrow> bool" where
  "watchStopped ctxErr closed s = (if ctxErr then True else if isDone s then True else closed)"

datatype merged_turn = MPublish Event | MClose | MSelect select_branch bool bool

fun runImporterMergedSeq ::
  "(yielded list \<Rightarrow> bool) \<Rightarrow> merged_turn list \<Rightarrow> yielded list \<Rightarrow> importerEventSubscriber
     \<Rightarrow> bool \<times> yielded list \<times> importerEventSubscriber" where
  "runImporterMergedSeq keep [] ys s = (False, ys, s)"
| "runImporterMergedSeq keep (MPublish ev # ts) ys s =
     runImporterMergedSeq keep ts ys (snd (importer_tryPublishLocked ev s))"
| "runImporterMergedSeq keep (MClose # ts) ys s =
     runImporterMergedSeq keep ts ys (the (importer_closeDoneLocked s))"
| "runImporterMergedSeq keep (MSelect br ctxErr closed # ts) ys s =
     (case mergedSelectOnce keep br ys s of
        None \<Rightarrow> runImporterMergedSeq keep ts ys s
      | Some (res, ys, s) \<Rightarrow>
          (case res of
             mergedSelectStop \<Rightarrow> (True, ys, s)
           | mergedSelectContinue \<Rightarrow> runImporterMergedSeq keep ts ys s
           | mergedSelectSourceClosed \<Rightarrow>
               (True, if watchStopped ctxErr closed s then ys else ys @ [Failed [App ErrEventStreamClosed]], s)))"

definition importer_take :: "importerEventSubscriber \<Rightarrow> importerEventSubscriber" where
  "importer_take s = s\<lparr>isCh := tl (isCh s)\<rparr>"

definition importer_shut :: "importerEventSubscriber \<Rightarrow> importerEventSubscriber" where
  "importer_shut s = the (importer_closeDoneLocked s)"

definition importer_sub_inv :: "importerEventSubscriber \<Rightarrow> bool" where
  "importer_sub_inv s \<longleftrightarrow> isDone s = isClosed s"

interpretation importer_feed: event_feed importer_sub_inv isCh "\<lambda>s. \<not> isClosed s" importerEventBufSize
  "\<lambda>ev s. snd (importer_tryPublishLocked ev s)" importer_take importer_shut
  by unfold_locales
    (auto simp: importer_tryPublishLocked_def importer_take_def importer_shut_def importer_closeDoneLocked_def
      importer_sub_inv_def)

section \<open>Lemmas\<close>

text \<open>A run of the loop is a run of the feed: its turns as operations, up to its return.\<close>

fun turn_ops :: "watch_turn list \<Rightarrow> Event feed_op list" where
  "turn_ops [] = []"
| "turn_ops (EnvPublish ev # ts) = Offer ev # turn_ops ts"
| "turn_ops (EnvClose # ts) = Shut # turn_ops ts"
| "turn_ops (LoopCtx # ts) = turn_ops ts"
| "turn_ops (LoopDone # ts) = turn_ops ts"
| "turn_ops (LoopEvent # ts) = Take # turn_ops ts"

lemma drain_all: "(\<forall>ys. keep ys) \<Longrightarrow> drain keep ys ch = (ys @ ch, [])"
  by (induction keep ys ch rule: drain.induct) simp_all

lemma drain_split: "drain keep ys ch = (ys', ch') \<Longrightarrow> ys' @ ch' = ys @ ch"
  by (induction keep ys ch rule: drain.induct) (auto split: if_splits)

lemma drain_length: "drain keep ys ch = (ys', ch') \<Longrightarrow> length ch' \<le> length ch"
  by (induction keep ys ch rule: drain.induct) (auto split: if_splits)

text \<open>Until it returns the loop yields what the feed delivers.\<close>

definition loop_explained ::
  "(Event list \<Rightarrow> bool) \<Rightarrow> watch_turn list \<Rightarrow> Event list \<Rightarrow> sessionEventSubscriber
     \<Rightarrow> bool \<times> Event list \<times> sessionEventSubscriber \<Rightarrow> bool" where
  "loop_explained keep ts ys s = (\<lambda>(ret, ys', s').
     \<exists>ops es s''. feed_run ssCh (\<lambda>ev s. snd (session_tryPublishLocked ev s)) session_take session_shut ops s = (es, s'')
       \<and> prefix ops (turn_ops ts) \<and> ys' @ ssCh s' = ys @ es @ ssCh s''
       \<and> (\<not> ret \<longrightarrow> ops = turn_ops ts \<and> s'' = s' \<and> ys' = ys @ es) \<and> length (ssCh s') \<le> length (ssCh s'')
       \<and> (ret \<and> (\<forall>zs. keep zs) \<and> LoopCtx \<notin> set ts \<longrightarrow> ssCh s' = [] \<and> ssClosed s''))"

lemma loop_explained_op:
  assumes "loop_explained keep ts (ys @ ds) s1 res"
    and t: "turn_ops (t # ts) = op # turn_ops ts" "t \<noteq> LoopCtx"
    and r: "\<And>ops. feed_run ssCh (\<lambda>ev s. snd (session_tryPublishLocked ev s)) session_take session_shut (op # ops) s =
      apfst ((@) ds) (feed_run ssCh (\<lambda>ev s. snd (session_tryPublishLocked ev s)) session_take session_shut ops s1)"
  shows "loop_explained keep (t # ts) ys s res"
proof -
  obtain ret ys' s' where res: "res = (ret, ys', s')"
    by (cases res)
  then obtain ops es s'' where "feed_run ssCh (\<lambda>ev s. snd (session_tryPublishLocked ev s)) session_take session_shut ops s1 = (es, s'')"
    "prefix ops (turn_ops ts)" "ys' @ ssCh s' = (ys @ ds) @ es @ ssCh s''"
    "\<not> ret \<longrightarrow> ops = turn_ops ts \<and> s'' = s' \<and> ys' = (ys @ ds) @ es" "length (ssCh s') \<le> length (ssCh s'')"
    "ret \<and> (\<forall>zs. keep zs) \<and> LoopCtx \<notin> set ts \<longrightarrow> ssCh s' = [] \<and> ssClosed s''"
    using assms(1) unfolding loop_explained_def by blast
  thus ?thesis
    unfolding loop_explained_def res prod.case using t
    by (intro exI [of _ "op # ops"] exI [of _ "ds @ es"] exI [of _ s'']) (simp add: r del: feed_run.simps)
qed

lemma loop_explained_offer:
  "loop_explained keep ts ys (snd (session_tryPublishLocked ev s)) res \<Longrightarrow> loop_explained keep (EnvPublish ev # ts) ys s res"
  by (rule loop_explained_op [where ds = "[]" and op = "Offer ev"]) (simp_all add: apfst_def map_prod_def case_prod_beta)

lemma loop_explained_shut:
  "loop_explained keep ts ys (session_shut s) res \<Longrightarrow> loop_explained keep (EnvClose # ts) ys s res"
  by (rule loop_explained_op [where ds = "[]" and op = Shut]) (simp_all add: apfst_def map_prod_def case_prod_beta)

lemma loop_explained_take:
  "loop_explained keep ts (ys @ take 1 (ssCh s)) (session_take s) res \<Longrightarrow> loop_explained keep (LoopEvent # ts) ys s res"
  by (rule loop_explained_op [where op = Take])
    (simp_all add: apfst_def map_prod_def case_prod_beta Let_def split: list.splits)

lemma loop_explained_idle:
  "loop_explained keep ts ys s res \<Longrightarrow> loop_explained keep (LoopDone # ts) ys s res"
  by (cases res) (simp add: loop_explained_def)

lemma loop_explained_return:
  assumes "ys' @ ssCh s' = ys @ ssCh s" "(\<forall>zs. keep zs) \<and> LoopCtx \<notin> set ts \<longrightarrow> ssCh s' = [] \<and> ssClosed s"
    "length (ssCh s') \<le> length (ssCh s)"
  shows "loop_explained keep ts ys s (True, ys', s')"
  using assms by (simp add: loop_explained_def) (rule exI [of _ "[]"], simp)

lemma runSessionEventSeq_feed:
  "session_sub_inv s \<Longrightarrow> loop_explained keep ts ys s (runSessionEventSeq keep ts ys s)"
proof (induction keep ts ys s rule: runSessionEventSeq.induct)
  case (2 keep ev ts ys s)
  thus ?case
    using session_feed.offer_inv [of s ev] by (simp add: loop_explained_offer)
next
  case (3 keep ts ys s)
  thus ?case
    using session_feed.shut_inv [of s] by (simp add: loop_explained_shut session_shut_def)
next
  case (4 keep ts ys s)
  show ?case
    by (simp add: loop_explained_return)
next
  case (5 keep ts ys s)
  thus ?case
    using drain_split [of keep ys "ssCh s"] drain_all [of keep ys "ssCh s"] drain_length [of keep ys "ssCh s"]
    by (auto simp: drainSessionEvents_def session_sub_inv_def loop_explained_idle split: prod.splits
        intro: loop_explained_return)
next
  case (6 keep ts ys s)
  show ?case
  proof (cases "ssCh s")
    case Nil
    hence "session_take s = s"
      by (simp add: session_take_def)
    thus ?thesis
      using 6 Nil loop_explained_take [of keep ts ys s] by simp
  next
    case (Cons ev ch)
    hence "session_take s = s\<lparr>ssCh := ch\<rparr>"
      by (simp add: session_take_def)
    thus ?thesis
      using 6 Cons loop_explained_take [of keep ts ys s]
      by (auto simp: session_sub_inv_def intro: loop_explained_return)
  qed
qed (auto simp: loop_explained_def)

text \<open>The events published to a watcher before it was closed.\<close>

definition published :: "watch_turn list \<Rightarrow> Event list" where
  "published ts = offered (turn_ops ts)"

lemma offered_prefix: "prefix xs ys \<Longrightarrow> prefix (offered xs) (offered ys)"
proof (induction xs arbitrary: ys rule: offered.induct)
  case (2 e ops)
  thus ?case
    by (cases ys) auto
next
  case (3 ops)
  thus ?case
    by (cases ys) auto
qed auto

lemma keeps_up_prefix: "prefix xs ys \<Longrightarrow> keeps_up cap n ys \<Longrightarrow> keeps_up cap n xs"
proof (induction cap n xs arbitrary: ys rule: keeps_up.induct)
  case (2 cap n e ops)
  thus ?case
    by (cases ys) auto
next
  case (3 cap n ops)
  thus ?case
    by (cases ys) auto
qed auto

lemma new_subscriber: "session_sub_inv newSessionSubscriber" "\<not> ssClosed newSessionSubscriber" "ssCh newSessionSubscriber = []"
  by (simp_all add: session_sub_inv_def newSessionSubscriber_def)

lemma publish_loop_heap:
  assumes "distinct as" "set as \<subseteq> {..<length (swHeap w)}"
  shows "swHeap (publish_loop ev as w) = map (\<lambda>a. if a \<in> set as then snd (session_tryPublishLocked ev (swHeap w ! a))
      else swHeap w ! a) [0..<length (swHeap w)]
    \<and> swSubs (publish_loop ev as w) = swSubs w"
  using assms
proof (induction as arbitrary: w)
  case Nil
  thus ?case
    by (simp add: map_nth)
next
  case (Cons a as)
  let ?w = "w\<lparr>swHeap := (swHeap w)[a := snd (session_tryPublishLocked ev (swHeap w ! a))]\<rparr>"
  have "swHeap (publish_loop ev as ?w) = map (\<lambda>b. if b \<in> set as then snd (session_tryPublishLocked ev (swHeap ?w ! b))
      else swHeap ?w ! b) [0..<length (swHeap w)] \<and> swSubs (publish_loop ev as ?w) = swSubs w"
    using Cons.IH [of ?w] Cons.prems by simp
  thus ?case
    using Cons.prems by (auto simp: nth_list_update intro!: map_cong)
qed

text \<open>The bus as a whole.\<close>

datatype bus_op = BusSubscribe | BusPublish Event | BusRemove nat | BusCloseAll | BusShutdown

fun bus_step :: "bus_op \<Rightarrow> session_watch \<Rightarrow> session_watch option" where
  "bus_step BusSubscribe w = Some (snd (WatchSessions_subscribe w))"
| "bus_step (BusPublish ev) w = Some (publishSessionEvent ev w)"
| "bus_step (BusRemove a) w = (if a < length (swHeap w) then removeSubscriber a w else Some w)"
| "bus_step BusCloseAll w = closeAllSubscribers w"
| "bus_step BusShutdown w = Some (w\<lparr>swShutdown := True\<rparr>)"

fun bus_run :: "bus_op list \<Rightarrow> session_watch \<Rightarrow> session_watch option" where
  "bus_run [] w = Some w"
| "bus_run (b # bs) w = (case bus_step b w of None \<Rightarrow> None | Some w \<Rightarrow> bus_run bs w)"

definition new_bus :: session_watch where
  "new_bus = \<lparr>swHeap = [], swSubs = [], swShutdown = False\<rparr>"

definition bus_inv :: "session_watch \<Rightarrow> bool" where
  "bus_inv w \<longleftrightarrow> distinct (swSubs w) \<and> set (swSubs w) \<subseteq> {..<length (swHeap w)}
     \<and> (\<forall>a<length (swHeap w). session_sub_inv (swHeap w ! a) \<and> length (ssCh (swHeap w ! a)) \<le> sessionEventBufSize
          \<and> (ssClosed (swHeap w ! a) \<longleftrightarrow> a \<notin> set (swSubs w)))"

lemma closeDoneLocked_inv:
  "session_sub_inv s \<Longrightarrow> session_closeDoneLocked s = Some (s\<lparr>ssClosed := True, ssDone := True\<rparr>)"
  by (simp add: session_closeDoneLocked_def session_sub_inv_def)

lemma close_loop_heap:
  assumes "\<forall>a\<in>set as. a < length (swHeap w) \<and> session_sub_inv (swHeap w ! a)"
  shows "\<exists>w'. close_loop as w = Some w' \<and> swSubs w' = swSubs w \<and> length (swHeap w') = length (swHeap w)
    \<and> (\<forall>a<length (swHeap w). swHeap w' ! a = (if a \<in> set as then (swHeap w ! a)\<lparr>ssClosed := True, ssDone := True\<rparr>
          else swHeap w ! a))"
  using assms
proof (induction as arbitrary: w)
  case (Cons a as)
  let ?w = "w\<lparr>swHeap := (swHeap w)[a := (swHeap w ! a)\<lparr>ssClosed := True, ssDone := True\<rparr>]\<rparr>"
  have step: "session_closeDone a w = Some ?w"
    using Cons.prems by (simp add: session_closeDone_def closeDoneLocked_inv)
  have "\<forall>b\<in>set as. b < length (swHeap ?w) \<and> session_sub_inv (swHeap ?w ! b)"
    using Cons.prems by (auto simp: nth_list_update session_sub_inv_def)
  from Cons.IH [OF this] obtain w' where w': "close_loop as ?w = Some w'" "swSubs w' = swSubs w"
    "length (swHeap w') = length (swHeap w)"
    "\<forall>b<length (swHeap w). swHeap w' ! b = (if b \<in> set as then (swHeap ?w ! b)\<lparr>ssClosed := True, ssDone := True\<rparr>
          else swHeap ?w ! b)"
    by auto
  have "swHeap w' ! b = (if b \<in> set (a # as) then (swHeap w ! b)\<lparr>ssClosed := True, ssDone := True\<rparr>
      else swHeap w ! b)" if "b < length (swHeap w)" for b
    using w'(4) that by (cases "b = a") simp_all
  thus ?case
    using step w'(1-3) by simp
qed simp

lemma bus_step_inv: "bus_inv w \<Longrightarrow> \<exists>w'. bus_step b w = Some w' \<and> bus_inv w'"
proof (cases b)
  case BusSubscribe
  assume "bus_inv w"
  thus ?thesis
    using BusSubscribe new_subscriber
    by (auto simp: WatchSessions_subscribe_def bus_inv_def Let_def nth_append less_Suc_eq)
next
  case (BusPublish ev)
  assume w: "bus_inv w"
  have "swHeap (publishSessionEvent ev w) = map (\<lambda>a. if a \<in> set (swSubs w) then snd (session_tryPublishLocked ev (swHeap w ! a))
      else swHeap w ! a) [0..<length (swHeap w)] \<and> swSubs (publishSessionEvent ev w) = swSubs w"
    using w publish_loop_heap unfolding bus_inv_def publishSessionEvent_def by blast
  thus ?thesis
    using w BusPublish by (auto simp: bus_inv_def session_tryPublishLocked_def session_sub_inv_def)
next
  case (BusRemove a)
  assume w: "bus_inv w"
  thus ?thesis
    using BusRemove
    by (cases "a < length (swHeap w)")
      (auto simp: removeSubscriber_def session_closeDone_def bus_inv_def closeDoneLocked_inv nth_list_update
        session_sub_inv_def set_remove1_eq dest: notin_set_remove1)
next
  case BusCloseAll
  assume w: "bus_inv w"
  have "\<forall>a\<in>set (swSubs w). a < length (swHeap (w\<lparr>swSubs := []\<rparr>)) \<and> session_sub_inv (swHeap (w\<lparr>swSubs := []\<rparr>) ! a)"
    using w by (auto simp: bus_inv_def)
  from close_loop_heap [OF this] show ?thesis
    using w BusCloseAll by (auto simp: closeAllSubscribers_def bus_inv_def session_sub_inv_def)
next
  case BusShutdown
  assume "bus_inv w"
  thus ?thesis
    using BusShutdown by (simp add: bus_inv_def)
qed

lemma bus_run_inv: "bus_inv w \<Longrightarrow> \<exists>w'. bus_run bs w = Some w' \<and> bus_inv w'"
proof (induction bs arbitrary: w)
  case (Cons b bs)
  obtain w1 where "bus_step b w = Some w1" "bus_inv w1"
    using bus_step_inv [OF Cons.prems] by blast
  thus ?case
    using Cons.IH by simp
qed simp

text \<open>The importer's merged sequence.\<close>

fun own_events :: "yielded list \<Rightarrow> Event list" where
  "own_events [] = []"
| "own_events (FromImporter ev # ys) = ev # own_events ys"
| "own_events (_ # ys) = own_events ys"

fun kernel_events :: "yielded list \<Rightarrow> Event list" where
  "kernel_events [] = []"
| "kernel_events (FromKernel ev # ys) = ev # kernel_events ys"
| "kernel_events (_ # ys) = kernel_events ys"

lemma own_events_append [simp]: "own_events (xs @ ys) = own_events xs @ own_events ys"
  by (induction xs rule: own_events.induct) simp_all

lemma kernel_events_append [simp]: "kernel_events (xs @ ys) = kernel_events xs @ kernel_events ys"
  by (induction xs rule: kernel_events.induct) simp_all

fun merged_ops :: "merged_turn list \<Rightarrow> Event feed_op list" where
  "merged_ops [] = []"
| "merged_ops (MPublish ev # ts) = Offer ev # merged_ops ts"
| "merged_ops (MClose # ts) = Shut # merged_ops ts"
| "merged_ops (MSelect OnOwn _ _ # ts) = Take # merged_ops ts"
| "merged_ops (MSelect _ _ _ # ts) = merged_ops ts"

fun kernel_feed :: "merged_turn list \<Rightarrow> Event list" where
  "kernel_feed [] = []"
| "kernel_feed (MSelect (OnKernel (Some ev)) _ _ # ts) = ev # kernel_feed ts"
| "kernel_feed (_ # ts) = kernel_feed ts"

lemma drain_own_split:
  "drain_own keep ys ch = (ys', ch') \<Longrightarrow>
     own_events ys' @ ch' = own_events ys @ ch \<and> kernel_events ys' = kernel_events ys
     \<and> (\<forall>e. Failed e \<in> set ys' \<longrightarrow> Failed e \<in> set ys)"
  by (induction keep ys ch rule: drain_own.induct) (auto split: if_splits)

text \<open>What one run of the merged loop has to do with the importer's feed.\<close>

definition merged_ok ::
  "merged_turn list \<Rightarrow> yielded list \<Rightarrow> importerEventSubscriber \<Rightarrow> bool \<times> yielded list \<times> importerEventSubscriber \<Rightarrow> bool" where
  "merged_ok ts ys s out \<longleftrightarrow> (case out of (ret, ys', s') \<Rightarrow>
     (\<exists>ops es s''. feed_run isCh (\<lambda>ev s. snd (importer_tryPublishLocked ev s)) importer_take importer_shut ops s = (es, s'')
        \<and> prefix ops (merged_ops ts) \<and> own_events ys' @ isCh s' = own_events ys @ es @ isCh s'')
     \<and> (\<exists>zs. kernel_events ys' = kernel_events ys @ zs \<and> prefix zs (kernel_feed ts))
     \<and> (\<forall>e. Failed e \<in> set ys' - set ys \<longrightarrow> ret \<and> e = [App ErrEventStreamClosed] \<and> last ys' = Failed e
          \<and> MSelect (OnKernel None) False False \<in> set ts \<and> \<not> isDone s'))"

lemma merged_ok_step:
  assumes "merged_ok ts ys' s' out"
    and "feed_run isCh (\<lambda>ev s. snd (importer_tryPublishLocked ev s)) importer_take importer_shut ops1 s = (es1, s')"
    and "merged_ops (t # ts) = ops1 @ merged_ops ts" "own_events ys' = own_events ys @ es1"
    and "kernel_events ys' = kernel_events ys @ ks" "kernel_feed (t # ts) = ks @ kernel_feed ts"
    and "\<forall>e. Failed e \<in> set ys' \<longrightarrow> Failed e \<in> set ys" "set ys \<subseteq> set ys'"
  shows "merged_ok (t # ts) ys s out"
proof -
  let ?run = "feed_run isCh (\<lambda>ev s. snd (importer_tryPublishLocked ev s)) importer_take importer_shut"
  obtain ret ys2 s2 where out: "out = (ret, ys2, s2)"
    by (cases out)
  obtain ops es s'' where o: "?run ops s' = (es, s'')" "prefix ops (merged_ops ts)"
    "own_events ys2 @ isCh s2 = own_events ys' @ es @ isCh s''"
    and k: "\<exists>zs. kernel_events ys2 = kernel_events ys' @ zs \<and> prefix zs (kernel_feed ts)"
    and f: "\<forall>e. Failed e \<in> set ys2 - set ys' \<longrightarrow> ret \<and> e = [App ErrEventStreamClosed] \<and> last ys2 = Failed e
        \<and> MSelect (OnKernel None) False False \<in> set ts \<and> \<not> isDone s2"
    using assms(1) unfolding merged_ok_def out by auto
  have "?run (ops1 @ ops) s = (es1 @ es, s'')"
    using feed_run_append [OF assms(2) o(1)] .
  moreover have "prefix (ops1 @ ops) (merged_ops (t # ts))"
    using o(2) assms(3) by simp
  moreover have "\<exists>zs. kernel_events ys2 = kernel_events ys @ zs \<and> prefix zs (kernel_feed (t # ts))"
    using k assms(5,6) by auto
  ultimately show ?thesis
    using o(3) f assms(4,7,8) unfolding merged_ok_def out by (auto intro!: exI [of _ "ops1 @ ops"])
qed

lemma merged_ok_return:
  assumes "own_events ys' @ isCh s' = own_events ys @ isCh s" "kernel_events ys' = kernel_events ys @ ks"
    "prefix ks (kernel_feed ts)"
    "\<forall>e. Failed e \<in> set ys' - set ys \<longrightarrow> e = [App ErrEventStreamClosed] \<and> last ys' = Failed e
       \<and> MSelect (OnKernel None) False False \<in> set ts \<and> \<not> isDone s'"
  shows "merged_ok ts ys s (True, ys', s')"
  using assms unfolding merged_ok_def by (auto intro!: exI [of _ "[]"])

lemma merged_continue:
  assumes sel: "mergedSelectOnce keep br ys s = Some (mergedSelectContinue, ys1, s1)" and IH: "merged_ok ts ys1 s1 out"
  shows "merged_ok (MSelect br c d # ts) ys s out"
proof (cases br)
  case (OnKernel m)
  then obtain ev where "m = Some ev" "ys1 = ys @ [FromKernel ev]" "s1 = s"
    using sel by (cases m) (auto simp: mergedSelectOnce_def Let_def)
  thus ?thesis
    using merged_ok_step [OF IH, of "[]" s "[]" "MSelect br c d" ys "[ev]"] OnKernel by auto
next
  case OnOwn
  then obtain ev ch where "isCh s = ev # ch" "ys1 = ys @ [FromImporter ev]" "s1 = s\<lparr>isCh := ch\<rparr>"
    using sel by (auto simp: mergedSelectOnce_def Let_def split: list.splits)
  thus ?thesis
    using merged_ok_step [OF IH, of "[Take]" s "[ev]" "MSelect br c d" ys "[]"] OnOwn by (auto simp: importer_take_def)
qed (use sel in \<open>auto simp: mergedSelectOnce_def split: if_splits\<close>)

lemma merged_stop:
  assumes sel: "mergedSelectOnce keep br ys s = Some (mergedSelectStop, ys1, s1)"
  shows "merged_ok (MSelect br c d # ts) ys s (True, ys1, s1)"
proof (cases br)
  case OnCtx
  thus ?thesis
    using sel by (auto simp: mergedSelectOnce_def intro: merged_ok_return [where ks = "[]"])
next
  case OnDone
  thus ?thesis
    using sel drain_own_split [of keep ys "isCh s"]
    by (auto simp: mergedSelectOnce_def drainImporterSubscriber_def split: if_splits prod.splits
        intro!: merged_ok_return [where ks = "[]"])
next
  case (OnKernel m)
  then obtain ev where "m = Some ev" "ys1 = ys @ [FromKernel ev]" "s1 = s"
    using sel by (cases m) (auto simp: mergedSelectOnce_def Let_def)
  thus ?thesis
    using OnKernel by (auto intro!: merged_ok_return [where ks = "[ev]"])
next
  case OnOwn
  then obtain ev ch where "isCh s = ev # ch" "ys1 = ys @ [FromImporter ev]" "s1 = s\<lparr>isCh := ch\<rparr>"
    using sel by (auto simp: mergedSelectOnce_def Let_def split: list.splits)
  thus ?thesis
    by (auto intro!: merged_ok_return [where ks = "[]"])
qed

lemma merged_source_closed:
  assumes sel: "mergedSelectOnce keep br ys s = Some (mergedSelectSourceClosed, ys1, s1)"
  shows "merged_ok (MSelect br c d # ts) ys s
    (True, if watchStopped c d s1 then ys1 else ys1 @ [Failed [App ErrEventStreamClosed]], s1)"
proof -
  have "br = OnKernel None" "ys1 = ys" "s1 = s"
    using sel by (auto simp: mergedSelectOnce_def mergedEventResult_def Let_def
        split: select_branch.splits option.splits list.splits if_splits)
  thus ?thesis
    by (auto simp: watchStopped_def intro!: merged_ok_return [where ks = "[]"] split: if_splits)
qed

lemma merged_blocked:
  assumes sel: "mergedSelectOnce keep br ys s = None" and IH: "merged_ok ts ys s out"
  shows "merged_ok (MSelect br c d # ts) ys s out"
proof -
  consider (own) "br = OnOwn" "isCh s = []" | (closed) "br = OnDone"
    using sel by (cases br) (auto simp: mergedSelectOnce_def Let_def split: option.splits list.splits)
  thus ?thesis
  proof cases
    case own
    thus ?thesis
      using merged_ok_step [OF IH, of "[Take]" s "[]" "MSelect br c d" ys "[]"] by (simp add: importer_take_def)
  next
    case closed
    thus ?thesis
      using merged_ok_step [OF IH, of "[]" s "[]" "MSelect br c d" ys "[]"] by simp
  qed
qed

lemma runImporterMergedSeq_ok: "merged_ok ts ys s (runImporterMergedSeq keep ts ys s)"
proof (induction keep ts ys s rule: runImporterMergedSeq.induct)
  case (1 keep ys s)
  show ?case
    by (auto simp: merged_ok_def intro!: exI [of _ "[]"])
next
  case (2 keep ev ts ys s)
  show ?case
    using merged_ok_step [OF 2, of "[Offer ev]" s "[]" "MPublish ev" ys "[]"] by simp
next
  case (3 keep ts ys s)
  show ?case
    using merged_ok_step [of ts ys "importer_shut s" _ "[Shut]" s "[]" MClose ys "[]"] 3 by (simp add: importer_shut_def)
next
  case (4 keep br ctxErr closed ts ys s)
  show ?case
  proof (cases "mergedSelectOnce keep br ys s")
    case None
    thus ?thesis
      using merged_blocked [OF None "4.IH"(1)] by simp
  next
    case (Some out)
    obtain res ys1 s1 where out: "out = (res, ys1, s1)"
      by (cases out)
    show ?thesis
    proof (cases res)
      case mergedSelectStop
      thus ?thesis
        using Some out merged_stop [of keep br ys s ys1 s1] by simp
    next
      case mergedSelectContinue
      thus ?thesis
        using Some out merged_continue [of keep br ys s ys1 s1] "4.IH"(2) [OF Some out [symmetric] refl] by simp
    next
      case mergedSelectSourceClosed
      thus ?thesis
        using Some out merged_source_closed [of keep br ys s ys1 s1] by simp
    qed
  qed
qed

section \<open>Properties\<close>

lemma offered_shut: "prefix xs ys \<Longrightarrow> Shut \<in> set xs \<Longrightarrow> offered xs = offered ys"
proof (induction xs arbitrary: ys rule: offered.induct)
  case (2 e ops)
  thus ?case
    by (cases ys) auto
next
  case (3 ops)
  thus ?case
    by (cases ys) auto
next
  case (4 ops)
  thus ?case
    by (cases ys) auto
qed auto

text \<open>C24: What a session watcher sees.  Whatever is published and closed around it and whichever way its selects
  go, the events it has yielded followed by those it still buffers (at most sixteen) are an ordered
  selection of the events published before it was closed, and an initial segment of them as long as its
  buffer never ran full.  When the loop ends because the watcher was closed, rather than cancelled or
  stopped by its consumer, nothing is left in the buffer, so a consumer that kept up has seen every
  event.\<close>
theorem session_watch_delivery:
  assumes "runSessionEventSeq keep ts [] newSessionSubscriber = (ret, ys, s)"
  shows "subseq (ys @ ssCh s) (published ts) \<and> length (ssCh s) \<le> sessionEventBufSize
    \<and> (keeps_up sessionEventBufSize 0 (turn_ops ts) \<longrightarrow> prefix (ys @ ssCh s) (published ts))
    \<and> (ret \<and> (\<forall>zs. keep zs) \<and> LoopCtx \<notin> set ts \<longrightarrow>
         ssCh s = [] \<and> (keeps_up sessionEventBufSize 0 (turn_ops ts) \<longrightarrow> ys = published ts))"
proof -
  let ?run = "feed_run ssCh (\<lambda>ev s. snd (session_tryPublishLocked ev s)) session_take session_shut"
  obtain ops es s'' where run: "?run ops newSessionSubscriber = (es, s'')" and pre: "prefix ops (turn_ops ts)"
    and split: "ys @ ssCh s = es @ ssCh s''" and len: "length (ssCh s) \<le> length (ssCh s'')"
    and fin: "ret \<and> (\<forall>zs. keep zs) \<and> LoopCtx \<notin> set ts \<longrightarrow> ssCh s = [] \<and> ssClosed s''"
    using runSessionEventSeq_feed [OF new_subscriber(1), of keep ts "[]"] assms unfolding loop_explained_def by auto
  have acc: "subseq (ys @ ssCh s) (offered ops)" "keeps_up sessionEventBufSize 0 ops \<longrightarrow> ys @ ssCh s = offered ops"
    using session_feed.open_run [OF new_subscriber(1,2) run] new_subscriber(3) split by auto
  note off = offered_prefix [OF pre, folded published_def]
  have "subseq (ys @ ssCh s) (published ts)"
    using acc(1) off by (auto simp: prefix_def intro: subseq_order.trans)
  moreover have "prefix (ys @ ssCh s) (published ts)" if "keeps_up sessionEventBufSize 0 (turn_ops ts)"
    using acc(2) keeps_up_prefix [OF pre that] off by simp
  moreover have "length (ssCh s) \<le> sessionEventBufSize"
    using session_feed.capacity [OF new_subscriber(1), of ops] new_subscriber(3) run len by simp
  moreover have "ys = published ts" if d: "ret \<and> (\<forall>zs. keep zs) \<and> LoopCtx \<notin> set ts"
    and k: "keeps_up sessionEventBufSize 0 (turn_ops ts)"
  proof -
    have "Shut \<in> set ops"
      using session_feed.still_open [OF new_subscriber(1,2), of ops] run fin d by fastforce
    thus ?thesis
      using acc(2) keeps_up_prefix [OF pre k] offered_shut [OF pre] fin d by (simp add: published_def)
  qed
  ultimately show ?thesis
    using fin by blast
qed

definition sample_event :: Event where
  "sample_event = PortAttachedEvent 0 \<lparr>pID = 0, pStatus = StatusUsed, pSpeed = SpeedHigh, pDeviceID = 1,
     pRemote = \<lparr>reHost = [], rePort = 0\<rparr>, pBusID = ''1-1'', pLocalBusID = ''1-1''\<rparr>"

definition sample_turns :: "watch_turn list" where
  "sample_turns = [EnvPublish sample_event, LoopEvent, EnvClose, LoopDone]"

lemma sample_watch:
  "runSessionEventSeq (\<lambda>_. True) sample_turns [] newSessionSubscriber =
     (True, [sample_event], newSessionSubscriber\<lparr>ssClosed := True, ssDone := True\<rparr>)"
  by (simp add: sample_turns_def newSessionSubscriber_def session_tryPublishLocked_def session_closeDoneLocked_def
      drainSessionEvents_def sessionEventBufSize_def)

theorem session_watch_delivery_witness: "published sample_turns = [sample_event]"
proof -
  have "keeps_up sessionEventBufSize 0 (turn_ops sample_turns)" "LoopCtx \<notin> set sample_turns"
    by (simp_all add: sample_turns_def sessionEventBufSize_def)
  thus ?thesis
    using session_watch_delivery [OF sample_watch] by simp
qed

text \<open>The exporter's session events never block or disturb each other.  No sequence of subscribing, publishing,
  removing, closing all and shutting down closes a channel twice; exactly the registered watchers are
  open; an event reaches every registered watcher whose buffer has room, whatever the others' buffers
  hold, and nothing else changes.\<close>
theorem session_bus_sound:
  "\<exists>w. bus_run bs new_bus = Some w
    \<and> (\<forall>a<length (swHeap w).
          (ssClosed (swHeap w ! a) \<longleftrightarrow> a \<notin> set (swSubs w))
        \<and> length (ssCh (swHeap w ! a)) \<le> sessionEventBufSize
        \<and> swHeap (publishSessionEvent ev w) ! a =
            (if a \<in> set (swSubs w) \<and> length (ssCh (swHeap w ! a)) < sessionEventBufSize
             then (swHeap w ! a)\<lparr>ssCh := ssCh (swHeap w ! a) @ [ev]\<rparr> else swHeap w ! a))"
proof -
  have "bus_inv new_bus"
    by (simp add: bus_inv_def new_bus_def)
  from bus_run_inv [OF this] obtain w where w: "bus_run bs new_bus = Some w" "bus_inv w"
    by blast
  have "swHeap (publishSessionEvent ev w) = map (\<lambda>a. if a \<in> set (swSubs w) then snd (session_tryPublishLocked ev (swHeap w ! a))
      else swHeap w ! a) [0..<length (swHeap w)]"
    using w(2) publish_loop_heap unfolding bus_inv_def publishSessionEvent_def by blast
  thus ?thesis
    using w by (intro exI [of _ w]) (auto simp: bus_inv_def session_tryPublishLocked_def)
qed

definition sample_bus :: "bus_op list" where
  "sample_bus = [BusSubscribe, BusSubscribe, BusRemove 0]"

definition sample_bus_state :: session_watch where
  "sample_bus_state = \<lparr>swHeap = [newSessionSubscriber\<lparr>ssClosed := True, ssDone := True\<rparr>, newSessionSubscriber],
     swSubs = [1], swShutdown = False\<rparr>"

lemma sample_bus_run: "bus_run sample_bus new_bus = Some sample_bus_state"
  by (simp add: sample_bus_def new_bus_def sample_bus_state_def WatchSessions_subscribe_def removeSubscriber_def
      session_closeDone_def session_closeDoneLocked_def newSessionSubscriber_def)

theorem session_bus_sound_witness: "ssCh (swHeap (publishSessionEvent sample_event sample_bus_state) ! 1) = [sample_event]"
proof -
  have *: "1 < length (swHeap sample_bus_state)" "1 \<in> set (swSubs sample_bus_state)"
    "ssCh (swHeap sample_bus_state ! 1) = []" "0 < sessionEventBufSize"
    by (simp_all add: sample_bus_state_def newSessionSubscriber_def sessionEventBufSize_def)
  show ?thesis
    using session_bus_sound [of sample_bus sample_event] *
    by (simp only: sample_bus_run option.inject ex_simps) auto
qed

definition newImporterSubscriber :: importerEventSubscriber where
  "newImporterSubscriber = \<lparr>isCh = [], isDone = False, isClosed = False\<rparr>"

text \<open>What an importer watcher sees.  Kernel events come through in order and none is skipped; the importer's
  own events are an ordered selection of those published before the watcher was closed, complete while its
  buffer did not run full.  The stream-closed error is yielded at most as the last item, and only when
  the kernel stream ended although neither the watcher's context nor the importer nor the watcher itself
  had been stopped.\<close>
theorem importer_watch_delivery:
  assumes "runImporterMergedSeq keep ts [] newImporterSubscriber = (ret, ys, s)"
  shows "prefix (kernel_events ys) (kernel_feed ts)
    \<and> subseq (own_events ys @ isCh s) (offered (merged_ops ts))
    \<and> (keeps_up importerEventBufSize 0 (merged_ops ts) \<longrightarrow> prefix (own_events ys @ isCh s) (offered (merged_ops ts)))
    \<and> (\<forall>e. Failed e \<in> set ys \<longrightarrow> ret \<and> e = [App ErrEventStreamClosed] \<and> last ys = Failed e
         \<and> MSelect (OnKernel None) False False \<in> set ts \<and> \<not> isDone s)"
proof -
  let ?run = "feed_run isCh (\<lambda>ev s. snd (importer_tryPublishLocked ev s)) importer_take importer_shut"
  have new: "importer_sub_inv newImporterSubscriber" "\<not> isClosed newImporterSubscriber" "isCh newImporterSubscriber = []"
    by (simp_all add: importer_sub_inv_def newImporterSubscriber_def)
  have ok: "merged_ok ts [] newImporterSubscriber (ret, ys, s)"
    using runImporterMergedSeq_ok [of ts "[]" newImporterSubscriber keep] assms by simp
  then obtain ops es s'' where run: "?run ops newImporterSubscriber = (es, s'')" and pre: "prefix ops (merged_ops ts)"
    and split: "own_events ys @ isCh s = es @ isCh s''"
    by (auto simp: merged_ok_def)
  have acc: "subseq (own_events ys @ isCh s) (offered ops)"
    "keeps_up importerEventBufSize 0 ops \<longrightarrow> own_events ys @ isCh s = offered ops"
    using importer_feed.open_run [OF new(1,2) run] new(3) split by auto
  have "subseq (own_events ys @ isCh s) (offered (merged_ops ts))"
    using acc(1) offered_prefix [OF pre] by (auto simp: prefix_def intro: subseq_order.trans)
  moreover have "prefix (own_events ys @ isCh s) (offered (merged_ops ts))"
    if "keeps_up importerEventBufSize 0 (merged_ops ts)"
    using acc(2) keeps_up_prefix [OF pre that] offered_prefix [OF pre] by simp
  ultimately show ?thesis
    using ok by (auto simp: merged_ok_def)
qed

theorem importer_watch_delivery_witness:
  "Failed [App ErrEventStreamClosed] \<in> set (fst (snd (runImporterMergedSeq (\<lambda>_. True)
     [MSelect (OnKernel (Some sample_event)) False False, MSelect (OnKernel None) False False] [] newImporterSubscriber)))
   \<and> MSelect (OnKernel None) False False \<in>
       set [MSelect (OnKernel (Some sample_event)) False False, MSelect (OnKernel None) False False]"
proof -
  have "runImporterMergedSeq (\<lambda>_. True) [MSelect (OnKernel (Some sample_event)) False False, MSelect (OnKernel None) False False]
      [] newImporterSubscriber = (True, [FromKernel sample_event, Failed [App ErrEventStreamClosed]], newImporterSubscriber)"
    by (simp add: mergedSelectOnce_def mergedEventResult_def watchStopped_def newImporterSubscriber_def Let_def)
  from importer_watch_delivery [OF this] this show ?thesis
    by simp
qed

end
