(* ===== verification/Importer_Bus.thy ===== *)
theory Importer_Bus
  imports Event_Feed
begin

text \<open>
  \<open>internal/app/importer_watch.go\<close> and \<open>Watch\<close>/\<open>WatchWithErrors\<close> of \<open>importer.go\<close>: the importer's own events on their way to its
  watchers.  Publishing takes a snapshot of the subscriber list and then visits the subscribers one by one, and so does
  closing; any number of watchers and publishers and one \<open>Close\<close> interleave between the visits.  \<open>None\<close> is a panic.
\<close>

section \<open>State\<close>

text \<open>One ranging over \<open>WatchWithErrors\<close>: before the eager check, before the registration, registered, after a failed kernel subscription
  (with the error it still owes its consumer), running, taken off the list, and returned with the error it yielded.\<close>

datatype watch_call =
    WcNew | WcIter | WcSubscribed nat | WcFailed nat "go_error option" | WcRunning nat | WcRemoved nat "go_error option"
  | WcReturned "go_error option"

datatype publisher = PubIdle | PubLoop Event "nat list"

datatype bus_closer = BcOpen | BcMarked | BcLoop "nat list" | BcDone

record importer_bus =
  ibClosed :: bool
  ibHeap :: "importerEventSubscriber list"
  ibSubs :: "nat list"
  ibCalls :: "nat \<Rightarrow> watch_call"
  ibPubs :: "nat \<Rightarrow> publisher"
  ibCloser :: bus_closer

definition new_importer_bus :: importer_bus where
  "new_importer_bus = \<lparr>ibClosed = False, ibHeap = [], ibSubs = [], ibCalls = (\<lambda>_. WcNew), ibPubs = (\<lambda>_. PubIdle), ibCloser = BcOpen\<rparr>"

abbreviation call_at :: "importer_bus \<Rightarrow> nat \<Rightarrow> watch_call \<Rightarrow> importer_bus" where
  "call_at b c pc \<equiv> b\<lparr>ibCalls := (ibCalls b)(c := pc)\<rparr>"

section \<open>Operations\<close>

definition importer_closeDone :: "nat \<Rightarrow> importer_bus \<Rightarrow> importer_bus option" where
  "importer_closeDone a b = map_option (\<lambda>s. b\<lparr>ibHeap := (ibHeap b)[a := s]\<rparr>) (importer_closeDoneLocked (ibHeap b ! a))"

definition importer_tryPublish :: "Event \<Rightarrow> nat \<Rightarrow> importer_bus \<Rightarrow> importer_bus" where
  "importer_tryPublish ev a b = b\<lparr>ibHeap := (ibHeap b)[a := snd (importer_tryPublishLocked ev (ibHeap b ! a))]\<rparr>"

text \<open>\<open>WatchWithErrors\<close>: the eager check, and what ranging over the sequence does under the lock.\<close>

definition watch_check :: "nat \<Rightarrow> importer_bus \<Rightarrow> importer_bus" where
  "watch_check c b = call_at b c (if ibClosed b then WcReturned None else WcIter)"

definition watch_register :: "nat \<Rightarrow> importer_bus \<Rightarrow> importer_bus" where
  "watch_register c b =
     (if ibClosed b then call_at b c (WcReturned None)
      else let a = length (ibHeap b)
        in b\<lparr>ibHeap := ibHeap b @ [newImporterSubscriber], ibSubs := ibSubs b @ [a], ibCalls := (ibCalls b)(c := WcSubscribed a)\<rparr>)"

definition watch_subscribe :: "nat \<Rightarrow> nat \<Rightarrow> go_error option \<Rightarrow> bool \<Rightarrow> importer_bus \<Rightarrow> importer_bus" where
  "watch_subscribe c a answer ctxErr b =
     (case answer of
        None \<Rightarrow> call_at b c (WcRunning a)
      | Some err \<Rightarrow> call_at b c (WcFailed a (if watchStopped ctxErr (ibClosed b) (ibHeap b ! a) then None else Some err)))"

text \<open>The two halves of \<open>removeImporterSubscriber\<close>.\<close>

definition watch_remove :: "nat \<Rightarrow> nat \<Rightarrow> go_error option \<Rightarrow> importer_bus \<Rightarrow> importer_bus" where
  "watch_remove c a res b = (call_at b c (WcRemoved a res))\<lparr>ibSubs := remove1 a (ibSubs b)\<rparr>"

definition watch_close :: "nat \<Rightarrow> nat \<Rightarrow> go_error option \<Rightarrow> importer_bus \<Rightarrow> importer_bus option" where
  "watch_close c a res b = map_option (\<lambda>b. call_at b c (WcReturned res)) (importer_closeDone a b)"

text \<open>\<open>publishImporterEvent\<close>: the snapshot, and one turn of its loop.\<close>

definition publish_snapshot :: "nat \<Rightarrow> Event \<Rightarrow> importer_bus \<Rightarrow> importer_bus" where
  "publish_snapshot p ev b = b\<lparr>ibPubs := (ibPubs b)(p := PubLoop ev (ibSubs b))\<rparr>"

definition publish_turn :: "nat \<Rightarrow> Event \<Rightarrow> nat list \<Rightarrow> importer_bus \<Rightarrow> importer_bus" where
  "publish_turn p ev rest b =
     (case rest of
        [] \<Rightarrow> b\<lparr>ibPubs := (ibPubs b)(p := PubIdle)\<rparr>
      | a # as \<Rightarrow> (importer_tryPublish ev a b)\<lparr>ibPubs := (ibPubs b)(p := PubLoop ev as)\<rparr>)"

text \<open>\<open>closeAllImporterSubscribers\<close>, which \<open>Close\<close> calls after it has set the flag.\<close>

definition close_take :: "importer_bus \<Rightarrow> importer_bus" where
  "close_take b = b\<lparr>ibSubs := [], ibCloser := BcLoop (ibSubs b)\<rparr>"

definition close_turn :: "nat list \<Rightarrow> importer_bus \<Rightarrow> importer_bus option" where
  "close_turn rest b =
     (case rest of
        [] \<Rightarrow> Some (b\<lparr>ibCloser := BcDone\<rparr>)
      | a # as \<Rightarrow> map_option (\<lambda>b. b\<lparr>ibCloser := BcLoop as\<rparr>) (importer_closeDone a b))"

section \<open>Interleavings\<close>

inductive importer_bus_step :: "importer_bus \<Rightarrow> importer_bus option \<Rightarrow> bool" where
  ib_check: "ibCalls b c = WcNew \<Longrightarrow> importer_bus_step b (Some (watch_check c b))"
| ib_register: "ibCalls b c = WcIter \<Longrightarrow> importer_bus_step b (Some (watch_register c b))"
| ib_subscribe: "ibCalls b c = WcSubscribed a \<Longrightarrow> importer_bus_step b (Some (watch_subscribe c a answer ctxErr b))"
| ib_failed: "ibCalls b c = WcFailed a res \<Longrightarrow> importer_bus_step b (Some (watch_remove c a res b))"
| ib_ended: "ibCalls b c = WcRunning a \<Longrightarrow> importer_bus_step b (Some (watch_remove c a None b))"
| ib_removed: "ibCalls b c = WcRemoved a res \<Longrightarrow> importer_bus_step b (watch_close c a res b)"
| ib_consume: "a < length (ibHeap b) \<Longrightarrow>
    importer_bus_step b (Some (b\<lparr>ibHeap := (ibHeap b)[a := importer_take (ibHeap b ! a)]\<rparr>))"
| ib_publish: "ibPubs b p = PubIdle \<Longrightarrow> importer_bus_step b (Some (publish_snapshot p ev b))"
| ib_turn: "ibPubs b p = PubLoop ev rest \<Longrightarrow> importer_bus_step b (Some (publish_turn p ev rest b))"
| ib_mark: "ibCloser b = BcOpen \<Longrightarrow> importer_bus_step b (Some (b\<lparr>ibClosed := True, ibCloser := BcMarked\<rparr>))"
| ib_take: "ibCloser b = BcMarked \<Longrightarrow> importer_bus_step b (Some (close_take b))"
| ib_close: "ibCloser b = BcLoop rest \<Longrightarrow> importer_bus_step b (close_turn rest b)"

inductive importer_bus_reach :: "importer_bus option \<Rightarrow> bool" where
  ib_init: "importer_bus_reach (Some new_importer_bus)"
| ib_next: "importer_bus_reach (Some b) \<Longrightarrow> importer_bus_step b r \<Longrightarrow> importer_bus_reach r"

section \<open>Invariant\<close>

fun call_addr :: "watch_call \<Rightarrow> nat option" where
  "call_addr (WcSubscribed a) = Some a"
| "call_addr (WcFailed a _) = Some a"
| "call_addr (WcRunning a) = Some a"
| "call_addr (WcRemoved a _) = Some a"
| "call_addr _ = None"

fun removing :: "watch_call \<Rightarrow> nat set" where
  "removing (WcRemoved a _) = {a}"
| "removing _ = {}"

fun closing :: "bus_closer \<Rightarrow> nat set" where
  "closing (BcLoop rest) = set rest"
| "closing _ = {}"

text \<open>A subscriber that is not closed yet is on the list, or someone is about to close it.\<close>

definition accounted :: "importer_bus \<Rightarrow> nat \<Rightarrow> bool" where
  "accounted b a \<longleftrightarrow> isClosed (ibHeap b ! a) \<or> a \<in> set (ibSubs b) \<or> a \<in> closing (ibCloser b) \<or> (\<exists>c. a \<in> removing (ibCalls b c))"

definition heap_ok :: "importerEventSubscriber list \<Rightarrow> bool" where
  "heap_ok h \<longleftrightarrow> list_all (\<lambda>s. importer_sub_inv s \<and> length (isCh s) \<le> importerEventBufSize) h"

definition importer_bus_inv :: "importer_bus \<Rightarrow> bool" where
  "importer_bus_inv b \<longleftrightarrow>
     heap_ok (ibHeap b) \<and> set (ibSubs b) \<union> closing (ibCloser b) \<subseteq> {..<length (ibHeap b)}
   \<and> (\<forall>c a. call_addr (ibCalls b c) = Some a \<longrightarrow> a < length (ibHeap b))
   \<and> (\<forall>p ev rest. ibPubs b p = PubLoop ev rest \<longrightarrow> set rest \<subseteq> {..<length (ibHeap b)})
   \<and> (ibClosed b \<longleftrightarrow> ibCloser b \<noteq> BcOpen) \<and> (ibCloser b \<notin> {BcOpen, BcMarked} \<longrightarrow> ibSubs b = [])
   \<and> (\<forall>a<length (ibHeap b). accounted b a)"

abbreviation shut_sub :: "importerEventSubscriber \<Rightarrow> importerEventSubscriber" where
  "shut_sub s \<equiv> s\<lparr>isClosed := True, isDone := True\<rparr>"

lemma heap_ok_nth: "heap_ok h \<Longrightarrow> a < length h \<Longrightarrow> importer_sub_inv (h ! a) \<and> length (isCh (h ! a)) \<le> importerEventBufSize"
  by (simp add: heap_ok_def list_all_length)

lemma heap_ok_upd:
  "heap_ok h \<Longrightarrow> importer_sub_inv s \<Longrightarrow> length (isCh s) \<le> importerEventBufSize \<Longrightarrow> heap_ok (h[a := s])"
  unfolding heap_ok_def list_all_length by (metis length_list_update nth_list_update_eq nth_list_update_neq)

lemma closeDone_total:
  assumes "heap_ok (ibHeap b)" "a < length (ibHeap b)"
  shows "importer_closeDone a b = Some (b\<lparr>ibHeap := (ibHeap b)[a := shut_sub (ibHeap b ! a)]\<rparr>)"
proof -
  have "importer_closeDoneLocked (ibHeap b ! a) = Some (shut_sub (ibHeap b ! a))"
    using heap_ok_nth [OF assms] by (simp add: importer_closeDoneLocked_def importer_sub_inv_def)
  thus ?thesis
    by (simp add: importer_closeDone_def)
qed

text \<open>Changing one subscriber without reopening it.\<close>

lemma bus_inv_sub:
  assumes "importer_bus_inv b" "importer_sub_inv s" "length (isCh s) \<le> importerEventBufSize" "isClosed (ibHeap b ! a) \<longrightarrow> isClosed s"
  shows "importer_bus_inv (b\<lparr>ibHeap := (ibHeap b)[a := s]\<rparr>)"
proof -
  have "accounted (b\<lparr>ibHeap := (ibHeap b)[a := s]\<rparr>) d" if "d < length (ibHeap b)" "accounted b d" for d
    using that assms(4) by (cases "d = a") (auto simp: accounted_def)
  thus ?thesis
    using assms(1) heap_ok_upd [OF _ assms(2,3)] by (simp add: importer_bus_inv_def)
qed

text \<open>Moving one call, the subscriber it had announced to close being closed or still announced.\<close>

lemma bus_inv_call:
  assumes "importer_bus_inv b" "\<And>a. call_addr pc = Some a \<Longrightarrow> a < length (ibHeap b)"
    "\<And>a. a \<in> removing (ibCalls b c) \<Longrightarrow> isClosed (ibHeap b ! a)"
  shows "importer_bus_inv (call_at b c pc)"
proof -
  have "accounted (call_at b c pc) d" if "accounted b d" for d
  proof -
    have "d \<in> removing (ibCalls b x) \<Longrightarrow> isClosed (ibHeap b ! d) \<or> d \<in> removing (ibCalls (call_at b c pc) x)" for x
      using assms(3) by (cases "x = c") auto
    moreover have "ibHeap (call_at b c pc) = ibHeap b" "ibSubs (call_at b c pc) = ibSubs b" "ibCloser (call_at b c pc) = ibCloser b"
      by simp_all
    ultimately show ?thesis
      using that unfolding accounted_def by metis
  qed
  thus ?thesis
    using assms(1,2) by (simp add: importer_bus_inv_def)
qed

lemma importer_tryPublish_sub:
  assumes "importer_sub_inv s" "length (isCh s) \<le> importerEventBufSize"
  shows "importer_sub_inv (snd (importer_tryPublishLocked ev s)) \<and> length (isCh (snd (importer_tryPublishLocked ev s))) \<le> importerEventBufSize
    \<and> isClosed (snd (importer_tryPublishLocked ev s)) = isClosed s"
  using assms by (auto simp: importer_tryPublishLocked_def importer_sub_inv_def)

lemma bus_inv_addr: "importer_bus_inv b \<Longrightarrow> call_addr (ibCalls b c) = Some a \<Longrightarrow> a < length (ibHeap b)"
  by (simp add: importer_bus_inv_def)

lemma bus_inv_register:
  assumes "importer_bus_inv b" "ibCalls b c = WcIter"
  shows "importer_bus_inv (watch_register c b)"
proof (cases "ibClosed b")
  case True
  thus ?thesis
    using assms by (auto simp: watch_register_def intro!: bus_inv_call)
next
  case False
  let ?b = "b\<lparr>ibHeap := ibHeap b @ [newImporterSubscriber], ibSubs := ibSubs b @ [length (ibHeap b)]\<rparr>"
  have "accounted ?b a" if "a < Suc (length (ibHeap b))" for a
    using that assms(1) unfolding importer_bus_inv_def accounted_def by (auto simp: nth_append less_Suc_eq)
  moreover have "heap_ok (ibHeap ?b)"
    using assms(1) by (simp add: importer_bus_inv_def heap_ok_def newImporterSubscriber_def importer_sub_inv_def)
  moreover have "ibCloser b = BcOpen"
    using assms(1) False by (simp add: importer_bus_inv_def)
  ultimately have "importer_bus_inv ?b"
    using assms(1) False by (fastforce simp: importer_bus_inv_def less_Suc_eq)
  from bus_inv_call [OF this, of "WcSubscribed (length (ibHeap b))" c] show ?thesis
    using False assms(2) by (simp add: watch_register_def Let_def)
qed

lemma bus_inv_remove:
  assumes "importer_bus_inv b" "call_addr (ibCalls b c) = Some a" "removing (ibCalls b c) = {}"
  shows "importer_bus_inv (watch_remove c a res b)"
proof -
  have "accounted (watch_remove c a res b) d" if "accounted b d" for d
  proof -
    have "d \<in> removing (ibCalls b x) \<Longrightarrow> d \<in> removing (ibCalls (watch_remove c a res b) x)" for x
      using assms(3) by (cases "x = c") (auto simp: watch_remove_def)
    moreover have "d \<in> set (ibSubs b) \<Longrightarrow> d \<in> set (ibSubs (watch_remove c a res b)) \<or> d \<in> removing (ibCalls (watch_remove c a res b) c)"
      by (cases "d = a") (auto simp: watch_remove_def)
    moreover have "ibHeap (watch_remove c a res b) = ibHeap b" "ibCloser (watch_remove c a res b) = ibCloser b"
      by (simp_all add: watch_remove_def)
    ultimately show ?thesis
      using that unfolding accounted_def by metis
  qed
  moreover have "set (remove1 a (ibSubs b)) \<subseteq> set (ibSubs b)"
    by (rule set_remove1_subset)
  ultimately show ?thesis
    using assms(1,2) by (auto simp: importer_bus_inv_def watch_remove_def)
qed

lemma bus_inv_close_sub: "importer_bus_inv b \<Longrightarrow> a < length (ibHeap b) \<Longrightarrow> importer_bus_inv (b\<lparr>ibHeap := (ibHeap b)[a := shut_sub (ibHeap b ! a)]\<rparr>)"
  using heap_ok_nth [of "ibHeap b" a] by (intro bus_inv_sub) (auto simp: importer_bus_inv_def importer_sub_inv_def)

lemma bus_inv_pubs:
  assumes "importer_bus_inv b" "\<And>ev rest. pub = PubLoop ev rest \<Longrightarrow> set rest \<subseteq> {..<length (ibHeap b)}"
  shows "importer_bus_inv (b\<lparr>ibPubs := (ibPubs b)(p := pub)\<rparr>)"
  using assms by (auto simp: importer_bus_inv_def accounted_def)

lemma bus_inv_publish_turn:
  assumes "importer_bus_inv b" "ibPubs b p = PubLoop ev rest"
  shows "importer_bus_inv (publish_turn p ev rest b)"
proof (cases rest)
  case Nil
  thus ?thesis
    using assms(1) by (auto simp: publish_turn_def intro!: bus_inv_pubs)
next
  case (Cons a as)
  have r: "set rest \<subseteq> {..<length (ibHeap b)}"
    using assms unfolding importer_bus_inv_def by blast
  hence "importer_bus_inv (importer_tryPublish ev a b)"
    using Cons assms(1) heap_ok_nth [of "ibHeap b" a] importer_tryPublish_sub [of "ibHeap b ! a" ev]
    unfolding importer_tryPublish_def by (intro bus_inv_sub) (auto simp: importer_bus_inv_def)
  moreover have "ibPubs (importer_tryPublish ev a b) = ibPubs b" "length (ibHeap (importer_tryPublish ev a b)) = length (ibHeap b)"
    by (simp_all add: importer_tryPublish_def)
  ultimately show ?thesis
    using Cons r bus_inv_pubs [of "importer_tryPublish ev a b" "PubLoop ev as" p] by (simp add: publish_turn_def)
qed

lemma bus_inv_close_turn:
  assumes "importer_bus_inv b" "ibCloser b = BcLoop rest"
  shows "\<exists>b'. close_turn rest b = Some b' \<and> importer_bus_inv b'"
proof (cases rest)
  case Nil
  thus ?thesis
    using assms by (auto simp: close_turn_def importer_bus_inv_def accounted_def)
next
  case (Cons a as)
  have a: "a < length (ibHeap b)" "heap_ok (ibHeap b)"
    using assms Cons by (auto simp: importer_bus_inv_def)
  let ?b = "b\<lparr>ibHeap := (ibHeap b)[a := shut_sub (ibHeap b ! a)]\<rparr>"
  have inv: "importer_bus_inv ?b"
    by (rule bus_inv_close_sub [OF assms(1) a(1)])
  have "accounted (?b\<lparr>ibCloser := BcLoop as\<rparr>) d" if "d < length (ibHeap b)" for d
  proof (cases "d = a")
    case True
    thus ?thesis
      using a(1) by (simp add: accounted_def)
  next
    case False
    have "accounted ?b d"
      using inv that by (simp add: importer_bus_inv_def)
    thus ?thesis
      using False assms(2) Cons by (auto simp: accounted_def)
  qed
  hence "importer_bus_inv (?b\<lparr>ibCloser := BcLoop as\<rparr>)"
    using inv assms(2) Cons by (simp add: importer_bus_inv_def)
  thus ?thesis
    using Cons closeDone_total [OF a(2,1)] by (simp add: close_turn_def)
qed

lemma importer_bus_step_inv:
  assumes "importer_bus_step b r" "importer_bus_inv b"
  shows "\<exists>b'. r = Some b' \<and> importer_bus_inv b'"
  using assms(1)
proof cases
  case (ib_check c)
  thus ?thesis
    using assms(2) by (auto simp: watch_check_def intro!: bus_inv_call)
next
  case (ib_register c)
  thus ?thesis
    using assms(2) bus_inv_register by simp
next
  case (ib_subscribe c a answer ctxErr)
  have "a < length (ibHeap b)"
    using bus_inv_addr [OF assms(2), of c a] ib_subscribe by simp
  thus ?thesis
    using assms(2) ib_subscribe by (auto simp: watch_subscribe_def split: option.split intro!: bus_inv_call)
next
  case (ib_failed c a res)
  thus ?thesis
    using bus_inv_remove [OF assms(2), of c a] by simp
next
  case (ib_ended c a)
  thus ?thesis
    using bus_inv_remove [OF assms(2), of c a] by simp
next
  case (ib_removed c a res)
  have a: "a < length (ibHeap b)" "heap_ok (ibHeap b)"
    using bus_inv_addr [OF assms(2), of c a] ib_removed assms(2) by (simp_all add: importer_bus_inv_def)
  have "importer_bus_inv (call_at (b\<lparr>ibHeap := (ibHeap b)[a := shut_sub (ibHeap b ! a)]\<rparr>) c (WcReturned res))"
    using ib_removed a by (intro bus_inv_call bus_inv_close_sub [OF assms(2)]) auto
  thus ?thesis
    using ib_removed a by (simp add: watch_close_def closeDone_total)
next
  case (ib_consume a)
  have "heap_ok (ibHeap b)"
    using assms(2) by (simp add: importer_bus_inv_def)
  hence "importer_sub_inv (importer_take (ibHeap b ! a))" "length (isCh (importer_take (ibHeap b ! a))) \<le> importerEventBufSize"
    using heap_ok_nth [of "ibHeap b" a] ib_consume(2) by (auto simp: importer_take_def importer_sub_inv_def)
  from bus_inv_sub [OF assms(2) this, of a] show ?thesis
    using ib_consume by (simp add: importer_take_def)
next
  case (ib_publish p ev)
  have "importer_bus_inv (publish_snapshot p ev b)"
    using assms(2) by (auto simp: importer_bus_inv_def accounted_def publish_snapshot_def)
  thus ?thesis
    using ib_publish by simp
next
  case (ib_turn p ev rest)
  thus ?thesis
    using bus_inv_publish_turn [OF assms(2)] by simp
next
  case ib_mark
  thus ?thesis
    using assms(2) by (auto simp: importer_bus_inv_def accounted_def)
next
  case ib_take
  thus ?thesis
    using assms(2) by (auto simp: importer_bus_inv_def accounted_def close_take_def)
next
  case (ib_close rest)
  thus ?thesis
    using bus_inv_close_turn [OF assms(2)] by simp
qed

lemma importer_bus_invariant: "importer_bus_reach r \<Longrightarrow> \<exists>b. r = Some b \<and> importer_bus_inv b"
proof (induction rule: importer_bus_reach.induct)
  case ib_init
  show ?case
    by (simp add: new_importer_bus_def importer_bus_inv_def heap_ok_def)
next
  case (ib_next b r)
  thus ?case
    using importer_bus_step_inv by blast
qed

section \<open>Properties\<close>

text \<open>C26: no watcher of the importer is left behind by \<open>Close\<close>.  In every interleaving of publishers, watchers and \<open>Close\<close>, with every loop
  over a snapshot interrupted anywhere, nothing panics (no channel is closed twice), buffers stay within their bound, and
  once \<open>closeAllImporterSubscribers\<close> is through every subscriber that was ever registered has its done channel closed, or its own
  watcher is about to close it; a subscriber that registers afterwards is refused.\<close>

theorem importer_bus_sound:
  assumes "importer_bus_reach r"
  shows "\<exists>b. r = Some b
    \<and> (\<forall>a<length (ibHeap b). length (isCh (ibHeap b ! a)) \<le> importerEventBufSize)
    \<and> (ibCloser b = BcDone \<longrightarrow>
         (\<forall>a<length (ibHeap b). isDone (ibHeap b ! a) \<or> (\<exists>c res. ibCalls b c = WcRemoved a res))
       \<and> (\<forall>c. ibHeap (watch_register c b) = ibHeap b \<and> ibCalls (watch_register c b) c = WcReturned None))"
proof -
  obtain b where b: "r = Some b" "importer_bus_inv b"
    using importer_bus_invariant [OF assms] by blast
  have "isDone (ibHeap b ! a) \<or> (\<exists>c res. ibCalls b c = WcRemoved a res)" if "ibCloser b = BcDone" "a < length (ibHeap b)" for a
  proof -
    have "accounted b a" "ibSubs b = []"
      using b(2) that by (auto simp: importer_bus_inv_def)
    hence "isClosed (ibHeap b ! a) \<or> (\<exists>c. a \<in> removing (ibCalls b c))"
      using that by (simp add: accounted_def)
    moreover have "a \<in> removing w \<Longrightarrow> \<exists>res. w = WcRemoved a res" for w
      by (cases w) auto
    ultimately show ?thesis
      using heap_ok_nth [of "ibHeap b" a] b(2) that by (metis importer_bus_inv_def importer_sub_inv_def)
  qed
  moreover have "length (isCh (ibHeap b ! a)) \<le> importerEventBufSize" if "a < length (ibHeap b)" for a
    using heap_ok_nth [of "ibHeap b" a] b(2) that by (simp add: importer_bus_inv_def)
  moreover have "ibHeap (watch_register c b) = ibHeap b \<and> ibCalls (watch_register c b) c = WcReturned None"
    if "ibCloser b = BcDone" for c
    using b(2) that by (simp add: importer_bus_inv_def watch_register_def)
  ultimately show ?thesis
    using b(1) by blast
qed

text \<open>A watcher that is running when the importer is closed.\<close>

definition closed_bus :: importer_bus where
  "closed_bus = \<lparr>ibClosed = True, ibHeap = [shut_sub newImporterSubscriber], ibSubs = [], ibCalls = (\<lambda>_. WcNew)(0 := WcSubscribed 0),
     ibPubs = (\<lambda>_. PubIdle), ibCloser = BcDone\<rparr>"

lemma closed_bus_reach: "importer_bus_reach (Some closed_bus)"
proof -
  let ?b1 = "call_at new_importer_bus 0 WcIter"
  let ?b2 = "(call_at new_importer_bus 0 (WcSubscribed 0))\<lparr>ibHeap := [newImporterSubscriber], ibSubs := [0]\<rparr>"
  let ?b3 = "?b2\<lparr>ibClosed := True, ibCloser := BcMarked\<rparr>"
  let ?b4 = "?b3\<lparr>ibSubs := [], ibCloser := BcLoop [0]\<rparr>"
  let ?b5 = "?b4\<lparr>ibHeap := [shut_sub newImporterSubscriber], ibCloser := BcLoop []\<rparr>"
  have "importer_bus_reach (Some ?b1)"
    using ib_next [OF ib_init ib_check [of new_importer_bus 0]] by (simp add: watch_check_def new_importer_bus_def)
  from ib_next [OF this ib_register [of ?b1 0]] have "importer_bus_reach (Some ?b2)"
    by (simp add: watch_register_def new_importer_bus_def)
  from ib_next [OF this ib_mark] have "importer_bus_reach (Some ?b3)"
    by (simp add: new_importer_bus_def)
  from ib_next [OF this ib_take] have "importer_bus_reach (Some ?b4)"
    by (simp add: close_take_def new_importer_bus_def)
  from ib_next [OF this ib_close [of ?b4 "[0]"]] have "importer_bus_reach (Some ?b5)"
    by (simp add: close_turn_def importer_closeDone_def importer_closeDoneLocked_def newImporterSubscriber_def)
  from ib_next [OF this ib_close [of ?b5 "[]"]] show ?thesis
    by (simp add: close_turn_def closed_bus_def new_importer_bus_def)
qed

theorem importer_bus_sound_witness: "importer_bus_reach (Some closed_bus) \<and> isDone (ibHeap closed_bus ! 0)"
proof -
  have "ibCloser closed_bus = BcDone" "0 < length (ibHeap closed_bus)" "\<And>c res. ibCalls closed_bus c \<noteq> WcRemoved 0 res"
    by (simp_all add: closed_bus_def)
  thus ?thesis
    using importer_bus_sound [OF closed_bus_reach] closed_bus_reach by auto
qed

end
