(* ===== verification/Importer_Run.thy ===== *)
theory Importer_Run
  imports Importer_State "HOL-Library.Multiset"
begin

text \<open>
  Runs of the Importer: goroutines interleave at the critical sections of \<open>Importer_State\<close>.  A
  \<open>duty\<close> is what a goroutine still has to do: an Attach holding its slot (and perhaps a port
  reservation), the owner of a detach attempt on a handle or on an untracked port, a finished
  attempt whose result is still to be published, a reconnect watcher, and a pending \<open>wg.Done\<close>.
\<close>

section \<open>Steps\<close>

datatype duty =
    DAttach attachKey "nat option"
  | DOwn PortID nat nat
  | DFinish nat nat "go_error option"
  | DUntracked PortID nat
  | DWatcher nat
  | DDone

type_synonym run = "Importer \<times> duty multiset"

definition comp_duty :: "PortID \<Rightarrow> nat \<Rightarrow> nat option \<Rightarrow> duty multiset" where
  "comp_duty p h compensation = (case compensation of None \<Rightarrow> {#} | Some a \<Rightarrow> {#DOwn p h a#})"

text \<open>The duty a Detach call takes on with the target it acquired.\<close>

definition target_duty :: "PortID \<Rightarrow> detachTarget \<Rightarrow> duty multiset" where
  "target_duty p t =
     (if \<not> dtOwner t then {#}
      else case (dtHandle t, dtAttempt t) of
        (Some h, Some a) \<Rightarrow> {#DOwn p h a#}
      | (None, Some a) \<Rightarrow> {#DUntracked p a#}
      | _ \<Rightarrow> {#})"

definition exact_duty :: "PortID \<Rightarrow> nat \<Rightarrow> (nat \<times> bool) option \<Rightarrow> duty multiset" where
  "exact_duty p h got = (case got of Some (a, True) \<Rightarrow> {#DOwn p h a#} | _ \<Rightarrow> {#})"

inductive importer_step :: "run \<Rightarrow> run \<Rightarrow> bool" where
  slot: "acquireAttachSlot i ep b = Some (Inr (), i') \<Longrightarrow>
    importer_step (i, D) (i', add_mset (DAttach (ep, b) None) D)"
| reserve: "reserveAttachPort i p t = (Inr r, i') \<Longrightarrow>
    importer_step (i, add_mset (DAttach k None) D) (i', add_mset (DAttach k (Some r)) D)"
| abort: "importer_step (i, add_mset (DAttach k (Some r)) D)
    (abortAttachReservation i (Some r), add_mset (DAttach k None) D)"
| publish: "registerHandle i p b ep t auto res = Some (Inr (h, cmp), i') \<Longrightarrow>
    importer_step (i, add_mset (DAttach k res) D) (i', add_mset (DAttach k None) (comp_duty p h cmp + D))"
| publish_error: "registerHandle i p b ep t auto res = Some (Inl e, i') \<Longrightarrow>
    importer_step (i, add_mset (DAttach k res) D) (i', add_mset (DAttach k res) D)"
| release: "importer_step (i, add_mset (DAttach (ep, b) None) D)
    (releaseAttachSlot_locked i ep b, add_mset DDone D)"
| wait_done: "wg_done_i i = Some i' \<Longrightarrow> importer_step (i, add_mset DDone D) (i', D)"
| detach: "acquireDetachTarget i p = Some (Inr t, i') \<Longrightarrow>
    importer_step (i, D) (i', target_duty p t + D)"
| detach_exact: "detachExactHandle_locked i p h = Some (got, i') \<Longrightarrow>
    importer_step (i, D) (i', exact_duty p h got + D)"
| own_cancel: "importer_step (i, add_mset (DOwn p h a) D) (portHandle_cancel i h, add_mset (DOwn p h a) D)"
| own_gone: "\<not> stillOurs i p h \<Longrightarrow>
    importer_step (i, add_mset (DOwn p h a) D) (i, add_mset (DFinish h a None) D)"
| own_kernel: "importer_step (i, add_mset (DOwn p h a) D)
    (detachHandle_result i p h kerr, add_mset (DFinish h a kerr) D)"
| own_finish: "finishDetachAttempt i h a err = Some i' \<Longrightarrow>
    importer_step (i, add_mset (DFinish h a err) D) (i', add_mset DDone D)"
| untracked_finish: "finishUntracked_locked i p a err = Some i' \<Longrightarrow>
    importer_step (i, add_mset (DUntracked p a) D) (i', add_mset DDone D)"
| close: "importer_step (i, D) (Close_locked i, D)"
| cancel: "importer_step (i, D) (portHandle_cancel i h, D)"
| record_port: "importer_step (i, D) (upd_handle i h (\<lambda>x. x\<lparr>phLastKnownPort := port\<rparr>), D)"
| watcher_spawn: "wg_add_i i 1 = Some i' \<Longrightarrow> importer_step (i, D) (i', add_mset (DWatcher h) D)"
| watcher_exit: "importer_step (i, add_mset (DWatcher h) D)
    (upd_handle i h (\<lambda>x. x\<lparr>phWatcherDone := map_option (\<lambda>_. True) (phWatcherDone x)\<rparr>), add_mset DDone D)"

inductive importer_reach :: "run \<Rightarrow> bool" where
  start: "importer_reach (NewImporter, {#})"
| step: "importer_reach s \<Longrightarrow> importer_step s s' \<Longrightarrow> importer_reach s'"

section \<open>Invariants\<close>

fun duty_attempt :: "duty \<Rightarrow> nat option" where
  "duty_attempt (DOwn _ _ a) = Some a"
| "duty_attempt (DFinish _ a _) = Some a"
| "duty_attempt (DUntracked _ a) = Some a"
| "duty_attempt _ = None"

fun duty_key :: "duty \<Rightarrow> attachKey option" where
  "duty_key (DAttach k _) = Some k"
| "duty_key _ = None"

fun duty_res :: "duty \<Rightarrow> nat option" where
  "duty_res (DAttach _ r) = r"
| "duty_res _ = None"

fun duty_handle :: "duty \<Rightarrow> (nat \<times> nat) option" where
  "duty_handle (DOwn _ h a) = Some (h, a)"
| "duty_handle (DFinish h a _) = Some (h, a)"
| "duty_handle _ = None"

fun duty_port :: "duty \<Rightarrow> (PortID \<times> nat) option" where
  "duty_port (DUntracked p a) = Some (p, a)"
| "duty_port _ = None"

text \<open>How many duties have a given part.\<close>

definition holders :: "(duty \<Rightarrow> 'a option) \<Rightarrow> 'a \<Rightarrow> duty multiset \<Rightarrow> nat" where
  "holders f x D = size (filter_mset (\<lambda>d. f d = Some x) D)"

lemma holders_add [simp]: "holders f x (add_mset d D) = (if f d = Some x then 1 else 0) + holders f x D"
  by (simp add: holders_def)

lemma holders_union [simp]: "holders f x (A + D) = holders f x A + holders f x D"
  by (simp add: holders_def)

lemma holders_empty [simp]: "holders f x {#} = 0"
  by (simp add: holders_def)

text \<open>Every attempt whose channel is open is owned by exactly one duty, every other by none.\<close>

definition attempts_inv :: "run \<Rightarrow> bool" where
  "attempts_inv s \<longleftrightarrow> (case s of (i, D) \<Rightarrow>
     \<forall>a. holders duty_attempt a D
         = (if a < length (iAttHeap i) \<and> \<not> daDone (iAttHeap i ! a) then 1 else 0))"

text \<open>The keys of the attaches in progress are exactly the in-flight set, each held once.\<close>

definition slots_inv :: "run \<Rightarrow> bool" where
  "slots_inv s \<longleftrightarrow> (case s of (i, D) \<Rightarrow>
     \<forall>k. holders duty_key k D = (if k \<in> set (iInFlight i) then 1 else 0))"

text \<open>A reservation in the map is open, is filed under its own port and belongs to exactly one
  Attach; an open reservation is in the map.\<close>

definition res_inv :: "run \<Rightarrow> bool" where
  "res_inv s \<longleftrightarrow> (case s of (i, D) \<Rightarrow>
     (\<forall>p r. iReservations i p = Some r \<longrightarrow>
        r < length (iResHeap i) \<and> arID (iResHeap i ! r) = p \<and> \<not> arDone (iResHeap i ! r)
        \<and> holders duty_res r D = 1)
     \<and> (\<forall>r. holders duty_res r D \<le> (if r < length (iResHeap i) then 1 else 0))
     \<and> (\<forall>r<length (iResHeap i). \<not> arDone (iResHeap i ! r) \<longrightarrow>
          iReservations i (arID (iResHeap i ! r)) = Some r))"

text \<open>Generations number the handles in order of publication.\<close>

definition handles_inv :: "run \<Rightarrow> bool" where
  "handles_inv s \<longleftrightarrow> (case s of (i, D) \<Rightarrow>
     (\<forall>p h. iHandles i p = Some h \<longrightarrow> h < length (iHandleHeap i))
     \<and> iNextGen i = of_nat (length (iHandleHeap i))
     \<and> (\<forall>h<length (iHandleHeap i). phGeneration (iHandleHeap i ! h) = of_nat (Suc h)))"

text \<open>The owner of an attempt on a handle holds the attempt the handle points to.\<close>

definition owners_inv :: "run \<Rightarrow> bool" where
  "owners_inv s \<longleftrightarrow> (case s of (i, D) \<Rightarrow>
     (\<forall>h a. 0 < holders duty_handle (h, a) D \<longrightarrow>
        h < length (iHandleHeap i) \<and> phDetachAttempt (iHandleHeap i ! h) = Some a)
     \<and> (\<forall>p a. 0 < holders duty_port (p, a) D \<longleftrightarrow> iUntracked i p = Some a)
     \<and> (\<forall>p. iReservations i p = None \<or> iUntracked i p = None))"

definition wg_inv :: "run \<Rightarrow> bool" where
  "wg_inv s \<longleftrightarrow> (case s of (i, D) \<Rightarrow> wg_ok (iWg i) (size D))"

definition importer_inv :: "run \<Rightarrow> bool" where
  "importer_inv s \<longleftrightarrow>
     wg_inv s \<and> attempts_inv s \<and> slots_inv s \<and> res_inv s \<and> handles_inv s \<and> owners_inv s"

lemmas importer_invs =
  wg_inv_def attempts_inv_def slots_inv_def res_inv_def handles_inv_def owners_inv_def

lemma inv_start: "importer_inv (NewImporter, {#})"
  by (simp add: importer_inv_def importer_invs NewImporter_def wg_ok_def)

section \<open>Frames\<close>

lemmas upd_defs = upd_handle_def upd_res_def portHandle_cancel_def attachReservation_finish_def

lemma wg_add_i_ok:
  assumes "wg_ok (iWg i) n"
  shows "\<exists>g. wg_add_i i 1 = Some (i\<lparr>iWg := g\<rparr>) \<and> wg_ok g (Suc n)"
  using wg_Add_1 [OF assms] by (auto simp: wg_add_i_def)

lemma wg_done_i_ok:
  assumes "wg_ok (iWg i) (Suc n)"
  shows "\<exists>g. wg_done_i i = Some (i\<lparr>iWg := g\<rparr>) \<and> wg_ok g n"
  using wg_Done_ok [OF assms] by (auto simp: wg_done_i_def)

lemma nth_upd_frame:
  assumes "\<And>x. F (f x) = F x"
  shows "F (xs[h := f (xs ! h)] ! k) = F (xs ! k)"
proof (cases "h < length xs")
  case True
  thus ?thesis
    using assms by (cases "h = k") simp_all
qed (simp add: list_update_beyond)

lemma owner_attempt:
  assumes "importer_inv (i, D)" "0 < holders duty_handle (h, a) D"
  shows "h < length (iHandleHeap i) \<and> phDetachAttempt (iHandleHeap i ! h) = Some a"
  using assms by (simp add: importer_inv_def owners_inv_def)

lemma inv_slot: "importer_inv (i, D) \<Longrightarrow> holders duty_key k D = (if k \<in> set (iInFlight i) then 1 else 0)"
  by (cases k) (simp add: importer_inv_def slots_inv_def)

lemma inv_res_map:
  assumes "importer_inv (i, D)" "iReservations i p = Some r"
  shows "r < length (iResHeap i) \<and> arID (iResHeap i ! r) = p \<and> \<not> arDone (iResHeap i ! r)
    \<and> holders duty_res r D = 1"
  using assms by (simp add: importer_inv_def res_inv_def)

lemma inv_res_le: "importer_inv (i, D) \<Longrightarrow> holders duty_res r D \<le> (if r < length (iResHeap i) then 1 else 0)"
  by (simp add: importer_inv_def res_inv_def)

lemma inv_res_open:
  "importer_inv (i, D) \<Longrightarrow> r < length (iResHeap i) \<Longrightarrow> \<not> arDone (iResHeap i ! r) \<Longrightarrow>
    iReservations i (arID (iResHeap i ! r)) = Some r"
  by (simp add: importer_inv_def res_inv_def)

lemma inv_excl: "importer_inv (i, D) \<Longrightarrow> iReservations i p = None \<or> iUntracked i p = None"
  by (simp add: importer_inv_def owners_inv_def)

lemma untracked_holder:
  assumes "importer_inv (i, D)"
  shows "0 < holders duty_port (p, a) D \<longleftrightarrow> iUntracked i p = Some a"
  using assms by (simp add: importer_inv_def owners_inv_def)

text \<open>Changing fields of a handle that no invariant mentions.\<close>

lemma upd_handle_inv:
  assumes "importer_inv (i, D)"
    "\<And>x. phGeneration (f x) = phGeneration x" "\<And>x. phDetachAttempt (f x) = phDetachAttempt x"
  shows "importer_inv (upd_handle i h f, D)"
  using assms(1) nth_upd_frame [where F = phGeneration and f = f, OF assms(2)]
    nth_upd_frame [where F = phDetachAttempt and f = f, OF assms(3)]
  by (simp add: importer_inv_def importer_invs upd_handle_def)

text \<open>Taking a new attempt on a handle.\<close>

lemma acquire_new_inv:
  assumes "importer_inv (i, D)" "h < length (iHandleHeap i)" "phDetachAttempt (iHandleHeap i ! h) = None"
    "acquireDetachAttempt i h = (a, owner, i1)" "wg_ok g (Suc (size D))"
  shows "importer_inv (i1\<lparr>iWg := g\<rparr>, add_mset (DOwn p h a) D)"
proof -
  have i1: "a = length (iAttHeap i)" "owner"
      "i1 = upd_handle (i\<lparr>iAttHeap := iAttHeap i @ [\<lparr>daDone = False, daErr = None\<rparr>]\<rparr>) h
         (\<lambda>x. x\<lparr>phDetachAttempt := Some a\<rparr>)"
    using assms(3,4) by (auto simp: acquireDetachAttempt_def new_detachAttempt_def Let_def)
  have wg: "wg_inv (i1\<lparr>iWg := g\<rparr>, add_mset (DOwn p h a) D)"
    using assms(5) by (simp add: wg_inv_def)
  have at: "attempts_inv (i1\<lparr>iWg := g\<rparr>, add_mset (DOwn p h a) D)"
    using assms(1) by (auto simp: importer_inv_def attempts_inv_def i1 upd_handle_def nth_append)
  have no: "holders duty_handle (h, b) D = 0" for b
    using owner_attempt [OF assms(1), of h b] assms(3) by (cases "holders duty_handle (h, b) D") simp_all
  have ow: "owners_inv (i1\<lparr>iWg := g\<rparr>, add_mset (DOwn p h a) D)"
    using assms(1,2) no by (auto simp: importer_inv_def owners_inv_def i1 upd_handle_def nth_list_update)
  show ?thesis
    using assms(1,2) wg at ow
    by (auto simp: importer_inv_def slots_inv_def res_inv_def handles_inv_def i1 upd_handle_def
        nth_list_update)
qed

lemma acquire_old:
  "phDetachAttempt (iHandleHeap i ! h) = Some a \<Longrightarrow> acquireDetachAttempt i h = (a, False, i)"
  by (simp add: acquireDetachAttempt_def)

lemma acquire_owner:
  "acquireDetachAttempt i h = (a, owner, i1) \<Longrightarrow> owner \<longleftrightarrow> phDetachAttempt (iHandleHeap i ! h) = None"
  by (auto simp: acquireDetachAttempt_def Let_def split: option.splits prod.splits)

lemma acquire_frame:
  "acquireDetachAttempt i h = (a, owner, i1) \<Longrightarrow> iWg i1 = iWg i \<and> iReservations i1 = iReservations i
    \<and> iHandles i1 = iHandles i \<and> iResHeap i1 = iResHeap i \<and> length (iHandleHeap i1) = length (iHandleHeap i)"
  by (auto simp: acquireDetachAttempt_def new_detachAttempt_def upd_handle_def Let_def
      split: option.splits prod.splits)

lemma inv_wg: "importer_inv (i, D) \<Longrightarrow> wg_ok (iWg i) (size D)"
  by (simp add: importer_inv_def wg_inv_def)

lemma inv_handle: "importer_inv (i, D) \<Longrightarrow> iHandles i p = Some h \<Longrightarrow> h < length (iHandleHeap i)"
  by (simp add: importer_inv_def handles_inv_def)

text \<open>The section shared by \<open>acquireDetachTarget\<close> and \<open>detachExactHandle\<close>.\<close>

lemma own_handle_inv:
  assumes "importer_inv (i, D)" "h < length (iHandleHeap i)" "acquireDetachAttempt i h = (a, True, i1)"
  shows "\<exists>i2. wg_add_i i1 1 = Some i2
    \<and> importer_inv (upd_handle i2 h (\<lambda>x. x\<lparr>phDetaching := True\<rparr>), add_mset (DOwn p h a) D)"
proof -
  obtain g where g: "wg_add_i i1 1 = Some (i1\<lparr>iWg := g\<rparr>)" "wg_ok g (Suc (size D))"
    using wg_add_i_ok [of i1 "size D"] inv_wg [OF assms(1)] acquire_frame [OF assms(3)] by auto
  have "importer_inv (i1\<lparr>iWg := g\<rparr>, add_mset (DOwn p h a) D)"
    using acquire_new_inv [OF assms(1,2) _ assms(3) g(2)] acquire_owner [OF assms(3)] by simp
  thus ?thesis
    using g(1) by (auto intro: upd_handle_inv)
qed

lemma upd_res_inv:
  assumes "importer_inv (i, D)" "\<And>x. arID (f x) = arID x" "\<And>x. arDone (f x) = arDone x"
  shows "importer_inv (upd_res i r f, D)"
  using assms(1) nth_upd_frame [where F = arID and f = f, OF assms(2)]
    nth_upd_frame [where F = arDone and f = f, OF assms(3)]
  by (simp add: importer_inv_def importer_invs upd_res_def)

lemma cancel_inv: "importer_inv (i, D) \<Longrightarrow> importer_inv (portHandle_cancel i h, D)"
  by (simp add: portHandle_cancel_def upd_handle_inv)

lemma new_untracked_inv:
  assumes "importer_inv (i, D)" "iReservations i p = None" "iUntracked i p = None"
    "new_detachAttempt i = (a, i1)"
  shows "\<exists>i2. wg_add_i (i1\<lparr>iUntracked := (iUntracked i1)(p \<mapsto> a)\<rparr>) 1 = Some i2
    \<and> importer_inv (i2, add_mset (DUntracked p a) D)"
proof -
  let ?j = "i1\<lparr>iUntracked := (iUntracked i1)(p \<mapsto> a)\<rparr>"
  have i1: "a = length (iAttHeap i)" "i1 = i\<lparr>iAttHeap := iAttHeap i @ [\<lparr>daDone = False, daErr = None\<rparr>]\<rparr>"
    using assms(4) by (auto simp: new_detachAttempt_def)
  obtain g where g: "wg_add_i ?j 1 = Some (?j\<lparr>iWg := g\<rparr>)" "wg_ok g (Suc (size D))"
    using wg_add_i_ok [of ?j "size D"] inv_wg [OF assms(1)] by (auto simp: i1)
  have at: "attempts_inv (?j\<lparr>iWg := g\<rparr>, add_mset (DUntracked p a) D)"
    using assms(1) by (auto simp: importer_inv_def attempts_inv_def i1 nth_append)
  have no: "holders duty_port (p, b) D = 0" for b
    using untracked_holder [OF assms(1), of p b] assms(3) by simp
  have ow: "owners_inv (?j\<lparr>iWg := g\<rparr>, add_mset (DUntracked p a) D)"
    using assms(1-3) no by (auto simp: importer_inv_def owners_inv_def i1)
  have "importer_inv (?j\<lparr>iWg := g\<rparr>, add_mset (DUntracked p a) D)"
    using assms(1) at ow g(2)
    by (simp add: importer_inv_def slots_inv_def res_inv_def handles_inv_def wg_inv_def i1)
  thus ?thesis
    using g(1) by blast
qed

section \<open>Preservation\<close>

lemma detach_inv:
  assumes "importer_inv (i, D)"
  shows "\<exists>res i'. acquireDetachTarget i p = Some (res, i')
    \<and> (case res of Inl _ \<Rightarrow> i' = i | Inr t \<Rightarrow> importer_inv (i', target_duty p t + D))"
proof (cases "iClosed i")
  case False
  note open_i = this
  show ?thesis
  proof (cases "iReservations i p")
    case (Some r)
    thus ?thesis
      using open_i assms
      by (auto simp: acquireDetachTarget_def Let_def target_duty_def split: option.splits
          intro!: upd_res_inv cancel_inv upd_handle_inv)
  next
    case None
    note no_res = this
    show ?thesis
    proof (cases "iHandles i p")
      case (Some h)
      obtain a owner i1 where acq: "acquireDetachAttempt i h = (a, owner, i1)"
        by (metis prod_cases3)
      show ?thesis
      proof (cases owner)
        case True
        thus ?thesis
          using own_handle_inv [OF assms inv_handle [OF assms Some], of a i1 p] acq open_i no_res Some
          by (auto simp: acquireDetachTarget_def target_duty_def)
      next
        case False
        hence "i1 = i"
          using acq by (auto simp: acquireDetachAttempt_def Let_def split: option.splits prod.splits)
        thus ?thesis
          using False acq open_i no_res Some assms by (simp add: acquireDetachTarget_def target_duty_def)
      qed
    next
      case None
      obtain a i1 where new: "new_detachAttempt i = (a, i1)"
        by (metis surj_pair)
      show ?thesis
        using new_untracked_inv [OF assms no_res _ new] new open_i no_res None assms
        by (cases "iUntracked i p") (auto simp: acquireDetachTarget_def target_duty_def)
    qed
  qed
qed (simp add: acquireDetachTarget_def)

lemma detach_exact_inv:
  assumes "importer_inv (i, D)"
  shows "\<exists>got i'. detachExactHandle_locked i p h = Some (got, i') \<and> importer_inv (i', exact_duty p h got + D)"
proof (cases "iHandles i p = Some h")
  case True
  obtain a owner i1 where acq: "acquireDetachAttempt i h = (a, owner, i1)"
    by (metis prod_cases3)
  have "i1 = i" if "\<not> owner"
    using acq that by (auto simp: acquireDetachAttempt_def Let_def split: option.splits prod.splits)
  thus ?thesis
    using own_handle_inv [OF assms inv_handle [OF assms True], of a i1 p] acq True assms
    by (cases owner) (auto simp: detachExactHandle_locked_def exact_duty_def)
qed (use assms in \<open>simp add: detachExactHandle_locked_def exact_duty_def\<close>)

lemma slot_inv:
  assumes "importer_inv (i, D)"
  shows "\<exists>res i'. acquireAttachSlot i ep b = Some (res, i')
    \<and> (case res of Inl _ \<Rightarrow> i' = i | Inr _ \<Rightarrow> importer_inv (i', add_mset (DAttach (ep, b) None) D))"
proof (cases "iClosed i \<or> (ep, b) \<in> set (iInFlight i)")
  case False
  let ?j = "i\<lparr>iInFlight := (ep, b) # iInFlight i\<rparr>"
  obtain g where g: "wg_add_i ?j 1 = Some (?j\<lparr>iWg := g\<rparr>)" "wg_ok g (Suc (size D))"
    using wg_add_i_ok [of ?j "size D"] inv_wg [OF assms] by auto
  have "importer_inv (?j\<lparr>iWg := g\<rparr>, add_mset (DAttach (ep, b) None) D)"
    using assms False g(2) by (auto simp: importer_inv_def importer_invs)
  thus ?thesis
    using False g(1) by (simp add: acquireAttachSlot_def)
qed (auto simp: acquireAttachSlot_def)

lemma slot_in_flight:
  assumes "importer_inv (i, add_mset (DAttach k res) D)"
  shows "k \<in> set (iInFlight i) \<and> holders duty_key k D = 0"
  using inv_slot [OF assms, of k] by (simp split: if_splits)

lemma reserve_inv:
  assumes "importer_inv (i, add_mset (DAttach k None) D)" "reserveAttachPort i p t = (Inr r, i')"
  shows "importer_inv (i', add_mset (DAttach k (Some r)) D)"
proof -
  have i': "r = length (iResHeap i)" "iReservations i p = None" "iUntracked i p = None"
      "i' = i\<lparr>iResHeap := iResHeap i @ [\<lparr>arID = p, arDone = False, arShutdownTimeout = t,
          arTeardownRequested = False, arDetachAttempt = None\<rparr>],
        iReservations := (iReservations i)(p \<mapsto> r)\<rparr>"
    using assms(2) by (auto simp: reserveAttachPort_def Let_def split: if_splits)
  note le = inv_res_le [OF assms(1)]
  have no: "holders duty_res r D = 0"
    using le [of r] by (simp add: i'(1))
  have map: "x < length (iResHeap i) \<and> arID (iResHeap i ! x) = q \<and> \<not> arDone (iResHeap i ! x)
      \<and> holders duty_res x D = 1" if "iReservations i q = Some x" for q x
    using inv_res_map [OF assms(1) that] by simp
  have "res_inv (i', add_mset (DAttach k (Some r)) D)"
    unfolding res_inv_def split_conv
  proof (intro conjI allI impI)
    fix q x assume "iReservations i' q = Some x"
    hence "(q = p \<and> x = r) \<or> (q \<noteq> p \<and> iReservations i q = Some x)"
      by (auto simp: i'(4) split: if_splits)
    thus "x < length (iResHeap i')" "arID (iResHeap i' ! x) = q" "\<not> arDone (iResHeap i' ! x)"
        "holders duty_res x (add_mset (DAttach k (Some r)) D) = 1"
      using map [of q x] no by (auto simp: i'(4) nth_append i'(1))
  next
    fix x show "holders duty_res x (add_mset (DAttach k (Some r)) D) \<le> (if x < length (iResHeap i') then 1 else 0)"
      using le [of x] no by (auto simp: i'(4) i'(1) split: if_splits)
  next
    fix x assume "x < length (iResHeap i')" "\<not> arDone (iResHeap i' ! x)"
    thus "iReservations i' (arID (iResHeap i' ! x)) = Some x"
      using inv_res_open [OF assms(1), of x] i'(2)
      by (auto simp: i'(4) i'(1) nth_append less_Suc_eq split: if_splits)
  qed
  moreover have "owners_inv (i', add_mset (DAttach k (Some r)) D)"
    using assms(1) i'(1-3) by (auto simp: importer_inv_def owners_inv_def i'(4))
  ultimately show ?thesis
    using assms(1) by (simp add: importer_inv_def wg_inv_def attempts_inv_def slots_inv_def handles_inv_def i'(4))
qed

text \<open>Removing a reservation from the map and finishing it, as an abort and a publication do.\<close>

definition drop_reservation :: "Importer \<Rightarrow> PortID \<Rightarrow> nat \<Rightarrow> Importer" where
  "drop_reservation i p r = attachReservation_finish (i\<lparr>iReservations := (iReservations i)(p := None)\<rparr>) r"

lemma drop_reservation_inv:
  assumes "importer_inv (i, add_mset (DAttach k (Some r)) D)" "iReservations i p = Some r"
    "res = None \<or> res = Some r"
  shows "importer_inv (drop_reservation i p r, add_mset (DAttach k res) D)"
proof -
  have r: "r < length (iResHeap i)" "arID (iResHeap i ! r) = p" "holders duty_res r D = 0"
    using inv_res_map [OF assms(1,2)] by simp_all
  have "res_inv (drop_reservation i p r, add_mset (DAttach k res) D)"
    unfolding res_inv_def split_conv
  proof (intro conjI allI impI)
    fix q x assume "iReservations (drop_reservation i p r) q = Some x"
    hence q: "q \<noteq> p" "iReservations i q = Some x"
      by (auto simp: drop_reservation_def upd_defs split: if_splits)
    note m = inv_res_map [OF assms(1) q(2)]
    have "x \<noteq> r"
      using m q(1) r(2) by auto
    thus "x < length (iResHeap (drop_reservation i p r))" "arID (iResHeap (drop_reservation i p r) ! x) = q"
        "\<not> arDone (iResHeap (drop_reservation i p r) ! x)"
        "holders duty_res x (add_mset (DAttach k res) D) = 1"
      using m assms(3) by (auto simp: drop_reservation_def upd_defs)
  next
    fix x show "holders duty_res x (add_mset (DAttach k res) D)
        \<le> (if x < length (iResHeap (drop_reservation i p r)) then 1 else 0)"
      using inv_res_le [OF assms(1), of x] r assms(3)
      by (auto simp: drop_reservation_def upd_defs split: if_splits)
  next
    fix x assume x: "x < length (iResHeap (drop_reservation i p r))"
      "\<not> arDone (iResHeap (drop_reservation i p r) ! x)"
    have "x \<noteq> r"
      using x r(1) by (auto simp: drop_reservation_def upd_defs)
    thus "iReservations (drop_reservation i p r) (arID (iResHeap (drop_reservation i p r) ! x)) = Some x"
      using inv_res_open [OF assms(1), of x] x assms(2) by (auto simp: drop_reservation_def upd_defs)
  qed
  moreover have "owners_inv (drop_reservation i p r, add_mset (DAttach k res) D)"
    using assms(1) by (auto simp: importer_inv_def owners_inv_def drop_reservation_def upd_defs)
  ultimately show ?thesis
    using assms(1)
    by (simp add: importer_inv_def wg_inv_def attempts_inv_def slots_inv_def handles_inv_def
        drop_reservation_def upd_defs)
qed

lemma abort_inv:
  assumes "importer_inv (i, add_mset (DAttach k (Some r)) D)"
  shows "importer_inv (abortAttachReservation i (Some r), add_mset (DAttach k None) D)"
proof (cases "iReservations i (arID (iResHeap i ! r)) = Some r")
  case True
  thus ?thesis
    using drop_reservation_inv [OF assms True, of None]
    by (simp add: abortAttachReservation_def drop_reservation_def)
next
  case False
  have r: "r < length (iResHeap i)"
    using inv_res_le [OF assms, of r] by (simp split: if_splits)
  hence "arDone (iResHeap i ! r)"
    using inv_res_open [OF assms r] False by blast
  hence "(iResHeap i ! r)\<lparr>arDone := True\<rparr> = iResHeap i ! r"
    by (cases "iResHeap i ! r") simp
  hence "attachReservation_finish i r = i"
    by (simp add: upd_defs)
  hence eq: "abortAttachReservation i (Some r) = i"
    using False by (simp add: abortAttachReservation_def)
  have "holders duty_res x D = 1" if "iReservations i q = Some x" for q x
  proof -
    have "x \<noteq> r"
      using that False inv_res_map [OF assms that] by auto
    thus ?thesis
      using inv_res_map [OF assms that] by simp
  qed
  moreover have "holders duty_res x D \<le> (if x < length (iResHeap i) then 1 else 0)" for x
    using inv_res_le [OF assms, of x] by (simp split: if_splits)
  ultimately have "res_inv (i, add_mset (DAttach k None) D)"
    using assms by (auto simp: importer_inv_def res_inv_def)
  thus ?thesis
    using assms unfolding eq importer_inv_def
    by (simp add: wg_inv_def attempts_inv_def slots_inv_def handles_inv_def owners_inv_def)
qed

lemma new_handle_inv:
  assumes "importer_inv (i, D)" "newPortHandleLocked i p b ep t auto = (h, i1)"
  shows "importer_inv (i1\<lparr>iHandles := (iHandles i1)(p \<mapsto> h)\<rparr>, D) \<and> h = length (iHandleHeap i)
    \<and> length (iHandleHeap i1) = Suc h \<and> phDetachAttempt (iHandleHeap i1 ! h) = None
    \<and> iReservations i1 = iReservations i \<and> iResHeap i1 = iResHeap i"
proof -
  define j where "j = (case iHandles i p of Some old \<Rightarrow> portHandle_cancel i old | None \<Rightarrow> i)"
  have j: "importer_inv (j, D)" "length (iHandleHeap j) = length (iHandleHeap i)"
      "iReservations j = iReservations i" "iResHeap j = iResHeap i"
    using cancel_inv [OF assms(1)] assms(1) by (auto simp: j_def upd_defs split: option.splits)
  have i1: "h = length (iHandleHeap j)" "i1 = j\<lparr>iNextGen := iNextGen j + 1, iHandleHeap := iHandleHeap j @
      [\<lparr>phDone = False, phBusID = b, phRemote = ep, phGeneration = iNextGen j + 1,
        phWatcherDone = (if auto then Some False else None), phShutdownTimeout = t, phDetaching = False,
        phDetachAttempt = None, phLastKnownPort = zeroPort\<rparr>]\<rparr>"
    using assms(2) by (auto simp: newPortHandleLocked_def Let_def j_def)
  have "handles_inv (i1\<lparr>iHandles := (iHandles i1)(p \<mapsto> h)\<rparr>, D)"
    using j(1) by (auto simp: importer_inv_def handles_inv_def i1 nth_append less_Suc_eq add.commute
        dest: less_SucI split: if_splits)
  moreover have "owners_inv (i1\<lparr>iHandles := (iHandles i1)(p \<mapsto> h)\<rparr>, D)"
    using j(1) by (auto simp: importer_inv_def owners_inv_def i1 nth_append dest: less_SucI)
  ultimately have "importer_inv (i1\<lparr>iHandles := (iHandles i1)(p \<mapsto> h)\<rparr>, D)"
    using j(1) by (simp add: importer_inv_def wg_inv_def attempts_inv_def slots_inv_def res_inv_def i1)
  thus ?thesis
    using j by (simp add: i1 nth_append)
qed

lemma compensation_inv:
  assumes "importer_inv (i, D)" "h < length (iHandleHeap i)" "phDetachAttempt (iHandleHeap i ! h) = None"
  shows "\<exists>cmp i'. prepareAttachCompensationLocked i h res = Some (cmp, i')
    \<and> importer_inv (i', comp_duty p h cmp + D) \<and> iReservations i' = iReservations i
    \<and> (cmp \<noteq> None \<longleftrightarrow> teardown_wanted i res)"
proof (cases "teardown_wanted i res")
  case False
  thus ?thesis
    using assms(1) by (auto simp: prepareAttachCompensationLocked_def teardown_wanted_def comp_duty_def
        split: option.splits)
next
  case True
  then obtain r where r: "res = Some r" "arTeardownRequested (iResHeap i ! r)"
    by (auto simp: teardown_wanted_def split: option.splits)
  obtain a owner i1 where acq: "acquireDetachAttempt i h = (a, owner, i1)"
    by (metis prod_cases3)
  define j where "j = upd_handle i1 h (\<lambda>x. x\<lparr>phDetaching := True\<rparr>)"
  obtain g where g: "wg_add_i j 1 = Some (j\<lparr>iWg := g\<rparr>)" "wg_ok g (Suc (size D))"
    using wg_add_i_ok [of j "size D"] inv_wg [OF assms(1)] acquire_frame [OF acq]
    by (auto simp: j_def upd_handle_def)
  have "j\<lparr>iWg := g\<rparr> = upd_handle (i1\<lparr>iWg := g\<rparr>) h (\<lambda>x. x\<lparr>phDetaching := True\<rparr>)"
    by (simp add: j_def upd_handle_def)
  hence "importer_inv (j\<lparr>iWg := g\<rparr>, add_mset (DOwn p h a) D)"
    using acquire_new_inv [OF assms acq g(2)] by (auto intro: upd_handle_inv)
  hence "importer_inv (upd_res (j\<lparr>iWg := g\<rparr>) r (\<lambda>x. x\<lparr>arDetachAttempt := Some a\<rparr>), add_mset (DOwn p h a) D)"
    by (auto intro: upd_res_inv)
  thus ?thesis
    using r acq g(1) True acquire_frame [OF acq]
    by (auto simp: prepareAttachCompensationLocked_def comp_duty_def j_def upd_defs)
qed

lemma complete_drop:
  "completeAttachReservation (removeAttachReservationLocked i p (Some r)) (Some r) = drop_reservation i p r"
  by (simp add: completeAttachReservation_def removeAttachReservationLocked_def drop_reservation_def)

lemma complete_nothing:
  "completeAttachReservation (removeAttachReservationLocked i p None) None = i"
  by (simp add: completeAttachReservation_def removeAttachReservationLocked_def)

lemma drop_inv:
  assumes "importer_inv (i, add_mset (DAttach k res) D)" "res \<noteq> None \<longrightarrow> iReservations i p = res"
    "res' = None \<or> res' = res"
  shows "importer_inv (completeAttachReservation (removeAttachReservationLocked i p res) res,
    add_mset (DAttach k res') D)"
  using assms drop_reservation_inv [of i k _ D p res']
  by (cases res) (auto simp: complete_drop complete_nothing)

text \<open>Publication: an error keeps the invariant for the Attach that still holds its reservation; a
  success publishes the handle and, exactly when a Detach asked for it, the compensating owner.\<close>

lemma publish_inv:
  assumes "importer_inv (i, add_mset (DAttach k res) D)"
  shows "\<exists>out i'. registerHandle i p b ep t auto res = Some (out, i')
    \<and> (case out of Inl _ \<Rightarrow> importer_inv (i', add_mset (DAttach k res) D)
       | Inr (h, cmp) \<Rightarrow> importer_inv (i', add_mset (DAttach k None) (comp_duty p h cmp + D)))"
proof (cases "validateAttachReservationLocked i p res")
  case None
  hence res: "res \<noteq> None \<longrightarrow> iReservations i p = res"
    by (auto simp: validateAttachReservationLocked_def split: option.splits if_splits)
  show ?thesis
  proof (cases "iClosed i")
    case True
    thus ?thesis
      using drop_inv [OF assms res, of res] None by (simp add: registerHandle_def)
  next
    case False
    let ?auto = "auto \<and> \<not> teardown_wanted i res"
    obtain h i1 where new: "newPortHandleLocked i p b ep t ?auto = (h, i1)"
      by (metis surj_pair)
    define j where "j = i1\<lparr>iHandles := (iHandles i1)(p \<mapsto> h)\<rparr>"
    note N = new_handle_inv [OF assms new]
    have j: "importer_inv (j, add_mset (DAttach k res) D)" "h < length (iHandleHeap j)"
        "phDetachAttempt (iHandleHeap j ! h) = None"
      using N by (auto simp: j_def)
    obtain cmp i2 where c: "prepareAttachCompensationLocked j h res = Some (cmp, i2)"
        "importer_inv (i2, comp_duty p h cmp + add_mset (DAttach k res) D)" "iReservations i2 = iReservations j"
      using compensation_inv [OF j, of res p] by blast
    have "importer_inv (i2, add_mset (DAttach k res) (comp_duty p h cmp + D))"
      using c(2) by simp
    moreover have "res \<noteq> None \<longrightarrow> iReservations i2 p = res"
      using c(3) N res by (simp add: j_def)
    ultimately have "importer_inv (completeAttachReservation (removeAttachReservationLocked i2 p res) res,
        add_mset (DAttach k None) (comp_duty p h cmp + D))"
      by (rule drop_inv) simp
    thus ?thesis
      using None False new c(1) by (simp add: registerHandle_def j_def)
  qed
qed (use assms in \<open>simp add: registerHandle_def\<close>)

lemma release_inv:
  assumes "importer_inv (i, add_mset (DAttach (ep, b) None) D)"
  shows "importer_inv (releaseAttachSlot_locked i ep b, add_mset DDone D)"
proof -
  have "slots_inv (releaseAttachSlot_locked i ep b, add_mset DDone D)"
    unfolding slots_inv_def split_conv
  proof
    fix k
    show "holders duty_key k (add_mset DDone D)
        = (if k \<in> set (iInFlight (releaseAttachSlot_locked i ep b)) then 1 else 0)"
      using inv_slot [OF assms, of k] slot_in_flight [OF assms]
      by (cases "k = (ep, b)") (auto simp: releaseAttachSlot_locked_def)
  qed
  thus ?thesis
    using assms by (simp add: importer_inv_def wg_inv_def attempts_inv_def res_inv_def handles_inv_def
        owners_inv_def releaseAttachSlot_locked_def)
qed

lemma wait_done_inv:
  assumes "importer_inv (i, add_mset DDone D)"
  shows "\<exists>i'. wg_done_i i = Some i' \<and> importer_inv (i', D)"
proof -
  obtain g where "wg_done_i i = Some (i\<lparr>iWg := g\<rparr>)" "wg_ok g (size D)"
    using wg_done_i_ok [of i "size D"] inv_wg [OF assms] by auto
  thus ?thesis
    using assms by (auto simp: importer_inv_def importer_invs)
qed

lemma inv_attempt:
  "importer_inv (i, D) \<Longrightarrow>
    holders duty_attempt a D = (if a < length (iAttHeap i) \<and> \<not> daDone (iAttHeap i ! a) then 1 else 0)"
  by (simp add: importer_inv_def attempts_inv_def)

text \<open>The owner of an attempt can complete it, and is then no longer its owner.\<close>

lemma complete_attempt_inv:
  assumes "importer_inv (i, add_mset d D)" "duty_attempt d = Some a"
  shows "\<exists>i'. complete_attempt i a err = Some i' \<and> i' = i\<lparr>iAttHeap := iAttHeap i'\<rparr>
    \<and> attempts_inv (i', add_mset DDone D) \<and> holders duty_attempt a D = 0"
proof -
  have a: "a < length (iAttHeap i)" "\<not> daDone (iAttHeap i ! a)" "holders duty_attempt a D = 0"
    using inv_attempt [OF assms(1), of a] assms(2) by (auto split: if_splits)
  have "holders duty_attempt x D = (if x < length (iAttHeap i) \<and> \<not> daDone (iAttHeap i ! x) then 1 else 0)"
    if "x \<noteq> a" for x
    using inv_attempt [OF assms(1), of x] assms(2) that by simp
  thus ?thesis
    using a by (auto simp: complete_attempt_def attempts_inv_def nth_list_update)
qed

lemma handle_attempt_holder: "holders duty_handle (h, a) D \<le> holders duty_attempt a D"
proof (induction D)
  case (add d D)
  thus ?case
    by (cases d) auto
qed simp

lemma port_attempt_holder: "holders duty_port (p, a) D \<le> holders duty_attempt a D"
proof (induction D)
  case (add d D)
  thus ?case
    by (cases d) auto
qed simp

lemma own_finish_inv:
  assumes "importer_inv (i, add_mset (DFinish h a err) D)"
  shows "\<exists>i'. finishDetachAttempt i h a err = Some i' \<and> importer_inv (i', add_mset DDone D)"
proof -
  obtain j where j: "complete_attempt i a err = Some j" "j = i\<lparr>iAttHeap := iAttHeap j\<rparr>"
      "attempts_inv (j, add_mset DDone D)" "holders duty_attempt a D = 0"
    using complete_attempt_inv [OF assms, of a err] by auto
  have own: "0 < holders duty_handle (x, b) D \<Longrightarrow>
      x < length (iHandleHeap i) \<and> phDetachAttempt (iHandleHeap i ! x) = Some b \<and> b \<noteq> a" for x b
    using owner_attempt [OF assms, of x b] handle_attempt_holder [of x b D] j(4) by fastforce
  define f where "f = (\<lambda>i'. if err \<noteq> None \<and> phDetachAttempt (iHandleHeap i' ! h) = Some a
     then upd_handle i' h (\<lambda>x. x\<lparr>phDetachAttempt := None\<rparr>) else i')"
  have h: "h < length (iHandleHeap i)" "phDetachAttempt (iHandleHeap i ! h) = Some a"
    using owner_attempt [OF assms, of h a] by simp_all
  have no: "holders duty_handle (h, b) D = 0" for b
    using own [of h b] h(2) by (cases "holders duty_handle (h, b) D") simp_all
  have "owners_inv (f j, add_mset DDone D)"
    using assms own h(1) no
    by (subst j(2)) (auto simp: importer_inv_def owners_inv_def f_def upd_handle_def nth_list_update)
  moreover have "handles_inv (f j, add_mset DDone D)"
    using assms h by (subst j(2)) (auto simp: importer_inv_def handles_inv_def f_def upd_handle_def nth_list_update)
  moreover have "attempts_inv (f j, add_mset DDone D)"
    using j(3) by (simp add: attempts_inv_def f_def upd_handle_def)
  moreover have "wg_inv (f j, add_mset DDone D) \<and> slots_inv (f j, add_mset DDone D) \<and> res_inv (f j, add_mset DDone D)"
    using assms by (subst (1 2 3) j(2))
      (simp add: importer_inv_def wg_inv_def slots_inv_def res_inv_def f_def upd_handle_def)
  ultimately have "importer_inv (f j, add_mset DDone D)"
    by (simp add: importer_inv_def)
  thus ?thesis
    using j(1) by (simp add: finishDetachAttempt_def f_def)
qed

lemma untracked_finish_inv:
  assumes "importer_inv (i, add_mset (DUntracked p a) D)"
  shows "\<exists>i'. finishUntracked_locked i p a err = Some i' \<and> importer_inv (i', add_mset DDone D)"
proof -
  obtain j where j: "complete_attempt i a err = Some j" "j = i\<lparr>iAttHeap := iAttHeap j\<rparr>"
      "attempts_inv (j, add_mset DDone D)" "holders duty_attempt a D = 0"
    using complete_attempt_inv [OF assms, of a err] by auto
  have p: "iUntracked i p = Some a"
    using untracked_holder [OF assms, of p a] by simp
  have none: "holders duty_port (x, a) D = 0" for x
    using port_attempt_holder [of x a D] j(4) by simp
  have ow: "0 < holders duty_port (x, b) D \<longleftrightarrow> ((iUntracked i)(p := None)) x = Some b" for x b
    using untracked_holder [OF assms, of x b] p none [of x] by (cases "b = a"; cases "x = p") auto
  let ?j = "j\<lparr>iUntracked := (iUntracked i)(p := None)\<rparr>"
  have "owners_inv (?j, add_mset DDone D)"
    using assms ow by (subst j(2)) (auto simp: importer_inv_def owners_inv_def)
  moreover have "attempts_inv (?j, add_mset DDone D)"
    using j(3) by (simp add: attempts_inv_def)
  moreover have "wg_inv (?j, add_mset DDone D) \<and> slots_inv (?j, add_mset DDone D)
      \<and> res_inv (?j, add_mset DDone D) \<and> handles_inv (?j, add_mset DDone D)"
    using assms by (subst (1 2 3 4) j(2))
      (simp add: importer_inv_def wg_inv_def slots_inv_def res_inv_def handles_inv_def)
  ultimately have "importer_inv (?j, add_mset DDone D)"
    by (simp add: importer_inv_def)
  moreover have "iUntracked j = iUntracked i"
    by (subst j(2)) simp
  ultimately show ?thesis
    using j(1) p by (simp add: finishUntracked_locked_def)
qed

lemma own_result_inv:
  assumes "importer_inv (i, add_mset (DOwn p h a) D)"
  shows "importer_inv (i, add_mset (DFinish h a err) D)"
  using assms by (simp add: importer_inv_def importer_invs)

lemma deleteExactHandle_inv: "importer_inv (i, D) \<Longrightarrow> importer_inv (deleteExactHandle i p h, D)"
  by (auto simp: importer_inv_def importer_invs deleteExactHandle_def)

lemma detachHandle_result_inv: "importer_inv (i, D) \<Longrightarrow> importer_inv (detachHandle_result i p h kerr, D)"
  by (auto simp: detachHandle_result_def deleteExactHandle_inv split: option.splits)

lemma close_inv: "importer_inv (i, D) \<Longrightarrow> importer_inv (Close_locked i, D)"
  by (simp add: importer_inv_def importer_invs Close_locked_def)

lemma watcher_spawn_inv:
  assumes "importer_inv (i, D)"
  shows "\<exists>i'. wg_add_i i 1 = Some i' \<and> importer_inv (i', add_mset (DWatcher h) D)"
proof -
  obtain g where "wg_add_i i 1 = Some (i\<lparr>iWg := g\<rparr>)" "wg_ok g (Suc (size D))"
    using wg_add_i_ok [of i "size D"] inv_wg [OF assms] by auto
  thus ?thesis
    using assms by (auto simp: importer_inv_def importer_invs)
qed

lemma watcher_exit_inv: "importer_inv (i, add_mset (DWatcher h) D) \<Longrightarrow> importer_inv (i, add_mset DDone D)"
  by (simp add: importer_inv_def importer_invs)

lemma importer_step_inv:
  assumes "importer_step s s'" "importer_inv s"
  shows "importer_inv s'"
  using assms
proof cases
  case (slot i ep b i' D)
  thus ?thesis
    using slot_inv [of i D ep b] assms(2) by auto
next
  case (publish i p b ep t auto res h cmp i' k D)
  thus ?thesis
    using publish_inv [of i k res D p b ep t auto] assms(2) by auto
next
  case (publish_error i p b ep t auto res e i' k D)
  thus ?thesis
    using publish_inv [of i k res D p b ep t auto] assms(2) by auto
next
  case (wait_done i i' D)
  thus ?thesis
    using wait_done_inv [of i D] assms(2) by auto
next
  case (detach i p t i' D)
  thus ?thesis
    using detach_inv [of i D p] assms(2) by auto
next
  case (detach_exact i p h got i' D)
  thus ?thesis
    using detach_exact_inv [of i D p h] assms(2) by auto
next
  case (own_finish i h a err i' D)
  thus ?thesis
    using own_finish_inv [of i h a err D] assms(2) by auto
next
  case (untracked_finish i p a err i' D)
  thus ?thesis
    using untracked_finish_inv [of i p a D err] assms(2) by auto
next
  case (watcher_spawn i i' D h)
  thus ?thesis
    using watcher_spawn_inv [of i D h] assms(2) by auto
qed (use assms(2) in \<open>auto intro: reserve_inv abort_inv release_inv cancel_inv close_inv upd_handle_inv
    own_result_inv detachHandle_result_inv watcher_exit_inv\<close>)

lemma importer_reach_inv: "importer_reach s \<Longrightarrow> importer_inv s"
  by (induction rule: importer_reach.induct) (auto intro: inv_start importer_step_inv)

section \<open>A sample run\<close>

definition sample_endpoint :: RemoteEndpoint where
  "sample_endpoint = \<lparr>reHost = ''peer'', rePort = 3240\<rparr>"

definition sample_reserved :: Importer where
  "sample_reserved =
     snd (reserveAttachPort (snd (the (acquireAttachSlot NewImporter sample_endpoint ''1-1''))) 2 second)"

definition sample_teardown :: Importer where
  "sample_teardown = snd (the (acquireDetachTarget sample_reserved 2))"

lemma sample_reserved_eq:
  "acquireAttachSlot NewImporter sample_endpoint ''1-1''
     = Some (Inr (), NewImporter\<lparr>iInFlight := [(sample_endpoint, ''1-1'')],
         iWg := \<lparr>wgCount = 1, wgDrained = Some False\<rparr>\<rparr>)"
  "reserveAttachPort (NewImporter\<lparr>iInFlight := [(sample_endpoint, ''1-1'')],
         iWg := \<lparr>wgCount = 1, wgDrained = Some False\<rparr>\<rparr>) 2 second = (Inr 0, sample_reserved)"
  by (simp_all add: acquireAttachSlot_def NewImporter_def wg_add_i_def wg_Add_def
      sample_reserved_def reserveAttachPort_def)

lemma sample_reserved_reach:
  "importer_reach (sample_reserved, {#DAttach (sample_endpoint, ''1-1'') (Some 0)#})"
  using importer_reach.start sample_reserved_eq
  by (blast intro: importer_reach.step importer_step.slot importer_step.reserve)

lemma sample_teardown_eq:
  "acquireDetachTarget sample_reserved 2 = Some (Inr \<lparr>dtHandle = None, dtAttempt = None,
      dtReservation = Some 0, dtUntracked = False, dtOwner = False\<rparr>, sample_teardown)"
  by (simp add: sample_teardown_def sample_reserved_def acquireDetachTarget_def acquireAttachSlot_def
      reserveAttachPort_def NewImporter_def wg_add_i_def wg_Add_def)

definition sample_published :: Importer where
  "sample_published =
     snd (the (registerHandle sample_teardown 2 ''1-1'' sample_endpoint second True (Some 0)))"

lemma sample_published_eq:
  "registerHandle sample_teardown 2 ''1-1'' sample_endpoint second True (Some 0)
     = Some (Inr (0, Some 0), sample_published)"
  "iHandles sample_published 2 = Some 0 \<and> phDetaching (iHandleHeap sample_published ! 0)
     \<and> \<not> iClosed sample_published"
  by (simp_all add: sample_published_def sample_teardown_def sample_reserved_def acquireDetachTarget_def
      acquireAttachSlot_def reserveAttachPort_def NewImporter_def wg_add_i_def wg_Add_def registerHandle_def
      validateAttachReservationLocked_def teardown_wanted_def newPortHandleLocked_def
      prepareAttachCompensationLocked_def acquireDetachAttempt_def new_detachAttempt_def upd_defs
      completeAttachReservation_def removeAttachReservationLocked_def)

lemma sample_published_reach:
  "importer_reach (sample_published, {#DOwn 2 0 0, DAttach (sample_endpoint, ''1-1'') None#})"
proof -
  let ?k = "(sample_endpoint, ''1-1'')"
  have "importer_reach (sample_teardown, {#DAttach ?k (Some 0)#})"
    using importer_reach.step [OF sample_reserved_reach importer_step.detach [OF sample_teardown_eq]]
    by (simp add: target_duty_def)
  from importer_reach.step [OF this importer_step.publish [OF sample_published_eq(1)]]
  show ?thesis
    by (simp add: comp_duty_def add_mset_commute)
qed

section \<open>Properties\<close>

text \<open>C5: No interleaving of Attach, Detach, reconnect rollback and Close makes the Importer panic:
  in every reachable state the wait group never goes negative and no channel is closed twice,
  whichever critical section a goroutine enters next.\<close>
theorem importer_no_panic:
  assumes "importer_reach (i, D)"
  shows "acquireAttachSlot i ep b \<noteq> None \<and> acquireDetachTarget i p \<noteq> None
    \<and> detachExactHandle_locked i p h \<noteq> None
    \<and> (\<forall>k res. DAttach k res \<in># D \<longrightarrow> registerHandle i p b ep t auto res \<noteq> None)
    \<and> (\<forall>h a err. DFinish h a err \<in># D \<longrightarrow> finishDetachAttempt i h a err \<noteq> None)
    \<and> (\<forall>p a. DUntracked p a \<in># D \<longrightarrow> finishUntracked_locked i p a err' \<noteq> None)
    \<and> (DDone \<in># D \<longrightarrow> wg_done_i i \<noteq> None)"
proof -
  note inv = importer_reach_inv [OF assms]
  have split: "\<exists>E. D = add_mset d E" if "d \<in># D" for d
    using that by (metis mset_add)
  have "registerHandle i p b ep t auto res \<noteq> None" if "DAttach k res \<in># D" for k res
    using publish_inv [of i k res _ p b ep t auto] inv split [OF that] by fastforce
  moreover have "finishDetachAttempt i h a err \<noteq> None" if "DFinish h a err \<in># D" for h a err
    using own_finish_inv [of i h a err] inv split [OF that] by fastforce
  moreover have "finishUntracked_locked i p a err' \<noteq> None" if "DUntracked p a \<in># D" for p a
    using untracked_finish_inv [of i p a _ err'] inv split [OF that] by fastforce
  moreover have "wg_done_i i \<noteq> None" if "DDone \<in># D"
    using wait_done_inv [of i] inv split [OF that] by fastforce
  ultimately show ?thesis
    using slot_inv [OF inv, of ep b] detach_inv [OF inv, of p] detach_exact_inv [OF inv, of p h] by auto
qed

theorem importer_no_panic_witness:
  "registerHandle sample_reserved 2 ''1-1'' sample_endpoint second True (Some 0) \<noteq> None
   \<and> acquireDetachTarget sample_reserved 2 \<noteq> None"
  using importer_no_panic [OF sample_reserved_reach, of sample_endpoint "''1-1''" 2 0 second True None] by simp

text \<open>C6: In every reachable state at most one Attach is in flight for a remote device, at most one
  goroutine owns the detach of a handle and at most one the detach of an untracked port, a reserved
  port belongs to one Attach and is not being detached as untracked, generations identify handles,
  and the drain that Close waits for is signalled exactly when no goroutine has anything left to
  do.\<close>
theorem importer_exclusive:
  assumes "importer_reach (i, D)"
  shows "holders duty_key k D \<le> 1
    \<and> (0 < holders duty_handle (h, a) D \<and> 0 < holders duty_handle (h, b) D \<longrightarrow> a = b \<and> holders duty_handle (h, a) D = 1)
    \<and> (0 < holders duty_port (p, a) D \<and> 0 < holders duty_port (p, b) D \<longrightarrow> a = b \<and> holders duty_port (p, a) D = 1)
    \<and> (\<forall>r. iReservations i p = Some r \<longrightarrow> holders duty_res r D = 1 \<and> iUntracked i p = None)
    \<and> (length (iHandleHeap i) < 2 ^ 64 \<and> h < length (iHandleHeap i) \<and> h' < length (iHandleHeap i)
        \<and> phGeneration (iHandleHeap i ! h) = phGeneration (iHandleHeap i ! h') \<longrightarrow> h = h')
    \<and> (fst (wg_DoneChan (iWg i)) \<longleftrightarrow> D = {#})"
proof -
  note inv = importer_reach_inv [OF assms]
  have one: "holders duty_attempt a D \<le> 1"
    using inv_attempt [OF inv, of a] by simp
  have "a = b \<and> holders duty_handle (h, a) D = 1"
    if "0 < holders duty_handle (h, a) D" "0 < holders duty_handle (h, b) D"
    using that owner_attempt [OF inv that(1)] owner_attempt [OF inv that(2)]
      handle_attempt_holder [of h a D] one by auto
  moreover have "a = b \<and> holders duty_port (p, a) D = 1"
    if "0 < holders duty_port (p, a) D" "0 < holders duty_port (p, b) D"
  proof -
    have "a = b"
      using that untracked_holder [OF inv, of p a] untracked_holder [OF inv, of p b] by simp
    thus ?thesis
      using that(1) port_attempt_holder [of p a D] one by linarith
  qed
  moreover have "holders duty_res r D = 1 \<and> iUntracked i p = None" if "iReservations i p = Some r" for r
    using inv_res_map [OF inv that] inv_excl [OF inv, of p] that by auto
  moreover have "h = h'" if "length (iHandleHeap i) < 2 ^ 64" "h < length (iHandleHeap i)"
    "h' < length (iHandleHeap i)" "phGeneration (iHandleHeap i ! h) = phGeneration (iHandleHeap i ! h')"
  proof -
    have "(of_nat (Suc h) :: u64) = of_nat (Suc h')"
      using inv that by (simp add: importer_inv_def handles_inv_def)
    hence eq: "unat (of_nat (Suc h) :: u64) = unat (of_nat (Suc h') :: u64)"
      by (rule arg_cong)
    have "unat (of_nat n :: u64) = n" if "n < 2 ^ 64" for n
      using that by (simp add: unat_of_nat)
    hence "Suc h = Suc h'"
      using eq that by (metis Suc_leI order_le_less_trans)
    thus ?thesis
      by simp
  qed
  moreover have "fst (wg_DoneChan (iWg i)) \<longleftrightarrow> D = {#}"
    using inv_wg [OF inv] by (auto simp: wg_ok_def wg_DoneChan_def split: option.splits if_splits)
  ultimately show ?thesis
    using inv_slot [OF inv, of k] by simp
qed

theorem importer_exclusive_witness:
  "holders duty_res 0 {#DAttach (sample_endpoint, ''1-1'') (Some 0)#} = 1
   \<and> \<not> fst (wg_DoneChan (iWg sample_reserved))"
  using importer_exclusive [OF sample_reserved_reach, of "(sample_endpoint, ''1-1'')" 0 0 0 2 0]
  by simp

text \<open>The intent a Detach leaves on a reservation stays there.\<close>

lemma upd_res_frame:
  assumes "\<And>x. F (f x) = F x"
  shows "F (iResHeap (upd_res i r' f) ! r) = F (iResHeap i ! r)"
  using nth_upd_frame [where F = F and f = f, OF assms] by (simp add: upd_res_def)

lemma iResHeap_frames [simp]:
  "iResHeap (upd_handle i h f) = iResHeap i"
  "iResHeap (portHandle_cancel i h) = iResHeap i"
  "iResHeap (deleteExactHandle i p h) = iResHeap i"
  "iResHeap (detachHandle_result i p h kerr) = iResHeap i"
  "iResHeap (releaseAttachSlot_locked i ep b) = iResHeap i"
  "iResHeap (Close_locked i) = iResHeap i"
  by (simp_all add: upd_handle_def portHandle_cancel_def deleteExactHandle_def detachHandle_result_def
      releaseAttachSlot_locked_def Close_locked_def split: option.splits)

lemma iResHeap_results:
  "wg_add_i i d = Some i' \<Longrightarrow> iResHeap i' = iResHeap i"
  "wg_done_i i = Some i' \<Longrightarrow> iResHeap i' = iResHeap i"
  "complete_attempt i a err = Some i' \<Longrightarrow> iResHeap i' = iResHeap i"
  "acquireDetachAttempt i h = (x, y, i') \<Longrightarrow> iResHeap i' = iResHeap i"
  "new_detachAttempt i = (x, i') \<Longrightarrow> iResHeap i' = iResHeap i"
  "newPortHandleLocked i p b ep t auto = (x, i') \<Longrightarrow> iResHeap i' = iResHeap i"
  by (auto simp: wg_add_i_def wg_done_i_def complete_attempt_def acquireDetachAttempt_def
      new_detachAttempt_def newPortHandleLocked_def Let_def split: option.splits if_splits prod.splits)

definition wanted :: "nat \<Rightarrow> Importer \<Rightarrow> bool" where
  "wanted r i \<longleftrightarrow> r < length (iResHeap i) \<and> arTeardownRequested (iResHeap i ! r)"

lemma wanted_frames [simp]:
  "wanted r (upd_handle i h f) = wanted r i"
  "wanted r (portHandle_cancel i h) = wanted r i"
  "wanted r (detachHandle_result i p h kerr) = wanted r i"
  "wanted r (releaseAttachSlot_locked i ep b) = wanted r i"
  "wanted r (Close_locked i) = wanted r i"
  by (simp_all add: wanted_def)

lemma wanted_upd_res:
  "(\<And>x. arTeardownRequested x \<Longrightarrow> arTeardownRequested (f x)) \<Longrightarrow> wanted r i \<Longrightarrow> wanted r (upd_res i r' f)"
  by (cases "r' = r") (simp_all add: wanted_def upd_res_def)

lemma wanted_finish: "wanted r i \<Longrightarrow> wanted r (attachReservation_finish i r')"
  by (simp add: attachReservation_finish_def wanted_upd_res)

lemma wanted_complete:
  "wanted r i \<Longrightarrow> wanted r (completeAttachReservation (removeAttachReservationLocked i p res) res)"
proof (cases res)
  case (Some r')
  assume "wanted r i"
  hence "wanted r (i\<lparr>iReservations := (iReservations i)(p := None)\<rparr>)"
    by (simp add: wanted_def)
  thus ?thesis
    by (simp add: Some completeAttachReservation_def removeAttachReservationLocked_def wanted_finish)
qed (simp add: complete_nothing)

lemma wanted_register:
  assumes "registerHandle i p b ep t auto res = Some (out, i')" "wanted r i"
  shows "wanted r i'"
proof (cases "validateAttachReservationLocked i p res")
  case None
  show ?thesis
  proof (cases "iClosed i")
    case True
    thus ?thesis
      using assms None by (auto simp: registerHandle_def intro: wanted_complete)
  next
    case False
    obtain h i1 where new: "newPortHandleLocked i p b ep t (auto \<and> \<not> teardown_wanted i res) = (h, i1)"
      by (metis surj_pair)
    define j where "j = i1\<lparr>iHandles := (iHandles i1)(p \<mapsto> h)\<rparr>"
    have j: "iResHeap j = iResHeap i"
      using iResHeap_results(6) [OF new] by (simp add: j_def)
    obtain cmp i2 where c: "prepareAttachCompensationLocked j h res = Some (cmp, i2)"
        "i' = completeAttachReservation (removeAttachReservationLocked i2 p res) res"
      using assms(1) None False new by (auto simp: registerHandle_def j_def bind_eq_Some_conv)
    have "wanted r j"
      using assms(2) j by (simp add: wanted_def)
    hence "wanted r i2"
      using c(1) acquire_frame [of j h]
      by (auto simp: prepareAttachCompensationLocked_def bind_eq_Some_conv wanted_def Let_def
          dest!: iResHeap_results(1) split: option.splits if_splits prod.splits
          intro!: wanted_upd_res [unfolded wanted_def])
    thus ?thesis
      by (simp add: c(2) wanted_complete)
  qed
qed (use assms in \<open>simp add: registerHandle_def\<close>)

lemma wanted_detach:
  assumes "acquireDetachTarget i p = Some (out, i')" "wanted r i"
  shows "wanted r i'"
proof (cases "iClosed i \<or> iReservations i p = None")
  case True
  hence "iResHeap i' = iResHeap i"
    using assms(1)
    by (auto simp: acquireDetachTarget_def Let_def bind_eq_Some_conv dest!: iResHeap_results
        split: option.splits if_splits prod.splits)
  thus ?thesis
    using assms(2) by (simp add: wanted_def)
next
  case False
  then obtain r' where "iReservations i p = Some r'"
    by auto
  thus ?thesis
    using assms False
    by (auto simp: acquireDetachTarget_def Let_def split: option.splits intro!: wanted_upd_res)
qed

lemma step_wanted:
  assumes "importer_step s s'" "wanted r (fst s)"
  shows "wanted r (fst s')"
  using assms
proof cases
  case (slot i ep b i' D)
  thus ?thesis
    using assms(2)
    by (auto simp: acquireAttachSlot_def wanted_def bind_eq_Some_conv dest!: iResHeap_results(1) split: if_splits)
next
  case (reserve i p t r i' k D)
  thus ?thesis
    using assms(2) by (auto simp: reserveAttachPort_def wanted_def Let_def nth_append split: if_splits)
next
  case (abort i k r D)
  thus ?thesis
    using assms(2) wanted_finish
    by (auto simp: abortAttachReservation_def Let_def intro!: wanted_finish) (simp add: wanted_def)
next
  case (detach_exact i p h got i' D)
  hence "iResHeap i' = iResHeap i"
    by (auto simp: detachExactHandle_locked_def bind_eq_Some_conv dest!: iResHeap_results
        split: if_splits prod.splits)
  thus ?thesis
    using assms(2) detach_exact by (simp add: wanted_def)
next
  case (own_finish i h a err i' D)
  hence "iResHeap i' = iResHeap i"
    by (auto simp: finishDetachAttempt_def bind_eq_Some_conv dest!: iResHeap_results(3) split: if_splits)
  thus ?thesis
    using assms(2) own_finish by (simp add: wanted_def)
next
  case (untracked_finish i p a err i' D)
  hence "iResHeap i' = iResHeap i"
    by (auto simp: finishUntracked_locked_def bind_eq_Some_conv dest!: iResHeap_results(3) split: if_splits)
  thus ?thesis
    using assms(2) untracked_finish by (simp add: wanted_def)
next
  case (wait_done i i' D)
  thus ?thesis
    using assms(2) iResHeap_results(2) by (simp add: wanted_def)
next
  case (watcher_spawn i i' D h)
  thus ?thesis
    using assms(2) iResHeap_results(1) by (simp add: wanted_def)
qed (use assms(2) in \<open>auto intro: wanted_register wanted_detach\<close>)

lemma steps_wanted: "importer_step\<^sup>*\<^sup>* s s' \<Longrightarrow> wanted r (fst s) \<Longrightarrow> wanted r (fst s')"
  by (induction rule: rtranclp_induct) (auto intro: step_wanted)

lemma register_compensates:
  assumes "registerHandle i p b ep t auto (Some r) = Some (Inr (h, cmp), i')"
    "arTeardownRequested (iResHeap i ! r)" "r < length (iResHeap i)"
  shows "\<exists>a. cmp = Some a \<and> iHandles i' p = Some h \<and> phDetachAttempt (iHandleHeap i' ! h) = Some a
    \<and> phDetaching (iHandleHeap i' ! h) \<and> phWatcherDone (iHandleHeap i' ! h) = None
    \<and> arDone (iResHeap i' ! r) \<and> arDetachAttempt (iResHeap i' ! r) = Some a \<and> \<not> daDone (iAttHeap i' ! a)"
proof -
  have tw: "teardown_wanted i (Some r)"
    using assms(2) by (simp add: teardown_wanted_def)
  obtain i1 where new: "newPortHandleLocked i p b ep t False = (h, i1)" and
    prep: "\<exists>i2. prepareAttachCompensationLocked (i1\<lparr>iHandles := (iHandles i1)(p \<mapsto> h)\<rparr>) h (Some r) = Some (cmp, i2)
      \<and> i' = drop_reservation i2 p r"
    using assms(1) tw
    by (auto simp: registerHandle_def complete_drop bind_eq_Some_conv Let_def
        split: option.splits if_splits prod.splits)
  define j where "j = i1\<lparr>iHandles := (iHandles i1)(p \<mapsto> h)\<rparr>"
  have j: "h < length (iHandleHeap j)" "phDetachAttempt (iHandleHeap j ! h) = None"
      "phWatcherDone (iHandleHeap j ! h) = None" "iResHeap j = iResHeap i" "iHandles j p = Some h"
    using new iResHeap_results(6) [OF new]
    by (auto simp: j_def newPortHandleLocked_def Let_def upd_defs nth_append split: option.splits)
  obtain i2 where i2: "prepareAttachCompensationLocked j h (Some r) = Some (cmp, i2)" "i' = drop_reservation i2 p r"
    using prep j_def by blast
  obtain g where
    "i2 = upd_res (upd_handle (upd_handle (j\<lparr>iAttHeap := iAttHeap j @ [\<lparr>daDone = False, daErr = None\<rparr>]\<rparr>) h
        (\<lambda>x. x\<lparr>phDetachAttempt := Some (length (iAttHeap j))\<rparr>)) h (\<lambda>x. x\<lparr>phDetaching := True\<rparr>) \<lparr>iWg := g\<rparr>) r
        (\<lambda>x. x\<lparr>arDetachAttempt := Some (length (iAttHeap j))\<rparr>)" "cmp = Some (length (iAttHeap j))"
    using i2(1) assms(2) j(2,4)
    by (auto simp: prepareAttachCompensationLocked_def bind_eq_Some_conv acquireDetachAttempt_def
        new_detachAttempt_def wg_add_i_def Let_def split: option.splits)
  thus ?thesis
    using j assms(3) by (simp add: i2(2) drop_reservation_def upd_defs)
qed

text \<open>C7: A Detach that meets a port whose attach is not yet published is never lost.  Whatever
  happens in between, when the reservation it marked is published as a handle, the handle comes
  with a compensating detach attempt that the publishing goroutine owns, the attempt is what the
  waiting Detach finds on the reservation, and no reconnect watcher is started for the handle.\<close>
theorem importer_teardown_not_lost:
  assumes "importer_reach (i0, D0)"
    "acquireDetachTarget i0 p = Some (Inr target, i1)" "dtReservation target = Some r"
    "importer_step\<^sup>*\<^sup>* (i1, D1) (i2, D2)"
    "registerHandle i2 q b ep t auto (Some r) = Some (Inr (h, cmp), i3)"
  shows "\<exists>a. cmp = Some a \<and> comp_duty q h cmp = {#DOwn q h a#}
    \<and> iHandles i3 q = Some h \<and> phDetachAttempt (iHandleHeap i3 ! h) = Some a
    \<and> phDetaching (iHandleHeap i3 ! h) \<and> phWatcherDone (iHandleHeap i3 ! h) = None
    \<and> arDone (iResHeap i3 ! r) \<and> arDetachAttempt (iResHeap i3 ! r) = Some a \<and> \<not> daDone (iAttHeap i3 ! a)"
proof -
  have "iReservations i0 p = Some r" "wanted r i1"
  proof -
    show res: "iReservations i0 p = Some r"
      using assms(2,3)
      by (auto simp: acquireDetachTarget_def Let_def bind_eq_Some_conv split: if_splits option.splits prod.splits)
    have "r < length (iResHeap i0)"
      using inv_res_map [OF importer_reach_inv [OF assms(1)] res] by simp
    thus "wanted r i1"
      using assms(2) res
      by (auto simp: acquireDetachTarget_def Let_def wanted_def upd_defs split: if_splits option.splits)
  qed
  hence "wanted r i2"
    using steps_wanted [OF assms(4)] by simp
  thus ?thesis
    using register_compensates [OF assms(5)] by (auto simp: wanted_def comp_duty_def)
qed

theorem importer_teardown_not_lost_witness:
  "\<exists>h cmp i3. registerHandle sample_teardown 2 ''1-1'' sample_endpoint second True (Some 0)
      = Some (Inr (h, cmp), i3) \<and> cmp \<noteq> None \<and> phDetaching (iHandleHeap i3 ! h)"
proof -
  note reg = sample_published_eq(1)
  show ?thesis
    using importer_teardown_not_lost [OF sample_reserved_reach sample_teardown_eq _ rtranclp.rtrancl_refl reg]
      reg by auto
qed

text \<open>What a finished detach leaves behind.  A successful one, or one that finds the port already
  released, removes exactly the handle it owned; after any other kernel error the handle stays
  registered and a later Detach gets an attempt of its own, but the handle keeps its detaching mark,
  so that the port cannot be reserved by an Attach until a Detach of it succeeds.\<close>
theorem detach_outcome:
  assumes "importer_reach (i, add_mset (DOwn p h a) D)" "iHandles i p = Some h"
    "phDetaching (iHandleHeap i ! h)"
  shows "\<exists>i'. finishDetachAttempt (detachHandle_result i p h kerr) h a kerr = Some i'
    \<and> iAttHeap i' ! a = \<lparr>daDone = True, daErr = kerr\<rparr>
    \<and> (kerr = None \<or> errors_Is (the kerr) (Dom ErrDeviceNotBound) \<longrightarrow> iHandles i' = (iHandles i)(p := None))
    \<and> (kerr \<noteq> None \<and> \<not> errors_Is (the kerr) (Dom ErrDeviceNotBound) \<longrightarrow>
        iHandles i' = iHandles i \<and> fst (snd (acquireDetachAttempt i' h))
        \<and> (\<not> iClosed i \<longrightarrow> reserveAttachPort i' p t = (Inl [Dom ErrAttachInProgress], i')))"
proof -
  note inv = importer_reach_inv [OF assms(1)]
  have a: "a < length (iAttHeap i)" "\<not> daDone (iAttHeap i ! a)"
    using inv_attempt [OF inv, of a] by (auto split: if_splits)
  have h: "h < length (iHandleHeap i)" "phDetachAttempt (iHandleHeap i ! h) = Some a"
    using owner_attempt [OF inv, of h a] by simp_all
  show ?thesis
    using a h assms(2,3)
    by (cases kerr) (auto simp: finishDetachAttempt_def complete_attempt_def detachHandle_result_def
        deleteExactHandle_def upd_handle_def acquireDetachAttempt_def new_detachAttempt_def
        reserveAttachPort_def)
qed

theorem detach_outcome_witness:
  "\<exists>i'. finishDetachAttempt (detachHandle_result sample_published 2 0 (Some [Errno 5])) 0 0 (Some [Errno 5]) = Some i'
    \<and> iHandles i' 2 = Some 0 \<and> reserveAttachPort i' 2 second = (Inl [Dom ErrAttachInProgress], i')"
proof -
  obtain i' where "finishDetachAttempt (detachHandle_result sample_published 2 0 (Some [Errno 5])) 0 0
        (Some [Errno 5]) = Some i'"
      "iHandles i' = iHandles sample_published" "reserveAttachPort i' 2 second = (Inl [Dom ErrAttachInProgress], i')"
    using detach_outcome [OF sample_published_reach, of "Some [Errno 5]" second] sample_published_eq(2) by auto
  thus ?thesis
    using sample_published_eq(2) by auto
qed

end
