(* ===== verification/Importer_Attach.thy ===== *)
theory Importer_Attach
  imports Importer_Run Wire_Devlist
begin

text \<open>
  \<open>internal/app/importer.go\<close>: the whole handlers of the Importer over the critical sections of
  \<open>Importer_State\<close>: Attach (guards, slot, dial, OP_REQ_IMPORT handshake, kernel handoff with the
  reservation hook, publication), Detach with its wait for a publication, ListRemote and ListPorts.
  What other goroutines do to the shared state while a handler waits is a function of the
  environment.
\<close>

section \<open>Outcomes\<close>

datatype AttachOutcome =
    AttachOutcomeOK | AttachOutcomePermission | AttachOutcomeNoFreePort
  | AttachOutcomeProtocolMismatch | AttachOutcomeDialFailed | AttachOutcomeKernelError

datatype DetachOutcome = DetachOutcomeOK | DetachOutcomeNotFound | DetachOutcomeError

definition classifyDecodeImportErr :: "go_error \<Rightarrow> AttachOutcome" where
  "classifyDecodeImportErr err =
     (if errors_Is err (Dom ErrDeviceNotFound) \<or> errors_Is err (Dom ErrDeviceAlreadyBound)
         \<or> errors_Is err (Dom ErrDeviceUnavailable)
      then AttachOutcomeKernelError else AttachOutcomeProtocolMismatch)"

definition classifyKernelAttachErr :: "go_error \<Rightarrow> AttachOutcome" where
  "classifyKernelAttachErr err =
     (if errors_Is err (Dom ErrPermission) then AttachOutcomePermission
      else if errors_Is err (Dom ErrNoFreePort) then AttachOutcomeNoFreePort
      else AttachOutcomeKernelError)"

section \<open>The handshake\<close>

text \<open>The request is written to \<open>w\<close>, the reply read from \<open>r\<close>; an error carries the outcome that is
  logged with it.\<close>

definition performImportHandshake ::
  "reader \<Rightarrow> writer \<Rightarrow> string \<Rightarrow> ((go_error \<times> AttachOutcome) + Device) \<times> writer" where
  "performImportHandshake r w busID =
     (case EncodeOpReqImport w busID of
        (Some err, w) \<Rightarrow> (Inl (err, AttachOutcomeProtocolMismatch), w)
      | (None, w) \<Rightarrow>
          (case fst (Codec_DecodeOpRepImport r) of
             Inl err \<Rightarrow> (Inl (err, classifyDecodeImportErr err), w)
           | Inr dev \<Rightarrow>
               (case ValidateWireBusID (dBusID dev) of
                  Inl err \<Rightarrow> (Inl (err, AttachOutcomeProtocolMismatch), w)
                | Inr _ \<Rightarrow>
                    if dBusID dev \<noteq> busID
                    then (Inl ([Dom ErrProtocolError], AttachOutcomeProtocolMismatch), w)
                    else (Inr dev, w))))"

section \<open>Attach\<close>

record AttachOptions =
  resetBackoffOnSuccess :: bool
  AutoReconnect :: bool
  HasBackoff :: bool
  HasBackoffFactory :: bool
  MaxAttempts :: int
  StatusPollInterval :: int
  ShutdownTimeout :: int

text \<open>\<open>kernel.AttachRemote\<close>: it fails before selecting a port, or selects one, calls the reservation
  hook and, unless the hook refuses, succeeds or fails; an adapter without a port to report may also
  skip the hook.\<close>

datatype kernel_attach = KAttachFails go_error | KAttachAt PortID "go_error option" | KAttachNoHook PortID

text \<open>The environment of one Attach: the module check, the connection (its reader and its writer),
  the kernel, and the interference of other goroutines before the slot is taken, before the port is
  reserved, during the kernel call and before the port snapshot is stored.\<close>

record attach_env =
  aeModules :: "go_error option"
  aeDial :: "go_error + (reader \<times> writer)"
  aeKernel :: kernel_attach
  aeBeforeSlot :: "Importer \<Rightarrow> Importer"
  aeBeforeReserve :: "Importer \<Rightarrow> Importer"
  aeDuringKernel :: "Importer \<Rightarrow> Importer"
  aeBeforeSnapshot :: "Importer \<Rightarrow> Importer"

text \<open>What an Attach did: its result, the state, whether it closed the connection it dialled, the
  port it released itself, the strategy reset, the watcher and the compensation it started.\<close>

record attach_out =
  aoResult :: "go_error + (Port \<times> nat)"
  aoState :: Importer
  aoOutcome :: "AttachOutcome option"
  aoClosedConn :: bool
  aoKernelPort :: "PortID option"
  aoReleasedPort :: "PortID option"
  aoBackoffReset :: bool
  aoWatcher :: bool
  aoCompensation :: "nat option"

definition attach_failed :: "go_error \<Rightarrow> AttachOutcome option \<Rightarrow> Importer \<Rightarrow> bool \<Rightarrow> attach_out" where
  "attach_failed err outcome i closedConn =
     \<lparr>aoResult = Inl err, aoState = i, aoOutcome = outcome, aoClosedConn = closedConn,
      aoKernelPort = None, aoReleasedPort = None, aoBackoffReset = False, aoWatcher = False,
      aoCompensation = None\<rparr>"

definition deviceIDBusShift :: nat where
  "deviceIDBusShift = 16"

definition device_id :: "Device \<Rightarrow> DeviceID" where
  "device_id dev = push_bit deviceIDBusShift (ucast (dBusNum dev)) OR ucast (dDevNum dev)"

definition finishAttach ::
  "attach_env \<Rightarrow> Importer \<Rightarrow> PortID \<Rightarrow> string \<Rightarrow> RemoteEndpoint \<Rightarrow> Device \<Rightarrow> DeviceID
     \<Rightarrow> AttachOptions \<Rightarrow> nat option \<Rightarrow> attach_out option" where
  "finishAttach env i portID busID endpoint dev devID opts reservation = do {
     (out, i) \<leftarrow> registerHandle i portID busID endpoint (resolveShutdownTimeout (ShutdownTimeout opts))
                   (AutoReconnect opts) reservation;
     case out of
       Inl err \<Rightarrow> Some
         ((attach_failed err (Some AttachOutcomeKernelError) (abortAttachReservation i reservation) False)
            \<lparr>aoKernelPort := Some portID, aoReleasedPort := Some portID\<rparr>)
     | Inr (h, compensation) \<Rightarrow>
         (let port = \<lparr>pID = portID, pStatus = StatusUsed, pSpeed = dSpeed dev, pDeviceID = devID,
                      pRemote = endpoint, pBusID = busID, pLocalBusID = []\<rparr>;
              i = upd_handle (aeBeforeSnapshot env i) h (\<lambda>x. x\<lparr>phLastKnownPort := port\<rparr>);
              watch = AutoReconnect opts \<and> compensation = None
          in do {
            i \<leftarrow> (if watch then wg_add_i i 1 else Some i);
            Some \<lparr>aoResult = Inr (port, h), aoState = i, aoOutcome = Some AttachOutcomeOK,
                  aoClosedConn = False, aoKernelPort = Some portID, aoReleasedPort = None,
                  aoBackoffReset = (compensation = None \<and> resetBackoffOnSuccess opts \<and> HasBackoff opts),
                  aoWatcher = watch, aoCompensation = compensation\<rparr> }) }"

definition attachOverDialed ::
  "attach_env \<Rightarrow> Importer \<Rightarrow> RemoteEndpoint \<Rightarrow> string \<Rightarrow> AttachOptions \<Rightarrow> attach_out option" where
  "attachOverDialed env i endpoint busID opts =
     (case aeDial env of
        Inl err \<Rightarrow> Some (attach_failed err (Some AttachOutcomeDialFailed) i False)
      | Inr (r, w) \<Rightarrow>
          (case fst (performImportHandshake r w busID) of
             Inl (err, outcome) \<Rightarrow> Some (attach_failed err (Some outcome) i True)
           | Inr dev \<Rightarrow>
               let devID = device_id dev;
                   kernelFailed = (\<lambda>err i reservation. Some (attach_failed err
                     (Some (classifyKernelAttachErr err)) (abortAttachReservation i reservation) True))
               in case aeKernel env of
                    KAttachFails err \<Rightarrow> kernelFailed err (aeDuringKernel env i) None
                  | KAttachNoHook p \<Rightarrow>
                      finishAttach env (aeDuringKernel env i) p busID endpoint dev devID opts None
                  | KAttachAt p kerr \<Rightarrow>
                      (case reserveAttachPort (aeBeforeReserve env i) p
                              (resolveShutdownTimeout (ShutdownTimeout opts)) of
                         (Inl err, i) \<Rightarrow> kernelFailed err i None
                       | (Inr r, i) \<Rightarrow>
                           (case kerr of
                              Some err \<Rightarrow> kernelFailed err (aeDuringKernel env i) (Some r)
                            | None \<Rightarrow> finishAttach env (aeDuringKernel env i) p busID endpoint dev devID
                                        opts (Some r)))))"

text \<open>The deferred release of the slot, and the two fields that a strategy factory leaves; a factory is required to
  return a strategy.\<close>

definition release_after :: "RemoteEndpoint \<Rightarrow> string \<Rightarrow> attach_out \<Rightarrow> attach_out option" where
  "release_after endpoint busID out = do {
     i \<leftarrow> wg_done_i (releaseAttachSlot_locked (aoState out) endpoint busID);
     Some (out\<lparr>aoState := i\<rparr>) }"

definition resolve_factory :: "AttachOptions \<Rightarrow> AttachOptions" where
  "resolve_factory opts =
     (if AutoReconnect opts \<and> \<not> HasBackoff opts \<and> HasBackoffFactory opts
      then opts\<lparr>HasBackoff := True, HasBackoffFactory := False\<rparr> else opts)"

definition attach ::
  "attach_env \<Rightarrow> Importer \<Rightarrow> RemoteEndpoint \<Rightarrow> string \<Rightarrow> AttachOptions \<Rightarrow> attach_out option" where
  "attach env i endpoint busID opts =
     (if iClosed i then Some (attach_failed [App ErrImporterClosed] None i False)
      else case RemoteEndpoint_Validate endpoint of
        Some err \<Rightarrow> Some (attach_failed err None i False)
      | None \<Rightarrow>
          if \<not> BusID_IsValid busID then Some (attach_failed [Dom ErrBusIDInvalid] None i False)
          else if MaxAttempts opts < 0
          then Some (attach_failed [App ErrAttachOptionsInvalid] None i False)
          else
            let endpoint = NormalizePort endpoint
            in do {
              (slot, i) \<leftarrow> acquireAttachSlot (aeBeforeSlot env i) endpoint busID;
              case slot of
                Inl err \<Rightarrow> Some (attach_failed err None i False)
              | Inr _ \<Rightarrow> do {
                  out \<leftarrow> (case aeModules env of
                           Some err \<Rightarrow> Some (attach_failed err (Some AttachOutcomeKernelError) i False)
                         | None \<Rightarrow> attachOverDialed env i endpoint busID (resolve_factory opts));
                  release_after endpoint busID out } })"

section \<open>Detach\<close>

text \<open>\<open>waitAttachPublication\<close>: the reservation at the first look, the error of the arm that won the
  select (if not the publication), the reservation afterwards.\<close>

definition waitAttachPublication ::
  "attachReservation \<Rightarrow> go_error option \<Rightarrow> attachReservation \<Rightarrow> go_error + nat option" where
  "waitAttachPublication r0 waited r1 =
     (if arDone r0 then Inr (arDetachAttempt r0)
      else case waited of
        None \<Rightarrow> Inr (arDetachAttempt r1)
      | Some err \<Rightarrow> if arDone r1 then Inr (arDetachAttempt r1) else Inl err)"

definition detachUntrackedPort :: "go_error option \<Rightarrow> go_error option \<times> DetachOutcome" where
  "detachUntrackedPort kerr =
     (case kerr of
        None \<Rightarrow> (None, DetachOutcomeOK)
      | Some err \<Rightarrow>
          (Some err, if errors_Is err (Dom ErrDeviceNotBound) then DetachOutcomeNotFound else DetachOutcomeError))"

text \<open>The environment of one round of Detach: interference during the waits and the kernel call,
  the kernel's answer, and the context or timeout error when it wins a wait.\<close>

record detach_env =
  deWatcher :: "Importer \<Rightarrow> Importer"
  deKernel :: "Importer \<Rightarrow> Importer"
  deKernelErr :: "go_error option"
  deWaiting :: "Importer \<Rightarrow> Importer"
  deWaitErr :: "go_error option"

definition detachPublishedTarget ::
  "detach_env \<Rightarrow> Importer \<Rightarrow> PortID \<Rightarrow> detachTarget \<Rightarrow> (go_error option \<times> Importer) option" where
  "detachPublishedTarget env i p t =
     (let a = the (dtAttempt t)
      in if \<not> dtOwner t then
           (let i1 = deWaiting env i
            in Some (waitDetachAttempt (iAttHeap i ! a) (deWaitErr env) (iAttHeap i1 ! a), i1))
         else if dtUntracked t then do {
           i1 \<leftarrow> finishUntrackedDetach (deKernel env i) p a (fst (detachUntrackedPort (deKernelErr env)));
           Some (fst (detachUntrackedPort (deKernelErr env)), i1) }
         else
           (let h = the (dtHandle t);
                (err, i) = detachHandle (deWatcher env) (deKernel env) (deKernelErr env) i p h
            in do {
              i \<leftarrow> finishDetachAttempt i h a err;
              i \<leftarrow> wg_done_i i;
              Some (err, i) }))"

datatype detach_result = DetachPanic | DetachWaiting Importer | DetachReturns "go_error option" Importer

text \<open>The loop of \<open>Detach\<close>, one environment per round; \<open>DetachWaiting\<close> when the rounds are used up.\<close>

fun Detach :: "detach_env list \<Rightarrow> Importer \<Rightarrow> PortID \<Rightarrow> detach_result" where
  "Detach [] i p = DetachWaiting i"
| "Detach (env # envs) i p =
     (case acquireDetachTarget i p of
        None \<Rightarrow> DetachPanic
      | Some (Inl err, i) \<Rightarrow> DetachReturns (Some err) i
      | Some (Inr t, i) \<Rightarrow>
          (case dtReservation t of
             None \<Rightarrow>
               (case detachPublishedTarget env i p t of
                  None \<Rightarrow> DetachPanic
                | Some (err, i) \<Rightarrow> DetachReturns err i)
           | Some r \<Rightarrow>
               let i1 = deWaiting env i
               in case waitAttachPublication (iResHeap i ! r) (deWaitErr env) (iResHeap i1 ! r) of
                    Inl waitErr \<Rightarrow> DetachReturns (Some waitErr) i1
                  | Inr (Some a) \<Rightarrow>
                      let i2 = deKernel env i1
                      in DetachReturns (waitDetachAttempt (iAttHeap i1 ! a) (deWaitErr env) (iAttHeap i2 ! a)) i2
                  | Inr None \<Rightarrow> Detach envs i1 p))"

section \<open>ListRemote and ListPorts\<close>

definition ListRemote ::
  "Importer \<Rightarrow> RemoteEndpoint \<Rightarrow> (go_error + (reader \<times> writer)) \<Rightarrow> (go_error + Device list) \<times> bytes" where
  "ListRemote i endpoint dial =
     (if iClosed i then (Inl [App ErrImporterClosed], [])
      else case RemoteEndpoint_Validate endpoint of
        Some err \<Rightarrow> (Inl err, [])
      | None \<Rightarrow>
          (case dial of
             Inl err \<Rightarrow> (Inl err, [])
           | Inr (r, w) \<Rightarrow>
               (case io_Write w EncodeOpReqDevlist of
                  (Some err, w) \<Rightarrow> (Inl err, wout w)
                | (None, w) \<Rightarrow> (fst (Codec_DecodeOpRepDevlist r), wout w))))"

definition enrichPortFromHandle :: "Port \<Rightarrow> portHandle \<Rightarrow> Port" where
  "enrichPortFromHandle port handle =
     (let lastKnown = phLastKnownPort handle
      in if pID port \<noteq> pID lastKnown \<or> pStatus port \<noteq> StatusUsed
            \<or> pDeviceID port \<noteq> pDeviceID lastKnown \<or> pSpeed port \<noteq> pSpeed lastKnown
         then port
         else port\<lparr>pRemote := pRemote lastKnown, pBusID := pBusID lastKnown\<rparr>)"

definition ListPorts :: "Importer \<Rightarrow> go_error + Port list \<Rightarrow> go_error + Port list" where
  "ListPorts i listed =
     (if iClosed i then Inl [App ErrImporterClosed]
      else case listed of
        Inl err \<Rightarrow> Inl err
      | Inr ports \<Rightarrow> Inr (map (\<lambda>port.
          case iHandles i (pID port) of
            None \<Rightarrow> port
          | Some h \<Rightarrow> enrichPortFromHandle port (iHandleHeap i ! h)) ports))"

text \<open>\<open>Close\<close>: what it cancels and how long it waits; a second call does nothing.  The list is the
  map's handles in iteration order.\<close>

definition Importer_Close :: "Importer \<Rightarrow> nat list \<Rightarrow> int option \<times> Importer" where
  "Importer_Close i hs =
     (let i = Close_locked i
      in (waitGroupBounded (map ((!) (iHandleHeap i)) hs), Close_cancel i hs))"

section \<open>Properties of the handshake\<close>

lemma handshake_Inr:
  assumes "performImportHandshake r w busID = (Inr dev, w')"
  shows "EncodeOpReqImport w busID = (None, w') \<and> fst (Codec_DecodeOpRepImport r) = Inr dev
    \<and> dBusID dev = busID \<and> ValidateWireBusID busID = Inr busID"
proof -
  have "ValidateWireBusID s = Inr x \<Longrightarrow> x = s" for s x
    by (auto simp: ValidateWireBusID_def split: if_splits)
  thus ?thesis
    using assms by (auto simp: performImportHandshake_def split: prod.splits option.splits sum.splits if_splits)
qed

lemma handshake_reply:
  assumes "wcap w = None" "fst (Codec_DecodeOpRepImport r) = Inr dev" "dBusID dev = busID"
    "ValidateWireBusID busID = Inr busID"
  shows "fst (performImportHandshake r w busID) = Inr dev"
proof -
  have "wire_busid busID"
    using assms(4) by (simp add: wire_busid_def)
  thus ?thesis
    using assms req_import.enc_frame [of busID w] by (simp add: performImportHandshake_def)
qed

section \<open>Properties of Attach\<close>

lemma finishAttach_cases:
  assumes "finishAttach env i p b ep dev devID opts res = Some out"
  shows "aoKernelPort out = Some p \<and> (case aoResult out of
      Inl _ \<Rightarrow> aoReleasedPort out = Some p
    | Inr (port, h) \<Rightarrow> aoReleasedPort out = None
        \<and> port = \<lparr>pID = p, pStatus = StatusUsed, pSpeed = dSpeed dev, pDeviceID = devID, pRemote = ep,
                  pBusID = b, pLocalBusID = []\<rparr>
        \<and> (aoWatcher out \<longrightarrow> aoCompensation out = None)) \<and> \<not> aoClosedConn out"
proof -
  obtain reg j where reg: "registerHandle i p b ep (resolveShutdownTimeout (ShutdownTimeout opts))
      (AutoReconnect opts) res = Some (reg, j)"
    using assms by (auto simp: finishAttach_def bind_eq_Some_conv)
  show ?thesis
  proof (cases reg)
    case (Inl e)
    thus ?thesis
      using assms reg by (auto simp: finishAttach_def attach_failed_def)
  next
    case (Inr hc)
    obtain h c where "hc = (h, c)"
      by (cases hc)
    thus ?thesis
      using assms reg Inr
      by (cases "AutoReconnect opts \<and> c = None") (auto simp: finishAttach_def bind_eq_Some_conv Let_def)
  qed
qed

lemma attachOverDialed_cases:
  assumes "attachOverDialed env i ep b opts = Some out"
  shows "case aoResult out of
      Inl _ \<Rightarrow> aoReleasedPort out = aoKernelPort out
        \<and> (aoClosedConn out \<longleftrightarrow> (\<exists>rw. aeDial env = Inr rw) \<and> aoKernelPort out = None)
    | Inr (port, h) \<Rightarrow> aoReleasedPort out = None \<and> aoKernelPort out = Some (pID port)
        \<and> (\<exists>r w w' dev. aeDial env = Inr (r, w) \<and> performImportHandshake r w b = (Inr dev, w')
            \<and> port = \<lparr>pID = pID port, pStatus = StatusUsed, pSpeed = dSpeed dev, pDeviceID = device_id dev,
                      pRemote = ep, pBusID = b, pLocalBusID = []\<rparr>)
        \<and> (aoWatcher out \<longrightarrow> aoCompensation out = None)"
proof (cases "aeDial env")
  case (Inl e)
  thus ?thesis
    using assms by (auto simp: attachOverDialed_def attach_failed_def)
next
  case (Inr rw)
  obtain r w where rw: "aeDial env = Inr (r, w)"
    using Inr by (cases rw) auto
  show ?thesis
  proof (cases "performImportHandshake r w b")
    case (Pair hs w')
    show ?thesis
    proof (cases hs)
      case (Inl e)
      thus ?thesis
        using assms rw Pair by (cases e) (auto simp: attachOverDialed_def attach_failed_def)
    next
      case (Inr dev)
      consider (failed) err outcome j where "out = attach_failed err outcome j True"
        | (finished) j p res where "finishAttach env j p b ep dev (device_id dev) opts res = Some out"
        using assms rw Pair Inr
        by (auto simp: attachOverDialed_def Let_def split: kernel_attach.splits prod.splits sum.splits option.splits)
      thus ?thesis
      proof cases
        case failed
        thus ?thesis
          using rw by (simp add: attach_failed_def)
      next
        case finished
        show ?thesis
          using finishAttach_cases [OF finished] rw Pair Inr
          by (auto split: sum.splits)
      qed
    qed
  qed
qed

lemma release_after_frame:
  assumes "release_after ep b out = Some out'"
  shows "\<exists>i. out' = out\<lparr>aoState := i\<rparr> \<and> (ep, b) \<notin> set (iInFlight i)"
  using assms by (auto simp: release_after_def bind_eq_Some_conv wg_done_i_def releaseAttachSlot_locked_def)

lemma attach_split:
  assumes "attach env i endpoint busID opts = Some out"
  shows "(\<exists>err j. out = attach_failed err None j False)
    \<or> (\<not> iClosed i \<and> RemoteEndpoint_Validate endpoint = None \<and> BusID_IsValid busID \<and> 0 \<le> MaxAttempts opts
       \<and> (\<exists>j out0. ((\<exists>err. out0 = attach_failed err (Some AttachOutcomeKernelError) j False)
             \<or> attachOverDialed env j (NormalizePort endpoint) busID (resolve_factory opts) = Some out0)
           \<and> release_after (NormalizePort endpoint) busID out0 = Some out))"
proof (cases "\<not> iClosed i \<and> RemoteEndpoint_Validate endpoint = None \<and> BusID_IsValid busID \<and> 0 \<le> MaxAttempts opts")
  case True
  then obtain slot j where slot: "acquireAttachSlot (aeBeforeSlot env i) (NormalizePort endpoint) busID = Some (slot, j)"
    using assms by (auto simp: attach_def Let_def bind_eq_Some_conv)
  show ?thesis
  proof (cases slot)
    case (Inl e)
    thus ?thesis
      using assms True slot by (auto simp: attach_def)
  next
    case (Inr u)
    have "\<exists>out0. ((\<exists>err. out0 = attach_failed err (Some AttachOutcomeKernelError) j False)
          \<or> attachOverDialed env j (NormalizePort endpoint) busID (resolve_factory opts) = Some out0)
        \<and> release_after (NormalizePort endpoint) busID out0 = Some out"
    proof (cases "aeModules env")
      case None
      thus ?thesis
        using assms True slot Inr by (auto simp: attach_def bind_eq_Some_conv Let_def)
    next
      case (Some e)
      hence "release_after (NormalizePort endpoint) busID
          (attach_failed e (Some AttachOutcomeKernelError) j False) = Some out"
        using assms True slot Inr by (simp add: attach_def)
      thus ?thesis
        by blast
    qed
    thus ?thesis
      using True by blast
  qed
next
  case False
  thus ?thesis
    using assms by (auto simp: attach_def not_less split: if_splits option.splits)
qed


definition sample_options :: AttachOptions where
  "sample_options = \<lparr>resetBackoffOnSuccess = False, AutoReconnect = True, HasBackoff = False,
     HasBackoffFactory = False, MaxAttempts = 3, StatusPollInterval = 0, ShutdownTimeout = 0\<rparr>"

definition sample_attach_env :: attach_env where
  "sample_attach_env =
     \<lparr>aeModules = None, aeDial = Inr (reader_of (rep_import_frame sample_device), sink),
      aeKernel = KAttachAt 2 None, aeBeforeSlot = id, aeBeforeReserve = id, aeDuringKernel = id,
      aeBeforeSnapshot = id\<rparr>"

lemma sample_handshake:
  "fst (performImportHandshake (reader_of (rep_import_frame sample_device)) sink ''1-1'') = Inr (wire_view sample_device)"
proof (rule handshake_reply)
  obtain r' where "DecodeOpRepImport (reader_of (rep_import_frame sample_device))
      = (Inr (wire_view sample_device, noFlags), r')"
    using rep_import.dec_frame [OF sample_device_ok, of "reader_of (rep_import_frame sample_device)" "[]"] by auto
  thus "fst (Codec_DecodeOpRepImport (reader_of (rep_import_frame sample_device))) = Inr (wire_view sample_device)"
    by (simp add: Codec_DecodeOpRepImport_def)
qed (simp_all add: sink_def sample_device_def wire_view_def, code_simp)

lemma sample_endpoint_valid: "RemoteEndpoint_Validate sample_endpoint = None"
  by code_simp

lemma sample_busid_valid: "BusID_IsValid ''1-1''"
  by code_simp

lemma sample_attach:
  "\<exists>out port h. attach sample_attach_env NewImporter sample_endpoint ''1-1'' sample_options = Some out
     \<and> aoResult out = Inr (port, h) \<and> pID port = 2 \<and> aoWatcher out"
proof -
  have "NormalizePort sample_endpoint = sample_endpoint"
    by (simp add: NormalizePort_def sample_endpoint_def)
  thus ?thesis
    using sample_endpoint_valid sample_busid_valid sample_handshake
    by (simp add: attach_def NewImporter_def sample_options_def sample_attach_env_def acquireAttachSlot_def
        wg_add_i_def wg_Add_def attachOverDialed_def resolve_factory_def reserveAttachPort_def finishAttach_def
        registerHandle_def validateAttachReservationLocked_def teardown_wanted_def newPortHandleLocked_def
        prepareAttachCompensationLocked_def upd_defs completeAttachReservation_def
        removeAttachReservationLocked_def release_after_def releaseAttachSlot_locked_def wg_done_i_def wg_Done_def
        Let_def)
qed


section \<open>Properties of Close, ListPorts and the timeouts\<close>

lemma longest_loop_spec:
  "longest_loop m hs = (if \<exists>h\<in>set hs. phShutdownTimeout h < 0 then - 1
     else Max (insert m (phShutdownTimeout ` set hs)))" (is "_ = ?R m hs")
proof (induction hs arbitrary: m)
  case (Cons h hs)
  show ?case
  proof (cases "\<exists>x\<in>set (h # hs). phShutdownTimeout x < 0")
    case False
    hence "longest_loop m (h # hs) = Max (insert (max m (phShutdownTimeout h)) (phShutdownTimeout ` set hs))"
      using Cons by (auto simp: max_def)
    also have "\<dots> = Max (insert m (insert (phShutdownTimeout h) (phShutdownTimeout ` set hs)))"
      by (cases "hs = []") (simp_all add: max.assoc)
    finally show ?thesis
      using False by simp
  qed (use Cons in auto)
qed simp

lemma closed_step: "importer_step s s' \<Longrightarrow> iClosed (fst s) \<Longrightarrow> iClosed (fst s')"
proof (induction rule: importer_step.induct)
  case (publish i p b ep t auto res h cmp i' k D)
  thus ?case
    by (auto simp: registerHandle_def split: option.splits if_splits)
next
  case (publish_error i p b ep t auto res e i' k D)
  thus ?case
    by (auto simp: registerHandle_def completeAttachReservation_def removeAttachReservationLocked_def upd_defs
        bind_eq_Some_conv split: option.splits if_splits prod.splits)
next
  case (detach_exact i p h got i' D)
  thus ?case
    by (auto simp: detachExactHandle_locked_def acquireDetachAttempt_def new_detachAttempt_def upd_defs
        wg_add_i_def bind_eq_Some_conv Let_def split: option.splits if_splits prod.splits)
qed (auto simp: acquireAttachSlot_def reserveAttachPort_def abortAttachReservation_def upd_defs
    releaseAttachSlot_locked_def wg_done_i_def wg_add_i_def acquireDetachTarget_def detachHandle_result_def
    deleteExactHandle_def finishDetachAttempt_def finishUntracked_locked_def complete_attempt_def
    Close_locked_def Let_def bind_eq_Some_conv split: option.splits if_splits prod.splits)

lemma closed_steps: "importer_step\<^sup>*\<^sup>* s s' \<Longrightarrow> iClosed (fst s) \<Longrightarrow> iClosed (fst s')"
  by (induction rule: rtranclp_induct) (auto intro: closed_step)

lemma Close_cancel_done:
  "iClosed (Close_cancel i hs) = iClosed i \<and> length (iHandleHeap (Close_cancel i hs)) = length (iHandleHeap i)
   \<and> (\<forall>h<length (iHandleHeap i). h \<in> set hs \<or> phDone (iHandleHeap i ! h) \<longrightarrow> phDone (iHandleHeap (Close_cancel i hs) ! h))"
proof (induction hs arbitrary: i)
  case (Cons a hs)
  have "phDone (iHandleHeap (portHandle_cancel i a) ! h) \<longleftrightarrow> h = a \<or> phDone (iHandleHeap i ! h)"
    if "h < length (iHandleHeap i)" for h
    using that by (cases "a = h") (simp_all add: upd_defs)
  moreover have "iClosed (portHandle_cancel i a) = iClosed i"
      "length (iHandleHeap (portHandle_cancel i a)) = length (iHandleHeap i)"
    by (simp_all add: upd_defs)
  ultimately show ?case
    using Cons [of "portHandle_cancel i a"] by (simp add: Close_cancel_def)
qed (simp add: Close_cancel_def)

text \<open>Close cancels every handle it collected and is final: from then on, whatever the goroutines
  still in progress do, no Attach gets a slot or a port, no Detach gets a target and no handle is
  published.  Its wait is bounded by the longest shutdown timeout of those handles, by the default
  when there are none, and unbounded exactly when one of them asks for that.\<close>
theorem importer_close_final:
  assumes "Importer_Close i hs = (bound, i1)" "\<forall>h\<in>set hs. h < length (iHandleHeap i)"
    "importer_step\<^sup>*\<^sup>* (i1, D1) (i2, D2)"
  shows "(\<forall>h\<in>set hs. phDone (iHandleHeap i1 ! h))
    \<and> acquireAttachSlot i2 ep b = Some (Inl [App ErrImporterClosed], i2)
    \<and> reserveAttachPort i2 p t = (Inl [App ErrImporterClosed], i2)
    \<and> acquireDetachTarget i2 p = Some (Inl [App ErrImporterClosed], i2)
    \<and> (\<exists>e i3. registerHandle i2 p b ep t auto res = Some (Inl e, i3) \<and> iHandles i3 = iHandles i2)
    \<and> bound = (if hs = [] then Some defaultShutdownTimeout
        else if \<exists>h\<in>set hs. phShutdownTimeout (iHandleHeap i ! h) < 0 then None
        else Some (Max (insert 0 ((\<lambda>h. phShutdownTimeout (iHandleHeap i ! h)) ` set hs))))"
proof -
  have i1: "i1 = Close_cancel (Close_locked i) hs" "bound = waitGroupBounded (map ((!) (iHandleHeap i)) hs)"
    using assms(1) by (auto simp: Importer_Close_def Let_def Close_locked_def)
  have "iClosed i1"
    by (simp add: i1 Close_cancel_done) (simp add: Close_locked_def)
  hence closed2: "iClosed i2"
    using closed_steps [OF assms(3)] by simp
  have "\<exists>e i3. registerHandle i2 p b ep t auto res = Some (Inl e, i3) \<and> iHandles i3 = iHandles i2"
    using closed2 by (auto simp: registerHandle_def completeAttachReservation_def
        removeAttachReservationLocked_def upd_defs split: option.splits)
  moreover have "bound = (if hs = [] then Some defaultShutdownTimeout
      else if \<exists>h\<in>set hs. phShutdownTimeout (iHandleHeap i ! h) < 0 then None
      else Some (Max (insert 0 ((\<lambda>h. phShutdownTimeout (iHandleHeap i ! h)) ` set hs))))"
    by (auto simp: i1(2) waitGroupBounded_def longestShutdownTimeout_def longest_loop_spec Let_def
        defaultShutdownTimeout_def second_def image_image not_less Max_gr_iff)
  moreover have "\<forall>h\<in>set hs. phDone (iHandleHeap i1 ! h)"
    using Close_cancel_done [of "Close_locked i" hs] assms(2) by (simp add: i1(1)) (simp add: Close_locked_def)
  ultimately show ?thesis
    using closed2 by (simp add: acquireAttachSlot_def reserveAttachPort_def acquireDetachTarget_def)
qed

theorem importer_close_final_witness:
  "fst (Importer_Close sample_published [0]) = Some second
   \<and> phDone (iHandleHeap (snd (Importer_Close sample_published [0])) ! 0)
   \<and> acquireDetachTarget (snd (Importer_Close sample_published [0])) 2
      = Some (Inl [App ErrImporterClosed], snd (Importer_Close sample_published [0]))"
proof -
  have h: "0 < length (iHandleHeap sample_published)" "phShutdownTimeout (iHandleHeap sample_published ! 0) = second"
    by (simp_all add: sample_published_def sample_teardown_def sample_reserved_def acquireDetachTarget_def
        acquireAttachSlot_def reserveAttachPort_def NewImporter_def wg_add_i_def wg_Add_def registerHandle_def
        validateAttachReservationLocked_def teardown_wanted_def newPortHandleLocked_def
        prepareAttachCompensationLocked_def acquireDetachAttempt_def new_detachAttempt_def upd_defs
        completeAttachReservation_def removeAttachReservationLocked_def)
  obtain b i1 where c: "Importer_Close sample_published [0] = (b, i1)"
    by (cases "Importer_Close sample_published [0]")
  show ?thesis
    using importer_close_final [OF c _ rtranclp.rtrancl_refl, of sample_endpoint "[]" 2 0 False None] h
    by (simp add: c second_def)
qed

text \<open>ListPorts reports the kernel's view: every port it returns has the kernel's id, status, speed,
  device id and local bus id, in the kernel's order; remote endpoint and remote bus id are filled in
  only for a port in use whose registered handle last attached this very device at this speed, and
  are then those of that attach.\<close>
theorem list_ports_truthful:
  assumes "ListPorts i (Inr kports) = Inr ports" "n < length ports"
  shows "length ports = length kports \<and> pID (ports ! n) = pID (kports ! n)
    \<and> pStatus (ports ! n) = pStatus (kports ! n) \<and> pSpeed (ports ! n) = pSpeed (kports ! n)
    \<and> pDeviceID (ports ! n) = pDeviceID (kports ! n) \<and> pLocalBusID (ports ! n) = pLocalBusID (kports ! n)
    \<and> (ports ! n \<noteq> kports ! n \<longrightarrow> (\<exists>h. iHandles i (pID (kports ! n)) = Some h
         \<and> (let k = phLastKnownPort (iHandleHeap i ! h)
            in pStatus (kports ! n) = StatusUsed \<and> pID k = pID (kports ! n) \<and> pDeviceID k = pDeviceID (kports ! n)
               \<and> pSpeed k = pSpeed (kports ! n) \<and> pRemote (ports ! n) = pRemote k \<and> pBusID (ports ! n) = pBusID k)))"
proof -
  have p: "ports = map (\<lambda>port. case iHandles i (pID port) of None \<Rightarrow> port
      | Some h \<Rightarrow> enrichPortFromHandle port (iHandleHeap i ! h)) kports"
    using assms(1) by (auto simp: ListPorts_def split: if_splits)
  hence "n < length kports"
    using assms(2) by simp
  thus ?thesis
    by (cases "iHandles i (pID (kports ! n))") (auto simp: p enrichPortFromHandle_def Let_def)
qed

theorem list_ports_truthful_witness:
  "ListPorts NewImporter (Inr [zeroPort]) = Inr [zeroPort] \<and> pID ([zeroPort] ! 0) = 0"
proof -
  have "ListPorts NewImporter (Inr [zeroPort]) = Inr [zeroPort]"
    by (simp add: ListPorts_def NewImporter_def)
  thus ?thesis
    using list_ports_truthful [of NewImporter "[zeroPort]" "[zeroPort]" 0] by (simp add: zeroPort_def)
qed

end
