(* ===== verification/Reconnect.thy ===== *)
theory Reconnect
  imports Importer_Attach Event_Feed
begin

text \<open>
  \<open>internal/app/reconnect.go\<close>: the watcher that re-attaches a port the kernel lost.
  Other goroutines are parameters: every step of the watcher that reads the importer takes the state
  as it is at that moment, and an attempt lists what happens to the state around it.  The delay of an
  attempt comes from the backoff strategy and is a parameter; the exponential strategy is modelled in
  \<open>Backoff\<close>.  A watcher whose list of turns or attempts is used up is still running.
\<close>

section \<open>Watching for the detach\<close>

record reconnectParams =
  rpHandle :: nat
  rpPortID :: PortID
  rpEndpoint :: RemoteEndpoint
  rpBusID :: string
  rpOpts :: AttachOptions

definition defaultStatusPollInterval :: int where "defaultStatusPollInterval = 5000000000"

text \<open>\<open>HasBackoff\<close> is whether the strategy is set.\<close>

definition resolveReconnectOptions :: "AttachOptions \<Rightarrow> AttachOptions" where
  "resolveReconnectOptions opts =
     (let opts = (if \<not> HasBackoff opts then opts\<lparr>HasBackoff := True\<rparr> else opts)
      in if StatusPollInterval opts = 0 then opts\<lparr>StatusPollInterval := defaultStatusPollInterval\<rparr> else opts)"

definition currentGeneration :: "Importer \<Rightarrow> PortID \<Rightarrow> u64" where
  "currentGeneration i p = (case iHandles i p of None \<Rightarrow> 0 | Some h \<Rightarrow> phGeneration (iHandleHeap i ! h))"

definition isCurrentHandle :: "Importer \<Rightarrow> PortID \<Rightarrow> nat \<Rightarrow> bool" where
  "isCurrentHandle i p h \<longleftrightarrow> iHandles i p = Some h"

fun port_detached_loop :: "Port list \<Rightarrow> PortID \<Rightarrow> bool" where
  "port_detached_loop [] p = True"
| "port_detached_loop (q # qs) p = (if pID q = p then pStatus q = StatusNull else port_detached_loop qs p)"

text \<open>\<open>listed\<close> is what \<open>kernel.ListPorts\<close> returns at this moment.\<close>

definition portIsDetached :: "go_error + Port list \<Rightarrow> PortID \<Rightarrow> bool" where
  "portIsDetached listed p = (case listed of Inl _ \<Rightarrow> False | Inr ports \<Rightarrow> port_detached_loop ports p)"

definition isDetachSignal :: "Importer \<Rightarrow> go_error + Port list \<Rightarrow> Event \<Rightarrow> reconnectParams \<Rightarrow> bool" where
  "isDetachSignal i listed ev p =
     (case ev of
        PortDetachedEvent _ port _ \<Rightarrow>
          if pID port \<noteq> rpPortID p then False
          else if \<not> isCurrentHandle i (rpPortID p) (rpHandle p) then False
          else if \<not> portIsDetached listed (rpPortID p) then False
          else True
      | _ \<Rightarrow> False)"

datatype detect_source = reconnectSourceNone | reconnectSourceUevent | reconnectSourcePoll

text \<open>One select of the watcher: the branch it takes, with the importer and the port list it will see.
  \<open>DetectEvent None\<close> is the closed event channel.\<close>

datatype detect_branch =
    DetectCtx
  | DetectEvent "Event option" Importer "go_error + Port list"
  | DetectPoll Importer "go_error + Port list"

record detectTick =
  tkSource :: detect_source
  tkNextPoll :: bool
  tkDone :: bool

text \<open>\<open>pollCh\<close>: whether a poll timer is armed.  \<open>None\<close>: the branch is not ready.\<close>

definition waitForDetachTick :: "detect_branch \<Rightarrow> reconnectParams \<Rightarrow> bool \<Rightarrow> detectTick option" where
  "waitForDetachTick br p pollCh =
     (case br of
        DetectCtx \<Rightarrow> Some \<lparr>tkSource = reconnectSourceNone, tkNextPoll = False, tkDone = True\<rparr>
      | DetectEvent None _ _ \<Rightarrow> Some \<lparr>tkSource = reconnectSourceNone, tkNextPoll = False, tkDone = True\<rparr>
      | DetectEvent (Some ev) i listed \<Rightarrow>
          if isDetachSignal i listed ev p
          then Some \<lparr>tkSource = reconnectSourceUevent, tkNextPoll = False, tkDone = True\<rparr>
          else Some \<lparr>tkSource = reconnectSourceNone, tkNextPoll = pollCh, tkDone = False\<rparr>
      | DetectPoll i listed \<Rightarrow>
          if \<not> pollCh then None
          else if portIsDetached listed (rpPortID p) \<and> isCurrentHandle i (rpPortID p) (rpHandle p)
          then Some \<lparr>tkSource = reconnectSourcePoll, tkNextPoll = False, tkDone = True\<rparr>
          else Some \<lparr>tkSource = reconnectSourceNone, tkNextPoll = True, tkDone = False\<rparr>)"

fun detach_loop :: "detect_branch list \<Rightarrow> reconnectParams \<Rightarrow> bool \<Rightarrow> detect_source option" where
  "detach_loop [] p pollCh = None"
| "detach_loop (br # brs) p pollCh =
     (case waitForDetachTick br p pollCh of
        None \<Rightarrow> detach_loop brs p pollCh
      | Some tick \<Rightarrow> if tkDone tick then Some (tkSource tick) else detach_loop brs p (tkNextPoll tick))"

definition waitForDetach :: "detect_branch list \<Rightarrow> reconnectParams \<Rightarrow> detect_source option" where
  "waitForDetach brs p = detach_loop brs p (0 < StatusPollInterval (rpOpts p))"

section \<open>Telling the caller\<close>

text \<open>The one-element request queue of the callback runner.  Between the three selects of \<open>Notify\<close> the
  runner may receive (\<open>r1\<close>, \<open>r2\<close>); the requests it received are returned.\<close>

type_synonym reconnectCallbackRequest = "int \<times> go_error"

definition runner_receive :: "bool \<Rightarrow> reconnectCallbackRequest option \<Rightarrow> reconnectCallbackRequest list \<times> reconnectCallbackRequest option" where
  "runner_receive r q = (case q of Some x \<Rightarrow> if r then ([x], None) else ([], q) | None \<Rightarrow> ([], None))"

definition Notify :: "bool \<Rightarrow> bool \<Rightarrow> reconnectCallbackRequest \<Rightarrow> reconnectCallbackRequest option
     \<Rightarrow> reconnectCallbackRequest list \<times> reconnectCallbackRequest option" where
  "Notify r1 r2 request q =
     (case q of
        None \<Rightarrow> ([], Some request)
      | Some _ \<Rightarrow>
          (let (got1, q) = runner_receive r1 q;
               q = (case q of Some _ \<Rightarrow> None | None \<Rightarrow> None);
               (got2, q) = runner_receive r2 q;
               q = (case q of None \<Rightarrow> Some request | Some x \<Rightarrow> Some x)
           in (got1 @ got2, q)))"

section \<open>The reconnect loop\<close>

definition removeHandle :: "Importer \<Rightarrow> PortID \<Rightarrow> nat \<Rightarrow> Importer" where
  "removeHandle i p owned =
     (if iHandles i p = Some owned then i\<lparr>iHandles := (iHandles i)(p := None)\<rparr> else i)"

definition armBackoff :: "int \<Rightarrow> int option" where
  "armBackoff delay = (if delay \<le> 0 then None else Some delay)"

text \<open>\<open>fired\<close>: the select took the timer; \<open>ctxErr\<close>: the context is done when it is looked at.\<close>

definition waitBackoffChan :: "int option \<Rightarrow> bool \<Rightarrow> bool \<Rightarrow> bool" where
  "waitBackoffChan ch fired ctxErr =
     (case ch of None \<Rightarrow> \<not> ctxErr | Some _ \<Rightarrow> if \<not> fired then False else \<not> ctxErr)"

definition detachExactHandle :: "detach_env \<Rightarrow> Importer \<Rightarrow> PortID \<Rightarrow> nat \<Rightarrow> (go_error option \<times> Importer) option" where
  "detachExactHandle env i p h =
     (case detachExactHandle_locked i p h of
        None \<Rightarrow> None
      | Some (None, i) \<Rightarrow> Some (None, i)
      | Some (Some (a, owner), i) \<Rightarrow>
          if \<not> owner then
            (let i1 = deWaiting env i
             in Some (waitDetachAttempt (iAttHeap i ! a) (deWaitErr env) (iAttHeap i1 ! a), i1))
          else
            (let (err, i) = detachHandle (deWatcher env) (deKernel env) (deKernelErr env) i p h
             in case finishDetachAttempt i h a err of
                  None \<Rightarrow> None
                | Some i \<Rightarrow> map_option (Pair err) (wg_done_i i)))"

definition rollbackSupersededReconnect :: "detach_env \<Rightarrow> Importer \<Rightarrow> PortID \<Rightarrow> nat \<Rightarrow> Importer option" where
  "rollbackSupersededReconnect env i newID fresh =
     (if phDetaching (iHandleHeap i ! fresh) then Some i
      else map_option snd (detachExactHandle env i newID fresh))"

definition finishReconnectSuccess ::
  "detach_env \<Rightarrow> Importer \<Rightarrow> PortID \<Rightarrow> nat \<Rightarrow> reconnectParams \<Rightarrow> (bool \<times> Importer) option" where
  "finishReconnectSuccess env i newID newHandle p =
     (if phDetaching (iHandleHeap i ! rpHandle p)
      then map_option (Pair False) (rollbackSupersededReconnect env i newID newHandle)
      else Some (True, removeHandle i (rpPortID p) (rpHandle p)))"

text \<open>One attempt: the delay, how the wait goes, what others do before the attach and before its result is
  acted on, and the environments of the attach and of a roll-back.\<close>

record attempt_env =
  rtDelay :: int
  rtFired :: bool
  rtCtxErr :: bool
  rtBefore :: "Importer \<Rightarrow> Importer"
  rtAttach :: attach_env
  rtAfter :: "Importer \<Rightarrow> Importer"
  rtDetach :: detach_env

datatype reconnect_end =
    ReconnectRunning
  | ReconnectOutcomeCanceled
  | ReconnectOutcomeOK
  | ReconnectRolledBack
  | ReconnectOutcomeExhausted Event

record reconnect_out =
  roEnd :: reconnect_end
  roState :: Importer
  roNotified :: "reconnectCallbackRequest list"
  roAttached :: nat

definition add_notice :: "reconnectCallbackRequest \<Rightarrow> nat \<Rightarrow> reconnect_out \<Rightarrow> reconnect_out" where
  "add_notice req n out = out\<lparr>roNotified := req # roNotified out, roAttached := n + roAttached out\<rparr>"

text \<open>What happens after the last attempt; \<open>text_of\<close> renders an error and \<open>now\<close> is the clock.\<close>

definition give_up :: "int \<Rightarrow> (go_error \<Rightarrow> string) \<Rightarrow> reconnectParams \<Rightarrow> int \<Rightarrow> go_error \<Rightarrow> Importer \<Rightarrow> reconnect_out" where
  "give_up now text_of p attempt lastErr i =
     \<lparr>roEnd = ReconnectOutcomeExhausted (PortReconnectExhaustedEvent now (phLastKnownPort (iHandleHeap i ! rpHandle p))
                (attempt - 1) (text_of lastErr)),
      roState = removeHandle i (rpPortID p) (rpHandle p), roNotified = [], roAttached = 0\<rparr>"

text \<open>\<open>None\<close> is a panic of the wait group or of a close, which the invariants of the importer exclude.\<close>

fun reconnect_loop ::
  "int \<Rightarrow> (go_error \<Rightarrow> string) \<Rightarrow> reconnectParams \<Rightarrow> attempt_env list \<Rightarrow> int \<Rightarrow> go_error \<Rightarrow> Importer
     \<Rightarrow> reconnect_out option" where
  "reconnect_loop now text_of p envs attempt lastErr i =
     (if \<not> (MaxAttempts (rpOpts p) = 0 \<or> attempt \<le> MaxAttempts (rpOpts p))
      then Some (give_up now text_of p attempt lastErr i)
      else case envs of
        [] \<Rightarrow> Some \<lparr>roEnd = ReconnectRunning, roState = i, roNotified = [], roAttached = 0\<rparr>
      | env # envs \<Rightarrow>
          (let delayCh = armBackoff (rtDelay env)
           in if \<not> waitBackoffChan delayCh (rtFired env) (rtCtxErr env)
              then Some \<lparr>roEnd = ReconnectOutcomeCanceled, roState = i, roNotified = [(attempt, lastErr)], roAttached = 0\<rparr>
              else case attach (rtAttach env) (rtBefore env i) (rpEndpoint p) (rpBusID p)
                          ((rpOpts p)\<lparr>resetBackoffOnSuccess := True\<rparr>) of
                None \<Rightarrow> None
              | Some out \<Rightarrow>
                  (case aoResult out of
                     Inr (newPort, newHandle) \<Rightarrow>
                       (case finishReconnectSuccess (rtDetach env) (rtAfter env (aoState out)) (pID newPort) newHandle p of
                          None \<Rightarrow> None
                        | Some (ok, i) \<Rightarrow>
                            Some \<lparr>roEnd = (if ok then ReconnectOutcomeOK else ReconnectRolledBack), roState = i,
                                  roNotified = [(attempt, lastErr)], roAttached = 1\<rparr>)
                   | Inl err \<Rightarrow>
                       if errors_Is err (App ErrImporterClosed)
                       then Some \<lparr>roEnd = ReconnectOutcomeCanceled, roState = aoState out,
                                  roNotified = [(attempt, lastErr)], roAttached = 1\<rparr>
                       else map_option (add_notice (attempt, lastErr) 1)
                              (reconnect_loop now text_of p envs (attempt + 1) err (rtAfter env (aoState out))))))"

declare reconnect_loop.simps [simp del]

definition runReconnectLoop ::
  "int \<Rightarrow> (go_error \<Rightarrow> string) \<Rightarrow> reconnectParams \<Rightarrow> attempt_env list \<Rightarrow> Importer \<Rightarrow> reconnect_out option" where
  "runReconnectLoop now text_of p envs i = reconnect_loop now text_of p envs 1 [App ErrPortDetached] i"

section \<open>Lemmas\<close>

definition port_gone :: "go_error + Port list \<Rightarrow> PortID \<Rightarrow> bool" where
  "port_gone listed p \<longleftrightarrow> (\<exists>ports. listed = Inr ports \<and>
     (case find (\<lambda>q. pID q = p) ports of None \<Rightarrow> True | Some q \<Rightarrow> pStatus q = StatusNull))"

lemma portIsDetached_gone: "portIsDetached listed p \<longleftrightarrow> port_gone listed p"
proof -
  have "port_detached_loop ports p \<longleftrightarrow>
      (case find (\<lambda>q. pID q = p) ports of None \<Rightarrow> True | Some q \<Rightarrow> pStatus q = StatusNull)" for ports
    by (induction ports) auto
  thus ?thesis
    by (auto simp: portIsDetached_def port_gone_def split: sum.splits)
qed

text \<open>The branch that decides.\<close>

definition deciding :: "detect_source \<Rightarrow> reconnectParams \<Rightarrow> detect_branch \<Rightarrow> bool" where
  "deciding src p br \<longleftrightarrow>
     (case src of
        reconnectSourceNone \<Rightarrow> br = DetectCtx \<or> (\<exists>i l. br = DetectEvent None i l)
      | reconnectSourceUevent \<Rightarrow> \<exists>t port why i l. br = DetectEvent (Some (PortDetachedEvent t port why)) i l
           \<and> pID port = rpPortID p \<and> iHandles i (rpPortID p) = Some (rpHandle p) \<and> port_gone l (rpPortID p)
      | reconnectSourcePoll \<Rightarrow> \<exists>i l. br = DetectPoll i l \<and> iHandles i (rpPortID p) = Some (rpHandle p)
           \<and> port_gone l (rpPortID p))"

lemma tick_deciding:
  assumes "waitForDetachTick br p pollCh = Some tick"
  shows "(tkDone tick \<longrightarrow> deciding (tkSource tick) p br \<and> (tkSource tick = reconnectSourcePoll \<longrightarrow> pollCh))
    \<and> (\<not> tkDone tick \<longrightarrow> tkNextPoll tick = pollCh)"
proof (cases br)
  case (DetectEvent m i l)
  show ?thesis
  proof (cases m)
    case (Some ev)
    thus ?thesis
      using assms DetectEvent
      by (cases ev) (auto simp: waitForDetachTick_def isDetachSignal_def isCurrentHandle_def portIsDetached_gone
          deciding_def split: if_splits)
  qed (use assms DetectEvent in \<open>auto simp: waitForDetachTick_def deciding_def\<close>)
qed (use assms in \<open>auto simp: waitForDetachTick_def isCurrentHandle_def portIsDetached_gone deciding_def split: if_splits\<close>)

lemma detach_loop_deciding:
  "detach_loop brs p pollCh = Some src \<Longrightarrow>
     (\<exists>br\<in>set brs. deciding src p br) \<and> (src = reconnectSourcePoll \<longrightarrow> pollCh)"
proof (induction brs arbitrary: pollCh)
  case (Cons br brs)
  show ?case
  proof (cases "waitForDetachTick br p pollCh")
    case None
    thus ?thesis
      using Cons by auto
  next
    case (Some tick)
    thus ?thesis
      using Cons tick_deciding [OF Some] by (auto split: if_splits)
  qed
qed simp

text \<open>What a run of the loop amounts to, from attempt \<open>n\<close> on.\<close>

definition loop_ok :: "reconnectParams \<Rightarrow> nat \<Rightarrow> int \<Rightarrow> go_error \<Rightarrow> reconnect_out \<Rightarrow> bool" where
  "loop_ok p rounds n lastErr out \<longleftrightarrow>
     (let left = MaxAttempts (rpOpts p) - n + 1
      in int (roAttached out) \<le> left \<and> int (length (roNotified out)) \<le> left
         \<and> map fst (roNotified out) = map (\<lambda>k. n + int k) [0..<length (roNotified out)]
         \<and> (roNotified out \<noteq> [] \<longrightarrow> snd (hd (roNotified out)) = lastErr)
         \<and> (left \<le> int rounds \<longrightarrow> roEnd out \<noteq> ReconnectRunning)
         \<and> (\<forall>ev. roEnd out = ReconnectOutcomeExhausted ev \<longrightarrow>
               int (roAttached out) = left \<and> evAttempts ev = MaxAttempts (rpOpts p)
               \<and> iHandles (roState out) (rpPortID p) \<noteq> Some (rpHandle p)))"

lemma loop_ok_notice:
  assumes "loop_ok p rounds (n + 1) err out"
  shows "loop_ok p (Suc rounds) n lastErr (add_notice (n, lastErr) 1 out)"
proof -
  have "map (\<lambda>k. n + int k) [0..<Suc m] = n # map (\<lambda>k. n + 1 + int k) [0..<m]" for m
    by (induction m) auto
  thus ?thesis
    using assms by (auto simp: loop_ok_def add_notice_def Let_def)
qed

lemma removeHandle_gone: "iHandles (removeHandle i p h) p \<noteq> Some h"
  by (simp add: removeHandle_def)

lemma reconnect_attempt_cases:
  assumes "reconnect_loop now text_of p (env # envs) n lastErr i = Some out" "n \<le> MaxAttempts (rpOpts p)"
  obtains
    (finished) "roEnd out \<noteq> ReconnectRunning" "\<forall>ev. roEnd out \<noteq> ReconnectOutcomeExhausted ev"
      "roNotified out = [(n, lastErr)]" "roAttached out \<le> 1"
  | (retry) err i' out' where "reconnect_loop now text_of p envs (n + 1) err i' = Some out'" "out = add_notice (n, lastErr) 1 out'"
proof (cases "waitBackoffChan (armBackoff (rtDelay env)) (rtFired env) (rtCtxErr env)")
  case False
  thus ?thesis
    using assms finished by (auto simp: reconnect_loop.simps [of _ _ _ "env # envs"] Let_def)
next
  case wait: True
  obtain aout where a: "attach (rtAttach env) (rtBefore env i) (rpEndpoint p) (rpBusID p)
      ((rpOpts p)\<lparr>resetBackoffOnSuccess := True\<rparr>) = Some aout"
    using assms wait
    by (cases "attach (rtAttach env) (rtBefore env i) (rpEndpoint p) (rpBusID p)
        ((rpOpts p)\<lparr>resetBackoffOnSuccess := True\<rparr>)") (auto simp: reconnect_loop.simps [of _ _ _ "env # envs"])
  show ?thesis
  proof (cases "aoResult aout")
    case (Inr r)
    thus ?thesis
      using assms wait a finished
      by (auto simp: reconnect_loop.simps [of _ _ _ "env # envs"] Let_def split: option.splits prod.splits if_splits)
  next
    case (Inl err)
    thus ?thesis
      using assms wait a finished retry
      by (cases "errors_Is err (App ErrImporterClosed)") (auto simp: reconnect_loop.simps [of _ _ _ "env # envs"] Let_def)
  qed
qed

lemma reconnect_loop_ok:
  assumes "reconnect_loop now text_of p envs n lastErr i = Some out"
    and "0 < MaxAttempts (rpOpts p)" "n \<le> MaxAttempts (rpOpts p) + 1"
  shows "loop_ok p (length envs) n lastErr out"
  using assms
proof (induction envs arbitrary: n lastErr i out)
  case Nil
  show ?case
    using Nil.prems removeHandle_gone
    by (auto simp: reconnect_loop.simps [of _ _ _ "[]"] loop_ok_def give_up_def Let_def split: if_splits)
next
  case (Cons env envs)
  show ?case
  proof (cases "n \<le> MaxAttempts (rpOpts p)")
    case False
    thus ?thesis
      using Cons.prems removeHandle_gone
      by (auto simp: reconnect_loop.simps [of _ _ _ "env # envs"] loop_ok_def give_up_def Let_def)
  next
    case True
    from Cons.prems(1) True show ?thesis
    proof (cases rule: reconnect_attempt_cases)
      case finished
      thus ?thesis
        using True by (simp add: loop_ok_def Let_def)
    next
      case (retry err i' out')
      thus ?thesis
        using Cons.IH [OF retry(1)] Cons.prems(2) True loop_ok_notice by simp
    qed
  qed
qed

section \<open>Properties\<close>

text \<open>C28: The watcher starts to reconnect only for a detach it can confirm.  When it stops waiting with a source, the
  kernel's own port list, read at that moment, shows the port free or absent and the handle is still the
  registered one, so an event of an earlier generation, of another port or of a port already in use again
  is ignored; a uevent counts only if it is a detach of this port, and polling only happens if enabled.
  Otherwise it stopped because its context or the event stream ended.\<close>
theorem reconnect_confirmed:
  assumes "waitForDetach brs p = Some src"
  shows "(\<exists>br\<in>set brs. deciding src p br) \<and> (src = reconnectSourcePoll \<longrightarrow> 0 < StatusPollInterval (rpOpts p))"
  using detach_loop_deciding assms unfolding waitForDetach_def by blast

definition sample_params :: reconnectParams where
  "sample_params = \<lparr>rpHandle = 0, rpPortID = 2, rpEndpoint = \<lparr>reHost = [], rePort = 0\<rparr>, rpBusID = ''1-1'',
     rpOpts = sample_options\<lparr>MaxAttempts := 1, StatusPollInterval := 5\<rparr>\<rparr>"

definition sample_handle :: portHandle where
  "sample_handle = \<lparr>phDone = False, phBusID = ''1-1'', phRemote = \<lparr>reHost = [], rePort = 0\<rparr>, phGeneration = 1,
     phWatcherDone = None, phShutdownTimeout = 1, phDetaching = False, phDetachAttempt = None,
     phLastKnownPort = zeroPort\<rparr>"

definition watched_importer :: Importer where
  "watched_importer = NewImporter\<lparr>iHandles := [2 \<mapsto> 0], iHandleHeap := [sample_handle]\<rparr>"

theorem reconnect_confirmed_witness: "deciding reconnectSourcePoll sample_params (DetectPoll watched_importer (Inr []))"
proof -
  have "waitForDetach [DetectPoll watched_importer (Inr [])] sample_params = Some reconnectSourcePoll"
    by (simp add: waitForDetach_def waitForDetachTick_def portIsDetached_def isCurrentHandle_def sample_params_def
        watched_importer_def)
  from reconnect_confirmed [OF this] show ?thesis
    by simp
qed

text \<open>C29: A bounded reconnect ends.  With a limit of n attempts the loop makes at most n attaches, reports to the
  caller attempt numbers one, two, three and so on, the first with the detach error, and has ended once n
  rounds have passed.  It gives up only after exactly n attaches; then the event carries n and the old
  handle is no longer registered.\<close>
theorem reconnect_bounded:
  assumes "runReconnectLoop now text_of p envs i = Some out" "0 < MaxAttempts (rpOpts p)"
  shows "int (roAttached out) \<le> MaxAttempts (rpOpts p)
    \<and> map fst (roNotified out) = map (\<lambda>k. 1 + int k) [0..<length (roNotified out)]
    \<and> int (length (roNotified out)) \<le> MaxAttempts (rpOpts p)
    \<and> (roNotified out \<noteq> [] \<longrightarrow> snd (hd (roNotified out)) = [App ErrPortDetached])
    \<and> (MaxAttempts (rpOpts p) \<le> int (length envs) \<longrightarrow> roEnd out \<noteq> ReconnectRunning)
    \<and> (\<forall>ev. roEnd out = ReconnectOutcomeExhausted ev \<longrightarrow>
          int (roAttached out) = MaxAttempts (rpOpts p) \<and> evAttempts ev = MaxAttempts (rpOpts p)
          \<and> iHandles (roState out) (rpPortID p) \<noteq> Some (rpHandle p))"
  using reconnect_loop_ok [of now text_of p envs 1 "[App ErrPortDetached]" i out] assms
  by (simp add: runReconnectLoop_def loop_ok_def Let_def)

definition sample_attempt :: attempt_env where
  "sample_attempt = \<lparr>rtDelay = 0, rtFired = False, rtCtxErr = False, rtBefore = id, rtAttach = sample_attach_env,
     rtAfter = id, rtDetach = \<lparr>deWatcher = id, deKernel = id, deKernelErr = None, deWaiting = id, deWaitErr = None\<rparr>\<rparr>"

lemma sample_attempt_fails:
  "\<exists>err. \<not> errors_Is err (App ErrImporterClosed) \<and>
     attach sample_attach_env watched_importer \<lparr>reHost = [], rePort = 0\<rparr> ''1-1'' opts = Some (attach_failed err None watched_importer False)"
proof -
  have "RemoteEndpoint_Validate \<lparr>reHost = [], rePort = 0\<rparr> = Some [Dom ErrInvalidRemote]"
    by (simp add: RemoteEndpoint_Validate_def validateHost_def)
  moreover have "\<not> iClosed watched_importer"
    by (simp add: watched_importer_def NewImporter_def)
  ultimately show ?thesis
    by (intro exI [of _ "[Dom ErrInvalidRemote]"]) (simp add: attach_def)
qed

theorem reconnect_bounded_witness:
  "\<exists>out ev. runReconnectLoop 0 (\<lambda>_. []) sample_params [sample_attempt] watched_importer = Some out
     \<and> roEnd out = ReconnectOutcomeExhausted ev \<and> evAttempts ev = 1 \<and> iHandles (roState out) 2 \<noteq> Some 0"
proof -
  obtain err where err: "\<not> errors_Is err (App ErrImporterClosed)" and at: "attach sample_attach_env watched_importer
      \<lparr>reHost = [], rePort = 0\<rparr> ''1-1'' (sample_options\<lparr>MaxAttempts := 1, StatusPollInterval := 5, resetBackoffOnSuccess := True\<rparr>)
      = Some (attach_failed err None watched_importer False)"
    using sample_attempt_fails by blast
  have "\<exists>out ev. runReconnectLoop 0 (\<lambda>_. []) sample_params [sample_attempt] watched_importer = Some out
      \<and> roEnd out = ReconnectOutcomeExhausted ev"
    using at err
    by (simp add: runReconnectLoop_def reconnect_loop.simps sample_params_def sample_attempt_def waitBackoffChan_def
        armBackoff_def attach_failed_def give_up_def add_notice_def)
  then obtain out ev where "runReconnectLoop 0 (\<lambda>_. []) sample_params [sample_attempt] watched_importer = Some out"
    "roEnd out = ReconnectOutcomeExhausted ev"
    by blast
  moreover from reconnect_bounded [OF this(1)] this(2) have "evAttempts ev = 1" "iHandles (roState out) 2 \<noteq> Some 0"
    by (simp_all add: sample_params_def)
  ultimately show ?thesis
    by blast
qed

text \<open>The caller's callback sees the latest attempt.  Whatever the runner receives meanwhile, a notification
  never waits and leaves its own request in the queue; at most the one request that was queued before is
  handed out or replaced.\<close>
theorem notify_latest:
  "snd (Notify r1 r2 request q) = Some request \<and> set (fst (Notify r1 r2 request q)) \<subseteq> set_option q"
  by (cases q) (auto simp: Notify_def runner_receive_def)

end
