(* ===== verification/Reconnect_Callbacks.thy ===== *)
theory Reconnect_Callbacks
  imports Reconnect "HOL-Library.Sublist"
begin

text \<open>
  \<open>internal/app/reconnect.go\<close>: the callback runner.  The watcher notifies and finally closes; one worker invokes the callback.  The worker may
  run between any two of the three selects of \<open>Notify\<close>.  Panics of the callback are recovered, so that an invocation always ends.
\<close>

section \<open>State\<close>

text \<open>The watcher: idle, before the first, second and third select of \<open>Notify\<close>, or past \<open>Close\<close>.\<close>

datatype notify_pc =
    NtIdle | NtFirst reconnectCallbackRequest | NtSecond reconnectCallbackRequest | NtThird reconnectCallbackRequest | NtClosed

datatype worker_pc = WkReceive | WkInvoke reconnectCallbackRequest | WkExit

text \<open>\<open>crQueue\<close> is the channel of capacity one.  \<open>crSent\<close> and \<open>crInvoked\<close> record the notifications and the invocations in order.\<close>

record reconnectCallbackRunner =
  crQueue :: "reconnectCallbackRequest option"
  crNotify :: notify_pc
  crWorker :: worker_pc
  crSent :: "reconnectCallbackRequest list"
  crInvoked :: "reconnectCallbackRequest list"

definition newReconnectCallbackRunner :: reconnectCallbackRunner where
  "newReconnectCallbackRunner = \<lparr>crQueue = None, crNotify = NtIdle, crWorker = WkReceive, crSent = [], crInvoked = []\<rparr>"

section \<open>Steps\<close>

definition notify_first :: "reconnectCallbackRequest \<Rightarrow> reconnectCallbackRunner \<Rightarrow> reconnectCallbackRunner" where
  "notify_first request r =
     (if crQueue r = None then r\<lparr>crQueue := Some request, crNotify := NtIdle\<rparr> else r\<lparr>crNotify := NtSecond request\<rparr>)"

definition notify_second :: "reconnectCallbackRequest \<Rightarrow> reconnectCallbackRunner \<Rightarrow> reconnectCallbackRunner" where
  "notify_second request r = r\<lparr>crQueue := None, crNotify := NtThird request\<rparr>"

definition notify_third :: "reconnectCallbackRequest \<Rightarrow> reconnectCallbackRunner \<Rightarrow> reconnectCallbackRunner" where
  "notify_third request r =
     (if crQueue r = None then r\<lparr>crQueue := Some request, crNotify := NtIdle\<rparr> else r\<lparr>crNotify := NtIdle\<rparr>)"

definition worker_receive :: "reconnectCallbackRequest \<Rightarrow> reconnectCallbackRunner \<Rightarrow> reconnectCallbackRunner" where
  "worker_receive request r = r\<lparr>crQueue := None, crWorker := WkInvoke request, crInvoked := crInvoked r @ [request]\<rparr>"

inductive callback_step :: "reconnectCallbackRunner \<Rightarrow> reconnectCallbackRunner \<Rightarrow> bool" where
  cb_notify: "crNotify r = NtIdle \<Longrightarrow> callback_step r (r\<lparr>crNotify := NtFirst request, crSent := crSent r @ [request]\<rparr>)"
| cb_first: "crNotify r = NtFirst request \<Longrightarrow> callback_step r (notify_first request r)"
| cb_second: "crNotify r = NtSecond request \<Longrightarrow> callback_step r (notify_second request r)"
| cb_third: "crNotify r = NtThird request \<Longrightarrow> callback_step r (notify_third request r)"
| cb_close: "crNotify r = NtIdle \<Longrightarrow> callback_step r (r\<lparr>crNotify := NtClosed\<rparr>)"
| cb_receive: "crWorker r = WkReceive \<Longrightarrow> crQueue r = Some request \<Longrightarrow> callback_step r (worker_receive request r)"
| cb_invoked: "crWorker r = WkInvoke request \<Longrightarrow> callback_step r (r\<lparr>crWorker := WkReceive\<rparr>)"
| cb_exit: "crWorker r = WkReceive \<Longrightarrow> crQueue r = None \<Longrightarrow> crNotify r = NtClosed \<Longrightarrow> callback_step r (r\<lparr>crWorker := WkExit\<rparr>)"

inductive callback_reach :: "reconnectCallbackRunner \<Rightarrow> bool" where
  cb_new: "callback_reach newReconnectCallbackRunner"
| cb_next: "callback_reach r \<Longrightarrow> callback_step r r' \<Longrightarrow> callback_reach r'"

section \<open>Invariant\<close>

text \<open>The request a \<open>Notify\<close> in progress has still to place.\<close>

fun in_hand :: "notify_pc \<Rightarrow> reconnectCallbackRequest list" where
  "in_hand (NtFirst request) = [request]"
| "in_hand (NtSecond request) = [request]"
| "in_hand (NtThird request) = [request]"
| "in_hand _ = []"

definition handled :: "reconnectCallbackRunner \<Rightarrow> reconnectCallbackRequest list" where
  "handled r = crInvoked r @ (case crQueue r of None \<Rightarrow> [] | Some request \<Rightarrow> [request]) @ in_hand (crNotify r)"

definition callback_inv :: "reconnectCallbackRunner \<Rightarrow> bool" where
  "callback_inv r \<longleftrightarrow>
     subseq (handled r) (crSent r) \<and> (crSent r \<noteq> [] \<longrightarrow> handled r \<noteq> [] \<and> last (handled r) = last (crSent r))
   \<and> (\<forall>request. crNotify r = NtThird request \<longrightarrow> crQueue r = None)
   \<and> (crWorker r = WkExit \<longrightarrow> crQueue r = None \<and> crNotify r = NtClosed)"

lemma subseq_drop_middle: "subseq (xs @ y # zs) ws \<Longrightarrow> subseq (xs @ zs) ws"
proof -
  have "subseq (xs @ zs) (xs @ y # zs)"
    by (intro list_emb_append_mono) auto
  thus "subseq (xs @ y # zs) ws \<Longrightarrow> subseq (xs @ zs) ws"
    using subseq_order.trans by blast
qed

lemma callback_inv_step:
  assumes "callback_step r r'" "callback_inv r"
  shows "callback_inv r'"
  using assms(1)
proof cases
  case (cb_second request)
  thus ?thesis
    using assms(2) subseq_drop_middle by (fastforce simp: callback_inv_def handled_def notify_second_def split: option.splits)
next
  case (cb_notify request)
  hence "subseq (handled r) (crSent r)"
    using assms(2) by (simp add: callback_inv_def)
  hence "subseq (handled r @ [request]) (crSent r @ [request])"
    by (simp add: list_emb_append_mono)
  thus ?thesis
    using assms(2) cb_notify by (auto simp: callback_inv_def handled_def split: option.splits)
qed (use assms(2) in \<open>auto simp: callback_inv_def handled_def notify_first_def notify_third_def worker_receive_def split: option.splits\<close>)

lemma callback_invariant: "callback_reach r \<Longrightarrow> callback_inv r"
proof (induction rule: callback_reach.induct)
  case cb_new
  show ?case
    by (simp add: callback_inv_def newReconnectCallbackRunner_def handled_def)
qed (rule callback_inv_step)

text \<open>The latest outcome always reaches the callback.  Whatever the interleaving of the watcher and the worker, the callback is invoked on an
  ordered selection of the notifications; a notification is never dropped for an older one, and when the worker has exited the last
  invocation was for the last notification.  As long as the worker has not exited after \<open>Close\<close> it can move, so \<open>Close\<close> leaves no
  worker behind.\<close>

theorem callbacks_latest:
  assumes "callback_reach r"
  shows "subseq (crInvoked r) (crSent r)
    \<and> (crNotify r = NtIdle \<and> crSent r \<noteq> [] \<longrightarrow>
        crQueue r = Some (last (crSent r)) \<or> crQueue r = None \<and> crInvoked r \<noteq> [] \<and> last (crInvoked r) = last (crSent r))
    \<and> (crWorker r = WkExit \<and> crSent r \<noteq> [] \<longrightarrow> crInvoked r \<noteq> [] \<and> last (crInvoked r) = last (crSent r))
    \<and> (crNotify r = NtClosed \<and> crWorker r \<noteq> WkExit \<longrightarrow> (\<exists>r'. callback_step r r' \<and> crWorker r' \<noteq> crWorker r))"
proof -
  note inv = callback_invariant [OF assms, unfolded callback_inv_def]
  have "subseq (crInvoked r) (handled r)"
    unfolding handled_def using list_emb_append_mono [of "(=)" "crInvoked r" "crInvoked r" "[]"] by simp
  hence "subseq (crInvoked r) (crSent r)"
    using inv subseq_order.trans by blast
  moreover have "\<exists>r'. callback_step r r' \<and> crWorker r' \<noteq> crWorker r" if "crNotify r = NtClosed" "crWorker r \<noteq> WkExit"
  proof (cases "crWorker r")
    case WkReceive
    show ?thesis
    proof (cases "crQueue r")
      case None
      thus ?thesis
        using WkReceive that cb_exit [of r] by fastforce
    next
      case (Some request)
      thus ?thesis
        using WkReceive cb_receive [of r request] by (fastforce simp: worker_receive_def)
    qed
  next
    case (WkInvoke request)
    thus ?thesis
      using cb_invoked [of r request] by fastforce
  qed (use that in simp)
  ultimately show ?thesis
    using inv by (auto simp: handled_def split: option.splits)
qed

definition sample_runner :: reconnectCallbackRunner where
  "sample_runner = newReconnectCallbackRunner\<lparr>crQueue := Some (1, []), crSent := [(1, [])]\<rparr>"

theorem callbacks_latest_witness: "callback_reach sample_runner \<and> crNotify sample_runner = NtIdle \<and> crQueue sample_runner = Some (last (crSent sample_runner))"
proof -
  have "callback_reach (newReconnectCallbackRunner\<lparr>crNotify := NtFirst (1, []), crSent := [(1, [])]\<rparr>)"
    using cb_next [OF cb_new cb_notify [of newReconnectCallbackRunner "(1, [])"]] by (simp add: newReconnectCallbackRunner_def)
  from cb_next [OF this cb_first [of _ "(1, [])"]] have r: "callback_reach sample_runner"
    by (simp add: notify_first_def sample_runner_def newReconnectCallbackRunner_def)
  moreover have "crNotify sample_runner = NtIdle" "crSent sample_runner \<noteq> []" "crQueue sample_runner \<noteq> None"
    by (simp_all add: sample_runner_def newReconnectCallbackRunner_def)
  ultimately show ?thesis
    using callbacks_latest [OF r] by auto
qed

end
