(* ===== verification/Reconnect_Watcher.thy ===== *)
theory Reconnect_Watcher
  imports Reconnect
begin

text \<open>
  \<open>internal/app/reconnect.go\<close>, \<open>spawnReconnectWatcher\<close> and \<open>runReconnectWatcher\<close>: the goroutine around the two phases of
  \<open>Reconnect\<close>, its helper that follows the handle's done channel, and the callback worker, all enrolled in the importer's wait group.  The
  deferred calls run in reverse order on every return path.  Other goroutines of the importer join and leave the group
  at any time.  \<open>None\<close> is a panic: a channel closed twice or a negative group.
\<close>

section \<open>State\<close>

text \<open>The watcher: before the helper, the subscription, in phase one, before the callback runner, in phase two, and in its deferred calls
  (with whether a runner and a subscription exist).\<close>

datatype frame_pc =
    FwStart | FwSubscribe | FwWait | FwDetected detect_source | FwLoop bool
  | FwCloseRunner | FwUnsubscribe | FwCancel | FwCloseDone | FwGroupDone | FwExit

datatype member_pc = MbNone | MbRunning | MbLeaving | MbExit

record watcher_frame =
  wfWG :: lifecycleWaitGroup
  wfOthers :: nat
  wfPC :: frame_pc
  wfHelper :: member_pc
  wfWorker :: member_pc
  wfHandleDone :: bool
  wfCancelled :: bool
  wfSubscribed :: bool
  wfUnsubscribed :: nat
  wfWatcherDone :: bool
  wfRequestsClosed :: bool

section \<open>Steps\<close>

text \<open>\<open>spawnReconnectWatcher\<close>, called by \<open>attach\<close>, which is itself enrolled.\<close>

definition spawnReconnectWatcher :: "lifecycleWaitGroup \<Rightarrow> nat \<Rightarrow> watcher_frame option" where
  "spawnReconnectWatcher g others =
     map_option (\<lambda>g. \<lparr>wfWG = g, wfOthers = others, wfPC = FwStart, wfHelper = MbNone, wfWorker = MbNone, wfHandleDone = False,
         wfCancelled = False, wfSubscribed = False, wfUnsubscribed = 0, wfWatcherDone = False, wfRequestsClosed = False\<rparr>) (wg_Add g 1)"

definition frame_start :: "watcher_frame \<Rightarrow> watcher_frame option" where
  "frame_start f = map_option (\<lambda>g. f\<lparr>wfWG := g, wfHelper := MbRunning, wfPC := FwSubscribe\<rparr>) (wg_Add (wfWG f) 1)"

definition frame_subscribe :: "go_error option \<Rightarrow> watcher_frame \<Rightarrow> watcher_frame" where
  "frame_subscribe err f =
     (case err of
        Some _ \<Rightarrow> f\<lparr>wfPC := FwCancel\<rparr>
      | None \<Rightarrow> f\<lparr>wfSubscribed := True, wfPC := FwWait\<rparr>)"

text \<open>\<open>waitForDetach\<close> returned \<open>detected\<close>.\<close>

definition frame_detected :: "detect_source \<Rightarrow> watcher_frame \<Rightarrow> watcher_frame" where
  "frame_detected detected f =
     (if detected = reconnectSourceNone then f\<lparr>wfPC := FwUnsubscribe\<rparr> else f\<lparr>wfPC := FwDetected detected\<rparr>)"

definition frame_callbacks :: "bool \<Rightarrow> watcher_frame \<Rightarrow> watcher_frame option" where
  "frame_callbacks onReconnect f =
     (if \<not> onReconnect then Some (f\<lparr>wfPC := FwLoop False\<rparr>)
      else map_option (\<lambda>g. f\<lparr>wfWG := g, wfWorker := MbRunning, wfPC := FwLoop True\<rparr>) (wg_Add (wfWG f) 1))"

text \<open>\<open>callbacks.Close\<close> and \<open>close(watcherDone)\<close> panic on a closed channel.\<close>

definition frame_close_runner :: "watcher_frame \<Rightarrow> watcher_frame option" where
  "frame_close_runner f = (if wfRequestsClosed f then None else Some (f\<lparr>wfRequestsClosed := True, wfPC := FwUnsubscribe\<rparr>))"

definition frame_unsubscribe :: "watcher_frame \<Rightarrow> watcher_frame" where
  "frame_unsubscribe f = f\<lparr>wfUnsubscribed := Suc (wfUnsubscribed f), wfPC := FwCancel\<rparr>"

definition frame_cancel :: "watcher_frame \<Rightarrow> watcher_frame" where
  "frame_cancel f = f\<lparr>wfCancelled := True, wfPC := FwCloseDone\<rparr>"

definition frame_close_done :: "watcher_frame \<Rightarrow> watcher_frame option" where
  "frame_close_done f = (if wfWatcherDone f then None else Some (f\<lparr>wfWatcherDone := True, wfPC := FwGroupDone\<rparr>))"

definition frame_group_done :: "watcher_frame \<Rightarrow> watcher_frame option" where
  "frame_group_done f = map_option (\<lambda>g. f\<lparr>wfWG := g, wfPC := FwExit\<rparr>) (wg_Done (wfWG f))"

definition helper_leave :: "watcher_frame \<Rightarrow> watcher_frame option" where
  "helper_leave f = map_option (\<lambda>g. f\<lparr>wfWG := g, wfHelper := MbExit\<rparr>) (wg_Done (wfWG f))"

definition worker_leave :: "watcher_frame \<Rightarrow> watcher_frame option" where
  "worker_leave f = map_option (\<lambda>g. f\<lparr>wfWG := g, wfWorker := MbExit\<rparr>) (wg_Done (wfWG f))"

inductive frame_step :: "watcher_frame \<Rightarrow> watcher_frame option \<Rightarrow> bool" where
  fw_start: "wfPC f = FwStart \<Longrightarrow> frame_step f (frame_start f)"
| fw_subscribe: "wfPC f = FwSubscribe \<Longrightarrow> frame_step f (Some (frame_subscribe err f))"
| fw_wait: "wfPC f = FwWait \<Longrightarrow> waitForDetach turns p = Some detected \<Longrightarrow> frame_step f (Some (frame_detected detected f))"
| fw_callbacks: "wfPC f = FwDetected detected \<Longrightarrow> frame_step f (frame_callbacks onReconnect f)"
| fw_loop: "wfPC f = FwLoop runner \<Longrightarrow> frame_step f (Some (f\<lparr>wfPC := (if runner then FwCloseRunner else FwUnsubscribe)\<rparr>))"
| fw_close_runner: "wfPC f = FwCloseRunner \<Longrightarrow> frame_step f (frame_close_runner f)"
| fw_unsubscribe: "wfPC f = FwUnsubscribe \<Longrightarrow> frame_step f (Some (frame_unsubscribe f))"
| fw_cancel: "wfPC f = FwCancel \<Longrightarrow> frame_step f (Some (frame_cancel f))"
| fw_close_done: "wfPC f = FwCloseDone \<Longrightarrow> frame_step f (frame_close_done f)"
| fw_group_done: "wfPC f = FwGroupDone \<Longrightarrow> frame_step f (frame_group_done f)"
| fw_helper_done: "wfHelper f = MbRunning \<Longrightarrow> wfHandleDone f \<Longrightarrow> frame_step f (Some (f\<lparr>wfHelper := MbLeaving, wfCancelled := True\<rparr>))"
| fw_helper_ctx: "wfHelper f = MbRunning \<Longrightarrow> wfCancelled f \<Longrightarrow> frame_step f (Some (f\<lparr>wfHelper := MbLeaving\<rparr>))"
| fw_helper_leave: "wfHelper f = MbLeaving \<Longrightarrow> frame_step f (helper_leave f)"
| fw_worker_end: "wfWorker f = MbRunning \<Longrightarrow> wfRequestsClosed f \<Longrightarrow> frame_step f (Some (f\<lparr>wfWorker := MbLeaving\<rparr>))"
| fw_worker_leave: "wfWorker f = MbLeaving \<Longrightarrow> frame_step f (worker_leave f)"
| fw_handle_done: "frame_step f (Some (f\<lparr>wfHandleDone := True\<rparr>))"
| fw_join: "wg_Add (wfWG f) 1 = Some g \<Longrightarrow> frame_step f (Some (f\<lparr>wfWG := g, wfOthers := Suc (wfOthers f)\<rparr>))"
| fw_quit: "0 < wfOthers f \<Longrightarrow> wg_Done (wfWG f) = Some g \<Longrightarrow> frame_step f (Some (f\<lparr>wfWG := g, wfOthers := wfOthers f - 1\<rparr>))"

inductive frame_reach :: "watcher_frame option \<Rightarrow> bool" where
  fr_spawn: "wg_ok g others \<Longrightarrow> 0 < others \<Longrightarrow> frame_reach (spawnReconnectWatcher g others)"
| fr_next: "frame_reach (Some f) \<Longrightarrow> frame_step f r \<Longrightarrow> frame_reach r"

section \<open>Invariant\<close>

fun enrolled :: "member_pc \<Rightarrow> nat" where
  "enrolled MbRunning = 1"
| "enrolled MbLeaving = 1"
| "enrolled _ = 0"

definition members :: "watcher_frame \<Rightarrow> nat" where
  "members f = wfOthers f + (if wfPC f = FwExit then 0 else 1) + enrolled (wfHelper f) + enrolled (wfWorker f)"

definition frame_past_cancel :: "frame_pc \<Rightarrow> bool" where
  "frame_past_cancel pc \<longleftrightarrow> pc \<in> {FwCloseDone, FwGroupDone, FwExit}"

text \<open>What holds at each point of the watcher.\<close>

fun at_point :: "frame_pc \<Rightarrow> watcher_frame \<Rightarrow> bool" where
  "at_point FwStart f \<longleftrightarrow> wfHelper f = MbNone \<and> wfWorker f = MbNone \<and> \<not> wfSubscribed f \<and> wfUnsubscribed f = 0"
| "at_point FwSubscribe f \<longleftrightarrow> wfHelper f \<noteq> MbNone \<and> wfWorker f = MbNone \<and> \<not> wfSubscribed f \<and> wfUnsubscribed f = 0"
| "at_point FwWait f \<longleftrightarrow> wfHelper f \<noteq> MbNone \<and> wfWorker f = MbNone \<and> wfSubscribed f \<and> wfUnsubscribed f = 0"
| "at_point (FwDetected _) f \<longleftrightarrow> wfHelper f \<noteq> MbNone \<and> wfWorker f = MbNone \<and> wfSubscribed f \<and> wfUnsubscribed f = 0"
| "at_point (FwLoop runner) f \<longleftrightarrow> wfHelper f \<noteq> MbNone \<and> (runner \<longleftrightarrow> wfWorker f \<noteq> MbNone) \<and> wfSubscribed f \<and> wfUnsubscribed f = 0"
| "at_point FwCloseRunner f \<longleftrightarrow> wfHelper f \<noteq> MbNone \<and> wfWorker f \<noteq> MbNone \<and> wfSubscribed f \<and> wfUnsubscribed f = 0"
| "at_point FwUnsubscribe f \<longleftrightarrow> wfHelper f \<noteq> MbNone \<and> wfSubscribed f \<and> wfUnsubscribed f = 0"
| "at_point _ f \<longleftrightarrow> wfHelper f \<noteq> MbNone \<and> wfUnsubscribed f = (if wfSubscribed f then 1 else 0)"

definition runner_open :: "frame_pc \<Rightarrow> bool" where
  "runner_open pc \<longleftrightarrow> pc \<in> {FwStart, FwSubscribe, FwWait, FwCloseRunner} \<or> (\<exists>d. pc = FwDetected d) \<or> (\<exists>r. pc = FwLoop r)"

definition frame_inv :: "watcher_frame \<Rightarrow> bool" where
  "frame_inv f \<longleftrightarrow>
     wg_ok (wfWG f) (members f) \<and> at_point (wfPC f) f
   \<and> (wfWatcherDone f \<longleftrightarrow> wfPC f \<in> {FwGroupDone, FwExit})
   \<and> (frame_past_cancel (wfPC f) \<longrightarrow> wfCancelled f)
   \<and> (wfRequestsClosed f \<longleftrightarrow> wfWorker f \<noteq> MbNone \<and> \<not> runner_open (wfPC f))"

lemma wg_Add_1E:
  assumes "wg_ok g n"
  obtains g' where "wg_Add g 1 = Some g'" "wg_ok g' (Suc n)"
  using wg_Add_1 [OF assms] by blast

lemma wg_DoneE:
  assumes "wg_ok g (Suc n)"
  obtains g' where "wg_Done g = Some g'" "wg_ok g' n"
  using wg_Done_ok [OF assms] by blast

lemmas frame_simps = frame_inv_def members_def frame_past_cancel_def runner_open_def

lemma frame_inv_step:
  assumes "frame_step f r" "frame_inv f"
  shows "\<exists>f'. r = Some f' \<and> frame_inv f'"
  using assms(1)
proof cases
  case fw_start
  obtain g where "wg_Add (wfWG f) 1 = Some g" "wg_ok g (Suc (members f))"
    using assms(2) wg_Add_1E by (auto simp: frame_inv_def)
  thus ?thesis
    using assms(2) fw_start by (auto simp: frame_simps frame_start_def)
next
  case (fw_callbacks detected onReconnect)
  obtain g where "wg_Add (wfWG f) 1 = Some g" "wg_ok g (Suc (members f))"
    using assms(2) wg_Add_1E by (auto simp: frame_inv_def)
  thus ?thesis
    using assms(2) fw_callbacks by (auto simp: frame_simps frame_callbacks_def)
next
  case fw_group_done
  hence "wg_ok (wfWG f) (Suc (members f - 1))"
    using assms(2) by (simp add: frame_inv_def members_def)
  then obtain g where "wg_Done (wfWG f) = Some g" "wg_ok g (members f - 1)"
    using wg_DoneE by blast
  thus ?thesis
    using assms(2) fw_group_done by (auto simp: frame_simps frame_group_done_def)
next
  case fw_helper_leave
  hence "wg_ok (wfWG f) (Suc (members f - 1))"
    using assms(2) by (simp add: frame_inv_def members_def)
  then obtain g where "wg_Done (wfWG f) = Some g" "wg_ok g (members f - 1)"
    using wg_DoneE by blast
  thus ?thesis
    using assms(2) fw_helper_leave by (cases "wfPC f") (auto simp: frame_simps helper_leave_def)
next
  case fw_worker_leave
  hence "wg_ok (wfWG f) (Suc (members f - 1))"
    using assms(2) by (simp add: frame_inv_def members_def)
  then obtain g where "wg_Done (wfWG f) = Some g" "wg_ok g (members f - 1)"
    using wg_DoneE by blast
  thus ?thesis
    using assms(2) fw_worker_leave by (cases "wfPC f") (auto simp: frame_simps worker_leave_def)
next
  case (fw_join g)
  hence "wg_ok g (Suc (members f))"
    using assms(2) wg_Add_1 [of "wfWG f" "members f"] by (auto simp: frame_inv_def)
  thus ?thesis
    using assms(2) fw_join by (cases "wfPC f") (auto simp: frame_simps)
next
  case (fw_quit g)
  hence "wg_ok (wfWG f) (Suc (members f - 1))"
    using assms(2) by (simp add: frame_inv_def members_def)
  hence "wg_ok g (members f - 1)"
    using wg_Done_ok fw_quit by fastforce
  thus ?thesis
    using assms(2) fw_quit by (cases "wfPC f") (auto simp: frame_simps)
next
  case (fw_subscribe err)
  thus ?thesis
    using assms(2) by (auto simp: frame_simps frame_subscribe_def split: option.split)
next
  case (fw_wait turns p detected)
  thus ?thesis
    using assms(2) by (auto simp: frame_simps frame_detected_def)
qed (use assms(2) in \<open>(cases "wfPC f"; auto simp: frame_simps frame_close_runner_def frame_unsubscribe_def frame_cancel_def
       frame_close_done_def)\<close>)+

lemma frame_invariant: "frame_reach r \<Longrightarrow> \<exists>f. r = Some f \<and> frame_inv f"
proof (induction rule: frame_reach.induct)
  case (fr_spawn g others)
  then obtain g' where "wg_Add g 1 = Some g'" "wg_ok g' (Suc others)"
    using wg_Add_1E by blast
  thus ?case
    by (simp add: spawnReconnectWatcher_def frame_simps)
next
  case (fr_next f r)
  thus ?case
    using frame_inv_step by blast
qed

section \<open>Properties\<close>

fun to_go :: "member_pc \<Rightarrow> nat" where
  "to_go MbRunning = 2"
| "to_go MbLeaving = 1"
| "to_go _ = 0"

lemma members_leave:
  assumes "frame_inv f" "wfPC f = FwExit" "0 < enrolled (wfHelper f) + enrolled (wfWorker f)"
  shows "\<exists>f'. frame_step f (Some f') \<and> wfPC f' = FwExit
    \<and> to_go (wfHelper f') + to_go (wfWorker f') < to_go (wfHelper f) + to_go (wfWorker f)"
proof -
  have group: "\<exists>g. wg_Done (wfWG f) = Some g"
    using assms wg_Done_ok [of "wfWG f" "members f - 1"] by (auto simp: frame_inv_def members_def)
  have flags: "wfCancelled f" "wfWorker f \<noteq> MbNone \<longrightarrow> wfRequestsClosed f"
    using assms(1,2) by (auto simp: frame_simps)
  consider "wfHelper f = MbRunning" | "wfHelper f = MbLeaving" | "wfWorker f = MbRunning" | "wfWorker f = MbLeaving"
    using assms(3) by (cases "wfHelper f"; cases "wfWorker f") auto
  thus ?thesis
  proof cases
    case 1
    thus ?thesis
      using flags assms(2) fw_helper_ctx [of f] by fastforce
  next
    case 2
    thus ?thesis
      using group assms(2) fw_helper_leave [of f] by (fastforce simp: helper_leave_def)
  next
    case 3
    thus ?thesis
      using flags assms(2) fw_worker_end [of f] by fastforce
  next
    case 4
    thus ?thesis
      using group assms(2) fw_worker_leave [of f] by (fastforce simp: worker_leave_def)
  qed
qed


definition sample_frame :: watcher_frame where
  "sample_frame =
     \<lparr>wfWG = \<lparr>wgCount = 3, wgDrained = Some False\<rparr>, wfOthers = 1, wfPC = FwGroupDone, wfHelper = MbRunning, wfWorker = MbNone,
      wfHandleDone = False, wfCancelled = True, wfSubscribed = False, wfUnsubscribed = 0, wfWatcherDone = True, wfRequestsClosed = False\<rparr>"

lemma sample_frame_reach: "frame_reach (Some sample_frame)"
proof -
  let ?g = "\<lambda>n. \<lparr>wgCount = n, wgDrained = Some False\<rparr>"
  have add: "wg_Add (?g 1) 1 = Some (?g 2)" "wg_Add (?g 2) 1 = Some (?g 3)"
    by (simp_all add: wg_Add_def)
  let ?f = "\<lparr>wfWG = ?g 2, wfOthers = 1, wfPC = FwStart, wfHelper = MbNone, wfWorker = MbNone,
      wfHandleDone = False, wfCancelled = False, wfSubscribed = False, wfUnsubscribed = 0, wfWatcherDone = False, wfRequestsClosed = False\<rparr>"
  have "frame_reach (spawnReconnectWatcher (?g 1) 1)"
    by (rule fr_spawn) (simp_all add: wg_ok_def)
  hence "frame_reach (Some ?f)"
    by (simp add: spawnReconnectWatcher_def add)
  from fr_next [OF this fw_start] have "frame_reach (Some (?f\<lparr>wfWG := ?g 3, wfHelper := MbRunning, wfPC := FwSubscribe\<rparr>))"
    by (simp add: frame_start_def add)
  from fr_next [OF this fw_subscribe [of _ "Some []"]]
  have "frame_reach (Some (?f\<lparr>wfWG := ?g 3, wfHelper := MbRunning, wfPC := FwCancel\<rparr>))"
    by (simp add: frame_subscribe_def)
  from fr_next [OF this fw_cancel]
  have "frame_reach (Some (?f\<lparr>wfWG := ?g 3, wfHelper := MbRunning, wfCancelled := True, wfPC := FwCloseDone\<rparr>))"
    by (simp add: frame_cancel_def)
  from fr_next [OF this fw_close_done] show ?thesis
    by (simp add: frame_close_done_def sample_frame_def)
qed


end
