(* ===== verification/Backoff.thy ===== *)
theory Backoff
  imports Exporter_Limits
begin

text \<open>
  \<open>internal/app/backoff.go\<close> and the validation in \<open>pkg/usbip/backoff.go\<close>: the exponential backoff, in IEEE double arithmetic.  A double is a
  \<open>float64\<close>; every operation rounds to 53 significant bits (ties to even, subnormals included) and overflows to an infinity, without fused operations.
  Converting a NaN or a value outside \<open>int64\<close> to a \<open>time.Duration\<close> gives an implementation-defined result and is a parameter (\<open>undef\<close>).  The random number
  \<open>rng.Float64()\<close> is the argument \<open>u\<close>.
\<close>

section \<open>Rounding\<close>

definition round_half_even :: "real \<Rightarrow> int" where
  "round_half_even x =
     (let f = \<lfloor>x\<rfloor>; d = x - of_int f
      in if d < 1 / 2 then f else if 1 / 2 < d then f + 1 else if even f then f else f + 1)"

text \<open>The exponent of the last place of a positive number.\<close>

definition ulp_exp :: "real \<Rightarrow> int" where
  "ulp_exp x = max (\<lfloor>log 2 x\<rfloor> - 52) (- 1074)"

definition round_pos :: "real \<Rightarrow> real" where
  "round_pos x = (if x = 0 then 0 else of_int (round_half_even (x / 2 powr of_int (ulp_exp x))) * 2 powr of_int (ulp_exp x))"

definition round53 :: "real \<Rightarrow> real" where
  "round53 x = (if x < 0 then - round_pos (- x) else round_pos x)"

text \<open>What the code relies on of rounding.\<close>

locale rounding =
  fixes rnd :: "real \<Rightarrow> real"
  assumes rnd_mono: "x \<le> y \<Longrightarrow> rnd x \<le> rnd y"
    and rnd_idem: "rnd (rnd x) = rnd x"
    and rnd_scaled: "\<bar>n\<bar> \<le> 2 ^ 53 \<Longrightarrow> rnd (of_int n * 2 ^ k) = of_int n * 2 ^ k"
begin

lemma rnd_int: "\<bar>n\<bar> \<le> 2 ^ 53 \<Longrightarrow> rnd (of_int n) = of_int n"
  using rnd_scaled [of n 0] by simp

lemma rnd_simps [simp]: "rnd 0 = 0" "rnd 1 = 1" "rnd 2 = 2" "rnd (- 1) = - 1"
  using rnd_int [of 0] rnd_int [of 1] rnd_int [of 2] rnd_int [of "- 1"] by simp_all

lemma rnd_nonneg: "0 \<le> x \<Longrightarrow> 0 \<le> rnd x"
  using rnd_mono [of 0 x] by simp

text \<open>A rounded number below the rounded bound is below the bound: comparing in floating point is safe.\<close>

lemma rnd_clamp: "rnd x < rnd m \<Longrightarrow> rnd x \<le> m"
  using rnd_mono [of m "rnd x"] rnd_idem [of x] by (cases "m \<le> rnd x") auto

lemma rnd_unit: "\<bar>x\<bar> \<le> 1 \<Longrightarrow> \<bar>rnd x\<bar> \<le> 1"
  using rnd_mono [of x 1] rnd_mono [of "- 1" x] by (simp add: abs_le_iff)

end

lemma round_half_even_int [simp]: "round_half_even (of_int n) = n"
  by (simp add: round_half_even_def)

lemma round_half_even_floor: "\<lfloor>x\<rfloor> \<le> round_half_even x" "round_half_even x \<le> \<lfloor>x\<rfloor> + 1"
  by (simp_all add: round_half_even_def Let_def)

lemma round_half_even_mono: "x \<le> y \<Longrightarrow> round_half_even x \<le> round_half_even y"
proof (cases "\<lfloor>x\<rfloor> = \<lfloor>y\<rfloor>")
  case True
  assume "x \<le> y"
  thus ?thesis
    using True by (auto simp: round_half_even_def Let_def)
next
  case False
  assume "x \<le> y"
  hence "\<lfloor>x\<rfloor> + 1 \<le> \<lfloor>y\<rfloor>"
    using False floor_mono [of x y] by linarith
  thus ?thesis
    using round_half_even_floor(2) [of x] round_half_even_floor(1) [of y] by linarith
qed

lemma ulp_exp_bounds:
  assumes "0 < x"
  shows "x < 2 powr (of_int (ulp_exp x) + 53)" "- 1074 \<le> ulp_exp x"
    "ulp_exp x \<noteq> - 1074 \<Longrightarrow> 2 powr (of_int (ulp_exp x) + 52) \<le> x"
proof -
  have log: "2 powr of_int \<lfloor>log 2 x\<rfloor> \<le> x" "x < 2 powr (of_int \<lfloor>log 2 x\<rfloor> + 1)"
    using floor_log_eq_powr_iff [of x 2 "\<lfloor>log 2 x\<rfloor>"] assms by auto
  have "2 powr (of_int \<lfloor>log 2 x\<rfloor> + 1) \<le> (2::real) powr (of_int (ulp_exp x) + 53)"
    by (intro powr_mono) (auto simp: ulp_exp_def max_def)
  thus "x < 2 powr (of_int (ulp_exp x) + 53)"
    using log(2) by linarith
  show "- 1074 \<le> ulp_exp x"
    by (simp add: ulp_exp_def)
  assume "ulp_exp x \<noteq> - 1074"
  hence "ulp_exp x = \<lfloor>log 2 x\<rfloor> - 52"
    by (auto simp: ulp_exp_def max_def split: if_splits)
  thus "2 powr (of_int (ulp_exp x) + 52) \<le> x"
    using log(1) by simp
qed

lemma ulp_exp_mono: "0 < x \<Longrightarrow> x \<le> y \<Longrightarrow> ulp_exp x \<le> ulp_exp y"
  using floor_mono [of "log 2 x" "log 2 y"] by (auto simp: ulp_exp_def)

lemma ulp_exp_le: "0 < x \<Longrightarrow> x < 2 powr (of_int k + 53) \<Longrightarrow> - 1074 \<le> k \<Longrightarrow> ulp_exp x \<le> k"
proof -
  assume "0 < x" "x < 2 powr (of_int k + 53)" "- 1074 \<le> k"
  hence "log 2 x < of_int (k + 53)"
    by (simp add: log_less_iff)
  hence "\<lfloor>log 2 x\<rfloor> < k + 53"
    by (simp add: floor_less_iff)
  thus ?thesis
    using \<open>- 1074 \<le> k\<close> by (simp add: ulp_exp_def)
qed

text \<open>The numbers with at most 53 significant bits are fixed.\<close>

lemma round_pos_fixed:
  assumes "0 \<le> m" "m < 2 ^ 53" "- 1074 \<le> k"
  shows "round_pos (of_int m * 2 powr of_int k) = of_int m * 2 powr of_int k"
proof (cases "m = 0")
  case False
  let ?y = "of_int m * 2 powr of_int k :: real" and ?e = "ulp_exp (of_int m * 2 powr of_int k)"
  have pos: "0 < ?y"
    using assms(1) False by simp
  have "(of_int m :: real) < 2 ^ 53"
    using assms(2) by (metis of_int_less_iff of_int_numeral of_int_power)
  hence "?y < 2 powr (of_int k + 53)"
    by (simp add: powr_add)
  hence e: "?e \<le> k"
    using ulp_exp_le [OF pos] assms(3) by simp
  have "?y / 2 powr of_int ?e = of_int m * 2 powr of_int (k - ?e)"
    by (simp add: powr_diff)
  also have "\<dots> = of_int (m * 2 ^ nat (k - ?e))"
    using e by (simp add: powr_realpow [symmetric])
  finally have "round_half_even (?y / 2 powr of_int ?e) = m * 2 ^ nat (k - ?e)"
    by (metis round_half_even_int)
  hence "round_pos ?y = of_int m * 2 powr of_int (k - ?e) * 2 powr of_int ?e"
    using pos e by (simp add: round_pos_def powr_realpow [symmetric])
  thus ?thesis
    by (simp add: powr_diff)
qed (simp add: round_pos_def)

lemma round_pos_fixed_top:
  assumes "0 \<le> m" "m \<le> 2 ^ 53" "- 1074 \<le> k"
  shows "round_pos (of_int m * 2 powr of_int k) = of_int m * 2 powr of_int k"
proof (cases "m = 2 ^ 53")
  case True
  hence "of_int m * 2 powr of_int k = of_int (2 ^ 52) * 2 powr (of_int (k + 1) :: real)"
    by (simp add: powr_add)
  thus ?thesis
    using round_pos_fixed [of "2 ^ 52" "k + 1"] assms(3) by simp
qed (use assms round_pos_fixed in simp)

text \<open>A rounded number has at most 53 significant bits.\<close>

definition significand :: "real \<Rightarrow> int" where
  "significand x = round_half_even (x / 2 powr of_int (ulp_exp x))"

lemma significand_bounds:
  assumes "0 < x"
  shows "0 \<le> significand x" "significand x \<le> 2 ^ 53" "ulp_exp x \<noteq> - 1074 \<Longrightarrow> 2 ^ 52 \<le> significand x"
    "round_pos x = of_int (significand x) * 2 powr of_int (ulp_exp x)"
proof -
  let ?q = "x / 2 powr of_int (ulp_exp x)"
  have "?q < 2 ^ 53"
    using ulp_exp_bounds(1) [OF assms] by (simp add: powr_add divide_less_eq mult.commute)
  hence "?q \<le> of_int (2 ^ 53)"
    by simp
  from round_half_even_mono [OF this] show "significand x \<le> 2 ^ 53"
    unfolding significand_def round_half_even_int .
  have "of_int 0 \<le> ?q"
    using assms by simp
  from round_half_even_mono [OF this] show "0 \<le> significand x"
    unfolding significand_def round_half_even_int .
  show "round_pos x = of_int (significand x) * 2 powr of_int (ulp_exp x)"
    using assms by (simp add: round_pos_def significand_def)
  assume "ulp_exp x \<noteq> - 1074"
  hence "of_int (2 ^ 52) \<le> ?q"
    using ulp_exp_bounds(3) [OF assms] by (simp add: powr_add le_divide_eq mult.commute)
  from round_half_even_mono [OF this] show "2 ^ 52 \<le> significand x"
    unfolding significand_def round_half_even_int .
qed

lemma round_pos_idem: "0 \<le> x \<Longrightarrow> round_pos (round_pos x) = round_pos x"
proof (cases "x = 0")
  case False
  assume "0 \<le> x"
  hence "0 < x"
    using False by simp
  from significand_bounds [OF this] ulp_exp_bounds(2) [OF this] show ?thesis
    by (simp add: round_pos_fixed_top)
qed (simp add: round_pos_def)

lemma round_pos_nonneg: "0 \<le> x \<Longrightarrow> 0 \<le> round_pos x"
  using significand_bounds [of x] by (cases "x = 0") (simp_all add: round_pos_def)

lemma round_pos_mono:
  assumes "0 \<le> x" "x \<le> y"
  shows "round_pos x \<le> round_pos y"
proof (cases "x = 0")
  case True
  thus ?thesis
    using assms round_pos_nonneg [of y] by (simp add: round_pos_def)
next
  case False
  hence x: "0 < x" and y: "0 < y"
    using assms by auto
  show ?thesis
  proof (cases "ulp_exp x = ulp_exp y")
    case True
    have "significand x \<le> significand y"
      using assms unfolding significand_def True by (intro round_half_even_mono divide_right_mono) simp_all
    thus ?thesis
      using True by (simp add: significand_bounds(4) [OF x] significand_bounds(4) [OF y] mult_right_mono)
  next
    case False
    hence less: "ulp_exp x + 1 \<le> ulp_exp y"
      using ulp_exp_mono [OF x assms(2)] by simp
    have "of_int (significand x) * 2 powr of_int (ulp_exp x) \<le> (2 ^ 53 :: real) * 2 powr of_int (ulp_exp x)"
      using significand_bounds(2) [OF x] by (intro mult_right_mono) (metis of_int_le_iff of_int_numeral of_int_power, simp)
    also have "\<dots> = 2 ^ 52 * 2 powr of_int (ulp_exp x + 1)"
      by (simp add: powr_add)
    also have "\<dots> \<le> 2 ^ 52 * 2 powr of_int (ulp_exp y)"
      using less by (intro mult_left_mono powr_mono) (simp_all del: of_int_add)
    also have "\<dots> \<le> of_int (significand y) * 2 powr of_int (ulp_exp y)"
      using significand_bounds(3) [OF y] less ulp_exp_bounds(2) [OF x]
      by (intro mult_right_mono) (metis add_le_same_cancel1 not_one_le_zero order_trans of_int_le_iff of_int_numeral of_int_power, simp)
    finally show ?thesis
      by (simp add: significand_bounds(4) [OF x] significand_bounds(4) [OF y])
  qed
qed

lemma round53_mono: "x \<le> y \<Longrightarrow> round53 x \<le> round53 y"
  using round_pos_mono [of "- y" "- x"] round_pos_mono [of x y] round_pos_nonneg [of "- x"] round_pos_nonneg [of y]
  by (auto simp: round53_def)

lemma round53_idem: "round53 (round53 x) = round53 x"
proof (cases "x < 0")
  case True
  hence "0 \<le> round_pos (- x)" "round_pos (round_pos (- x)) = round_pos (- x)"
    by (simp_all add: round_pos_nonneg round_pos_idem)
  thus ?thesis
    using True by (cases "round_pos (- x) = 0") (simp_all add: round53_def round_pos_def)
qed (use round_pos_nonneg [of x] round_pos_idem [of x] in \<open>simp add: round53_def not_less\<close>)

lemma round53_scaled:
  assumes "\<bar>n\<bar> \<le> 2 ^ 53"
  shows "round53 (of_int n * 2 ^ k) = of_int n * 2 ^ k"
proof -
  have pos: "round_pos (of_int m * 2 ^ k) = of_int m * 2 ^ k" if "0 \<le> m" "m \<le> 2 ^ 53" for m
    using round_pos_fixed_top [OF that, of "int k"] by (simp add: powr_realpow)
  show ?thesis
    using pos [of n] pos [of "- n"] assms by (cases "n < 0") (simp_all add: round53_def mult_less_0_iff)
qed

interpretation ieee: rounding round53
  by unfold_locales (simp_all add: round53_mono round53_idem round53_scaled)

section \<open>Double arithmetic\<close>

definition overflow :: "real \<Rightarrow> float64" where
  "overflow r = (if 2 ^ 1024 \<le> r then PosInf else if r \<le> - (2 ^ 1024) then NegInf else Fin r)"

fun fadd :: "float64 \<Rightarrow> float64 \<Rightarrow> float64" where
  "fadd (Fin x) (Fin y) = overflow (round53 (x + y))"
| "fadd NaN _ = NaN"
| "fadd _ NaN = NaN"
| "fadd PosInf NegInf = NaN"
| "fadd NegInf PosInf = NaN"
| "fadd PosInf _ = PosInf"
| "fadd _ PosInf = PosInf"
| "fadd NegInf _ = NegInf"
| "fadd _ NegInf = NegInf"

fun inf_times :: "float64 \<Rightarrow> bool \<Rightarrow> float64" where
  "inf_times (Fin x) neg = (if x = 0 then NaN else if (x < 0) = neg then PosInf else NegInf)"
| "inf_times PosInf neg = (if neg then NegInf else PosInf)"
| "inf_times NegInf neg = (if neg then PosInf else NegInf)"
| "inf_times NaN neg = NaN"

fun fmul :: "float64 \<Rightarrow> float64 \<Rightarrow> float64" where
  "fmul (Fin x) (Fin y) = overflow (round53 (x * y))"
| "fmul NaN _ = NaN"
| "fmul _ NaN = NaN"
| "fmul x PosInf = inf_times x False"
| "fmul x NegInf = inf_times x True"
| "fmul PosInf y = inf_times y False"
| "fmul NegInf y = inf_times y True"

text \<open>\<open>x >= y\<close>, false when either is NaN.\<close>

fun fge :: "float64 \<Rightarrow> float64 \<Rightarrow> bool" where
  "fge NaN _ = False"
| "fge _ NaN = False"
| "fge (Fin x) (Fin y) = (y \<le> x)"
| "fge PosInf _ = True"
| "fge _ NegInf = True"
| "fge _ _ = False"

definition float_of_int :: "int \<Rightarrow> float64" where
  "float_of_int n = Fin (round53 (of_int n))"

text \<open>\<open>math.Pow(2, n)\<close> for \<open>n\<close> not negative.\<close>

definition pow_two :: "int \<Rightarrow> float64" where
  "pow_two n = (if n < 1024 then Fin (2 ^ nat n) else PosInf)"

definition trunc_zero :: "real \<Rightarrow> int" where
  "trunc_zero x = (if 0 \<le> x then \<lfloor>x\<rfloor> else \<lceil>x\<rceil>)"

definition duration_of :: "(float64 \<Rightarrow> int) \<Rightarrow> float64 \<Rightarrow> int" where
  "duration_of undef f =
     (case f of Fin x \<Rightarrow> if - (2 ^ 63) \<le> trunc_zero x \<and> trunc_zero x < 2 ^ 63 then trunc_zero x else undef f | _ \<Rightarrow> undef f)"

section \<open>The strategies\<close>

record ExponentialBackoff =
  ebMin :: int
  ebMax :: int
  ebJitter :: float64

definition ExponentialBackoffConfig_Validate :: "ExponentialBackoff \<Rightarrow> go_error option" where
  "ExponentialBackoffConfig_Validate cfg =
     (if ebMin cfg < 0 then Some [Pub PubExponentialBackoffConfigInvalid]
      else if ebMax cfg < 0 then Some [Pub PubExponentialBackoffConfigInvalid]
      else if ebMax cfg < ebMin cfg then Some [Pub PubExponentialBackoffConfigInvalid]
      else if ebJitter cfg = NaN then Some [Pub PubExponentialBackoffConfigInvalid]
      else if (\<not> fge (ebJitter cfg) (Fin 0)) \<or> fge (ebJitter cfg) (Fin 1) then Some [Pub PubExponentialBackoffConfigInvalid]
      else None)"

text \<open>The constructor panics (\<open>None\<close>) on an invalid configuration.\<close>

definition MustNewExponentialBackoff :: "ExponentialBackoff \<Rightarrow> ExponentialBackoff option" where
  "MustNewExponentialBackoff cfg = (case ExponentialBackoffConfig_Validate cfg of Some _ \<Rightarrow> None | None \<Rightarrow> Some cfg)"

definition baseDelay :: "(float64 \<Rightarrow> int) \<Rightarrow> ExponentialBackoff \<Rightarrow> int \<Rightarrow> int" where
  "baseDelay undef b attempt =
     (let scaled = fmul (float_of_int (ebMin b)) (pow_two attempt)
      in if fge scaled (float_of_int (ebMax b)) then ebMax b else duration_of undef scaled)"

definition applyJitter :: "(float64 \<Rightarrow> int) \<Rightarrow> real \<Rightarrow> ExponentialBackoff \<Rightarrow> int \<Rightarrow> int" where
  "applyJitter undef u b base =
     (let mult = fadd (Fin 1) (fmul (ebJitter b) (fadd (fmul (Fin 2) (Fin u)) (Fin (- 1))));
          jittered = fmul (float_of_int base) mult
      in if fge jittered (float_of_int (ebMax b)) then ebMax b else duration_of undef jittered)"

definition ExponentialBackoff_Next :: "(float64 \<Rightarrow> int) \<Rightarrow> real \<Rightarrow> ExponentialBackoff \<Rightarrow> int \<Rightarrow> int" where
  "ExponentialBackoff_Next undef u b attempt =
     (let attempt = (if attempt < 0 then 0 else attempt); base = baseDelay undef b attempt
      in if ebJitter b = Fin 0 then base else applyJitter undef u b base)"

section \<open>Bounds\<close>

text \<open>What both conversions do: a product that is not negative is clamped to the maximum.\<close>

lemma clamped:
  assumes "0 \<le> r" "0 \<le> m" "m < 2 ^ 63"
  shows "0 \<le> (if fge (overflow (round53 r)) (float_of_int m) then m else duration_of undef (overflow (round53 r)))
    \<and> (if fge (overflow (round53 r)) (float_of_int m) then m else duration_of undef (overflow (round53 r))) \<le> m"
proof (cases "fge (overflow (round53 r)) (float_of_int m)")
  case False
  have r: "0 \<le> round53 r"
    using ieee.rnd_nonneg [OF assms(1)] .
  hence "round53 r < round53 (of_int m)" "overflow (round53 r) = Fin (round53 r)"
    using False by (auto simp: overflow_def float_of_int_def split: if_splits)
  moreover from this(1) have le: "round53 r \<le> of_int m"
    by (rule ieee.rnd_clamp)
  moreover have "round53 r < 2 ^ 63"
    using le of_int_less_iff [of m "2 ^ 63", where ?'a = real] assms(3) by simp
  ultimately show ?thesis
    using False r by (simp add: duration_of_def trunc_zero_def floor_le_iff)
qed (use assms in simp)

lemma base_bounds:
  assumes "0 \<le> ebMin b" "0 \<le> ebMax b" "ebMax b < 2 ^ 63" "0 < ebMin b \<or> attempt < 1024"
  shows "0 \<le> baseDelay undef b attempt \<and> baseDelay undef b attempt \<le> ebMax b"
proof (cases "attempt < 1024")
  case True
  have "0 \<le> round53 (of_int (ebMin b))"
    using assms(1) by (intro ieee.rnd_nonneg) simp
  hence "0 \<le> round53 (of_int (ebMin b)) * 2 ^ nat attempt"
    by simp
  from clamped [OF this assms(2,3)] show ?thesis
    using True by (simp add: baseDelay_def pow_two_def float_of_int_def [of "ebMin b"] Let_def)
next
  case False
  have "round53 (of_int 1) \<le> round53 (of_int (ebMin b))"
    using assms False by (intro ieee.rnd_mono) simp
  thus ?thesis
    using False assms by (simp add: baseDelay_def pow_two_def float_of_int_def)
qed

lemma round53_small: "\<bar>x\<bar> \<le> 2 \<Longrightarrow> overflow (round53 x) = Fin (round53 x)"
proof -
  assume "\<bar>x\<bar> \<le> 2"
  hence "round53 x \<le> 2" "- 2 \<le> round53 x"
    using ieee.rnd_mono [of x 2] ieee.rnd_mono [of "- 2" x] ieee.rnd_int [of "- 2"] by simp_all
  moreover have "(2::real) < 2 ^ 1024"
    using power_strict_increasing [of 1 1024 "2::real"] by simp
  ultimately show ?thesis
    by (simp add: overflow_def)
qed

text \<open>The multiplier of the jitter is a number that is not negative.\<close>

lemma multiplier:
  assumes "0 \<le> j" "j < 1" "0 \<le> u" "u < 1"
  shows "\<exists>k\<ge>0. fadd (Fin 1) (fmul (Fin j) (fadd (fmul (Fin 2) (Fin u)) (Fin (- 1)))) = Fin k"
proof -
  have a: "0 \<le> round53 (2 * u)" "round53 (2 * u) \<le> 2"
    using assms ieee.rnd_mono [of "2 * u" 2] ieee.rnd_nonneg [of "2 * u"] by simp_all
  hence b: "\<bar>round53 (round53 (2 * u) - 1)\<bar> \<le> 1"
    by (intro ieee.rnd_unit) simp
  let ?w = "round53 (round53 (2 * u) - 1)"
  have "\<bar>j * ?w\<bar> \<le> 1 * 1"
    unfolding abs_mult using assms b by (intro mult_mono) simp_all
  hence c: "\<bar>round53 (j * ?w)\<bar> \<le> 1"
    by (intro ieee.rnd_unit) simp
  have "0 \<le> round53 (1 + round53 (j * ?w))"
    using c by (intro ieee.rnd_nonneg) simp
  moreover have "fadd (Fin 1) (fmul (Fin j) (fadd (fmul (Fin 2) (Fin u)) (Fin (- 1)))) = Fin (round53 (1 + round53 (j * ?w)))"
    using a b c \<open>\<bar>j * ?w\<bar> \<le> 1 * 1\<close> assms by (simp add: round53_small abs_le_iff)
  ultimately show ?thesis
    by blast
qed

lemma valid_config:
  "ExponentialBackoffConfig_Validate b = None \<longleftrightarrow>
     0 \<le> ebMin b \<and> ebMin b \<le> ebMax b \<and> (\<exists>j. ebJitter b = Fin j \<and> 0 \<le> j \<and> j < 1)"
  by (cases "ebJitter b") (auto simp: ExponentialBackoffConfig_Validate_def)

lemma jitter_bounds:
  assumes "ebJitter b = Fin j" "0 \<le> j" "j < 1" "0 \<le> u" "u < 1" "0 \<le> base" "0 \<le> ebMax b" "ebMax b < 2 ^ 63"
  shows "0 \<le> applyJitter undef u b base \<and> applyJitter undef u b base \<le> ebMax b"
proof -
  obtain k where k: "0 \<le> k" "fadd (Fin 1) (fmul (Fin j) (fadd (fmul (Fin 2) (Fin u)) (Fin (- 1)))) = Fin k"
    using multiplier [OF assms(2-5)] by blast
  have "0 \<le> round53 (of_int base)"
    using assms(6) by (intro ieee.rnd_nonneg) simp
  hence "0 \<le> round53 (of_int base) * k"
    using k(1) by simp
  from clamped [OF this assms(7,8), of undef] show ?thesis
    using k(2) by (simp add: applyJitter_def assms(1) Let_def float_of_int_def [of base] del: fadd.simps split: if_splits)
qed

lemma overflow_nonneg: "0 \<le> r \<Longrightarrow> overflow r = (if 2 ^ 1024 \<le> r then PosInf else Fin r)"
  by (auto simp: overflow_def intro: order_trans)

lemma base_doubles_below:
  assumes "0 \<le> ebMin b" "ebMin b \<le> ebMax b" "ebMax b \<le> 2 ^ 53" "attempt < 1024"
  shows "baseDelay undef b attempt = min (ebMax b) (ebMin b * 2 ^ nat attempt)"
proof -
  let ?r = "ebMin b * 2 ^ nat attempt"
  have exact: "round53 (of_int (ebMin b)) = of_int (ebMin b)" "round53 (of_int (ebMax b)) = of_int (ebMax b)"
    "round53 (of_int (ebMin b) * 2 ^ nat attempt) = of_int ?r"
    using assms ieee.rnd_scaled [of "ebMin b" "nat attempt"] by (auto intro!: ieee.rnd_int)
  have nonneg: "0 \<le> ?r" "(0 :: real) \<le> of_int ?r"
    using assms(1) by simp_all
  have base: "baseDelay undef b attempt = (if fge (overflow (of_int ?r)) (Fin (of_int (ebMax b))) then ebMax b
      else duration_of undef (overflow (of_int ?r)))"
    using exact assms(4) by (simp add: baseDelay_def float_of_int_def pow_two_def Let_def)
  show ?thesis
  proof (cases "ebMax b \<le> ?r")
    case True
    hence "(of_int (ebMax b) :: real) \<le> of_int ?r"
      unfolding of_int_le_iff .
    thus ?thesis
      using True nonneg(2) unfolding base by (simp add: overflow_nonneg min_def del: of_int_mult)
  next
    case False
    hence less: "of_int ?r < (of_int (ebMax b) :: real)"
      unfolding of_int_less_iff by simp
    have "(of_int (ebMax b) :: real) \<le> of_int (2 ^ 53)" "(of_int (2 ^ 53) :: real) < 2 ^ 1024"
      using assms(3) power_strict_increasing [of 53 1024 "2 :: real"] by (simp_all only: of_int_le_iff) simp
    hence "overflow (of_int ?r) = Fin (of_int ?r)"
      using less nonneg(2) by (simp only: overflow_nonneg) (simp del: of_int_mult)
    thus ?thesis
      using False less nonneg assms(3) unfolding base by (simp add: duration_of_def trunc_zero_def min_def del: of_int_mult)
  qed
qed

lemma base_doubles:
  assumes "0 \<le> ebMin b" "ebMin b \<le> ebMax b" "ebMax b \<le> 2 ^ 53" "0 < ebMin b \<or> attempt < 1024"
  shows "baseDelay undef b attempt = min (ebMax b) (ebMin b * 2 ^ nat attempt)"
proof (cases "attempt < 1024")
  case False
  have "round53 (of_int 1) \<le> round53 (of_int (ebMin b))"
    using assms False by (intro ieee.rnd_mono) simp
  moreover have "(2 :: int) ^ 53 \<le> 2 ^ nat attempt"
    using False by (intro power_increasing) simp_all
  hence "1 * 2 ^ 53 \<le> ebMin b * 2 ^ nat attempt"
    using False assms by (intro mult_mono) simp_all
  ultimately show ?thesis
    using False assms(3) by (simp add: baseDelay_def pow_two_def float_of_int_def min_def)
qed (use assms base_doubles_below in blast)



text \<open>The exception is real.  A configuration with minimum zero is valid, and from attempt 1024 on its base delay is the conversion of
  zero times infinity, a NaN, which no comparison with the maximum catches.\<close>

theorem backoff_zero_min_nan:
  assumes "ebMin b = 0" "1024 \<le> attempt"
  shows "baseDelay undef b attempt = undef NaN"
  using assms ieee.rnd_int [of 0] by (simp add: baseDelay_def float_of_int_def pow_two_def duration_of_def)

theorem backoff_zero_min_nan_witness:
  "ExponentialBackoffConfig_Validate \<lparr>ebMin = 0, ebMax = 1, ebJitter = Fin 0\<rparr> = None
     \<and> baseDelay (\<lambda>_. - (2 ^ 63)) \<lparr>ebMin = 0, ebMax = 1, ebJitter = Fin 0\<rparr> 1024 = - (2 ^ 63)"
  using backoff_zero_min_nan [of "\<lparr>ebMin = 0, ebMax = 1, ebJitter = Fin 0\<rparr>" 1024 "\<lambda>_. - (2 ^ 63)"]
  by (simp add: ExponentialBackoffConfig_Validate_def)

end
