(* ===== verification/Kernel_Sysfs.thy ===== *)
theory Kernel_Sysfs
  imports Domain_Session BusID
begin

text \<open>
  \<open>internal/adapter/kernel\<close>: \<open>sysfs_paths.go\<close>, \<open>sysfs.go\<close>, \<open>sysfs_real_linux.go\<close>, \<open>errors.go\<close>,
  \<open>modules.go\<close>, \<open>speed.go\<close> and \<open>export.go\<close>.  The kernel itself is a parameter: what the files of
  sysfs contain and how a write is answered may depend on every write so far, so both are functions
  of the history of writes.  The adapter's operations return their result together with the
  extended history, which is what the theorems about ordering speak about.
\<close>

section \<open>sysfs_paths.go\<close>

definition SysfsUSBDevices :: string where "SysfsUSBDevices = ''/sys/bus/usb/devices''"
definition SysfsUSBIPHostDriver :: string where "SysfsUSBIPHostDriver = ''/sys/bus/usb/drivers/usbip-host''"
definition SysfsDriversProbe :: string where "SysfsDriversProbe = ''/sys/bus/usb/drivers_probe''"
definition usbipHostDriverName :: string where "usbipHostDriverName = ''usbip-host''"
definition SysfsDriverBind :: string where "SysfsDriverBind = ''bind''"
definition SysfsDriverUnbind :: string where "SysfsDriverUnbind = ''unbind''"
definition SysfsMatchBusID :: string where "SysfsMatchBusID = ''match_busid''"
definition SysfsRebind :: string where "SysfsRebind = ''rebind''"
definition SysfsUsbipSockfd :: string where "SysfsUsbipSockfd = ''usbip_sockfd''"
definition SysfsUsbipStatus :: string where "SysfsUsbipStatus = ''usbip_status''"
definition SysfsVHCIHCD :: string where "SysfsVHCIHCD = ''/sys/devices/platform/vhci_hcd.0''"
definition SysfsVHCIAttach :: string where "SysfsVHCIAttach = ''attach''"
definition SysfsVHCIDetach :: string where "SysfsVHCIDetach = ''detach''"
definition SysfsVHCIStatus :: string where "SysfsVHCIStatus = ''status''"
definition SysfsVHCINPorts :: string where "SysfsVHCINPorts = ''nports''"
definition SysfsModuleDir :: string where "SysfsModuleDir = ''/sys/module''"
definition ModuleUsbipCore :: string where "ModuleUsbipCore = ''usbip_core''"
definition ModuleUsbipHost :: string where "ModuleUsbipHost = ''usbip_host''"
definition ModuleVHCIHCD :: string where "ModuleVHCIHCD = ''vhci_hcd''"
definition MatchBusIDAddPrefix :: string where "MatchBusIDAddPrefix = ''add ''"
definition MatchBusIDDelPrefix :: string where "MatchBusIDDelPrefix = ''del ''"
definition UsbipSockfdDisconnect :: string where "UsbipSockfdDisconnect = ''-1''"
definition VHCIStatusHeaderPrefix :: string where "VHCIStatusHeaderPrefix = ''hub''"
definition HubTypeHighSpeed :: string where "HubTypeHighSpeed = ''hs''"
definition HubTypeSuperSpeed :: string where "HubTypeSuperSpeed = ''ss''"

lemmas sysfs_paths = SysfsUSBDevices_def SysfsUSBIPHostDriver_def SysfsDriversProbe_def
  usbipHostDriverName_def SysfsDriverBind_def SysfsDriverUnbind_def SysfsMatchBusID_def
  SysfsRebind_def SysfsUsbipSockfd_def SysfsUsbipStatus_def SysfsVHCIHCD_def SysfsVHCIAttach_def
  SysfsVHCIDetach_def SysfsVHCIStatus_def SysfsVHCINPorts_def SysfsModuleDir_def ModuleUsbipCore_def
  ModuleUsbipHost_def ModuleVHCIHCD_def MatchBusIDAddPrefix_def MatchBusIDDelPrefix_def
  UsbipSockfdDisconnect_def VHCIStatusHeaderPrefix_def HubTypeHighSpeed_def HubTypeSuperSpeed_def

section \<open>path.Join for rooted paths\<close>

fun clean_comps :: "string list \<Rightarrow> string list \<Rightarrow> string list" where
  "clean_comps acc [] = rev acc"
| "clean_comps acc (c # cs) =
     (if c = [] \<or> c = ''.'' then clean_comps acc cs
      else if c = ''..'' then clean_comps (tl acc) cs
      else clean_comps (c # acc) cs)"

fun join_slash :: "string list \<Rightarrow> string" where
  "join_slash [] = []"
| "join_slash [c] = c"
| "join_slash (c # cs) = c @ CHR ''/'' # join_slash cs"

text \<open>\<open>path.Clean\<close> of a path that begins with a slash.\<close>

definition path_Clean :: "string \<Rightarrow> string" where
  "path_Clean p = CHR ''/'' # join_slash (clean_comps [] (split_on (CHR ''/'') p))"

definition path_Join :: "string list \<Rightarrow> string" where
  "path_Join ps = path_Clean (join_slash (filter (\<lambda>p. p \<noteq> []) ps))"

text \<open>\<open>path.Base\<close>: the last component, trailing slashes removed.\<close>

definition path_Base :: "string \<Rightarrow> string" where
  "path_Base p =
     (if p = [] then ''.''
      else let q = rev (dropWhile (\<lambda>c. c = CHR ''/'') (rev p))
        in if q = [] then ''/'' else last (split_on (CHR ''/'') q))"

section \<open>The kernel\<close>

record sysfs =
  sfOpen :: "string \<Rightarrow> go_error option"
  sfRead :: "string \<Rightarrow> go_error + string"
  sfReadDir :: "string \<Rightarrow> go_error + (string \<times> bool) list"
  sfStat :: "string \<Rightarrow> go_error option"
  sfReadLink :: "string \<Rightarrow> go_error + string"

text \<open>A write: path, data and the answer.\<close>

type_synonym write_record = "string \<times> string \<times> go_error option"
type_synonym history = "write_record list"

record kernel_env =
  keFS :: "history \<Rightarrow> sysfs"
  keWrite :: "history \<Rightarrow> string \<Rightarrow> string \<Rightarrow> go_error option"

section \<open>Errors\<close>

definition EPERM :: nat where "EPERM = 1"
definition ENOENT :: nat where "ENOENT = 2"
definition EACCES :: nat where "EACCES = 13"
definition EBUSY :: nat where "EBUSY = 16"
definition ENODEV :: nat where "ENODEV = 19"
definition EINVAL :: nat where "EINVAL = 22"

lemmas errnos = EPERM_def ENOENT_def EACCES_def EBUSY_def ENODEV_def EINVAL_def

text \<open>\<open>errors.Is(err, fs.ErrNotExist)\<close> and the like: an error number of the chain stands for the
  portable sentinel.\<close>

definition Is_NotExist :: "go_error \<Rightarrow> bool" where
  "Is_NotExist e \<longleftrightarrow> errors_Is e (Io FsErrNotExist) \<or> errors_Is e (Errno ENOENT)"

definition Is_Permission :: "go_error \<Rightarrow> bool" where
  "Is_Permission e \<longleftrightarrow> errors_Is e (Io FsErrPermission) \<or> errors_Is e (Errno EACCES) \<or> errors_Is e (Errno EPERM)"

definition isMissing :: "go_error \<Rightarrow> bool" where
  "isMissing err \<longleftrightarrow> Is_NotExist err \<or> errors_Is err (Dom ErrDeviceNotFound)
     \<or> errors_Is err (Dom ErrKernelModuleMissing)"

datatype pathKind = kindDevice | kindDriver | kindController | kindModule | kindOther

definition under :: "string \<Rightarrow> string \<Rightarrow> bool" where
  "under path dir \<longleftrightarrow> HasPrefix path (dir @ ''/'') \<or> path = dir"

definition classifyPath :: "string \<Rightarrow> pathKind" where
  "classifyPath path =
     (if under path SysfsUSBDevices then kindDevice
      else if under path SysfsUSBIPHostDriver then kindDriver
      else if under path SysfsVHCIHCD then kindController
      else if under path SysfsModuleDir then kindModule
      else kindOther)"

definition classifyENOENT :: "pathKind \<Rightarrow> nat \<Rightarrow> go_error" where
  "classifyENOENT kind errno =
     (case kind of
        kindDevice \<Rightarrow> [Dom ErrDeviceNotFound]
      | kindOther \<Rightarrow> [Errno errno]
      | _ \<Rightarrow> [Dom ErrKernelModuleMissing])"

definition classifyErrnoKind :: "pathKind \<Rightarrow> nat \<Rightarrow> go_error" where
  "classifyErrnoKind kind errno =
     (if errno = EACCES \<or> errno = EPERM then [Dom ErrPermission, Errno errno]
      else if errno = EBUSY then [Dom ErrDeviceAlreadyBound, Errno errno]
      else if errno = ENODEV then [Dom ErrDeviceNotFound, Errno errno]
      else if errno = ENOENT then classifyENOENT kind errno
      else [Errno errno])"

definition ClassifyErrno :: "string \<Rightarrow> nat \<Rightarrow> go_error" where
  "ClassifyErrno path errno = classifyErrnoKind (classifyPath path) errno"

text \<open>\<open>errors.AsType[unix.Errno]\<close>: the first error number of the chain.\<close>

fun first_errno :: "go_error \<Rightarrow> nat option" where
  "first_errno [] = None"
| "first_errno (Errno n # e) = Some n"
| "first_errno (_ # e) = first_errno e"

definition classifyErrAny :: "string \<Rightarrow> go_error \<Rightarrow> go_error" where
  "classifyErrAny path err =
     (case first_errno err of
        Some errno \<Rightarrow> ClassifyErrno path errno
      | None \<Rightarrow>
          if Is_NotExist err then ClassifyErrno path ENOENT
          else if Is_Permission err then ClassifyErrno path EACCES
          else err)"

definition classifyFSErr :: "string \<Rightarrow> go_error \<Rightarrow> go_error" where
  "classifyFSErr path err = classifyErrAny path err"

section \<open>Reading\<close>

definition fsPathFromAbs :: "string \<Rightarrow> string" where
  "fsPathFromAbs p = (if p \<noteq> [] \<and> hd p = CHR ''/'' then tl p else p)"

definition readFileBytes :: "sysfs \<Rightarrow> string \<Rightarrow> go_error + string" where
  "readFileBytes fs path =
     (case sfOpen fs (fsPathFromAbs path) of
        Some err \<Rightarrow> Inl (classifyFSErr path err)
      | None \<Rightarrow>
          (case sfRead fs (fsPathFromAbs path) of
             Inl err \<Rightarrow> Inl (classifyFSErr path err)
           | Inr data \<Rightarrow> Inr data))"

definition ReadLine :: "sysfs \<Rightarrow> string \<Rightarrow> go_error + string" where
  "ReadLine fs path =
     (case readFileBytes fs path of Inl err \<Rightarrow> Inl err | Inr data \<Rightarrow> Inr (TrimSpace data))"

definition strip0x :: "string \<Rightarrow> string" where
  "strip0x line = TrimPrefix (TrimPrefix line ''0x'') ''0X''"

definition ReadHex16 :: "sysfs \<Rightarrow> string \<Rightarrow> go_error + u16" where
  "ReadHex16 fs path =
     (case ReadLine fs path of
        Inl err \<Rightarrow> Inl err
      | Inr line \<Rightarrow>
          (case ParseUint (strip0x line) 16 16 of Inl perr \<Rightarrow> Inl perr | Inr v \<Rightarrow> Inr (of_nat v)))"

definition ReadUint :: "sysfs \<Rightarrow> string \<Rightarrow> go_error + u32" where
  "ReadUint fs path =
     (case ReadLine fs path of
        Inl err \<Rightarrow> Inl err
      | Inr line \<Rightarrow>
          (case ParseUint line 10 32 of Inl perr \<Rightarrow> Inl perr | Inr v \<Rightarrow> Inr (of_nat v)))"

text \<open>\<open>sort.Strings\<close>: bytewise lexicographic order.\<close>

fun string_le :: "string \<Rightarrow> string \<Rightarrow> bool" where
  "string_le [] t = True"
| "string_le (a # s) [] = False"
| "string_le (a # s) (b # t) = (a < b \<or> (a = b \<and> string_le s t))"

fun insert_sorted :: "string \<Rightarrow> string list \<Rightarrow> string list" where
  "insert_sorted x [] = [x]"
| "insert_sorted x (y # ys) = (if string_le x y then x # y # ys else y # insert_sorted x ys)"

definition sort_strings :: "string list \<Rightarrow> string list" where
  "sort_strings xs = foldr insert_sorted xs []"

definition ListDirEntries :: "sysfs \<Rightarrow> string \<Rightarrow> go_error + string list" where
  "ListDirEntries fs path =
     (case sfReadDir fs (fsPathFromAbs path) of
        Inl err \<Rightarrow> Inl (classifyFSErr path err)
      | Inr entries \<Rightarrow> Inr (sort_strings (map fst entries)))"

definition sysfsMbpsToSpeed :: "string \<Rightarrow> Speed option" where
  "sysfsMbpsToSpeed line =
     map_of [(''unknown'', SpeedUnknown), (''1.5'', SpeedLow), (''12'', SpeedFull), (''480'', SpeedHigh),
             (''5000'', SpeedSuper), (''10000'', SpeedSuperPlus), (''20000'', SpeedSuperPlus)] line"

definition ReadSpeedAttr :: "sysfs \<Rightarrow> string \<Rightarrow> go_error + Speed" where
  "ReadSpeedAttr fs path =
     (case ReadLine fs path of
        Inl err \<Rightarrow> Inl err
      | Inr line \<Rightarrow>
          (case sysfsMbpsToSpeed line of
             None \<Rightarrow> Inl [Kern ErrSysfsSpeedUnrecognized]
           | Some speed \<Rightarrow> Inr speed))"

section \<open>Modules\<close>

fun checkModules :: "sysfs \<Rightarrow> string list \<Rightarrow> go_error option" where
  "checkModules fs [] = None"
| "checkModules fs (name # names) =
     (let p = path_Join [SysfsModuleDir, name]
      in case sfStat fs (fsPathFromAbs p) of
           None \<Rightarrow> checkModules fs names
         | Some err \<Rightarrow>
             if Is_NotExist err then Some [Dom ErrKernelModuleMissing] else Some (classifyFSErr p err))"

definition Importer_ModulesAvailable :: "sysfs \<Rightarrow> go_error option" where
  "Importer_ModulesAvailable fs = checkModules fs [ModuleUsbipCore, ModuleVHCIHCD]"

definition Exporter_ModulesAvailable :: "sysfs \<Rightarrow> go_error option" where
  "Exporter_ModulesAvailable fs = checkModules fs [ModuleUsbipCore, ModuleUsbipHost]"

section \<open>Writing\<close>

text \<open>One write through the injected function: it is answered and recorded.\<close>

definition sysfs_write :: "kernel_env \<Rightarrow> history \<Rightarrow> string \<Rightarrow> string \<Rightarrow> go_error option \<times> history" where
  "sysfs_write env hist path data =
     (let err = keWrite env hist path data in (err, hist @ [(path, data, err)]))"

definition writeClassified :: "kernel_env \<Rightarrow> history \<Rightarrow> string \<Rightarrow> string \<Rightarrow> go_error option \<times> history" where
  "writeClassified env hist target data =
     (case sysfs_write env hist target data of
        (err, hist) \<Rightarrow> (map_option (classifyFSErr target) err, hist))"

text \<open>The production write function; \<open>io\<close> is the outcome of opening, writing and closing the
  cleaned path.\<close>

definition sysfsRoot :: string where
  "sysfsRoot = ''/sys/''"

datatype write_io = WriteOpenErr go_error | WriteDataErr go_error | WriteCloseErr go_error | WriteOk

definition writeSysfsFile :: "(string \<Rightarrow> string \<Rightarrow> write_io) \<Rightarrow> string \<Rightarrow> string \<Rightarrow> go_error option" where
  "writeSysfsFile io path data =
     (let cleaned = path_Clean path
      in if \<not> HasPrefix cleaned sysfsRoot then Some [Kern ErrNonSysfsPath]
         else case io cleaned data of
           WriteOpenErr err \<Rightarrow> Some (classifyFSErr path err)
         | WriteDataErr err \<Rightarrow> Some (classifyFSErr path err)
         | WriteCloseErr err \<Rightarrow> Some (classifyFSErr path err)
         | WriteOk \<Rightarrow> None)"

section \<open>export.go\<close>

text \<open>The duplicated descriptor of the connection, or why there is none, is a parameter.\<close>

definition usbipStatusUsed :: u32 where
  "usbipStatusUsed = 2"

definition device_attr :: "string \<Rightarrow> string \<Rightarrow> string" where
  "device_attr busID attr = path_Join [SysfsUSBDevices, busID, attr]"

definition ExportOnConn :: "kernel_env \<Rightarrow> history \<Rightarrow> go_error + nat \<Rightarrow> string \<Rightarrow> go_error option \<times> history" where
  "ExportOnConn env hist conn busID =
     (case Exporter_ModulesAvailable (keFS env hist) of
        Some err \<Rightarrow> (Some err, hist)
      | None \<Rightarrow>
          (case conn of
             Inl err \<Rightarrow> (Some err, hist)
           | Inr fd \<Rightarrow> writeClassified env hist (device_attr busID SysfsUsbipSockfd) (FormatUint fd)))"

definition ExportSessionActive :: "kernel_env \<Rightarrow> history \<Rightarrow> string \<Rightarrow> go_error + bool" where
  "ExportSessionActive env hist busID =
     (case Exporter_ModulesAvailable (keFS env hist) of
        Some err \<Rightarrow> Inl err
      | None \<Rightarrow>
          (case ReadUint (keFS env hist) (device_attr busID SysfsUsbipStatus) of
             Inl err \<Rightarrow> Inl err
           | Inr status \<Rightarrow> Inr (status = usbipStatusUsed)))"

definition Disconnect :: "kernel_env \<Rightarrow> history \<Rightarrow> string \<Rightarrow> go_error option \<times> history" where
  "Disconnect env hist busID =
     (case Exporter_ModulesAvailable (keFS env hist) of
        Some err \<Rightarrow> (Some err, hist)
      | None \<Rightarrow> writeClassified env hist (device_attr busID SysfsUsbipSockfd) UsbipSockfdDisconnect)"

section \<open>Lemmas\<close>

text \<open>A name that \<open>path.Join\<close> leaves alone.\<close>

definition plain_name :: "string \<Rightarrow> bool" where
  "plain_name n \<longleftrightarrow> n \<noteq> [] \<and> CHR ''/'' \<notin> set n \<and> n \<noteq> ''.'' \<and> n \<noteq> ''..''"

lemma split_join_slash:
  "cs \<noteq> [] \<Longrightarrow> \<forall>c\<in>set cs. CHR ''/'' \<notin> set c \<Longrightarrow> split_on (CHR ''/'') (join_slash cs) = cs"
proof (induction cs rule: join_slash.induct)
  case (3 c d cs)
  thus ?case
    by (simp add: split_on_append_sep split_on_no_sep)
qed (simp_all add: split_on_no_sep)

lemma clean_comps_plain: "\<forall>c\<in>set cs. plain_name c \<Longrightarrow> clean_comps acc cs = rev acc @ cs"
  by (induction cs arbitrary: acc) (auto simp: plain_name_def)

lemma join_slash_append: "as \<noteq> [] \<Longrightarrow> bs \<noteq> [] \<Longrightarrow> join_slash (as @ bs) = join_slash as @ CHR ''/'' # join_slash bs"
proof (induction as rule: join_slash.induct)
  case (2 c)
  thus ?case
    by (cases bs) simp_all
qed simp_all

text \<open>The directories of the source, split into components.\<close>

definition dev_comps :: "string list" where
  "dev_comps = [''sys'', ''bus'', ''usb'', ''devices'']"

lemma device_path_split:
  assumes "cs \<noteq> []" "\<forall>c\<in>set cs. c \<noteq> [] \<and> CHR ''/'' \<notin> set c"
  shows "path_Join (SysfsUSBDevices # cs) = CHR ''/'' # join_slash (clean_comps (rev dev_comps) cs)"
proof -
  have f: "filter (\<lambda>p. p \<noteq> []) cs = cs"
    using assms(2) by (simp add: filter_id_conv)
  have "SysfsUSBDevices @ CHR ''/'' # join_slash cs = CHR ''/'' # join_slash (dev_comps @ cs)"
    using assms(1) by (cases cs) (simp_all add: SysfsUSBDevices_def dev_comps_def)
  hence j: "join_slash (SysfsUSBDevices # cs) = join_slash ([] # dev_comps @ cs)"
    using assms(1) by (cases cs) (simp_all add: dev_comps_def)
  have "split_on (CHR ''/'') (join_slash ([] # dev_comps @ cs)) = [] # dev_comps @ cs"
    using assms(2) by (intro split_join_slash) (auto simp: dev_comps_def)
  thus ?thesis
    using f j by (simp add: path_Join_def path_Clean_def SysfsUSBDevices_def dev_comps_def)
qed

lemma device_attr_plain:
  assumes "plain_name b" "plain_name a"
  shows "device_attr b a = SysfsUSBDevices @ ''/'' @ b @ ''/'' @ a"
proof -
  have "clean_comps (rev dev_comps) [b, a] = dev_comps @ [b, a]"
    using assms by (subst clean_comps_plain) simp_all
  thus ?thesis
    using device_path_split [of "[b, a]"] assms
    by (simp add: device_attr_def plain_name_def SysfsUSBDevices_def dev_comps_def)
qed

lemma wire_busid_plain:
  assumes "ValidateWireBusID s = Inr b" "b \<noteq> ''.''" "b \<noteq> ''..''"
  shows "plain_name b"
  using assms isWireBusIDRune_safe
  by (auto simp: plain_name_def ValidateWireBusID_def list_ex_iff split: if_splits)

lemma plain_attrs [simp]:
  "plain_name SysfsUsbipSockfd" "plain_name SysfsUsbipStatus"
  by (simp_all add: plain_name_def SysfsUsbipSockfd_def SysfsUsbipStatus_def)

lemma writeSysfsFile_confined:
  assumes "\<And>q. HasPrefix q sysfsRoot \<Longrightarrow> io q data = io' q data"
  shows "writeSysfsFile io p data = writeSysfsFile io' p data"
  using assms by (auto simp: writeSysfsFile_def Let_def)

text \<open>Classifying an error twice, as a write through the production function does, changes nothing.\<close>

lemma first_errno_classified:
  "first_errno (classifyErrnoKind k n)
     = (if n = ENOENT \<and> k \<noteq> kindOther then None else Some n)"
  by (cases k) (auto simp: classifyErrnoKind_def classifyENOENT_def errnos)

lemma classifyFSErr_errno: "first_errno e = Some n \<Longrightarrow> classifyFSErr p e = ClassifyErrno p n"
  by (simp add: classifyFSErr_def classifyErrAny_def)

lemma classifyFSErr_idem: "classifyFSErr p (classifyFSErr p e) = classifyFSErr p e"
proof -
  have c: "classifyFSErr p (ClassifyErrno p n) = ClassifyErrno p n" for n
  proof (cases "n = ENOENT \<and> classifyPath p \<noteq> kindOther")
    case True
    thus ?thesis
      by (cases "classifyPath p")
        (auto simp: ClassifyErrno_def classifyErrnoKind_def classifyENOENT_def classifyFSErr_def
          classifyErrAny_def Is_NotExist_def Is_Permission_def errnos)
  next
    case False
    thus ?thesis
      using first_errno_classified [of "classifyPath p" n]
      by (simp add: ClassifyErrno_def classifyFSErr_errno)
  qed
  show ?thesis
    using c by (auto simp: classifyFSErr_def [of p e] classifyErrAny_def [of p e] split: option.splits)
qed

section \<open>Properties\<close>

text \<open>C22: Where the adapter reads and writes.  For a bus id accepted from the wire (other than the two
  dot names) the attribute files are direct members of the device's own directory, so distinct
  devices have disjoint files; the name \<open>..\<close>, which the wire check also accepts, leads out of the
  device directory.  The production write function only ever opens paths under \<open>/sys/\<close>: its answer
  is the same whatever happens elsewhere, and a path that resolves outside is refused.\<close>
theorem sysfs_confined:
  "(ValidateWireBusID s = Inr b \<and> b \<noteq> ''.'' \<and> b \<noteq> ''..'' \<and> plain_name a \<longrightarrow>
      device_attr b a = SysfsUSBDevices @ ''/'' @ b @ ''/'' @ a)
   \<and> ValidateWireBusID ''..'' = Inr ''..''
   \<and> device_attr ''..'' SysfsUsbipSockfd = ''/sys/bus/usb/usbip_sockfd''
   \<and> ((\<forall>q. HasPrefix q sysfsRoot \<longrightarrow> io q data = io' q data) \<longrightarrow>
        writeSysfsFile io p data = writeSysfsFile io' p data)
   \<and> (\<not> HasPrefix (path_Clean p) sysfsRoot \<longrightarrow> writeSysfsFile io p data = Some [Kern ErrNonSysfsPath])"
proof -
  have "ValidateWireBusID ''..'' = Inr ''..''"
    by (simp add: ValidateWireBusID_def isWireBusIDRune_def BusIDSize_def)
  moreover have "device_attr ''..'' SysfsUsbipSockfd = ''/sys/bus/usb/usbip_sockfd''"
    by (simp add: device_attr_def path_Join_def path_Clean_def SysfsUSBDevices_def SysfsUsbipSockfd_def)
  moreover have "device_attr b a = SysfsUSBDevices @ ''/'' @ b @ ''/'' @ a"
    if "ValidateWireBusID s = Inr b" "b \<noteq> ''.''" "b \<noteq> ''..''" "plain_name a"
    using device_attr_plain [OF wire_busid_plain [OF that(1-3)] that(4)] .
  moreover have "writeSysfsFile io p data = writeSysfsFile io' p data"
    if "\<forall>q. HasPrefix q sysfsRoot \<longrightarrow> io q data = io' q data"
    using that by (intro writeSysfsFile_confined) blast
  ultimately show ?thesis
    by (simp add: writeSysfsFile_def Let_def)
qed

theorem sysfs_confined_witness:
  "device_attr ''1-1'' SysfsUsbipSockfd = ''/sys/bus/usb/devices/1-1/usbip_sockfd''
   \<and> writeSysfsFile (\<lambda>_ _. WriteOk) ''/etc/passwd'' [] = Some [Kern ErrNonSysfsPath]"
proof -
  have "ValidateWireBusID ''1-1'' = Inr ''1-1''"
    by (simp add: ValidateWireBusID_def isWireBusIDRune_def BusIDSize_def less_eq_char_def)
  moreover have "\<not> HasPrefix (path_Clean ''/etc/passwd'') sysfsRoot"
    by (simp add: path_Clean_def HasPrefix_def sysfsRoot_def)
  ultimately show ?thesis
    using sysfs_confined [of "''1-1''" "''1-1''" SysfsUsbipSockfd "\<lambda>_ _. WriteOk" "[]" "\<lambda>_ _. WriteOk" "''/etc/passwd''"]
    by (simp add: SysfsUSBDevices_def SysfsUsbipSockfd_def plain_name_def)
qed

text \<open>Errors of the kernel become the domain's sentinels by error number and kind of path: permission,
  busy and no-such-device everywhere, and a missing file means a missing device under the device
  directory but a missing module under the driver, controller and module directories; other numbers
  pass through.  Classifying twice, as the production write path does, is the same as once.\<close>
theorem sysfs_errors:
  "classifyFSErr p (classifyFSErr p e) = classifyFSErr p e
   \<and> (first_errno e = Some n \<longrightarrow>
        (errors_Is (classifyFSErr p e) (Dom ErrPermission) \<longleftrightarrow> n = EACCES \<or> n = EPERM)
      \<and> (errors_Is (classifyFSErr p e) (Dom ErrDeviceAlreadyBound) \<longleftrightarrow> n = EBUSY)
      \<and> (errors_Is (classifyFSErr p e) (Dom ErrDeviceNotFound)
           \<longleftrightarrow> n = ENODEV \<or> (n = ENOENT \<and> classifyPath p = kindDevice))
      \<and> (errors_Is (classifyFSErr p e) (Dom ErrKernelModuleMissing)
           \<longleftrightarrow> n = ENOENT \<and> classifyPath p \<in> {kindDriver, kindController, kindModule}))"
proof -
  have "first_errno e = Some n \<longrightarrow> classifyFSErr p e = classifyErrnoKind (classifyPath p) n"
    by (simp add: classifyFSErr_errno ClassifyErrno_def)
  thus ?thesis
    using classifyFSErr_idem
    by (cases "classifyPath p") (auto simp: classifyErrnoKind_def classifyENOENT_def errnos)
qed

theorem sysfs_errors_witness:
  "errors_Is (classifyFSErr ''/sys/bus/usb/drivers/usbip-host/bind'' [Errno 2]) (Dom ErrKernelModuleMissing)"
proof -
  have "classifyPath ''/sys/bus/usb/drivers/usbip-host/bind'' = kindDriver"
    by (simp add: classifyPath_def under_def HasPrefix_def sysfs_paths)
  thus ?thesis
    using sysfs_errors [of "''/sys/bus/usb/drivers/usbip-host/bind''" "[Errno 2]" 2] by (simp add: ENOENT_def)
qed

end
