(* ===== verification/Kernel_Bind.thy ===== *)
theory Kernel_Bind
  imports Kernel_Sysfs
begin

text \<open>
  \<open>internal/adapter/kernel/bind.go\<close>: handing a device over to \<open>usbip-host\<close> and giving it back.  The
  per-device lock makes each operation run alone on its device, so an operation is a function from
  the history of sysfs writes to its result and the longer history.  The iteration order of Go's
  map of network devices (\<open>order\<close>) and the outcome of the waits between attempts (\<open>intr\<close>: the
  context error of an attempt whose wait was interrupted) are parameters.
\<close>

unbundle bit_operations_syntax

section \<open>Guards\<close>

definition devAttrDeviceClass :: string where "devAttrDeviceClass = ''bDeviceClass''"
definition vhciDevPathMarker :: string where "vhciDevPathMarker = ''vhci_hcd''"
definition usbHubClass :: u16 where "usbHubClass = 0x09"
definition ifaceDriverNameFile :: string where "ifaceDriverNameFile = ''driver_name''"
definition usbDriversRoot :: string where "usbDriversRoot = ''/sys/bus/usb''"
definition usbDriversSubdir :: string where "usbDriversSubdir = ''drivers''"

definition driverPath :: "string \<Rightarrow> string \<Rightarrow> string" where
  "driverPath driver attr = path_Join [usbDriversRoot, usbDriversSubdir, driver, attr]"

definition readLink :: "sysfs \<Rightarrow> string \<Rightarrow> go_error + string" where
  "readLink fs p = sfReadLink fs (fsPathFromAbs p)"

text \<open>\<open>strings.Contains\<close>.\<close>

fun contains_str :: "string \<Rightarrow> string \<Rightarrow> bool" where
  "contains_str [] t = (t = [])"
| "contains_str (c # s) t = (HasPrefix (c # s) t \<or> contains_str s t)"

definition refuseVHCIBindLoop :: "sysfs \<Rightarrow> string \<Rightarrow> go_error option" where
  "refuseVHCIBindLoop fs busID =
     (case readLink fs (path_Join [SysfsUSBDevices, busID]) of
        Inl err \<Rightarrow>
          if Is_NotExist err then None
          else if errors_Is err (Io FsErrInvalid) \<or> errors_Is err (Errno EINVAL) then None
          else Some err
      | Inr link \<Rightarrow>
          if contains_str link vhciDevPathMarker then Some [Dom ErrDeviceAlreadyBound] else None)"

definition refuseHubDevice :: "sysfs \<Rightarrow> string \<Rightarrow> go_error option" where
  "refuseHubDevice fs busID =
     (case ReadHex16 fs (path_Join [SysfsUSBDevices, busID, devAttrDeviceClass]) of
        Inl err \<Rightarrow> if isMissing err then None else Some err
      | Inr classRaw \<Rightarrow> if classRaw = usbHubClass then Some [Dom ErrUnsupportedDevice] else None)"

text \<open>The name read from \<open>driver_name\<close>, else the target of the \<open>driver\<close> link.  An empty name file
  together with an unusable link yields the empty driver name without an error.\<close>

definition currentDriver :: "sysfs \<Rightarrow> string \<Rightarrow> go_error + string" where
  "currentDriver fs iface =
     (let ifaceDir = path_Join [SysfsUSBDevices, iface];
          rname = ReadLine fs (path_Join [ifaceDir, ''driver'', ifaceDriverNameFile]);
          nameErr = (case rname of Inl err \<Rightarrow> Some err | Inr _ \<Rightarrow> None);
          name = (case rname of Inl _ \<Rightarrow> [] | Inr n \<Rightarrow> n)
      in if nameErr = None \<and> name \<noteq> [] then Inr name
         else let rlink = readLink fs (path_Join [ifaceDir, ''driver'']);
                  linkErr = (case rlink of Inl err \<Rightarrow> Some err | Inr _ \<Rightarrow> None);
                  link = (case rlink of Inl _ \<Rightarrow> [] | Inr l \<Rightarrow> l)
           in if linkErr = None \<and> link \<noteq> [] then Inr (path_Base link)
              else case nameErr of
                None \<Rightarrow> Inr []
              | Some nerr \<Rightarrow>
                  if \<not> isMissing nerr then Inl nerr
                  else if (case linkErr of None \<Rightarrow> False | Some lerr \<Rightarrow> \<not> isMissing lerr) then Inl (the linkErr)
                  else if sfStat fs (fsPathFromAbs ifaceDir) = None then Inl [Dom ErrDeviceNotBound]
                  else Inl nerr)"

definition checkAlreadyExported :: "sysfs \<Rightarrow> string \<Rightarrow> go_error option" where
  "checkAlreadyExported fs busID =
     (case currentDriver fs busID of
        Inl err \<Rightarrow> if errors_Is err (Dom ErrDeviceNotBound) then None else Some err
      | Inr driver \<Rightarrow> if driver = usbipHostDriverName then Some [Dom ErrDeviceAlreadyBound] else None)"

definition preflightBind :: "sysfs \<Rightarrow> string \<Rightarrow> go_error option" where
  "preflightBind fs busID =
     (case Exporter_ModulesAvailable fs of
        Some err \<Rightarrow> Some err
      | None \<Rightarrow>
          (case refuseVHCIBindLoop fs busID of
             Some err \<Rightarrow> Some err
           | None \<Rightarrow>
               (case refuseHubDevice fs busID of
                  Some err \<Rightarrow> Some err
                | None \<Rightarrow> checkAlreadyExported fs busID)))"

definition preflightUnbind :: "sysfs \<Rightarrow> string \<Rightarrow> go_error option" where
  "preflightUnbind fs busID =
     (case Exporter_ModulesAvailable fs of
        Some err \<Rightarrow> Some err
      | None \<Rightarrow>
          (case currentDriver fs busID of
             Inl err \<Rightarrow> if errors_Is err (Dom ErrDeviceNotBound) then Some [Dom ErrDeviceNotBound] else Some err
           | Inr driver \<Rightarrow> if driver \<noteq> usbipHostDriverName then Some [Dom ErrDeviceNotBound] else None))"

section \<open>Network devices\<close>

definition iffUp :: u32 where "iffUp = 1"

definition netdev_flags :: "string \<Rightarrow> string" where
  "netdev_flags name = path_Join [''/sys/class/net'', name, ''flags'']"

definition addNetdevsFrom :: "sysfs \<Rightarrow> string list \<Rightarrow> string \<Rightarrow> string list" where
  "addNetdevsFrom fs seen netRoot =
     (case ListDirEntries fs netRoot of Inl _ \<Rightarrow> seen | Inr entries \<Rightarrow> fold List.insert entries seen)"

definition busIDInterfaceDirs :: "sysfs \<Rightarrow> string \<Rightarrow> string list" where
  "busIDInterfaceDirs fs busID =
     (case ListDirEntries fs SysfsUSBDevices of
        Inl _ \<Rightarrow> []
      | Inr entries \<Rightarrow> filter (\<lambda>e. HasPrefix e (busID @ '':'')) entries)"

definition collectNetdevNames :: "(string list \<Rightarrow> string list) \<Rightarrow> sysfs \<Rightarrow> string \<Rightarrow> string list" where
  "collectNetdevNames order fs busID =
     (let seen = addNetdevsFrom fs [] (path_Join [SysfsUSBDevices, busID, ''net'']);
          seen = fold (\<lambda>d seen. addNetdevsFrom fs seen (path_Join [SysfsUSBDevices, d, ''net'']))
                   (busIDInterfaceDirs fs busID) seen
      in order seen)"

definition readNetdevFlagsHex :: "sysfs \<Rightarrow> string \<Rightarrow> go_error + u32" where
  "readNetdevFlagsHex fs p =
     (case ReadLine fs p of
        Inl err \<Rightarrow> Inl err
      | Inr line \<Rightarrow>
          (case ParseUint (strip0x line) 16 32 of Inl perr \<Rightarrow> Inl perr | Inr v \<Rightarrow> Inr (of_nat v)))"

fun deactivate_loop :: "kernel_env \<Rightarrow> history \<Rightarrow> string list \<Rightarrow> history" where
  "deactivate_loop env hist [] = hist"
| "deactivate_loop env hist (name # names) =
     (case readNetdevFlagsHex (keFS env hist) (netdev_flags name) of
        Inl _ \<Rightarrow> deactivate_loop env hist names
      | Inr current \<Rightarrow>
          if current AND iffUp = 0 then deactivate_loop env hist names
          else let cleared = current AND NOT iffUp;
                   (_, hist) = sysfs_write env hist (netdev_flags name) (''0x'' @ format_base 16 (unat cleared))
            in deactivate_loop env hist names)"

definition deactivateNetdevs :: "(string list \<Rightarrow> string list) \<Rightarrow> kernel_env \<Rightarrow> history \<Rightarrow> string \<Rightarrow> history" where
  "deactivateNetdevs order env hist busID =
     deactivate_loop env hist (collectNetdevNames order (keFS env hist) busID)"

section \<open>Bind and Unbind\<close>

definition match_path :: string where "match_path = path_Join [SysfsUSBIPHostDriver, SysfsMatchBusID]"
definition bind_path :: string where "bind_path = path_Join [SysfsUSBIPHostDriver, SysfsDriverBind]"
definition unbind_path :: string where "unbind_path = path_Join [SysfsUSBIPHostDriver, SysfsDriverUnbind]"
definition rebind_path :: string where "rebind_path = path_Join [SysfsUSBIPHostDriver, SysfsRebind]"

definition usbipHostBindRetryAttempts :: nat where "usbipHostBindRetryAttempts = 5"

definition usbipHostBindRetryBackoffMs :: "nat list" where
  "usbipHostBindRetryBackoffMs = [0, 100, 200, 400, 800]"

definition unbindCurrentDeviceDriver :: "kernel_env \<Rightarrow> history \<Rightarrow> string \<Rightarrow> go_error option \<times> history" where
  "unbindCurrentDeviceDriver env hist busID =
     (case currentDriver (keFS env hist) busID of
        Inl err \<Rightarrow> if errors_Is err (Dom ErrDeviceNotBound) then (None, hist) else (Some err, hist)
      | Inr driver \<Rightarrow> writeClassified env hist (driverPath driver SysfsDriverUnbind) busID)"

fun bind_attempts ::
  "(string list \<Rightarrow> string list) \<Rightarrow> (nat \<Rightarrow> go_error option) \<Rightarrow> kernel_env \<Rightarrow> string \<Rightarrow> history
     \<Rightarrow> go_error option \<Rightarrow> nat list \<Rightarrow> go_error option \<times> history" where
  "bind_attempts order intr env busID hist lastErr [] = (lastErr, hist)"
| "bind_attempts order intr env busID hist lastErr (attempt # rest) =
     (let backoff = usbipHostBindRetryBackoffMs ! attempt
      in case (if 0 < backoff then intr attempt else None) of
        Some err \<Rightarrow> (Some err, hist)
      | None \<Rightarrow>
          (let hist = (if 0 < backoff then deactivateNetdevs order env hist busID else hist)
           in case writeClassified env hist bind_path busID of
             (None, hist) \<Rightarrow> (None, hist)
           | (Some err, hist) \<Rightarrow>
               if \<not> errors_Is err (Dom ErrDeviceAlreadyBound) then (Some err, hist)
               else bind_attempts order intr env busID hist (Some err) rest))"

definition bindUSBIPHostWithRetry ::
  "(string list \<Rightarrow> string list) \<Rightarrow> (nat \<Rightarrow> go_error option) \<Rightarrow> kernel_env \<Rightarrow> history \<Rightarrow> string
     \<Rightarrow> go_error option \<times> history" where
  "bindUSBIPHostWithRetry order intr env hist busID =
     bind_attempts order intr env busID hist None [0..<usbipHostBindRetryAttempts]"

definition rollbackBind :: "kernel_env \<Rightarrow> history \<Rightarrow> string \<Rightarrow> history" where
  "rollbackBind env hist busID =
     (let (_, hist) = writeClassified env hist match_path (MatchBusIDDelPrefix @ busID);
          (_, hist) = writeClassified env hist SysfsDriversProbe busID
      in hist)"

definition Bind ::
  "(string list \<Rightarrow> string list) \<Rightarrow> (nat \<Rightarrow> go_error option) \<Rightarrow> kernel_env \<Rightarrow> history \<Rightarrow> string
     \<Rightarrow> go_error option \<times> history" where
  "Bind order intr env hist busID =
     (case preflightBind (keFS env hist) busID of
        Some err \<Rightarrow> (Some err, hist)
      | None \<Rightarrow>
          (let hist = deactivateNetdevs order env hist busID
           in case writeClassified env hist match_path (MatchBusIDAddPrefix @ busID) of
             (Some err, hist) \<Rightarrow> (Some err, hist)
           | (None, hist) \<Rightarrow>
               (case unbindCurrentDeviceDriver env hist busID of
                  (Some err, hist) \<Rightarrow> (Some err, rollbackBind env hist busID)
                | (None, hist) \<Rightarrow>
                    (case bindUSBIPHostWithRetry order intr env hist busID of
                       (Some err, hist) \<Rightarrow> (Some err, rollbackBind env hist busID)
                     | (None, hist) \<Rightarrow> (None, hist)))))"

definition Unbind :: "kernel_env \<Rightarrow> history \<Rightarrow> string \<Rightarrow> go_error option \<times> history" where
  "Unbind env hist busID =
     (case preflightUnbind (keFS env hist) busID of
        Some err \<Rightarrow> (Some err, hist)
      | None \<Rightarrow>
          (let (_, hist) = sysfs_write env hist (device_attr busID SysfsUsbipSockfd) UsbipSockfdDisconnect;
               (unbindErr, hist) = writeClassified env hist unbind_path busID;
               (matchErr, hist) = writeClassified env hist match_path (MatchBusIDDelPrefix @ busID);
               (rebindErr, hist) = (if unbindErr = None then writeClassified env hist rebind_path busID
                                    else (None, hist))
           in (if unbindErr \<noteq> None then unbindErr
               else if matchErr \<noteq> None then matchErr
               else rebindErr, hist)))"

section \<open>Lemmas\<close>

lemma writeClassified_cases:
  obtains ans where "writeClassified env hist p d = (map_option (classifyFSErr p) ans, hist @ [(p, d, ans)])"
  by (simp add: writeClassified_def sysfs_write_def Let_def)

lemma writeClassified_answer:
  "writeClassified env hist p d = (err, hist') \<Longrightarrow>
     \<exists>ans. hist' = hist @ [(p, d, ans)] \<and> err = map_option (classifyFSErr p) ans"
  by (auto simp: writeClassified_def sysfs_write_def Let_def)

text \<open>Clearing the up flag of a network device is the only other write of a bind.\<close>

definition netdev_write :: "write_record \<Rightarrow> bool" where
  "netdev_write w \<longleftrightarrow> fst w \<in> range netdev_flags"

lemma netdev_write_flags [simp]: "netdev_write (netdev_flags name, d, a)"
  by (simp add: netdev_write_def)

lemma deactivate_loop_writes: "\<exists>n. deactivate_loop env hist names = hist @ n \<and> list_all netdev_write n"
proof (induction env hist names rule: deactivate_loop.induct)
  case (2 env hist name names)
  show ?case
  proof (cases "readNetdevFlagsHex (keFS env hist) (netdev_flags name)")
    case (Inl e)
    thus ?thesis
      using "2.IH"(1) by simp
  next
    case (Inr current)
    show ?thesis
    proof (cases "current AND iffUp = 0")
      case True
      thus ?thesis
        using "2.IH"(2) Inr by simp
    next
      case False
      let ?d = "''0x'' @ format_base 16 (unat (current AND NOT iffUp))"
      have "\<exists>n. deactivate_loop env (snd (sysfs_write env hist (netdev_flags name) ?d)) names
          = snd (sysfs_write env hist (netdev_flags name) ?d) @ n \<and> list_all netdev_write n"
        using "2.IH"(3) [OF Inr False refl] by (metis prod.collapse)
      moreover obtain a where "snd (sysfs_write env hist (netdev_flags name) ?d) = hist @ [(netdev_flags name, ?d, a)]"
        by (simp add: sysfs_write_def Let_def)
      ultimately obtain n where "deactivate_loop env hist (name # names) = hist @ ((netdev_flags name, ?d, a) # n)"
        "list_all netdev_write n"
        using Inr False by (auto simp: Let_def case_prod_beta)
      thus ?thesis
        by (intro exI [of _ "(netdev_flags name, ?d, a) # n"]) simp
    qed
  qed
qed simp

lemma deactivateNetdevs_writes: "\<exists>n. deactivateNetdevs order env hist busID = hist @ n \<and> list_all netdev_write n"
  unfolding deactivateNetdevs_def by (rule deactivate_loop_writes)

text \<open>The attempts as a list: the network devices taken down before each one, and its answer.\<close>

type_synonym attempt = "history \<times> go_error option"

definition attempts_trace :: "string \<Rightarrow> attempt list \<Rightarrow> history" where
  "attempts_trace busID ts = concat (map (\<lambda>(n, a). n @ [(bind_path, busID, a)]) ts)"

definition busy :: "go_error option \<Rightarrow> bool" where
  "busy a \<longleftrightarrow> (\<exists>e. a = Some e \<and> errors_Is (classifyFSErr bind_path e) (Dom ErrDeviceAlreadyBound))"

definition attempts_ok :: "attempt list \<Rightarrow> bool" where
  "attempts_ok ts \<longleftrightarrow> list_all (\<lambda>(n, a). list_all netdev_write n) ts \<and> list_all (\<lambda>(n, a). busy a) (butlast ts)"

lemma bind_attempts_step:
  obtains
    (interrupted) err where "bind_attempts order intr env busID hist lastErr (attempt # as) = (Some err, hist)"
  | (tried) n ans where "list_all netdev_write n"
      "bind_attempts order intr env busID hist lastErr (attempt # as) =
        (case ans of None \<Rightarrow> (None, hist @ n @ [(bind_path, busID, ans)])
         | Some e \<Rightarrow> if \<not> busy ans then (Some (classifyFSErr bind_path e), hist @ n @ [(bind_path, busID, ans)])
             else bind_attempts order intr env busID (hist @ n @ [(bind_path, busID, ans)])
                    (Some (classifyFSErr bind_path e)) as)"
proof -
  define backoff where "backoff = usbipHostBindRetryBackoffMs ! attempt"
  define h1 where "h1 = (if 0 < backoff then deactivateNetdevs order env hist busID else hist)"
  have "\<exists>n. h1 = hist @ n \<and> list_all netdev_write n"
    using deactivateNetdevs_writes [of order env hist busID] by (simp add: h1_def)
  then obtain n where n: "h1 = hist @ n" "list_all netdev_write n"
    by blast
  obtain ans where w: "writeClassified env h1 bind_path busID
      = (map_option (classifyFSErr bind_path) ans, h1 @ [(bind_path, busID, ans)])"
    by (rule writeClassified_cases)
  show thesis
  proof (cases "if 0 < backoff then intr attempt else None")
    case (Some err)
    thus thesis
      by (intro interrupted [of err]) (auto simp: backoff_def split: if_splits)
  next
    case None
    thus thesis
      using w n by (intro tried [of n ans]; cases ans)
        (simp_all add: Let_def backoff_def [symmetric] h1_def [symmetric] busy_def)
  qed
qed

lemma bind_attempts_trace:
  assumes "bind_attempts order intr env busID hist lastErr as = (res, hist')"
  shows "\<exists>ts. hist' = hist @ attempts_trace busID ts \<and> attempts_ok ts \<and> length ts \<le> length as
    \<and> (if res = None then ts = [] \<and> lastErr = None \<or> ts \<noteq> [] \<and> snd (last ts) = None
       else list_all (\<lambda>(n, a). a \<noteq> None) ts)"
  using assms
proof (induction as arbitrary: hist lastErr)
  case Nil
  thus ?case
    by (intro exI [of _ "[]"]) (simp add: attempts_trace_def attempts_ok_def)
next
  case (Cons attempt as)
  show ?case
  proof (cases rule: bind_attempts_step [of order intr env busID hist lastErr attempt as])
    case (interrupted err)
    thus ?thesis
      using Cons.prems by (intro exI [of _ "[]"]) (auto simp: attempts_trace_def attempts_ok_def)
  next
    case (tried n ans)
    show ?thesis
    proof (cases "busy ans")
      case False
      thus ?thesis
        using Cons.prems tried
        by (intro exI [of _ "[(n, ans)]"]) (cases ans; simp add: attempts_trace_def attempts_ok_def)
    next
      case True
      then obtain e where e: "ans = Some e"
        by (auto simp: busy_def)
      obtain ts where "hist' = (hist @ n @ [(bind_path, busID, ans)]) @ attempts_trace busID ts" "attempts_ok ts"
        "length ts \<le> length as" "if res = None then ts \<noteq> [] \<and> snd (last ts) = None
          else list_all (\<lambda>(n, a). a \<noteq> None) ts"
        using Cons.IH [of "hist @ n @ [(bind_path, busID, ans)]" "Some (classifyFSErr bind_path e)"] Cons.prems
          tried(2) e True by (auto split: if_splits)
      thus ?thesis
        using tried(1) e True
        by (intro exI [of _ "(n, ans) # ts"]) (auto simp: attempts_trace_def attempts_ok_def)
    qed
  qed
qed

text \<open>What a device must satisfy before anything is written.\<close>

definition bindable :: "sysfs \<Rightarrow> string \<Rightarrow> bool" where
  "bindable fs busID \<longleftrightarrow> Exporter_ModulesAvailable fs = None
     \<and> (\<forall>link. readLink fs (path_Join [SysfsUSBDevices, busID]) = Inr link \<longrightarrow> \<not> contains_str link vhciDevPathMarker)
     \<and> ReadHex16 fs (path_Join [SysfsUSBDevices, busID, devAttrDeviceClass]) \<noteq> Inr usbHubClass
     \<and> currentDriver fs busID \<noteq> Inr usbipHostDriverName"

lemma preflightBind_bindable: "preflightBind fs busID = None \<Longrightarrow> bindable fs busID"
  by (auto simp: preflightBind_def bindable_def refuseVHCIBindLoop_def refuseHubDevice_def checkAlreadyExported_def
      split: option.splits sum.splits if_splits)

text \<open>The writes a registered bind may make: take the device from its driver, try \<open>usbip-host\<close> up to five
  times while it is busy, and after a failure unregister and probe again.\<close>

definition bind_run :: "string \<Rightarrow> go_error option \<Rightarrow> history \<Rightarrow> attempt list \<Rightarrow> history \<Rightarrow> bool" where
  "bind_run busID res un ts rb \<longleftrightarrow>
     (un = [] \<or> (\<exists>d a. un = [(driverPath d SysfsDriverUnbind, busID, a)] \<and> (a \<noteq> None \<longrightarrow> ts = [] \<and> res \<noteq> None)))
     \<and> attempts_ok ts \<and> length ts \<le> 5
     \<and> (case res of
          None \<Rightarrow> ts \<noteq> [] \<and> snd (last ts) = None \<and> rb = []
        | Some _ \<Rightarrow> list_all (\<lambda>(n, a). a \<noteq> None) ts
            \<and> (\<exists>a1 a2. rb = [(match_path, MatchBusIDDelPrefix @ busID, a1), (SysfsDriversProbe, busID, a2)]))"

lemma rollbackBind_writes:
  "\<exists>a1 a2. rollbackBind env hist busID =
     hist @ [(match_path, MatchBusIDDelPrefix @ busID, a1), (SysfsDriversProbe, busID, a2)]"
  by (simp add: rollbackBind_def writeClassified_def sysfs_write_def Let_def)

lemma unbindCurrentDeviceDriver_writes:
  assumes "unbindCurrentDeviceDriver env hist busID = (err, hist')"
  shows "\<exists>un. hist' = hist @ un
    \<and> (un = [] \<or> (\<exists>d a. un = [(driverPath d SysfsDriverUnbind, busID, a)] \<and> (a = None \<longleftrightarrow> err = None)))"
  using assms writeClassified_answer
  by (fastforce simp: unbindCurrentDeviceDriver_def split: sum.splits if_splits)

text \<open>The first attempt does not wait, so success implies that something was tried.\<close>

lemma bind_first_tried:
  assumes "bindUSBIPHostWithRetry order intr env hist busID = (None, hist')"
  shows "hist' \<noteq> hist"
proof -
  obtain ans where w: "writeClassified env hist bind_path busID
      = (map_option (classifyFSErr bind_path) ans, hist @ [(bind_path, busID, ans)])"
    by (rule writeClassified_cases)
  have "[0..<5] = 0 # [1..<5::nat]"
    by (simp add: upt_conv_Cons)
  moreover have "usbipHostBindRetryBackoffMs ! 0 = 0"
    by (simp add: usbipHostBindRetryBackoffMs_def)
  ultimately have "bindUSBIPHostWithRetry order intr env hist busID =
      (case ans of None \<Rightarrow> (None, hist @ [(bind_path, busID, ans)])
       | Some e \<Rightarrow> if \<not> busy ans then (Some (classifyFSErr bind_path e), hist @ [(bind_path, busID, ans)])
           else bind_attempts order intr env busID (hist @ [(bind_path, busID, ans)])
                  (Some (classifyFSErr bind_path e)) [1..<5])"
    using w by (cases ans) (simp_all add: bindUSBIPHostWithRetry_def usbipHostBindRetryAttempts_def Let_def busy_def)
  thus ?thesis
    using assms bind_attempts_trace [of order intr env busID "hist @ [(bind_path, busID, ans)]" _ "[1..<5]" None hist']
    by (cases ans) (auto split: if_splits)
qed

lemma Bind_registered:
  assumes "unbindCurrentDeviceDriver env hist busID = (uerr, h2)"
    and "(res, hist') = (case uerr of
           Some err \<Rightarrow> (Some err, rollbackBind env h2 busID)
         | None \<Rightarrow> (case bindUSBIPHostWithRetry order intr env h2 busID of
               (Some err, h3) \<Rightarrow> (Some err, rollbackBind env h3 busID) | (None, h3) \<Rightarrow> (None, h3)))"
  shows "\<exists>un ts rb. hist' = hist @ un @ attempts_trace busID ts @ rb \<and> bind_run busID res un ts rb"
proof -
  obtain un where un: "h2 = hist @ un"
    "un = [] \<or> (\<exists>d a. un = [(driverPath d SysfsDriverUnbind, busID, a)] \<and> (a = None \<longleftrightarrow> uerr = None))"
    using unbindCurrentDeviceDriver_writes [OF assms(1)] by blast
  show ?thesis
  proof (cases uerr)
    case (Some err)
    obtain rb where "rollbackBind env h2 busID = h2 @ rb"
      "\<exists>a1 a2. rb = [(match_path, MatchBusIDDelPrefix @ busID, a1), (SysfsDriversProbe, busID, a2)]"
      using rollbackBind_writes by blast
    thus ?thesis
      using Some assms(2) un
      by (intro exI [of _ un] exI [of _ "[]"] exI [of _ rb]) (auto simp: bind_run_def attempts_ok_def attempts_trace_def)
  next
    case None
    obtain bres h3 where b: "bindUSBIPHostWithRetry order intr env h2 busID = (bres, h3)"
      by fastforce
    obtain ts where ts: "h3 = h2 @ attempts_trace busID ts" "attempts_ok ts" "length ts \<le> 5"
      "if bres = None then ts = [] \<or> ts \<noteq> [] \<and> snd (last ts) = None else list_all (\<lambda>(n, a). a \<noteq> None) ts"
      using bind_attempts_trace [OF b [unfolded bindUSBIPHostWithRetry_def]]
      by (auto simp: usbipHostBindRetryAttempts_def split: if_splits)
    have tried: "ts \<noteq> []" if "bres = None"
      using b that ts(1) bind_first_tried [of order intr env h2 busID h3] by (auto simp: attempts_trace_def)
    show ?thesis
    proof (cases bres)
      case ok: None
      thus ?thesis
        using assms(2) None b un ts tried
        by (intro exI [of _ un] exI [of _ ts] exI [of _ "[]"]) (auto simp: bind_run_def)
    next
      case (Some err)
      obtain rb where "rollbackBind env h3 busID = h3 @ rb"
        "\<exists>a1 a2. rb = [(match_path, MatchBusIDDelPrefix @ busID, a1), (SysfsDriversProbe, busID, a2)]"
        using rollbackBind_writes by blast
      thus ?thesis
        using Some assms(2) None b un ts
        by (intro exI [of _ un] exI [of _ ts] exI [of _ rb]) (auto simp: bind_run_def)
    qed
  qed
qed

text \<open>C16: Bind is all or nothing.  A device that a guard refuses (a missing module, a device that is itself
  attached through vhci, a hub, one already exported) is not touched.  Otherwise the bus id is
  registered first; when that fails nothing else is written.  Once it is registered, the device is
  taken from its driver and offered to usbip-host at most five times, again only while it is busy:
  success means that the last offer was accepted, and on every failure no offer was accepted, the
  registration is removed and the device is probed again.\<close>
theorem bind_all_or_nothing:
  assumes "Bind order intr env hist busID = (res, hist')"
  shows "(hist' = hist \<and> res \<noteq> None)
    \<or> bindable (keFS env hist) busID
      \<and> (\<exists>n0 a. list_all netdev_write n0
           \<and> (if a \<noteq> None then hist' = hist @ n0 @ [(match_path, MatchBusIDAddPrefix @ busID, a)] \<and> res \<noteq> None
              else \<exists>un ts rb. hist' = hist @ n0 @ (match_path, MatchBusIDAddPrefix @ busID, a) # un
                                 @ attempts_trace busID ts @ rb \<and> bind_run busID res un ts rb))"
proof (cases "preflightBind (keFS env hist) busID")
  case None
  obtain n0 where n0: "deactivateNetdevs order env hist busID = hist @ n0" "list_all netdev_write n0"
    using deactivateNetdevs_writes by blast
  obtain a where a: "writeClassified env (hist @ n0) match_path (MatchBusIDAddPrefix @ busID)
      = (map_option (classifyFSErr match_path) a, (hist @ n0) @ [(match_path, MatchBusIDAddPrefix @ busID, a)])"
    by (rule writeClassified_cases)
  show ?thesis
  proof (cases a)
    case (Some e)
    thus ?thesis
      using assms None n0 a preflightBind_bindable [OF None]
      by (intro disjI2 conjI exI [of _ n0] exI [of _ a]) (auto simp: Bind_def Let_def)
  next
    case ok: None
    let ?h = "hist @ n0 @ [(match_path, MatchBusIDAddPrefix @ busID, None)]"
    obtain uerr h2 where u: "unbindCurrentDeviceDriver env ?h busID = (uerr, h2)"
      by fastforce
    have r: "(res, hist') = (case uerr of
           Some err \<Rightarrow> (Some err, rollbackBind env h2 busID)
         | None \<Rightarrow> (case bindUSBIPHostWithRetry order intr env h2 busID of
               (Some err, h3) \<Rightarrow> (Some err, rollbackBind env h3 busID) | (None, h3) \<Rightarrow> (None, h3)))"
      using assms None n0 a ok u by (simp add: Bind_def Let_def)
    obtain un ts rb where "hist' = ?h @ un @ attempts_trace busID ts @ rb" "bind_run busID res un ts rb"
      using Bind_registered [OF u r] by blast
    thus ?thesis
      using n0 ok preflightBind_bindable [OF None]
      by (intro disjI2 conjI exI [of _ n0] exI [of _ a]) auto
  qed
next
  case (Some e)
  hence "res = Some e" "hist' = hist"
    using assms by (simp_all add: Bind_def)
  thus ?thesis
    by simp
qed

text \<open>Unbind touches only a device whose driver is usbip-host.  It ends the session, takes the device
  from usbip-host, removes the registration whether or not that worked, and asks for the old driver
  exactly when usbip-host let go; the result is the first error of these three writes.\<close>
theorem unbind_protocol:
  assumes "Unbind env hist busID = (res, hist')"
  shows "(hist' = hist \<and> res \<noteq> None)
    \<or> currentDriver (keFS env hist) busID = Inr usbipHostDriverName
      \<and> (\<exists>s u m r. hist' = hist @ [(device_attr busID SysfsUsbipSockfd, UsbipSockfdDisconnect, s),
               (unbind_path, busID, u), (match_path, MatchBusIDDelPrefix @ busID, m)]
               @ (if u = None then [(rebind_path, busID, r)] else [])
           \<and> (res = None \<longleftrightarrow> u = None \<and> m = None \<and> r = None)
           \<and> (\<forall>e. u = Some e \<longrightarrow> res = Some (classifyFSErr unbind_path e)))"
proof (cases "preflightUnbind (keFS env hist) busID")
  case None
  have drv: "currentDriver (keFS env hist) busID = Inr usbipHostDriverName"
    using None by (auto simp: preflightUnbind_def split: option.splits sum.splits if_splits)
  define h1 where "h1 = snd (sysfs_write env hist (device_attr busID SysfsUsbipSockfd) UsbipSockfdDisconnect)"
  obtain s where s: "h1 = hist @ [(device_attr busID SysfsUsbipSockfd, UsbipSockfdDisconnect, s)]"
    by (simp add: h1_def sysfs_write_def Let_def)
  obtain u where u: "writeClassified env h1 unbind_path busID
      = (map_option (classifyFSErr unbind_path) u, h1 @ [(unbind_path, busID, u)])"
    by (rule writeClassified_cases)
  let ?h2 = "h1 @ [(unbind_path, busID, u)]"
  obtain m where m: "writeClassified env ?h2 match_path (MatchBusIDDelPrefix @ busID)
      = (map_option (classifyFSErr match_path) m, ?h2 @ [(match_path, MatchBusIDDelPrefix @ busID, m)])"
    by (rule writeClassified_cases)
  let ?h3 = "?h2 @ [(match_path, MatchBusIDDelPrefix @ busID, m)]"
  obtain r where r: "writeClassified env ?h3 rebind_path busID
      = (map_option (classifyFSErr rebind_path) r, ?h3 @ [(rebind_path, busID, r)])"
    by (rule writeClassified_cases)
  have out: "res = (if u \<noteq> None then map_option (classifyFSErr unbind_path) u
       else if m \<noteq> None then map_option (classifyFSErr match_path) m else map_option (classifyFSErr rebind_path) r)"
    "hist' = ?h3 @ (if u = None then [(rebind_path, busID, r)] else [])"
    using assms None u m r by (cases u; force simp: Unbind_def Let_def case_prod_beta h1_def [symmetric])+
  have "res = None \<longleftrightarrow> u = None \<and> m = None \<and> r = None" "\<forall>e. u = Some e \<longrightarrow> res = Some (classifyFSErr unbind_path e)"
    using out(1) by auto
  moreover have "hist' = hist @ [(device_attr busID SysfsUsbipSockfd, UsbipSockfdDisconnect, s),
      (unbind_path, busID, u), (match_path, MatchBusIDDelPrefix @ busID, m)]
      @ (if u = None then [(rebind_path, busID, r)] else [])"
    using out(2) s by simp
  ultimately show ?thesis
    using drv by blast
next
  case (Some e)
  hence "res = Some e" "hist' = hist"
    using assms by (simp_all add: Unbind_def)
  thus ?thesis
    by simp
qed

section \<open>An example\<close>

text \<open>A plain device under its own driver; usbip-host is busy once, then takes it.\<close>

definition bind_fs :: "string \<Rightarrow> sysfs" where
  "bind_fs driver = \<lparr>sfOpen = (\<lambda>p. if p = ''sys/bus/usb/devices/1-1/driver/driver_name'' then None
                             else Some [Io FsErrNotExist]),
     sfRead = (\<lambda>p. if p = ''sys/bus/usb/devices/1-1/driver/driver_name'' then Inr driver
                   else Inl [Io FsErrNotExist]),
     sfReadDir = (\<lambda>_. Inl [Io FsErrNotExist]), sfStat = (\<lambda>_. None),
     sfReadLink = (\<lambda>_. Inl [Io FsErrNotExist])\<rparr>"

definition bind_env :: "string \<Rightarrow> kernel_env" where
  "bind_env driver = \<lparr>keFS = (\<lambda>_. bind_fs driver),
     keWrite = (\<lambda>h p d. if p = bind_path \<and> (\<forall>w\<in>set h. fst w \<noteq> bind_path) then Some [Errno EBUSY] else None)\<rparr>"

lemma sample_driver:
  assumes "d = ''usb'' \<or> d = usbipHostDriverName"
  shows "currentDriver (bind_fs d) ''1-1'' = Inr d"
proof -
  have "fsPathFromAbs (path_Join [path_Join [SysfsUSBDevices, ''1-1''], ''driver'', ifaceDriverNameFile]) =
      ''sys/bus/usb/devices/1-1/driver/driver_name''"
    by (simp add: path_Join_def path_Clean_def sysfs_paths fsPathFromAbs_def ifaceDriverNameFile_def)
  moreover have "TrimSpace d = d" "d \<noteq> []"
    using assms by (auto simp: usbipHostDriverName_def space_byte_def intro!: TrimSpace_plain)
  ultimately show ?thesis
    by (simp add: currentDriver_def ReadLine_def readFileBytes_def bind_fs_def Let_def)
qed

lemma sample_bind_modules: "Exporter_ModulesAvailable (bind_fs d) = None"
  by (simp add: Exporter_ModulesAvailable_def bind_fs_def)

lemma sample_preflight: "preflightBind (bind_fs ''usb'') ''1-1'' = None"
proof -
  have "refuseVHCIBindLoop (bind_fs ''usb'') ''1-1'' = None"
    by (simp add: refuseVHCIBindLoop_def readLink_def bind_fs_def Is_NotExist_def)
  moreover have "refuseHubDevice (bind_fs ''usb'') ''1-1'' = None"
    by (simp add: refuseHubDevice_def ReadHex16_def ReadLine_def readFileBytes_def bind_fs_def path_Join_def
        path_Clean_def sysfs_paths fsPathFromAbs_def devAttrDeviceClass_def classifyFSErr_def classifyErrAny_def
        Is_NotExist_def ClassifyErrno_def classifyErrnoKind_def classifyENOENT_def classifyPath_def under_def
        HasPrefix_def errnos isMissing_def)
  ultimately show ?thesis
    by (simp add: preflightBind_def sample_bind_modules checkAlreadyExported_def sample_driver usbipHostDriverName_def)
qed

lemma no_netdevs: "deactivateNetdevs (\<lambda>xs. xs) (bind_env d) hist ''1-1'' = hist"
  by (simp add: deactivateNetdevs_def collectNetdevNames_def addNetdevsFrom_def busIDInterfaceDirs_def
      ListDirEntries_def bind_env_def bind_fs_def)

lemma sample_bind:
  "Bind (\<lambda>xs. xs) (\<lambda>_. None) (bind_env ''usb'') [] ''1-1'' =
     (None, [(match_path, ''add 1-1'', None), (driverPath ''usb'' SysfsDriverUnbind, ''1-1'', None),
             (bind_path, ''1-1'', Some [Errno EBUSY]), (bind_path, ''1-1'', None)])"
proof -
  have paths: "match_path \<noteq> bind_path" "driverPath ''usb'' SysfsDriverUnbind \<noteq> bind_path"
    by (simp_all add: match_path_def bind_path_def driverPath_def path_Join_def path_Clean_def sysfs_paths
        usbDriversRoot_def usbDriversSubdir_def)
  have busy_once: "keWrite (bind_env ''usb'') h bind_path d =
      (if \<forall>w\<in>set h. fst w \<noteq> bind_path then Some [Errno EBUSY] else None)" for h d
    by (simp add: bind_env_def)
  have "errors_Is (classifyFSErr bind_path [Errno EBUSY]) (Dom ErrDeviceAlreadyBound)"
    by (simp add: classifyFSErr_def classifyErrAny_def ClassifyErrno_def classifyErrnoKind_def errnos)
  moreover have "[0..<5] = 0 # 1 # [2..<5::nat]"
    by (simp add: upt_conv_Cons)
  ultimately have "bindUSBIPHostWithRetry (\<lambda>xs. xs) (\<lambda>_. None) (bind_env ''usb'')
      [(match_path, ''add 1-1'', None), (driverPath ''usb'' SysfsDriverUnbind, ''1-1'', None)] ''1-1'' =
      (None, [(match_path, ''add 1-1'', None), (driverPath ''usb'' SysfsDriverUnbind, ''1-1'', None),
             (bind_path, ''1-1'', Some [Errno EBUSY]), (bind_path, ''1-1'', None)])"
    using paths
    by (simp add: busy_once bindUSBIPHostWithRetry_def usbipHostBindRetryAttempts_def no_netdevs writeClassified_def
        sysfs_write_def usbipHostBindRetryBackoffMs_def Let_def)
  moreover have "keFS (bind_env ''usb'') h = bind_fs ''usb''" "p \<noteq> bind_path \<Longrightarrow> keWrite (bind_env ''usb'') h p d = None"
    for h p d
    by (simp_all add: bind_env_def)
  ultimately show ?thesis
    using paths
    by (simp add: Bind_def sample_preflight no_netdevs writeClassified_def sysfs_write_def MatchBusIDAddPrefix_def
        unbindCurrentDeviceDriver_def sample_driver)
qed

theorem bind_all_or_nothing_witness: "bindable (bind_fs ''usb'') ''1-1''"
  using bind_all_or_nothing [OF sample_bind] by (simp add: bind_env_def)

lemma sample_unbind:
  "Unbind (bind_env usbipHostDriverName) [] ''1-1'' =
     (None, [(device_attr ''1-1'' SysfsUsbipSockfd, UsbipSockfdDisconnect, None), (unbind_path, ''1-1'', None),
             (match_path, MatchBusIDDelPrefix @ ''1-1'', None), (rebind_path, ''1-1'', None)])"
proof -
  have "device_attr ''1-1'' SysfsUsbipSockfd \<noteq> bind_path" "unbind_path \<noteq> bind_path" "match_path \<noteq> bind_path"
    "rebind_path \<noteq> bind_path"
    by (simp_all add: match_path_def bind_path_def unbind_path_def rebind_path_def device_attr_def path_Join_def
        path_Clean_def sysfs_paths)
  moreover have "keFS (bind_env d) h = bind_fs d" "p \<noteq> bind_path \<Longrightarrow> keWrite (bind_env d) h p x = None" for d h p x
    by (simp_all add: bind_env_def)
  ultimately show ?thesis
    by (simp add: Unbind_def preflightUnbind_def sample_bind_modules sample_driver writeClassified_def sysfs_write_def
        Let_def)
qed

theorem unbind_protocol_witness: "currentDriver (bind_fs usbipHostDriverName) ''1-1'' = Inr usbipHostDriverName"
  using unbind_protocol [OF sample_unbind] by (simp add: bind_env_def)

end
