(* ===== verification/Kernel_Device.thy ===== *)
theory Kernel_Device
  imports Kernel_Bind BusID Wire_Import
begin

text \<open>
  \<open>internal/adapter/kernel/device.go\<close>: the local USB devices as sysfs describes them, and which of
  them can be exported.  What is read is checked against the width of its field before it is
  narrowed; \<open>listed_devices_sound\<close> shows that a listed device can always be put on the wire.
\<close>

section \<open>Attributes\<close>

definition devAttrIDVendor :: string where "devAttrIDVendor = ''idVendor''"
definition devAttrIDProduct :: string where "devAttrIDProduct = ''idProduct''"
definition devAttrBcdDevice :: string where "devAttrBcdDevice = ''bcdDevice''"
definition devAttrBusnum :: string where "devAttrBusnum = ''busnum''"
definition devAttrDevnum :: string where "devAttrDevnum = ''devnum''"
definition devAttrSpeed :: string where "devAttrSpeed = ''speed''"
definition devAttrDeviceSub :: string where "devAttrDeviceSub = ''bDeviceSubClass''"
definition devAttrDeviceProto :: string where "devAttrDeviceProto = ''bDeviceProtocol''"
definition devAttrConfigValue :: string where "devAttrConfigValue = ''bConfigurationValue''"
definition devAttrNumConfigs :: string where "devAttrNumConfigs = ''bNumConfigurations''"
definition devAttrNumInterfaces :: string where "devAttrNumInterfaces = ''bNumInterfaces''"
definition devAttrManufacturer :: string where "devAttrManufacturer = ''manufacturer''"
definition devAttrProduct :: string where "devAttrProduct = ''product''"
definition ifaceAttrClass :: string where "ifaceAttrClass = ''bInterfaceClass''"
definition ifaceAttrSubClass :: string where "ifaceAttrSubClass = ''bInterfaceSubClass''"
definition ifaceAttrProtocol :: string where "ifaceAttrProtocol = ''bInterfaceProtocol''"
definition ifaceAttrAltSet :: string where "ifaceAttrAltSet = ''bAlternateSetting''"

definition byteMax :: nat where "byteMax = 0xFF"
definition u16Max :: nat where "u16Max = 0xFFFF"
definition defaultConfigIndex :: nat where "defaultConfigIndex = 1"

definition isBusIDLike :: "string \<Rightarrow> bool" where
  "isBusIDLike name = busIDPattern name"

definition narrowByteErr :: "u16 \<Rightarrow> go_error + u8" where
  "narrowByteErr v = (if byteMax < unat v then Inl [Kern ErrSysfsValueOutOfRange] else Inr (ucast v))"

definition readU16Attr :: "sysfs \<Rightarrow> string \<Rightarrow> go_error + u16" where
  "readU16Attr fs path =
     (case ReadUint fs path of
        Inl err \<Rightarrow> Inl err
      | Inr v \<Rightarrow> if u16Max < unat v then Inl [Kern ErrSysfsValueOutOfRange] else Inr (ucast v))"

text \<open>An empty attribute (an unconfigured device) reads as 0.\<close>

definition readByteAttr :: "sysfs \<Rightarrow> string \<Rightarrow> string \<Rightarrow> go_error + u8" where
  "readByteAttr fs base attr =
     (case ReadLine fs (path_Join [base, attr]) of
        Inl err \<Rightarrow> Inl err
      | Inr line \<Rightarrow>
          if line = [] then Inr 0
          else case ParseUint line 10 32 of
            Inl perr \<Rightarrow> Inl perr
          | Inr v \<Rightarrow> if byteMax < v then Inl [Kern ErrSysfsValueOutOfRange] else Inr (of_nat v))"

definition readOptionalStringAttr :: "sysfs \<Rightarrow> string \<Rightarrow> string" where
  "readOptionalStringAttr fs p = (case ReadLine fs p of Inl _ \<Rightarrow> [] | Inr s \<Rightarrow> s)"

section \<open>Sequencing reads\<close>

text \<open>\<open>if err != nil { return err }\<close> between two reads.\<close>

definition then_read :: "go_error + 'a \<Rightarrow> ('a \<Rightarrow> go_error + 'b) \<Rightarrow> go_error + 'b" where
  "then_read r f = (case r of Inl err \<Rightarrow> Inl err | Inr x \<Rightarrow> f x)"

lemma then_read_Inr: "then_read r f = Inr y \<longleftrightarrow> (\<exists>x. r = Inr x \<and> f x = Inr y)"
  by (cases r) (simp_all add: then_read_def)

section \<open>Reading a device\<close>

record deviceNumbers =
  dnBus :: u16
  dnDev :: u16
  dnSpeed :: Speed

record deviceClasses =
  dcClass :: u8
  dcSubclass :: u8
  dcProtocol :: u8
  dcConfigValue :: u8
  dcNumConfigs :: u8
  dcNumInterfaces :: u8

definition readDeviceNumbers :: "sysfs \<Rightarrow> string \<Rightarrow> go_error + deviceNumbers" where
  "readDeviceNumbers fs base =
     then_read (readU16Attr fs (path_Join [base, devAttrBusnum])) (\<lambda>busnum.
     then_read (readU16Attr fs (path_Join [base, devAttrDevnum])) (\<lambda>devnum.
     then_read (ReadSpeedAttr fs (path_Join [base, devAttrSpeed])) (\<lambda>speed.
     Inr \<lparr>dnBus = busnum, dnDev = devnum, dnSpeed = speed\<rparr>)))"

definition readDeviceClasses :: "sysfs \<Rightarrow> string \<Rightarrow> go_error + deviceClasses" where
  "readDeviceClasses fs base =
     then_read (ReadHex16 fs (path_Join [base, devAttrDeviceClass])) (\<lambda>classRaw.
     then_read (narrowByteErr classRaw) (\<lambda>class.
     then_read (ReadHex16 fs (path_Join [base, devAttrDeviceSub])) (\<lambda>subclassRaw.
     then_read (narrowByteErr subclassRaw) (\<lambda>subclass.
     then_read (ReadHex16 fs (path_Join [base, devAttrDeviceProto])) (\<lambda>protocolRaw.
     then_read (narrowByteErr protocolRaw) (\<lambda>protocol.
     then_read (readByteAttr fs base devAttrConfigValue) (\<lambda>configValue.
     then_read (readByteAttr fs base devAttrNumConfigs) (\<lambda>numConfigs.
     then_read (readByteAttr fs base devAttrNumInterfaces) (\<lambda>numInterfaces.
     Inr \<lparr>dcClass = class, dcSubclass = subclass, dcProtocol = protocol, dcConfigValue = configValue,
          dcNumConfigs = numConfigs, dcNumInterfaces = numInterfaces\<rparr>)))))))))"

definition readDeviceCore :: "sysfs \<Rightarrow> string \<Rightarrow> string \<Rightarrow> go_error + Device" where
  "readDeviceCore fs base busID =
     then_read (ReadHex16 fs (path_Join [base, devAttrIDVendor])) (\<lambda>vendor.
     then_read (ReadHex16 fs (path_Join [base, devAttrIDProduct])) (\<lambda>product.
     then_read (ReadHex16 fs (path_Join [base, devAttrBcdDevice])) (\<lambda>bcd.
     then_read (readDeviceNumbers fs base) (\<lambda>numbers.
     then_read (readDeviceClasses fs base) (\<lambda>classes.
     Inr \<lparr>dPath = base, dBusID = busID, dBusNum = dnBus numbers, dDevNum = dnDev numbers,
          dSpeed = dnSpeed numbers, dVendorID = vendor, dProductID = product, dBcdDevice = bcd,
          dClass = dcClass classes, dSubclass = dcSubclass classes, dProtocol = dcProtocol classes,
          dConfigValue = dcConfigValue classes, dNumConfigs = dcNumConfigs classes,
          dNumInterfaces = dcNumInterfaces classes,
          dManufacturer = readOptionalStringAttr fs (path_Join [base, devAttrManufacturer]),
          dProduct = readOptionalStringAttr fs (path_Join [base, devAttrProduct]),
          dInterfaces = []\<rparr>)))))"

definition readInterface :: "sysfs \<Rightarrow> string \<Rightarrow> go_error + Interface" where
  "readInterface fs base =
     then_read (ReadHex16 fs (path_Join [base, ifaceAttrClass])) (\<lambda>classRaw.
     then_read (narrowByteErr classRaw) (\<lambda>class.
     then_read (ReadHex16 fs (path_Join [base, ifaceAttrSubClass])) (\<lambda>subclassRaw.
     then_read (narrowByteErr subclassRaw) (\<lambda>subclass.
     then_read (ReadHex16 fs (path_Join [base, ifaceAttrProtocol])) (\<lambda>protocolRaw.
     then_read (narrowByteErr protocolRaw) (\<lambda>protocol.
     then_read (ReadUint fs (path_Join [base, ifaceAttrAltSet])) (\<lambda>altRaw.
     if byteMax < unat altRaw then Inl [Kern ErrSysfsValueOutOfRange]
     else Inr \<lparr>iClass = class, iSubclass = subclass, iProtocol = protocol, iAlt = ucast altRaw\<rparr>)))))))"

definition ifaceSuffix :: "string \<Rightarrow> nat \<Rightarrow> nat \<Rightarrow> string" where
  "ifaceSuffix busID cfg i = busID @ '':'' @ FormatUint cfg @ ''.'' @ FormatUint i"

fun read_ifaces :: "sysfs \<Rightarrow> string \<Rightarrow> nat \<Rightarrow> nat list \<Rightarrow> go_error + Interface list" where
  "read_ifaces fs busID cfg [] = Inr []"
| "read_ifaces fs busID cfg (i # is) =
     (case readInterface fs (path_Join [SysfsUSBDevices, ifaceSuffix busID cfg i]) of
        Inl err \<Rightarrow> if isMissing err then read_ifaces fs busID cfg is else Inl err
      | Inr iface \<Rightarrow> then_read (read_ifaces fs busID cfg is) (\<lambda>ifaces. Inr (iface # ifaces)))"

definition readInterfaces :: "sysfs \<Rightarrow> string \<Rightarrow> u8 \<Rightarrow> u8 \<Rightarrow> go_error + Interface list" where
  "readInterfaces fs busID configValue count =
     (let cfg = (if configValue = 0 then defaultConfigIndex else unat configValue)
      in read_ifaces fs busID cfg [0..<unat count])"

definition readDevice :: "sysfs \<Rightarrow> string \<Rightarrow> go_error + Device" where
  "readDevice fs busID =
     then_read (readDeviceCore fs (path_Join [SysfsUSBDevices, busID]) busID) (\<lambda>core.
     then_read (readInterfaces fs busID (dConfigValue core) (dNumInterfaces core)) (\<lambda>ifaces.
     Inr (core\<lparr>dInterfaces := ifaces\<rparr>)))"

section \<open>Listing\<close>

fun list_loop :: "sysfs \<Rightarrow> string list \<Rightarrow> Device list" where
  "list_loop fs [] = []"
| "list_loop fs (name # names) =
     (if \<not> isBusIDLike name then list_loop fs names
      else case readDevice fs name of
        Inl _ \<Rightarrow> list_loop fs names
      | Inr d \<Rightarrow> d # list_loop fs names)"

definition ListLocalDevices :: "sysfs \<Rightarrow> go_error + Device list" where
  "ListLocalDevices fs =
     (case Exporter_ModulesAvailable fs of
        Some err \<Rightarrow> Inl err
      | None \<Rightarrow> (case ListDirEntries fs SysfsUSBDevices of
           Inl err \<Rightarrow> Inl err
         | Inr names \<Rightarrow> Inr (list_loop fs names)))"

definition isExportable :: "sysfs \<Rightarrow> string \<Rightarrow> bool" where
  "isExportable fs busID =
     (case currentDriver fs busID of
        Inl _ \<Rightarrow> False
      | Inr driver \<Rightarrow>
          if driver \<noteq> usbipHostDriverName then False
          else case ReadUint fs (path_Join [SysfsUSBDevices, busID, SysfsUsbipStatus]) of
            Inl _ \<Rightarrow> False
          | Inr status \<Rightarrow> status \<noteq> usbipStatusUsed)"

definition ListExportedDevices :: "sysfs \<Rightarrow> go_error + Device list" where
  "ListExportedDevices fs =
     (case ListLocalDevices fs of
        Inl err \<Rightarrow> Inl err
      | Inr ds \<Rightarrow> Inr (filter (\<lambda>d. isExportable fs (dBusID d)) ds))"

section \<open>Lemmas\<close>

lemma read_ifaces_length: "read_ifaces fs busID cfg is = Inr ifaces \<Longrightarrow> length ifaces \<le> length is"
  by (induction fs busID cfg "is" arbitrary: ifaces rule: read_ifaces.induct)
    (fastforce simp: then_read_Inr le_Suc_eq split: sum.splits if_splits)+

lemma ReadSpeedAttr_known: "ReadSpeedAttr fs p = Inr s \<Longrightarrow> Speed_IsKnown s"
  by (auto simp: ReadSpeedAttr_def sysfsMbpsToSpeed_def Speed_IsKnown_def split: sum.splits option.splits if_splits)

lemma readDevice_fields:
  assumes "readDevice fs busID = Inr d"
  shows "dBusID d = busID \<and> dPath d = path_Join [SysfsUSBDevices, busID] \<and> Speed_IsKnown (dSpeed d)
    \<and> length (dInterfaces d) \<le> unat (dNumInterfaces d)"
proof -
  obtain core ifaces where core: "readDeviceCore fs (path_Join [SysfsUSBDevices, busID]) busID = Inr core"
    and ifaces: "readInterfaces fs busID (dConfigValue core) (dNumInterfaces core) = Inr ifaces"
    and d: "d = core\<lparr>dInterfaces := ifaces\<rparr>"
    using assms by (auto simp: readDevice_def then_read_Inr)
  have "dBusID core = busID" "dPath core = path_Join [SysfsUSBDevices, busID]" "Speed_IsKnown (dSpeed core)"
    using core by (auto simp: readDeviceCore_def readDeviceNumbers_def then_read_Inr dest: ReadSpeedAttr_known)
  moreover have "length ifaces \<le> unat (dNumInterfaces core)"
    using ifaces read_ifaces_length by (fastforce simp: readInterfaces_def)
  ultimately show ?thesis
    by (simp add: d)
qed

lemma list_loop_sound:
  assumes "d \<in> set (list_loop fs names)"
  shows "dBusID d \<in> set names \<and> isBusIDLike (dBusID d) \<and> readDevice fs (dBusID d) = Inr d"
  using assms
proof (induction fs names rule: list_loop.induct)
  case (2 fs name names)
  thus ?case
    by (cases "readDevice fs name") (auto dest: readDevice_fields split: if_splits)
qed simp

lemma list_loop_complete:
  "name \<in> set names \<Longrightarrow> isBusIDLike name \<Longrightarrow> readDevice fs name = Inr d \<Longrightarrow> d \<in> set (list_loop fs names)"
  by (induction fs names rule: list_loop.induct) (auto split: sum.splits)

lemma busid_lang_plain:
  assumes "busid_lang s"
  shows "plain_name s" "printable s"
proof -
  have "CHR ''-'' \<in> set s" "s \<noteq> []"
    using assms by (auto simp: busid_lang_def topology_text_def)
  moreover have "\<not> is_digit (CHR ''/'')"
    by (simp add: is_digit_def less_eq_char_def)
  hence "CHR ''/'' \<notin> set s"
    using busid_lang_chars [OF assms] by fastforce
  ultimately show "plain_name s"
    by (auto simp: plain_name_def)
  show "printable s"
    using wire_rune_of_busid [OF assms] by (simp add: printable_def wire_rune_printable)
qed

lemma device_dir:
  assumes "plain_name b"
  shows "path_Join [SysfsUSBDevices, b] = SysfsUSBDevices @ ''/'' @ b"
proof -
  have "clean_comps (rev dev_comps) [b] = dev_comps @ [b]"
    using assms by (subst clean_comps_plain) simp_all
  thus ?thesis
    using device_path_split [of "[b]"] assms by (simp add: plain_name_def SysfsUSBDevices_def dev_comps_def)
qed

lemma set_sort_strings: "set (sort_strings xs) = set xs"
proof -
  have "set (insert_sorted x ys) = insert x (set ys)" for x ys
    by (induction x ys rule: insert_sorted.induct) auto
  thus ?thesis
    unfolding sort_strings_def by (induction xs) simp_all
qed

lemma ListLocalDevices_Inr:
  assumes "ListLocalDevices fs = Inr ds"
  obtains entries where "sfReadDir fs (fsPathFromAbs SysfsUSBDevices) = Inr entries"
    "ds = list_loop fs (sort_strings (map fst entries))"
  using assms by (auto simp: ListLocalDevices_def ListDirEntries_def split: option.splits sum.splits)

section \<open>Properties\<close>

lemma listed_device_facts:
  assumes "ListLocalDevices fs = Inr ds" "d \<in> set ds"
  shows "busid_lang (dBusID d) \<and> dPath d = SysfsUSBDevices @ ''/'' @ dBusID d \<and> Speed_IsKnown (dSpeed d)
    \<and> length (dInterfaces d) \<le> unat (dNumInterfaces d) \<and> (length (dBusID d) < BusIDSize \<longrightarrow> device_ok d)"
proof -
  obtain names where "d \<in> set (list_loop fs names)"
    using ListLocalDevices_Inr [OF assms(1)] assms(2) by metis
  hence lang: "busid_lang (dBusID d)" and rd: "readDevice fs (dBusID d) = Inr d"
    using list_loop_sound by (auto simp: isBusIDLike_def busIDPattern_lang)
  have path: "dPath d = SysfsUSBDevices @ ''/'' @ dBusID d" and fds: "Speed_IsKnown (dSpeed d)"
    "length (dInterfaces d) \<le> unat (dNumInterfaces d)"
    using readDevice_fields [OF rd] device_dir busid_lang_plain(1) [OF lang] by auto
  have "printable (SysfsUSBDevices @ ''/'')"
    by (simp add: printable_def SysfsUSBDevices_def printable_byte_def byte_of_char_def)
  hence "printable (dPath d)"
    using path busid_lang_plain(2) [OF lang] by (auto simp: printable_def)
  thus ?thesis
    using lang path fds busid_lang_plain(2) [OF lang]
    by (simp add: device_ok_def device_fits_def SysPathSize_def BusIDSize_def SysfsUSBDevices_def)
qed

text \<open>C21: Every listed device is well formed: its bus id is a topology path, its path is that name directly
  under the USB devices directory, its speed is one the domain knows and it has at most as many
  interfaces as it declares.  Unless its bus id is too long for the protocol's field, it can be put
  on the wire.\<close>
theorem listed_devices_sound:
  assumes "ListLocalDevices fs = Inr ds" "d \<in> set ds"
  shows "busid_lang (dBusID d) \<and> dPath d = SysfsUSBDevices @ ''/'' @ dBusID d \<and> Speed_IsKnown (dSpeed d)
    \<and> length (dInterfaces d) \<le> unat (dNumInterfaces d) \<and> (length (dBusID d) < BusIDSize \<longrightarrow> device_ok d)"
  using assms by (rule listed_device_facts)

text \<open>The exported devices are exactly the readable devices with a topology name that usbip-host drives and
  whose status is readable and not in use.\<close>
theorem exported_devices_exact:
  assumes "ListExportedDevices fs = Inr ds"
  shows "d \<in> set ds \<longleftrightarrow>
    (\<exists>entries. sfReadDir fs (fsPathFromAbs SysfsUSBDevices) = Inr entries \<and> dBusID d \<in> fst ` set entries)
    \<and> busid_lang (dBusID d) \<and> readDevice fs (dBusID d) = Inr d
    \<and> currentDriver fs (dBusID d) = Inr usbipHostDriverName
    \<and> (\<exists>status. ReadUint fs (path_Join [SysfsUSBDevices, dBusID d, SysfsUsbipStatus]) = Inr status
           \<and> status \<noteq> usbipStatusUsed)"
proof -
  obtain all where all: "ListLocalDevices fs = Inr all" "ds = filter (\<lambda>d. isExportable fs (dBusID d)) all"
    using assms by (auto simp: ListExportedDevices_def split: sum.splits)
  obtain entries where e: "sfReadDir fs (fsPathFromAbs SysfsUSBDevices) = Inr entries"
    "all = list_loop fs (sort_strings (map fst entries))"
    using ListLocalDevices_Inr [OF all(1)] by metis
  have "d \<in> set all \<longleftrightarrow> dBusID d \<in> fst ` set entries \<and> busid_lang (dBusID d) \<and> readDevice fs (dBusID d) = Inr d"
    using e(2) list_loop_sound [of d fs "sort_strings (map fst entries)"] list_loop_complete [of "dBusID d" "sort_strings (map fst entries)" fs d]
    by (auto simp: set_sort_strings isBusIDLike_def busIDPattern_lang)
  moreover have "isExportable fs b \<longleftrightarrow> currentDriver fs b = Inr usbipHostDriverName
      \<and> (\<exists>status. ReadUint fs (path_Join [SysfsUSBDevices, b, SysfsUsbipStatus]) = Inr status
           \<and> status \<noteq> usbipStatusUsed)" for b
    by (auto simp: isExportable_def split: sum.splits)
  ultimately show ?thesis
    using all(2) e(1) by auto
qed

section \<open>An example device\<close>

definition sample_attrs :: "(string \<times> string) list" where
  "sample_attrs =
     [(''idVendor'', ''1d6b''), (''idProduct'', ''0104''), (''bcdDevice'', ''0100''), (''busnum'', ''1''),
      (''devnum'', ''2''), (''speed'', ''480''), (''bDeviceClass'', ''ff''), (''bDeviceSubClass'', ''00''),
      (''bDeviceProtocol'', ''00''), (''bConfigurationValue'', ''1''), (''bNumConfigurations'', ''1''),
      (''bNumInterfaces'', ''0''), (''manufacturer'', ''acme''), (''product'', ''disk''), (''driver/driver_name'', ''usbip-host''), (''usbip_status'', ''1'')]"

definition sample_files :: "string \<Rightarrow> string option" where
  "sample_files p = map_of (map (\<lambda>(a, v). (''sys/bus/usb/devices/1-1/'' @ a, v)) sample_attrs) p"

definition device_fs :: sysfs where
  "device_fs = \<lparr>sfOpen = (\<lambda>p. if sample_files p = None then Some [Io FsErrNotExist] else None),
     sfRead = (\<lambda>p. case sample_files p of None \<Rightarrow> Inl [Io FsErrNotExist] | Some v \<Rightarrow> Inr v),
     sfReadDir = (\<lambda>_. Inr [(''1-1'', True)]), sfStat = (\<lambda>_. None),
     sfReadLink = (\<lambda>_. Inl [Io FsErrNotExist])\<rparr>"

lemma sample_line:
  assumes "(a, v) \<in> set sample_attrs"
  shows "ReadLine device_fs (''/sys/bus/usb/devices/1-1/'' @ a) = Inr v"
proof -
  have d: "distinct (map fst (map (\<lambda>(a, v). (''sys/bus/usb/devices/1-1/'' @ a, v)) sample_attrs))"
    by (simp add: sample_attrs_def)
  have "(''sys/bus/usb/devices/1-1/'' @ a, v) \<in> set (map (\<lambda>(a, v). (''sys/bus/usb/devices/1-1/'' @ a, v)) sample_attrs)"
    using assms by force
  hence "sample_files (''sys/bus/usb/devices/1-1/'' @ a) = Some v"
    using map_of_eq_Some_iff [OF d] by (simp only: sample_files_def)
  moreover have "\<forall>(a, v)\<in>set sample_attrs. v \<noteq> [] \<and> \<not> space_byte (hd v) \<and> \<not> space_byte (last v)"
    by (simp add: sample_attrs_def space_byte_def)
  hence "TrimSpace v = v"
    using assms by (intro TrimSpace_plain) auto
  ultimately show ?thesis
    by (simp add: ReadLine_def readFileBytes_def fsPathFromAbs_def device_fs_def)
qed

lemma sample_attr:
  assumes "a \<in> fst ` set sample_attrs" "plain_name a"
  shows "ReadLine device_fs (path_Join [path_Join [SysfsUSBDevices, ''1-1''], a]) = Inr (the (map_of sample_attrs a))"
    "ReadLine device_fs (path_Join [SysfsUSBDevices, ''1-1'', a]) = Inr (the (map_of sample_attrs a))"
proof -
  have "(a, the (map_of sample_attrs a)) \<in> set sample_attrs"
    using assms(1) by (meson map_of_SomeD map_of_eq_None_iff option.exhaust_sel)
  note line = sample_line [OF this]
  have "path_Join [SysfsUSBDevices, ''1-1'', a] = ''/sys/bus/usb/devices/1-1/'' @ a"
    using device_attr_plain [of "''1-1''" a] assms(2) by (simp add: plain_name_def device_attr_def SysfsUSBDevices_def)
  moreover have "path_Join [path_Join [SysfsUSBDevices, ''1-1''], a] = path_Join [SysfsUSBDevices, ''1-1'', a]"
    using assms(2) by (simp add: device_dir plain_name_def) (simp add: path_Join_def SysfsUSBDevices_def)
  ultimately show "ReadLine device_fs (path_Join [path_Join [SysfsUSBDevices, ''1-1''], a]) = Inr (the (map_of sample_attrs a))"
    "ReadLine device_fs (path_Join [SysfsUSBDevices, ''1-1'', a]) = Inr (the (map_of sample_attrs a))"
    using line by simp_all
qed

lemmas read_defs = ReadHex16_def ReadUint_def ReadSpeedAttr_def readU16Attr_def readByteAttr_def
  readOptionalStringAttr_def then_read_def narrowByteErr_def

lemmas parse_defs = ParseUint_def digit_val_def less_eq_char_def strip0x_def TrimPrefix_def HasPrefix_def
  byteMax_def u16Max_def sysfsMbpsToSpeed_def

lemma sample_numbers:
  "readDeviceNumbers device_fs (path_Join [SysfsUSBDevices, ''1-1'']) =
     Inr \<lparr>dnBus = 1, dnDev = 2, dnSpeed = SpeedHigh\<rparr>"
  by (simp add: readDeviceNumbers_def devAttrBusnum_def devAttrDevnum_def devAttrSpeed_def read_defs sample_attr
      sample_attrs_def plain_name_def parse_defs)

lemma sample_classes:
  "readDeviceClasses device_fs (path_Join [SysfsUSBDevices, ''1-1'']) =
     Inr \<lparr>dcClass = 0xff, dcSubclass = 0, dcProtocol = 0, dcConfigValue = 1, dcNumConfigs = 1, dcNumInterfaces = 0\<rparr>"
  by (simp add: readDeviceClasses_def devAttrDeviceClass_def devAttrDeviceSub_def devAttrDeviceProto_def
      devAttrConfigValue_def devAttrNumConfigs_def devAttrNumInterfaces_def read_defs sample_attr
      sample_attrs_def plain_name_def parse_defs)

definition listed_device :: Device where
  "listed_device =
     \<lparr>dPath = ''/sys/bus/usb/devices/1-1'', dBusID = ''1-1'', dBusNum = 1, dDevNum = 2, dSpeed = SpeedHigh,
      dVendorID = 0x1d6b, dProductID = 0x0104, dBcdDevice = 0x0100, dClass = 0xff, dSubclass = 0, dProtocol = 0,
      dConfigValue = 1, dNumConfigs = 1, dNumInterfaces = 0, dManufacturer = ''acme'', dProduct = ''disk'',
      dInterfaces = []\<rparr>"

lemma sample_read: "readDevice device_fs ''1-1'' = Inr listed_device"
proof -
  have "path_Join [SysfsUSBDevices, ''1-1''] = ''/sys/bus/usb/devices/1-1''"
    by (simp add: device_dir plain_name_def) (simp add: SysfsUSBDevices_def)
  moreover have "readDeviceCore device_fs (path_Join [SysfsUSBDevices, ''1-1'']) ''1-1'' =
      Inr (listed_device\<lparr>dPath := path_Join [SysfsUSBDevices, ''1-1'']\<rparr>)"
    by (simp add: readDeviceCore_def sample_numbers sample_classes devAttrIDVendor_def devAttrIDProduct_def
        devAttrBcdDevice_def devAttrManufacturer_def devAttrProduct_def read_defs sample_attr sample_attrs_def
        plain_name_def parse_defs listed_device_def)
  ultimately show ?thesis
    by (simp add: readDevice_def then_read_def readInterfaces_def listed_device_def)
qed

lemma sample_listed: "ListLocalDevices device_fs = Inr [listed_device]"
proof -
  have "busid_lang ''1-1''"
    unfolding busid_lang_def
    by (rule exI [of _ "''1''"], rule exI [of _ "''1''"], rule exI [of _ "[]"])
      (simp add: topology_text_def numeral_text_def is_digit_def less_eq_char_def)
  hence "isBusIDLike ''1-1''"
    by (simp add: isBusIDLike_def busIDPattern_lang)
  moreover have "ListDirEntries device_fs SysfsUSBDevices = Inr [''1-1'']"
    by (simp add: ListDirEntries_def device_fs_def sort_strings_def)
  moreover have "Exporter_ModulesAvailable device_fs = None"
    by (simp add: Exporter_ModulesAvailable_def device_fs_def)
  ultimately show ?thesis
    by (simp add: ListLocalDevices_def sample_read)
qed

theorem listed_devices_sound_witness: "device_ok listed_device"
  using listed_devices_sound [OF sample_listed, of listed_device] by (simp add: listed_device_def BusIDSize_def)

lemma sample_exported: "ListExportedDevices device_fs = Inr [listed_device]"
proof -
  have "path_Join [path_Join [SysfsUSBDevices, ''1-1''], ''driver'', ifaceDriverNameFile] =
      ''/sys/bus/usb/devices/1-1/'' @ ''driver/driver_name''"
    by (simp add: path_Join_def path_Clean_def SysfsUSBDevices_def ifaceDriverNameFile_def)
  hence "currentDriver device_fs ''1-1'' = Inr usbipHostDriverName"
    using sample_line [of "''driver/driver_name''" "''usbip-host''"]
    by (simp add: currentDriver_def sample_attrs_def usbipHostDriverName_def Let_def)
  moreover have "ReadUint device_fs (path_Join [SysfsUSBDevices, ''1-1'', SysfsUsbipStatus]) = Inr 1"
    by (simp add: SysfsUsbipStatus_def read_defs sample_attr sample_attrs_def plain_name_def parse_defs)
  ultimately have "isExportable device_fs ''1-1''"
    by (simp add: isExportable_def usbipStatusUsed_def)
  thus ?thesis
    by (simp add: ListExportedDevices_def sample_listed) (simp add: listed_device_def)
qed

theorem exported_devices_exact_witness: "currentDriver device_fs (dBusID listed_device) = Inr usbipHostDriverName"
  using exported_devices_exact [OF sample_exported, of listed_device] by simp

end
