(* ===== verification/Kernel_Topology.thy ===== *)
theory Kernel_Topology
  imports Kernel_Sysfs "HOL-Library.AList"
begin

text \<open>
  \<open>internal/adapter/kernel/topology.go\<close>: how many vhci controllers there are, how many ports each hub
  has and which USB bus belongs to which hub, all read from sysfs, and the flat numbering of the
  ports.  Counting the controllers is a loop over status files that need not end, so it is a partial
  function; \<open>probe_counts\<close> shows that it returns whenever the files do run out.
\<close>

section \<open>Definitions\<close>

datatype HubType = HubTypeHS | HubTypeSS

record VHCILocation =
  ControllerIdx :: u32
  Hub :: HubType

record StatusTopology =
  stNControllers :: u32
  stHCPorts :: u32
  stVHCIPorts :: u32

record Topology =
  NControllers :: u32
  HCPorts :: u32
  VHCIPorts :: u32
  BusMap :: "(u32 \<times> VHCILocation) list"

definition Topology_Status :: "Topology \<Rightarrow> StatusTopology" where
  "Topology_Status t =
     \<lparr>stNControllers = NControllers t, stHCPorts = HCPorts t, stVHCIPorts = VHCIPorts t\<rparr>"

definition hubOffset :: "Topology \<Rightarrow> HubType \<Rightarrow> u32" where
  "hubOffset t h = (if h = HubTypeSS then HCPorts t else 0)"

definition FlatPort :: "Topology \<Rightarrow> VHCILocation \<Rightarrow> u32 \<Rightarrow> PortID" where
  "FlatPort t loc rhport0 = ControllerIdx loc * VHCIPorts t + hubOffset t (Hub loc) + rhport0"

definition hubsPerController :: u32 where
  "hubsPerController = 2"

definition vhciHCDPlatform :: "u32 \<Rightarrow> string" where
  "vhciHCDPlatform idx = ''/sys/devices/platform/vhci_hcd.'' @ FormatUint (unat idx)"

definition usbChildBusnum :: string where "usbChildBusnum = ''busnum''"
definition usbChildPrefix :: string where "usbChildPrefix = ''usb''"

definition statusFileName :: "u32 \<Rightarrow> string" where
  "statusFileName idx = (if idx = 0 then SysfsVHCIStatus else ''status.'' @ FormatUint (unat idx))"

definition statusFileState :: "sysfs \<Rightarrow> u32 \<Rightarrow> go_error + bool" where
  "statusFileState fs i =
     (let p = path_Join [SysfsVHCIHCD, statusFileName i]
      in case sfOpen fs (fsPathFromAbs p) of
           None \<Rightarrow> Inr True
         | Some err \<Rightarrow> if Is_NotExist err then Inr False else Inl (classifyFSErr p err))"

partial_function (option) probe_loop :: "sysfs \<Rightarrow> u32 \<Rightarrow> u32 \<Rightarrow> (go_error + u32) option" where
  "probe_loop fs i count =
     (case statusFileState fs i of
        Inl err \<Rightarrow> Some (Inl err)
      | Inr exists \<Rightarrow> if \<not> exists then Some (Inr count) else probe_loop fs (i + 1) (count + 1))"

definition probeControllerCount :: "sysfs \<Rightarrow> (go_error + u32) option" where
  "probeControllerCount fs =
     map_option (\<lambda>r. case r of
         Inl err \<Rightarrow> Inl err
       | Inr count \<Rightarrow> if count = 0 then Inl [Kern ErrTopologyNoControllers] else Inr count)
       (probe_loop fs 0 0)"

definition deriveHCPorts :: "u32 \<Rightarrow> u32 \<Rightarrow> go_error + u32" where
  "deriveHCPorts nports nControllers =
     (if nports = 0 then Inl [Kern ErrTopologyZeroNPorts]
      else let divisor = nControllers * hubsPerController
        in if divisor = 0 \<or> nports mod divisor \<noteq> 0 then Inl [Kern ErrTopologyInconsistent]
           else Inr (nports div divisor))"

definition discoverStatusTopology :: "sysfs \<Rightarrow> (go_error + StatusTopology) option" where
  "discoverStatusTopology fs =
     (case ReadUint fs (path_Join [SysfsVHCIHCD, SysfsVHCINPorts]) of
        Inl err \<Rightarrow> Some (Inl err)
      | Inr nports \<Rightarrow>
          map_option (\<lambda>r. case r of
              Inl err \<Rightarrow> Inl err
            | Inr nControllers \<Rightarrow>
                (case deriveHCPorts nports nControllers of
                   Inl err \<Rightarrow> Inl err
                 | Inr hcPorts \<Rightarrow> Inr \<lparr>stNControllers = nControllers, stHCPorts = hcPorts,
                                      stVHCIPorts = hcPorts * hubsPerController\<rparr>))
            (probeControllerCount fs))"

definition hubByRank :: "nat \<Rightarrow> HubType" where
  "hubByRank rank = (if rank = 1 then HubTypeSS else HubTypeHS)"

fun collectUSBChildren :: "sysfs \<Rightarrow> string \<Rightarrow> (string \<times> bool) list \<Rightarrow> go_error + (u32 \<times> string) list" where
  "collectUSBChildren fs ctrlDir [] = Inr []"
| "collectUSBChildren fs ctrlDir ((name, isDir) # entries) =
     (if \<not> isDir \<or> \<not> HasPrefix name usbChildPrefix then collectUSBChildren fs ctrlDir entries
      else case ReadUint fs (path_Join [ctrlDir, name, usbChildBusnum]) of
        Inl err \<Rightarrow>
          if Is_NotExist err \<or> errors_Is err (Dom ErrKernelModuleMissing)
          then collectUSBChildren fs ctrlDir entries else Inl err
      | Inr busnum \<Rightarrow>
          (case collectUSBChildren fs ctrlDir entries of
             Inl err \<Rightarrow> Inl err
           | Inr children \<Rightarrow> Inr ((busnum, name) # children)))"

text \<open>The two children in order of their bus number; \<open>sort.Slice\<close> may swap equal keys.\<close>

definition sort_children :: "(u32 \<times> string) list \<Rightarrow> (u32 \<times> string) list" where
  "sort_children = sort_key fst"

definition appendControllerBusMap ::
  "sysfs \<Rightarrow> u32 \<Rightarrow> (u32 \<times> VHCILocation) list \<Rightarrow> go_error + (u32 \<times> VHCILocation) list" where
  "appendControllerBusMap fs idx busMap =
     (let ctrlDir = vhciHCDPlatform idx
      in case sfReadDir fs (fsPathFromAbs ctrlDir) of
           Inl err \<Rightarrow>
             Inl (if Is_NotExist err then [Kern ErrTopologyIncomplete] else classifyFSErr ctrlDir err)
         | Inr entries \<Rightarrow>
             (case collectUSBChildren fs ctrlDir entries of
                Inl err \<Rightarrow> Inl err
              | Inr children \<Rightarrow>
                  if length children \<noteq> unat hubsPerController then Inl [Kern ErrTopologyIncomplete]
                  else Inr (fold (\<lambda>(rank, ch) bm.
                         AList.update (fst ch) \<lparr>ControllerIdx = idx, Hub = hubByRank rank\<rparr> bm)
                       (enumerate 0 (sort_children children)) busMap)))"

fun buildBusMap_loop ::
  "sysfs \<Rightarrow> nat list \<Rightarrow> (u32 \<times> VHCILocation) list \<Rightarrow> go_error + (u32 \<times> VHCILocation) list" where
  "buildBusMap_loop fs [] busMap = Inr busMap"
| "buildBusMap_loop fs (idx # is) busMap =
     (case appendControllerBusMap fs (of_nat idx) busMap of
        Inl err \<Rightarrow> Inl err
      | Inr busMap \<Rightarrow> buildBusMap_loop fs is busMap)"

definition buildBusMap :: "sysfs \<Rightarrow> u32 \<Rightarrow> go_error + (u32 \<times> VHCILocation) list" where
  "buildBusMap fs nControllers = buildBusMap_loop fs [0..<unat nControllers] []"

definition discoverTopology :: "sysfs \<Rightarrow> (go_error + Topology) option" where
  "discoverTopology fs =
     map_option (\<lambda>r. case r of
         Inl err \<Rightarrow> Inl err
       | Inr status \<Rightarrow>
           (case buildBusMap fs (stNControllers status) of
              Inl err \<Rightarrow> Inl err
            | Inr busMap \<Rightarrow>
                if int (length busMap) \<noteq> int (unat (stNControllers status)) * int (unat hubsPerController)
                then Inl [Kern ErrTopologyIncomplete]
                else Inr \<lparr>NControllers = stNControllers status, HCPorts = stHCPorts status,
                          VHCIPorts = stVHCIPorts status, BusMap = busMap\<rparr>))
       (discoverStatusTopology fs)"

section \<open>Lemmas\<close>

lemma unat_mult_small: "unat a * unat b < 2 ^ 32 \<Longrightarrow> unat (a * b :: u32) = unat a * unat b"
  by (simp add: unat_mult_lem [symmetric])

lemma unat_add_small: "unat a + unat b < 2 ^ 32 \<Longrightarrow> unat (a + b :: u32) = unat a + unat b"
  by (simp add: unat_add_lem [symmetric])

text \<open>The arithmetic of a topology with fewer than \<open>2 ^ 31\<close> controllers.\<close>

lemma deriveHCPorts_Inr:
  assumes "deriveHCPorts nports n = Inr hc" "unat n < 2 ^ 31"
  shows "0 < unat hc \<and> unat (hc * hubsPerController) = 2 * unat hc
    \<and> unat n * (2 * unat hc) = unat nports"
proof -
  have d: "unat (n * hubsPerController) = 2 * unat n"
    using assms(2) unat_mult_small [of n 2] by (simp add: hubsPerController_def)
  have ok: "nports \<noteq> 0" "n * hubsPerController \<noteq> 0" "nports mod (n * hubsPerController) = 0"
      "hc = nports div (n * hubsPerController)"
    using assms(1) by (auto simp: deriveHCPorts_def Let_def split: if_splits)
  have "unat (nports mod (n * hubsPerController)) = 0"
    using ok(3) by simp
  hence "unat nports mod (2 * unat n) = 0"
    by (simp add: unat_mod d)
  moreover have hc: "unat hc = unat nports div (2 * unat n)"
    using ok(4) by (simp add: unat_div d)
  ultimately have e: "2 * unat n * unat hc = unat nports"
    by (metis dvd_mult_div_cancel mod_eq_0_iff_dvd)
  have pos: "0 < unat nports"
    using ok(1) by (simp add: unat_gt_0)
  hence n0: "0 < unat n" "0 < unat hc"
    using e by (auto intro: gr0I)
  have "2 * unat hc \<le> unat nports"
    using e n0 by (metis One_nat_def Suc_leI mult.assoc mult.commute mult_le_mono1 nat_mult_1)
  moreover have "unat nports < 2 ^ 32"
    using unsigned_less [of nports, where 'a = nat] by simp
  ultimately have "unat (hc * hubsPerController) = 2 * unat hc"
    using unat_mult_small [of hc 2] by (simp add: hubsPerController_def)
  thus ?thesis
    using e n0 by (simp add: ac_simps)
qed

lemma probe_loop_counts:
  assumes "\<forall>k<n. statusFileState fs (i + of_nat k) = Inr True" "statusFileState fs (i + of_nat n) = Inr False"
  shows "probe_loop fs i c = Some (Inr (c + of_nat n))"
  using assms
proof (induction n arbitrary: i c)
  case 0
  thus ?case
    by (subst probe_loop.simps) simp
next
  case (Suc n)
  have "probe_loop fs (i + 1) (c + 1) = Some (Inr (c + 1 + of_nat n))"
  proof (rule Suc.IH)
    show "\<forall>k<n. statusFileState fs (i + 1 + of_nat k) = Inr True"
      using Suc.prems(1) by (auto simp: add.assoc dest: spec [of _ "Suc _"])
    show "statusFileState fs (i + 1 + of_nat n) = Inr False"
      using Suc.prems(2) by (simp add: add.assoc)
  qed
  moreover have "statusFileState fs i = Inr True"
    using Suc.prems(1) spec [of "\<lambda>k. k < Suc n \<longrightarrow> statusFileState fs (i + of_nat k) = Inr True" 0] by simp
  ultimately show ?case
    by (subst probe_loop.simps) (simp add: add.assoc)
qed

lemma discoverStatus_Inr:
  assumes "discoverStatusTopology fs = Some (Inr st)" "ReadUint fs (path_Join [SysfsVHCIHCD, SysfsVHCINPorts]) = Inr nports"
  shows "deriveHCPorts nports (stNControllers st) = Inr (stHCPorts st)
    \<and> stVHCIPorts st = stHCPorts st * hubsPerController \<and> probeControllerCount fs = Some (Inr (stNControllers st))"
proof -
  obtain r where r: "probeControllerCount fs = Some r"
    using assms by (auto simp: discoverStatusTopology_def)
  then obtain n where n: "r = Inr n"
    using assms by (cases r) (auto simp: discoverStatusTopology_def)
  show ?thesis
    using assms r n by (cases "deriveHCPorts nports n") (auto simp: discoverStatusTopology_def)
qed

section \<open>Properties\<close>

text \<open>The controller count terminates with the right answer whenever the status files are finite in
  number: if files 0 to n-1 exist and file n does not, the probe returns n (or reports that there
  are no controllers when n is 0).\<close>
theorem probe_counts:
  assumes "\<forall>k<n. statusFileState fs (of_nat k) = Inr True" "statusFileState fs (of_nat n) = Inr False"
    "n < 2 ^ 32"
  shows "probeControllerCount fs
    = Some (if n = 0 then Inl [Kern ErrTopologyNoControllers] else Inr (of_nat n))"
proof -
  have "(of_nat n :: u32) = 0 \<longleftrightarrow> n = 0"
    using assms(3) by (auto simp: word_of_nat_eq_0_iff dest: nat_dvd_not_less)
  thus ?thesis
    using probe_loop_counts [of n fs 0 0] assms(1,2) by (simp add: probeControllerCount_def)
qed

definition no_files :: sysfs where
  "no_files = \<lparr>sfOpen = (\<lambda>_. Some [Io FsErrNotExist]), sfRead = (\<lambda>_. Inl [Io FsErrNotExist]),
     sfReadDir = (\<lambda>_. Inl [Io FsErrNotExist]), sfStat = (\<lambda>_. Some [Io FsErrNotExist]),
     sfReadLink = (\<lambda>_. Inl [Io FsErrNotExist])\<rparr>"

text \<open>A machine with one controller of two hubs with four ports each.\<close>

definition sample_sysfs :: sysfs where
  "sample_sysfs = no_files
     \<lparr>sfOpen := (\<lambda>p. if p \<in> {''sys/devices/platform/vhci_hcd.0/status'',
                            ''sys/devices/platform/vhci_hcd.0/nports''} then None
                    else Some [Io FsErrNotExist]),
      sfRead := (\<lambda>p. if p = ''sys/devices/platform/vhci_hcd.0/nports'' then Inr ''8''
                    else Inl [Io FsErrNotExist])\<rparr>"

lemma sample_status:
  "statusFileState sample_sysfs 0 = Inr True" "statusFileState sample_sysfs 1 = Inr False"
  by (simp_all add: statusFileState_def statusFileName_def path_Join_def path_Clean_def sysfs_paths
      fsPathFromAbs_def sample_sysfs_def no_files_def FormatUint.simps Is_NotExist_def)

theorem probe_counts_witness: "probeControllerCount sample_sysfs = Some (Inr 1)"
  using probe_counts [of 1 sample_sysfs] sample_status by simp

definition valid_location :: "Topology \<Rightarrow> VHCILocation \<Rightarrow> u32 \<Rightarrow> bool" where
  "valid_location t loc rh \<longleftrightarrow> ControllerIdx loc < NControllers t \<and> rh < HCPorts t"

definition flat_nat :: "Topology \<Rightarrow> VHCILocation \<Rightarrow> u32 \<Rightarrow> nat" where
  "flat_nat t loc rh = unat (ControllerIdx loc) * (2 * unat (HCPorts t))
     + (if Hub loc = HubTypeSS then unat (HCPorts t) else 0) + unat rh"

lemma flat_nat_bound:
  assumes "valid_location t loc rh"
  shows "flat_nat t loc rh < unat (NControllers t) * (2 * unat (HCPorts t))"
proof -
  let ?V = "2 * unat (HCPorts t)"
  have c: "Suc (unat (ControllerIdx loc)) \<le> unat (NControllers t)" and rh: "unat rh < unat (HCPorts t)"
    using assms by (auto simp: valid_location_def word_less_nat_alt)
  have "flat_nat t loc rh < unat (ControllerIdx loc) * ?V + ?V"
    using rh by (simp add: flat_nat_def)
  also have "\<dots> = Suc (unat (ControllerIdx loc)) * ?V"
    by simp
  also have "\<dots> \<le> unat (NControllers t) * ?V"
    using c by (rule mult_le_mono1)
  finally show ?thesis .
qed

lemma flat_nat_div_mod:
  assumes "valid_location t loc rh"
  shows "flat_nat t loc rh div (2 * unat (HCPorts t)) = unat (ControllerIdx loc)"
    and "flat_nat t loc rh mod (2 * unat (HCPorts t)) = (if Hub loc = HubTypeSS then unat (HCPorts t) else 0) + unat rh"
proof -
  let ?V = "2 * unat (HCPorts t)" and ?r = "(if Hub loc = HubTypeSS then unat (HCPorts t) else 0) + unat rh"
  have "unat rh < unat (HCPorts t)"
    using assms by (simp add: valid_location_def word_less_nat_alt)
  hence r: "?r < ?V"
    by simp
  have f: "flat_nat t loc rh = ?r + unat (ControllerIdx loc) * ?V"
    by (simp add: flat_nat_def)
  have "(?r + unat (ControllerIdx loc) * ?V) div ?V = unat (ControllerIdx loc)"
    using r by (subst div_mult_self1) auto
  thus "flat_nat t loc rh div ?V = unat (ControllerIdx loc)"
    by (simp only: f)
  have "(?r + unat (ControllerIdx loc) * ?V) mod ?V = ?r"
    using r by (subst mod_mult_self1) simp
  thus "flat_nat t loc rh mod ?V = ?r"
    by (simp only: f)
qed

lemma FlatPort_unat:
  assumes "unat (NControllers t) * (2 * unat (HCPorts t)) < 2 ^ 32" "unat (VHCIPorts t) = 2 * unat (HCPorts t)"
    "valid_location t loc rh"
  shows "unat (FlatPort t loc rh) = flat_nat t loc rh"
proof -
  have b: "flat_nat t loc rh < 2 ^ 32"
    using flat_nat_bound [OF assms(3)] assms(1) by (rule less_trans)
  have 1: "unat (ControllerIdx loc * VHCIPorts t) = unat (ControllerIdx loc) * (2 * unat (HCPorts t))"
  proof -
    have "unat (ControllerIdx loc) * unat (VHCIPorts t) < 2 ^ 32"
      using b unfolding flat_nat_def assms(2) by linarith
    thus ?thesis
      using unat_mult_small assms(2) by simp
  qed
  have 2: "unat (hubOffset t (Hub loc)) = (if Hub loc = HubTypeSS then unat (HCPorts t) else 0)"
    by (simp add: hubOffset_def)
  have 3: "unat (ControllerIdx loc * VHCIPorts t + hubOffset t (Hub loc))
      = unat (ControllerIdx loc) * (2 * unat (HCPorts t)) + (if Hub loc = HubTypeSS then unat (HCPorts t) else 0)"
    using b 1 2 by (subst unat_add_small) (simp_all add: flat_nat_def)
  show ?thesis
    using b 3 unfolding FlatPort_def by (subst unat_add_small) (simp_all add: flat_nat_def)
qed

text \<open>The flat port numbering of a discovered topology is a bijection.  Its sizes fit: the controllers
  times the ports per controller are exactly the kernel's nports, without wrap-around.  Every root
  hub port of every hub gets a number below nports, different ports get different numbers, and the
  number divided by the ports per controller is the controller again, which is what the status
  parser checks.\<close>
theorem topology_flat_ports:
  assumes "discoverStatusTopology fs = Some (Inr st)" "ReadUint fs (path_Join [SysfsVHCIHCD, SysfsVHCINPorts]) = Inr nports"
    "unat (stNControllers st) < 2 ^ 31" "Topology_Status t = st"
    "valid_location t l1 r1" "valid_location t l2 r2"
  shows "unat (NControllers t) * unat (VHCIPorts t) = unat nports
    \<and> unat (VHCIPorts t) = 2 * unat (HCPorts t) \<and> 0 < unat (HCPorts t)
    \<and> FlatPort t l1 r1 < nports
    \<and> (FlatPort t l1 r1 = FlatPort t l2 r2 \<longrightarrow> l1 = l2 \<and> r1 = r2)
    \<and> FlatPort t l1 r1 div VHCIPorts t = ControllerIdx l1"
proof -
  have "deriveHCPorts nports (NControllers t) = Inr (HCPorts t)" "VHCIPorts t = HCPorts t * hubsPerController"
    using discoverStatus_Inr [OF assms(1,2)] assms(4) by (auto simp: Topology_Status_def)
  moreover have "unat (NControllers t) < 2 ^ 31"
    using assms(3,4) by (auto simp: Topology_Status_def)
  ultimately have d: "0 < unat (HCPorts t)" "unat (VHCIPorts t) = 2 * unat (HCPorts t)"
      "unat (NControllers t) * (2 * unat (HCPorts t)) = unat nports"
    using deriveHCPorts_Inr by simp_all
  have n32: "unat (NControllers t) * (2 * unat (HCPorts t)) < 2 ^ 32"
    using d(3) unsigned_less [of nports, where 'a = nat] by simp
  note f1 = FlatPort_unat [OF n32 d(2) assms(5)] and f2 = FlatPort_unat [OF n32 d(2) assms(6)]
  have lt: "FlatPort t l1 r1 < nports"
    using f1 flat_nat_bound [OF assms(5)] d(3) by (simp add: word_less_nat_alt)
  have dv: "FlatPort t l1 r1 div VHCIPorts t = ControllerIdx l1"
  proof -
    have "unat (FlatPort t l1 r1 div VHCIPorts t) = unat (ControllerIdx l1)"
      using f1 flat_nat_div_mod(1) [OF assms(5)] by (simp add: unat_div d(2))
    thus ?thesis
      by (rule word_unat_eq_iff [THEN iffD2])
  qed
  have inj: "l1 = l2 \<and> r1 = r2" if "FlatPort t l1 r1 = FlatPort t l2 r2"
  proof -
    have e: "flat_nat t l1 r1 = flat_nat t l2 r2"
      using that f1 f2 by simp
    have c: "unat (ControllerIdx l1) = unat (ControllerIdx l2)"
      using flat_nat_div_mod(1) [OF assms(5)] flat_nat_div_mod(1) [OF assms(6)] e by simp
    have m: "(if Hub l1 = HubTypeSS then unat (HCPorts t) else 0) + unat r1
        = (if Hub l2 = HubTypeSS then unat (HCPorts t) else 0) + unat r2"
      using flat_nat_div_mod(2) [OF assms(5)] flat_nat_div_mod(2) [OF assms(6)] e by simp
    have r: "unat r1 < unat (HCPorts t)" "unat r2 < unat (HCPorts t)"
      using assms(5,6) by (auto simp: valid_location_def word_less_nat_alt)
    have h: "Hub l1 = Hub l2"
      using m r by (cases "Hub l1"; cases "Hub l2") auto
    have "r1 = r2"
      using m h by (intro word_unat_eq_iff [THEN iffD2]) simp
    moreover have "ControllerIdx l1 = ControllerIdx l2"
      using c by (rule word_unat_eq_iff [THEN iffD2])
    ultimately show ?thesis
      using h by simp
  qed
  show ?thesis
    using d lt dv inj by simp
qed

definition sample_topology :: Topology where
  "sample_topology = \<lparr>NControllers = 1, HCPorts = 4, VHCIPorts = 8,
     BusMap = [(1, \<lparr>ControllerIdx = 0, Hub = HubTypeHS\<rparr>), (2, \<lparr>ControllerIdx = 0, Hub = HubTypeSS\<rparr>)]\<rparr>"

lemma sample_nports: "ReadUint sample_sysfs (path_Join [SysfsVHCIHCD, SysfsVHCINPorts]) = Inr 8"
proof -
  have "TrimSpace ''8'' = ''8''"
    by (rule TrimSpace_plain) (simp_all add: space_byte_def)
  moreover have "ParseUint ''8'' 10 32 = Inr 8"
    by (simp add: ParseUint_def digit_val_def less_eq_char_def)
  ultimately show ?thesis
    by (simp add: ReadUint_def ReadLine_def readFileBytes_def sample_sysfs_def no_files_def path_Join_def
        path_Clean_def sysfs_paths fsPathFromAbs_def)
qed

lemma sample_discover: "discoverStatusTopology sample_sysfs = Some (Inr (Topology_Status sample_topology))"
proof -
  have "probe_loop sample_sysfs 0 0 = Some (Inr 1)"
    using probe_loop_counts [of 1 sample_sysfs 0 0] sample_status by simp
  thus ?thesis
    using sample_nports
    by (simp add: discoverStatusTopology_def probeControllerCount_def deriveHCPorts_def hubsPerController_def
        Topology_Status_def sample_topology_def)
qed

theorem topology_flat_ports_witness:
  "FlatPort sample_topology \<lparr>ControllerIdx = 0, Hub = HubTypeSS\<rparr> 2 < 8
   \<and> FlatPort sample_topology \<lparr>ControllerIdx = 0, Hub = HubTypeSS\<rparr> 2 div 8 = 0"
  using topology_flat_ports [OF sample_discover sample_nports, of sample_topology
      "\<lparr>ControllerIdx = 0, Hub = HubTypeSS\<rparr>" 2 "\<lparr>ControllerIdx = 0, Hub = HubTypeHS\<rparr>" 0]
  by (simp add: sample_topology_def Topology_Status_def valid_location_def)

end
