(* ===== verification/Kernel_Uevent.thy ===== *)
theory Kernel_Uevent
  imports Kernel_Topology BusID Event_Feed
begin

text \<open>
  \<open>internal/adapter/kernel/uevent.go\<close>: parsing the kernel's uevent messages, mapping them to domain
  events and handing those to the subscribers.  The three regular expressions of the source are
  modelled by deterministic matchers.  What loading the topology returns on each attempt (\<open>load\<close>) and
  the current time are parameters.
\<close>

section \<open>Messages\<close>

fun split_nul :: "string \<Rightarrow> string \<Rightarrow> string list" where
  "split_nul cur [] = (if cur = [] then [] else [cur])"
| "split_nul cur (b # payload) =
     (if b \<noteq> CHR 0x00 then split_nul (cur @ [b]) payload
      else (if cur = [] then [] else [cur]) @ split_nul [] payload)"

definition splitNULBytes :: "string \<Rightarrow> string list" where
  "splitNULBytes payload = split_nul [] payload"

type_synonym uevent_fields = "string \<rightharpoonup> string"

fun field_loop :: "string list \<Rightarrow> uevent_fields \<Rightarrow> uevent_fields" where
  "field_loop [] out = out"
| "field_loop (tok # toks) out =
     (case cut (CHR ''='') tok of None \<Rightarrow> field_loop toks out | Some (k, v) \<Rightarrow> field_loop toks (out(k \<mapsto> v)))"

text \<open>The first token, the message header, is skipped.\<close>

definition parseUeventFields :: "string \<Rightarrow> uevent_fields" where
  "parseUeventFields payload = field_loop (tl (splitNULBytes payload)) Map.empty"

text \<open>\<open>fields[k]\<close> with the zero value for a missing key.\<close>

definition field :: "uevent_fields \<Rightarrow> string \<Rightarrow> string" where
  "field fs k = (case fs k of None \<Rightarrow> [] | Some v \<Rightarrow> v)"

definition ueventSubsystemUSB :: string where "ueventSubsystemUSB = ''usb''"
definition ueventSubsystemUSBHC :: string where "ueventSubsystemUSBHC = ''usb-hc''"
definition ueventSubsystemUDC :: string where "ueventSubsystemUDC = ''udc''"
definition ueventActionAdd :: string where "ueventActionAdd = ''add''"
definition ueventActionBind :: string where "ueventActionBind = ''bind''"
definition ueventActionRemove :: string where "ueventActionRemove = ''remove''"
definition ueventActionUnbind :: string where "ueventActionUnbind = ''unbind''"
definition ueventActionChange :: string where "ueventActionChange = ''change''"

lemmas uevent_names = ueventSubsystemUSB_def ueventSubsystemUSBHC_def ueventSubsystemUDC_def ueventActionAdd_def
  ueventActionBind_def ueventActionRemove_def ueventActionUnbind_def ueventActionChange_def

definition isInterestingUevent :: "uevent_fields \<Rightarrow> bool" where
  "isInterestingUevent fs =
     (let sub = field fs ''SUBSYSTEM''
      in sub = ueventSubsystemUSB \<or> sub = ueventSubsystemUSBHC \<or> sub = ueventSubsystemUDC)"

section \<open>Device paths\<close>

text \<open>\<open>^/devices/platform/vhci_hcd\.(\d+)/usb(\d+)/(\d+-(\d+)(?:\.\d+)*)$\<close>: controller, bus, full bus id
  and root port.\<close>

definition vhciDevpathPattern :: "string \<Rightarrow> (string \<times> string \<times> string \<times> string) option" where
  "vhciDevpathPattern devpath =
     (let pre = ''/devices/platform/vhci_hcd.''
      in if \<not> HasPrefix devpath pre then None
         else let r0 = drop (length pre) devpath; controller = takeWhile is_digit r0; r1 = dropWhile is_digit r0
           in if controller = [] \<or> \<not> HasPrefix r1 ''/usb'' then None
              else let r2 = drop 4 r1; bus = takeWhile is_digit r2; r3 = dropWhile is_digit r2
                in if bus = [] \<or> \<not> HasPrefix r3 ''/'' \<or> \<not> busIDPattern (tl r3) then None
                   else Some (controller, bus, tl r3, takeWhile is_digit (tl (dropWhile is_digit (tl r3)))))"

text \<open>\<open>/(\d+-\d+(?:\.\d+)*)$\<close>: a bus id has no slash, so it is the last component.\<close>

definition usbipHostBusIDPattern :: "string \<Rightarrow> string option" where
  "usbipHostBusIDPattern devpath =
     (let cs = split_on (CHR ''/'') devpath
      in if 2 \<le> length cs \<and> busIDPattern (last cs) then Some (last cs) else None)"

text \<open>\<open>/udc/(usbip-vudc\.\d+)$\<close>\<close>

definition udcDevpathPattern :: "string \<Rightarrow> string option" where
  "udcDevpathPattern devpath =
     (let cs = split_on (CHR ''/'') devpath; name = last cs; num = drop 11 name
      in if 3 \<le> length cs \<and> last (butlast cs) = ''udc'' \<and> HasPrefix name ''usbip-vudc.''
            \<and> num \<noteq> [] \<and> list_all is_digit num then Some name else None)"

definition event_device :: "string \<Rightarrow> string \<Rightarrow> Device" where
  "event_device busID devpath =
     \<lparr>dPath = devpath, dBusID = busID, dBusNum = 0, dDevNum = 0, dSpeed = SpeedUnknown, dVendorID = 0, dProductID = 0,
      dBcdDevice = 0, dClass = 0, dSubclass = 0, dProtocol = 0, dConfigValue = 0, dNumConfigs = 0,
      dNumInterfaces = 0, dManufacturer = [], dProduct = [], dInterfaces = []\<rparr>"

definition event_port :: "PortID \<Rightarrow> string \<Rightarrow> Port" where
  "event_port portID localBusID =
     \<lparr>pID = portID, pStatus = StatusNull, pSpeed = SpeedUnknown, pDeviceID = 0, pRemote = \<lparr>reHost = [], rePort = 0\<rparr>,
      pBusID = [], pLocalBusID = localBusID\<rparr>"

definition mapUDCEvent :: "int \<Rightarrow> string \<Rightarrow> string \<Rightarrow> Event option" where
  "mapUDCEvent now action devpath =
     (case udcDevpathPattern devpath of
        None \<Rightarrow> None
      | Some busID \<Rightarrow>
          if action = ueventActionAdd \<or> action = ueventActionChange
          then Some (DeviceBoundEvent now (event_device busID devpath))
          else if action = ueventActionRemove then Some (DeviceUnboundEvent now (event_device busID devpath))
          else None)"

definition vhciEventLocation :: "Topology \<Rightarrow> nat \<Rightarrow> nat \<Rightarrow> nat \<Rightarrow> VHCILocation option" where
  "vhciEventLocation topo controller usbBus rootPort1 =
     (if 2 ^ 32 \<le> controller \<or> 2 ^ 32 \<le> usbBus then None
      else case map_of (BusMap topo) (of_nat usbBus) of
        None \<Rightarrow> None
      | Some loc \<Rightarrow>
          if NControllers topo \<le> of_nat controller \<or> ControllerIdx loc \<noteq> of_nat controller
             \<or> unat (HCPorts topo) < rootPort1 then None
          else Some loc)"

definition vhciTopologyMaxAttempts :: nat where "vhciTopologyMaxAttempts = 2"

fun resolve_loop :: "(nat \<Rightarrow> go_error + Topology) \<Rightarrow> nat \<Rightarrow> nat \<Rightarrow> nat \<Rightarrow> nat list \<Rightarrow> (Topology \<times> VHCILocation) option" where
  "resolve_loop load controller usbBus rootPort1 [] = None"
| "resolve_loop load controller usbBus rootPort1 (attempt # rest) =
     (case load attempt of
        Inl _ \<Rightarrow> resolve_loop load controller usbBus rootPort1 rest
      | Inr topo \<Rightarrow>
          (case vhciEventLocation topo controller usbBus rootPort1 of
             None \<Rightarrow> resolve_loop load controller usbBus rootPort1 rest
           | Some loc \<Rightarrow> Some (topo, loc)))"

definition resolveEventLocation ::
  "(nat \<Rightarrow> go_error + Topology) \<Rightarrow> nat \<Rightarrow> nat \<Rightarrow> nat \<Rightarrow> (Topology \<times> VHCILocation) option" where
  "resolveEventLocation load controller usbBus rootPort1 =
     resolve_loop load controller usbBus rootPort1 [0..<vhciTopologyMaxAttempts]"

definition vhciActionToEvent :: "int \<Rightarrow> string \<Rightarrow> PortID \<Rightarrow> string \<Rightarrow> Event option" where
  "vhciActionToEvent now action portID localBusID =
     (if action = ueventActionAdd then Some (PortAttachedEvent now (event_port portID localBusID))
      else if action = ueventActionRemove then Some (PortDetachedEvent now (event_port portID localBusID) ''uevent'')
      else if action = ueventActionChange
      then Some (PortErroredEvent now (event_port portID localBusID) ''usbip_status change'')
      else None)"

definition mapVhciEvent :: "int \<Rightarrow> (nat \<Rightarrow> go_error + Topology) \<Rightarrow> string \<Rightarrow> string \<Rightarrow> Event option" where
  "mapVhciEvent now load action devpath =
     (case vhciDevpathPattern devpath of
        None \<Rightarrow> None
      | Some (mController, mBus, mFull, mRoot) \<Rightarrow>
          (case ParseUint mController 10 64 of Inl _ \<Rightarrow> None | Inr controller \<Rightarrow>
           case ParseUint mBus 10 64 of Inl _ \<Rightarrow> None | Inr usbBus \<Rightarrow>
           case ParseUint mRoot 10 32 of Inl _ \<Rightarrow> None | Inr rootPort1 \<Rightarrow>
           if rootPort1 < 1 then None
           else case resolveEventLocation load controller usbBus rootPort1 of
             None \<Rightarrow> None
           | Some (topo, loc) \<Rightarrow> vhciActionToEvent now action (FlatPort topo loc (of_nat rootPort1 - 1)) mFull))"

section \<open>The mapper\<close>

text \<open>The devices seen bound to \<open>usbip-host\<close> are the mapper's state.\<close>

definition mapUSBDriverEvent ::
  "int \<Rightarrow> uevent_fields \<Rightarrow> string \<Rightarrow> string list \<Rightarrow> Event option \<times> string list" where
  "mapUSBDriverEvent now fs devpath hostBound =
     (case usbipHostBusIDPattern devpath of
        None \<Rightarrow> (None, hostBound)
      | Some busID \<Rightarrow>
          if field fs ''ACTION'' = ueventActionBind then
            (if field fs ''DRIVER'' \<noteq> usbipHostDriverName then (None, hostBound)
             else (Some (DeviceBoundEvent now (event_device busID devpath)), List.insert busID hostBound))
          else if field fs ''ACTION'' = ueventActionUnbind then
            (if busID \<notin> set hostBound then (None, hostBound)
             else (Some (DeviceUnboundEvent now (event_device busID devpath)), removeAll busID hostBound))
          else (None, hostBound))"

definition mapEvent ::
  "int \<Rightarrow> (nat \<Rightarrow> go_error + Topology) \<Rightarrow> uevent_fields \<Rightarrow> string list \<Rightarrow> Event option \<times> string list" where
  "mapEvent now load fs hostBound =
     (if \<not> isInterestingUevent fs then (None, hostBound)
      else let action = field fs ''ACTION''
        in case fs ''DEVPATH'' of
          None \<Rightarrow> (None, hostBound)
        | Some devpath \<Rightarrow>
            if field fs ''SUBSYSTEM'' = ueventSubsystemUSB
               \<and> (action = ueventActionBind \<or> action = ueventActionUnbind)
            then mapUSBDriverEvent now fs devpath hostBound
            else if field fs ''SUBSYSTEM'' = ueventSubsystemUDC then (mapUDCEvent now action devpath, hostBound)
            else (mapVhciEvent now load action devpath, hostBound))"

section \<open>The dispatcher\<close>

definition subscriberChanBuffer :: nat where "subscriberChanBuffer = 32"

record event_chan =
  ecBuf :: "Event list"
  ecClosed :: bool

text \<open>Sending without waiting; \<open>None\<close> is the panic of a send on a closed channel.\<close>

definition send_nb :: "Event \<Rightarrow> event_chan \<Rightarrow> event_chan option" where
  "send_nb ev ch =
     (if ecClosed ch then None
      else if length (ecBuf ch) < subscriberChanBuffer then Some (ch\<lparr>ecBuf := ecBuf ch @ [ev]\<rparr>)
      else Some ch)"

definition close_chan :: "event_chan \<Rightarrow> event_chan option" where
  "close_chan ch = (if ecClosed ch then None else Some (ch\<lparr>ecClosed := True\<rparr>))"

text \<open>Identifiers are given out in sequence, so the channel of subscriber \<open>id\<close> is the \<open>id\<close>-th one
  created (the head of \<open>edChans\<close> stands for the unused identifier 0).\<close>

record eventDispatcher =
  edChans :: "event_chan list"
  edSubscribers :: "nat list"
  edNextID :: nat

definition newDispatcher :: eventDispatcher where
  "newDispatcher = \<lparr>edChans = [\<lparr>ecBuf = [], ecClosed = True\<rparr>], edSubscribers = [], edNextID = 0\<rparr>"

definition addSubscriber :: "eventDispatcher \<Rightarrow> nat \<times> eventDispatcher" where
  "addSubscriber d =
     (let i = edNextID d + 1
      in (i, d\<lparr>edNextID := i, edChans := edChans d @ [\<lparr>ecBuf = [], ecClosed = False\<rparr>],
               edSubscribers := edSubscribers d @ [i]\<rparr>))"

definition removeSubscriber_id :: "nat \<Rightarrow> eventDispatcher \<Rightarrow> (bool \<times> eventDispatcher) option" where
  "removeSubscriber_id i d =
     (if i \<notin> set (edSubscribers d) then Some (False, d)
      else case close_chan (edChans d ! i) of
        None \<Rightarrow> None
      | Some ch \<Rightarrow>
          (let subs = removeAll i (edSubscribers d)
           in Some (subs = [], d\<lparr>edSubscribers := subs, edChans := (edChans d)[i := ch]\<rparr>)))"

fun on_each :: "(event_chan \<Rightarrow> event_chan option) \<Rightarrow> nat list \<Rightarrow> event_chan list \<Rightarrow> event_chan list option" where
  "on_each f [] chs = Some chs"
| "on_each f (i # is) chs = (case f (chs ! i) of None \<Rightarrow> None | Some ch \<Rightarrow> on_each f is (chs[i := ch]))"

definition closeAllDispatcher :: "eventDispatcher \<Rightarrow> eventDispatcher option" where
  "closeAllDispatcher d =
     map_option (\<lambda>chs. d\<lparr>edChans := chs, edSubscribers := []\<rparr>) (on_each close_chan (edSubscribers d) (edChans d))"

definition broadcast :: "Event \<Rightarrow> eventDispatcher \<Rightarrow> eventDispatcher option" where
  "broadcast ev d =
     map_option (\<lambda>chs. d\<lparr>edChans := chs\<rparr>) (on_each (send_nb ev) (edSubscribers d) (edChans d))"

text \<open>One \<open>Receive\<close> of the socket; \<open>EAGAIN\<close> and \<open>EWOULDBLOCK\<close> are the same number.\<close>

definition EAGAIN :: nat where "EAGAIN = 11"

definition receiveOne :: "go_error + string option \<Rightarrow> string option \<times> bool" where
  "receiveOne r =
     (case r of
        Inr payload \<Rightarrow> (payload, True)
      | Inl err \<Rightarrow> if errors_Is err (Errno EAGAIN) then (None, True) else (None, False))"

text \<open>The receive loop of the dispatcher: for each round whether the stop channel is closed, what the socket
  returns, the time and the topology loader; subscribing and unsubscribing happen in between.\<close>

datatype dispatch_op = DAdd | DRemove nat | DRound bool "go_error + string option" int "nat \<Rightarrow> go_error + Topology"

fun dispatch_run :: "dispatch_op list \<Rightarrow> string list \<Rightarrow> eventDispatcher \<Rightarrow> (bool \<times> eventDispatcher) option" where
  "dispatch_run [] hostBound d = Some (False, d)"
| "dispatch_run (DAdd # ops) hostBound d = dispatch_run ops hostBound (snd (addSubscriber d))"
| "dispatch_run (DRemove i # ops) hostBound d =
     (case removeSubscriber_id i d of None \<Rightarrow> None | Some (_, d) \<Rightarrow> dispatch_run ops hostBound d)"
| "dispatch_run (DRound stop r now load # ops) hostBound d =
     (if stop then map_option (Pair True) (closeAllDispatcher d)
      else case receiveOne r of
        (payload, keepRunning) \<Rightarrow>
          if \<not> keepRunning then map_option (Pair True) (closeAllDispatcher d)
          else case payload of
            None \<Rightarrow> dispatch_run ops hostBound d
          | Some payload \<Rightarrow>
              (case mapEvent now load (parseUeventFields payload) hostBound of
                 (None, hostBound) \<Rightarrow> dispatch_run ops hostBound d
               | (Some ev, hostBound) \<Rightarrow>
                   (case broadcast ev d of None \<Rightarrow> None | Some d \<Rightarrow> dispatch_run ops hostBound d)))"

definition chan_take :: "event_chan \<Rightarrow> event_chan" where
  "chan_take ch = ch\<lparr>ecBuf := tl (ecBuf ch)\<rparr>"

interpretation kernel_feed: event_feed "\<lambda>_. True" ecBuf "\<lambda>ch. \<not> ecClosed ch" subscriberChanBuffer
  "\<lambda>ev ch. case send_nb ev ch of None \<Rightarrow> ch | Some ch \<Rightarrow> ch" chan_take
  "\<lambda>ch. case close_chan ch of None \<Rightarrow> ch | Some ch \<Rightarrow> ch"
  by unfold_locales (auto simp: send_nb_def chan_take_def close_chan_def)

section \<open>Lemmas\<close>

lemma split_nul_token:
  "CHR 0x00 \<notin> set t \<Longrightarrow> split_nul cur (t @ CHR 0x00 # rest) = (if cur @ t = [] then [] else [cur @ t]) @ split_nul [] rest"
  by (induction t arbitrary: cur) auto

lemma cut_key: "CHR ''='' \<notin> set k \<Longrightarrow> cut (CHR ''='') (k @ CHR ''='' # v) = Some (k, v)"
  by (induction k) (auto simp: cut_def)

lemma field_loop_tokens:
  "\<forall>(k, v)\<in>set kvs. CHR ''='' \<notin> set k \<Longrightarrow>
     field_loop (map (\<lambda>(k, v). k @ ''='' @ v) kvs) out = out ++ map_of (rev kvs)"
proof (induction kvs arbitrary: out)
  case (Cons kv kvs)
  obtain k v where kv: "kv = (k, v)"
    by (cases kv)
  have "field_loop (map (\<lambda>(k, v). k @ ''='' @ v) (kv # kvs)) out
      = field_loop (map (\<lambda>(k, v). k @ ''='' @ v) kvs) (out(k \<mapsto> v))"
    using Cons.prems kv by (simp add: cut_key)
  also have "\<dots> = out(k \<mapsto> v) ++ map_of (rev kvs)"
    using Cons.IH Cons.prems by simp
  also have "\<dots> = out ++ map_of (rev (kv # kvs))"
    using kv by (auto simp: map_add_def fun_eq_iff split: option.splits)
  finally show ?case .
qed simp

text \<open>The two matchers used for bus ids.\<close>

lemma usbipHostBusIDPattern_lang: "usbipHostBusIDPattern p = Some b \<Longrightarrow> busid_lang b"
  by (auto simp: usbipHostBusIDPattern_def busIDPattern_lang Let_def split: if_splits)

lemma udcDevpathPattern_lang: "udcDevpathPattern p = Some b \<Longrightarrow> \<not> busid_lang b"
proof
  assume "udcDevpathPattern p = Some b" "busid_lang b"
  hence "HasPrefix b ''usbip-vudc.''"
    by (auto simp: udcDevpathPattern_def Let_def split: if_splits)
  hence "CHR ''u'' \<in> set b"
    by (cases b) (auto simp: HasPrefix_def)
  thus False
    using busid_lang_chars [OF \<open>busid_lang b\<close>] by (fastforce simp: is_digit_def less_eq_char_def)
qed

lemma vhciDevpathPattern_lang: "vhciDevpathPattern p = Some (c, u, f, r) \<Longrightarrow> busid_lang f"
  by (auto simp: vhciDevpathPattern_def busIDPattern_lang Let_def split: if_splits)

text \<open>Only a device that is bound according to the events so far is reported unbound.\<close>

fun open_hosts :: "Event list \<Rightarrow> string set \<Rightarrow> string set" where
  "open_hosts [] H = H"
| "open_hosts (DeviceBoundEvent t d # evs) H = open_hosts evs (insert (dBusID d) H)"
| "open_hosts (DeviceUnboundEvent t d # evs) H = open_hosts evs (H - {dBusID d})"
| "open_hosts (ev # evs) H = open_hosts evs H"

fun map_all :: "(int \<times> (nat \<Rightarrow> go_error + Topology) \<times> uevent_fields) list \<Rightarrow> string list \<Rightarrow> Event list" where
  "map_all [] hb = []"
| "map_all ((now, load, fs) # msgs) hb =
     (case mapEvent now load fs hb of
        (None, hb) \<Rightarrow> map_all msgs hb
      | (Some ev, hb) \<Rightarrow> ev # map_all msgs hb)"

lemma subsystems_differ: "ueventSubsystemUDC \<noteq> ueventSubsystemUSB"
  by (simp add: uevent_names)

lemma mapEvent_cases:
  assumes "mapEvent now load fs hb = (m, hb')"
  shows "(hb' = hb \<and> (m = None \<or> (\<exists>d. \<not> busid_lang (dBusID d) \<and> (m = Some (DeviceBoundEvent now d) \<or> m = Some (DeviceUnboundEvent now d)))
            \<or> (\<exists>p f a. m = vhciActionToEvent now a p f)))
    \<or> (\<exists>d. busid_lang (dBusID d)
         \<and> ((m = Some (DeviceBoundEvent now d) \<and> hb' = List.insert (dBusID d) hb)
          \<or> (m = Some (DeviceUnboundEvent now d) \<and> dBusID d \<in> set hb \<and> hb' = removeAll (dBusID d) hb)))"
proof (cases "fs ''DEVPATH''")
  case None
  thus ?thesis
    using assms by (auto simp: mapEvent_def Let_def split: if_splits)
next
  case (Some devpath)
  consider (none) "m = None" "hb' = hb"
    | (usb) "mapUSBDriverEvent now fs devpath hb = (m, hb')"
    | (udc) "m = mapUDCEvent now (field fs ''ACTION'') devpath" "hb' = hb"
    | (vhci) "m = mapVhciEvent now load (field fs ''ACTION'') devpath" "hb' = hb"
    using assms Some
    by (cases "isInterestingUevent fs"; cases "field fs ''SUBSYSTEM'' = ueventSubsystemUSB
          \<and> (field fs ''ACTION'' = ueventActionBind \<or> field fs ''ACTION'' = ueventActionUnbind)";
        cases "field fs ''SUBSYSTEM'' = ueventSubsystemUDC") (simp_all add: mapEvent_def Let_def subsystems_differ)
  thus ?thesis
  proof cases
    case none
    thus ?thesis by simp
  next
    case usb
    have dev: "dBusID (event_device b devpath) = b" for b
      by (simp add: event_device_def)
    show ?thesis
    proof (cases "usbipHostBusIDPattern devpath")
      case None
      thus ?thesis using usb by (simp add: mapUSBDriverEvent_def)
    next
      case (Some b)
      thus ?thesis
        using usb usbipHostBusIDPattern_lang [OF Some] dev [of b]
        by (auto simp: mapUSBDriverEvent_def split: if_splits intro: exI [of _ "event_device b devpath"])
    qed
  next
    case udc
    have dev: "dBusID (event_device b devpath) = b" for b
      by (simp add: event_device_def)
    show ?thesis
      using udc dev udcDevpathPattern_lang [of devpath]
      by (auto simp: mapUDCEvent_def split: option.splits if_splits)
  next
    case vhci
    thus ?thesis
      by (auto simp: mapVhciEvent_def split: option.splits sum.splits if_splits)
  qed
qed

definition is_port_event :: "Event \<Rightarrow> bool" where
  "is_port_event ev \<longleftrightarrow> (case ev of PortAttachedEvent _ _ \<Rightarrow> True | PortDetachedEvent _ _ _ \<Rightarrow> True
     | PortErroredEvent _ _ _ \<Rightarrow> True | _ \<Rightarrow> False)"

lemma vhciActionToEvent_port:
  "vhciActionToEvent now a p f = Some ev \<Longrightarrow> is_port_event ev \<and> evPort ev = event_port p f"
  by (auto simp: vhciActionToEvent_def is_port_event_def split: if_splits)

lemma open_hosts_append: "open_hosts (xs @ ys) H = open_hosts ys (open_hosts xs H)"
  by (induction xs H rule: open_hosts.induct) simp_all

text \<open>The mapper's set is the set of open hosts among the topology-named devices.\<close>

lemma map_all_paired:
  assumes "map_all msgs hb = xs @ DeviceUnboundEvent t d # ys" "busid_lang (dBusID d)"
    "\<forall>b. busid_lang b \<longrightarrow> (b \<in> set hb \<longleftrightarrow> b \<in> H)"
  shows "dBusID d \<in> open_hosts xs H"
  using assms
proof (induction msgs arbitrary: hb xs H)
  case (Cons msg msgs)
  obtain now load fs where msg: "msg = (now, load, fs)"
    by (cases msg)
  obtain m hb' where me: "mapEvent now load fs hb = (m, hb')"
    by fastforce
  show ?case
  proof (cases m)
    case None
    hence "hb' = hb"
      using mapEvent_cases [OF me] by auto
    thus ?thesis
      using Cons None me msg by simp
  next
    case (Some ev)
    hence all: "ev # map_all msgs hb' = xs @ DeviceUnboundEvent t d # ys"
      using Cons.prems(1) me msg by simp
    have keep: "\<forall>b. busid_lang b \<longrightarrow> (b \<in> set hb' \<longleftrightarrow> b \<in> open_hosts [ev] H)"
      using mapEvent_cases [OF me] Some Cons.prems(3)
      by (auto simp: vhciActionToEvent_def split: if_splits)
    show ?thesis
    proof (cases xs)
      case Nil
      hence "ev = DeviceUnboundEvent t d"
        using all by simp
      hence "dBusID d \<in> set hb"
        using mapEvent_cases [OF me] Some Cons.prems(2) by (auto simp: vhciActionToEvent_def split: if_splits)
      thus ?thesis
        using Nil Cons.prems(2,3) by simp
    next
      case (Cons x xs')
      thus ?thesis
        using Cons.IH [OF _ Cons.prems(2) keep, of xs'] all open_hosts_append [of "[x]" xs' H] by simp
    qed
  qed
qed simp

lemma resolve_loop_Some:
  "resolve_loop load c u r as = Some (topo, loc) \<Longrightarrow>
     \<exists>i\<in>set as. load i = Inr topo \<and> vhciEventLocation topo c u r = Some loc"
  by (induction load c u r as rule: resolve_loop.induct) (auto split: sum.splits option.splits)

lemma mapVhciEvent_location:
  assumes "mapVhciEvent now load action devpath = Some ev"
  shows "\<exists>i topo loc rh full. i < 2 \<and> load i = Inr topo \<and> valid_location topo loc rh \<and> loc \<in> snd ` set (BusMap topo)
    \<and> busid_lang full \<and> is_port_event ev \<and> evPort ev = event_port (FlatPort topo loc rh) full"
proof -
  obtain c u full r where m: "vhciDevpathPattern devpath = Some (c, u, full, r)"
    using assms by (cases "vhciDevpathPattern devpath") (auto simp: mapVhciEvent_def)
  obtain controller usbBus root topo loc where nums: "ParseUint r 10 32 = Inr root" "\<not> root < 1"
    and res: "resolveEventLocation load controller usbBus root = Some (topo, loc)"
    and ev: "vhciActionToEvent now action (FlatPort topo loc (of_nat root - 1)) full = Some ev"
    using assms m by (auto simp: mapVhciEvent_def split: sum.splits if_splits option.splits)
  obtain i where i: "i < 2" "load i = Inr topo" "vhciEventLocation topo controller usbBus root = Some loc"
    using resolve_loop_Some [OF res [unfolded resolveEventLocation_def]] by (auto simp: vhciTopologyMaxAttempts_def)
  have root: "root < 2 ^ 32"
    using ParseUint_bound [OF nums(1)] .
  have "of_nat root - 1 = (of_nat (root - 1) :: u32)"
    using nums(2) by (simp add: of_nat_diff)
  hence "unat (of_nat root - 1 :: u32) = root - 1"
    using root by (simp add: unat_of_nat)
  moreover have "ControllerIdx loc < NControllers topo" "root \<le> unat (HCPorts topo)" "loc \<in> snd ` set (BusMap topo)"
    using i(3) by (auto simp: vhciEventLocation_def dest: map_of_SomeD split: if_splits option.splits)
      (metis image_eqI snd_conv map_of_SomeD)
  ultimately have "valid_location topo loc (of_nat root - 1)"
    using nums(2) by (auto simp: valid_location_def word_less_nat_alt)
  thus ?thesis
    using i(1,2) vhciActionToEvent_port [OF ev] vhciDevpathPattern_lang [OF m] \<open>loc \<in> snd ` set (BusMap topo)\<close> by blast
qed

text \<open>The dispatcher never closes a channel twice and never sends on a closed one.\<close>

definition dispatcher_inv :: "eventDispatcher \<Rightarrow> bool" where
  "dispatcher_inv d \<longleftrightarrow> length (edChans d) = Suc (edNextID d) \<and> distinct (edSubscribers d)
     \<and> set (edSubscribers d) \<subseteq> {..<length (edChans d)}
     \<and> (\<forall>i<length (edChans d). (ecClosed (edChans d ! i) \<longleftrightarrow> i \<notin> set (edSubscribers d))
          \<and> length (ecBuf (edChans d ! i)) \<le> subscriberChanBuffer)"

lemma on_each_nth:
  assumes "distinct is" "\<forall>i\<in>set is. i < length chs \<and> f (chs ! i) \<noteq> None"
  shows "\<exists>chs'. on_each f is chs = Some chs' \<and> length chs' = length chs
    \<and> (\<forall>i<length chs. chs' ! i = (if i \<in> set is then the (f (chs ! i)) else chs ! i))"
  using assms
proof (induction "is" arbitrary: chs)
  case (Cons i "is")
  obtain ch where ch: "f (chs ! i) = Some ch"
    using Cons.prems(2) by auto
  have "\<forall>j\<in>set is. j < length (chs[i := ch]) \<and> f (chs[i := ch] ! j) \<noteq> None"
    using Cons.prems by (auto simp: nth_list_update)
  then obtain chs' where c: "on_each f is (chs[i := ch]) = Some chs'" "length chs' = length chs"
    "\<forall>j<length chs. chs' ! j = (if j \<in> set is then the (f (chs[i := ch] ! j)) else chs[i := ch] ! j)"
    using Cons.IH [of "chs[i := ch]"] Cons.prems(1) by auto
  have "chs' ! j = (if j \<in> set (i # is) then the (f (chs ! j)) else chs ! j)" if "j < length chs" for j
    using c(3) that Cons.prems(1) ch by (cases "j = i") auto
  thus ?case
    using c(1,2) ch by simp
qed simp

lemma addSubscriber_inv: "dispatcher_inv d \<Longrightarrow> dispatcher_inv (snd (addSubscriber d))"
  by (auto simp: dispatcher_inv_def addSubscriber_def Let_def nth_append less_Suc_eq)

lemma removeSubscriber_inv:
  assumes "dispatcher_inv d"
  shows "\<exists>e d'. removeSubscriber_id i d = Some (e, d') \<and> dispatcher_inv d'"
proof (cases "i \<in> set (edSubscribers d)")
  case True
  hence "\<not> ecClosed (edChans d ! i)" "i < length (edChans d)"
    using assms by (auto simp: dispatcher_inv_def)
  thus ?thesis
    using assms True
    by (auto simp: removeSubscriber_id_def close_chan_def dispatcher_inv_def nth_list_update distinct_removeAll Let_def)
qed (use assms in \<open>auto simp: removeSubscriber_id_def\<close>)

lemma broadcast_inv:
  assumes "dispatcher_inv d"
  shows "\<exists>d'. broadcast ev d = Some d' \<and> dispatcher_inv d' \<and> edSubscribers d' = edSubscribers d
    \<and> (\<forall>i\<in>set (edSubscribers d). edChans d' ! i =
          (if length (ecBuf (edChans d ! i)) < subscriberChanBuffer
           then (edChans d ! i)\<lparr>ecBuf := ecBuf (edChans d ! i) @ [ev]\<rparr> else edChans d ! i))"
proof -
  have sub: "\<forall>i\<in>set (edSubscribers d). i < length (edChans d) \<and> \<not> ecClosed (edChans d ! i)"
    using assms by (auto simp: dispatcher_inv_def)
  hence "\<forall>i\<in>set (edSubscribers d). i < length (edChans d) \<and> send_nb ev (edChans d ! i) \<noteq> None"
    by (simp add: send_nb_def)
  then obtain chs where c: "on_each (send_nb ev) (edSubscribers d) (edChans d) = Some chs" "length chs = length (edChans d)"
    "\<forall>i<length (edChans d). chs ! i = (if i \<in> set (edSubscribers d) then the (send_nb ev (edChans d ! i)) else edChans d ! i)"
    using on_each_nth assms unfolding dispatcher_inv_def by blast
  have "dispatcher_inv (d\<lparr>edChans := chs\<rparr>)"
    using assms c(2,3) sub by (auto simp: dispatcher_inv_def send_nb_def)
  thus ?thesis
    using c sub by (auto simp: broadcast_def send_nb_def)
qed

lemma closeAllDispatcher_inv:
  assumes "dispatcher_inv d"
  shows "\<exists>d'. closeAllDispatcher d = Some d' \<and> dispatcher_inv d' \<and> edSubscribers d' = []"
proof -
  have sub: "\<forall>i\<in>set (edSubscribers d). i < length (edChans d) \<and> close_chan (edChans d ! i) \<noteq> None"
    using assms by (auto simp: dispatcher_inv_def close_chan_def)
  then obtain chs where c: "on_each close_chan (edSubscribers d) (edChans d) = Some chs" "length chs = length (edChans d)"
    "\<forall>i<length (edChans d). chs ! i = (if i \<in> set (edSubscribers d) then the (close_chan (edChans d ! i)) else edChans d ! i)"
    using on_each_nth assms unfolding dispatcher_inv_def by blast
  have "dispatcher_inv (d\<lparr>edChans := chs, edSubscribers := []\<rparr>)"
    using assms c(2,3) by (auto simp: dispatcher_inv_def close_chan_def)
  thus ?thesis
    using c(1) by (simp add: closeAllDispatcher_def)
qed

lemma dispatch_round_inv:
  assumes "dispatcher_inv d"
  obtains
    (ended) d1 where "dispatch_run (DRound stop r now load # ops) hb d = Some (True, d1)" "dispatcher_inv d1" "edSubscribers d1 = []"
  | (continued) hb' d' where "dispatch_run (DRound stop r now load # ops) hb d = dispatch_run ops hb' d'" "dispatcher_inv d'"
proof (cases "stop \<or> \<not> snd (receiveOne r)")
  case True
  obtain d1 where "closeAllDispatcher d = Some d1" "dispatcher_inv d1" "edSubscribers d1 = []"
    using closeAllDispatcher_inv [OF assms] by blast
  with True show ?thesis
    by (intro ended [of d1]) (auto simp: case_prod_beta)
next
  case go: False
  show ?thesis
  proof (cases "fst (receiveOne r)")
    case None
    thus ?thesis
      using go assms by (intro continued [of hb d]) (simp_all add: case_prod_beta)
  next
    case (Some payload)
    obtain m hb' where m: "mapEvent now load (parseUeventFields payload) hb = (m, hb')"
      by fastforce
    show ?thesis
    proof (cases m)
      case None
      thus ?thesis
        using go Some m assms by (intro continued [of hb' d]) (simp_all add: case_prod_beta)
    next
      case ev: (Some ev)
      obtain d2 where "broadcast ev d = Some d2" "dispatcher_inv d2"
        using broadcast_inv [OF assms] by blast
      thus ?thesis
        using go Some m ev by (intro continued [of hb' d2]) (simp_all add: case_prod_beta)
    qed
  qed
qed

lemma dispatch_run_inv:
  "dispatcher_inv d \<Longrightarrow> \<exists>ended d'. dispatch_run ops hb d = Some (ended, d') \<and> dispatcher_inv d' \<and> (ended \<longrightarrow> edSubscribers d' = [])"
proof (induction ops arbitrary: hb d)
  case (Cons x ops)
  show ?case
  proof (cases x)
    case DAdd
    thus ?thesis
      using Cons addSubscriber_inv by simp
  next
    case (DRemove i)
    thus ?thesis
      using Cons removeSubscriber_inv [OF Cons.prems, of i] by fastforce
  next
    case (DRound stop r now load)
    thus ?thesis
      using Cons.IH by (cases rule: dispatch_round_inv [OF Cons.prems, of stop r now load ops hb]) auto
  qed
qed auto

lemma discoverTopology_status:
  assumes "discoverTopology fs = Some (Inr topo)"
  shows "\<exists>st. discoverStatusTopology fs = Some (Inr st) \<and> Topology_Status topo = st"
proof -
  obtain r where r: "discoverStatusTopology fs = Some r"
    using assms by (auto simp: discoverTopology_def)
  obtain st where st: "r = Inr st"
    using assms r by (cases r) (auto simp: discoverTopology_def)
  obtain bm where "buildBusMap fs (stNControllers st) = Inr bm"
    using assms r st by (cases "buildBusMap fs (stNControllers st)") (auto simp: discoverTopology_def)
  thus ?thesis
    using assms r st by (auto simp: discoverTopology_def Topology_Status_def split: if_splits)
qed

section \<open>Properties\<close>

definition uevent_message :: "string \<Rightarrow> (string \<times> string) list \<Rightarrow> string" where
  "uevent_message header kvs = header @ [CHR 0x00] @ concat (map (\<lambda>(k, v). k @ ''='' @ v @ [CHR 0x00]) kvs)"

text \<open>The parser reads back the kernel's message format: a non-empty header followed by key=value strings, each
  ended by a zero byte, gives exactly those fields, the last value winning for a repeated key, whatever
  the values contain besides zero bytes.\<close>
theorem uevent_fields_roundtrip:
  assumes "header \<noteq> []" "CHR 0x00 \<notin> set header"
    and "\<forall>(k, v)\<in>set kvs. CHR ''='' \<notin> set k \<and> CHR 0x00 \<notin> set k \<and> CHR 0x00 \<notin> set v"
  shows "parseUeventFields (uevent_message header kvs) = map_of (rev kvs)"
proof -
  have "split_nul [] (concat (map (\<lambda>(k, v). k @ ''='' @ v @ [CHR 0x00]) kvs)) = map (\<lambda>(k, v). k @ ''='' @ v) kvs"
    using assms(3)
  proof (induction kvs)
    case (Cons kv kvs)
    obtain k v where kv: "kv = (k, v)"
      by (cases kv)
    have "CHR 0x00 \<notin> set (k @ ''='' @ v)"
      using Cons.prems kv by auto
    from split_nul_token [OF this, of "[]"] show ?case
      using Cons kv by simp
  qed simp
  hence "splitNULBytes (uevent_message header kvs) = header # map (\<lambda>(k, v). k @ ''='' @ v) kvs"
    using assms(1,2) split_nul_token [of header "[]"] by (simp add: splitNULBytes_def uevent_message_def)
  moreover have "\<forall>(k, v)\<in>set kvs. CHR ''='' \<notin> set k"
    using assms(3) by auto
  ultimately show ?thesis
    using field_loop_tokens [of kvs Map.empty] by (simp add: parseUeventFields_def)
qed

theorem uevent_fields_roundtrip_witness:
  "parseUeventFields (uevent_message ''add@/x'' [(''ACTION'', ''add''), (''DEVPATH'', ''/x=y'')]) ''DEVPATH'' = Some ''/x=y''"
  using uevent_fields_roundtrip [of "''add@/x''" "[(''ACTION'', ''add''), (''DEVPATH'', ''/x=y'')]"] by simp

text \<open>A port event names a real port.  Whenever a uevent is mapped to a port event and the topologies that could
  be loaded come from discovery, the port is below the number of ports the kernel announced, it is the
  number of a root hub port of a hub in the bus map, and the bus id is a topology path.\<close>
theorem uevent_ports_real:
  assumes "mapVhciEvent now load action devpath = Some ev"
    and "\<forall>i topo. load i = Inr topo \<longrightarrow> discoverTopology fs = Some (Inr topo)"
    and "ReadUint fs (path_Join [SysfsVHCIHCD, SysfsVHCINPorts]) = Inr nports"
    and "probeControllerCount fs = Some (Inr n)" "unat n < 2 ^ 31"
  shows "is_port_event ev \<and> pID (evPort ev) < nports \<and> busid_lang (pLocalBusID (evPort ev))
    \<and> (\<exists>topo loc rh. discoverTopology fs = Some (Inr topo) \<and> loc \<in> snd ` set (BusMap topo) \<and> rh < HCPorts topo
         \<and> pID (evPort ev) = FlatPort topo loc rh)"
proof -
  obtain i topo loc rh full where l: "load i = Inr topo" "valid_location topo loc rh" "loc \<in> snd ` set (BusMap topo)"
    "busid_lang full" "is_port_event ev" "evPort ev = event_port (FlatPort topo loc rh) full"
    using mapVhciEvent_location [OF assms(1)] by blast
  have disc: "discoverTopology fs = Some (Inr topo)"
    using assms(2) l(1) by blast
  then obtain st where st: "discoverStatusTopology fs = Some (Inr st)" "Topology_Status topo = st"
    using discoverTopology_status by blast
  have "deriveHCPorts nports (NControllers topo) = Inr (HCPorts topo)" "VHCIPorts topo = HCPorts topo * hubsPerController"
    "NControllers topo = n"
    using discoverStatus_Inr [OF st(1) assms(3)] st(2) assms(4) by (auto simp: Topology_Status_def)
  hence d: "unat (VHCIPorts topo) = 2 * unat (HCPorts topo)" "unat (NControllers topo) * (2 * unat (HCPorts topo)) = unat nports"
    using deriveHCPorts_Inr assms(5) by simp_all
  have "unat (NControllers topo) * (2 * unat (HCPorts topo)) < 2 ^ 32"
    using d(2) unsigned_less [of nports, where 'a = nat] by simp
  from FlatPort_unat [OF this d(1) l(2)] have "FlatPort topo loc rh < nports"
    using flat_nat_bound [OF l(2)] d(2) by (simp add: word_less_nat_alt)
  thus ?thesis
    using l disc by (auto simp: event_port_def valid_location_def)
qed

text \<open>The example machine with the two hubs of its controller on buses 1 and 2.\<close>

definition hub_fs :: sysfs where
  "hub_fs = sample_sysfs
     \<lparr>sfReadDir := (\<lambda>_. Inr [(''usb1'', True), (''usb2'', True)]),
      sfOpen := (\<lambda>p. if p \<in> {''sys/devices/platform/vhci_hcd.0/usb1/busnum'', ''sys/devices/platform/vhci_hcd.0/usb2/busnum''}
                    then None else sfOpen sample_sysfs p),
      sfRead := (\<lambda>p. if p = ''sys/devices/platform/vhci_hcd.0/usb1/busnum'' then Inr ''1''
                    else if p = ''sys/devices/platform/vhci_hcd.0/usb2/busnum'' then Inr ''2'' else sfRead sample_sysfs p)\<rparr>"

lemma FormatUint_0: "FormatUint 0 = ''0''"
  by code_simp

lemma hub_busnum:
  "ReadUint hub_fs (path_Join [vhciHCDPlatform 0, ''usb1'', ''busnum'']) = Inr 1"
  "ReadUint hub_fs (path_Join [vhciHCDPlatform 0, ''usb2'', ''busnum'']) = Inr 2"
proof -
  have "TrimSpace ''1'' = ''1''" "TrimSpace ''2'' = ''2''"
    by (rule TrimSpace_plain; simp add: space_byte_def)+
  moreover have "ParseUint ''1'' 10 32 = Inr 1" "ParseUint ''2'' 10 32 = Inr 2"
    by (simp_all add: ParseUint_def digit_val_def less_eq_char_def)
  moreover have "vhciHCDPlatform 0 = ''/sys/devices/platform/vhci_hcd.0''"
    using FormatUint_0 by (simp add: vhciHCDPlatform_def)
  ultimately show "ReadUint hub_fs (path_Join [vhciHCDPlatform 0, ''usb1'', ''busnum'']) = Inr 1"
    "ReadUint hub_fs (path_Join [vhciHCDPlatform 0, ''usb2'', ''busnum'']) = Inr 2"
    by (simp_all add: ReadUint_def ReadLine_def readFileBytes_def hub_fs_def path_Join_def path_Clean_def fsPathFromAbs_def)
qed

lemma hub_same:
  assumes "p \<notin> {''sys/devices/platform/vhci_hcd.0/usb1/busnum'', ''sys/devices/platform/vhci_hcd.0/usb2/busnum''}"
  shows "sfOpen hub_fs p = sfOpen sample_sysfs p" "sfRead hub_fs p = sfRead sample_sysfs p"
  using assms by (auto simp: hub_fs_def)

lemma hub_nports: "ReadUint hub_fs (path_Join [SysfsVHCIHCD, SysfsVHCINPorts]) = Inr 8"
proof -
  let ?p = "path_Join [SysfsVHCIHCD, SysfsVHCINPorts]"
  have "fsPathFromAbs ?p = ''sys/devices/platform/vhci_hcd.0/nports''"
    by (simp add: path_Join_def path_Clean_def sysfs_paths fsPathFromAbs_def)
  hence "readFileBytes hub_fs ?p = readFileBytes sample_sysfs ?p"
    by (simp add: readFileBytes_def hub_same split: option.split)
  thus ?thesis
    using sample_nports by (simp add: ReadUint_def ReadLine_def)
qed

lemma hub_discover: "discoverTopology hub_fs = Some (Inr sample_topology)" "probeControllerCount hub_fs = Some (Inr 1)"
proof -
  have "statusFileState hub_fs 0 = Inr True" "statusFileState hub_fs 1 = Inr False"
    by (simp_all add: statusFileState_def statusFileName_def path_Join_def path_Clean_def sysfs_paths
        fsPathFromAbs_def hub_fs_def sample_sysfs_def no_files_def FormatUint.simps Is_NotExist_def)
  hence probe: "probe_loop hub_fs 0 0 = Some (Inr 1)"
    using probe_loop_counts [of 1 hub_fs 0 0] by simp
  thus "probeControllerCount hub_fs = Some (Inr 1)"
    by (simp add: probeControllerCount_def)
  hence "discoverStatusTopology hub_fs = Some (Inr (Topology_Status sample_topology))"
    using hub_nports by (simp add: discoverStatusTopology_def deriveHCPorts_def hubsPerController_def
        Topology_Status_def sample_topology_def)
  moreover have "collectUSBChildren hub_fs (vhciHCDPlatform 0) [(''usb1'', True), (''usb2'', True)] = Inr [(1, ''usb1''), (2, ''usb2'')]"
    using hub_busnum by (simp add: usbChildPrefix_def usbChildBusnum_def HasPrefix_def)
  hence "buildBusMap hub_fs 1 = Inr (BusMap sample_topology)"
    by (simp add: buildBusMap_def appendControllerBusMap_def hub_fs_def hubsPerController_def sort_children_def
        hubByRank_def sample_topology_def enumerate_eq_zip)
  ultimately show "discoverTopology hub_fs = Some (Inr sample_topology)"
    by (simp add: discoverTopology_def Topology_Status_def sample_topology_def hubsPerController_def)
qed

lemma sample_pattern: "vhciDevpathPattern ''/devices/platform/vhci_hcd.0/usb1/1-2'' = Some (''0'', ''1'', ''1-2'', ''2'')"
proof -
  have "busid_lang ''1-2''"
    unfolding busid_lang_def
    by (rule exI [of _ "''1''"], rule exI [of _ "''2''"], rule exI [of _ "[]"])
      (simp add: topology_text_def numeral_text_def is_digit_def less_eq_char_def)
  thus ?thesis
    by (simp add: vhciDevpathPattern_def HasPrefix_def busIDPattern_lang is_digit_def less_eq_char_def)
qed

lemma sample_mapped:
  "mapVhciEvent 5 (\<lambda>_. Inr sample_topology) ''add'' ''/devices/platform/vhci_hcd.0/usb1/1-2'' =
     Some (PortAttachedEvent 5 (event_port 1 ''1-2''))"
proof -
  have "ParseUint ''0'' 10 64 = Inr 0" "ParseUint ''1'' 10 64 = Inr 1" "ParseUint ''2'' 10 32 = Inr 2"
    by (simp_all add: ParseUint_def digit_val_def less_eq_char_def)
  moreover have "resolveEventLocation (\<lambda>_. Inr sample_topology) 0 1 2 =
      Some (sample_topology, \<lparr>ControllerIdx = 0, Hub = HubTypeHS\<rparr>)"
    by (simp add: resolveEventLocation_def vhciTopologyMaxAttempts_def vhciEventLocation_def sample_topology_def
        upt_conv_Cons)
  moreover have "FlatPort sample_topology \<lparr>ControllerIdx = 0, Hub = HubTypeHS\<rparr> 1 = 1"
    by (simp add: FlatPort_def hubOffset_def)
  ultimately show ?thesis
    by (simp add: mapVhciEvent_def sample_pattern vhciActionToEvent_def ueventActionAdd_def)
qed

theorem uevent_ports_real_witness: "(1 :: u32) < 8 \<and> busid_lang ''1-2''"
  using uevent_ports_real [OF sample_mapped _ hub_nports hub_discover(2)] hub_discover(1) by (simp add: event_port_def)

text \<open>The dispatcher is safe and its subscribers are independent.  No order of subscribing, unsubscribing,
  receiving and stopping makes it close a channel twice or send on a closed one; exactly the subscribers'
  channels are open, none holds more than thirty-two events, and when the loop ends all are closed.  In
  every such state an event goes to each subscriber with room, whatever the others hold.\<close>
theorem dispatcher_sound:
  "\<exists>ended d. dispatch_run ops [] newDispatcher = Some (ended, d) \<and> (ended \<longrightarrow> edSubscribers d = [])
    \<and> (\<forall>i<length (edChans d). (ecClosed (edChans d ! i) \<longleftrightarrow> i \<notin> set (edSubscribers d))
         \<and> length (ecBuf (edChans d ! i)) \<le> subscriberChanBuffer)
    \<and> (\<exists>d'. broadcast ev d = Some d' \<and> (\<forall>i\<in>set (edSubscribers d). edChans d' ! i =
          (if length (ecBuf (edChans d ! i)) < subscriberChanBuffer
           then (edChans d ! i)\<lparr>ecBuf := ecBuf (edChans d ! i) @ [ev]\<rparr> else edChans d ! i)))"
proof -
  have "dispatcher_inv newDispatcher"
    by (simp add: dispatcher_inv_def newDispatcher_def)
  then obtain ended d where d: "dispatch_run ops [] newDispatcher = Some (ended, d)" "dispatcher_inv d"
    "ended \<longrightarrow> edSubscribers d = []"
    using dispatch_run_inv by blast
  moreover have "\<forall>i<length (edChans d). (ecClosed (edChans d ! i) \<longleftrightarrow> i \<notin> set (edSubscribers d))
      \<and> length (ecBuf (edChans d ! i)) \<le> subscriberChanBuffer"
    using d(2) by (simp add: dispatcher_inv_def)
  ultimately show ?thesis
    using broadcast_inv [OF d(2), of ev] by blast
qed

definition two_subscribers :: eventDispatcher where
  "two_subscribers = \<lparr>edChans = [\<lparr>ecBuf = [], ecClosed = True\<rparr>, \<lparr>ecBuf = [], ecClosed = True\<rparr>, \<lparr>ecBuf = [], ecClosed = False\<rparr>],
     edSubscribers = [2], edNextID = 2\<rparr>"

lemma two_subscribers_run: "dispatch_run [DAdd, DAdd, DRemove 1] [] newDispatcher = Some (False, two_subscribers)"
  by (simp add: newDispatcher_def two_subscribers_def addSubscriber_def removeSubscriber_id_def close_chan_def Let_def)

theorem dispatcher_sound_witness:
  "\<exists>d. broadcast (DeviceBoundEvent 0 (event_device ''1-1'' ''/1-1'')) two_subscribers = Some d
     \<and> ecBuf (edChans d ! 2) = [DeviceBoundEvent 0 (event_device ''1-1'' ''/1-1'')]"
proof -
  have *: "2 \<in> set (edSubscribers two_subscribers)" "ecBuf (edChans two_subscribers ! 2) = []" "0 < subscriberChanBuffer"
    by (simp_all add: two_subscribers_def subscriberChanBuffer_def)
  show ?thesis
    using dispatcher_sound [of "[DAdd, DAdd, DRemove 1]" "DeviceBoundEvent 0 (event_device ''1-1'' ''/1-1'')"] *
    unfolding two_subscribers_run by auto
qed

text \<open>Unbind events are paired with bind events.  In the events mapped from any sequence of uevents, a device
  with a topology bus id is reported unbound only while it is open, that is after it was reported bound
  and not yet reported unbound since.\<close>
theorem host_events_paired:
  assumes "map_all msgs [] = xs @ DeviceUnboundEvent t d # ys" "busid_lang (dBusID d)"
  shows "dBusID d \<in> open_hosts xs {}"
  using map_all_paired [OF assms, of "{}"] by simp

definition bind_fields :: "string \<Rightarrow> uevent_fields" where
  "bind_fields action = [''SUBSYSTEM'' \<mapsto> ''usb'', ''ACTION'' \<mapsto> action, ''DEVPATH'' \<mapsto> ''/1-1'', ''DRIVER'' \<mapsto> ''usbip-host'']"

theorem host_events_paired_witness:
  "''1-1'' \<in> open_hosts [DeviceBoundEvent 0 (event_device ''1-1'' ''/1-1'')] {}"
proof -
  have pat: "busid_lang ''1-1''"
    unfolding busid_lang_def
    by (rule exI [of _ "''1''"], rule exI [of _ "''1''"], rule exI [of _ "[]"])
      (simp add: topology_text_def numeral_text_def is_digit_def less_eq_char_def)
  hence "usbipHostBusIDPattern ''/1-1'' = Some ''1-1''"
    by (simp add: usbipHostBusIDPattern_def busIDPattern_lang)
  hence "map_all [(0, \<lambda>_. Inl [], bind_fields ''bind''), (1, \<lambda>_. Inl [], bind_fields ''unbind'')] [] =
      [DeviceBoundEvent 0 (event_device ''1-1'' ''/1-1''), DeviceUnboundEvent 1 (event_device ''1-1'' ''/1-1'')]"
    by (simp add: mapEvent_def isInterestingUevent_def field_def bind_fields_def mapUSBDriverEvent_def uevent_names
        usbipHostDriverName_def)
  from host_events_paired [of _ "[_]", unfolded append_Cons append_Nil, OF this] show ?thesis
    using pat by (simp add: event_device_def)
qed

end
