(* ===== verification/Kernel_Events.thy ===== *)
theory Kernel_Events
  imports Kernel_Uevent
begin

text \<open>
  \<open>EventsAdapter\<close> of \<open>internal/adapter/kernel/uevent.go\<close>: the dispatcher's life.  The first \<open>Subscribe\<close>
  dials the netlink socket and starts two goroutines, the receive loop and its cleanup; the last
  unsubscribe detaches the dispatcher and tears it down.  \<open>dispMu\<close> and the dispatcher's own mutex make
  each operation below one critical section; \<open>events_step\<close> interleaves them.
\<close>

section \<open>State\<close>

text \<open>Where the two goroutines of a dispatcher and a running teardown stand.\<close>

datatype cleanup_pc = CleanupWaiting | CleanupDetach | CleanupFinished

datatype teardown_pc = TearNone | TearCancel | TearClose | TearWait

text \<open>A dispatcher with its channels \<open>stop\<close> and \<open>done\<close>, the mapper's state, and how often its socket was
  closed.  \<open>drLate\<close> only records which subscribers joined after the cleanup had closed the others.\<close>

record dispatcher_run =
  drDisp :: eventDispatcher
  drHost :: "string list"
  drStop :: bool
  drDone :: bool
  drCleanup :: cleanup_pc
  drTear :: teardown_pc
  drSockClosed :: nat
  drLate :: "nat list"

record subscription =
  suDisp :: nat
  suID :: nat
  suUnsubscribed :: bool

record EventsAdapter =
  eaDisp :: "nat option"
  eaHeap :: "dispatcher_run list"
  eaSubs :: "subscription list"

definition NewEventsAdapter :: EventsAdapter where
  "NewEventsAdapter = \<lparr>eaDisp = None, eaHeap = [], eaSubs = []\<rparr>"

abbreviation upd_run :: "EventsAdapter \<Rightarrow> nat \<Rightarrow> (dispatcher_run \<Rightarrow> dispatcher_run) \<Rightarrow> EventsAdapter" where
  "upd_run s a f \<equiv> s\<lparr>eaHeap := (eaHeap s)[a := f (eaHeap s ! a)]\<rparr>"

section \<open>Operations\<close>

definition new_run :: dispatcher_run where
  "new_run = \<lparr>drDisp = newDispatcher, drHost = [], drStop = False, drDone = False, drCleanup = CleanupWaiting,
     drTear = TearNone, drSockClosed = 0, drLate = []\<rparr>"

text \<open>\<open>dial\<close> is the error of dialling, if any.\<close>

definition ensureDispatcher :: "go_error option \<Rightarrow> EventsAdapter \<Rightarrow> (go_error + nat \<times> bool) \<times> EventsAdapter" where
  "ensureDispatcher dial s =
     (case eaDisp s of
        Some a \<Rightarrow> (Inr (a, False), s)
      | None \<Rightarrow>
          (case dial of
             Some err \<Rightarrow> (Inl err, s)
           | None \<Rightarrow> (Inr (length (eaHeap s), True),
               s\<lparr>eaHeap := eaHeap s @ [new_run], eaDisp := Some (length (eaHeap s))\<rparr>)))"

text \<open>The result is the subscription, that is the channel with its unsubscribe function.  The two
  goroutines of a new dispatcher are there from its creation, and can act once the lock is released.\<close>

definition Subscribe :: "go_error option \<Rightarrow> EventsAdapter \<Rightarrow> (go_error + nat) \<times> EventsAdapter" where
  "Subscribe dial s =
     (case ensureDispatcher dial s of
        (Inl err, s) \<Rightarrow> (Inl err, s)
      | (Inr (a, firstSubscribe), s) \<Rightarrow>
          (case addSubscriber (drDisp (eaHeap s ! a)) of
             (i, d) \<Rightarrow> (Inr (length (eaSubs s)),
               (upd_run s a (\<lambda>r. r\<lparr>drDisp := d,
                  drLate := (if drCleanup r = CleanupWaiting then drLate r else drLate r @ [i])\<rparr>))
                 \<lparr>eaSubs := eaSubs s @ [\<lparr>suDisp = a, suID = i, suUnsubscribed = False\<rparr>]\<rparr>)))"

definition removeSubscriberAndDetach :: "nat \<Rightarrow> nat \<Rightarrow> EventsAdapter \<Rightarrow> (bool \<times> EventsAdapter) option" where
  "removeSubscriberAndDetach a i s =
     (case removeSubscriber_id i (drDisp (eaHeap s ! a)) of
        None \<Rightarrow> None
      | Some (wasLast, d) \<Rightarrow>
          (let s = upd_run s a (\<lambda>r. r\<lparr>drDisp := d\<rparr>)
           in if \<not> wasLast \<or> eaDisp s \<noteq> Some a then Some (False, s)
              else Some (True, s\<lparr>eaDisp := None\<rparr>)))"

text \<open>The function \<open>buildUnsubscribe\<close> returns, up to the teardown it starts.\<close>

definition unsubscribe :: "nat \<Rightarrow> EventsAdapter \<Rightarrow> EventsAdapter option" where
  "unsubscribe k s =
     (if suUnsubscribed (eaSubs s ! k) then Some s
      else let s = s\<lparr>eaSubs := (eaSubs s)[k := (eaSubs s ! k)\<lparr>suUnsubscribed := True\<rparr>]\<rparr>
        in case removeSubscriberAndDetach (suDisp (eaSubs s ! k)) (suID (eaSubs s ! k)) s of
          None \<Rightarrow> None
        | Some (False, s) \<Rightarrow> Some s
        | Some (True, s) \<Rightarrow> Some (upd_run s (suDisp (eaSubs s ! k)) (\<lambda>r. r\<lparr>drTear := TearCancel\<rparr>)))"

definition dispatcher_cancel :: "dispatcher_run \<Rightarrow> dispatcher_run" where
  "dispatcher_cancel r = r\<lparr>drStop := True\<rparr>"

definition close_sock :: "dispatcher_run \<Rightarrow> dispatcher_run" where
  "close_sock r = r\<lparr>drSockClosed := drSockClosed r + 1\<rparr>"

text \<open>The two statements of \<open>tearDownDispatcher\<close>; after them it waits for \<open>done\<close>.\<close>

definition tearDown_next :: "dispatcher_run \<Rightarrow> dispatcher_run" where
  "tearDown_next r =
     (case drTear r of
        TearCancel \<Rightarrow> (dispatcher_cancel r)\<lparr>drTear := TearClose\<rparr>
      | TearClose \<Rightarrow> (close_sock r)\<lparr>drTear := TearWait\<rparr>
      | _ \<Rightarrow> r)"

text \<open>One round of the receive loop: what \<open>Receive\<close> returns, the time and the topology loader.  The deferred
  calls run when it returns.\<close>

definition run_exit :: "dispatcher_run \<Rightarrow> dispatcher_run" where
  "run_exit r = (dispatcher_cancel r)\<lparr>drDone := True\<rparr>"

definition run_round ::
  "go_error + string option \<Rightarrow> int \<Rightarrow> (nat \<Rightarrow> go_error + Topology) \<Rightarrow> dispatcher_run \<Rightarrow> dispatcher_run option" where
  "run_round recv now load r =
     (if drStop r then Some (run_exit r)
      else case receiveOne recv of
        (payload, keepRunning) \<Rightarrow>
          if \<not> keepRunning then Some (run_exit r)
          else case payload of
            None \<Rightarrow> Some r
          | Some payload \<Rightarrow>
              (case mapEvent now load (parseUeventFields payload) (drHost r) of
                 (None, host) \<Rightarrow> Some (r\<lparr>drHost := host\<rparr>)
               | (Some ev, host) \<Rightarrow> map_option (\<lambda>d. r\<lparr>drHost := host, drDisp := d\<rparr>) (broadcast ev (drDisp r))))"

text \<open>The cleanup goroutine once \<open>done\<close> is closed: first the subscribers, then, under \<open>dispMu\<close>, the adapter.\<close>

definition cleanup_close :: "dispatcher_run \<Rightarrow> dispatcher_run option" where
  "cleanup_close r = map_option (\<lambda>d. r\<lparr>drDisp := d, drCleanup := CleanupDetach\<rparr>) (closeAllDispatcher (drDisp r))"

definition cleanup_detach :: "nat \<Rightarrow> EventsAdapter \<Rightarrow> EventsAdapter" where
  "cleanup_detach a s =
     (if eaDisp s = Some a
      then upd_run (s\<lparr>eaDisp := None\<rparr>) a (\<lambda>r. (close_sock r)\<lparr>drCleanup := CleanupFinished\<rparr>)
      else upd_run s a (\<lambda>r. r\<lparr>drCleanup := CleanupFinished\<rparr>))"

abbreviation put_run :: "EventsAdapter \<Rightarrow> nat \<Rightarrow> dispatcher_run option \<Rightarrow> EventsAdapter option" where
  "put_run s a r \<equiv> map_option (\<lambda>r. s\<lparr>eaHeap := (eaHeap s)[a := r]\<rparr>) r"

text \<open>\<open>None\<close> is a panic.  A subscriber's context being cancelled is an unsubscribe by its watcher goroutine.\<close>

inductive events_step :: "EventsAdapter \<Rightarrow> EventsAdapter option \<Rightarrow> bool" where
  ev_subscribe: "events_step s (Some (snd (Subscribe dial s)))"
| ev_unsubscribe: "k < length (eaSubs s) \<Longrightarrow> events_step s (unsubscribe k s)"
| ev_teardown: "a < length (eaHeap s) \<Longrightarrow> drTear (eaHeap s ! a) \<in> {TearCancel, TearClose} \<Longrightarrow>
    events_step s (Some (upd_run s a tearDown_next))"
| ev_round: "a < length (eaHeap s) \<Longrightarrow> \<not> drDone (eaHeap s ! a) \<Longrightarrow>
    events_step s (put_run s a (run_round recv now load (eaHeap s ! a)))"
| ev_cleanup_close: "a < length (eaHeap s) \<Longrightarrow> drDone (eaHeap s ! a) \<Longrightarrow> drCleanup (eaHeap s ! a) = CleanupWaiting \<Longrightarrow>
    events_step s (put_run s a (cleanup_close (eaHeap s ! a)))"
| ev_cleanup_detach: "a < length (eaHeap s) \<Longrightarrow> drCleanup (eaHeap s ! a) = CleanupDetach \<Longrightarrow>
    events_step s (Some (cleanup_detach a s))"
| ev_consume: "a < length (eaHeap s) \<Longrightarrow> i < length (edChans (drDisp (eaHeap s ! a))) \<Longrightarrow>
    events_step s (Some (upd_run s a (\<lambda>r. r\<lparr>drDisp := (drDisp r)
      \<lparr>edChans := (edChans (drDisp r))[i := chan_take (edChans (drDisp r) ! i)]\<rparr>\<rparr>)))"

inductive events_reach :: "EventsAdapter option \<Rightarrow> bool" where
  ev_init: "events_reach (Some NewEventsAdapter)"
| ev_next: "events_reach (Some s) \<Longrightarrow> events_step s c \<Longrightarrow> events_reach c"

section \<open>The invariant\<close>

text \<open>A dispatcher on its own: whether it is the adapter's current one decides who may close its socket.\<close>

definition run_inv :: "bool \<Rightarrow> dispatcher_run \<Rightarrow> bool" where
  "run_inv current r \<longleftrightarrow> dispatcher_inv (drDisp r)
     \<and> (drDone r \<longrightarrow> drStop r)
     \<and> (drCleanup r \<noteq> CleanupWaiting \<longrightarrow> drDone r)
     \<and> (drStop r \<and> \<not> drDone r \<longrightarrow> drTear r \<in> {TearClose, TearWait})
     \<and> (drCleanup r \<noteq> CleanupWaiting \<longrightarrow> set (edSubscribers (drDisp r)) \<subseteq> set (drLate r))
     \<and> (if current
        then drTear r = TearNone \<and> drCleanup r \<noteq> CleanupFinished \<and> drSockClosed r = 0
          \<and> (drCleanup r = CleanupWaiting \<longrightarrow> edSubscribers (drDisp r) \<noteq> [])
        else drSockClosed r = (if drTear r \<in> {TearCancel, TearClose} then 0 else 1)
          \<and> (drTear r = TearNone \<longrightarrow> drCleanup r = CleanupFinished)
          \<and> (drTear r \<noteq> TearNone \<longrightarrow> edSubscribers (drDisp r) = []))"

definition events_inv :: "EventsAdapter \<Rightarrow> bool" where
  "events_inv s \<longleftrightarrow> (\<forall>a. eaDisp s = Some a \<longrightarrow> a < length (eaHeap s))
     \<and> (\<forall>a<length (eaHeap s). run_inv (eaDisp s = Some a) (eaHeap s ! a))
     \<and> (\<forall>u\<in>set (eaSubs s). suDisp u < length (eaHeap s))"

lemma run_inv_disp:
  assumes "run_inv current r" "dispatcher_inv d" "set (edSubscribers d) \<subseteq> set (edSubscribers (drDisp r))"
    and "current \<and> drCleanup r = CleanupWaiting \<longrightarrow> edSubscribers d \<noteq> []"
  shows "run_inv current (r\<lparr>drDisp := d\<rparr>)"
proof -
  have "edSubscribers (drDisp r) = [] \<longrightarrow> edSubscribers d = []"
    using assms(3) by auto
  thus ?thesis
    using assms(1,2,4) subset_trans [OF assms(3), of "set (drLate r)"]
    by (cases current; cases "drTear r"; cases "drCleanup r") (simp_all add: run_inv_def)
qed

lemma run_inv_subs: "run_inv current r \<Longrightarrow> current \<and> drCleanup r = CleanupWaiting \<longrightarrow> edSubscribers (drDisp r) \<noteq> []"
  by (simp add: run_inv_def)

lemma run_inv_detach:
  "run_inv True r \<Longrightarrow> dispatcher_inv d \<Longrightarrow> edSubscribers d = [] \<Longrightarrow> run_inv False (r\<lparr>drDisp := d, drTear := TearCancel\<rparr>)"
  by (cases "drTear r"; cases "drCleanup r") (auto simp: run_inv_def)

lemma events_inv_run: "events_inv s \<Longrightarrow> a < length (eaHeap s) \<Longrightarrow> run_inv (eaDisp s = Some a) (eaHeap s ! a)"
  by (simp add: events_inv_def)

lemma tearDown_next_inv:
  "run_inv current r \<Longrightarrow> drTear r \<in> {TearCancel, TearClose} \<Longrightarrow> run_inv current (tearDown_next r)"
  by (cases current; cases "drTear r")
    (simp_all add: run_inv_def tearDown_next_def dispatcher_cancel_def close_sock_def)

lemma upd_run_inv:
  assumes "events_inv s" "a < length (eaHeap s)" "run_inv (eaDisp s = Some a) r"
  shows "events_inv (s\<lparr>eaHeap := (eaHeap s)[a := r]\<rparr>)"
  using assms by (auto simp: events_inv_def nth_list_update)

lemma removed_dispatcher_inv:
  assumes "events_inv s" "eaDisp s = Some a" "run_inv False r"
  shows "events_inv (s\<lparr>eaDisp := None, eaHeap := (eaHeap s)[a := r]\<rparr>)"
  using assms by (auto simp: events_inv_def nth_list_update)

lemma addSubscriber_subs:
  "addSubscriber d = (i, d') \<Longrightarrow> edSubscribers d' = edSubscribers d @ [i]"
  by (auto simp: addSubscriber_def Let_def)

lemma subscribe_at_inv:
  assumes "events_inv s" "eaDisp s = Some a" "addSubscriber (drDisp (eaHeap s ! a)) = (i, d)"
  shows "events_inv ((upd_run s a (\<lambda>r. r\<lparr>drDisp := d,
        drLate := (if drCleanup r = CleanupWaiting then drLate r else drLate r @ [i])\<rparr>))
      \<lparr>eaSubs := eaSubs s @ [\<lparr>suDisp = a, suID = i, suUnsubscribed = False\<rparr>]\<rparr>)"
proof -
  have a: "a < length (eaHeap s)" "run_inv True (eaHeap s ! a)"
    using assms(1,2) by (auto simp: events_inv_def)
  have "dispatcher_inv d" "edSubscribers d = edSubscribers (drDisp (eaHeap s ! a)) @ [i]"
    using addSubscriber_inv [of "drDisp (eaHeap s ! a)"] addSubscriber_subs assms(3) a(2) by (auto simp: run_inv_def)
  hence "run_inv True ((eaHeap s ! a)\<lparr>drDisp := d, drLate := (if drCleanup (eaHeap s ! a) = CleanupWaiting
      then drLate (eaHeap s ! a) else drLate (eaHeap s ! a) @ [i])\<rparr>)"
    using a(2) by (auto simp: run_inv_def)
  thus ?thesis
    using assms(1,2) a(1) by (auto simp: events_inv_def nth_list_update)
qed

text \<open>The first subscription of a new dispatcher: the invariant is broken only while the lock is held.\<close>

lemma subscribe_first_inv:
  assumes "events_inv s" "eaDisp s = None"
  shows "events_inv (snd (Subscribe None s))"
proof -
  let ?a = "length (eaHeap s)"
  obtain i d where id: "addSubscriber newDispatcher = (i, d)"
    by fastforce
  have "dispatcher_inv newDispatcher"
    by (simp add: dispatcher_inv_def newDispatcher_def)
  hence "dispatcher_inv d" "edSubscribers d = [i]"
    using addSubscriber_inv [of newDispatcher] addSubscriber_subs [OF id] id by (auto simp: newDispatcher_def)
  hence "run_inv True (new_run\<lparr>drDisp := d\<rparr>)"
    by (simp add: run_inv_def new_run_def)
  thus ?thesis
    using assms id
    by (auto simp: Subscribe_def ensureDispatcher_def events_inv_def nth_append nth_list_update less_Suc_eq new_run_def)
qed

lemma Subscribe_inv:
  assumes "events_inv s"
  shows "events_inv (snd (Subscribe dial s))"
proof (cases "eaDisp s")
  case (Some a)
  obtain i d where "addSubscriber (drDisp (eaHeap s ! a)) = (i, d)"
    by fastforce
  thus ?thesis
    using subscribe_at_inv [OF assms Some] Some by (simp add: Subscribe_def ensureDispatcher_def)
next
  case None
  thus ?thesis
    using subscribe_first_inv [OF assms None] assms
    by (cases dial) (simp_all add: Subscribe_def ensureDispatcher_def)
qed

lemma removeSubscriber_subs:
  "removeSubscriber_id i d = Some (e, d') \<Longrightarrow> set (edSubscribers d') \<subseteq> set (edSubscribers d)
     \<and> (e \<longleftrightarrow> i \<in> set (edSubscribers d) \<and> edSubscribers d' = []) \<and> (edSubscribers d' = [] \<and> \<not> e \<longrightarrow> edSubscribers d = [])"
  by (auto simp: removeSubscriber_id_def Let_def split: if_splits option.splits)

lemma unsubscribe_inv:
  assumes "events_inv s" "k < length (eaSubs s)"
  shows "\<exists>s'. unsubscribe k s = Some s' \<and> events_inv s'"
proof (cases "suUnsubscribed (eaSubs s ! k)")
  case False
  define a where "a = suDisp (eaSubs s ! k)"
  define i where "i = suID (eaSubs s ! k)"
  define s1 where "s1 = s\<lparr>eaSubs := (eaSubs s)[k := (eaSubs s ! k)\<lparr>suUnsubscribed := True\<rparr>]\<rparr>"
  have a: "a < length (eaHeap s)"
    using assms by (auto simp: events_inv_def a_def)
  hence r: "run_inv (eaDisp s = Some a) (eaHeap s ! a)"
    using assms(1) by (auto simp: events_inv_def)
  have s1: "events_inv s1" "eaHeap s1 = eaHeap s" "eaDisp s1 = eaDisp s" "suDisp (eaSubs s1 ! k) = a" "suID (eaSubs s1 ! k) = i"
    using assms a by (auto simp: events_inv_def s1_def a_def i_def dest!: set_update_subset_insert [THEN subsetD])
  obtain e d where d: "removeSubscriber_id i (drDisp (eaHeap s ! a)) = Some (e, d)" "dispatcher_inv d"
    using removeSubscriber_inv [of "drDisp (eaHeap s ! a)" i] r by (auto simp: run_inv_def)
  note sub = removeSubscriber_subs [OF d(1)]
  have u: "unsubscribe k s = (if \<not> e \<or> eaDisp s \<noteq> Some a then Some (upd_run s1 a (\<lambda>r. r\<lparr>drDisp := d\<rparr>))
      else Some (s1\<lparr>eaDisp := None, eaHeap := (eaHeap s)[a := (eaHeap s ! a)\<lparr>drDisp := d, drTear := TearCancel\<rparr>]\<rparr>))"
    using False d(1) s1 a
    by (simp add: unsubscribe_def s1_def [symmetric] Let_def removeSubscriberAndDetach_def)
  show ?thesis
  proof (cases "\<not> e \<or> eaDisp s \<noteq> Some a")
    case True
    have "run_inv (eaDisp s1 = Some a) ((eaHeap s1 ! a)\<lparr>drDisp := d\<rparr>)"
    proof (unfold s1(2,3), rule run_inv_disp [OF r d(2)])
      show "set (edSubscribers d) \<subseteq> set (edSubscribers (drDisp (eaHeap s ! a)))"
        using sub by blast
      show "eaDisp s = Some a \<and> drCleanup (eaHeap s ! a) = CleanupWaiting \<longrightarrow> edSubscribers d \<noteq> []"
      proof (intro impI, elim conjE)
        assume cur: "eaDisp s = Some a" "drCleanup (eaHeap s ! a) = CleanupWaiting"
        hence "edSubscribers (drDisp (eaHeap s ! a)) \<noteq> []"
          using run_inv_subs [OF r] by simp
        thus "edSubscribers d \<noteq> []"
          using sub True cur(1) by blast
      qed
    qed
    thus ?thesis
      using True u upd_run_inv [OF s1(1)] a by (simp add: s1(2))
  next
    case False
    have "run_inv False ((eaHeap s ! a)\<lparr>drDisp := d, drTear := TearCancel\<rparr>)"
    proof (rule run_inv_detach [OF _ d(2)])
      show "run_inv True (eaHeap s ! a)" "edSubscribers d = []"
        using r False sub by (simp_all only: not_not de_Morgan_disj simp_thms)
    qed
    thus ?thesis
      using False u removed_dispatcher_inv [OF s1(1)] by (simp add: s1(2,3))
  qed
qed (use assms in \<open>simp add: unsubscribe_def\<close>)

lemma run_round_inv:
  assumes "run_inv current r" "\<not> drDone r"
  shows "\<exists>r'. run_round recv now load r = Some r' \<and> run_inv current r'"
proof -
  have exit_inv: "run_inv current (run_exit r)"
    using assms by (auto simp: run_inv_def run_exit_def dispatcher_cancel_def)
  have host: "run_inv current (r\<lparr>drHost := h\<rparr>)" for h
    using assms(1) by (simp add: run_inv_def)
  have "\<exists>d. broadcast ev (drDisp r) = Some d \<and> run_inv current (r\<lparr>drHost := h, drDisp := d\<rparr>)" for ev h
    using broadcast_inv [of "drDisp r" ev] assms(1) unfolding run_inv_def by fastforce
  thus ?thesis
    using exit_inv host assms(1)
    by (fastforce simp: run_round_def split: prod.splits option.splits)
qed

lemma cleanup_close_inv:
  assumes "run_inv current r" "drDone r" "drCleanup r = CleanupWaiting"
  shows "\<exists>r'. cleanup_close r = Some r' \<and> run_inv current r'"
proof -
  obtain d where "closeAllDispatcher (drDisp r) = Some d" "dispatcher_inv d" "edSubscribers d = []"
    using closeAllDispatcher_inv [of "drDisp r"] assms(1) by (auto simp: run_inv_def)
  thus ?thesis
    using assms by (auto simp: cleanup_close_def run_inv_def)
qed

lemma take_chan_inv:
  assumes "dispatcher_inv d"
  shows "dispatcher_inv (d\<lparr>edChans := (edChans d)[i := chan_take (edChans d ! i)]\<rparr>)"
proof -
  have "ecClosed (chan_take ch) = ecClosed ch" "length (ecBuf (chan_take ch)) \<le> length (ecBuf ch)" for ch
    by (simp_all add: chan_take_def)
  hence "ecClosed ((edChans d)[i := chan_take (edChans d ! i)] ! j) = ecClosed (edChans d ! j)
      \<and> length (ecBuf ((edChans d)[i := chan_take (edChans d ! i)] ! j)) \<le> length (ecBuf (edChans d ! j))" for j
    by (cases "i < length (edChans d)"; cases "j = i") (simp_all add: list_update_beyond)
  note take = this
  show ?thesis
    unfolding dispatcher_inv_def
  proof (intro conjI allI impI)
    fix j assume "j < length (edChans (d\<lparr>edChans := (edChans d)[i := chan_take (edChans d ! i)]\<rparr>))"
    hence "(ecClosed (edChans d ! j) \<longleftrightarrow> j \<notin> set (edSubscribers d)) \<and> length (ecBuf (edChans d ! j)) \<le> subscriberChanBuffer"
      using assms by (simp add: dispatcher_inv_def)
    thus "ecClosed (edChans (d\<lparr>edChans := (edChans d)[i := chan_take (edChans d ! i)]\<rparr>) ! j) \<longleftrightarrow>
          j \<notin> set (edSubscribers (d\<lparr>edChans := (edChans d)[i := chan_take (edChans d ! i)]\<rparr>))"
      "length (ecBuf (edChans (d\<lparr>edChans := (edChans d)[i := chan_take (edChans d ! i)]\<rparr>) ! j)) \<le> subscriberChanBuffer"
      using take [of j] by auto
  qed (use assms in \<open>auto simp: dispatcher_inv_def\<close>)
qed

lemma consume_inv:
  assumes "run_inv current r"
  shows "run_inv current (r\<lparr>drDisp := (drDisp r)\<lparr>edChans := (edChans (drDisp r))[i := chan_take (edChans (drDisp r) ! i)]\<rparr>\<rparr>)"
proof -
  have "dispatcher_inv ((drDisp r)\<lparr>edChans := (edChans (drDisp r))[i := chan_take (edChans (drDisp r) ! i)]\<rparr>)"
    using assms take_chan_inv by (simp add: run_inv_def)
  from run_inv_disp [OF assms this] show ?thesis
    using run_inv_subs [OF assms] by simp
qed

lemma events_step_inv:
  assumes "events_step s c" "events_inv s"
  shows "\<exists>s'. c = Some s' \<and> events_inv s'"
  using assms
proof (cases rule: events_step.cases)
  case (ev_teardown a)
  hence "run_inv (eaDisp s = Some a) (tearDown_next (eaHeap s ! a))"
    using events_inv_run [OF assms(2)] tearDown_next_inv by blast
  thus ?thesis
    using ev_teardown upd_run_inv [OF assms(2)] by simp
next
  case (ev_cleanup_detach a)
  hence "run_inv (eaDisp s = Some a) (eaHeap s ! a)"
    using assms(2) by (auto simp: events_inv_def)
  hence "if eaDisp s = Some a then run_inv False ((close_sock (eaHeap s ! a))\<lparr>drCleanup := CleanupFinished\<rparr>)
      else run_inv False ((eaHeap s ! a)\<lparr>drCleanup := CleanupFinished\<rparr>)"
    using ev_cleanup_detach by (cases "eaDisp s = Some a") (auto simp: run_inv_def close_sock_def)
  thus ?thesis
    using ev_cleanup_detach removed_dispatcher_inv [OF assms(2)] upd_run_inv [OF assms(2)] by (simp add: cleanup_detach_def)
next
  case (ev_unsubscribe k)
  thus ?thesis
    using unsubscribe_inv [OF assms(2)] by blast
next
  case (ev_round a recv now load)
  then obtain r' where "run_round recv now load (eaHeap s ! a) = Some r'" "run_inv (eaDisp s = Some a) r'"
    using run_round_inv events_inv_run [OF assms(2)] by blast
  thus ?thesis
    using ev_round upd_run_inv [OF assms(2)] by simp
next
  case (ev_cleanup_close a)
  then obtain r' where "cleanup_close (eaHeap s ! a) = Some r'" "run_inv (eaDisp s = Some a) r'"
    using cleanup_close_inv events_inv_run [OF assms(2)] by blast
  thus ?thesis
    using ev_cleanup_close upd_run_inv [OF assms(2)] by simp
next
  case (ev_consume a i)
  thus ?thesis
    using consume_inv [OF events_inv_run [OF assms(2)]] upd_run_inv [OF assms(2)] by simp
qed (use Subscribe_inv in auto)

lemma events_reach_inv: "events_reach c \<Longrightarrow> \<exists>s. c = Some s \<and> events_inv s"
proof (induction rule: events_reach.induct)
  case ev_init
  show ?case
    by (simp add: events_inv_def NewEventsAdapter_def)
next
  case (ev_next s c)
  thus ?case
    using events_step_inv by auto
qed

section \<open>A subscription in the cleanup's gap\<close>

text \<open>Its dispatcher has ended and the adapter has forgotten it, but the channel is open and empty.\<close>

definition stranded :: "nat \<Rightarrow> nat \<Rightarrow> EventsAdapter \<Rightarrow> bool" where
  "stranded a i s \<longleftrightarrow> a < length (eaHeap s) \<and> eaDisp s \<noteq> Some a
     \<and> drDone (eaHeap s ! a) \<and> drCleanup (eaHeap s ! a) = CleanupFinished
     \<and> i < length (edChans (drDisp (eaHeap s ! a)))
     \<and> edChans (drDisp (eaHeap s ! a)) ! i = \<lparr>ecBuf = [], ecClosed = False\<rparr>"

lemma stranded_upd:
  assumes "stranded a i s" "b = a \<longrightarrow> drDone r \<and> drCleanup r = CleanupFinished
    \<and> i < length (edChans (drDisp r)) \<and> edChans (drDisp r) ! i = \<lparr>ecBuf = [], ecClosed = False\<rparr>"
  shows "stranded a i (s\<lparr>eaHeap := (eaHeap s)[b := r]\<rparr>)" "stranded a i (s\<lparr>eaDisp := None, eaHeap := (eaHeap s)[b := r]\<rparr>)"
  using assms by (cases "b = a"; auto simp: stranded_def nth_list_update)+

lemma stranded_frame: "stranded a i s \<Longrightarrow> stranded a i (s\<lparr>eaSubs := us\<rparr>)"
  by (simp add: stranded_def)

lemma stranded_subscribe:
  assumes "stranded a i s"
  shows "stranded a i (snd (Subscribe dial s))"
proof (cases "eaDisp s")
  case (Some b)
  hence "b \<noteq> a"
    using assms by (auto simp: stranded_def)
  thus ?thesis
    using Some stranded_frame [OF stranded_upd(1) [OF assms]]
    by (auto simp: Subscribe_def ensureDispatcher_def split: prod.splits)
next
  case None
  thus ?thesis
    using assms
    by (cases dial) (auto simp: Subscribe_def ensureDispatcher_def stranded_def nth_append split: prod.splits)
qed

lemma stranded_unsubscribe:
  assumes "stranded a i s" "unsubscribe k s = Some s'" "(suDisp (eaSubs s ! k), suID (eaSubs s ! k)) \<noteq> (a, i)"
    and k: "k < length (eaSubs s)"
  shows "stranded a i s'"
proof (cases "suUnsubscribed (eaSubs s ! k)")
  case False
  define b where "b = suDisp (eaSubs s ! k)"
  define j where "j = suID (eaSubs s ! k)"
  define s1 where "s1 = s\<lparr>eaSubs := (eaSubs s)[k := (eaSubs s ! k)\<lparr>suUnsubscribed := True\<rparr>]\<rparr>"
  have s1: "stranded a i s1" "eaHeap s1 = eaHeap s" "suDisp (eaSubs s1 ! k) = b" "suID (eaSubs s1 ! k) = j"
    using assms(1) k by (simp_all add: s1_def stranded_def b_def j_def)
  obtain e d where d: "removeSubscriber_id j (drDisp (eaHeap s ! b)) = Some (e, d)"
    using assms(2) False s1 by (auto simp: unsubscribe_def s1_def [symmetric] removeSubscriberAndDetach_def
        split: option.splits)
  have "b = a \<longrightarrow> edChans d ! i = edChans (drDisp (eaHeap s ! b)) ! i \<and> length (edChans d) = length (edChans (drDisp (eaHeap s ! b)))"
    using d assms(3) by (auto simp: removeSubscriber_id_def b_def j_def Let_def split: if_splits option.splits)
  hence "b = a \<longrightarrow> drDone (eaHeap s1 ! b) \<and> drCleanup (eaHeap s1 ! b) = CleanupFinished
      \<and> i < length (edChans d) \<and> edChans d ! i = \<lparr>ecBuf = [], ecClosed = False\<rparr>"
    using assms(1) s1(2) by (auto simp: stranded_def)
  hence r: "stranded a i (upd_run s1 b (\<lambda>r. r\<lparr>drDisp := d\<rparr>))"
    "stranded a i (s1\<lparr>eaDisp := None, eaHeap := (eaHeap s1)[b := (eaHeap s1 ! b)\<lparr>drDisp := d, drTear := TearCancel\<rparr>]\<rparr>)"
    by (intro stranded_upd [OF s1(1)]; simp)+
  have "s' = upd_run s1 b (\<lambda>r. r\<lparr>drDisp := d\<rparr>)
      \<or> s' = s1\<lparr>eaDisp := None, eaHeap := (eaHeap s1)[b := (eaHeap s1 ! b)\<lparr>drDisp := d, drTear := TearCancel\<rparr>]\<rparr>"
    using assms(2) False d s1
    by (cases "b < length (eaHeap s)") (auto simp: unsubscribe_def s1_def [symmetric] removeSubscriberAndDetach_def Let_def
        list_update_beyond split: if_splits)
  thus ?thesis
    using r by auto
qed (use assms in \<open>simp add: unsubscribe_def\<close>)

lemma stranded_step:
  assumes "events_step s (Some s')" "stranded a i s"
  shows "stranded a i s'
    \<or> (\<exists>k<length (eaSubs s). suDisp (eaSubs s ! k) = a \<and> suID (eaSubs s ! k) = i \<and> unsubscribe k s = Some s')"
proof -
  have st: "drDone (eaHeap s ! a)" "drCleanup (eaHeap s ! a) = CleanupFinished" "i < length (edChans (drDisp (eaHeap s ! a)))"
      "edChans (drDisp (eaHeap s ! a)) ! i = \<lparr>ecBuf = [], ecClosed = False\<rparr>"
    using assms(2) by (simp_all add: stranded_def)
  from assms(1) show ?thesis
  proof (cases rule: events_step.cases)
    case (ev_subscribe dial)
    thus ?thesis
      using stranded_subscribe [OF assms(2)] by simp
  next
    case (ev_unsubscribe k)
    thus ?thesis
      using stranded_unsubscribe [OF assms(2), of k s'] by auto
  next
    case (ev_cleanup_detach b)
    hence "b \<noteq> a"
      using st by auto
    thus ?thesis
      using ev_cleanup_detach stranded_upd [OF assms(2), of b] by (simp add: cleanup_detach_def)
  next
    case (ev_teardown b)
    have "stranded a i (upd_run s b tearDown_next)"
      by (rule stranded_upd(1) [OF assms(2)])
        (use st in \<open>auto simp: tearDown_next_def dispatcher_cancel_def close_sock_def split: teardown_pc.splits\<close>)
    thus ?thesis
      using ev_teardown by simp
  next
    case (ev_consume b j)
    have "stranded a i (upd_run s b (\<lambda>r. r\<lparr>drDisp := (drDisp r)
        \<lparr>edChans := (edChans (drDisp r))[j := chan_take (edChans (drDisp r) ! j)]\<rparr>\<rparr>))"
      by (rule stranded_upd(1) [OF assms(2)]) (cases "j = i", use st in \<open>auto simp: chan_take_def\<close>)
    thus ?thesis
      using ev_consume by simp
  next
    case (ev_round b recv now load)
    hence "b \<noteq> a"
      using st by auto
    thus ?thesis
      using ev_round(1) [symmetric] stranded_upd(1) [OF assms(2), of b] by auto
  next
    case (ev_cleanup_close b)
    hence "b \<noteq> a"
      using st by auto
    thus ?thesis
      using ev_cleanup_close(1) [symmetric] stranded_upd(1) [OF assms(2), of b] by auto
  qed
qed

section \<open>Properties\<close>

text \<open>C27: The kernel event source is safe under every interleaving of subscribers, the receive loop, its cleanup
  and teardowns.  Nothing panics; the adapter's current dispatcher has an open socket and, until its loop
  ends by itself, is not stopped and has a subscriber; no socket is closed twice, and one that was detached
  is closed once its teardown or cleanup got that far; and when a dispatcher's cleanup is through, the
  channel of every subscriber is closed except for those that joined after it had closed the others.\<close>
theorem events_adapter_sound:
  assumes "events_reach c"
  shows "\<exists>s. c = Some s
    \<and> (\<forall>a. eaDisp s = Some a \<longrightarrow> a < length (eaHeap s) \<and> drSockClosed (eaHeap s ! a) = 0
         \<and> (\<not> drDone (eaHeap s ! a) \<longrightarrow> \<not> drStop (eaHeap s ! a) \<and> edSubscribers (drDisp (eaHeap s ! a)) \<noteq> []))
    \<and> (\<forall>a<length (eaHeap s). drSockClosed (eaHeap s ! a) \<le> 1
         \<and> (eaDisp s \<noteq> Some a \<and> drTear (eaHeap s ! a) \<notin> {TearCancel, TearClose} \<longrightarrow> drSockClosed (eaHeap s ! a) = 1)
         \<and> (drCleanup (eaHeap s ! a) = CleanupFinished \<longrightarrow> drDone (eaHeap s ! a)
              \<and> (\<forall>i<length (edChans (drDisp (eaHeap s ! a))).
                   ecClosed (edChans (drDisp (eaHeap s ! a)) ! i) \<or> i \<in> set (drLate (eaHeap s ! a)))))"
proof -
  obtain s where s: "c = Some s" "events_inv s"
    using events_reach_inv [OF assms] by blast
  have cur: "a < length (eaHeap s) \<and> run_inv True (eaHeap s ! a)" if "eaDisp s = Some a" for a
    using s(2) that by (auto simp: events_inv_def)
  have "drSockClosed r = 0 \<and> (\<not> drDone r \<longrightarrow> \<not> drStop r \<and> edSubscribers (drDisp r) \<noteq> [])" if "run_inv True r" for r
    using that by (auto simp: run_inv_def)
  moreover have "drSockClosed r \<le> 1 \<and> (\<not> current \<and> drTear r \<notin> {TearCancel, TearClose} \<longrightarrow> drSockClosed r = 1)
      \<and> (drCleanup r = CleanupFinished \<longrightarrow> drDone r
           \<and> (\<forall>i<length (edChans (drDisp r)). ecClosed (edChans (drDisp r) ! i) \<or> i \<in> set (drLate r)))"
    if "run_inv current r" for current r
    using that by (auto simp: run_inv_def dispatcher_inv_def split: if_splits)
  ultimately show ?thesis
    using s(1) cur events_inv_run [OF s(2)] by (intro exI [of _ s] conjI allI impI) blast+
qed

definition gap_run :: dispatcher_run where
  "gap_run = \<lparr>drDisp = \<lparr>edChans = [\<lparr>ecBuf = [], ecClosed = True\<rparr>, \<lparr>ecBuf = [], ecClosed = True\<rparr>, \<lparr>ecBuf = [], ecClosed = False\<rparr>],
       edSubscribers = [2], edNextID = 2\<rparr>, drHost = [], drStop = True, drDone = True, drCleanup = CleanupFinished,
     drTear = TearNone, drSockClosed = 1, drLate = [2]\<rparr>"

definition gap_state :: EventsAdapter where
  "gap_state = \<lparr>eaDisp = None, eaHeap = [gap_run], eaSubs = [\<lparr>suDisp = 0, suID = 1, suUnsubscribed = False\<rparr>,
     \<lparr>suDisp = 0, suID = 2, suUnsubscribed = False\<rparr>]\<rparr>"

text \<open>Subscribe, the socket fails, the cleanup closes the subscribers, another subscribes, the cleanup detaches.\<close>

lemma gap_reach: "events_reach (Some gap_state)"
proof -
  let ?s1 = "snd (Subscribe None NewEventsAdapter)"
  let ?s2 = "the (put_run ?s1 0 (run_round (Inl []) 0 (\<lambda>_. Inl []) (eaHeap ?s1 ! 0)))"
  let ?s3 = "the (put_run ?s2 0 (cleanup_close (eaHeap ?s2 ! 0)))"
  let ?s4 = "snd (Subscribe None ?s3)"
  note ev = Subscribe_def ensureDispatcher_def NewEventsAdapter_def new_run_def newDispatcher_def addSubscriber_def
    run_round_def receiveOne_def run_exit_def dispatcher_cancel_def cleanup_close_def closeAllDispatcher_def close_chan_def
    cleanup_detach_def close_sock_def
  have 1: "events_reach (Some ?s1)"
    by (rule ev_next [OF ev_init ev_subscribe])
  have "events_step ?s1 (put_run ?s1 0 (run_round (Inl []) 0 (\<lambda>_. Inl []) (eaHeap ?s1 ! 0)))"
    by (rule ev_round) (simp_all add: ev)
  moreover have e2: "put_run ?s1 0 (run_round (Inl []) 0 (\<lambda>_. Inl []) (eaHeap ?s1 ! 0)) = Some ?s2"
    by (simp add: ev)
  ultimately have 2: "events_reach (Some ?s2)"
    using ev_next [OF 1] by metis
  have "events_step ?s2 (put_run ?s2 0 (cleanup_close (eaHeap ?s2 ! 0)))"
    by (rule ev_cleanup_close) (simp_all add: ev)
  moreover have "put_run ?s2 0 (cleanup_close (eaHeap ?s2 ! 0)) = Some ?s3"
    by (simp add: ev)
  ultimately have 3: "events_reach (Some ?s3)"
    using ev_next [OF 2] by metis
  have 4: "events_reach (Some ?s4)"
    by (rule ev_next [OF 3 ev_subscribe])
  have "events_step ?s4 (Some (cleanup_detach 0 ?s4))"
    by (rule ev_cleanup_detach) (simp_all add: ev)
  moreover have "cleanup_detach 0 ?s4 = gap_state"
    by (simp add: ev gap_state_def gap_run_def)
  ultimately show ?thesis
    using ev_next [OF 4] by metis
qed

theorem events_adapter_sound_witness: "drSockClosed (eaHeap gap_state ! 0) \<le> 1 \<and> ecClosed (edChans (drDisp (eaHeap gap_state ! 0)) ! 1)"
  using events_adapter_sound [OF gap_reach] by (simp add: gap_state_def gap_run_def)

text \<open>A subscription can be lost for good.  If \<open>Subscribe\<close> runs after the cleanup of an ended dispatcher has
  closed its subscribers and before it clears the adapter's pointer, the new subscriber joins the ended
  dispatcher: this state is reachable, and from it on the channel stays open and empty whatever else
  happens, until the subscriber itself unsubscribes.\<close>
theorem subscriber_stranded:
  "(\<exists>s a i. events_reach (Some s) \<and> stranded a i s \<and> (\<exists>u\<in>set (eaSubs s). u = \<lparr>suDisp = a, suID = i, suUnsubscribed = False\<rparr>))
    \<and> (\<forall>s s' a i. stranded a i s \<and> events_step s (Some s') \<longrightarrow> stranded a i s'
         \<or> (\<exists>k<length (eaSubs s). suDisp (eaSubs s ! k) = a \<and> suID (eaSubs s ! k) = i \<and> unsubscribe k s = Some s'))"
proof
  show "\<exists>s a i. events_reach (Some s) \<and> stranded a i s
      \<and> (\<exists>u\<in>set (eaSubs s). u = \<lparr>suDisp = a, suID = i, suUnsubscribed = False\<rparr>)"
    using gap_reach by (intro exI [of _ gap_state] exI [of _ 0] exI [of _ 2]) (simp add: stranded_def gap_state_def gap_run_def)
qed (use stranded_step in blast)

theorem subscriber_stranded_witness: "stranded 0 2 (snd (Subscribe None gap_state))"
proof -
  have "stranded 0 2 gap_state"
    by (simp add: stranded_def gap_state_def gap_run_def)
  then consider "stranded 0 2 (snd (Subscribe None gap_state))"
    | k where "unsubscribe k gap_state = Some (snd (Subscribe None gap_state))" "k < length (eaSubs gap_state)"
    using subscriber_stranded ev_subscribe [of gap_state None] by blast
  thus ?thesis
  proof cases
    case 2
    thus ?thesis
      by (auto simp: gap_state_def gap_run_def unsubscribe_def removeSubscriberAndDetach_def removeSubscriber_id_def
          Subscribe_def ensureDispatcher_def addSubscriber_def close_chan_def less_Suc_eq numeral_2_eq_2)
  qed
qed

end
