(* ===== verification/Kernel_Ports.thy ===== *)
theory Kernel_Ports
  imports Kernel_Topology "HOL-Library.Monad_Syntax"
begin

text \<open>
  \<open>internal/adapter/kernel/ports.go\<close> and \<open>attach.go\<close>: the vhci status files, the choice of a free
  port, listing the ports, and the two sysfs writes that attach and detach a device.  \<open>None\<close> is a
  call that does not return because the controller probe never ends.
\<close>

section \<open>Status rows\<close>

record parsedPort =
  ppHub :: string
  ppPort :: PortID
  ppStatus :: Status
  ppSpeed :: Speed
  ppDevID :: DeviceID
  ppBusID :: string

record statusNums =
  snPort :: u32
  snSta :: u32
  snSpd :: u32
  snDevID :: u32

definition statusFieldCount :: nat where "statusFieldCount = 7"
definition rowIdxHub :: nat where "rowIdxHub = 0"
definition rowIdxPort :: nat where "rowIdxPort = 1"
definition rowIdxStatus :: nat where "rowIdxStatus = 2"
definition rowIdxSpeed :: nat where "rowIdxSpeed = 3"
definition rowIdxDevID :: nat where "rowIdxDevID = 4"
definition rowIdxSockFD :: nat where "rowIdxSockFD = 5"
definition rowIdxBusID :: nat where "rowIdxBusID = 6"

lemmas row_idx = statusFieldCount_def rowIdxHub_def rowIdxPort_def rowIdxStatus_def rowIdxSpeed_def
  rowIdxDevID_def rowIdxSockFD_def rowIdxBusID_def

definition kernelVDEVStNull :: u32 where "kernelVDEVStNull = 4"
definition kernelVDEVStNotAssigned :: u32 where "kernelVDEVStNotAssigned = 5"
definition kernelVDEVStUsed :: u32 where "kernelVDEVStUsed = 6"
definition kernelVDEVStError :: u32 where "kernelVDEVStError = 7"

definition translateVDEVStatus :: "u32 \<Rightarrow> Status" where
  "translateVDEVStatus sta =
     (if sta \<in> {StatusNull, StatusNotAssigned, StatusAvailable, StatusUsed} then sta
      else if sta = kernelVDEVStNull then StatusNull
      else if sta = kernelVDEVStNotAssigned then StatusNotAssigned
      else if sta = kernelVDEVStUsed then StatusUsed
      else if sta = kernelVDEVStError then StatusError
      else StatusError)"

definition parseStatusRowNumbers :: "string list \<Rightarrow> statusNums option" where
  "parseStatusRowNumbers fds =
     (case ParseUint (fds ! rowIdxPort) 10 32 of Inl _ \<Rightarrow> None | Inr port \<Rightarrow>
      case ParseUint (fds ! rowIdxStatus) 10 32 of Inl _ \<Rightarrow> None | Inr sta \<Rightarrow>
      case ParseUint (fds ! rowIdxSpeed) 10 32 of Inl _ \<Rightarrow> None | Inr spd \<Rightarrow>
      case ParseUint (fds ! rowIdxDevID) 16 32 of Inl _ \<Rightarrow> None | Inr devID \<Rightarrow>
      Some \<lparr>snPort = of_nat port, snSta = of_nat sta, snSpd = of_nat spd, snDevID = of_nat devID\<rparr>)"

definition parseStatusRow :: "string \<Rightarrow> parsedPort option" where
  "parseStatusRow line =
     (let fds = Fields line
      in if length fds \<noteq> statusFieldCount then None
         else let hub = fds ! rowIdxHub
           in if hub \<noteq> HubTypeHighSpeed \<and> hub \<noteq> HubTypeSuperSpeed then None
              else case parseStatusRowNumbers fds of
                None \<Rightarrow> None
              | Some nums \<Rightarrow>
                  if \<not> Speed_IsKnown (snSpd nums) then None
                  else Some \<lparr>ppHub = hub, ppPort = snPort nums, ppStatus = translateVDEVStatus (snSta nums),
                             ppSpeed = snSpd nums, ppDevID = snDevID nums, ppBusID = fds ! rowIdxBusID\<rparr>)"

definition skipStatusLine :: "string \<Rightarrow> bool" where
  "skipStatusLine line =
     (let trimmed = TrimSpace line
      in if trimmed = [] then True
         else let fds = Fields trimmed
           in if fds = [] then True else fds ! 0 = VHCIStatusHeaderPrefix)"

definition isControllerNotReadyStatusRow :: "string \<Rightarrow> bool" where
  "isControllerNotReadyStatusRow line =
     (let fds = Fields line
      in length fds = statusFieldCount
         \<and> fds ! rowIdxStatus = ''005'' \<and> fds ! rowIdxSpeed = ''000''
         \<and> fds ! rowIdxDevID = ''00000000'' \<and> fds ! rowIdxSockFD = ''0000000000000000''
         \<and> fds ! rowIdxBusID = ''0-0'')"

text \<open>\<open>Inr None\<close>: the line is skipped.\<close>

definition parseStatusLine :: "string \<Rightarrow> u32 \<Rightarrow> u32 \<Rightarrow> go_error + parsedPort option" where
  "parseStatusLine line controllerIdx vhciPorts =
     (if skipStatusLine line then Inr None
      else case parseStatusRow line of
        None \<Rightarrow> Inr None
      | Some row \<Rightarrow>
          if isControllerNotReadyStatusRow line then Inl [Kern ErrStatusControllerNotReady]
          else if ppPort row div vhciPorts \<noteq> controllerIdx then Inl [Kern ErrStatusRowControllerMismatch]
          else Inr (Some row))"

fun parse_lines :: "u32 \<Rightarrow> u32 \<Rightarrow> string list \<Rightarrow> go_error + parsedPort list" where
  "parse_lines idx vp [] = Inr []"
| "parse_lines idx vp (l # ls) =
     (case parseStatusLine l idx vp of
        Inl err \<Rightarrow> Inl err
      | Inr row \<Rightarrow>
          (case parse_lines idx vp ls of
             Inl err \<Rightarrow> Inl err
           | Inr rows \<Rightarrow> Inr (case row of None \<Rightarrow> rows | Some r \<Rightarrow> r # rows)))"

definition parseStatusFile :: "string \<Rightarrow> u32 \<Rightarrow> u32 \<Rightarrow> go_error + parsedPort list" where
  "parseStatusFile body controllerIdx vhciPorts =
     (if vhciPorts = 0 then Inl [Kern ErrStatusRowZeroVHCIPorts]
      else case ScanLines body of (ls, serr) \<Rightarrow>
        (case parse_lines controllerIdx vhciPorts ls of
           Inl err \<Rightarrow> Inl err
         | Inr rows \<Rightarrow> (case serr of Some err \<Rightarrow> Inl err | None \<Rightarrow> Inr rows)))"

fun read_status_files :: "sysfs \<Rightarrow> StatusTopology \<Rightarrow> nat list \<Rightarrow> go_error + parsedPort list" where
  "read_status_files fs topo [] = Inr []"
| "read_status_files fs topo (i # is) =
     (case readFileBytes fs (path_Join [SysfsVHCIHCD, statusFileName (of_nat i)]) of
        Inl err \<Rightarrow> Inl err
      | Inr raw \<Rightarrow>
          (case parseStatusFile raw (of_nat i) (stVHCIPorts topo) of
             Inl err \<Rightarrow> Inl err
           | Inr parsed \<Rightarrow>
               (case read_status_files fs topo is of
                  Inl err \<Rightarrow> Inl err
                | Inr rows \<Rightarrow> Inr (parsed @ rows))))"

definition readStatusRowsWithTopology :: "sysfs \<Rightarrow> StatusTopology \<Rightarrow> go_error + parsedPort list" where
  "readStatusRowsWithTopology fs topo = read_status_files fs topo [0..<unat (stNControllers topo)]"

definition readStatusRows :: "sysfs \<Rightarrow> (go_error + parsedPort list) option" where
  "readStatusRows fs =
     map_option (\<lambda>r. case r of Inl err \<Rightarrow> Inl err | Inr topo \<Rightarrow> readStatusRowsWithTopology fs topo)
       (discoverStatusTopology fs)"

text \<open>The columns of a row and the row as the kernel prints it, by \<open>VHCIStatusRowFmt\<close>.\<close>

record status_row =
  srHub :: string
  srPort :: u32
  srSta :: u32
  srSpd :: u32
  srDevID :: u32
  srSockFD :: nat
  srBusID :: string

definition VHCIStatusRowFmt :: "status_row \<Rightarrow> string" where
  "VHCIStatusRowFmt r =
     srHub r @ ''  '' @ zero_pad 4 (format_base 10 (unat (srPort r))) @ '' ''
       @ zero_pad 3 (format_base 10 (unat (srSta r))) @ '' '' @ zero_pad 3 (format_base 10 (unat (srSpd r))) @ '' ''
       @ zero_pad 8 (format_base 16 (unat (srDevID r))) @ '' '' @ zero_pad 6 (format_base 10 (srSockFD r)) @ '' ''
       @ srBusID r"

definition row_view :: "status_row \<Rightarrow> parsedPort" where
  "row_view r = \<lparr>ppHub = srHub r, ppPort = srPort r, ppStatus = translateVDEVStatus (srSta r), ppSpeed = srSpd r,
                 ppDevID = srDevID r, ppBusID = srBusID r\<rparr>"

definition row_ok :: "status_row \<Rightarrow> bool" where
  "row_ok r \<longleftrightarrow> (srHub r = HubTypeHighSpeed \<or> srHub r = HubTypeSuperSpeed) \<and> Speed_IsKnown (srSpd r)
     \<and> srBusID r \<noteq> [] \<and> (\<forall>c\<in>set (srBusID r). \<not> space_byte c)"

section \<open>Choosing a port\<close>

definition isFreeStatus :: "Status \<Rightarrow> bool" where
  "isFreeStatus s \<longleftrightarrow> s = StatusNull \<or> s = StatusAvailable"

definition hubTypeForSpeed :: "Speed \<Rightarrow> string" where
  "hubTypeForSpeed speed =
     (if speed = SpeedSuper \<or> speed = SpeedSuperPlus then HubTypeSuperSpeed else HubTypeHighSpeed)"

fun lowest_loop :: "string \<Rightarrow> PortID \<Rightarrow> bool \<Rightarrow> parsedPort list \<Rightarrow> PortID \<times> bool" where
  "lowest_loop desired lowest found [] = (lowest, found)"
| "lowest_loop desired lowest found (r # rows) =
     (if ppHub r \<noteq> desired then lowest_loop desired lowest found rows
      else if \<not> isFreeStatus (ppStatus r) then lowest_loop desired lowest found rows
      else if \<not> found \<or> ppPort r < lowest then lowest_loop desired (ppPort r) True rows
      else lowest_loop desired lowest found rows)"

definition lowestFreePort :: "parsedPort list \<Rightarrow> string \<Rightarrow> PortID \<times> bool" where
  "lowestFreePort rows desired = lowest_loop desired (- 1) False rows"

definition findFreePortWithTopology :: "sysfs \<Rightarrow> StatusTopology \<Rightarrow> Speed \<Rightarrow> go_error + PortID" where
  "findFreePortWithTopology fs topo speed =
     (case readStatusRowsWithTopology fs topo of
        Inl err \<Rightarrow> Inl err
      | Inr rows \<Rightarrow>
          (case lowestFreePort rows (hubTypeForSpeed speed) of
             (port, ok) \<Rightarrow> if \<not> ok then Inl [Dom ErrNoFreePort] else Inr port))"

definition findFreePort :: "sysfs \<Rightarrow> Speed \<Rightarrow> (go_error + PortID) option" where
  "findFreePort fs speed =
     map_option (\<lambda>r. case r of Inl err \<Rightarrow> Inl err | Inr topo \<Rightarrow> findFreePortWithTopology fs topo speed)
       (discoverStatusTopology fs)"

definition ListPorts_rows :: "parsedPort list \<Rightarrow> Port list" where
  "ListPorts_rows rows =
     map (\<lambda>r. \<lparr>pID = ppPort r, pStatus = ppStatus r, pSpeed = ppSpeed r, pDeviceID = ppDevID r,
               pRemote = \<lparr>reHost = [], rePort = 0\<rparr>, pBusID = [], pLocalBusID = ppBusID r\<rparr>) rows"

definition Kernel_ListPorts :: "sysfs \<Rightarrow> (go_error + Port list) option" where
  "Kernel_ListPorts fs =
     (case Importer_ModulesAvailable fs of
        Some err \<Rightarrow> Some (Inl err)
      | None \<Rightarrow>
          map_option (\<lambda>r. case r of Inl err \<Rightarrow> Inl err | Inr rows \<Rightarrow> Inr (ListPorts_rows rows))
            (readStatusRows fs))"

section \<open>attach.go\<close>

definition validatePortInRange :: "StatusTopology \<Rightarrow> PortID \<Rightarrow> go_error option" where
  "validatePortInRange topo port =
     (let nports = stNControllers topo * stVHCIPorts topo
      in if nports \<le> port then Some [Kern ErrPortOutOfRange] else None)"

definition formatAttachPayload :: "PortID \<Rightarrow> nat \<Rightarrow> DeviceID \<Rightarrow> Speed \<Rightarrow> string" where
  "formatAttachPayload port fd devID speed =
     FormatUint (unat port) @ '' '' @ FormatUint fd @ '' '' @ FormatUint (unat devID) @ '' '' @ FormatUint (unat speed)"

text \<open>The duplicated descriptor, or why there is none, is a parameter (\<open>extractFD\<close> only makes system
  calls).  The userspace connection is closed exactly on success.\<close>

definition attachAtPortWithTopology ::
  "kernel_env \<Rightarrow> history \<Rightarrow> go_error + nat \<Rightarrow> PortID \<Rightarrow> DeviceID \<Rightarrow> Speed \<Rightarrow> StatusTopology
     \<Rightarrow> (go_error + PortID) \<times> history" where
  "attachAtPortWithTopology env hist conn port devID speed topo =
     (case validatePortInRange topo port of
        Some err \<Rightarrow> (Inl err, hist)
      | None \<Rightarrow>
          (case conn of
             Inl err \<Rightarrow> (Inl err, hist)
           | Inr fd \<Rightarrow>
               (case writeClassified env hist (path_Join [SysfsVHCIHCD, SysfsVHCIAttach])
                       (formatAttachPayload port fd devID speed) of
                  (Some err, hist) \<Rightarrow> (Inl err, hist)
                | (None, hist) \<Rightarrow> (Inr port, hist))))"

record attach_result =
  arResult :: "go_error + PortID"
  arHistory :: history
  arReserved :: "PortID option"

text \<open>\<open>AttachRemote\<close>; \<open>reserve\<close> is the hook of the specification.\<close>

definition AttachRemote ::
  "kernel_env \<Rightarrow> history \<Rightarrow> go_error + nat \<Rightarrow> DeviceID \<Rightarrow> Speed \<Rightarrow> (PortID \<Rightarrow> go_error option) option
     \<Rightarrow> attach_result option" where
  "AttachRemote env hist conn devID speed reserve =
     (let fs = keFS env hist;
          refused = (\<lambda>err res. Some \<lparr>arResult = Inl err, arHistory = hist, arReserved = res\<rparr>)
      in case Importer_ModulesAvailable fs of
        Some err \<Rightarrow> refused err None
      | None \<Rightarrow> do {
          topo \<leftarrow> discoverStatusTopology fs;
          case topo of
            Inl err \<Rightarrow> refused err None
          | Inr topo \<Rightarrow>
              (case findFreePortWithTopology fs topo speed of
                 Inl err \<Rightarrow> refused err None
               | Inr port \<Rightarrow>
                   (case (case reserve of None \<Rightarrow> None | Some f \<Rightarrow> f port) of
                      Some err \<Rightarrow> refused err (Some port)
                    | None \<Rightarrow>
                        (case attachAtPortWithTopology env hist conn port devID speed topo of
                           (res, hist) \<Rightarrow> Some \<lparr>arResult = res, arHistory = hist, arReserved = Some port\<rparr>))) })"

definition formatDetachPayload :: "PortID \<Rightarrow> string" where
  "formatDetachPayload p = FormatUint (unat p)"

fun statusForPort :: "parsedPort list \<Rightarrow> PortID \<Rightarrow> Status \<times> bool" where
  "statusForPort [] p = (StatusNull, False)"
| "statusForPort (row # rows) p = (if ppPort row = p then (ppStatus row, True) else statusForPort rows p)"

definition DetachPort :: "kernel_env \<Rightarrow> history \<Rightarrow> PortID \<Rightarrow> (go_error option \<times> history) option" where
  "DetachPort env hist p =
     (let fs = keFS env hist
      in case Importer_ModulesAvailable fs of
        Some err \<Rightarrow> Some (Some err, hist)
      | None \<Rightarrow> do {
          topo \<leftarrow> discoverStatusTopology fs;
          case topo of
            Inl err \<Rightarrow> Some (Some err, hist)
          | Inr topo \<Rightarrow>
              (case validatePortInRange topo p of
                 Some err \<Rightarrow> Some (Some err, hist)
               | None \<Rightarrow>
                   (case readStatusRowsWithTopology fs topo of
                      Inl err \<Rightarrow> Some (Some err, hist)
                    | Inr rows \<Rightarrow>
                        (case statusForPort rows p of
                           (status, found) \<Rightarrow>
                             if \<not> found \<or> isFreeStatus status then Some (Some [Dom ErrDeviceNotBound], hist)
                             else (case writeClassified env hist (path_Join [SysfsVHCIHCD, SysfsVHCIDetach])
                                          (formatDetachPayload p) of
                                     (None, hist) \<Rightarrow> Some (None, hist)
                                   | (Some detachErr, hist) \<Rightarrow>
                                       if errors_Is detachErr (Errno EINVAL)
                                       then Some (Some (Dom ErrDeviceNotBound # detachErr), hist)
                                       else Some (Some detachErr, hist))))) })"

section \<open>Lemmas\<close>

definition free_row :: "string \<Rightarrow> parsedPort \<Rightarrow> bool" where
  "free_row desired r \<longleftrightarrow> ppHub r = desired \<and> isFreeStatus (ppStatus r)"

lemma lowest_loop_spec:
  assumes "lowest_loop d l f rows = (p, ok)"
  shows "(ok \<longleftrightarrow> f \<or> (\<exists>r\<in>set rows. free_row d r))
    \<and> (ok \<longrightarrow> ((f \<and> p = l) \<or> (\<exists>r\<in>set rows. free_row d r \<and> ppPort r = p))
           \<and> (f \<longrightarrow> p \<le> l) \<and> (\<forall>r\<in>set rows. free_row d r \<longrightarrow> p \<le> ppPort r))"
  using assms
proof (induction d l f rows rule: lowest_loop.induct)
  case (2 d l f r rows)
  consider (skip) "\<not> free_row d r" | (take) "free_row d r" "\<not> f \<or> ppPort r < l"
    | (keep) "free_row d r" "f" "\<not> ppPort r < l"
    by blast
  thus ?case
  proof cases
    case skip
    hence "lowest_loop d l f rows = (p, ok)"
      using "2.prems" by (auto simp: free_row_def split: if_splits)
    thus ?thesis
      using skip "2.IH"(1,2,4) by (auto simp: free_row_def)
  next
    case take
    hence "lowest_loop d (ppPort r) True rows = (p, ok)"
      using "2.prems" by (auto simp: free_row_def)
    moreover have "ppHub r = d" "isFreeStatus (ppStatus r)"
      using take by (simp_all add: free_row_def)
    ultimately have "ok \<and> (p = ppPort r \<or> (\<exists>x\<in>set rows. free_row d x \<and> ppPort x = p)) \<and> p \<le> ppPort r
        \<and> (\<forall>x\<in>set rows. free_row d x \<longrightarrow> p \<le> ppPort x)"
      using "2.IH"(3) take(2) by auto
    thus ?thesis
      using take by (auto intro: order.trans)
  next
    case keep
    hence "lowest_loop d l f rows = (p, ok)"
      using "2.prems" by (auto simp: free_row_def)
    moreover have "ppHub r = d" "isFreeStatus (ppStatus r)"
      using keep by (simp_all add: free_row_def)
    ultimately show ?thesis
      using "2.IH"(4) keep by auto
  qed
qed simp

lemma lowestFreePort_spec:
  assumes "lowestFreePort rows d = (p, ok)"
  shows "(ok \<longleftrightarrow> (\<exists>r\<in>set rows. free_row d r))
    \<and> (ok \<longrightarrow> (\<exists>r\<in>set rows. free_row d r \<and> ppPort r = p) \<and> (\<forall>r\<in>set rows. free_row d r \<longrightarrow> p \<le> ppPort r))"
  using lowest_loop_spec [of d "- 1" False rows p ok] assms by (simp add: lowestFreePort_def)

lemma writeClassified_hist:
  "writeClassified env hist t d = (err, hist') \<Longrightarrow>
     hist' = hist @ [(t, d, keWrite env hist t d)] \<and> err = map_option (classifyFSErr t) (keWrite env hist t d)"
  by (auto simp: writeClassified_def sysfs_write_def Let_def)

lemma statusForPort_found: "statusForPort rows p = (st, True) \<Longrightarrow> \<exists>r\<in>set rows. ppPort r = p \<and> ppStatus r = st"
  by (induction rows) (auto split: if_splits)

section \<open>Properties\<close>

definition attach_path :: string where "attach_path = path_Join [SysfsVHCIHCD, SysfsVHCIAttach]"
definition detach_path :: string where "detach_path = path_Join [SysfsVHCIHCD, SysfsVHCIDetach]"

text \<open>C17: AttachRemote makes at most one write, and only after the port was reserved: it writes the attach
  record of exactly the reserved port, which is in range, belongs to the hub of the device's speed,
  was free in the status just read and is the lowest such port.  It reports success exactly when
  that write was accepted; on every other path nothing was written.\<close>
theorem attach_remote_safe:
  assumes "AttachRemote env hist conn devID speed (Some reserve) = Some out"
  shows "(arHistory out = hist \<and> (\<exists>e. arResult out = Inl e))
    \<or> (\<exists>port fd topo rows answer. arReserved out = Some port \<and> reserve port = None \<and> conn = Inr fd
         \<and> discoverStatusTopology (keFS env hist) = Some (Inr topo)
         \<and> readStatusRowsWithTopology (keFS env hist) topo = Inr rows
         \<and> port < stNControllers topo * stVHCIPorts topo
         \<and> (\<exists>r\<in>set rows. free_row (hubTypeForSpeed speed) r \<and> ppPort r = port)
         \<and> (\<forall>r\<in>set rows. free_row (hubTypeForSpeed speed) r \<longrightarrow> port \<le> ppPort r)
         \<and> arHistory out = hist @ [(attach_path, formatAttachPayload port fd devID speed, answer)]
         \<and> arResult out = (case answer of None \<Rightarrow> Inr port | Some e \<Rightarrow> Inl (classifyFSErr attach_path e)))"
proof (cases "arHistory out = hist \<and> (\<exists>e. arResult out = Inl e)")
  case False
  let ?fs = "keFS env hist"
  have mods: "Importer_ModulesAvailable ?fs = None"
    using assms False by (cases "Importer_ModulesAvailable ?fs") (auto simp: AttachRemote_def Let_def)
  obtain t where t: "discoverStatusTopology ?fs = Some t"
    using assms mods by (auto simp: AttachRemote_def Let_def bind_eq_Some_conv)
  obtain topo where topo: "t = Inr topo"
    using assms mods t False by (cases t) (auto simp: AttachRemote_def Let_def)
  obtain port where port: "findFreePortWithTopology ?fs topo speed = Inr port"
    using assms mods t topo False by (cases "findFreePortWithTopology ?fs topo speed") (auto simp: AttachRemote_def Let_def)
  have res: "reserve port = None"
    using assms mods t topo port False by (cases "reserve port") (auto simp: AttachRemote_def Let_def)
  obtain r h where at: "attachAtPortWithTopology env hist conn port devID speed topo = (r, h)"
    by (cases "attachAtPortWithTopology env hist conn port devID speed topo")
  have out: "out = \<lparr>arResult = r, arHistory = h, arReserved = Some port\<rparr>"
    using assms mods t topo port res at by (auto simp: AttachRemote_def Let_def)
  have rng: "validatePortInRange topo port = None"
    using at False out by (cases "validatePortInRange topo port") (auto simp: attachAtPortWithTopology_def)
  obtain fd where fd: "conn = Inr fd"
    using at rng False out by (cases conn) (auto simp: attachAtPortWithTopology_def)
  obtain werr wh where w: "writeClassified env hist attach_path (formatAttachPayload port fd devID speed) = (werr, wh)"
    by (cases "writeClassified env hist attach_path (formatAttachPayload port fd devID speed)")
  obtain rows where rows: "readStatusRowsWithTopology ?fs topo = Inr rows" "lowestFreePort rows (hubTypeForSpeed speed) = (port, True)"
    using port by (auto simp: findFreePortWithTopology_def split: sum.splits prod.splits if_splits)
  have "port < stNControllers topo * stVHCIPorts topo"
    using rng by (auto simp: validatePortInRange_def Let_def split: if_splits)
  moreover have "r = (case keWrite env hist attach_path (formatAttachPayload port fd devID speed) of
      None \<Rightarrow> Inr port | Some e \<Rightarrow> Inl (classifyFSErr attach_path e))" "h = wh"
    using at rng fd w writeClassified_hist [OF w]
    by (auto simp: attachAtPortWithTopology_def attach_path_def [symmetric] split: option.splits)
  ultimately show ?thesis
    using out res fd t topo rows lowestFreePort_spec [OF rows(2)] writeClassified_hist [OF w] by simp
qed simp

text \<open>C19: DetachPort never touches a port that is not in use.  It writes the port's number to the detach file
  exactly when the port is in range and the status just read shows it neither free nor absent, and
  otherwise writes nothing; a port that is free, absent or refused by the kernel as invalid is
  reported as not bound.\<close>
theorem detach_port_safe:
  assumes "DetachPort env hist p = Some (res, hist')"
  shows "(hist' = hist \<and> res \<noteq> None)
    \<or> (\<exists>topo rows st answer. discoverStatusTopology (keFS env hist) = Some (Inr topo)
         \<and> p < stNControllers topo * stVHCIPorts topo
         \<and> readStatusRowsWithTopology (keFS env hist) topo = Inr rows
         \<and> (\<exists>r\<in>set rows. ppPort r = p \<and> ppStatus r = st) \<and> \<not> isFreeStatus st
         \<and> hist' = hist @ [(detach_path, FormatUint (unat p), answer)]
         \<and> (res = None \<longleftrightarrow> answer = None)
         \<and> (answer = Some [Errno EINVAL] \<longrightarrow> errors_Is (the res) (Dom ErrDeviceNotBound)))"
proof (cases "hist' = hist \<and> res \<noteq> None")
  case False
  let ?fs = "keFS env hist"
  have mods: "Importer_ModulesAvailable ?fs = None"
    using assms False by (cases "Importer_ModulesAvailable ?fs") (auto simp: DetachPort_def Let_def)
  obtain t where t: "discoverStatusTopology ?fs = Some t"
    using assms mods by (auto simp: DetachPort_def Let_def bind_eq_Some_conv)
  obtain topo where topo: "t = Inr topo"
    using assms mods t False by (cases t) (auto simp: DetachPort_def Let_def)
  have rng: "validatePortInRange topo p = None"
    using assms mods t topo False by (cases "validatePortInRange topo p") (auto simp: DetachPort_def Let_def)
  obtain rows where rows: "readStatusRowsWithTopology ?fs topo = Inr rows"
    using assms mods t topo rng False by (cases "readStatusRowsWithTopology ?fs topo") (auto simp: DetachPort_def Let_def)
  obtain st found where st: "statusForPort rows p = (st, found)"
    by (cases "statusForPort rows p")
  have used: "found" "\<not> isFreeStatus st"
    using assms mods t topo rng rows st False by (auto simp: DetachPort_def Let_def split: if_splits)
  obtain werr wh where w: "writeClassified env hist detach_path (formatDetachPayload p) = (werr, wh)"
    by (cases "writeClassified env hist detach_path (formatDetachPayload p)")
  have r: "(res, hist') = (case werr of None \<Rightarrow> (None, wh)
      | Some e \<Rightarrow> (Some (if errors_Is e (Errno EINVAL) then Dom ErrDeviceNotBound # e else e), wh))"
    using assms mods t topo rng rows st used w
    by (auto simp: DetachPort_def Let_def detach_path_def [symmetric] split: option.splits if_splits)
  have "p < stNControllers topo * stVHCIPorts topo"
    using rng by (auto simp: validatePortInRange_def Let_def split: if_splits)
  moreover have "classifyFSErr detach_path [Errno EINVAL] = [Errno EINVAL]"
    by (simp add: classifyFSErr_def classifyErrAny_def ClassifyErrno_def classifyErrnoKind_def errnos)
  ultimately show ?thesis
    using t topo rows used r writeClassified_hist [OF w] st statusForPort_found [of rows p st]
    by (auto simp: formatDetachPayload_def split: option.splits)
qed simp

lemma Fields_padded:
  assumes "2 \<le> b" "b \<le> 16"
  shows "Fields (zero_pad w (format_base b n) @ CHR '' '' # s) = zero_pad w (format_base b n) # Fields s"
proof (rule Fields_word)
  have "format_base b n \<noteq> []"
    by (subst format_base.simps) simp
  thus "zero_pad w (format_base b n) \<noteq> []"
    by (simp add: zero_pad_def)
  have "\<forall>c\<in>set ''0123456789abcdef''. \<not> space_byte c"
    by (simp add: space_byte_def)
  thus "\<forall>c\<in>set (zero_pad w (format_base b n)). \<not> space_byte c"
    using set_format_base [OF assms, of w n] by blast
qed

lemma row_Fields:
  assumes "row_ok r"
  shows "Fields (VHCIStatusRowFmt r) =
     [srHub r, zero_pad 4 (format_base 10 (unat (srPort r))), zero_pad 3 (format_base 10 (unat (srSta r))),
      zero_pad 3 (format_base 10 (unat (srSpd r))), zero_pad 8 (format_base 16 (unat (srDevID r))),
      zero_pad 6 (format_base 10 (srSockFD r)), srBusID r]"
proof -
  have "srHub r \<noteq> [] \<and> (\<forall>c\<in>set (srHub r). \<not> space_byte c)"
    using assms by (auto simp: row_ok_def HubTypeHighSpeed_def HubTypeSuperSpeed_def space_byte_def)
  thus ?thesis
    using assms by (simp add: row_ok_def VHCIStatusRowFmt_def Fields_word Fields_last Fields_blank Fields_padded)
qed

lemma row_parse:
  assumes "row_ok r"
  shows "parseStatusRow (VHCIStatusRowFmt r) = Some (row_view r)"
proof -
  have "unat w < 2 ^ 32" for w :: u32
    using unsigned_less [of w] by simp
  hence "ParseUint (zero_pad k (format_base 10 (unat w))) 10 32 = Inr (unat w)"
    "ParseUint (zero_pad k (format_base 16 (unat w))) 16 32 = Inr (unat w)" for k and w :: u32
    by (simp_all add: ParseUint_padded)
  thus ?thesis
    using assms row_Fields [OF assms]
    by (auto simp: parseStatusRow_def parseStatusRowNumbers_def row_idx row_ok_def row_view_def)
qed

lemma row_no_newline: "row_ok r \<Longrightarrow> CHR 0x0A \<notin> set (VHCIStatusRowFmt r) \<and> dropCR (VHCIStatusRowFmt r) = VHCIStatusRowFmt r"
proof -
  assume r: "row_ok r"
  have "CHR 0x0A \<notin> set (zero_pad w (format_base b n))" if "2 \<le> b" "b \<le> 16" for w b n
    using set_format_base [OF that, of w n] by auto
  moreover have "CHR 0x0A \<notin> set (srBusID r)"
    using r by (auto simp: row_ok_def space_byte_def)
  moreover have "\<not> space_byte (last (srBusID r))"
    using r by (simp add: row_ok_def)
  hence "last (srBusID r) \<noteq> CHR 0x0D"
    by (auto simp: space_byte_def)
  ultimately show ?thesis
    using r by (auto simp: VHCIStatusRowFmt_def row_ok_def HubTypeHighSpeed_def HubTypeSuperSpeed_def dropCR_def)
qed

lemma row_not_skipped: "row_ok r \<Longrightarrow> \<not> skipStatusLine (VHCIStatusRowFmt r)"
proof -
  assume r: "row_ok r"
  have "TrimSpace (VHCIStatusRowFmt r) = VHCIStatusRowFmt r"
    using r last_in_set [of "srBusID r"]
    by (intro TrimSpace_plain)
      (auto simp: VHCIStatusRowFmt_def row_ok_def HubTypeHighSpeed_def HubTypeSuperSpeed_def space_byte_def)
  thus ?thesis
    using r row_Fields [OF r]
    by (auto simp: skipStatusLine_def row_ok_def HubTypeHighSpeed_def HubTypeSuperSpeed_def
        VHCIStatusHeaderPrefix_def VHCIStatusRowFmt_def)
qed

text \<open>The socket column of the placeholder row is sixteen digits wide: no printed number looks like it.\<close>

lemma row_ready: "row_ok r \<Longrightarrow> \<not> isControllerNotReadyStatusRow (VHCIStatusRowFmt r)"
proof
  let ?f = "format_base 10 (srSockFD r)"
  assume r: "row_ok r" and n: "isControllerNotReadyStatusRow (VHCIStatusRowFmt r)"
  have z: "zero_pad 6 ?f = replicate 16 (CHR ''0'')"
    using n row_Fields [OF r] by (simp add: isControllerNotReadyStatusRow_def row_idx numeral_eq_Suc)
  hence "length (zero_pad 6 ?f) = 16"
    by simp
  hence "length ?f = 16"
    by (auto simp: zero_pad_def)
  moreover from this z have "?f = replicate 16 (CHR ''0'') @ []"
    by (simp add: zero_pad_def)
  hence "parse_uint_loop 10 (srSockFD r) 0 ?f = Inr 0"
    using parse_zeros [of 10 "srSockFD r" 16 "[]"] by simp
  hence "srSockFD r = 0"
    using parse_format_base [of 10 "srSockFD r" "srSockFD r"] by simp
  ultimately show False
    by (simp add: format_base.simps)
qed

lemma parse_rows:
  assumes "\<forall>r\<in>set rows. row_ok r \<and> srPort r div vp = idx"
  shows "parse_lines idx vp (map VHCIStatusRowFmt rows) = Inr (map row_view rows)"
  using assms
  by (induction rows) (simp_all add: parseStatusLine_def row_not_skipped row_parse row_ready row_view_def)

lemma ScanLines_rows:
  assumes "\<forall>r\<in>set rows. row_ok r \<and> length (VHCIStatusRowFmt r) < 65536"
  shows "ScanLines (concat (map (\<lambda>r. VHCIStatusRowFmt r @ [CHR 0x0A]) rows)) = (map VHCIStatusRowFmt rows, None)"
proof -
  have "split_on (CHR 0x0A) (concat (map (\<lambda>r. VHCIStatusRowFmt r @ [CHR 0x0A]) rows)) = map VHCIStatusRowFmt rows @ [[]]"
    using assms by (induction rows) (simp_all add: split_on_append_sep split_on_no_sep row_no_newline)
  moreover have "map dropCR (map VHCIStatusRowFmt rows) = map VHCIStatusRowFmt rows"
    using assms by (simp add: row_no_newline)
  moreover have ok: "takeWhile (\<lambda>l. length l < 65536) (map VHCIStatusRowFmt rows) = map VHCIStatusRowFmt rows"
    using assms by (simp add: takeWhile_eq_all_conv)
  ultimately show ?thesis
    by (simp add: ScanLines_def Let_def ok del: map_map)
qed

lemma status_file_rows:
  assumes "vp \<noteq> 0" "\<forall>r\<in>set rows. row_ok r \<and> srPort r div vp = idx \<and> length (VHCIStatusRowFmt r) < 65536"
  shows "parseStatusFile (concat (map (\<lambda>r. VHCIStatusRowFmt r @ [CHR 0x0A]) rows)) idx vp = Inr (map row_view rows)"
  using assms by (simp add: parseStatusFile_def ScanLines_rows parse_rows)

text \<open>C20: The parser reads back every status file the kernel prints in the documented format: hub, port,
  status (through its translation), speed, device id and bus id of every row come back in order,
  whatever the socket column holds, for rows of the controller asked for with a speed the domain
  knows and shorter than the scanner's limit.\<close>
theorem status_file_roundtrip:
  assumes "vhciPorts \<noteq> 0"
    and "\<forall>r\<in>set rows. row_ok r \<and> srPort r div vhciPorts = idx \<and> length (VHCIStatusRowFmt r) < 65536"
  shows "parseStatusFile (concat (map (\<lambda>r. VHCIStatusRowFmt r @ [CHR 0x0A]) rows)) idx vhciPorts = Inr (map row_view rows)"
  using assms by (rule status_file_rows)

section \<open>An example machine\<close>

text \<open>One controller with eight ports: the first high-speed port is in use, the second is free.\<close>

definition sample_rows :: "status_row list" where
  "sample_rows =
     [\<lparr>srHub = ''hs'', srPort = 0, srSta = 6, srSpd = 3, srDevID = 258, srSockFD = 3, srBusID = ''1-1''\<rparr>,
      \<lparr>srHub = ''hs'', srPort = 1, srSta = 4, srSpd = 0, srDevID = 0, srSockFD = 0, srBusID = ''0-0''\<rparr>]"

definition sample_ports_fs :: sysfs where
  "sample_ports_fs = sample_sysfs
     \<lparr>sfStat := (\<lambda>p. if p \<in> {''sys/module/usbip_core'', ''sys/module/vhci_hcd''} then None else Some [Io FsErrNotExist]),
      sfRead := (\<lambda>p. if p = ''sys/devices/platform/vhci_hcd.0/status''
                    then Inr (concat (map (\<lambda>r. VHCIStatusRowFmt r @ [CHR 0x0A]) sample_rows))
                    else sfRead sample_sysfs p)\<rparr>"

definition sample_ports_env :: kernel_env where
  "sample_ports_env = \<lparr>keFS = (\<lambda>_. sample_ports_fs), keWrite = (\<lambda>_ _ _. None)\<rparr>"

lemma length_format_base: "length (format_base b n) \<le> Suc n"
proof (induction b n rule: format_base.induct)
  case (1 b n)
  show ?case
  proof (cases "b < 2 \<or> n < b")
    case False
    hence "n div b < n"
      by (intro div_less_dividend) auto
    hence "length (format_base b (n div b)) \<le> n"
      using "1.IH" [OF False] by linarith
    thus ?thesis
      using False by (simp add: format_base.simps [of b n])
  qed (simp add: format_base.simps [of b n])
qed

lemma sample_rows_ok:
  "\<forall>r\<in>set sample_rows. row_ok r \<and> srPort r div 8 = 0 \<and> length (VHCIStatusRowFmt r) < 65536"
proof -
  have "\<forall>r\<in>set sample_rows. row_ok r \<and> srPort r div 8 = 0"
    by (simp add: sample_rows_def row_ok_def space_byte_def Speed_IsKnown_def SpeedHigh_def SpeedUnknown_def
        HubTypeHighSpeed_def)
  moreover have pad: "length (zero_pad w (format_base b n)) \<le> w + Suc n" for w b n
    using length_format_base [of b n] by (simp add: zero_pad_def)
  have len: "length (VHCIStatusRowFmt r) \<le> length (srHub r) + length (srBusID r) + unat (srPort r) + unat (srSta r)
      + unat (srSpd r) + unat (srDevID r) + srSockFD r + 40" for r
    using pad [of 4 10 "unat (srPort r)"] pad [of 3 10 "unat (srSta r)"] pad [of 3 10 "unat (srSpd r)"]
      pad [of 8 16 "unat (srDevID r)"] pad [of 6 10 "srSockFD r"] by (simp add: VHCIStatusRowFmt_def)
  have "\<forall>r\<in>set sample_rows. length (VHCIStatusRowFmt r) < 65536"
    by (auto simp: sample_rows_def intro!: le_less_trans [OF len])
  ultimately show ?thesis
    by blast
qed

lemma sample_views:
  "map row_view sample_rows =
     [\<lparr>ppHub = ''hs'', ppPort = 0, ppStatus = StatusUsed, ppSpeed = 3, ppDevID = 258, ppBusID = ''1-1''\<rparr>,
      \<lparr>ppHub = ''hs'', ppPort = 1, ppStatus = StatusNull, ppSpeed = 0, ppDevID = 0, ppBusID = ''0-0''\<rparr>]"
  by (simp add: sample_rows_def row_view_def translateVDEVStatus_def kernelVDEVStNull_def kernelVDEVStUsed_def
      kernelVDEVStNotAssigned_def StatusNull_def StatusNotAssigned_def StatusAvailable_def StatusUsed_def)

theorem status_file_roundtrip_witness:
  "parseStatusFile (concat (map (\<lambda>r. VHCIStatusRowFmt r @ [CHR 0x0A]) sample_rows)) 0 8 =
     Inr [\<lparr>ppHub = ''hs'', ppPort = 0, ppStatus = StatusUsed, ppSpeed = 3, ppDevID = 258, ppBusID = ''1-1''\<rparr>,
      \<lparr>ppHub = ''hs'', ppPort = 1, ppStatus = StatusNull, ppSpeed = 0, ppDevID = 0, ppBusID = ''0-0''\<rparr>]"
  using status_file_roundtrip [of 8 sample_rows 0] sample_rows_ok sample_views by simp

lemma sample_ports_topology: "discoverStatusTopology sample_ports_fs = Some (Inr (Topology_Status sample_topology))"
proof -
  let ?p = "path_Join [SysfsVHCIHCD, SysfsVHCINPorts]"
  have "fsPathFromAbs ?p = ''sys/devices/platform/vhci_hcd.0/nports''"
    by (simp add: path_Join_def path_Clean_def sysfs_paths fsPathFromAbs_def)
  hence "readFileBytes sample_ports_fs ?p = readFileBytes sample_sysfs ?p"
    by (simp add: readFileBytes_def sample_ports_fs_def split: option.split)
  hence "ReadUint sample_ports_fs ?p = ReadUint sample_sysfs ?p"
    by (simp add: ReadUint_def ReadLine_def)
  moreover have "statusFileState sample_ports_fs i = statusFileState sample_sysfs i" for i
    by (simp add: statusFileState_def sample_ports_fs_def)
  hence "probe_loop sample_ports_fs 0 0 = Some (Inr 1)" "probe_loop sample_sysfs 0 0 = Some (Inr 1)"
    using probe_loop_counts [of 1 _ 0 0] sample_status by simp_all
  hence probe: "probeControllerCount sample_ports_fs = probeControllerCount sample_sysfs"
    by (simp add: probeControllerCount_def)
  ultimately have "discoverStatusTopology sample_ports_fs = discoverStatusTopology sample_sysfs"
    unfolding discoverStatusTopology_def probe by simp
  thus ?thesis
    by (simp add: sample_discover)
qed

lemma sample_status_rows:
  "readStatusRowsWithTopology sample_ports_fs (Topology_Status sample_topology) = Inr (map row_view sample_rows)"
proof -
  have "fsPathFromAbs (path_Join [SysfsVHCIHCD, statusFileName 0]) = ''sys/devices/platform/vhci_hcd.0/status''"
    by (simp add: path_Join_def path_Clean_def sysfs_paths fsPathFromAbs_def statusFileName_def)
  hence "readFileBytes sample_ports_fs (path_Join [SysfsVHCIHCD, statusFileName 0]) =
      Inr (concat (map (\<lambda>r. VHCIStatusRowFmt r @ [CHR 0x0A]) sample_rows))"
    by (simp add: readFileBytes_def sample_ports_fs_def sample_sysfs_def no_files_def)
  thus ?thesis
    using status_file_rows [of 8 sample_rows 0] sample_rows_ok
    by (simp add: readStatusRowsWithTopology_def Topology_Status_def sample_topology_def)
qed

lemma sample_modules: "Importer_ModulesAvailable sample_ports_fs = None"
  by (simp add: Importer_ModulesAvailable_def path_Join_def path_Clean_def sysfs_paths fsPathFromAbs_def
      sample_ports_fs_def)

lemmas sample_ports = sample_ports_topology sample_status_rows sample_modules sample_views

lemma sample_free_port: "findFreePortWithTopology sample_ports_fs (Topology_Status sample_topology) SpeedHigh = Inr 1"
  by (simp add: findFreePortWithTopology_def sample_ports lowestFreePort_def hubTypeForSpeed_def HubTypeHighSpeed_def
      isFreeStatus_def StatusNull_def StatusAvailable_def StatusUsed_def SpeedHigh_def SpeedSuper_def SpeedSuperPlus_def)

lemma sample_port_attach:
  "AttachRemote sample_ports_env [] (Inr 9) 65538 SpeedHigh (Some (\<lambda>_. None)) = Some
     \<lparr>arResult = Inr 1, arHistory = [(attach_path, formatAttachPayload 1 9 65538 SpeedHigh, None)], arReserved = Some 1\<rparr>"
  by (simp add: AttachRemote_def sample_ports_env_def sample_ports sample_free_port)
    (simp add: attachAtPortWithTopology_def validatePortInRange_def Topology_Status_def sample_topology_def
      writeClassified_def sysfs_write_def attach_path_def word_le_nat_alt)

theorem attach_remote_safe_witness:
  "\<exists>topo rows. discoverStatusTopology sample_ports_fs = Some (Inr topo)
     \<and> readStatusRowsWithTopology sample_ports_fs topo = Inr rows
     \<and> (\<forall>r\<in>set rows. free_row (hubTypeForSpeed SpeedHigh) r \<longrightarrow> 1 \<le> ppPort r)"
  using attach_remote_safe [OF sample_port_attach] by (auto simp: sample_ports_env_def)

lemma sample_detach: "DetachPort sample_ports_env [] 0 = Some (None, [(detach_path, FormatUint 0, None)])"
proof -
  have "validatePortInRange (Topology_Status sample_topology) 0 = None"
    by (simp add: validatePortInRange_def Topology_Status_def sample_topology_def)
  moreover have "statusForPort (map row_view sample_rows) 0 = (StatusUsed, True)" "\<not> isFreeStatus StatusUsed"
    by (simp_all add: sample_views isFreeStatus_def StatusNull_def StatusAvailable_def StatusUsed_def)
  ultimately show ?thesis
    using sample_ports_topology sample_status_rows sample_modules
    by (simp add: DetachPort_def sample_ports_env_def writeClassified_def sysfs_write_def detach_path_def
        formatDetachPayload_def)
qed

theorem detach_port_safe_witness:
  "\<exists>topo rows. readStatusRowsWithTopology sample_ports_fs topo = Inr rows
     \<and> (\<exists>r\<in>set rows. ppPort r = 0 \<and> \<not> isFreeStatus (ppStatus r))"
  using detach_port_safe [OF sample_detach] by (auto simp: sample_ports_env_def)

end
