(* ===== verification/Kernel_Handoff.thy ===== *)
theory Kernel_Handoff
  imports Kernel_Ports
begin

text \<open>
  \<open>internal/adapter/kernel/attach.go\<close> (\<open>extractFD\<close>, \<open>attachAtPortWithTopology\<close>) and \<open>export.go\<close> (\<open>ExportOnConn\<close>): who owns which
  descriptor while a connection is handed to the kernel.  The functions of \<open>Kernel_Ports\<close> and \<open>Kernel_Sysfs\<close> take the duplicated
  descriptor as given; here they are written with the effects on descriptors and proved to refine those.
\<close>

section \<open>The effects of a handoff\<close>

text \<open>A connection as \<open>syscall.Conn\<close> shows it.  \<open>fcRan\<close>: whether \<open>RawConn.Control\<close> ran its function, \<open>fcControl\<close> the error that it returned, \<open>fcDup\<close>
  what \<open>dup\<close> answers there.\<close>

record fd_conn =
  fcSyscall :: bool
  fcRaw :: "go_error option"
  fcRan :: bool
  fcControl :: "go_error option"
  fcDup :: "go_error + nat"

text \<open>A write names the descriptor its payload is about.\<close>

datatype fd_effect = FdDup nat | FdWrite nat string string | FdClose nat | FdCloseConn

text \<open>A \<open>Control\<close> that returns no error without having run its function leaves the variable \<open>fd\<close> at zero.\<close>

definition extractFD :: "fd_conn \<Rightarrow> (go_error + nat) \<times> fd_effect list" where
  "extractFD conn =
     (if \<not> fcSyscall conn then (Inl [Kern ErrConnNotSyscall], [])
      else case fcRaw conn of
        Some err \<Rightarrow> (Inl err, [])
      | None \<Rightarrow>
          (let (dupErr, fd, fx) = (if \<not> fcRan conn then (None, 0, [])
                                   else case fcDup conn of
                                     Inl err \<Rightarrow> (Some err, 0, [])
                                   | Inr duped \<Rightarrow> (None, duped, [FdDup duped]))
           in case fcControl conn of
                Some cerr \<Rightarrow> (Inl cerr, fx)
              | None \<Rightarrow> (case dupErr of Some err \<Rightarrow> (Inl err, fx) | None \<Rightarrow> (Inr fd, fx))))"

text \<open>The deferred close of the duplicate runs last.\<close>

definition attachHandoff ::
  "kernel_env \<Rightarrow> history \<Rightarrow> fd_conn \<Rightarrow> PortID \<Rightarrow> DeviceID \<Rightarrow> Speed \<Rightarrow> StatusTopology
     \<Rightarrow> (go_error + PortID) \<times> history \<times> fd_effect list" where
  "attachHandoff env hist conn port devID speed topo =
     (case validatePortInRange topo port of
        Some err \<Rightarrow> (Inl err, hist, [])
      | None \<Rightarrow>
          (case extractFD conn of
             (Inl err, fx) \<Rightarrow> (Inl err, hist, fx)
           | (Inr fd, fx) \<Rightarrow>
               (let payload = formatAttachPayload port fd devID speed;
                    target = path_Join [SysfsVHCIHCD, SysfsVHCIAttach];
                    fx = fx @ [FdWrite fd target payload]
                in case writeClassified env hist target payload of
                     (Some err, hist) \<Rightarrow> (Inl err, hist, fx @ [FdClose fd])
                   | (None, hist) \<Rightarrow> (Inr port, hist, fx @ [FdCloseConn] @ [FdClose fd]))))"

definition exportHandoff ::
  "kernel_env \<Rightarrow> history \<Rightarrow> fd_conn \<Rightarrow> string \<Rightarrow> go_error option \<times> history \<times> fd_effect list" where
  "exportHandoff env hist conn busID =
     (case Exporter_ModulesAvailable (keFS env hist) of
        Some err \<Rightarrow> (Some err, hist, [])
      | None \<Rightarrow>
          (case extractFD conn of
             (Inl err, fx) \<Rightarrow> (Some err, hist, fx)
           | (Inr fd, fx) \<Rightarrow>
               (let target = path_Join [SysfsUSBDevices, busID, SysfsUsbipSockfd];
                    fx = fx @ [FdWrite fd target (FormatUint fd)]
                in case writeClassified env hist target (FormatUint fd) of
                     (err, hist) \<Rightarrow> (err, hist, fx @ [FdClose fd]))))"

section \<open>The descriptor table\<close>

text \<open>What the effects do to the set of open descriptors; \<open>None\<close> when one is used that is not open or \<open>dup\<close> returns one that is.\<close>

fun fd_run :: "fd_effect list \<Rightarrow> nat set \<Rightarrow> nat set option" where
  "fd_run [] fds = Some fds"
| "fd_run (FdDup fd # fx) fds = (if fd \<in> fds then None else fd_run fx (insert fd fds))"
| "fd_run (FdWrite fd _ _ # fx) fds = (if fd \<in> fds then fd_run fx fds else None)"
| "fd_run (FdClose fd # fx) fds = (if fd \<in> fds then fd_run fx (fds - {fd}) else None)"
| "fd_run (FdCloseConn # fx) fds = fd_run fx fds"

text \<open>What the code relies on: \<open>Control\<close> runs its function unless it returns an error, and \<open>dup\<close> returns a descriptor that is not open.\<close>

definition control_law :: "fd_conn \<Rightarrow> bool" where
  "control_law conn \<longleftrightarrow> (fcRan conn \<longleftrightarrow> fcControl conn = None)"

definition dup_fresh :: "fd_conn \<Rightarrow> nat set \<Rightarrow> bool" where
  "dup_fresh conn fds \<longleftrightarrow> (\<forall>fd. fcDup conn = Inr fd \<longrightarrow> fd \<notin> fds)"

definition conn_closes :: "fd_effect list \<Rightarrow> nat" where
  "conn_closes fx = count_list fx FdCloseConn"

definition fd_writes :: "fd_effect list \<Rightarrow> (string \<times> string) list" where
  "fd_writes fx = List.map_filter (\<lambda>f. case f of FdWrite _ p d \<Rightarrow> Some (p, d) | _ \<Rightarrow> None) fx"

lemmas fd_counts = conn_closes_def fd_writes_def List.map_filter_simps

lemma extractFD_cases:
  assumes "control_law conn" "dup_fresh conn fds"
  obtains (refused) err where "extractFD conn = (Inl err, [])"
  | (duped) fd where "extractFD conn = (Inr fd, [FdDup fd])" "fd \<notin> fds"
proof (cases "fcSyscall conn \<and> fcRaw conn = None \<and> fcControl conn = None")
  case True
  thus thesis
    using assms refused duped by (cases "fcDup conn") (auto simp: extractFD_def control_law_def dup_fresh_def)
next
  case False
  thus thesis
    using assms(1) refused by (cases "fcSyscall conn"; cases "fcRaw conn"; cases "fcControl conn")
      (auto simp: extractFD_def control_law_def)
qed

text \<open>The duplicated descriptor as the other theories see it.\<close>

definition dup_of :: "fd_conn \<Rightarrow> go_error + nat" where
  "dup_of conn = fst (extractFD conn)"

lemma attachHandoff_refines:
  "attachAtPortWithTopology env hist (dup_of conn) port devID speed topo =
     (case attachHandoff env hist conn port devID speed topo of (res, hist, _) \<Rightarrow> (res, hist))"
  by (simp add: attachAtPortWithTopology_def attachHandoff_def dup_of_def Let_def split: option.split prod.split sum.split)

lemma exportHandoff_refines:
  "ExportOnConn env hist (dup_of conn) busID =
     (case exportHandoff env hist conn busID of (err, hist, _) \<Rightarrow> (err, hist))"
  by (simp add: ExportOnConn_def exportHandoff_def dup_of_def device_attr_def Let_def split: option.split prod.split sum.split)

lemma attach_effects:
  assumes "control_law conn" "dup_fresh conn fds" "attachHandoff env hist conn port devID speed topo = (res, hist', fx)"
  shows "fd_run fx fds = Some fds \<and> conn_closes fx = (case res of Inl _ \<Rightarrow> 0 | Inr _ \<Rightarrow> 1)
    \<and> length (fd_writes fx) \<le> 1 \<and> (fd_writes fx = [] \<longrightarrow> hist' = hist \<and> (\<exists>err. res = Inl err))"
  using assms(1,2)
proof (cases rule: extractFD_cases)
  case (refused err)
  thus ?thesis
    using assms(3) by (auto simp: attachHandoff_def fd_counts split: option.splits)
next
  case (duped fd)
  thus ?thesis
    using assms(3) by (auto simp: attachHandoff_def fd_counts Let_def split: option.splits prod.splits)
qed

lemma export_effects:
  assumes "control_law conn" "dup_fresh conn fds" "exportHandoff env hist conn busID = (err, hist', fx)"
  shows "fd_run fx fds = Some fds \<and> conn_closes fx = 0 \<and> length (fd_writes fx) \<le> 1 \<and> (fd_writes fx = [] \<longrightarrow> hist' = hist \<and> err \<noteq> None)"
proof (cases "Exporter_ModulesAvailable (keFS env hist)")
  case None
  show ?thesis
    using assms(1,2)
  proof (cases rule: extractFD_cases)
    case (refused e)
    thus ?thesis
      using None assms(3) by (auto simp: exportHandoff_def fd_counts)
  next
    case (duped fd)
    thus ?thesis
      using None assms(3) by (auto simp: exportHandoff_def fd_counts Let_def split: prod.splits)
  qed
next
  case (Some e)
  hence "(Some e, hist, []) = (err, hist', fx)"
    using assms(3) by (simp add: exportHandoff_def)
  thus ?thesis
    by (auto simp: fd_counts)
qed

text \<open>C18: Handing a connection to the kernel leaks no descriptor and closes none that is not its own.  With a
  \<open>Control\<close> and a \<open>dup\<close> as documented, on every path of an attach and of an export the table of open
  descriptors is the same afterwards, the duplicate is open while the kernel reads its number from the
  one write, and the connection itself is closed exactly once by an attach that succeeds and never by
  one that fails or by an export, whose caller keeps it.  A handoff that wrote nothing left the kernel alone
  and returned an error.  The results are those of \<open>attachAtPortWithTopology\<close> and \<open>ExportOnConn\<close>.\<close>

theorem handoff_owned:
  assumes "control_law conn" "dup_fresh conn fds"
  shows "(case attachHandoff env hist conn port devID speed topo of (res, hist', fx) \<Rightarrow>
      attachAtPortWithTopology env hist (dup_of conn) port devID speed topo = (res, hist')
    \<and> fd_run fx fds = Some fds \<and> conn_closes fx = (case res of Inl _ \<Rightarrow> 0 | Inr _ \<Rightarrow> 1)
    \<and> length (fd_writes fx) \<le> 1 \<and> (fd_writes fx = [] \<longrightarrow> hist' = hist \<and> (\<exists>err. res = Inl err)))
    \<and> (case exportHandoff env hist conn busID of (err, hist', fx) \<Rightarrow>
      ExportOnConn env hist (dup_of conn) busID = (err, hist')
    \<and> fd_run fx fds = Some fds \<and> conn_closes fx = 0
    \<and> length (fd_writes fx) \<le> 1 \<and> (fd_writes fx = [] \<longrightarrow> hist' = hist \<and> err \<noteq> None))"
  using attach_effects [OF assms] export_effects [OF assms]
  by (auto simp: attachHandoff_refines exportHandoff_refines)

definition handoff_conn :: fd_conn where
  "handoff_conn = \<lparr>fcSyscall = True, fcRaw = None, fcRan = True, fcControl = None, fcDup = Inr 9\<rparr>"

lemma sample_handoff:
  "attachHandoff sample_ports_env [] handoff_conn 1 65538 SpeedHigh (Topology_Status sample_topology) =
     (Inr 1, [(attach_path, formatAttachPayload 1 9 65538 SpeedHigh, None)],
      [FdDup 9, FdWrite 9 attach_path (formatAttachPayload 1 9 65538 SpeedHigh), FdCloseConn, FdClose 9])"
  by (simp add: attachHandoff_def extractFD_def handoff_conn_def sample_ports_env_def validatePortInRange_def Topology_Status_def
      sample_topology_def writeClassified_def sysfs_write_def attach_path_def word_le_nat_alt Let_def)

theorem handoff_owned_witness:
  "attachAtPortWithTopology sample_ports_env [] (dup_of handoff_conn) 1 65538 SpeedHigh (Topology_Status sample_topology)
     = (Inr 1, [(attach_path, formatAttachPayload 1 9 65538 SpeedHigh, None)])
   \<and> fd_run [FdDup 9, FdWrite 9 attach_path (formatAttachPayload 1 9 65538 SpeedHigh), FdCloseConn, FdClose 9] {0, 1, 2, 7}
       = Some {0, 1, 2, 7}"
proof -
  have "control_law handoff_conn" "dup_fresh handoff_conn {0, 1, 2, 7}"
    by (simp_all add: control_law_def dup_fresh_def handoff_conn_def)
  thus ?thesis
    using handoff_owned [of handoff_conn "{0, 1, 2, 7}" sample_ports_env "[]" 1 65538 SpeedHigh "Topology_Status sample_topology"]
    by (simp only: sample_handoff prod.case)
qed

end
