(* ===== verification/Transport.thy ===== *)
theory Transport
  imports Exporter_Serve Remote
begin

text \<open>
  \<open>internal/adapter/transport/transport.go\<close> and \<open>internal/netopts\<close>: dialling, listening and the tuning of
  TCP connections.  What the sockets answer is a parameter: \<open>sock\<close> gives the error of setting an option.  The functions return
  the options they set, in order, and the connections they closed.  The listener that follows a context is a
  small concurrent object; its goroutines interleave in \<open>listener_step\<close>.
\<close>

section \<open>internal/netopts\<close>

record TransportOptions =
  DialConnectTimeout :: int
  TCPKeepAliveIdle :: int
  TCPKeepAliveInterval :: int
  TCPKeepAliveProbes :: int
  SendBufferBytes :: int
  ReceiveBufferBytes :: int
  ReadDeadline :: int
  WriteDeadline :: int

definition zero_options :: TransportOptions where
  "zero_options = \<lparr>DialConnectTimeout = 0, TCPKeepAliveIdle = 0, TCPKeepAliveInterval = 0, TCPKeepAliveProbes = 0,
     SendBufferBytes = 0, ReceiveBufferBytes = 0, ReadDeadline = 0, WriteDeadline = 0\<rparr>"

definition invalidField :: "string \<Rightarrow> go_error option" where
  "invalidField name = Some [App ErrTransportOptionsInvalid]"

definition Validate :: "TransportOptions \<Rightarrow> go_error option" where
  "Validate opts =
     (if DialConnectTimeout opts < 0 then invalidField ''DialConnectTimeout''
      else if TCPKeepAliveIdle opts < 0 then invalidField ''TCPKeepAliveIdle''
      else if TCPKeepAliveInterval opts < 0 then invalidField ''TCPKeepAliveInterval''
      else if TCPKeepAliveProbes opts < 0 then invalidField ''TCPKeepAliveProbes''
      else if SendBufferBytes opts < 0 then invalidField ''SendBufferBytes''
      else if ReceiveBufferBytes opts < 0 then invalidField ''ReceiveBufferBytes''
      else if ReadDeadline opts < 0 then invalidField ''ReadDeadline''
      else if WriteDeadline opts < 0 then invalidField ''WriteDeadline''
      else None)"

section \<open>Socket options\<close>

datatype sockopt =
    SoNoDelay | SoSndBuf int | SoRcvBuf int | SoKeepAlive int int int | SoReadDeadline int | SoWriteDeadline int

definition ENOTCONN :: nat where "ENOTCONN = 107"
definition EBADF :: nat where "EBADF = 9"

definition isSockoptFatal :: "go_error \<Rightarrow> bool" where
  "isSockoptFatal err \<longleftrightarrow> errors_Is err (Io NetErrClosed) \<or> errors_Is err (Errno ENOTCONN) \<or> errors_Is err (Errno EBADF)"

text \<open>The error, if fatal; a failure that is not fatal is only logged.\<close>

definition applySockopt :: "(sockopt \<Rightarrow> go_error option) \<Rightarrow> sockopt \<Rightarrow> go_error option" where
  "applySockopt sock opt =
     (case sock opt of None \<Rightarrow> None | Some err \<Rightarrow> if isSockoptFatal err then Some err else None)"

definition tuneKeepAlive :: "(sockopt \<Rightarrow> go_error option) \<Rightarrow> TransportOptions \<Rightarrow> go_error option \<times> sockopt list" where
  "tuneKeepAlive sock opts =
     (if TCPKeepAliveIdle opts = 0 \<and> TCPKeepAliveInterval opts = 0 \<and> TCPKeepAliveProbes opts = 0 then (None, [])
      else let cfg = SoKeepAlive (TCPKeepAliveIdle opts) (TCPKeepAliveInterval opts) (TCPKeepAliveProbes opts)
        in (applySockopt sock cfg, [cfg]))"

definition tuneDeadlines :: "(sockopt \<Rightarrow> go_error option) \<Rightarrow> int \<Rightarrow> TransportOptions \<Rightarrow> go_error option \<times> sockopt list" where
  "tuneDeadlines sock now opts =
     (let rd = SoReadDeadline (now + ReadDeadline opts);
          wd = SoWriteDeadline (now + WriteDeadline opts);
          write = (\<lambda>done. if 0 < WriteDeadline opts then (applySockopt sock wd, done @ [wd]) else (None, done))
      in if 0 < ReadDeadline opts
         then (case applySockopt sock rd of Some err \<Rightarrow> (Some err, [rd]) | None \<Rightarrow> write [rd])
         else write [])"

definition tuneTCPConn :: "(sockopt \<Rightarrow> go_error option) \<Rightarrow> int \<Rightarrow> TransportOptions \<Rightarrow> go_error option \<times> sockopt list" where
  "tuneTCPConn sock now opts =
     (let snd_opt = (if 0 < SendBufferBytes opts then [SoSndBuf (SendBufferBytes opts)] else []);
          rcv_opt = (if 0 < ReceiveBufferBytes opts then [SoRcvBuf (ReceiveBufferBytes opts)] else [])
      in case (if 0 < SendBufferBytes opts then applySockopt sock (SoSndBuf (SendBufferBytes opts)) else None) of
           Some err \<Rightarrow> (Some err, snd_opt)
         | None \<Rightarrow>
             (case (if 0 < ReceiveBufferBytes opts then applySockopt sock (SoRcvBuf (ReceiveBufferBytes opts)) else None) of
                Some err \<Rightarrow> (Some err, snd_opt @ rcv_opt)
              | None \<Rightarrow>
                  (case tuneKeepAlive sock opts of
                     (Some err, ka) \<Rightarrow> (Some err, snd_opt @ rcv_opt @ ka)
                   | (None, ka) \<Rightarrow>
                       (case tuneDeadlines sock now opts of
                          (err, dl) \<Rightarrow> (err, snd_opt @ rcv_opt @ ka @ dl)))))"

section \<open>Dial and Accept\<close>

text \<open>A connection with whether it is a TCP connection.  The dialer gets the address and the timeout.\<close>

record dial_result =
  drConn :: "go_error + nat"
  drClosed :: "nat list"
  drSet :: "sockopt list"

definition Dial :: "(string \<Rightarrow> int \<Rightarrow> go_error + nat \<times> bool) \<Rightarrow> (sockopt \<Rightarrow> go_error option) \<Rightarrow> int \<Rightarrow> RemoteEndpoint \<Rightarrow> TransportOptions \<Rightarrow>
    dial_result" where
  "Dial dialer sock now r opts =
     (let addr = RemoteEndpoint_String (NormalizePort r);
          timeout = (if 0 < DialConnectTimeout opts then DialConnectTimeout opts else 0)
      in case dialer addr timeout of
           Inl err \<Rightarrow> \<lparr>drConn = Inl err, drClosed = [], drSet = []\<rparr>
         | Inr (conn, False) \<Rightarrow> \<lparr>drConn = Inr conn, drClosed = [], drSet = []\<rparr>
         | Inr (conn, True) \<Rightarrow>
             (case applySockopt sock SoNoDelay of
                Some nerr \<Rightarrow> \<lparr>drConn = Inl nerr, drClosed = [conn], drSet = [SoNoDelay]\<rparr>
              | None \<Rightarrow>
                  (case tuneTCPConn sock now opts of
                     (Some tuneErr, done) \<Rightarrow> \<lparr>drConn = Inl tuneErr, drClosed = [conn], drSet = SoNoDelay # done\<rparr>
                   | (None, done) \<Rightarrow> \<lparr>drConn = Inr conn, drClosed = [], drSet = SoNoDelay # done\<rparr>)))"

text \<open>\<open>tuningListener.Accept\<close>, as a result for the accept loop; \<open>tcp\<close> says whether the connection is a TCP connection.  The loop sees
  the cancellation of its own context.\<close>

definition tuning_Accept :: "(sockopt \<Rightarrow> go_error option) \<Rightarrow> int \<Rightarrow> TransportOptions \<Rightarrow> bool \<Rightarrow> bool \<Rightarrow> accept_result \<Rightarrow>
    accept_result \<times> nat list \<times> sockopt list" where
  "tuning_Accept sock now opts tcp ctxDone res =
     (case res of
        AcceptErr cd err \<Rightarrow> (AcceptErr cd err, [], [])
      | Accepted conn ip \<Rightarrow>
          if \<not> tcp then (Accepted conn ip, [], [])
          else (case tuneTCPConn sock now opts of
                  (Some tuneErr, done) \<Rightarrow> (AcceptErr ctxDone tuneErr, [conn], done)
                | (None, done) \<Rightarrow> (Accepted conn ip, [], done)))"

text \<open>\<open>Listen\<close>: the listener and whether its connections are tuned.\<close>

definition Listen :: "go_error option \<Rightarrow> go_error + nat \<Rightarrow> TransportOptions \<Rightarrow> go_error + nat \<times> bool" where
  "Listen ctxErr bound opts =
     (case ctxErr of
        Some err \<Rightarrow> Inl err
      | None \<Rightarrow> (case bound of Inl err \<Rightarrow> Inl err | Inr lis \<Rightarrow> Inr (lis, opts \<noteq> zero_options)))"

section \<open>ctxListener\<close>

text \<open>\<open>sync.Once\<close>: callers wait while the function runs.\<close>

datatype once_state = OnceIdle | OnceRunning | OnceDone

datatype watch_pc = WatchSelect | WatchOnce | WatchClosing | WatchExit

datatype close_pc = CloseNew | CloseStopped | CloseClosing | CloseWait | CloseReturned "go_error option"

record ctxListener =
  clCtxDone :: bool
  clStop :: bool
  clOnce :: once_state
  clCloses :: nat
  clErr :: "go_error option"
  clWatch :: watch_pc
  clClose :: "nat \<Rightarrow> close_pc"

definition newCtxListener :: ctxListener where
  "newCtxListener = \<lparr>clCtxDone = False, clStop = False, clOnce = OnceIdle, clCloses = 0, clErr = None, clWatch = WatchSelect,
     clClose = (\<lambda>_. CloseNew)\<rparr>"

text \<open>Running the close function under the once: the call on the inner listener, then the result is stored.\<close>

definition once_begin :: "ctxListener \<Rightarrow> ctxListener" where
  "once_begin cl = cl\<lparr>clOnce := OnceRunning, clCloses := Suc (clCloses cl)\<rparr>"

definition once_end :: "go_error option \<Rightarrow> ctxListener \<Rightarrow> ctxListener" where
  "once_end err cl = cl\<lparr>clOnce := OnceDone, clErr := err\<rparr>"

abbreviation close_at :: "ctxListener \<Rightarrow> nat \<Rightarrow> close_pc \<Rightarrow> ctxListener" where
  "close_at cl c pc \<equiv> cl\<lparr>clClose := (clClose cl)(c := pc)\<rparr>"

inductive listener_step :: "ctxListener \<Rightarrow> ctxListener \<Rightarrow> bool" where
  cl_ctx: "listener_step cl (cl\<lparr>clCtxDone := True\<rparr>)"
| cl_watch_ctx: "clWatch cl = WatchSelect \<Longrightarrow> clCtxDone cl \<Longrightarrow> listener_step cl (cl\<lparr>clWatch := WatchOnce\<rparr>)"
| cl_watch_stop: "clWatch cl = WatchSelect \<Longrightarrow> clStop cl \<Longrightarrow> listener_step cl (cl\<lparr>clWatch := WatchExit\<rparr>)"
| cl_watch_begin: "clWatch cl = WatchOnce \<Longrightarrow> clOnce cl = OnceIdle \<Longrightarrow> listener_step cl ((once_begin cl)\<lparr>clWatch := WatchClosing\<rparr>)"
| cl_watch_end: "clWatch cl = WatchClosing \<Longrightarrow> listener_step cl ((once_end err cl)\<lparr>clWatch := WatchExit\<rparr>)"
| cl_watch_skip: "clWatch cl = WatchOnce \<Longrightarrow> clOnce cl = OnceDone \<Longrightarrow> listener_step cl (cl\<lparr>clWatch := WatchExit\<rparr>)"
| cl_close: "clClose cl c = CloseNew \<Longrightarrow> listener_step cl ((close_at cl c CloseStopped)\<lparr>clStop := True\<rparr>)"
| cl_close_begin: "clClose cl c = CloseStopped \<Longrightarrow> clOnce cl = OnceIdle \<Longrightarrow>
    listener_step cl (close_at (once_begin cl) c CloseClosing)"
| cl_close_end: "clClose cl c = CloseClosing \<Longrightarrow> listener_step cl (close_at (once_end err cl) c CloseWait)"
| cl_close_skip: "clClose cl c = CloseStopped \<Longrightarrow> clOnce cl = OnceDone \<Longrightarrow> listener_step cl (close_at cl c CloseWait)"
| cl_close_return: "clClose cl c = CloseWait \<Longrightarrow> clWatch cl = WatchExit \<Longrightarrow>
    listener_step cl (close_at cl c (CloseReturned (clErr cl)))"

inductive listener_reach :: "ctxListener \<Rightarrow> bool" where
  cl_new: "listener_reach newCtxListener"
| cl_next: "listener_reach cl \<Longrightarrow> listener_step cl cl' \<Longrightarrow> listener_reach cl'"

inductive_cases listener_stepE: "listener_step cl cl'"

section \<open>Invariant of ctxListener\<close>

text \<open>Who runs the close function, if anyone.\<close>

definition runners :: "watch_pc \<Rightarrow> (nat \<Rightarrow> close_pc) \<Rightarrow> (nat option) set" where
  "runners wpc f = (if wpc = WatchClosing then {None} else {}) \<union> Some ` {c. f c = CloseClosing}"

definition listener_inv :: "ctxListener \<Rightarrow> bool" where
  "listener_inv cl \<longleftrightarrow>
     clCloses cl = (if clOnce cl = OnceIdle then 0 else 1)
   \<and> (if clOnce cl = OnceRunning then \<exists>r. runners (clWatch cl) (clClose cl) = {r} else runners (clWatch cl) (clClose cl) = {})
   \<and> (\<forall>c. clClose cl c \<noteq> CloseNew \<longrightarrow> clStop cl)
   \<and> (\<forall>c. clClose cl c = CloseWait \<longrightarrow> clOnce cl = OnceDone)
   \<and> (\<forall>c err. clClose cl c = CloseReturned err \<longrightarrow> clOnce cl = OnceDone \<and> err = clErr cl \<and> clWatch cl = WatchExit)"

lemma runners_close [simp]:
  "runners wpc (f(c := pc)) = (if pc = CloseClosing then insert (Some c) (runners wpc f) else runners wpc f - {Some c})"
  by (auto simp: runners_def)

lemma runners_watch [simp]:
  "runners WatchClosing f = insert None (runners WatchExit f)" "runners WatchOnce f = runners WatchExit f" "runners WatchSelect f = runners WatchExit f"
  by (auto simp: runners_def)

lemma runners_mem: "None \<in> runners wpc f \<longleftrightarrow> wpc = WatchClosing" "Some c \<in> runners wpc f \<longleftrightarrow> f c = CloseClosing"
  by (auto simp: runners_def)

lemma listener_inv_step: "listener_step cl cl' \<Longrightarrow> listener_inv cl \<Longrightarrow> listener_inv cl'"
proof (induction rule: listener_step.induct)
  case (cl_watch_end cl err)
  hence "clOnce cl = OnceRunning" "runners (clWatch cl) (clClose cl) = {None}"
    using runners_mem(1) [of "clWatch cl" "clClose cl"] by (auto simp: listener_inv_def split: if_splits)
  moreover from this have "runners WatchExit (clClose cl) = {}"
    by (auto simp: runners_def)
  ultimately show ?case
    using cl_watch_end by (auto simp: listener_inv_def once_end_def)
next
  case (cl_close_end cl c err)
  hence "clOnce cl = OnceRunning" "runners (clWatch cl) (clClose cl) = {Some c}"
    using runners_mem(2) [of c "clWatch cl" "clClose cl"] by (auto simp: listener_inv_def split: if_splits)
  thus ?case
    using cl_close_end by (auto simp: listener_inv_def once_end_def)
next
  case (cl_close cl c)
  thus ?case
    using runners_mem(2) [of c "clWatch cl" "clClose cl"] by (auto simp: listener_inv_def)
qed (auto simp: listener_inv_def once_begin_def)

lemma listener_invariant: "listener_reach cl \<Longrightarrow> listener_inv cl"
proof (induction rule: listener_reach.induct)
  case cl_new
  show ?case
    by (simp add: listener_inv_def newCtxListener_def runners_def)
qed (rule listener_inv_step)

section \<open>Properties\<close>

lemma listener_moves:
  "listener_step cl cl' \<Longrightarrow> clWatch cl' \<noteq> clWatch cl \<or> clClose cl' d \<noteq> clClose cl d \<Longrightarrow>
     \<exists>cl'. listener_step cl cl' \<and> (clWatch cl' \<noteq> clWatch cl \<or> clClose cl' \<noteq> clClose cl)"
  by (auto intro!: exI [of _ cl'])

lemma close_can_move:
  assumes "listener_inv cl" and c: "clClose cl c \<in> {CloseStopped, CloseClosing, CloseWait}"
  shows "\<exists>cl'. listener_step cl cl' \<and> (clWatch cl' \<noteq> clWatch cl \<or> clClose cl' \<noteq> clClose cl)"
proof (cases "clOnce cl")
  case OnceRunning
  then obtain r where r: "runners (clWatch cl) (clClose cl) = {r}"
    using assms(1) [unfolded listener_inv_def] by auto
  show ?thesis
  proof (cases r)
    case None
    thus ?thesis
      using r runners_mem(1) [of "clWatch cl" "clClose cl"] by (intro listener_moves [OF cl_watch_end [of cl None], of 0]) auto
  next
    case (Some d)
    thus ?thesis
      using r runners_mem(2) [of d "clWatch cl" "clClose cl"] by (intro listener_moves [OF cl_close_end [of cl d None], of d]) auto
  qed
next
  case OnceIdle
  hence "clClose cl c = CloseStopped"
    using c assms(1) [unfolded listener_inv_def] runners_mem(2) [of c "clWatch cl" "clClose cl"] by auto
  thus ?thesis
    using OnceIdle by (intro listener_moves [OF cl_close_begin [of cl c], of c]) auto
next
  case OnceDone
  have stop: "clStop cl" and idle: "clWatch cl \<noteq> WatchClosing" "clClose cl c \<noteq> CloseClosing"
    using c assms(1) [unfolded listener_inv_def] OnceDone runners_mem(1) [of "clWatch cl" "clClose cl"] runners_mem(2) [of c "clWatch cl" "clClose cl"] by auto
  consider "clClose cl c = CloseStopped" | "clClose cl c = CloseWait" "clWatch cl = WatchExit"
    | "clWatch cl = WatchSelect" | "clWatch cl = WatchOnce"
    using c idle by (cases "clWatch cl") auto
  thus ?thesis
  proof cases
    case 1
    thus ?thesis
      using OnceDone by (intro listener_moves [OF cl_close_skip [of cl c], of c]) auto
  next
    case 2
    thus ?thesis
      by (intro listener_moves [OF cl_close_return [of cl c], of c]) auto
  next
    case 3
    thus ?thesis
      using stop by (intro listener_moves [OF cl_watch_stop [of cl], of c]) auto
  next
    case 4
    thus ?thesis
      using OnceDone by (intro listener_moves [OF cl_watch_skip [of cl], of c]) auto
  qed
qed

text \<open>A listener bound to a context is closed once.  Whatever mix of cancellation and concurrent \<open>Close\<close> calls happens, the inner
  listener's \<open>Close\<close> is called at most once; a \<open>Close\<close> that returned did so after that call had ended and after the watcher
  goroutine had exited, and every one returns the same error; and a \<open>Close\<close> in progress is never stuck, since a step of a goroutine other than
  the caller's context is possible.\<close>

theorem ctx_listener_closes_once:
  assumes "listener_reach cl"
  shows "clCloses cl \<le> 1
    \<and> (\<forall>c err. clClose cl c = CloseReturned err \<longrightarrow> clCloses cl = 1 \<and> clWatch cl = WatchExit \<and> err = clErr cl)
    \<and> (\<forall>c. clClose cl c \<in> {CloseStopped, CloseClosing, CloseWait} \<longrightarrow>
         (\<exists>cl'. listener_step cl cl' \<and> (clWatch cl' \<noteq> clWatch cl \<or> clClose cl' \<noteq> clClose cl)))"
  using listener_invariant [OF assms] close_can_move [of cl] by (auto simp: listener_inv_def)

definition closed_listener :: ctxListener where
  "closed_listener = close_at (once_end None (close_at (once_begin ((close_at newCtxListener 4 CloseStopped)\<lparr>clStop := True\<rparr>)) 4 CloseClosing)) 4 CloseWait"

lemma closed_listener_reach: "listener_reach closed_listener"
proof -
  have "listener_reach ((close_at newCtxListener 4 CloseStopped)\<lparr>clStop := True\<rparr>)"
    by (rule cl_next [OF cl_new cl_close]) (simp add: newCtxListener_def)
  hence "listener_reach (close_at (once_begin ((close_at newCtxListener 4 CloseStopped)\<lparr>clStop := True\<rparr>)) 4 CloseClosing)"
    by (rule cl_next [OF _ cl_close_begin]) (simp_all add: newCtxListener_def)
  thus ?thesis
    unfolding closed_listener_def by (rule cl_next [OF _ cl_close_end]) simp
qed

theorem ctx_listener_closes_once_witness:
  "clCloses closed_listener = 1 \<and> clCloses closed_listener \<le> 1 \<and> (\<exists>cl'. listener_step closed_listener cl')"
proof -
  have "clClose closed_listener 4 = CloseWait" "clCloses closed_listener = 1"
    by (simp_all add: closed_listener_def once_begin_def once_end_def newCtxListener_def)
  thus ?thesis
    using ctx_listener_closes_once [OF closed_listener_reach] by blast
qed

text \<open>The options the code means to set, in order, for given settings: what tuning asks for when no answer is fatal.\<close>

definition wanted_options :: "int \<Rightarrow> TransportOptions \<Rightarrow> sockopt list" where
  "wanted_options now opts =
     (if 0 < SendBufferBytes opts then [SoSndBuf (SendBufferBytes opts)] else [])
   @ (if 0 < ReceiveBufferBytes opts then [SoRcvBuf (ReceiveBufferBytes opts)] else [])
   @ (if TCPKeepAliveIdle opts = 0 \<and> TCPKeepAliveInterval opts = 0 \<and> TCPKeepAliveProbes opts = 0 then []
      else [SoKeepAlive (TCPKeepAliveIdle opts) (TCPKeepAliveInterval opts) (TCPKeepAliveProbes opts)])
   @ (if 0 < ReadDeadline opts then [SoReadDeadline (now + ReadDeadline opts)] else [])
   @ (if 0 < WriteDeadline opts then [SoWriteDeadline (now + WriteDeadline opts)] else [])"

text \<open>The specification of tuning: the options are set one after another up to and including the first that answers with a
  fatal error.\<close>

fun set_options :: "(sockopt \<Rightarrow> go_error option) \<Rightarrow> sockopt list \<Rightarrow> go_error option \<times> sockopt list" where
  "set_options sock [] = (None, [])"
| "set_options sock (opt # rest) =
     (case applySockopt sock opt of
        Some err \<Rightarrow> (Some err, [opt])
      | None \<Rightarrow> (case set_options sock rest of (err, done) \<Rightarrow> (err, opt # done)))"

lemma set_options_append:
  "set_options sock (xs @ ys) =
     (case set_options sock xs of
        (Some err, done) \<Rightarrow> (Some err, done)
      | (None, done) \<Rightarrow> (case set_options sock ys of (err, rest) \<Rightarrow> (err, done @ rest)))"
  by (induction xs) (auto split: option.split prod.split)

lemma set_options_ok: "set_options sock xs = (None, done) \<Longrightarrow> done = xs"
  by (induction xs arbitrary: "done") (auto split: option.splits prod.splits)

lemma set_options_fatal:
  "set_options sock xs = (Some err, done) \<Longrightarrow>
     \<exists>pre opt post. xs = pre @ opt # post \<and> done = pre @ [opt] \<and> sock opt = Some err \<and> isSockoptFatal err
       \<and> (\<forall>o' \<in> set pre. applySockopt sock o' = None)"
proof (induction xs arbitrary: "done")
  case (Cons opt xs)
  show ?case
  proof (cases "applySockopt sock opt")
    case None
    with Cons.prems obtain d where d: "set_options sock xs = (Some err, d)" "done = opt # d"
      by (auto split: prod.splits)
    from Cons.IH [OF d(1)] obtain pre o' post where "xs = pre @ o' # post" "d = pre @ [o']" "sock o' = Some err" "isSockoptFatal err"
        "\<forall>o' \<in> set pre. applySockopt sock o' = None"
      by blast
    thus ?thesis
      using d None by (intro exI [of _ "opt # pre"] exI [of _ o'] exI [of _ post]) auto
  next
    case (Some e)
    hence "sock opt = Some e" "isSockoptFatal e"
      by (auto simp: applySockopt_def split: option.splits if_splits)
    thus ?thesis
      using Cons.prems Some by (intro exI [of _ "[]"]) auto
  qed
qed simp

lemma tuneTCPConn_refines: "tuneTCPConn sock now opts = set_options sock (wanted_options now opts)"
  unfolding wanted_options_def set_options_append tuneTCPConn_def tuneKeepAlive_def tuneDeadlines_def Let_def
  by (simp split: option.split prod.split)

text \<open>A dialled connection is either handed to the caller or closed.  It is dialled at the printed address of the endpoint with
  the default port filled in, under the configured timeout if there is one.  A TCP connection that is
  returned has had TCP_NODELAY and exactly the configured options set, in order, none with a fatal answer; when an option
  is answered by an error that says the connection is dead, that error is returned, nothing more is set and the connection is
  closed.\<close>

theorem dial_owned:
  "case dialer (RemoteEndpoint_String (NormalizePort r)) (max 0 (DialConnectTimeout opts)) of
     Inl err \<Rightarrow> Dial dialer sock now r opts = \<lparr>drConn = Inl err, drClosed = [], drSet = []\<rparr>
   | Inr (conn, tcp) \<Rightarrow>
       (case drConn (Dial dialer sock now r opts) of
          Inr c \<Rightarrow> c = conn \<and> drClosed (Dial dialer sock now r opts) = []
            \<and> drSet (Dial dialer sock now r opts) = (if tcp then SoNoDelay # wanted_options now opts else [])
        | Inl err \<Rightarrow> drClosed (Dial dialer sock now r opts) = [conn] \<and> isSockoptFatal err
            \<and> (\<exists>pre opt post. SoNoDelay # wanted_options now opts = pre @ opt # post \<and> sock opt = Some err
                 \<and> drSet (Dial dialer sock now r opts) = pre @ [opt]))"
proof -
  have t: "(if 0 < DialConnectTimeout opts then DialConnectTimeout opts else 0) = max 0 (DialConnectTimeout opts)"
    by simp
  show ?thesis
  proof (cases "dialer (RemoteEndpoint_String (NormalizePort r)) (max 0 (DialConnectTimeout opts))")
    case (Inl err)
    thus ?thesis
      by (simp add: Dial_def Let_def t)
  next
    case (Inr ct)
    obtain conn tcp where ct: "ct = (conn, tcp)"
      by (cases ct)
    have "Dial dialer sock now r opts =
        (if tcp then (case set_options sock (SoNoDelay # wanted_options now opts) of
             (Some err, done) \<Rightarrow> \<lparr>drConn = Inl err, drClosed = [conn], drSet = done\<rparr>
           | (None, done) \<Rightarrow> \<lparr>drConn = Inr conn, drClosed = [], drSet = done\<rparr>)
         else \<lparr>drConn = Inr conn, drClosed = [], drSet = []\<rparr>)"
      using Inr ct by (simp add: Dial_def Let_def t tuneTCPConn_refines split: option.split prod.split)
    moreover obtain res "done" where so: "set_options sock (SoNoDelay # wanted_options now opts) = (res, done)"
      by fastforce
    ultimately show ?thesis
      using Inr ct so set_options_ok [of sock "SoNoDelay # wanted_options now opts" "done"]
        set_options_fatal [of sock "SoNoDelay # wanted_options now opts" _ "done"]
      by (cases res) (auto simp del: set_options.simps)
  qed
qed

text \<open>One dead connection ends the server.  When the listener tunes accepted connections and setting an option of one
  connection answers that this connection is dead, the accept loop takes that for an error of the listener and returns,
  although its context is not cancelled: no later connection is accepted.  If the answer is \<open>net.ErrClosed\<close>, \<open>Serve\<close> even
  reports success.\<close>

theorem tuned_accept_ends_loop:
  assumes "tuneTCPConn sock now opts = (Some err, done)"
  shows "acceptLoop contains acl bucketAllow bkt (fst (tuning_Accept sock now opts True False (Accepted conn ip)) # later) =
    (if errors_Is err (Io NetErrClosed) then None else Some err, [], [], bkt)"
  using assms by (simp add: tuning_Accept_def acceptShouldStop_def)

definition sample_tuning :: TransportOptions where
  "sample_tuning = zero_options\<lparr>TCPKeepAliveIdle := 30000000000\<rparr>"

theorem tuned_accept_ends_loop_witness:
  "acceptLoop (\<lambda>_ _. True) ([] :: string list) (\<lambda>b. (True, b)) (None :: nat option)
     (fst (tuning_Accept (\<lambda>_. Some [Errno ENOTCONN]) 0 sample_tuning True False (Accepted 7 (Some ''192.0.2.1''))) #
      [Accepted 8 (Some ''192.0.2.2'')]) = (Some [Errno ENOTCONN], [], [], None)"
proof -
  have "tuneTCPConn (\<lambda>_. Some [Errno ENOTCONN]) 0 sample_tuning = (Some [Errno ENOTCONN], [SoKeepAlive 30000000000 0 0])"
    by (simp add: tuneTCPConn_refines wanted_options_def sample_tuning_def zero_options_def applySockopt_def isSockoptFatal_def)
  from tuned_accept_ends_loop [OF this] show ?thesis
    by simp
qed

text \<open>Validation accepts exactly the options without a negative field, and the error carries the sentinel.\<close>

theorem validate_options:
  "Validate opts = None \<longleftrightarrow>
     0 \<le> DialConnectTimeout opts \<and> 0 \<le> TCPKeepAliveIdle opts \<and> 0 \<le> TCPKeepAliveInterval opts \<and> 0 \<le> TCPKeepAliveProbes opts
   \<and> 0 \<le> SendBufferBytes opts \<and> 0 \<le> ReceiveBufferBytes opts \<and> 0 \<le> ReadDeadline opts \<and> 0 \<le> WriteDeadline opts"
  by (auto simp: Validate_def invalidField_def)

end
