(* ===== verification/Facade.thy ===== *)
theory Facade
  imports Exporter_Registry Transport Reconnect
begin

text \<open>
  \<open>pkg/usbip\<close>: the public facade.  It collects functional options into configurations, turns them into the options of
  \<open>internal/app\<close>, forwards every call and replaces the internal lifecycle errors by public ones.  Options are built by the \<open>With...\<close> functions
  only (their argument types are unexported), so they are datatypes here and applying one is an equation per function; \<open>None\<close> in a list of options is
  a nil option.  Loggers, callbacks, backoff factories, mutexes and custom strategies are objects known by number.
\<close>

section \<open>Errors\<close>

text \<open>\<open>translateInternalErr\<close> of an error that is not nil.  The three validation errors keep their text only, so their chain is
  the public sentinel.\<close>

definition translateInternalErr :: "go_error \<Rightarrow> go_error" where
  "translateInternalErr err =
     (if errors_Is err (App ErrImporterClosed) then [Pub PubImporterClosed]
      else if errors_Is err (App ErrEventStreamClosed) then [Pub PubEventStreamClosed]
      else if errors_Is err (App ErrAlreadyShutdown) then [Dom ErrDomainAlreadyShutdown]
      else if errors_Is err (App ErrServeAlreadyRunning) then [Pub PubServeAlreadyRunning]
      else if errors_Is err (App ErrAttachOptionsInvalid) then [Pub PubAttachOptionsInvalid]
      else if errors_Is err (App ErrACLInvalid) then [Pub PubACLInvalid]
      else if errors_Is err (App ErrAcceptRateLimitInvalid) then [Pub PubAcceptRateLimitInvalid]
      else err)"

definition translated :: "app_error list" where
  "translated =
     [ErrImporterClosed, ErrEventStreamClosed, ErrAlreadyShutdown, ErrServeAlreadyRunning, ErrAttachOptionsInvalid, ErrACLInvalid,
      ErrAcceptRateLimitInvalid]"

section \<open>Backoff strategies\<close>

text \<open>The dynamic type of a \<open>BackoffStrategy\<close> value; a pointer may be nil inside a value that is not.\<close>

datatype BackoffStrategy =
    FixedBackoff int | FixedBackoffPtr "int option" | ExponentialBackoffPtr "nat option" | CustomBackoff nat

datatype internal_strategy = AppFixedBackoff int | AppExponentialBackoff nat | internalBackoffAdapter nat nat

definition backoffToInternal :: "BackoffStrategy option \<Rightarrow> nat \<Rightarrow> internal_strategy option" where
  "backoffToInternal b mu =
     (case b of
        None \<Rightarrow> None
      | Some (FixedBackoff d) \<Rightarrow> Some (AppFixedBackoff d)
      | Some (FixedBackoffPtr None) \<Rightarrow> None
      | Some (FixedBackoffPtr (Some d)) \<Rightarrow> Some (AppFixedBackoff d)
      | Some (ExponentialBackoffPtr None) \<Rightarrow> None
      | Some (ExponentialBackoffPtr (Some inner)) \<Rightarrow> Some (AppExponentialBackoff inner)
      | Some (CustomBackoff pub) \<Rightarrow> Some (internalBackoffAdapter pub mu))"

section \<open>Importer options\<close>

record importerConfig =
  ficLogger :: "nat option"
  ficBackoff :: "BackoffStrategy option"
  ficBackoffFactory :: "nat option"
  ficBackoffMu :: nat
  ficStatusPollInterval :: int
  ficTransportOptions :: TransportOptions

definition newImporterConfig :: "nat \<Rightarrow> importerConfig" where
  "newImporterConfig mu =
     \<lparr>ficLogger = None, ficBackoff = None, ficBackoffFactory = None, ficBackoffMu = mu, ficStatusPollInterval = 0,
      ficTransportOptions = zero_options\<rparr>"

datatype ImporterOption =
    WithImporterLogger "nat option"
  | WithImporterBackoff "BackoffStrategy option"
  | WithImporterBackoffFactory "nat option"
  | WithImporterStatusPollInterval int
  | WithImporterTransportOptions TransportOptions

fun apply_importer_option :: "ImporterOption \<Rightarrow> importerConfig \<Rightarrow> importerConfig" where
  "apply_importer_option (WithImporterLogger l) c = c\<lparr>ficLogger := l\<rparr>"
| "apply_importer_option (WithImporterBackoff b) c = c\<lparr>ficBackoff := b, ficBackoffFactory := None\<rparr>"
| "apply_importer_option (WithImporterBackoffFactory factory) c = c\<lparr>ficBackoff := None, ficBackoffFactory := factory\<rparr>"
| "apply_importer_option (WithImporterStatusPollInterval d) c = c\<lparr>ficStatusPollInterval := d\<rparr>"
| "apply_importer_option (WithImporterTransportOptions opts) c = c\<lparr>ficTransportOptions := opts\<rparr>"

definition apply_if :: "('o \<Rightarrow> 'c \<Rightarrow> 'c) \<Rightarrow> 'o option \<Rightarrow> 'c \<Rightarrow> 'c" where
  "apply_if f opt c = (case opt of None \<Rightarrow> c | Some opt \<Rightarrow> f opt c)"

definition resolveImporterConfig :: "nat \<Rightarrow> ImporterOption option list \<Rightarrow> go_error + importerConfig" where
  "resolveImporterConfig mu opts =
     (let cfg = fold (apply_if apply_importer_option) opts (newImporterConfig mu)
      in case Validate (ficTransportOptions cfg) of
           Some _ \<Rightarrow> Inl [Pub PubTransportOptionsInvalid]
         | None \<Rightarrow> Inr cfg)"

text \<open>The public \<open>AttachOptions\<close>, and the internal ones with the objects they carry.\<close>

record usbip_AttachOptions =
  uaAutoReconnect :: bool
  uaBackoff :: "BackoffStrategy option"
  uaMaxAttempts :: int
  uaOnReconnect :: "nat option"
  uaStatusPollInterval :: int
  uaShutdownTimeout :: int

record internal_options =
  aiOptions :: AttachOptions
  aiBackoff :: "internal_strategy option"
  aiFactory :: "nat option"
  aiOnReconnect :: "nat option"

definition mergeAttachOptions :: "importerConfig \<Rightarrow> usbip_AttachOptions \<Rightarrow> usbip_AttachOptions" where
  "mergeAttachOptions cfg opts =
     (if uaStatusPollInterval opts = 0 then opts\<lparr>uaStatusPollInterval := ficStatusPollInterval cfg\<rparr> else opts)"

definition attachOptionsToInternal :: "importerConfig \<Rightarrow> usbip_AttachOptions \<Rightarrow> internal_options" where
  "attachOptionsToInternal cfg a =
     (let (backoff, factory) =
            (if uaBackoff a \<noteq> None then (backoffToInternal (uaBackoff a) (ficBackoffMu cfg), None)
             else if ficBackoffFactory cfg \<noteq> None then (None, ficBackoffFactory cfg)
             else if ficBackoff cfg \<noteq> None then (backoffToInternal (ficBackoff cfg) (ficBackoffMu cfg), None)
             else (None, None))
      in \<lparr>aiOptions = \<lparr>resetBackoffOnSuccess = False, AutoReconnect = uaAutoReconnect a, HasBackoff = (backoff \<noteq> None),
            HasBackoffFactory = (factory \<noteq> None), MaxAttempts = uaMaxAttempts a,
            StatusPollInterval = uaStatusPollInterval a, ShutdownTimeout = uaShutdownTimeout a\<rparr>,
          aiBackoff = backoff, aiFactory = factory, aiOnReconnect = uaOnReconnect a\<rparr>)"

text \<open>What \<open>attach\<close> does with a factory: it is called once for an attach that reconnects, and wrapped with a mutex of its own.
  \<open>made\<close> is what the factories return.\<close>

definition attach_strategy :: "(nat \<Rightarrow> BackoffStrategy option) \<Rightarrow> nat \<Rightarrow> internal_options \<Rightarrow> internal_strategy option" where
  "attach_strategy made fresh opts =
     (case aiFactory opts of
        Some f \<Rightarrow>
          if AutoReconnect (aiOptions opts) \<and> aiBackoff opts = None then backoffToInternal (made f) fresh else aiBackoff opts
      | None \<Rightarrow> aiBackoff opts)"

definition usbip_Attach ::
  "importerConfig \<Rightarrow> attach_env \<Rightarrow> Importer \<Rightarrow> RemoteEndpoint \<Rightarrow> string \<Rightarrow> usbip_AttachOptions \<Rightarrow> attach_out option" where
  "usbip_Attach cfg env i r busID opts =
     map_option (\<lambda>out. out\<lparr>aoResult := map_sum translateInternalErr id (aoResult out)\<rparr>)
       (attach env i r busID (aiOptions (attachOptionsToInternal cfg (mergeAttachOptions cfg opts))))"

text \<open>\<open>importerConfigToInternal\<close> and the two checks that make the internal constructor panic (\<open>None\<close>): a missing dependency, which
  the facade always supplies, and invalid transport options.\<close>

definition importerConfigToInternal :: "importerConfig \<Rightarrow> ImporterOption list" where
  "importerConfigToInternal cfg =
     (case ficLogger cfg of None \<Rightarrow> [] | Some l \<Rightarrow> [WithImporterLogger (Some l)])
   @ (if ficTransportOptions cfg \<noteq> zero_options then [WithImporterTransportOptions (ficTransportOptions cfg)] else [])"

fun internal_transport :: "ImporterOption list \<Rightarrow> TransportOptions \<Rightarrow> TransportOptions" where
  "internal_transport [] t = t"
| "internal_transport (WithImporterTransportOptions opts # os) t = internal_transport os opts"
| "internal_transport (_ # os) t = internal_transport os t"

definition app_NewImporter :: "ImporterOption list \<Rightarrow> (TransportOptions \<times> Importer) option" where
  "app_NewImporter os =
     (let t = internal_transport os zero_options
      in case Validate t of Some _ \<Rightarrow> None | None \<Rightarrow> Some (t, NewImporter))"

text \<open>\<open>newDefaultImporter\<close> on Linux; the errors of the adapter constructors are parameters, and \<open>None\<close> is a panic.\<close>

definition newDefaultImporter ::
  "nat \<Rightarrow> go_error option \<Rightarrow> go_error option \<Rightarrow> ImporterOption option list
     \<Rightarrow> (go_error + (importerConfig \<times> TransportOptions \<times> Importer)) option" where
  "newDefaultImporter mu kernelErr eventsErr opts =
     (case resolveImporterConfig mu opts of
        Inl err \<Rightarrow> Some (Inl err)
      | Inr cfg \<Rightarrow>
          (case kernelErr of
             Some err \<Rightarrow> Some (Inl err)
           | None \<Rightarrow>
               (case eventsErr of
                  Some err \<Rightarrow> Some (Inl err)
                | None \<Rightarrow> map_option (\<lambda>(t, i). Inr (cfg, t, i)) (app_NewImporter (importerConfigToInternal cfg)))))"

section \<open>Exporter options\<close>

record usbip_exporterConfig =
  uecLogger :: "nat option"
  uecMaxSessions :: int
  uecMaxSessionsPerPeer :: int
  uecAcceptRateLimit :: float64
  uecAcceptRateLimitSet :: bool
  uecAllowCIDRs :: "string list"
  uecMaxHandshakeBytes :: int
  uecHandshakeTimeout :: int
  uecShutdownTimeout :: int
  uecTransportOptions :: TransportOptions

definition zero_exporterConfig :: usbip_exporterConfig where
  "zero_exporterConfig =
     \<lparr>uecLogger = None, uecMaxSessions = 0, uecMaxSessionsPerPeer = 0, uecAcceptRateLimit = Fin 0, uecAcceptRateLimitSet = False,
      uecAllowCIDRs = [], uecMaxHandshakeBytes = 0, uecHandshakeTimeout = 0, uecShutdownTimeout = 0,
      uecTransportOptions = zero_options\<rparr>"

datatype ExporterOption =
    WithExporterLogger "nat option"
  | WithExporterMaxSessions int
  | WithExporterMaxSessionsPerPeer int
  | WithExporterAcceptRateLimit float64
  | WithExporterAllowCIDR "string list"
  | WithExporterMaxHandshakeBytes int
  | WithExporterHandshakeTimeout int
  | WithExporterShutdownTimeout int
  | WithExporterTransportOptions TransportOptions

fun apply_exporter_option :: "ExporterOption \<Rightarrow> usbip_exporterConfig \<Rightarrow> usbip_exporterConfig" where
  "apply_exporter_option (WithExporterLogger l) c = c\<lparr>uecLogger := l\<rparr>"
| "apply_exporter_option (WithExporterMaxSessions n) c = c\<lparr>uecMaxSessions := n\<rparr>"
| "apply_exporter_option (WithExporterMaxSessionsPerPeer n) c = c\<lparr>uecMaxSessionsPerPeer := n\<rparr>"
| "apply_exporter_option (WithExporterAcceptRateLimit rps) c = c\<lparr>uecAcceptRateLimit := rps, uecAcceptRateLimitSet := True\<rparr>"
| "apply_exporter_option (WithExporterAllowCIDR cidrs) c = c\<lparr>uecAllowCIDRs := uecAllowCIDRs c @ cidrs\<rparr>"
| "apply_exporter_option (WithExporterMaxHandshakeBytes n) c = c\<lparr>uecMaxHandshakeBytes := n\<rparr>"
| "apply_exporter_option (WithExporterHandshakeTimeout d) c = c\<lparr>uecHandshakeTimeout := d\<rparr>"
| "apply_exporter_option (WithExporterShutdownTimeout d) c = c\<lparr>uecShutdownTimeout := d\<rparr>"
| "apply_exporter_option (WithExporterTransportOptions opts) c = c\<lparr>uecTransportOptions := opts\<rparr>"

definition resolveExporterConfig ::
  "(string \<Rightarrow> go_error + string) \<Rightarrow> ExporterOption option list \<Rightarrow> go_error + usbip_exporterConfig" where
  "resolveExporterConfig parseCIDR opts =
     (let cfg = fold (apply_if apply_exporter_option) opts zero_exporterConfig
      in case Validate (uecTransportOptions cfg) of
           Some _ \<Rightarrow> Inl [Pub PubTransportOptionsInvalid]
         | None \<Rightarrow>
             (case ValidateExporterACL parseCIDR (uecAllowCIDRs cfg) of
                Some err \<Rightarrow> Inl (translateInternalErr err)
              | None \<Rightarrow>
                  (case (if uecAcceptRateLimitSet cfg then ValidateAcceptRateLimit (uecAcceptRateLimit cfg) else None) of
                     Some err \<Rightarrow> Inl (translateInternalErr err)
                   | None \<Rightarrow> Inr cfg)))"

text \<open>The options of \<open>internal/app\<close> that the facade passes on.\<close>

datatype AppExporterOption =
    AppExporterLogger nat
  | AppExporterMaxSessions int
  | AppExporterMaxSessionsPerPeer int
  | AppExporterAcceptRateLimit float64 int
  | AppExporterMaxHandshakeBytes int
  | AppExporterHandshakeTimeout int
  | AppExporterShutdownTimeout int
  | AppExporterACL "string list"

fun apply_app_option :: "AppExporterOption \<Rightarrow> exporterConfig \<Rightarrow> exporterConfig" where
  "apply_app_option (AppExporterLogger _) c = c"
| "apply_app_option (AppExporterMaxSessions n) c = c\<lparr>ecMaxSessions := n\<rparr>"
| "apply_app_option (AppExporterMaxSessionsPerPeer n) c = c\<lparr>ecMaxSessionsPerPeer := n\<rparr>"
| "apply_app_option (AppExporterAcceptRateLimit rps burst) c =
     c\<lparr>ecAcceptRateLimit := rps, ecAcceptRateLimitSet := True, ecAcceptBurst := burst\<rparr>"
| "apply_app_option (AppExporterMaxHandshakeBytes n) c = c\<lparr>ecMaxHandshakeBytes := n\<rparr>"
| "apply_app_option (AppExporterHandshakeTimeout d) c = c\<lparr>ecHandshakeTimeout := d\<rparr>"
| "apply_app_option (AppExporterShutdownTimeout d) c = c\<lparr>ecShutdownTimeout := d\<rparr>"
| "apply_app_option (AppExporterACL cidrs) c = c\<lparr>ecAclCIDRs := ecAclCIDRs c @ cidrs\<rparr>"

definition app_zero_config :: exporterConfig where
  "app_zero_config =
     \<lparr>ecMaxSessions = 0, ecMaxSessionsPerPeer = 0, ecAcceptRateLimit = Fin 0, ecAcceptRateLimitSet = False, ecAcceptBurst = 0,
      ecMaxHandshakeBytes = 0, ecHandshakeTimeout = 0, ecAclCIDRs = [], ecShutdownTimeout = 0, ecStatusPollInterval = 0\<rparr>"

definition appendExporterLoggerAndLimits ::
  "AppExporterOption list \<Rightarrow> usbip_exporterConfig \<Rightarrow> AppExporterOption list" where
  "appendExporterLoggerAndLimits out cfg =
     out @ (case uecLogger cfg of None \<Rightarrow> [] | Some l \<Rightarrow> [AppExporterLogger l])
   @ (if uecMaxSessions cfg \<noteq> 0 then [AppExporterMaxSessions (uecMaxSessions cfg)] else [])
   @ (if uecMaxSessionsPerPeer cfg \<noteq> 0 then [AppExporterMaxSessionsPerPeer (uecMaxSessionsPerPeer cfg)] else [])
   @ (if uecAcceptRateLimitSet cfg then [AppExporterAcceptRateLimit (uecAcceptRateLimit cfg) 0] else [])
   @ (if uecAllowCIDRs cfg \<noteq> [] then [AppExporterACL (uecAllowCIDRs cfg)] else [])"

definition appendExporterTimeouts :: "AppExporterOption list \<Rightarrow> usbip_exporterConfig \<Rightarrow> AppExporterOption list" where
  "appendExporterTimeouts out cfg =
     out @ (if uecMaxHandshakeBytes cfg \<noteq> 0 then [AppExporterMaxHandshakeBytes (uecMaxHandshakeBytes cfg)] else [])
   @ (if uecHandshakeTimeout cfg \<noteq> 0 then [AppExporterHandshakeTimeout (uecHandshakeTimeout cfg)] else [])
   @ (if uecShutdownTimeout cfg \<noteq> 0 then [AppExporterShutdownTimeout (uecShutdownTimeout cfg)] else [])"

definition exporterConfigToInternal :: "usbip_exporterConfig \<Rightarrow> AppExporterOption list" where
  "exporterConfigToInternal cfg = appendExporterTimeouts (appendExporterLoggerAndLimits [] cfg) cfg"

text \<open>\<open>newDefaultExporter\<close> on Linux.\<close>

definition newDefaultExporter ::
  "(string \<Rightarrow> go_error + string) \<Rightarrow> go_error option \<Rightarrow> go_error option \<Rightarrow> ExporterOption option list
     \<Rightarrow> go_error + (usbip_exporterConfig \<times> Exporter)" where
  "newDefaultExporter parseCIDR kernelErr eventsErr opts =
     (case resolveExporterConfig parseCIDR opts of
        Inl err \<Rightarrow> Inl err
      | Inr cfg \<Rightarrow>
          (case kernelErr of
             Some err \<Rightarrow> Inl err
           | None \<Rightarrow>
               (case eventsErr of
                  Some err \<Rightarrow> Inl err
                | None \<Rightarrow>
                    (case NewExporterWithError parseCIDR (fold apply_app_option (exporterConfigToInternal cfg) app_zero_config) of
                       Inl err \<Rightarrow> Inl (translateInternalErr err)
                     | Inr inner \<Rightarrow> Inr (cfg, inner)))))"

section \<open>Last option wins\<close>

text \<open>The specification of a list of options: the value of the last one that sets a field.\<close>

definition last_of :: "('o \<Rightarrow> 'v option) \<Rightarrow> 'v \<Rightarrow> 'o option list \<Rightarrow> 'v" where
  "last_of sel d opts = (let vs = List.map_filter (\<lambda>opt. Option.bind opt sel) opts in if vs = [] then d else last vs)"

lemma last_of_Nil [simp]: "last_of sel d [] = d"
  by (simp add: last_of_def)

lemma last_of_Cons [simp]:
  "last_of sel d (opt # opts) = last_of sel (case Option.bind opt sel of None \<Rightarrow> d | Some v \<Rightarrow> v) opts"
  by (simp add: last_of_def Let_def List.map_filter_simps split: option.split)

lemma fold_last:
  assumes "\<And>opt c. get (f opt c) = (case sel opt of None \<Rightarrow> get c | Some v \<Rightarrow> v)"
  shows "get (fold (apply_if f) opts c) = last_of sel (get c) opts"
proof (induction opts arbitrary: c)
  case (Cons opt opts)
  thus ?case
    using assms by (cases opt) (auto simp: apply_if_def)
qed simp

fun transport_of :: "ExporterOption \<Rightarrow> TransportOptions option" where
  "transport_of (WithExporterTransportOptions opts) = Some opts"
| "transport_of _ = None"

fun max_sessions_of :: "ExporterOption \<Rightarrow> int option" where
  "max_sessions_of (WithExporterMaxSessions n) = Some n"
| "max_sessions_of _ = None"

fun per_peer_of :: "ExporterOption \<Rightarrow> int option" where
  "per_peer_of (WithExporterMaxSessionsPerPeer n) = Some n"
| "per_peer_of _ = None"

fun rate_of :: "ExporterOption \<Rightarrow> float64 option" where
  "rate_of (WithExporterAcceptRateLimit rps) = Some rps"
| "rate_of _ = None"

fun handshake_bytes_of :: "ExporterOption \<Rightarrow> int option" where
  "handshake_bytes_of (WithExporterMaxHandshakeBytes n) = Some n"
| "handshake_bytes_of _ = None"

fun handshake_timeout_of :: "ExporterOption \<Rightarrow> int option" where
  "handshake_timeout_of (WithExporterHandshakeTimeout d) = Some d"
| "handshake_timeout_of _ = None"

fun shutdown_timeout_of :: "ExporterOption \<Rightarrow> int option" where
  "shutdown_timeout_of (WithExporterShutdownTimeout d) = Some d"
| "shutdown_timeout_of _ = None"

fun cidrs_of :: "ExporterOption option \<Rightarrow> string list" where
  "cidrs_of (Some (WithExporterAllowCIDR cidrs)) = cidrs"
| "cidrs_of _ = []"

definition collected :: "ExporterOption option list \<Rightarrow> usbip_exporterConfig" where
  "collected opts = fold (apply_if apply_exporter_option) opts zero_exporterConfig"

lemma apply_exporter_get:
  "uecTransportOptions (apply_exporter_option opt c) = (case transport_of opt of None \<Rightarrow> uecTransportOptions c | Some v \<Rightarrow> v)"
  "uecMaxSessions (apply_exporter_option opt c) = (case max_sessions_of opt of None \<Rightarrow> uecMaxSessions c | Some v \<Rightarrow> v)"
  "uecMaxSessionsPerPeer (apply_exporter_option opt c) = (case per_peer_of opt of None \<Rightarrow> uecMaxSessionsPerPeer c | Some v \<Rightarrow> v)"
  "uecMaxHandshakeBytes (apply_exporter_option opt c) = (case handshake_bytes_of opt of None \<Rightarrow> uecMaxHandshakeBytes c | Some v \<Rightarrow> v)"
  "uecHandshakeTimeout (apply_exporter_option opt c) = (case handshake_timeout_of opt of None \<Rightarrow> uecHandshakeTimeout c | Some v \<Rightarrow> v)"
  "uecShutdownTimeout (apply_exporter_option opt c) = (case shutdown_timeout_of opt of None \<Rightarrow> uecShutdownTimeout c | Some v \<Rightarrow> v)"
  by (cases opt; simp)+

definition set_rate :: "usbip_exporterConfig \<Rightarrow> float64 option" where
  "set_rate c = (if uecAcceptRateLimitSet c then Some (uecAcceptRateLimit c) else None)"

lemma apply_exporter_rate: "set_rate (apply_exporter_option opt c) = (case map_option Some (rate_of opt) of None \<Rightarrow> set_rate c | Some v \<Rightarrow> v)"
  by (cases opt) (simp_all add: set_rate_def)

lemma collected_cidrs: "uecAllowCIDRs (fold (apply_if apply_exporter_option) opts c) = uecAllowCIDRs c @ concat (map cidrs_of opts)"
proof (induction opts arbitrary: c)
  case (Cons opt opts)
  have "uecAllowCIDRs (apply_if apply_exporter_option opt c) = uecAllowCIDRs c @ cidrs_of opt"
    by (cases opt rule: cidrs_of.cases) (simp_all add: apply_if_def)
  thus ?case
    by (simp add: Cons.IH)
qed simp

lemma collected_get:
  "uecTransportOptions (collected opts) = last_of transport_of zero_options opts"
  "uecMaxSessions (collected opts) = last_of max_sessions_of 0 opts"
  "uecMaxSessionsPerPeer (collected opts) = last_of per_peer_of 0 opts"
  "uecMaxHandshakeBytes (collected opts) = last_of handshake_bytes_of 0 opts"
  "uecHandshakeTimeout (collected opts) = last_of handshake_timeout_of 0 opts"
  "uecShutdownTimeout (collected opts) = last_of shutdown_timeout_of 0 opts"
  "set_rate (collected opts) = last_of (\<lambda>opt. map_option Some (rate_of opt)) None opts"
  "uecAllowCIDRs (collected opts) = concat (map cidrs_of opts)"
  unfolding collected_def
  by (simp_all add: collected_cidrs zero_exporterConfig_def set_rate_def
      fold_last [of uecTransportOptions apply_exporter_option transport_of, OF apply_exporter_get(1)]
      fold_last [of uecMaxSessions apply_exporter_option max_sessions_of, OF apply_exporter_get(2)]
      fold_last [of uecMaxSessionsPerPeer apply_exporter_option per_peer_of, OF apply_exporter_get(3)]
      fold_last [of uecMaxHandshakeBytes apply_exporter_option handshake_bytes_of, OF apply_exporter_get(4)]
      fold_last [of uecHandshakeTimeout apply_exporter_option handshake_timeout_of, OF apply_exporter_get(5)]
      fold_last [of uecShutdownTimeout apply_exporter_option shutdown_timeout_of, OF apply_exporter_get(6)]
      fold_last [of set_rate apply_exporter_option "\<lambda>opt. map_option Some (rate_of opt)", OF apply_exporter_rate, unfolded set_rate_def])

text \<open>The options that the facade passes on rebuild the configuration.\<close>

lemma exporterConfigToInternal_rebuilds:
  "fold apply_app_option (exporterConfigToInternal cfg) app_zero_config =
     \<lparr>ecMaxSessions = uecMaxSessions cfg, ecMaxSessionsPerPeer = uecMaxSessionsPerPeer cfg,
      ecAcceptRateLimit = (if uecAcceptRateLimitSet cfg then uecAcceptRateLimit cfg else Fin 0),
      ecAcceptRateLimitSet = uecAcceptRateLimitSet cfg, ecAcceptBurst = 0, ecMaxHandshakeBytes = uecMaxHandshakeBytes cfg,
      ecHandshakeTimeout = uecHandshakeTimeout cfg, ecAclCIDRs = uecAllowCIDRs cfg,
      ecShutdownTimeout = uecShutdownTimeout cfg, ecStatusPollInterval = 0\<rparr>"
  by (simp add: exporterConfigToInternal_def appendExporterTimeouts_def appendExporterLoggerAndLimits_def app_zero_config_def
      split: option.split)

section \<open>Constructing an exporter\<close>

fun finite_rate :: "float64 option \<Rightarrow> bool" where
  "finite_rate None = True"
| "finite_rate (Some (Fin _)) = True"
| "finite_rate (Some _) = False"

definition or_default :: "int \<Rightarrow> int \<Rightarrow> int" where
  "or_default d n = (if n = 0 then d else n)"

lemma rate_check:
  "finite_rate (set_rate c) \<Longrightarrow> uecAcceptRateLimitSet c \<Longrightarrow> ValidateAcceptRateLimit (uecAcceptRateLimit c) = None"
  "\<not> finite_rate (set_rate c) \<Longrightarrow>
     uecAcceptRateLimitSet c \<and> ValidateAcceptRateLimit (uecAcceptRateLimit c) = Some [App ErrAcceptRateLimitInvalid]"
  by (cases "uecAcceptRateLimit c"; simp add: set_rate_def split: if_splits)+

text \<open>\<open>net.ParseCIDR\<close> knows nothing of this program's errors.\<close>

definition foreign_errors :: "(string \<Rightarrow> go_error + string) \<Rightarrow> bool" where
  "foreign_errors parseCIDR \<longleftrightarrow> (\<forall>s err a. parseCIDR s = Inl err \<longrightarrow> \<not> errors_Is err (App a))"

lemma parseACL_error:
  assumes "foreign_errors p" "parseACL p cidrs = Inl err"
  shows "translateInternalErr err = [Pub PubACLInvalid]"
  using assms
proof (induction p cidrs rule: parseACL.induct)
  case (2 parseCIDR s ss)
  show ?case
  proof (cases "parseCIDR s")
    case (Inl e)
    hence "err = App ErrACLInvalid # e" "\<And>a. \<not> errors_Is e (App a)"
      using 2 by (auto simp: foreign_errors_def)
    thus ?thesis
      by (simp add: translateInternalErr_def)
  next
    case (Inr n)
    thus ?thesis
      using 2 by (auto split: sum.splits)
  qed
qed simp

lemma acl_check:
  assumes "foreign_errors p"
  shows "map_option translateInternalErr (ValidateExporterACL p cidrs)
    = (if \<exists>ns. parseACL p cidrs = Inr ns then None else Some [Pub PubACLInvalid])"
  using parseACL_error [OF assms] by (auto simp: ValidateExporterACL_def split: sum.splits)

definition acceptable :: "(string \<Rightarrow> go_error + string) \<Rightarrow> ExporterOption option list \<Rightarrow> bool" where
  "acceptable p opts \<longleftrightarrow>
     Validate (last_of transport_of zero_options opts) = None \<and> (\<forall>c\<in>set (concat (map cidrs_of opts)). \<exists>n. p c = Inr n)
   \<and> finite_rate (last_of (\<lambda>opt. map_option Some (rate_of opt)) None opts)"

lemma resolveExporterConfig_ok: "acceptable p opts \<Longrightarrow> resolveExporterConfig p opts = Inr (collected opts)"
  using parseACL_Inr_iff [of p "uecAllowCIDRs (collected opts)"] rate_check(1) [of "collected opts"]
  by (auto simp: resolveExporterConfig_def Let_def collected_def [symmetric] ValidateExporterACL_def acceptable_def collected_get)

lemma resolveExporterConfig_error:
  assumes "foreign_errors p" "\<not> acceptable p opts"
  shows "\<exists>s\<in>{PubTransportOptionsInvalid, PubACLInvalid, PubAcceptRateLimitInvalid}. resolveExporterConfig p opts = Inl [Pub s]"
proof (cases "Validate (last_of transport_of zero_options opts) = None \<and> (\<exists>ns. parseACL p (concat (map cidrs_of opts)) = Inr ns)")
  case True
  hence "\<not> finite_rate (set_rate (collected opts))"
    using assms(2) parseACL_Inr_iff [of p "concat (map cidrs_of opts)"] by (auto simp: acceptable_def collected_get)
  moreover obtain ns where "parseACL p (concat (map cidrs_of opts)) = Inr ns"
    using True by blast
  ultimately show ?thesis
    using True rate_check(2) [of "collected opts"]
    by (simp add: resolveExporterConfig_def Let_def collected_def [symmetric] ValidateExporterACL_def collected_get
        translateInternalErr_def)
next
  case False
  thus ?thesis
    using acl_check [OF assms(1), of "concat (map cidrs_of opts)"]
    by (auto simp: resolveExporterConfig_def Let_def collected_def [symmetric] collected_get split: option.splits)
qed



section \<open>Constructing an importer\<close>

datatype backoff_choice = ChooseDefault | ChooseValue BackoffStrategy | ChooseFactory nat

fun choice_of :: "ImporterOption \<Rightarrow> backoff_choice option" where
  "choice_of (WithImporterBackoff b) = Some (case b of None \<Rightarrow> ChooseDefault | Some b \<Rightarrow> ChooseValue b)"
| "choice_of (WithImporterBackoffFactory factory) = Some (case factory of None \<Rightarrow> ChooseDefault | Some f \<Rightarrow> ChooseFactory f)"
| "choice_of _ = None"

fun poll_of :: "ImporterOption \<Rightarrow> int option" where
  "poll_of (WithImporterStatusPollInterval d) = Some d"
| "poll_of _ = None"

fun dial_options_of :: "ImporterOption \<Rightarrow> TransportOptions option" where
  "dial_options_of (WithImporterTransportOptions opts) = Some opts"
| "dial_options_of _ = None"

definition choice :: "importerConfig \<Rightarrow> backoff_choice" where
  "choice c =
     (case ficBackoffFactory c of
        Some f \<Rightarrow> ChooseFactory f
      | None \<Rightarrow> (case ficBackoff c of None \<Rightarrow> ChooseDefault | Some b \<Rightarrow> ChooseValue b))"

definition configured :: "nat \<Rightarrow> ImporterOption option list \<Rightarrow> importerConfig" where
  "configured mu opts = fold (apply_if apply_importer_option) opts (newImporterConfig mu)"

lemma apply_importer_get:
  "choice (apply_importer_option opt c) = (case choice_of opt of None \<Rightarrow> choice c | Some v \<Rightarrow> v)"
  "ficStatusPollInterval (apply_importer_option opt c) = (case poll_of opt of None \<Rightarrow> ficStatusPollInterval c | Some v \<Rightarrow> v)"
  "ficTransportOptions (apply_importer_option opt c) = (case dial_options_of opt of None \<Rightarrow> ficTransportOptions c | Some v \<Rightarrow> v)"
  "ficBackoffMu (apply_importer_option opt c) = ficBackoffMu c"
  by (cases opt; simp add: choice_def split: option.split)+

lemma configured_mutex: "ficBackoffMu (fold (apply_if apply_importer_option) opts c) = ficBackoffMu c"
proof (induction opts arbitrary: c)
  case (Cons opt opts)
  thus ?case
    by (cases opt) (simp_all add: apply_if_def apply_importer_get)
qed simp

lemma configured_get:
  "choice (configured mu opts) = last_of choice_of ChooseDefault opts"
  "ficStatusPollInterval (configured mu opts) = last_of poll_of 0 opts"
  "ficTransportOptions (configured mu opts) = last_of dial_options_of zero_options opts"
  "ficBackoffMu (configured mu opts) = mu"
  unfolding configured_def
  by (simp_all add: configured_mutex newImporterConfig_def choice_def
      fold_last [of choice apply_importer_option choice_of, OF apply_importer_get(1), unfolded choice_def]
      fold_last [of ficStatusPollInterval apply_importer_option poll_of, OF apply_importer_get(2)]
      fold_last [of ficTransportOptions apply_importer_option dial_options_of, OF apply_importer_get(3)])

lemma internal_transport_rebuilds: "internal_transport (importerConfigToInternal cfg) zero_options = ficTransportOptions cfg"
  by (simp add: importerConfigToInternal_def split: option.split)

lemma newDefaultImporter_eq:
  "newDefaultImporter mu None None opts =
     Some (let t = last_of dial_options_of zero_options opts
           in if Validate t = None then Inr (configured mu opts, t, NewImporter) else Inl [Pub PubTransportOptionsInvalid])"
  by (simp add: newDefaultImporter_def resolveImporterConfig_def configured_def [symmetric] Let_def configured_get app_NewImporter_def
      internal_transport_rebuilds split: option.split)

text \<open>The strategy an attach reconnects with, as the options say: the caller's, else the importer's last choice.\<close>

definition wanted_strategy ::
  "(nat \<Rightarrow> BackoffStrategy option) \<Rightarrow> nat \<Rightarrow> nat \<Rightarrow> ImporterOption option list \<Rightarrow> BackoffStrategy option \<Rightarrow> internal_strategy option" where
  "wanted_strategy made mu fresh opts b =
     (if b \<noteq> None then backoffToInternal b mu
      else case last_of choice_of ChooseDefault opts of
        ChooseDefault \<Rightarrow> None
      | ChooseValue v \<Rightarrow> backoffToInternal (Some v) mu
      | ChooseFactory f \<Rightarrow> backoffToInternal (made f) fresh)"

text \<open>What the options of \<open>NewImporter\<close> and of one attach mean together.  Construction never panics and fails exactly on invalid transport options,
  with the public sentinel.  An attach that reconnects uses the caller's strategy if it has one and otherwise the importer's last choice; a
  strategy value of the caller's own type is always guarded by the importer's one mutex, and one made by a factory by a mutex of its own.
  The poll interval is the first that is not zero of the caller's, the importer's and five seconds.\<close>

theorem importer_options:
  assumes "Validate (last_of dial_options_of zero_options opts) = None" "uaAutoReconnect a"
  shows "\<exists>cfg. newDefaultImporter mu None None opts = Some (Inr (cfg, last_of dial_options_of zero_options opts, NewImporter))
    \<and> attach_strategy made fresh (attachOptionsToInternal cfg (mergeAttachOptions cfg a)) = wanted_strategy made mu fresh opts (uaBackoff a)
    \<and> StatusPollInterval (resolveReconnectOptions (aiOptions (attachOptionsToInternal cfg (mergeAttachOptions cfg a))))
        = or_default (or_default defaultStatusPollInterval (last_of poll_of 0 opts)) (uaStatusPollInterval a)"
proof -
  let ?cfg = "configured mu opts"
  have "attach_strategy made fresh (attachOptionsToInternal ?cfg (mergeAttachOptions ?cfg a)) = wanted_strategy made mu fresh opts (uaBackoff a)"
    using assms(2) unfolding wanted_strategy_def configured_get(1) [of mu, symmetric]
    by (auto simp: attach_strategy_def attachOptionsToInternal_def mergeAttachOptions_def choice_def configured_get(4) split: option.splits)
  moreover have "StatusPollInterval (resolveReconnectOptions (aiOptions (attachOptionsToInternal ?cfg (mergeAttachOptions ?cfg a))))
        = or_default (or_default defaultStatusPollInterval (last_of poll_of 0 opts)) (uaStatusPollInterval a)"
    by (simp add: resolveReconnectOptions_def attachOptionsToInternal_def mergeAttachOptions_def configured_get Let_def or_default_def
        split: prod.split)
  ultimately show ?thesis
    using assms(1) by (simp add: newDefaultImporter_eq)
qed

definition sample_call :: usbip_AttachOptions where
  "sample_call = \<lparr>uaAutoReconnect = True, uaBackoff = None, uaMaxAttempts = 0, uaOnReconnect = None, uaStatusPollInterval = 0, uaShutdownTimeout = 0\<rparr>"

theorem importer_options_witness:
  "\<exists>cfg t i. newDefaultImporter 9 None None [Some (WithImporterBackoff (Some (CustomBackoff 3)))] = Some (Inr (cfg, t, i))
     \<and> attach_strategy (\<lambda>_. None) 10 (attachOptionsToInternal cfg (mergeAttachOptions cfg sample_call)) = Some (internalBackoffAdapter 3 9)"
proof -
  have "Validate (last_of dial_options_of zero_options [Some (WithImporterBackoff (Some (CustomBackoff 3)))]) = None"
    "uaAutoReconnect sample_call"
    by (simp_all add: Validate_def zero_options_def sample_call_def)
  from importer_options [OF this, of 9 "\<lambda>_. None" 10] show ?thesis
    by (auto simp: wanted_strategy_def sample_call_def backoffToInternal_def)
qed

section \<open>The error boundary\<close>

lemma translate_boundary: "s \<in> set translated \<Longrightarrow> \<not> errors_Is (translateInternalErr err) (App s)"
  by (auto simp: translated_def translateInternalErr_def)

lemma translate_other: "(\<And>s. s \<in> set translated \<Longrightarrow> \<not> errors_Is err (App s)) \<Longrightarrow> translateInternalErr err = err"
  by (simp add: translated_def translateInternalErr_def)

text \<open>The error boundary of the public \<open>Attach\<close>.  It does what the internal one does: the same state, port and releases.  Its error
  carries none of the translated internal sentinels and is the internal error itself when that carries none; a
  closed importer and an invalid attempt limit are reported by their public sentinels, without touching the importer.\<close>

theorem facade_attach_errors:
  assumes "usbip_Attach cfg env i r busID opts = Some out"
  shows "\<exists>inner. attach env i r busID (aiOptions (attachOptionsToInternal cfg (mergeAttachOptions cfg opts))) = Some inner
    \<and> aoState out = aoState inner \<and> aoReleasedPort out = aoReleasedPort inner
    \<and> (\<forall>x. aoResult out = Inr x \<longleftrightarrow> aoResult inner = Inr x)
    \<and> (\<forall>err s. aoResult out = Inl err \<and> s \<in> set translated \<longrightarrow> \<not> errors_Is err (App s))
    \<and> (\<forall>err. aoResult inner = Inl err \<and> (\<forall>s\<in>set translated. \<not> errors_Is err (App s)) \<longrightarrow> aoResult out = Inl err)
    \<and> (iClosed i \<longrightarrow> aoResult out = Inl [Pub PubImporterClosed] \<and> aoState out = i)
    \<and> (\<not> iClosed i \<and> RemoteEndpoint_Validate r = None \<and> BusID_IsValid busID \<and> uaMaxAttempts opts < 0 \<longrightarrow>
        aoResult out = Inl [Pub PubAttachOptionsInvalid] \<and> aoState out = i)"
proof -
  let ?o = "aiOptions (attachOptionsToInternal cfg (mergeAttachOptions cfg opts))"
  obtain inner where inner: "attach env i r busID ?o = Some inner" and out: "out = inner\<lparr>aoResult := map_sum translateInternalErr id (aoResult inner)\<rparr>"
    using assms by (auto simp: usbip_Attach_def)
  have "MaxAttempts ?o = uaMaxAttempts opts"
    by (simp add: attachOptionsToInternal_def mergeAttachOptions_def Let_def split: prod.split)
  moreover have "aoResult inner = Inl [App ErrImporterClosed] \<and> aoState inner = i" if "iClosed i"
    using inner that by (auto simp: attach_def attach_failed_def)
  moreover have "aoResult inner = Inl [App ErrAttachOptionsInvalid] \<and> aoState inner = i"
    if "\<not> iClosed i" "RemoteEndpoint_Validate r = None" "BusID_IsValid busID" "MaxAttempts ?o < 0"
    using inner that by (auto simp: attach_def attach_failed_def)
  ultimately show ?thesis
    using inner out translate_boundary translate_other
    by (intro exI [of _ inner]) (cases "aoResult inner"; auto simp: translateInternalErr_def)
qed

theorem facade_attach_errors_witness:
  "\<exists>out. usbip_Attach (configured 0 []) sample_attach_env (NewImporter\<lparr>iClosed := True\<rparr>) sample_endpoint ''1-1'' sample_call = Some out
     \<and> aoResult out = Inl [Pub PubImporterClosed]"
proof -
  let ?i = "NewImporter\<lparr>iClosed := True\<rparr>"
  obtain out where out: "usbip_Attach (configured 0 []) sample_attach_env ?i sample_endpoint ''1-1'' sample_call = Some out"
    by (simp add: usbip_Attach_def attach_def)
  show ?thesis
    using facade_attach_errors [OF out] out by auto
qed

end
