(* ===== verification/Facade_Calls.thy ===== *)
theory Facade_Calls
  imports Facade
begin

text \<open>
  \<open>pkg/usbip/usbip.go\<close>: the methods that forward to \<open>internal/app\<close> and translate its errors, and \<open>ListenAndServe\<close> with the part of
  \<open>serveWithListenerFactory\<close> (\<open>internal/app/exporter.go\<close>) that orders its effects; the interleavings of that function are in
  \<open>Exporter_Lifecycle\<close>.  \<open>inner\<close> is what the internal method returned.
\<close>

section \<open>Forwarding\<close>

definition usbip_ListRemote :: "go_error + Device list \<Rightarrow> go_error + Device list" where
  "usbip_ListRemote inner = map_sum translateInternalErr id inner"

definition usbip_Detach :: "go_error option \<Rightarrow> go_error option" where
  "usbip_Detach inner = map_option translateInternalErr inner"

definition usbip_ListPorts :: "go_error + Port list \<Rightarrow> go_error + Port list" where
  "usbip_ListPorts inner = map_sum translateInternalErr id inner"

text \<open>\<open>takes\<close>: how many pairs the consumer takes before it breaks the loop.\<close>

definition usbip_WatchWithErrors :: "(Event \<times> go_error option) list \<Rightarrow> nat \<Rightarrow> (Event \<times> go_error option) list" where
  "usbip_WatchWithErrors inner takes = map (\<lambda>(ev, err). (ev, map_option translateInternalErr err)) (take takes inner)"

definition usbip_Importer_Close :: "go_error option \<Rightarrow> go_error option" where
  "usbip_Importer_Close inner = map_option translateInternalErr inner"

definition usbip_ListAvailable :: "go_error + Device list \<Rightarrow> go_error + Device list" where
  "usbip_ListAvailable inner = map_sum translateInternalErr id inner"

definition usbip_ListExported :: "go_error + Device list \<Rightarrow> go_error + Device list" where
  "usbip_ListExported inner = map_sum translateInternalErr id inner"

definition usbip_Bind :: "go_error option \<Rightarrow> go_error option" where
  "usbip_Bind inner = map_option translateInternalErr inner"

definition usbip_Unbind :: "go_error option \<Rightarrow> go_error option" where
  "usbip_Unbind inner = map_option translateInternalErr inner"

definition usbip_Serve :: "go_error option \<Rightarrow> go_error option" where
  "usbip_Serve inner = map_option translateInternalErr inner"

definition usbip_Shutdown :: "go_error option \<Rightarrow> go_error option" where
  "usbip_Shutdown inner = map_option translateInternalErr inner"

section \<open>ListenAndServe\<close>

datatype serve_effect =
    SeCancel | SeFactory | SeAccept nat | SeSignalExited | SeStopWatcher | SeClose nat | SeStopServing

text \<open>\<open>e0\<close> and \<open>e1\<close> are the exporter when \<open>startServing\<close> and \<open>installServingListener\<close> hold its mutex; \<open>made\<close> is what the factory
  returns, \<open>loopErr\<close> the accept loop.  Deferred calls run last, the last deferred first.\<close>

definition serveWithListenerFactory ::
  "Exporter \<Rightarrow> Exporter \<Rightarrow> go_error + nat option \<Rightarrow> go_error option \<Rightarrow> go_error option \<times> serve_effect list" where
  "serveWithListenerFactory e0 e1 made loopErr =
     (case fst (startServing e0 0 0) of
        Inl err \<Rightarrow> (Some err, [SeCancel])
      | Inr _ \<Rightarrow>
          (case made of
             Inl err \<Rightarrow> (Some err, [SeFactory, SeSignalExited, SeStopServing])
           | Inr None \<Rightarrow> (Some [App ErrListenerFactoryNil], [SeFactory, SeSignalExited, SeStopServing])
           | Inr (Some l) \<Rightarrow>
               (case fst (installServingListener e1 l) of
                  Some err \<Rightarrow> (Some err, [SeFactory, SeClose l, SeSignalExited, SeStopServing])
                | None \<Rightarrow> (loopErr, [SeFactory, SeAccept l, SeSignalExited, SeStopWatcher, SeStopServing]))))"

text \<open>\<open>listened\<close>: what \<open>Transport.Listen\<close> returns when the factory calls it.\<close>

definition ListenAndServe ::
  "Exporter \<Rightarrow> Exporter \<Rightarrow> go_error + nat option \<Rightarrow> go_error option \<Rightarrow> go_error option \<times> serve_effect list" where
  "ListenAndServe e0 e1 listened loopErr =
     (case serveWithListenerFactory e0 e1 listened loopErr of
        (err, fx) \<Rightarrow>
          (map_option translateInternalErr err,
           fx @ (case listened of Inr (Some l) \<Rightarrow> if SeFactory \<in> set fx then [SeClose l] else [] | _ \<Rightarrow> [])))"

section \<open>Property\<close>

text \<open>\<open>ListenAndServe\<close> owns its socket.  It binds one only when the exporter is neither shut down nor serving, at most once; the socket it bound is closed
  last, on every path, and after the accept loop when there was one; the loop runs only on it.  The error carries none of the
  internal sentinels that the boundary translates.\<close>

theorem listen_and_serve_owned:
  "case ListenAndServe e0 e1 listened loopErr of (err, fx) \<Rightarrow>
     (SeFactory \<in> set fx \<longleftrightarrow> \<not> eShutdown e0 \<and> \<not> eServing e0)
     \<and> length (filter (\<lambda>x. x = SeFactory) fx) \<le> 1
     \<and> (case listened of
          Inr (Some l) \<Rightarrow> (SeFactory \<in> set fx) = (fx \<noteq> [] \<and> last fx = SeClose l) \<and> {k. SeAccept k \<in> set fx} \<subseteq> {l}
        | _ \<Rightarrow> {k. SeAccept k \<in> set fx} = {})
     \<and> (SeCancel \<in> set fx \<longleftrightarrow> SeFactory \<notin> set fx)
     \<and> list_all (\<lambda>s. \<not> (err \<noteq> None \<and> errors_Is (the err) (App s))) translated"
  by (auto simp: ListenAndServe_def serveWithListenerFactory_def startServing_def installServingListener_def list_all_iff translate_boundary
      split: sum.split option.split)

end
