(* ===== verification/Cli_History.thy ===== *)
theory Cli_History
  imports Go_Text
begin

text \<open>
  \<open>cmd/usbip-go/history.go\<close>: the attach history, a most-recent-first list of hosts in a file.  Every
  system call may fail: which ones do is a parameter (\<open>history_env\<close>, the fields of the source's \<open>...Ops\<close>
  structures), and the state records what is on disk, which temporary files exist, how many descriptors
  are open and whether the lock is held.  Closing a descriptor releases it, and a lock held through it,
  also when the call reports an error.
\<close>

section \<open>State and environment\<close>

definition historyCap :: nat where "historyCap = 20"

definition historyFileMode :: nat where "historyFileMode = 384" \<comment> \<open>octal 600\<close>

definition historyFileName :: string where "historyFileName = ''history''"

definition stateDirName :: string where "stateDirName = ''usbip-go''"

record history_fs =
  hfContent :: "string option" \<comment> \<open>the history file\<close>
  hfMode :: nat
  hfTemps :: "string list" \<comment> \<open>temporary files in its directory, the newest first\<close>
  hfFds :: nat
  hfLocked :: bool

text \<open>The errors of the calls; \<open>None\<close> means success.  A failing write has put some bytes in the file.\<close>

record history_env =
  heMkdir :: "go_error option"
  heLockOpen :: "go_error option"
  heLockChmod :: "go_error option"
  heLockEx :: "go_error option"
  heLockUn :: "go_error option"
  heLockClose :: "go_error option"
  heOpen :: "go_error option"
  heChmod :: "go_error option"
  heRead :: "go_error option"
  heClose :: "go_error option"
  heCreateTemp :: "go_error option"
  heChmodTemp :: "go_error option"
  heWriteTemp :: "(nat \<times> go_error) option"
  heCloseTemp :: "go_error option"
  heRename :: "go_error option"
  heRemove :: "go_error option"

text \<open>\<open>errors.Join\<close>: nil when all are, otherwise an error that is each of them.\<close>

definition errors_Join :: "go_error option list \<Rightarrow> go_error option" where
  "errors_Join es = (if list_all (\<lambda>e. e = None) es then None else Some (concat (map (\<lambda>e. case e of None \<Rightarrow> [] | Some e \<Rightarrow> e) es)))"

definition wrapHistoryCleanupError :: "go_error option \<Rightarrow> go_error option" where
  "wrapHistoryCleanupError err = err"

section \<open>Reading\<close>

fun scan_keep :: "string list \<Rightarrow> string list" where
  "scan_keep [] = []"
| "scan_keep (l # ls) = (let line = TrimSpace l in if line = [] then scan_keep ls else line # scan_keep ls)"

text \<open>\<open>readErr\<close> is an I/O error that ends the scan.\<close>

definition scanHistory :: "go_error option \<Rightarrow> string \<Rightarrow> go_error + string list" where
  "scanHistory readErr content =
     (case ScanLines content of (ls, scanErr) \<Rightarrow>
        (case (if readErr = None then scanErr else readErr) of
           Some err \<Rightarrow> Inl err
         | None \<Rightarrow> Inr (scan_keep ls)))"

definition openHistoryNoFollow :: "history_env \<Rightarrow> history_fs \<Rightarrow> (go_error + string) \<times> history_fs" where
  "openHistoryNoFollow env fs =
     (case hfContent fs of
        None \<Rightarrow> (Inl [Io FsErrNotExist], fs)
      | Some content \<Rightarrow>
          (case heOpen env of
             Some err \<Rightarrow> (Inl err, fs)
           | None \<Rightarrow> (Inr content, fs\<lparr>hfFds := hfFds fs + 1\<rparr>)))"

definition close_fd :: "history_fs \<Rightarrow> history_fs" where
  "close_fd fs = fs\<lparr>hfFds := hfFds fs - 1\<rparr>"

definition readHistoryFile :: "history_env \<Rightarrow> history_fs \<Rightarrow> (go_error + string list) \<times> history_fs" where
  "readHistoryFile env fs =
     (case openHistoryNoFollow env fs of
        (Inl err, fs) \<Rightarrow> (Inl err, fs)
      | (Inr content, fs) \<Rightarrow>
          (let entries = scanHistory (heRead env) content;
               fs = close_fd fs
           in case errors_Join [case entries of Inl err \<Rightarrow> Some err | Inr _ \<Rightarrow> None, wrapHistoryCleanupError (heClose env)] of
                Some err \<Rightarrow> (Inl err, fs)
              | None \<Rightarrow> (entries, fs)))"

text \<open>\<open>XDG_STATE_HOME\<close> (empty: unset) and the result of \<open>os.UserHomeDir\<close>; the elements for \<open>filepath.Join\<close>.\<close>

definition stateHome :: "string \<Rightarrow> go_error + string \<Rightarrow> go_error + string list" where
  "stateHome xdg home =
     (if xdg \<noteq> [] then Inr [xdg]
      else case home of Inl err \<Rightarrow> Inl err | Inr home \<Rightarrow> Inr [home, ''.local'', ''state''])"

definition historyPath :: "string \<Rightarrow> go_error + string \<Rightarrow> go_error + string list" where
  "historyPath xdg home =
     (case stateHome xdg home of Inl err \<Rightarrow> Inl err | Inr root \<Rightarrow> Inr (root @ [stateDirName, historyFileName]))"

definition readHistory :: "go_error + string list \<Rightarrow> history_env \<Rightarrow> history_fs \<Rightarrow> string list \<times> history_fs" where
  "readHistory path env fs =
     (case path of
        Inl _ \<Rightarrow> ([], fs)
      | Inr _ \<Rightarrow> (case readHistoryFile env fs of (Inl _, fs) \<Rightarrow> ([], fs) | (Inr entries, fs) \<Rightarrow> (entries, fs)))"

section \<open>Writing\<close>

definition removeHistoryTemporary ::
  "history_env \<Rightarrow> go_error option \<Rightarrow> history_fs \<Rightarrow> go_error option \<times> history_fs" where
  "removeHistoryTemporary env result fs =
     (let removeErr = (case heRemove env of
             Some err \<Rightarrow> if errors_Is err (Io FsErrNotExist) then None else Some err
           | None \<Rightarrow> None);
          fs = (if removeErr = None then fs\<lparr>hfTemps := tl (hfTemps fs)\<rparr> else fs)
      in (errors_Join [result, wrapHistoryCleanupError removeErr], fs))"

definition finishHistoryTemporary ::
  "history_env \<Rightarrow> go_error option \<Rightarrow> history_fs \<Rightarrow> go_error option \<times> history_fs" where
  "finishHistoryTemporary env result fs =
     removeHistoryTemporary env (errors_Join [result, wrapHistoryCleanupError (heCloseTemp env)]) (close_fd fs)"

definition writeHistoryAtomicOps :: "history_env \<Rightarrow> string \<Rightarrow> history_fs \<Rightarrow> go_error option \<times> history_fs" where
  "writeHistoryAtomicOps env body fs =
     (case heCreateTemp env of
        Some err \<Rightarrow> (Some err, fs)
      | None \<Rightarrow>
          (let fs = fs\<lparr>hfTemps := [] # hfTemps fs, hfFds := hfFds fs + 1\<rparr>
           in case heChmodTemp env of
             Some err \<Rightarrow> finishHistoryTemporary env (Some err) fs
           | None \<Rightarrow>
               (case heWriteTemp env of
                  Some (n, err) \<Rightarrow>
                    finishHistoryTemporary env (Some err) (fs\<lparr>hfTemps := take n body # tl (hfTemps fs)\<rparr>)
                | None \<Rightarrow>
                    (let fs = close_fd (fs\<lparr>hfTemps := body # tl (hfTemps fs)\<rparr>)
                     in case heCloseTemp env of
                       Some err \<Rightarrow> removeHistoryTemporary env (Some err) fs
                     | None \<Rightarrow>
                         (case heRename env of
                            Some err \<Rightarrow> removeHistoryTemporary env (Some err) fs
                          | None \<Rightarrow> (None, fs\<lparr>hfTemps := tl (hfTemps fs), hfContent := Some body,
                                             hfMode := historyFileMode\<rparr>))))))"

definition readHistoryForUpdate :: "history_env \<Rightarrow> history_fs \<Rightarrow> (go_error + string list) \<times> history_fs" where
  "readHistoryForUpdate env fs =
     (case openHistoryNoFollow env fs of
        (Inl openErr, fs) \<Rightarrow> if errors_Is openErr (Io FsErrNotExist) then (Inr [], fs) else (Inl openErr, fs)
      | (Inr content, fs) \<Rightarrow>
          (case heChmod env of
             Some chmodErr \<Rightarrow>
               (Inl (the (errors_Join [Some chmodErr, wrapHistoryCleanupError (heClose env)])), close_fd fs)
           | None \<Rightarrow>
               (let fs = fs\<lparr>hfMode := historyFileMode\<rparr>;
                    entries = scanHistory (heRead env) content;
                    fs = close_fd fs
                in case entries of
                     Inl readErr \<Rightarrow> (Inl (the (errors_Join [Some readErr, wrapHistoryCleanupError (heClose env)])), fs)
                   | Inr es \<Rightarrow>
                       (case heClose env of
                          Some closeErr \<Rightarrow> (Inl closeErr, fs)
                        | None \<Rightarrow> (Inr es, fs)))))"

fun join_lines :: "string list \<Rightarrow> string" where
  "join_lines [] = []"
| "join_lines [x] = x"
| "join_lines (x # xs) = x @ CHR 0x0A # join_lines xs"

definition updateHistoryFileOps :: "history_env \<Rightarrow> string \<Rightarrow> history_fs \<Rightarrow> go_error option \<times> history_fs" where
  "updateHistoryFileOps env host fs =
     (case readHistoryForUpdate env fs of
        (Inl err, fs) \<Rightarrow> (Some err, fs)
      | (Inr entries, fs) \<Rightarrow>
          (let entries = filter (\<lambda>s. s \<noteq> host) entries;
               entries = host # entries;
               entries = (if historyCap < length entries then take historyCap entries else entries);
               body = join_lines entries;
               body = (if body \<noteq> [] then body @ [CHR 0x0A] else body)
           in writeHistoryAtomicOps env body fs))"

definition finishHistoryLock :: "history_env \<Rightarrow> go_error option \<Rightarrow> history_fs \<Rightarrow> go_error option \<times> history_fs" where
  "finishHistoryLock env result fs =
     (errors_Join [result, wrapHistoryCleanupError (heLockUn env), wrapHistoryCleanupError (heLockClose env)],
      (close_fd fs)\<lparr>hfLocked := False\<rparr>)"

definition withHistoryLockOps ::
  "history_env \<Rightarrow> (history_fs \<Rightarrow> go_error option \<times> history_fs) \<Rightarrow> history_fs \<Rightarrow> go_error option \<times> history_fs" where
  "withHistoryLockOps env update fs =
     (case heLockOpen env of
        Some err \<Rightarrow> (Some err, fs)
      | None \<Rightarrow>
          (let fs = fs\<lparr>hfFds := hfFds fs + 1\<rparr>
           in case heLockChmod env of
             Some err \<Rightarrow> finishHistoryLock env (Some err) fs
           | None \<Rightarrow>
               (case heLockEx env of
                  Some err \<Rightarrow> finishHistoryLock env (Some err) fs
                | None \<Rightarrow>
                    (case update (fs\<lparr>hfLocked := True\<rparr>) of (result, fs) \<Rightarrow> finishHistoryLock env result fs))))"

definition recordHistory ::
  "go_error + string list \<Rightarrow> history_env \<Rightarrow> string \<Rightarrow> history_fs \<Rightarrow> go_error option \<times> history_fs" where
  "recordHistory path env host fs =
     (let host = TrimSpace host
      in if host = [] then (None, fs)
         else case path of
           Inl err \<Rightarrow> (Some err, fs)
         | Inr _ \<Rightarrow>
             (case heMkdir env of
                Some err \<Rightarrow> (Some err, fs)
              | None \<Rightarrow> withHistoryLockOps env (updateHistoryFileOps env host) fs))"

section \<open>Lemmas\<close>

lemma strip_by_drop: "\<exists>k. strip_by ps s = drop k s"
proof (induction ps s rule: strip_by.induct)
  case (1 ps s)
  show ?case
  proof (cases "find (\<lambda>p. p \<noteq> [] \<and> HasPrefix s p) ps")
    case None
    thus ?thesis
      by (subst strip_by.simps) (auto intro: exI [of _ 0])
  next
    case (Some p)
    then obtain k where "strip_by ps (drop (length p) s) = drop k (drop (length p) s)"
      using 1 by blast
    thus ?thesis
      using Some by (subst strip_by.simps) auto
  qed
qed

lemma strip_by_front: "p \<in> set ps \<Longrightarrow> p \<noteq> [] \<Longrightarrow> \<not> HasPrefix (strip_by ps s) p"
proof (induction ps s rule: strip_by.induct)
  case (1 ps s)
  thus ?case
    by (subst strip_by.simps) (auto split: option.splits simp: find_None_iff)
qed

lemma HasPrefix_take: "HasPrefix (take k s) p \<Longrightarrow> HasPrefix s p"
  by (auto simp: HasPrefix_def take_take min_def split: if_splits)

lemma TrimSpace_part: "\<exists>k m. TrimSpace s = take m (drop k s)"
proof -
  obtain k where k: "strip_by space_runes s = drop k s"
    using strip_by_drop by blast
  obtain m where m: "strip_by (map rev space_runes) (rev (drop k s)) = drop m (rev (drop k s))"
    using strip_by_drop by blast
  have "rev (drop m (rev x)) = take (length x - m) x" for x :: string
    by (simp add: rev_drop)
  hence "TrimSpace s = take (length (drop k s) - m) (drop k s)"
    by (simp only: TrimSpace_def k m)
  thus ?thesis
    by blast
qed

lemma TrimSpace_idem: "TrimSpace (TrimSpace s) = TrimSpace s"
proof (rule TrimSpace_id)
  fix p assume p: "p \<in> set space_runes"
  hence ne: "p \<noteq> []"
    using space_runes_bytes by blast
  let ?x = "strip_by space_runes s"
  obtain m where m: "strip_by (map rev space_runes) (rev ?x) = drop m (rev ?x)"
    using strip_by_drop by blast
  hence "TrimSpace s = take (length ?x - m) ?x"
    by (simp add: TrimSpace_def rev_drop)
  thus "\<not> HasPrefix (TrimSpace s) p"
    using strip_by_front [OF p ne, of s] HasPrefix_take by metis
  show "\<not> HasPrefix (rev (TrimSpace s)) (rev p)"
    using strip_by_front [of "rev p" "map rev space_runes" "rev ?x"] p ne by (simp add: TrimSpace_def)
qed

text \<open>A history entry as the file keeps it.\<close>

definition history_entry :: "string \<Rightarrow> bool" where
  "history_entry e \<longleftrightarrow> e \<noteq> [] \<and> TrimSpace e = e \<and> CHR 0x0A \<notin> set e \<and> length e < 65536"

lemma entry_dropCR: "history_entry e \<Longrightarrow> dropCR e = e"
proof -
  assume e: "history_entry e"
  have "last e \<noteq> CHR 0x0D"
  proof
    assume l: "last e = CHR 0x0D"
    have "HasPrefix (rev e) (rev [CHR 0x0D])"
      using e l by (cases e rule: rev_cases) (auto simp: history_entry_def HasPrefix_def)
    moreover have "[CHR 0x0D] \<in> set space_runes"
      by (simp add: space_runes_def)
    ultimately show False
      using e strip_by_front [of "rev [CHR 0x0D]" "map rev space_runes" "rev (strip_by space_runes e)"]
      unfolding history_entry_def TrimSpace_def by (metis image_eqI list.set_map list.simps(3) rev_is_Nil_conv rev_rev_ident)
  qed
  thus ?thesis
    by (simp add: dropCR_def)
qed

lemma scan_keep_entries:
  assumes "\<forall>l\<in>set ls. CHR 0x0A \<notin> set l \<and> length l < 65536"
  shows "\<forall>e\<in>set (scan_keep ls). history_entry e"
  using assms
proof (induction ls)
  case (Cons l ls)
  obtain k m where "TrimSpace l = take m (drop k l)"
    using TrimSpace_part by blast
  hence "set (TrimSpace l) \<subseteq> set l" "length (TrimSpace l) \<le> length l"
    by (auto dest: in_set_takeD in_set_dropD)
  hence "TrimSpace l \<noteq> [] \<longrightarrow> history_entry (TrimSpace l)"
    using Cons.prems by (auto simp: history_entry_def TrimSpace_idem)
  thus ?case
    using Cons by (simp add: Let_def)
qed simp

lemma scan_keep_id: "\<forall>e\<in>set es. history_entry e \<Longrightarrow> scan_keep es = es"
  by (induction es) (simp_all add: history_entry_def Let_def)

lemma split_join_lines:
  "\<forall>e\<in>set es. CHR 0x0A \<notin> set e \<Longrightarrow> es \<noteq> [] \<Longrightarrow> split_on (CHR 0x0A) (join_lines es @ [CHR 0x0A]) = es @ [[]]"
  by (induction es rule: join_lines.induct) (simp_all add: split_on_append_sep split_on_no_sep)

text \<open>Printing entries and scanning them back.\<close>

lemma scanHistory_join:
  assumes "\<forall>e\<in>set es. history_entry e" "es \<noteq> []"
  shows "scanHistory None (join_lines es @ [CHR 0x0A]) = Inr es"
proof -
  have "split_on (CHR 0x0A) (join_lines es @ [CHR 0x0A]) = es @ [[]]"
    using assms split_join_lines by (simp add: history_entry_def)
  moreover have "takeWhile (\<lambda>l. length l < 65536) es = es"
    using assms(1) by (intro takeWhile_all_id) (simp add: history_entry_def)
  moreover have "map dropCR es = es"
    using assms(1) entry_dropCR by (simp add: map_idI)
  ultimately show ?thesis
    using scan_keep_id [OF assms(1)] by (simp add: scanHistory_def ScanLines_def Let_def del: takeWhile_eq_all_conv)
qed

lemma scanHistory_entries:
  assumes "scanHistory re content = Inr es"
  shows "\<forall>e\<in>set es. history_entry e"
proof -
  obtain ls where "fst (ScanLines content) = ls" "es = scan_keep ls"
    using assms by (auto simp: scanHistory_def split: prod.splits option.splits if_splits)
  moreover have "\<forall>l\<in>set (fst (ScanLines content)). CHR 0x0A \<notin> set l \<and> length l < 65536"
    by (auto simp: ScanLines_def Let_def dropCR_def dest!: set_takeWhileD in_set_butlastD split_on_pieces)
  ultimately show ?thesis
    using scan_keep_entries by simp
qed

lemma errors_Join_None [simp]: "errors_Join es = None \<longleftrightarrow> (\<forall>e\<in>set es. e = None)"
  by (auto simp: errors_Join_def list_all_iff)

section \<open>The transaction\<close>

text \<open>What a write leaves behind: the old file or the whole new one, no open descriptor of its own, and no
  temporary unless removing it failed and the result says so.\<close>

definition leaves_clean :: "history_fs \<Rightarrow> go_error option \<Rightarrow> history_fs \<Rightarrow> bool" where
  "leaves_clean fs res fs' \<longleftrightarrow> hfFds fs' = hfFds fs
     \<and> (hfTemps fs' = hfTemps fs \<or> res \<noteq> None \<and> (\<exists>t. hfTemps fs' = t # hfTemps fs))"

lemma writeHistoryAtomic_ok:
  assumes "writeHistoryAtomicOps env body fs = (res, fs')"
  shows "leaves_clean fs res fs' \<and> hfLocked fs' = hfLocked fs
    \<and> (if res = None then hfContent fs' = Some body \<and> hfMode fs' = historyFileMode
       else hfContent fs' = hfContent fs \<and> hfMode fs' = hfMode fs)"
  using assms
  by (auto simp: writeHistoryAtomicOps_def finishHistoryTemporary_def removeHistoryTemporary_def close_fd_def
      leaves_clean_def Let_def wrapHistoryCleanupError_def split: option.splits prod.splits if_splits)

lemma readHistoryForUpdate_ok:
  assumes "readHistoryForUpdate env fs = (res, fs')"
  shows "leaves_clean fs None fs' \<and> hfLocked fs' = hfLocked fs \<and> hfContent fs' = hfContent fs
    \<and> hfMode fs' \<in> {hfMode fs, historyFileMode}
    \<and> (\<forall>es. res = Inr es \<longrightarrow> (\<forall>e\<in>set es. history_entry e)
         \<and> (case hfContent fs of None \<Rightarrow> es = [] | Some content \<Rightarrow> scanHistory (heRead env) content = Inr es
              \<or> errors_Is (the (heOpen env)) (Io FsErrNotExist) \<and> heOpen env \<noteq> None \<and> es = []))"
  using assms scanHistory_entries
  by (auto simp: readHistoryForUpdate_def openHistoryNoFollow_def leaves_clean_def close_fd_def Let_def
      split: option.splits prod.splits if_splits sum.splits)

text \<open>No call fails.\<close>

definition calm :: history_env where
  "calm = \<lparr>heMkdir = None, heLockOpen = None, heLockChmod = None, heLockEx = None, heLockUn = None, heLockClose = None,
     heOpen = None, heChmod = None, heRead = None, heClose = None, heCreateTemp = None, heChmodTemp = None,
     heWriteTemp = None, heCloseTemp = None, heRename = None, heRemove = None\<rparr>"

lemma readHistory_calm:
  "fst (readHistory (Inr p) calm fs) =
     (case hfContent fs of None \<Rightarrow> [] | Some content \<Rightarrow> (case scanHistory None content of Inl _ \<Rightarrow> [] | Inr es \<Rightarrow> es))"
  by (simp add: readHistory_def readHistoryFile_def openHistoryNoFollow_def calm_def Let_def wrapHistoryCleanupError_def errors_Join_def
      split: option.splits sum.splits)

lemma updateHistoryFile_ok:
  assumes "updateHistoryFileOps env h fs = (res, fs')" "history_entry h"
    "\<forall>err. heOpen env = Some err \<longrightarrow> \<not> errors_Is err (Io FsErrNotExist)"
  shows "leaves_clean fs res fs' \<and> hfLocked fs' = hfLocked fs
    \<and> (if res = None then fst (readHistory (Inr p) calm fs') =
           take historyCap (h # filter (\<lambda>s. s \<noteq> h) (fst (readHistory (Inr p) calm fs))) \<and> hfMode fs' = historyFileMode
       else hfContent fs' = hfContent fs)"
proof -
  obtain x fs1 where r: "readHistoryForUpdate env fs = (x, fs1)"
    by fastforce
  note rd = readHistoryForUpdate_ok [OF r]
  show ?thesis
  proof (cases x)
    case (Inl err)
    thus ?thesis
      using assms(1) r rd by (auto simp: updateHistoryFileOps_def leaves_clean_def)
  next
    case (Inr es)
    define new where "new = take historyCap (h # filter (\<lambda>s. s \<noteq> h) es)"
    have es: "\<forall>e\<in>set es. history_entry e"
      using rd Inr by blast
    have ne: "\<forall>e\<in>set new. history_entry e" "new \<noteq> []"
      using es assms(2) by (auto simp: new_def historyCap_def dest: in_set_takeD)
    hence "join_lines new \<noteq> []"
      by (cases new rule: join_lines.cases) (auto simp: history_entry_def)
    hence w: "writeHistoryAtomicOps env (join_lines new @ [CHR 0x0A]) fs1 = (res, fs')"
      using assms(1) r Inr by (simp add: updateHistoryFileOps_def new_def Let_def split: if_splits)
    have "fst (readHistory (Inr p) calm fs) = es"
      using rd Inr assms(3) by (auto simp: readHistory_calm scanHistory_def split: option.splits prod.splits if_splits)
    thus ?thesis
      using writeHistoryAtomic_ok [OF w] rd scanHistory_join [OF ne]
      by (auto simp: leaves_clean_def readHistory_calm new_def split: if_splits)
  qed
qed

section \<open>Properties\<close>


definition empty_fs :: history_fs where
  "empty_fs = \<lparr>hfContent = Some (''b'' @ [CHR 0x0A] @ ''a'' @ [CHR 0x0A]), hfMode = 420, hfTemps = [], hfFds = 0, hfLocked = False\<rparr>"


end
