(* ===== verification/Cli_Status.thy ===== *)
theory Cli_Status
  imports Prelude
begin

text \<open>
  \<open>cmd/usbip-go/status.go\<close> and \<open>serve.go\<close>: who owns the daemon's status socket.  Several daemons may start,
  serve, stop and crash at any time; they share the socket's path, the lock file beside it and nothing
  else.  A daemon is a number; \<open>status_step\<close> interleaves the system calls of \<open>bindStatusSocket\<close> and of the
  removal after serving.  Go's \<open>net.UnixListener\<close> unlinks the path it was bound to when it is closed.
\<close>

section \<open>State\<close>

text \<open>Where a daemon stands: the calls of \<open>bindStatusSocket\<close> in order, serving, and the two removals that
  follow the listener's \<open>Close\<close> (the status goroutine's and \<open>runDaemon\<close>'s deferred one).\<close>

datatype status_pc =
    StIdle | StLocked | StDetected | StUnlinked | StBound | StServing | StClosed | StRemovedOnce | StGone
  | StFailed go_error

text \<open>The lock's holder, the daemon whose socket is at the path, and the program counters.  \<open>stLate\<close> only records
  that a daemon that had stopped serving removed the socket of one that was listening.\<close>

record status_world =
  stLock :: "nat option"
  stFile :: "nat option"
  stPC :: "nat \<Rightarrow> status_pc"
  stLate :: bool

definition listening_pc :: "status_pc \<Rightarrow> bool" where
  "listening_pc pc \<longleftrightarrow> pc \<in> {StBound, StServing}"

definition holds_lock :: "status_pc \<Rightarrow> bool" where
  "holds_lock pc \<longleftrightarrow> pc \<in> {StLocked, StDetected, StUnlinked, StBound}"

definition ECONNREFUSED :: nat where "ECONNREFUSED = 111"

definition EADDRINUSE :: nat where "EADDRINUSE = 98"

section \<open>The calls\<close>

text \<open>Connecting to the path: \<open>fault\<close> is a failure that has nothing to do with who owns it.\<close>

definition dial_status :: "go_error option \<Rightarrow> status_world \<Rightarrow> go_error option" where
  "dial_status fault w =
     (case fault of
        Some err \<Rightarrow> Some err
      | None \<Rightarrow>
          (case stFile w of
             None \<Rightarrow> Some [Io FsErrNotExist]
           | Some o' \<Rightarrow> if listening_pc (stPC w o') then None else Some [Errno ECONNREFUSED]))"

definition detectAlreadyRunningWithDialer :: "go_error option \<Rightarrow> go_error option" where
  "detectAlreadyRunningWithDialer dialled =
     (case dialled of
        None \<Rightarrow> Some [Cli CliAlreadyRunning]
      | Some err \<Rightarrow>
          if errors_Is err (Io FsErrNotExist) then None
          else if errors_Is err (Errno ECONNREFUSED) then None
          else Some err)"

abbreviation goto :: "status_world \<Rightarrow> nat \<Rightarrow> status_pc \<Rightarrow> status_world" where
  "goto w d pc \<equiv> w\<lparr>stPC := (stPC w)(d := pc)\<rparr>"

text \<open>The deferred unlock and close of the lock file.\<close>

definition fail_unlock :: "status_world \<Rightarrow> nat \<Rightarrow> go_error \<Rightarrow> status_world" where
  "fail_unlock w d err = (goto w d (StFailed err))\<lparr>stLock := None\<rparr>"

text \<open>\<open>Flock(LOCK_EX|LOCK_NB)\<close>, after opening the lock file; \<open>fault\<close> is an error of either call.\<close>

definition bind_flock :: "go_error option \<Rightarrow> nat \<Rightarrow> status_world \<Rightarrow> status_world" where
  "bind_flock fault d w =
     (case fault of
        Some err \<Rightarrow> goto w d (StFailed err)
      | None \<Rightarrow> if stLock w \<noteq> None then goto w d (StFailed [Cli CliAlreadyRunning])
               else (goto w d StLocked)\<lparr>stLock := Some d\<rparr>)"

definition bind_detect :: "go_error option \<Rightarrow> nat \<Rightarrow> status_world \<Rightarrow> status_world" where
  "bind_detect fault d w =
     (case detectAlreadyRunningWithDialer (dial_status fault w) of
        Some err \<Rightarrow> fail_unlock w d err
      | None \<Rightarrow> goto w d StDetected)"

definition bind_unlink :: "go_error option \<Rightarrow> nat \<Rightarrow> status_world \<Rightarrow> status_world" where
  "bind_unlink fault d w =
     (case fault of
        Some err \<Rightarrow> if errors_Is err (Io FsErrNotExist) then goto w d StUnlinked else fail_unlock w d err
      | None \<Rightarrow> (goto w d StUnlinked)\<lparr>stFile := None\<rparr>)"

definition bind_listen :: "go_error option \<Rightarrow> nat \<Rightarrow> status_world \<Rightarrow> status_world" where
  "bind_listen fault d w =
     (case fault of
        Some err \<Rightarrow> fail_unlock w d err
      | None \<Rightarrow> if stFile w \<noteq> None then fail_unlock w d [Errno EADDRINUSE]
               else (goto w d StBound)\<lparr>stFile := Some d\<rparr>)"

text \<open>\<open>Chmod\<close>; on failure the listener is closed and the path removed.  Then the lock is released.\<close>

definition bind_chmod :: "go_error option \<Rightarrow> nat \<Rightarrow> status_world \<Rightarrow> status_world" where
  "bind_chmod fault d w =
     (case fault of
        Some err \<Rightarrow> (fail_unlock w d err)\<lparr>stFile := None\<rparr>
      | None \<Rightarrow> (goto w d StServing)\<lparr>stLock := None\<rparr>)"

text \<open>After serving: closing the listener unlinks the path, then the path is removed twice more.\<close>

definition remove_path :: "nat \<Rightarrow> status_pc \<Rightarrow> status_world \<Rightarrow> status_world" where
  "remove_path d pc w =
     (goto w d pc)\<lparr>stFile := None,
        stLate := stLate w \<or> (\<exists>b. stFile w = Some b \<and> b \<noteq> d \<and> listening_pc (stPC w b))\<rparr>"

text \<open>The kernel closes a dead process's descriptors and so drops its lock; the socket file stays.\<close>

definition crash :: "nat \<Rightarrow> status_world \<Rightarrow> status_world" where
  "crash d w = (goto w d StGone)\<lparr>stLock := (if stLock w = Some d then None else stLock w)\<rparr>"

inductive status_step :: "status_world \<Rightarrow> status_world \<Rightarrow> bool" where
  st_flock: "stPC w d = StIdle \<Longrightarrow> status_step w (bind_flock fault d w)"
| st_detect: "stPC w d = StLocked \<Longrightarrow>
    (\<And>err. fault = Some err \<Longrightarrow> \<not> errors_Is err (Io FsErrNotExist) \<and> \<not> errors_Is err (Errno ECONNREFUSED)) \<Longrightarrow>
    status_step w (bind_detect fault d w)"
| st_unlink: "stPC w d = StDetected \<Longrightarrow>
    (\<And>err. fault = Some err \<Longrightarrow> errors_Is err (Io FsErrNotExist) \<Longrightarrow> stFile w = None) \<Longrightarrow> status_step w (bind_unlink fault d w)"
| st_listen: "stPC w d = StUnlinked \<Longrightarrow> status_step w (bind_listen fault d w)"
| st_chmod: "stPC w d = StBound \<Longrightarrow> status_step w (bind_chmod fault d w)"
| st_close: "stPC w d = StServing \<Longrightarrow> status_step w (remove_path d StClosed w)"
| st_remove1: "stPC w d = StClosed \<Longrightarrow> status_step w (remove_path d StRemovedOnce w)"
| st_remove2: "stPC w d = StRemovedOnce \<Longrightarrow> status_step w (remove_path d StGone w)"
| st_crash: "status_step w (crash d w)"

definition fresh_world :: status_world where
  "fresh_world = \<lparr>stLock = None, stFile = None, stPC = (\<lambda>_. StIdle), stLate = False\<rparr>"

inductive status_reach :: "status_world \<Rightarrow> bool" where
  st_init: "status_reach fresh_world"
| st_next: "status_reach w \<Longrightarrow> status_step w w' \<Longrightarrow> status_reach w'"

section \<open>The invariant\<close>

definition status_inv :: "status_world \<Rightarrow> bool" where
  "status_inv w \<longleftrightarrow> (\<forall>d. holds_lock (stPC w d) \<longleftrightarrow> stLock w = Some d)
     \<and> (\<not> stLate w \<longrightarrow> (\<forall>d. listening_pc (stPC w d) \<longrightarrow> stFile w = Some d)
          \<and> (\<forall>d. stPC w d \<in> {StDetected, StUnlinked} \<longrightarrow> (\<forall>b. \<not> listening_pc (stPC w b))))"

lemmas status_ops = bind_flock_def bind_detect_def bind_unlink_def bind_listen_def bind_chmod_def remove_path_def
  crash_def fail_unlock_def detectAlreadyRunningWithDialer_def dial_status_def

lemmas status_pcs = holds_lock_def listening_pc_def

lemma status_invD:
  assumes "status_inv w"
  shows "holds_lock (stPC w d) \<longleftrightarrow> stLock w = Some d"
    and "\<not> stLate w \<Longrightarrow> listening_pc (stPC w d) \<Longrightarrow> stFile w = Some d"
    and "\<not> stLate w \<Longrightarrow> stPC w d \<in> {StDetected, StUnlinked} \<Longrightarrow> \<not> listening_pc (stPC w b)"
  using assms by (auto simp: status_inv_def)

text \<open>A step moves one daemon: it is enough to look at the new counter of that one.\<close>

lemma status_invI:
  assumes inv: "status_inv w" and "stPC w' = (stPC w)(d := pc)"
    and lock: "stLock w' = (if holds_lock pc then Some d else if stLock w = Some d then None else stLock w)"
      "holds_lock pc \<longrightarrow> stLock w \<in> {None, Some d}"
    and late: "stLate w' \<longrightarrow> stLate w' \<or> stLate w" "stLate w \<longrightarrow> stLate w'"
    and at_path: "\<not> stLate w' \<Longrightarrow> (if listening_pc pc then stFile w' = Some d \<and> (\<forall>b. b \<noteq> d \<longrightarrow> \<not> listening_pc (stPC w b))
        else \<forall>b. b \<noteq> d \<and> listening_pc (stPC w b) \<longrightarrow> stFile w' = stFile w)"
    and det: "\<not> stLate w' \<Longrightarrow> pc \<in> {StDetected, StUnlinked} \<Longrightarrow> \<forall>b. b \<noteq> d \<longrightarrow> \<not> listening_pc (stPC w b)"
    and new: "\<not> stLate w' \<Longrightarrow> listening_pc pc \<Longrightarrow> \<forall>b. b \<noteq> d \<longrightarrow> stPC w b \<notin> {StDetected, StUnlinked}"
  shows "status_inv w'"
proof -
  have "holds_lock (stPC w' b) \<longleftrightarrow> stLock w' = Some b" for b
    using status_invD(1) [OF inv, of b] status_invD(1) [OF inv, of d] lock assms(2) by (cases "b = d") auto
  moreover have "stFile w' = Some b" if "\<not> stLate w'" "listening_pc (stPC w' b)" for b
    using status_invD(2) [OF inv, of b] that at_path assms(2) late(2) by (cases "b = d") (auto split: if_splits)
  moreover have "\<not> listening_pc (stPC w' b)" if "\<not> stLate w'" "stPC w' c \<in> {StDetected, StUnlinked}" for b c
    using status_invD(3) [OF inv, of c b] that det new assms(2) late(2)
    by (cases "b = d"; cases "c = d") (auto simp: listening_pc_def)
  ultimately show ?thesis
    by (auto simp: status_inv_def)
qed

text \<open>While a daemon has the lock no other is between detection and binding.\<close>

lemma lock_alone: "status_inv w \<Longrightarrow> stLock w \<in> {None, Some d} \<Longrightarrow> b \<noteq> d \<Longrightarrow> \<not> holds_lock (stPC w b)"
  by (auto simp: status_inv_def)

lemma remove_path_inv:
  assumes inv: "status_inv w" and "\<not> holds_lock (stPC w d)" "pc \<in> {StClosed, StRemovedOnce, StGone}"
  shows "status_inv (remove_path d pc w)"
proof (rule status_invI [OF inv, where d = d and pc = pc])
  have "stLock w \<noteq> Some d"
    using assms(2) status_invD(1) [OF inv, of d] by simp
  thus "stLock (remove_path d pc w) = (if holds_lock pc then Some d else if stLock w = Some d then None else stLock w)"
    using assms(3) by (auto simp: remove_path_def holds_lock_def)
  have "\<not> listening_pc (stPC w b)" if "\<not> stLate (remove_path d pc w)" "b \<noteq> d" for b
    using status_invD(2) [OF inv, of b] that by (auto simp: remove_path_def)
  thus "if listening_pc pc then stFile (remove_path d pc w) = Some d \<and> (\<forall>b. b \<noteq> d \<longrightarrow> \<not> listening_pc (stPC w b))
      else \<forall>b. b \<noteq> d \<and> listening_pc (stPC w b) \<longrightarrow> stFile (remove_path d pc w) = stFile w"
    if "\<not> stLate (remove_path d pc w)"
    using assms(3) that by (auto simp: listening_pc_def)
qed (use assms(3) in \<open>auto simp: remove_path_def status_pcs\<close>)

lemma status_step_inv:
  assumes "status_step w w'" "status_inv w"
  shows "status_inv w'"
  using assms(1)
proof (cases rule: status_step.cases)
  case (st_flock d fault)
  have "stLock w \<noteq> Some d"
    using status_invD(1) [OF assms(2), of d] st_flock by (simp add: holds_lock_def)
  thus ?thesis
    using st_flock assms(2)
    by (cases "fault = None \<and> stLock w = None")
      (auto intro!: status_invI [where d = d and w = w] simp: bind_flock_def status_pcs split: option.splits)
next
  case (st_detect d fault)
  have l: "stLock w = Some d"
    using status_invD(1) [OF assms(2), of d] st_detect by (simp add: holds_lock_def)
  have "\<not> listening_pc (stPC w b)" if "\<not> stLate w" "detectAlreadyRunningWithDialer (dial_status fault w) = None" for b
    using status_invD(2) [OF assms(2) that(1), of b] that(2) st_detect(3)
    by (auto simp: detectAlreadyRunningWithDialer_def dial_status_def split: option.splits if_splits)
  thus ?thesis
    using st_detect(1,2) l assms(2)
    by (cases "detectAlreadyRunningWithDialer (dial_status fault w)")
      (auto intro!: status_invI [where d = d and w = w] simp: bind_detect_def fail_unlock_def status_pcs)
next
  case (st_unlink d fault)
  have l: "stLock w = Some d" and n: "\<And>b. \<not> stLate w \<Longrightarrow> \<not> listening_pc (stPC w b)"
    using status_invD(1) [OF assms(2), of d] status_invD(3) [OF assms(2), of d] st_unlink by (auto simp: holds_lock_def)
  show ?thesis
    using st_unlink(1,2) l n assms(2)
    by (cases fault) (auto intro!: status_invI [where d = d and w = w] simp: bind_unlink_def fail_unlock_def status_pcs)
next
  case (st_listen d fault)
  have l: "stLock w = Some d" and n: "\<And>b. \<not> stLate w \<Longrightarrow> \<not> listening_pc (stPC w b)"
    using status_invD(1) [OF assms(2), of d] status_invD(3) [OF assms(2), of d] st_listen by (auto simp: holds_lock_def)
  show ?thesis
    using st_listen l n assms(2) lock_alone [OF assms(2), of d]
    by (cases fault) (auto intro!: status_invI [where d = d and w = w] simp: bind_listen_def fail_unlock_def status_pcs)
next
  case (st_chmod d fault)
  have l: "stLock w = Some d"
    using status_invD(1) [OF assms(2), of d] st_chmod by (simp add: holds_lock_def)
  have "\<not> stLate w \<Longrightarrow> stFile w = Some d"
    using status_invD(2) [OF assms(2), of d] st_chmod by (simp add: listening_pc_def)
  hence f: "\<not> stLate w \<Longrightarrow> stFile w = Some d \<and> (\<forall>b. b \<noteq> d \<longrightarrow> \<not> listening_pc (stPC w b))"
    using status_invD(2) [OF assms(2)] by auto
  show ?thesis
    using st_chmod l f assms(2) lock_alone [OF assms(2), of d]
    by (cases fault) (auto intro!: status_invI [where d = d and w = w] simp: bind_chmod_def fail_unlock_def status_pcs)
next
  case (st_crash d)
  show ?thesis
    unfolding st_crash by (rule status_invI [OF assms(2), where d = d and pc = StGone]) (simp_all add: crash_def status_pcs)
qed (simp_all add: remove_path_inv [OF assms(2)] holds_lock_def)

lemma status_reach_inv: "status_reach w \<Longrightarrow> status_inv w"
proof (induction rule: status_reach.induct)
  case st_init
  show ?case
    by (simp add: status_inv_def fresh_world_def status_pcs)
qed (rule status_step_inv)

section \<open>Properties\<close>

text \<open>C35: The status socket has one owner.  However daemons start, fail, serve, stop and crash, the lock is held
  exactly by the one that is between locking and finishing its bind; and unless a stopping daemon removed
  the path after another had bound it, at most one daemon is listening and it is the one the path leads to,
  so that a further daemon that gets as far as connecting reports that one is already running and leaves
  the socket alone.\<close>
theorem status_socket_exclusive:
  assumes "status_reach w"
  shows "(\<forall>d. holds_lock (stPC w d) \<longleftrightarrow> stLock w = Some d)
    \<and> (\<not> stLate w \<longrightarrow> (\<forall>d. listening_pc (stPC w d) \<longrightarrow> stFile w = Some d
         \<and> (\<forall>b. listening_pc (stPC w b) \<longrightarrow> b = d)
         \<and> (\<forall>c. stPC w c = StLocked \<longrightarrow> bind_detect None c w = fail_unlock w c [Cli CliAlreadyRunning])))"
proof -
  note inv = status_reach_inv [OF assms]
  have "stFile w = Some d" if "\<not> stLate w" "listening_pc (stPC w d)" for d
    using status_invD(2) [OF inv that] .
  moreover from this have "b = d" if "\<not> stLate w" "listening_pc (stPC w d)" "listening_pc (stPC w b)" for b d
    using that by (metis option.inject)
  ultimately show ?thesis
    using status_invD(1) [OF inv] by (auto simp: bind_detect_def detectAlreadyRunningWithDialer_def dial_status_def)
qed

text \<open>One daemon's way to serving, and its step to the closed listener.\<close>

definition start_daemon :: "nat \<Rightarrow> status_world \<Rightarrow> status_world" where
  "start_daemon d w = bind_chmod None d (bind_listen None d (bind_unlink None d (bind_detect None d (bind_flock None d w))))"

lemma start_daemon_reach:
  assumes "status_reach w" "stPC w d = StIdle" "stLock w = None" "stFile w = None"
  shows "status_reach (start_daemon d w)"
    "start_daemon d w = w\<lparr>stPC := (stPC w)(d := StServing), stFile := Some d\<rparr>"
proof -
  let ?w1 = "bind_flock None d w" and ?w2 = "bind_detect None d (bind_flock None d w)"
  let ?w3 = "bind_unlink None d ?w2" and ?w4 = "bind_listen None d (bind_unlink None d ?w2)"
  have pc: "stPC ?w1 d = StLocked" "stPC ?w2 d = StDetected" "stPC ?w3 d = StUnlinked" "stPC ?w4 d = StBound"
    using assms by (simp_all add: status_ops status_pcs)
  have 1: "status_reach ?w1"
    by (rule st_next [OF assms(1) st_flock [of w d None, OF assms(2)]])
  have 2: "status_reach ?w2"
    by (rule st_next [OF 1 st_detect]) (simp_all add: pc)
  have 3: "status_reach ?w3"
    by (rule st_next [OF 2 st_unlink]) (simp_all add: pc)
  have 4: "status_reach ?w4"
    by (rule st_next [OF 3 st_listen]) (simp add: pc)
  show "status_reach (start_daemon d w)"
    unfolding start_daemon_def by (rule st_next [OF 4 st_chmod]) (simp add: pc)
  show "start_daemon d w = w\<lparr>stPC := (stPC w)(d := StServing), stFile := Some d\<rparr>"
    using assms by (simp add: start_daemon_def status_ops status_pcs)
qed

definition one_serving :: status_world where
  "one_serving = \<lparr>stLock = None, stFile = Some 0, stPC = (\<lambda>_. StIdle)(0 := StServing), stLate = False\<rparr>"

lemma one_serving_reach: "status_reach one_serving"
proof -
  have "start_daemon 0 fresh_world = one_serving"
    using start_daemon_reach(2) [OF st_init, of 0] by (simp add: fresh_world_def one_serving_def)
  thus ?thesis
    using start_daemon_reach(1) [OF st_init, of 0] by (simp add: fresh_world_def)
qed

theorem status_socket_exclusive_witness: "stFile one_serving = Some 0 \<and> \<not> holds_lock (stPC one_serving 0)"
  using status_socket_exclusive [OF one_serving_reach] by (auto simp: one_serving_def status_pcs)

text \<open>The removals after serving are not covered by the lock.  When a daemon has closed its listener, which
  unlinks the path, another may bind it before the first one's remaining removals; these delete the new
  daemon's socket while it serves, and a third one then binds the path too, so that two daemons serve.\<close>
theorem status_socket_race:
  "\<exists>w. status_reach w \<and> stLate w \<and> stPC w 1 = StServing \<and> stPC w 2 = StServing \<and> stFile w = Some 2"
proof -
  let ?a = "remove_path 0 StClosed one_serving"
  have a: "?a = \<lparr>stLock = None, stFile = None, stPC = (\<lambda>_. StIdle)(0 := StClosed), stLate = False\<rparr>"
    by (simp add: remove_path_def one_serving_def)
  have ra: "status_reach ?a"
    by (rule st_next [OF one_serving_reach st_close]) (simp add: one_serving_def)
  let ?b = "start_daemon 1 ?a"
  have b: "?b = \<lparr>stLock = None, stFile = Some 1, stPC = (\<lambda>_. StIdle)(0 := StClosed, 1 := StServing), stLate = False\<rparr>"
    and rb: "status_reach ?b"
    using start_daemon_reach [OF ra, of 1] by (simp_all add: a)
  let ?c = "remove_path 0 StRemovedOnce ?b"
  have c: "?c = \<lparr>stLock = None, stFile = None, stPC = (\<lambda>_. StIdle)(0 := StRemovedOnce, 1 := StServing), stLate = True\<rparr>"
    unfolding b by (auto simp: remove_path_def listening_pc_def)
  have rc: "status_reach ?c"
    by (rule st_next [OF rb st_remove1]) (simp only: b, simp)
  let ?d = "start_daemon 2 ?c"
  have d: "?d = \<lparr>stLock = None, stFile = Some 2, stPC = (\<lambda>_. StIdle)(0 := StRemovedOnce, 1 := StServing, 2 := StServing), stLate = True\<rparr>"
    and rd: "status_reach ?d"
    using start_daemon_reach [OF rc, of 2] by (simp_all only: c) simp_all
  show ?thesis
    by (rule exI [of _ ?d], intro conjI, rule rd) (simp_all only: d, simp_all)
qed

end
