(* ===== verification/Cli_Exit.thy ===== *)
theory Cli_Exit
  imports Kernel_Ports Cli_Status
begin

text \<open>
  \<open>cmd/usbip-go/exitcode.go\<close> and \<open>drain.go\<close>: what the command reports.  An error's text is not part of the model
  of errors, so \<open>text\<close>, the result of \<open>err.Error()\<close>, is a parameter; where a theorem depends on it, it assumes
  of it only what \<open>fmt.Errorf\<close> documents, that wrapping with \<open>%w\<close> includes the wrapped error's text.
\<close>

section \<open>Strings\<close>

text \<open>\<open>strings.Contains\<close> and the uses of \<open>strings.ReplaceAll\<close>.\<close>

definition Contains :: "string \<Rightarrow> string \<Rightarrow> bool" where
  "Contains s sub = list_ex (\<lambda>k. HasPrefix (drop k s) sub) [0..<Suc (length s)]"

fun crlf_to_lf :: "string \<Rightarrow> string" where
  "crlf_to_lf (a # b # s) =
     (if a = CHR 0x0D \<and> b = CHR 0x0A then CHR 0x0A # crlf_to_lf s else a # crlf_to_lf (b # s))"
| "crlf_to_lf s = s"

definition flattenErrorText :: "string \<Rightarrow> string" where
  "flattenErrorText s =
     (let s = crlf_to_lf s;
          s = map (\<lambda>c. if c = CHR 0x0D then CHR 0x0A else c) s
      in concat (map (\<lambda>c. if c = CHR 0x0A then ''; '' else [c]) s))"

text \<open>\<open>fmt.Sprintf\<close> of a template with one \<open>%s\<close>.\<close>

fun sprintf_s :: "string \<Rightarrow> string \<Rightarrow> string" where
  "sprintf_s (a # b # f) s = (if a = CHR ''%'' \<and> b = CHR ''s'' then s @ f else a # sprintf_s (b # f) s)"
| "sprintf_s f s = f"

section \<open>Exit codes\<close>

definition ExitOK :: int where "ExitOK = 0"

definition ExitGeneric :: int where "ExitGeneric = 1"

definition ExitUsage :: int where "ExitUsage = 2"

definition ExitPermission :: int where "ExitPermission = 3"

definition ExitKernelModule :: int where "ExitKernelModule = 4"

definition ExitDeviceNotFound :: int where "ExitDeviceNotFound = 5"

definition ExitDeviceBusy :: int where "ExitDeviceBusy = 6"

definition ExitProtocolMismatch :: int where "ExitProtocolMismatch = 7"

definition ExitNetwork :: int where "ExitNetwork = 8"

definition ExitTimeout :: int where "ExitTimeout = 9"

definition ExitNoFreePort :: int where "ExitNoFreePort = 10"

definition ExitProtocolError :: int where "ExitProtocolError = 11"

definition ExitAlreadyRunning :: int where "ExitAlreadyRunning = 12"

definition ExitInterrupted :: int where "ExitInterrupted = 130"

lemmas exit_codes = ExitOK_def ExitGeneric_def ExitUsage_def ExitPermission_def ExitKernelModule_def
  ExitDeviceNotFound_def ExitDeviceBusy_def ExitProtocolMismatch_def ExitNetwork_def ExitTimeout_def
  ExitNoFreePort_def ExitProtocolError_def ExitAlreadyRunning_def ExitInterrupted_def

definition errorRegistry :: "(sentinel \<times> int \<times> string) list" where
  "errorRegistry =
     [(Dom ErrPermission, ExitPermission,
         ''usbip-go: operation requires elevated privileges (CAP_SYS_ADMIN). Try: sudo usbip-go''),
      (Dom ErrKernelModuleMissing, ExitKernelModule, ''usbip-go: %s''),
      (Dom ErrDeviceNotFound, ExitDeviceNotFound, ''usbip-go: device not found: %s''),
      (Dom ErrDeviceAlreadyBound, ExitDeviceBusy, ''usbip-go: device is already bound: %s''),
      (Dom ErrPortInUse, ExitDeviceBusy, ''usbip-go: port is in use: %s''),
      (Dom ErrDeviceNotBound, ExitDeviceBusy, ''usbip-go: device is not bound: %s''),
      (Dom ErrProtocolMismatch, ExitProtocolMismatch, ''usbip-go: protocol mismatch: %s''),
      (Dom ErrNoFreePort, ExitNoFreePort, ''usbip-go: no free vhci port available: %s''),
      (Dom ErrProtocolError, ExitProtocolError, ''usbip-go: peer reported an error: %s''),
      (Io ContextDeadlineExceeded, ExitTimeout, ''usbip-go: operation timed out: %s''),
      (Io ContextCanceled, ExitInterrupted, ''usbip-go: operation interrupted: %s''),
      (Cli CliAlreadyRunning, ExitAlreadyRunning, ''usbip-go: another daemon instance is running''),
      (Cli DrainTimeout, ExitTimeout, ''usbip-go: drain timed out: %s''),
      (Cli StatusSocketDisabled, ExitUsage, ''%s''),
      (Cli DrainPollIntervalInvalid, ExitUsage, ''%s'')]"

definition cobraUsagePrefixes :: "string list" where
  "cobraUsagePrefixes =
     [''unknown flag'', ''unknown shorthand flag'', ''unknown command'', ''invalid argument'',
      ''flag needs an argument'', ''required flag(s)'', ''accepts '', ''requires at least'', ''at most'',
      ''none of the flags'', ''if any flags in the group'']"

definition isUsageError :: "(go_error \<Rightarrow> string) \<Rightarrow> go_error \<Rightarrow> bool" where
  "isUsageError text err \<longleftrightarrow>
     (if errors_Is err (Cli UsageError) then True else list_ex (Contains (text err)) cobraUsagePrefixes)"

definition MapError :: "(go_error \<Rightarrow> string) \<Rightarrow> go_error option \<Rightarrow> int" where
  "MapError text e =
     (case e of
        None \<Rightarrow> ExitOK
      | Some err \<Rightarrow>
          if isUsageError text err then ExitUsage
          else case find (\<lambda>(s, _, _). errors_Is err s) errorRegistry of
            Some (_, code, _) \<Rightarrow> code
          | None \<Rightarrow> if errors_Is err (Io NetError) then ExitNetwork else ExitGeneric)"

definition FormatError :: "(go_error \<Rightarrow> string) \<Rightarrow> go_error option \<Rightarrow> string" where
  "FormatError text e =
     (case e of
        None \<Rightarrow> []
      | Some err \<Rightarrow>
          if isUsageError text err then flattenErrorText (text err)
          else case find (\<lambda>(s, _, _). errors_Is err s) errorRegistry of
            Some (_, _, fmt) \<Rightarrow> if Contains fmt ''%s'' then sprintf_s fmt (flattenErrorText (text err)) else fmt
          | None \<Rightarrow>
              if errors_Is err (Io NetError) then ''usbip-go: network error: '' @ flattenErrorText (text err)
              else ''usbip-go: error: '' @ flattenErrorText (text err))"

section \<open>drain.go\<close>

text \<open>A GET's decoded body; \<open>None\<close> is a missing or null field.\<close>

record statusProbe =
  spSchema :: string
  spSessions :: "string list option"
  spListening :: "bool option option"

definition schemaVersion :: string where "schemaVersion = ''v1''"

text \<open>What \<open>client.Do\<close> yields: a transport error, or the status code and the outcome of reading and decoding.\<close>

type_synonym http_reply = "go_error + nat \<times> (go_error + statusProbe)"

definition http_ok :: "nat \<Rightarrow> bool" where
  "http_ok code \<longleftrightarrow> \<not> (code < 200 \<or> 300 \<le> code)"

definition isDaemonGoneError :: "go_error \<Rightarrow> bool" where
  "isDaemonGoneError err \<longleftrightarrow>
     (if errors_Is err (Io NetErrClosed) then True
      else if errors_Is err (Errno ECONNREFUSED) then True
      else Is_NotExist err)"

definition validateStatusProbe :: "statusProbe \<Rightarrow> go_error option" where
  "validateStatusProbe state =
     (if spSchema state \<noteq> schemaVersion then Some [Cli DrainStatusResponse]
      else case spSessions state of
        None \<Rightarrow> Some [Cli DrainStatusResponse]
      | Some _ \<Rightarrow>
          (case spListening state of
             None \<Rightarrow> Some [Cli DrainStatusResponse]
           | Some None \<Rightarrow> Some [Cli DrainStatusResponse]
           | Some (Some _) \<Rightarrow> None))"

definition probeStatusOnce :: "http_reply \<Rightarrow> go_error + bool" where
  "probeStatusOnce reply =
     (case reply of
        Inl err \<Rightarrow> if isDaemonGoneError err then Inr True else Inl err
      | Inr (code, body) \<Rightarrow>
          if \<not> http_ok code then Inl [Cli DrainStatusResponse]
          else case body of
            Inl err \<Rightarrow> Inl err
          | Inr state \<Rightarrow>
              (case validateStatusProbe state of
                 Some err \<Rightarrow> Inl err
               | None \<Rightarrow> Inr (length (the (spSessions state)) = 0 \<and> \<not> the (the (spListening state)))))"

text \<open>Waiting for the next tick: a tick, or the context ended with this cause and error.\<close>

datatype poll_wait = PollTick | PollCtx "go_error option" go_error

definition waitNextPoll :: "poll_wait \<Rightarrow> go_error option" where
  "waitNextPoll w =
     (case w of
        PollTick \<Rightarrow> None
      | PollCtx cause ctxErr \<Rightarrow>
          (case cause of
             Some c \<Rightarrow> if \<not> errors_Is c (Io ContextDeadlineExceeded) then Some c else Some ctxErr
           | None \<Rightarrow> Some ctxErr))"

text \<open>\<open>None\<close>: still polling when the given rounds are over.\<close>

fun pollUntilIdle :: "(http_reply \<times> poll_wait) list \<Rightarrow> go_error option option" where
  "pollUntilIdle [] = None"
| "pollUntilIdle ((reply, w) # rounds) =
     (case probeStatusOnce reply of
        Inl err \<Rightarrow> Some (Some err)
      | Inr done' \<Rightarrow>
          if done' then Some None
          else case waitNextPoll w of
            Some err \<Rightarrow> Some (Some err)
          | None \<Rightarrow> pollUntilIdle rounds)"

definition postDrain :: "go_error + nat \<Rightarrow> go_error option" where
  "postDrain reply =
     (case reply of
        Inl err \<Rightarrow> Some err
      | Inr code \<Rightarrow> if \<not> http_ok code then Some [Cli DrainPostFailed] else None)"

definition runDrain :: "string \<Rightarrow> int \<Rightarrow> go_error + nat \<Rightarrow> (http_reply \<times> poll_wait) list \<Rightarrow> go_error option option" where
  "runDrain socketPath pollInterval post rounds =
     (if socketPath = [] then Some (Some [Cli StatusSocketDisabled])
      else if pollInterval \<le> 0 then Some (Some [Cli DrainPollIntervalInvalid])
      else case postDrain post of
        Some err \<Rightarrow> Some (Some err)
      | None \<Rightarrow>
          (case pollUntilIdle rounds of
             None \<Rightarrow> None
           | Some None \<Rightarrow> Some None
           | Some (Some err) \<Rightarrow>
               if errors_Is err (Io ContextDeadlineExceeded) then Some (Some [Cli DrainTimeout])
               else Some (Some err)))"

section \<open>Lemmas\<close>

lemma flatten_one_line: "CHR 0x0A \<notin> set (flattenErrorText s) \<and> CHR 0x0D \<notin> set (flattenErrorText s)"
  by (auto simp: flattenErrorText_def Let_def split: if_splits)

lemma sprintf_set: "set (sprintf_s f s) \<subseteq> set f \<union> set s"
  by (induction f s rule: sprintf_s.induct) auto

lemma registry_formats: "\<forall>(s, code, fmt)\<in>set errorRegistry. code \<noteq> 0 \<and> CHR 0x0A \<notin> set fmt \<and> CHR 0x0D \<notin> set fmt"
  by (simp add: errorRegistry_def exit_codes)

lemma find_registry:
  assumes "find (\<lambda>(s, _, _). errors_Is err s) errorRegistry = Some (s, code, fmt)"
  shows "errors_Is err s \<and> code \<noteq> 0 \<and> CHR 0x0A \<notin> set fmt \<and> CHR 0x0D \<notin> set fmt"
proof -
  have "(s, code, fmt) \<in> set errorRegistry" "errors_Is err s"
    using assms by (auto simp: find_Some_iff) (metis nth_mem)
  thus ?thesis
    using registry_formats by blast
qed

text \<open>Evidence that the daemon is idle: it is gone, or says that it has no session and accepts none.\<close>

definition idle_evidence :: "http_reply \<Rightarrow> bool" where
  "idle_evidence reply \<longleftrightarrow>
     (\<exists>err. reply = Inl err \<and> (errors_Is err (Io NetErrClosed) \<or> errors_Is err (Errno ECONNREFUSED) \<or> Is_NotExist err))
     \<or> (\<exists>code state. reply = Inr (code, Inr state) \<and> 200 \<le> code \<and> code < 300 \<and> spSchema state = schemaVersion
          \<and> spSessions state = Some [] \<and> spListening state = Some (Some False))"

lemma probe_idle: "probeStatusOnce reply = Inr True \<longleftrightarrow> idle_evidence reply"
  by (auto simp: probeStatusOnce_def idle_evidence_def validateStatusProbe_def isDaemonGoneError_def http_ok_def
      split: sum.splits option.splits prod.splits if_splits)

lemma poll_cases:
  "pollUntilIdle rounds = Some None \<longleftrightarrow>
     (\<exists>i<length rounds. idle_evidence (fst (rounds ! i))
        \<and> (\<forall>j<i. probeStatusOnce (fst (rounds ! j)) = Inr False \<and> snd (rounds ! j) = PollTick))"
proof (induction rounds rule: pollUntilIdle.induct)
  case (2 reply w rounds)
  have tick: "waitNextPoll w = None \<longleftrightarrow> w = PollTick"
    by (auto simp: waitNextPoll_def split: poll_wait.splits option.splits)
  show ?case
    using 2 probe_idle [of reply] tick
    by (cases "probeStatusOnce reply") (auto simp: Ex_less_Suc2 All_less_Suc2 split: option.splits)
qed simp

section \<open>Properties\<close>

text \<open>C39: \<open>drain\<close> reports success exactly on evidence.  It succeeds if and only if it was given a socket and a
  positive interval, the daemon accepted the request, and after some rounds that each found the daemon
  still busy and ended with a tick, one found it gone or found a well-formed version 1 answer with no session
  and not accepting; anything else (another transport error, another status, a missing field, another
  schema, the context's end) is an error or keeps it polling.\<close>
theorem drain_truthful:
  "runDrain socketPath pollInterval post rounds = Some None \<longleftrightarrow>
     socketPath \<noteq> [] \<and> 0 < pollInterval \<and> (\<exists>code. post = Inr code \<and> 200 \<le> code \<and> code < 300)
     \<and> (\<exists>i<length rounds. idle_evidence (fst (rounds ! i))
          \<and> (\<forall>j<i. probeStatusOnce (fst (rounds ! j)) = Inr False \<and> snd (rounds ! j) = PollTick))"
proof -
  have post: "postDrain post = None \<longleftrightarrow> (\<exists>code. post = Inr code \<and> 200 \<le> code \<and> code < 300)"
    by (auto simp: postDrain_def http_ok_def split: sum.splits)
  have "runDrain socketPath pollInterval post rounds = Some None \<longleftrightarrow>
      socketPath \<noteq> [] \<and> 0 < pollInterval \<and> postDrain post = None \<and> pollUntilIdle rounds = Some None"
    by (auto simp: runDrain_def split: option.splits)
  thus ?thesis
    using post poll_cases by simp
qed

definition sample_rounds :: "(http_reply \<times> poll_wait) list" where
  "sample_rounds =
     [(Inr (200, Inr \<lparr>spSchema = ''v1'', spSessions = Some [''a''], spListening = Some (Some False)\<rparr>), PollTick),
      (Inl [Errno ECONNREFUSED], PollTick)]"

theorem drain_truthful_witness: "runDrain ''/run/s'' 200 (Inr 202) sample_rounds = Some None"
proof -
  have "idle_evidence (fst (sample_rounds ! 1))"
    by (simp add: sample_rounds_def idle_evidence_def)
  moreover have "\<forall>j<1. probeStatusOnce (fst (sample_rounds ! j)) = Inr False \<and> snd (sample_rounds ! j) = PollTick"
    by (simp add: sample_rounds_def probeStatusOnce_def http_ok_def validateStatusProbe_def schemaVersion_def)
  moreover have "1 < length sample_rounds"
    by (simp add: sample_rounds_def)
  ultimately show ?thesis
    using drain_truthful [of "''/run/s''" 200 "Inr 202" sample_rounds] by auto
qed

text \<open>The exit code and the message keep their contract for every error and every error text.  The exit code
  is 0 exactly when there is no error, and the message has no line break in it, whatever the error's text
  contains.\<close>
theorem exit_contract:
  "(MapError text e = ExitOK \<longleftrightarrow> e = None)
    \<and> CHR 0x0A \<notin> set (FormatError text e) \<and> CHR 0x0D \<notin> set (FormatError text e)"
proof -
  have map: "MapError text (Some err) \<noteq> ExitOK" for err
    using find_registry [of err] by (auto simp: MapError_def exit_codes split: option.splits)
  have "CHR 0x0A \<notin> set (FormatError text (Some err)) \<and> CHR 0x0D \<notin> set (FormatError text (Some err))" for err
  proof (cases "find (\<lambda>(s, _, _). errors_Is err s) errorRegistry")
    case None
    thus ?thesis
      using flatten_one_line [of "text err"] by (simp add: FormatError_def)
  next
    case (Some x)
    obtain s code fmt where x: "x = (s, code, fmt)"
      by (cases x)
    show ?thesis
      using find_registry [OF Some [unfolded x]] Some flatten_one_line [of "text err"]
        sprintf_set [of fmt "flattenErrorText (text err)"]
      by (auto simp: FormatError_def x)
  qed
  thus ?thesis
    using map by (cases e) (simp_all add: MapError_def FormatError_def)
qed

text \<open>An error of a \<open>detach\<close> that the kernel refused with \<open>EINVAL\<close> is reported as a usage error.  The adapter
  classifies it as a device that is not bound, for which the table has exit code 6, but the text of \<open>EINVAL\<close> is
  one of the phrases by which the command recognises usage errors, and these are looked for first.\<close>
theorem detach_einval_usage:
  assumes law: "\<And>err. errors_Is err (Errno EINVAL) \<Longrightarrow> Contains (text err) ''invalid argument''"
    and "DetachPort env hist p = Some (Some err, hist')" "errors_Is err (Errno EINVAL)" "hist' \<noteq> hist"
  shows "errors_Is err (Dom ErrDeviceNotBound) \<and> (Dom ErrDeviceNotBound, ExitDeviceBusy) \<in> (\<lambda>(s, c, _). (s, c)) ` set errorRegistry
    \<and> MapError text (Some err) = ExitUsage"
proof -
  have "\<exists>e h. DetachPort env hist p = Some (Some (Dom ErrDeviceNotBound # e), h) \<or> \<not> errors_Is err (Errno EINVAL) \<or> hist' = hist"
    using assms(2,3) by (auto simp: DetachPort_def Let_def split: option.splits sum.splits prod.splits if_splits bind_splits)
  hence "errors_Is err (Dom ErrDeviceNotBound)"
    using assms(2-4) by auto
  moreover have "isUsageError text err"
    using law [OF assms(3)] by (simp add: isUsageError_def cobraUsagePrefixes_def)
  moreover have "(Dom ErrDeviceNotBound, ExitDeviceBusy) \<in> (\<lambda>(s, c, _). (s, c)) ` set errorRegistry"
    by (simp add: errorRegistry_def)
  ultimately show ?thesis
    by (simp add: MapError_def)
qed

definition einval_env :: kernel_env where
  "einval_env = sample_ports_env\<lparr>keWrite := (\<lambda>_ _ _. Some [Errno EINVAL])\<rparr>"

definition einval_text :: "go_error \<Rightarrow> string" where
  "einval_text err = (if errors_Is err (Errno EINVAL) then ''invalid argument'' else [])"

lemma einval_detach: "\<exists>err h. DetachPort einval_env [] 0 = Some (Some err, h) \<and> errors_Is err (Errno EINVAL) \<and> h \<noteq> []"
proof -
  have "validatePortInRange (Topology_Status sample_topology) 0 = None"
    by (simp add: validatePortInRange_def Topology_Status_def sample_topology_def)
  moreover have "statusForPort (map row_view sample_rows) 0 = (StatusUsed, True)" "\<not> isFreeStatus StatusUsed"
    by (simp_all add: sample_views isFreeStatus_def StatusNull_def StatusAvailable_def StatusUsed_def)
  moreover have "errors_Is (classifyFSErr detach_path [Errno EINVAL]) (Errno EINVAL)"
    by (simp add: classifyFSErr_def classifyErrAny_def Is_NotExist_def errnos ClassifyErrno_def classifyErrnoKind_def)
  ultimately show ?thesis
    using sample_ports_topology sample_status_rows sample_modules
    by (simp add: DetachPort_def einval_env_def sample_ports_env_def writeClassified_def sysfs_write_def detach_path_def Let_def errors_Is_def)
qed

theorem detach_einval_usage_witness:
  "\<exists>err h. DetachPort einval_env [] 0 = Some (Some err, h) \<and> MapError einval_text (Some err) = ExitUsage"
proof -
  obtain err h where d: "DetachPort einval_env [] 0 = Some (Some err, h)" "errors_Is err (Errno EINVAL)" "h \<noteq> []"
    using einval_detach by blast
  have "Contains (einval_text e) ''invalid argument''" if "errors_Is e (Errno EINVAL)" for e
    using that by (simp add: einval_text_def Contains_def HasPrefix_def upt_rec)
  from detach_einval_usage [of einval_text, OF this d] d(1) show ?thesis
    by blast
qed

end
