(* ===== verification/Cli_Daemon.thy ===== *)
theory Cli_Daemon
  imports Go_Text
begin

text \<open>
  \<open>cmd/usbip-go/activation.go\<close> and \<open>serve.go\<close>: where the daemon's listener comes from and the life of the
  daemon.  The listeners systemd hands over are numbers (file descriptors); a map from names to
  listeners is an association list whose order is the order Go iterates it in, which no theorem
  depends on.  \<open>runDaemonWithDependencies\<close> is the sequence of its effects, with Go's stack of deferred calls
  written out: what the listener, the exporter, the health server and the status server answer are
  parameters.
\<close>

section \<open>activation.go\<close>

definition activationFdName :: string where "activationFdName = ''usbip-go''"

type_synonym named_listeners = "(string \<times> nat list) list"

definition closeListenersExcept :: "named_listeners \<Rightarrow> nat \<Rightarrow> nat list" where
  "closeListenersExcept named selected = concat (map (\<lambda>(_, listeners). filter (\<lambda>l. l \<noteq> selected) listeners) named)"

fun firstSingletonListenerName :: "named_listeners \<Rightarrow> string" where
  "firstSingletonListenerName [] = []"
| "firstSingletonListenerName ((name, ls) # named) =
     (if length ls = 1 then name else firstSingletonListenerName named)"

definition countListeners :: "named_listeners \<Rightarrow> nat" where
  "countListeners named = foldl (\<lambda>total (_, ls). total + length ls) 0 named"

fun firstSingletonListener :: "named_listeners \<Rightarrow> nat option" where
  "firstSingletonListener [] = None"
| "firstSingletonListener ((_, ls) # named) =
     (if length ls = 1 then Some (hd ls) else firstSingletonListener named)"

definition closeAllListeners :: "named_listeners \<Rightarrow> nat list" where
  "closeAllListeners named = concat (map snd named)"

text \<open>The listener with the flag that distinguishes it from "none was handed over", and the listeners closed;
  a nil listener is \<open>None\<close>.\<close>

definition pickNamedListener :: "named_listeners \<Rightarrow> (go_error + nat option \<times> bool) \<times> nat list" where
  "pickNamedListener named =
     (let total = countListeners named;
          fallback =
            (if total = 1 then (Inr (firstSingletonListener named, True), [])
             else if 1 < total then (Inl [Cli AmbiguousSocketNames], closeAllListeners named)
             else (Inr (None, False), []))
      in case map_of named activationFdName of
           Some [selected] \<Rightarrow> (Inr (Some selected, True), closeListenersExcept named selected)
         | _ \<Rightarrow> fallback)"

text \<open>\<open>named\<close> is the answer of \<open>activation.ListenersWithNames\<close>, \<open>listen\<close> that of \<open>net.Listen\<close>.\<close>

definition listenOrActivation :: "go_error + named_listeners \<Rightarrow> go_error + nat \<Rightarrow> (go_error + nat option) \<times> nat list" where
  "listenOrActivation named listen =
     (let plain = (case listen of Inl err \<Rightarrow> Inl err | Inr l \<Rightarrow> Inr (Some l))
      in case named of
           Inl _ \<Rightarrow> (plain, [])
         | Inr nm \<Rightarrow>
             if nm = [] then (plain, [])
             else case pickNamedListener nm of
                    (Inl perr, closed) \<Rightarrow> (Inl perr, closed)
                  | (Inr (lis, activated), closed) \<Rightarrow> if activated then (Inr lis, closed) else (plain, closed))"

section \<open>serve.go: systemdActivated\<close>

text \<open>\<open>strconv.Atoi\<close> of a 64-bit int.\<close>

definition Atoi :: "string \<Rightarrow> go_error + int" where
  "Atoi s =
     (let neg = (s \<noteq> [] \<and> hd s = CHR ''-'');
          digits = (if s \<noteq> [] \<and> (hd s = CHR ''-'' \<or> hd s = CHR ''+'') then tl s else s)
      in case ParseUint digits 10 64 of
           Inl err \<Rightarrow> Inl err
         | Inr n \<Rightarrow>
             if \<not> neg \<and> 2 ^ 63 \<le> n \<or> neg \<and> 2 ^ 63 < n then Inl [Io StrconvErrRange]
             else Inr (if neg then - int n else int n))"

definition systemdActivated :: "string \<Rightarrow> string \<Rightarrow> nat \<Rightarrow> bool" where
  "systemdActivated pid fds getpid =
     (if pid = [] \<or> fds = [] then False
      else if pid \<noteq> FormatUint getpid then False
      else case Atoi fds of Inl _ \<Rightarrow> False | Inr n \<Rightarrow> 0 < n)"

section \<open>serve.go: runDaemon\<close>

datatype daemon_event =
    EvListen | ListenerClose "nat option" | BuildExporter | HealthStart | HealthStop | SetDrain | StatusStart
  | RemoveSocket string | ExporterServe | MarkAccepting bool | ExporterShutdown | CancelServe | CancelStatus
  | AwaitStatus

record ServeConfig =
  HealthAddr :: string
  StatusSocket :: string

text \<open>How the status goroutine answered within the budget: it signalled \<open>started\<close>, it returned first, or neither.\<close>

datatype status_start = StatusStarted | StatusExited "go_error option" | StatusNotReady

record daemon_env =
  deListen :: "go_error + nat option"
  deBuildExporter :: "go_error option"
  deHealth :: "go_error option"
  deStatus :: status_start
  deServe :: "go_error option"

text \<open>The effects so far, the deferred calls (the latest first) and the flag of \<open>sync.OnceFunc\<close>.\<close>

record daemon_run =
  drTrace :: "daemon_event list"
  drDefers :: "daemon_event list"
  drOnce :: bool

definition emit :: "daemon_event \<Rightarrow> daemon_run \<Rightarrow> daemon_run" where
  "emit ev r = r\<lparr>drTrace := drTrace r @ [ev]\<rparr>"

definition defer_call :: "daemon_event \<Rightarrow> daemon_run \<Rightarrow> daemon_run" where
  "defer_call ev r = r\<lparr>drDefers := ev # drDefers r\<rparr>"

definition shutdownExporter :: "daemon_run \<Rightarrow> daemon_run" where
  "shutdownExporter r = (if drOnce r then r else (emit ExporterShutdown r)\<lparr>drOnce := True\<rparr>)"

definition run_deferred :: "daemon_event \<Rightarrow> daemon_run \<Rightarrow> daemon_run" where
  "run_deferred ev r = (if ev = ExporterShutdown then shutdownExporter r else emit ev r)"

text \<open>Returning runs the deferred calls, the latest first.\<close>

definition go_return :: "go_error option \<Rightarrow> daemon_run \<Rightarrow> daemon_event list \<times> go_error option" where
  "go_return err r = (drTrace (fold run_deferred (drDefers r) (r\<lparr>drDefers := []\<rparr>)), err)"

definition finishDaemonShutdown :: "daemon_run \<Rightarrow> daemon_run" where
  "finishDaemonShutdown r = emit CancelStatus (shutdownExporter r)"

definition isExpectedServeExit :: "go_error \<Rightarrow> bool" where
  "isExpectedServeExit err \<longleftrightarrow> errors_Is err (Io ContextCanceled) \<or> errors_Is err (Io NetErrClosed)"

text \<open>The stop function, when the endpoint is enabled, or the error of binding it.\<close>

definition maybeStartHealthServer :: "ServeConfig \<Rightarrow> go_error option \<Rightarrow> daemon_run \<Rightarrow> (go_error + bool) \<times> daemon_run" where
  "maybeStartHealthServer cfg health r =
     (if HealthAddr cfg = [] then (Inr False, r)
      else case health of
             Some err \<Rightarrow> (Inl err, r)
           | None \<Rightarrow> (Inr True, emit HealthStart r))"

text \<open>Whether there is an error channel, whether the socket was bound, and the error that aborts the daemon.\<close>

definition maybeStartStatusServer :: "ServeConfig \<Rightarrow> status_start \<Rightarrow> daemon_run \<Rightarrow> (bool \<times> bool \<times> go_error option) \<times> daemon_run" where
  "maybeStartStatusServer cfg status r =
     (if StatusSocket cfg = [] then ((False, False, None), r)
      else (case status of
              StatusStarted \<Rightarrow> (True, True, None)
            | StatusExited err \<Rightarrow> (False, False, err)
            | StatusNotReady \<Rightarrow> (True, False, None), emit StatusStart r))"

definition completeShutdown :: "bool \<Rightarrow> go_error option \<Rightarrow> daemon_run \<Rightarrow> daemon_event list \<times> go_error option" where
  "completeShutdown statusErrCh serveErr r =
     (let r = (if statusErrCh then emit AwaitStatus r else r)
      in case serveErr of
           None \<Rightarrow> go_return None r
         | Some err \<Rightarrow> if isExpectedServeExit err then go_return None r else go_return (Some err) r)"

text \<open>The part from a running health server on: the status server, serving, and the ordered shutdown.\<close>

definition daemon_serve :: "ServeConfig \<Rightarrow> daemon_env \<Rightarrow> daemon_run \<Rightarrow> daemon_event list \<times> go_error option" where
  "daemon_serve cfg env r =
     (case maybeStartStatusServer cfg (deStatus env) (emit SetDrain r) of
        ((statusErrCh, statusBound, Some statusStartErr), r) \<Rightarrow> go_return (Some statusStartErr) r
      | ((statusErrCh, statusBound, None), r) \<Rightarrow>
          (let r = (if statusBound then defer_call (RemoveSocket (StatusSocket cfg)) r else r);
               r = emit ExporterServe r;
               r = emit (MarkAccepting False) r;
               r = finishDaemonShutdown r
           in completeShutdown statusErrCh (deServe env) r))"

definition runDaemonWithDependencies :: "ServeConfig \<Rightarrow> daemon_env \<Rightarrow> daemon_event list \<times> go_error option" where
  "runDaemonWithDependencies cfg env =
     (let r = \<lparr>drTrace = [EvListen], drDefers = [], drOnce = False\<rparr>
      in case deListen env of
           Inl err \<Rightarrow> go_return (Some err) r
         | Inr listener \<Rightarrow>
             (let r = defer_call (ListenerClose listener) r;
                  r = emit BuildExporter r
              in case deBuildExporter env of
                   Some err \<Rightarrow> go_return (Some err) r
                 | None \<Rightarrow>
                     (let r = defer_call CancelServe r;
                          r = defer_call CancelStatus r
                      in case maybeStartHealthServer cfg (deHealth env) r of
                           (Inl err, r) \<Rightarrow> go_return (Some err) r
                         | (Inr healthStop, r) \<Rightarrow>
                             (let r = defer_call ExporterShutdown r;
                                  r = (if healthStop then defer_call HealthStop r else r)
                              in daemon_serve cfg env r))))"

text \<open>\<open>runDaemon\<close>: the production listener.  The listeners closed by the choice come before the daemon's own effects.\<close>

definition runDaemon :: "ServeConfig \<Rightarrow> go_error + named_listeners \<Rightarrow> go_error + nat \<Rightarrow> daemon_env \<Rightarrow>
    nat list \<times> daemon_event list \<times> go_error option" where
  "runDaemon cfg named listen env =
     (case listenOrActivation named listen of
        (lis, closed) \<Rightarrow> (closed, runDaemonWithDependencies cfg (env\<lparr>deListen := lis\<rparr>)))"

section \<open>Activation hands over every descriptor once\<close>

definition handed :: "named_listeners \<Rightarrow> nat list" where
  "handed named = concat (map snd named)"

lemma countListeners_handed: "countListeners named = length (handed named)"
proof -
  have "foldl (\<lambda>total (_, ls). total + length ls) k named = k + length (handed named)" for k
    by (induction named arbitrary: k) (auto simp: handed_def)
  thus ?thesis
    by (simp add: countListeners_def)
qed

lemma handed_nil: "handed named = [] \<Longrightarrow> handed (x # named) = snd x"
  by (simp add: handed_def)

lemma firstSingletonListener_one: "handed named = [fd] \<Longrightarrow> firstSingletonListener named = Some fd"
proof (induction named)
  case (Cons x named)
  obtain name ls where x: "x = (name, ls)"
    by (cases x)
  hence "ls @ handed named = [fd]"
    using Cons.prems by (simp add: handed_def)
  thus ?case
    using Cons.IH x by (cases ls) auto
qed (simp add: handed_def)

lemma closeListenersExcept_handed: "closeListenersExcept named fd = filter (\<lambda>l. l \<noteq> fd) (handed named)"
  by (induction named) (auto simp: closeListenersExcept_def handed_def)

lemma map_of_handed: "map_of named name = Some ls \<Longrightarrow> set ls \<subseteq> set (handed named)"
  by (drule map_of_SomeD) (force simp: handed_def)

definition named_exactly_one :: "named_listeners \<Rightarrow> nat option" where
  "named_exactly_one named = (case map_of named activationFdName of Some [fd] \<Rightarrow> Some fd | _ \<Rightarrow> None)"

lemma pickNamedListener_cases:
  "pickNamedListener named =
     (case named_exactly_one named of
        Some fd \<Rightarrow> (Inr (Some fd, True), filter (\<lambda>l. l \<noteq> fd) (handed named))
      | None \<Rightarrow>
          (case handed named of
             [] \<Rightarrow> (Inr (None, False), [])
           | [fd] \<Rightarrow> (Inr (Some fd, True), [])
           | _ \<Rightarrow> (Inl [Cli AmbiguousSocketNames], handed named)))"
proof -
  have one: "handed named = [fd] \<Longrightarrow> firstSingletonListener named = Some fd" for fd
    by (rule firstSingletonListener_one)
  have all: "closeAllListeners named = handed named"
    by (simp add: closeAllListeners_def handed_def)
  show ?thesis
    unfolding pickNamedListener_def named_exactly_one_def countListeners_handed closeListenersExcept_handed all Let_def
    using one by (auto split: option.splits list.splits)
qed

lemma pickNamedListener_owned:
  assumes "distinct (handed named)" "pickNamedListener named = (res, closed)"
  shows "distinct closed \<and> (case res of
           Inl _ \<Rightarrow> set closed = set (handed named)
         | Inr (Some fd, activated) \<Rightarrow> activated \<and> fd \<notin> set closed \<and> insert fd (set closed) = set (handed named)
         | Inr (None, activated) \<Rightarrow> \<not> activated \<and> closed = [] \<and> handed named = [])"
proof (cases "named_exactly_one named")
  case None
  obtain h where h: "handed named = h"
    by simp
  show ?thesis
    using assms None unfolding pickNamedListener_cases h by (auto split: list.splits)
next
  case (Some fd)
  then obtain ls where "map_of named activationFdName = Some ls" "ls = [fd]"
    by (auto simp: named_exactly_one_def split: option.splits list.splits)
  hence "fd \<in> set (handed named)"
    using map_of_handed by fastforce
  thus ?thesis
    using assms Some by (auto simp: pickNamedListener_cases)
qed

section \<open>The life of the daemon\<close>

text \<open>No \<open>b\<close> happens before the first \<open>a\<close>.\<close>

definition after_first :: "'a \<Rightarrow> 'a \<Rightarrow> 'a list \<Rightarrow> bool" where
  "after_first a b xs \<longleftrightarrow> b \<notin> set (takeWhile (\<lambda>x. x \<noteq> a) xs)"

lemmas daemon_defs = runDaemonWithDependencies_def daemon_serve_def completeShutdown_def maybeStartStatusServer_def
  maybeStartHealthServer_def finishDaemonShutdown_def go_return_def run_deferred_def shutdownExporter_def
  defer_call_def emit_def Let_def

text \<open>Whether the exporter is up and its shutdown registered: the listener, the exporter and the health server all started.\<close>

definition exporter_up :: "ServeConfig \<Rightarrow> daemon_env \<Rightarrow> bool" where
  "exporter_up cfg env \<longleftrightarrow> (\<exists>lis. deListen env = Inr lis) \<and> deBuildExporter env = None
     \<and> (HealthAddr cfg = [] \<or> deHealth env = None)"

text \<open>Whether the status server let the daemon go on.\<close>

definition status_ok :: "ServeConfig \<Rightarrow> daemon_env \<Rightarrow> bool" where
  "status_ok cfg env \<longleftrightarrow> StatusSocket cfg = [] \<or> (\<forall>err. deStatus env \<noteq> StatusExited (Some err))"

text \<open>The shutdown half, once the exporter's shutdown is registered: \<open>ds\<close> are the calls deferred before it.\<close>

lemma daemon_serve_trace:
  assumes "status_ok cfg env"
  shows "daemon_serve cfg env \<lparr>drTrace = tr, drDefers = ds, drOnce = False\<rparr> =
    (let r = \<lparr>drTrace = tr @ [SetDrain] @ (if StatusSocket cfg = [] then [] else [StatusStart])
               @ [ExporterServe, MarkAccepting False, ExporterShutdown, CancelStatus]
               @ (if StatusSocket cfg \<noteq> [] \<and> deStatus env \<noteq> StatusExited None then [AwaitStatus] else []),
             drDefers = (if StatusSocket cfg \<noteq> [] \<and> deStatus env = StatusStarted then [RemoveSocket (StatusSocket cfg)] else []) @ ds,
             drOnce = True\<rparr>
     in go_return (case deServe env of None \<Rightarrow> None | Some err \<Rightarrow> if isExpectedServeExit err then None else Some err) r)"
proof (cases "StatusSocket cfg = []")
  case True
  thus ?thesis
    by (simp add: daemon_serve_def completeShutdown_def maybeStartStatusServer_def finishDaemonShutdown_def shutdownExporter_def
        emit_def defer_call_def Let_def split: option.split)
next
  case False
  show ?thesis
  proof (cases "deStatus env")
    case (StatusExited err)
    with assms False have "err = None"
      by (cases err) (auto simp: status_ok_def)
    with False StatusExited show ?thesis
      by (simp add: daemon_serve_def completeShutdown_def maybeStartStatusServer_def finishDaemonShutdown_def shutdownExporter_def
          emit_def defer_call_def Let_def split: option.split)
  qed (use False in \<open>simp_all add: daemon_serve_def completeShutdown_def maybeStartStatusServer_def finishDaemonShutdown_def
        shutdownExporter_def emit_def defer_call_def Let_def split: option.split\<close>)
qed

lemma go_return_trace:
  "fst (go_return err \<lparr>drTrace = tr, drDefers = [], drOnce = b\<rparr>) = tr"
  "ev \<noteq> ExporterShutdown \<Longrightarrow> fst (go_return err \<lparr>drTrace = tr, drDefers = ev # ds, drOnce = b\<rparr>)
     = fst (go_return err \<lparr>drTrace = tr @ [ev], drDefers = ds, drOnce = b\<rparr>)"
  "fst (go_return err \<lparr>drTrace = tr, drDefers = ExporterShutdown # ds, drOnce = True\<rparr>)
     = fst (go_return err \<lparr>drTrace = tr, drDefers = ds, drOnce = True\<rparr>)"
  "fst (go_return err \<lparr>drTrace = tr, drDefers = ExporterShutdown # ds, drOnce = False\<rparr>)
     = fst (go_return err \<lparr>drTrace = tr @ [ExporterShutdown], drDefers = ds, drOnce = True\<rparr>)"
  "snd (go_return err r) = err"
  by (simp_all add: go_return_def run_deferred_def shutdownExporter_def emit_def)

lemma daemon_trace_serving:
  assumes "exporter_up cfg env" "status_ok cfg env" "deListen env = Inr lis"
  shows "runDaemonWithDependencies cfg env =
    ([EvListen, BuildExporter] @ (if HealthAddr cfg = [] then [] else [HealthStart]) @ [SetDrain]
       @ (if StatusSocket cfg = [] then [] else [StatusStart])
       @ [ExporterServe, MarkAccepting False, ExporterShutdown, CancelStatus]
       @ (if StatusSocket cfg \<noteq> [] \<and> deStatus env \<noteq> StatusExited None then [AwaitStatus] else [])
       @ (if StatusSocket cfg \<noteq> [] \<and> deStatus env = StatusStarted then [RemoveSocket (StatusSocket cfg)] else [])
       @ (if HealthAddr cfg = [] then [] else [HealthStop]) @ [CancelStatus, CancelServe, ListenerClose lis],
     case deServe env of None \<Rightarrow> None | Some err \<Rightarrow> if isExpectedServeExit err then None else Some err)"
  using assms(1,3) by (auto simp: exporter_up_def runDaemonWithDependencies_def maybeStartHealthServer_def defer_call_def emit_def
      daemon_serve_trace [OF assms(2)] go_return_trace prod_eq_iff Let_def)

text \<open>The start that fails: the deferred calls registered so far, in reverse.\<close>

lemma daemon_trace_status_failed:
  assumes "exporter_up cfg env" "\<not> status_ok cfg env" "deListen env = Inr lis"
  shows "\<exists>err. deStatus env = StatusExited (Some err) \<and> runDaemonWithDependencies cfg env =
    ([EvListen, BuildExporter] @ (if HealthAddr cfg = [] then [] else [HealthStart]) @ [SetDrain, StatusStart]
       @ (if HealthAddr cfg = [] then [] else [HealthStop]) @ [ExporterShutdown, CancelStatus, CancelServe, ListenerClose lis],
     Some err)"
  using assms by (auto simp: exporter_up_def status_ok_def runDaemonWithDependencies_def maybeStartHealthServer_def daemon_serve_def
      maybeStartStatusServer_def defer_call_def emit_def go_return_trace prod_eq_iff Let_def)

lemma daemon_trace_down:
  assumes "\<not> exporter_up cfg env"
  shows "\<exists>err tr. runDaemonWithDependencies cfg env = (tr, Some err)
    \<and> tr = (case deListen env of
              Inl _ \<Rightarrow> [EvListen]
            | Inr lis \<Rightarrow> if deBuildExporter env = None then [EvListen, BuildExporter, CancelStatus, CancelServe, ListenerClose lis]
                         else [EvListen, BuildExporter, ListenerClose lis])"
  using assms by (auto simp: exporter_up_def runDaemonWithDependencies_def maybeStartHealthServer_def defer_call_def emit_def
      go_return_trace prod_eq_iff Let_def split: sum.splits option.splits)


definition sample_cfg :: ServeConfig where
  "sample_cfg = \<lparr>HealthAddr = '':9090'', StatusSocket = ''/run/usbip-go/status.sock''\<rparr>"

definition sample_daemon_env :: daemon_env where
  "sample_daemon_env = \<lparr>deListen = Inr (Some 3), deBuildExporter = None, deHealth = None, deStatus = StatusStarted,
     deServe = Some [Io ContextCanceled]\<rparr>"


lemma runDaemon_closes_last: "deListen env = Inr lis \<Longrightarrow> last (fst (runDaemonWithDependencies cfg env)) = ListenerClose lis"
  using daemon_trace_down [of cfg env] daemon_trace_status_failed [of cfg env lis] daemon_trace_serving [of cfg env lis]
  by (cases "exporter_up cfg env"; cases "status_ok cfg env") auto

lemma runDaemon_no_listener: "deListen env = Inl err \<Longrightarrow> runDaemonWithDependencies cfg env = ([EvListen], Some err)"
  by (simp add: runDaemonWithDependencies_def go_return_def)

lemma listenOrActivation_cases:
  "listenOrActivation (Inr named) listen =
     (case named_exactly_one named of
        Some fd \<Rightarrow> (Inr (Some fd), filter (\<lambda>l. l \<noteq> fd) (handed named))
      | None \<Rightarrow>
          (case handed named of
             [] \<Rightarrow> (map_sum id Some listen, [])
           | [fd] \<Rightarrow> (Inr (Some fd), [])
           | _ \<Rightarrow> (Inl [Cli AmbiguousSocketNames], handed named)))"
proof -
  have "named = [] \<Longrightarrow> named_exactly_one named = None \<and> handed named = []"
    by (simp add: named_exactly_one_def handed_def)
  moreover have "(case listen of Inl err \<Rightarrow> Inl err | Inr l \<Rightarrow> Inr (Some l)) = map_sum id Some listen"
    by (cases listen) auto
  ultimately show ?thesis
    by (auto simp: listenOrActivation_def pickNamedListener_cases Let_def split: option.split list.split)
qed

text \<open>Systemd transfers the ownership of every descriptor it passes, and the daemon loses none and closes none twice.
  The descriptors closed while choosing are pairwise different; each descriptor handed over is either among them or is
  the one the daemon runs on, which its last effect closes; when the choice is ambiguous all are closed and the
  daemon fails.  The label decides first, a single descriptor is taken whatever its label.\<close>

theorem activation_no_leak:
  assumes "distinct (handed named)"
  shows "case runDaemon cfg (Inr named) listen env of
     (closed, tr, res) \<Rightarrow>
       distinct closed \<and> set closed \<subseteq> set (handed named)
     \<and> (\<forall>fd \<in> set (handed named). fd \<in> set closed \<longleftrightarrow> last tr \<noteq> ListenerClose (Some fd))
     \<and> (\<forall>fd. named_exactly_one named = Some fd \<or> named_exactly_one named = None \<and> handed named = [fd] \<longrightarrow>
            last tr = ListenerClose (Some fd))
     \<and> (named_exactly_one named = None \<and> 1 < length (handed named) \<longrightarrow> res = Some [Cli AmbiguousSocketNames] \<and> set closed = set (handed named))"
proof (cases "named_exactly_one named")
  case (Some fd)
  hence "listenOrActivation (Inr named) listen = (Inr (Some fd), filter (\<lambda>l. l \<noteq> fd) (handed named))"
    by (simp add: listenOrActivation_cases)
  moreover have "last (fst (runDaemonWithDependencies cfg (env\<lparr>deListen := Inr (Some fd)\<rparr>))) = ListenerClose (Some fd)"
    by (simp add: runDaemon_closes_last)
  ultimately show ?thesis
    using assms Some by (auto simp: runDaemon_def split: prod.split)
next
  case None
  obtain h where h: "handed named = h"
    by simp
  have one: "last tr = ListenerClose (Some fd)"
    if "runDaemonWithDependencies cfg (env\<lparr>deListen := Inr (Some fd)\<rparr>) = (tr, res)" for fd tr res
    using runDaemon_closes_last [of "env\<lparr>deListen := Inr (Some fd)\<rparr>" "Some fd" cfg] that by simp
  have many: "runDaemonWithDependencies cfg (env\<lparr>deListen := Inl err\<rparr>) = ([EvListen], Some err)" for err
    by (simp add: runDaemon_no_listener)
  show ?thesis
    using assms None unfolding runDaemon_def listenOrActivation_cases h
    by (auto simp: many dest: one split: prod.split list.splits)
qed

theorem activation_no_leak_witness:
  "case runDaemon sample_cfg (Inr [(''http'', [4, 5]), (''usbip-go'', [3])]) (Inl []) sample_daemon_env of
     (closed, tr, res) \<Rightarrow> set closed = {4, 5} \<and> last tr = ListenerClose (Some 3)"
proof -
  have "distinct (handed [(''http'', [4, 5]), (''usbip-go'', [3])])" "set (handed [(''http'', [4, 5]), (''usbip-go'', [3])]) = {3, 4, 5}"
    "named_exactly_one [(''http'', [4, 5]), (''usbip-go'', [3])] = Some 3"
    by (auto simp: handed_def named_exactly_one_def activationFdName_def)
  moreover obtain closed tr res where
    r: "runDaemon sample_cfg (Inr [(''http'', [4, 5]), (''usbip-go'', [3])]) (Inl []) sample_daemon_env = (closed, tr, res)"
    by (cases "runDaemon sample_cfg (Inr [(''http'', [4, 5]), (''usbip-go'', [3])]) (Inl []) sample_daemon_env")
  ultimately have last: "last tr = ListenerClose (Some 3)" and sub: "set closed \<subseteq> {3, 4, 5}"
    and each: "\<forall>fd \<in> {3, 4, 5}. fd \<in> set closed \<longleftrightarrow> last tr \<noteq> ListenerClose (Some fd)"
    using activation_no_leak [of "[(''http'', [4, 5]), (''usbip-go'', [3])]" sample_cfg "Inl []" sample_daemon_env]
    by simp_all
  hence "set closed = {4, 5}"
    by auto
  thus ?thesis
    by (simp add: r last)
qed

end
