(* ===== verification/Cli_Server.thy ===== *)
theory Cli_Server
  imports Cli_History
begin

text \<open>
  \<open>cmd/usbip-go/status.go\<close> (\<open>serveStatus\<close> and its close pass) and \<open>health.go\<close> (\<open>startHealthServer\<close>): the two HTTP servers of the daemon and how they
  stop.  Of \<open>net/http\<close> the model has what the code relies on: \<open>Serve\<close> accepts connections until its listener fails or \<open>Shutdown\<close> or \<open>Close\<close> has
  been called, \<open>Shutdown\<close> closes the listener and waits until no connection is left or its context is done, \<open>Close\<close> drops every connection.  The goroutine
  that serves, the one that coordinates the close, and the handlers interleave in \<open>server_step\<close>.
\<close>

section \<open>Errors of the close pass\<close>

definition expected_close :: "go_error \<Rightarrow> bool" where
  "expected_close err \<longleftrightarrow> errors_Is err (Io NetErrClosed) \<or> errors_Is err (Io HttpErrServerClosed)"

definition combineStatusServerErrors :: "go_error option \<Rightarrow> go_error option \<Rightarrow> go_error option" where
  "combineStatusServerErrors serveErr closeErr =
     (let result = (case serveErr of
                      None \<Rightarrow> None
                    | Some err \<Rightarrow> if \<not> errors_Is err (Io NetErrClosed) \<and> \<not> errors_Is err (Io HttpErrServerClosed) then Some err else None)
      in case closeErr of
           None \<Rightarrow> result
         | Some err \<Rightarrow> if \<not> errors_Is err (Io NetErrClosed) \<and> \<not> errors_Is err (Io HttpErrServerClosed)
                       then errors_Join [result, Some err] else result)"

text \<open>\<open>closeStatusServerWithTimeout\<close>: the errors of \<open>Shutdown\<close> and, if that failed, of \<open>Close\<close>.\<close>

definition closeStatusServerWithTimeout :: "go_error option \<Rightarrow> go_error option \<Rightarrow> go_error option" where
  "closeStatusServerWithTimeout shutdownErr closeErr =
     (if shutdownErr = None then None else errors_Join [shutdownErr, closeErr])"

section \<open>The status server\<close>

datatype serve_frame =
    SfServing | SfEnded "go_error option" | SfWaiting "go_error option" | SfGot "go_error option" "go_error option"
  | SfLast "go_error option" | SfReturned "go_error option"

datatype coordinator = CoWait | CoCancel | CoShutdown | CoForce go_error | CoSent

record status_server =
  svCtx :: bool
  svHandlerCtx :: bool
  svCloseCtx :: bool
  svShut :: bool
  svConns :: "nat set"
  svNext :: nat
  svServe :: serve_frame
  svCoord :: coordinator
  svCloseErr :: "go_error option option"
  svListenerClosed :: bool

definition new_status_server :: status_server where
  "new_status_server =
     \<lparr>svCtx = False, svHandlerCtx = False, svCloseCtx = False, svShut = False, svConns = {}, svNext = 0, svServe = SfServing,
      svCoord = CoWait, svCloseErr = None, svListenerClosed = False\<rparr>"

text \<open>A context derived from another is cancelled with it.\<close>

definition handler_cancelled :: "status_server \<Rightarrow> bool" where
  "handler_cancelled s \<longleftrightarrow> svCtx s \<or> svHandlerCtx s"

definition close_cancelled :: "status_server \<Rightarrow> bool" where
  "close_cancelled s \<longleftrightarrow> svCtx s \<or> svCloseCtx s"

definition server_accept :: "status_server \<Rightarrow> status_server" where
  "server_accept s = s\<lparr>svConns := insert (svNext s) (svConns s), svNext := Suc (svNext s)\<rparr>"

text \<open>\<open>Serve\<close> returns: the sentinel once the server is shut, else the error of the listener.\<close>

definition serve_ends :: "go_error \<Rightarrow> status_server \<Rightarrow> status_server" where
  "serve_ends err s = s\<lparr>svServe := SfEnded (Some (if svShut s then [Io HttpErrServerClosed] else err))\<rparr>"

definition serve_close_cancel :: "go_error option \<Rightarrow> status_server \<Rightarrow> status_server" where
  "serve_close_cancel serr s = s\<lparr>svCloseCtx := True, svServe := SfWaiting serr\<rparr>"

definition serve_receive :: "go_error option \<Rightarrow> go_error option \<Rightarrow> status_server \<Rightarrow> status_server" where
  "serve_receive serr closeErr s = s\<lparr>svCloseErr := None, svServe := SfGot serr closeErr\<rparr>"

definition serve_cancel_handlers :: "go_error option \<Rightarrow> go_error option \<Rightarrow> status_server \<Rightarrow> status_server" where
  "serve_cancel_handlers serr closeErr s =
     s\<lparr>svHandlerCtx := True, svServe := SfLast (combineStatusServerErrors serr closeErr)\<rparr>"

text \<open>The deferred close of the listener.\<close>

definition serve_close_listener :: "go_error option \<Rightarrow> status_server \<Rightarrow> status_server" where
  "serve_close_listener res s = s\<lparr>svListenerClosed := True, svServe := SfReturned res\<rparr>"

text \<open>\<open>coordinateStatusServerClose\<close>.\<close>

definition coord_cancel :: "status_server \<Rightarrow> status_server" where
  "coord_cancel s = s\<lparr>svHandlerCtx := True, svCoord := CoCancel\<rparr>"

definition coord_shutdown :: "status_server \<Rightarrow> status_server" where
  "coord_shutdown s = s\<lparr>svShut := True, svListenerClosed := True, svCoord := CoShutdown\<rparr>"

definition coord_drained :: "status_server \<Rightarrow> status_server" where
  "coord_drained s = s\<lparr>svCloseErr := Some (closeStatusServerWithTimeout None None), svCoord := CoSent\<rparr>"

definition coord_timeout :: "status_server \<Rightarrow> status_server" where
  "coord_timeout s = s\<lparr>svCoord := CoForce [Io ContextDeadlineExceeded]\<rparr>"

definition coord_force :: "go_error \<Rightarrow> go_error option \<Rightarrow> status_server \<Rightarrow> status_server" where
  "coord_force shutdownErr closeErr s =
     s\<lparr>svConns := {}, svCloseErr := Some (closeStatusServerWithTimeout (Some shutdownErr) closeErr), svCoord := CoSent\<rparr>"

inductive server_step :: "status_server \<Rightarrow> status_server \<Rightarrow> bool" where
  sv_accept: "svServe s = SfServing \<Longrightarrow> \<not> svShut s \<Longrightarrow> server_step s (server_accept s)"
| sv_finished: "server_step s (s\<lparr>svConns := svConns s - {c}\<rparr>)"
| sv_ends: "svServe s = SfServing \<Longrightarrow> server_step s (serve_ends err s)"
| sv_close_cancel: "svServe s = SfEnded serr \<Longrightarrow> server_step s (serve_close_cancel serr s)"
| sv_receive: "svServe s = SfWaiting serr \<Longrightarrow> svCloseErr s = Some closeErr \<Longrightarrow> server_step s (serve_receive serr closeErr s)"
| sv_cancel_handlers: "svServe s = SfGot serr closeErr \<Longrightarrow> server_step s (serve_cancel_handlers serr closeErr s)"
| sv_return: "svServe s = SfLast res \<Longrightarrow> server_step s (serve_close_listener res s)"
| sv_ctx: "server_step s (s\<lparr>svCtx := True\<rparr>)"
| co_cancel: "svCoord s = CoWait \<Longrightarrow> close_cancelled s \<Longrightarrow> server_step s (coord_cancel s)"
| co_shutdown: "svCoord s = CoCancel \<Longrightarrow> server_step s (coord_shutdown s)"
| co_drained: "svCoord s = CoShutdown \<Longrightarrow> svConns s = {} \<Longrightarrow> server_step s (coord_drained s)"
| co_timeout: "svCoord s = CoShutdown \<Longrightarrow> server_step s (coord_timeout s)"
| co_force: "svCoord s = CoForce shutdownErr \<Longrightarrow> server_step s (coord_force shutdownErr closeErr s)"

inductive server_reach :: "status_server \<Rightarrow> bool" where
  sr_new: "server_reach new_status_server"
| sr_next: "server_reach s \<Longrightarrow> server_step s s' \<Longrightarrow> server_reach s'"

section \<open>Invariant of the status server\<close>

fun past_receive :: "serve_frame \<Rightarrow> bool" where
  "past_receive (SfGot _ _) = True"
| "past_receive (SfLast _) = True"
| "past_receive (SfReturned _) = True"
| "past_receive _ = False"

fun past_end :: "serve_frame \<Rightarrow> bool" where
  "past_end SfServing = False"
| "past_end (SfEnded _) = False"
| "past_end _ = True"

fun shut_at_coord :: "coordinator \<Rightarrow> bool" where
  "shut_at_coord CoWait = False"
| "shut_at_coord CoCancel = False"
| "shut_at_coord _ = True"

definition server_inv :: "status_server \<Rightarrow> bool" where
  "server_inv s \<longleftrightarrow>
     (svShut s \<longleftrightarrow> shut_at_coord (svCoord s)) \<and> (svCoord s \<noteq> CoWait \<longrightarrow> svHandlerCtx s)
   \<and> (svCoord s = CoSent \<longrightarrow> svConns s = {} \<and> (svCloseErr s \<noteq> None \<longleftrightarrow> \<not> past_receive (svServe s)))
   \<and> (svCloseErr s \<noteq> None \<or> past_receive (svServe s) \<longrightarrow> svCoord s = CoSent)
   \<and> (past_end (svServe s) \<longrightarrow> svCloseCtx s)
   \<and> (svShut s \<longrightarrow> svListenerClosed s)"

lemmas server_ops = server_accept_def serve_ends_def serve_close_cancel_def serve_receive_def serve_cancel_handlers_def
  serve_close_listener_def coord_cancel_def coord_shutdown_def coord_drained_def coord_timeout_def coord_force_def

lemma server_inv_step: "server_step s s' \<Longrightarrow> server_inv s \<Longrightarrow> server_inv s'"
  by (induction rule: server_step.induct) (auto simp: server_inv_def server_ops)

lemma server_invariant: "server_reach s \<Longrightarrow> server_inv s"
proof (induction rule: server_reach.induct)
  case sr_new
  show ?case
    by (simp add: server_inv_def new_status_server_def)
qed (rule server_inv_step)

section \<open>Properties of the status server\<close>

fun serve_to_go :: "serve_frame \<Rightarrow> nat" where
  "serve_to_go SfServing = 5"
| "serve_to_go (SfEnded _) = 4"
| "serve_to_go (SfWaiting _) = 3"
| "serve_to_go (SfGot _ _) = 2"
| "serve_to_go (SfLast _) = 1"
| "serve_to_go (SfReturned _) = 0"

fun coord_to_go :: "coordinator \<Rightarrow> nat" where
  "coord_to_go CoWait = 4"
| "coord_to_go CoCancel = 3"
| "coord_to_go CoShutdown = 2"
| "coord_to_go (CoForce _) = 1"
| "coord_to_go CoSent = 0"

definition to_return :: "status_server \<Rightarrow> nat" where
  "to_return s = serve_to_go (svServe s) + coord_to_go (svCoord s)"

lemma moves:
  "server_step s s' \<Longrightarrow> close_cancelled s' \<and> to_return s' < to_return s \<Longrightarrow>
     \<exists>s'. server_step s s' \<and> close_cancelled s' \<and> to_return s' < to_return s"
  by blast

lemma coord_moves:
  assumes "close_cancelled s" "svCoord s \<noteq> CoSent"
  shows "\<exists>s'. server_step s s' \<and> close_cancelled s' \<and> to_return s' < to_return s"
proof (cases "svCoord s")
  case CoWait
  thus ?thesis
    using assms by (intro moves [OF co_cancel]) (auto simp: coord_cancel_def to_return_def close_cancelled_def)
next
  case CoCancel
  thus ?thesis
    using assms by (intro moves [OF co_shutdown]) (auto simp: coord_shutdown_def to_return_def close_cancelled_def)
next
  case CoShutdown
  thus ?thesis
    using assms by (intro moves [OF co_timeout]) (auto simp: coord_timeout_def to_return_def close_cancelled_def)
next
  case (CoForce err)
  thus ?thesis
    using assms by (intro moves [OF co_force [of s err None]]) (auto simp: coord_force_def to_return_def close_cancelled_def)
qed (use assms in simp)

lemma serve_moves:
  assumes "server_inv s" "close_cancelled s" "svCoord s = CoSent" "\<forall>res. svServe s \<noteq> SfReturned res"
  shows "\<exists>s'. server_step s s' \<and> close_cancelled s' \<and> to_return s' < to_return s"
proof (cases "svServe s")
  case SfServing
  thus ?thesis
    using assms by (intro moves [OF sv_ends [of s "[]"]]) (auto simp: serve_ends_def to_return_def close_cancelled_def)
next
  case (SfEnded err)
  thus ?thesis
    using assms by (intro moves [OF sv_close_cancel]) (auto simp: serve_close_cancel_def to_return_def close_cancelled_def)
next
  case (SfWaiting err)
  then obtain closeErr where "svCloseErr s = Some closeErr"
    using assms by (auto simp: server_inv_def)
  thus ?thesis
    using SfWaiting assms by (intro moves [OF sv_receive]) (auto simp: serve_receive_def to_return_def close_cancelled_def)
next
  case (SfGot err closeErr)
  thus ?thesis
    using assms by (intro moves [OF sv_cancel_handlers]) (auto simp: serve_cancel_handlers_def to_return_def close_cancelled_def)
next
  case (SfLast res)
  thus ?thesis
    using assms by (intro moves [OF sv_return]) (auto simp: serve_close_listener_def to_return_def close_cancelled_def)
qed (use assms in simp)

lemma combine_None:
  "combineStatusServerErrors serveErr closeErr = None \<longleftrightarrow>
     (\<forall>err. serveErr = Some err \<longrightarrow> expected_close err) \<and> (\<forall>err. closeErr = Some err \<longrightarrow> expected_close err)"
  by (cases serveErr; cases closeErr) (auto simp: combineStatusServerErrors_def expected_close_def errors_Join_def)

lemma returned_stays: "server_step s s' \<Longrightarrow> svServe s = SfReturned res \<Longrightarrow> server_inv s \<Longrightarrow> svConns s' = {}"
  by (induction rule: server_step.induct) (auto simp: server_inv_def server_ops)

text \<open>C36: the status server stops, and leaves nothing behind.  However requests, the cancellation, a failing listener and the close pass
  interleave: when \<open>serveStatus\<close> returns, the handlers' context is cancelled, the server is shut, its listener closed and no connection
  left; and once its context is cancelled or its listener has failed, every step of the two goroutines brings the return nearer and one of them is
  always possible, whatever the handlers do, because a grace period that runs out is followed by a forced close.  The result is nil exactly if neither
  \<open>Serve\<close> nor the close pass failed with anything but the sentinels of a closed server.\<close>

theorem status_server_stops:
  assumes "server_reach s"
  shows "(\<forall>res. svServe s = SfReturned res \<longrightarrow>
        handler_cancelled s \<and> svShut s \<and> svListenerClosed s \<and> svConns s = {} \<and> (\<forall>s'. server_step s s' \<longrightarrow> svConns s' = {}))
    \<and> (close_cancelled s \<and> (\<forall>res. svServe s \<noteq> SfReturned res) \<longrightarrow>
         (\<exists>s'. server_step s s' \<and> close_cancelled s' \<and> to_return s' < to_return s))
    \<and> (\<forall>serr closeErr. svServe s = SfGot serr closeErr \<longrightarrow>
         (\<exists>res. svServe (serve_cancel_handlers serr closeErr s) = SfLast res
            \<and> (res = None \<longleftrightarrow> (\<forall>err. serr = Some err \<longrightarrow> expected_close err) \<and> (\<forall>err. closeErr = Some err \<longrightarrow> expected_close err))))"
proof (intro conjI)
  note inv = server_invariant [OF assms]
  have "svConns s' = {}" if "svServe s = SfReturned res" "server_step s s'" for res s'
    using returned_stays [OF that(2,1) inv] .
  thus "\<forall>res. svServe s = SfReturned res \<longrightarrow>
        handler_cancelled s \<and> svShut s \<and> svListenerClosed s \<and> svConns s = {} \<and> (\<forall>s'. server_step s s' \<longrightarrow> svConns s' = {})"
    using inv by (auto simp: server_inv_def handler_cancelled_def)
  show "close_cancelled s \<and> (\<forall>res. svServe s \<noteq> SfReturned res) \<longrightarrow>
         (\<exists>s'. server_step s s' \<and> close_cancelled s' \<and> to_return s' < to_return s)"
    using coord_moves [of s] serve_moves [OF inv] by (cases "svCoord s = CoSent") blast+
qed (simp add: serve_cancel_handlers_def combine_None)

definition cancelled_server :: status_server where
  "cancelled_server = new_status_server\<lparr>svCtx := True\<rparr>"

theorem status_server_stops_witness: "\<exists>s'. server_step cancelled_server s' \<and> to_return s' < to_return cancelled_server"
proof -
  have "server_reach cancelled_server"
    unfolding cancelled_server_def by (rule sr_next [OF sr_new sv_ctx])
  moreover have "close_cancelled cancelled_server" "\<forall>res. svServe cancelled_server \<noteq> SfReturned res"
    by (simp_all add: cancelled_server_def new_status_server_def close_cancelled_def)
  ultimately show ?thesis
    using conjunct1 [OF conjunct2 [OF status_server_stops [of cancelled_server]]] by blast
qed

section \<open>The health server\<close>

text \<open>What the serving goroutine puts into its buffered channel, and the stop function: the error of \<open>Shutdown\<close>, and in the select either that
  value or the end of the context.\<close>

definition health_serve_result :: "go_error option \<Rightarrow> go_error option" where
  "health_serve_result err = (case err of Some e \<Rightarrow> if errors_Is e (Io HttpErrServerClosed) then None else err | None \<Rightarrow> None)"

datatype stop_select = StopServeDone "go_error option" | StopCtxDone go_error

definition health_stop :: "go_error option \<Rightarrow> stop_select \<Rightarrow> go_error option" where
  "health_stop shutdownErr arm =
     (let serveErr = (case arm of StopServeDone err \<Rightarrow> err | StopCtxDone err \<Rightarrow> Some err)
      in if shutdownErr \<noteq> None then shutdownErr else serveErr)"

text \<open>The stop function reports success exactly when \<open>Shutdown\<close> drained every request and \<open>Serve\<close> ended with the sentinel of a closed server within
  the deadline.\<close>

theorem health_stop_clean:
  "health_stop shutdownErr arm = None \<longleftrightarrow> shutdownErr = None \<and> arm = StopServeDone None"
  by (auto simp: health_stop_def split: stop_select.splits)

end
