(* ===== verification/Cli_Build.thy ===== *)
theory Cli_Build
  imports Cli_Daemon Cli_Exit Facade
begin

text \<open>
  \<open>cmd/usbip-go/serve_flags.go\<close> and \<open>serve.go\<close> (\<open>buildExporter\<close>, \<open>drainExporter\<close>): from the daemon's flags to its exporter, through the
  options of \<open>pkg/usbip\<close>, and what the daemon does when they do not make one.
\<close>

section \<open>The flags\<close>

record ServeFlags = ServeConfig +
  scListen :: string
  scStatusSocketGroup :: string
  scAllowCIDR :: "string list"
  scMaxSessions :: int
  scMaxSessionsPerPeer :: int
  scAcceptRateLimit :: float64
  scMaxHandshakeBytes :: int
  scHandshakeTimeout :: int
  scShutdownTimeout :: int

text \<open>The defaults of \<open>bindServeFlags\<close>.\<close>

definition serve_defaults :: ServeFlags where
  "serve_defaults =
     \<lparr>HealthAddr = [], StatusSocket = ''/run/usbip-go/status.sock'', scListen = ''0.0.0.0:3240'', scStatusSocketGroup = ''usbip-go'',
      scAllowCIDR = [], scMaxSessions = 128, scMaxSessionsPerPeer = 8, scAcceptRateLimit = Fin 10, scMaxHandshakeBytes = 65536,
      scHandshakeTimeout = 10 * second, scShutdownTimeout = 30 * second\<rparr>"

definition exporterOptions :: "ServeFlags \<Rightarrow> nat \<Rightarrow> ExporterOption option list" where
  "exporterOptions cfg logger =
     [Some (WithExporterLogger (Some logger)),
      Some (WithExporterMaxSessions (scMaxSessions cfg)),
      Some (WithExporterMaxSessionsPerPeer (scMaxSessionsPerPeer cfg)),
      Some (WithExporterAcceptRateLimit (scAcceptRateLimit cfg)),
      Some (WithExporterMaxHandshakeBytes (scMaxHandshakeBytes cfg)),
      Some (WithExporterHandshakeTimeout (scHandshakeTimeout cfg)),
      Some (WithExporterShutdownTimeout (scShutdownTimeout cfg))]
     @ (if scAllowCIDR cfg \<noteq> [] then [Some (WithExporterAllowCIDR (scAllowCIDR cfg))] else [])"

text \<open>\<open>kernelErr\<close> and \<open>eventsErr\<close>: the adapters' constructors.  The result keeps the collected configuration.\<close>

definition buildExporter ::
  "(string \<Rightarrow> go_error + string) \<Rightarrow> go_error option \<Rightarrow> go_error option \<Rightarrow> ServeFlags \<Rightarrow> nat
     \<Rightarrow> go_error + (usbip_exporterConfig \<times> Exporter)" where
  "buildExporter parseCIDR kernelErr eventsErr cfg logger = newDefaultExporter parseCIDR kernelErr eventsErr (exporterOptions cfg logger)"

text \<open>\<open>defaultDaemonDependencies\<close> and \<open>runDaemonWithDependencies\<close> with it.\<close>

definition serveDaemon ::
  "(string \<Rightarrow> go_error + string) \<Rightarrow> ServeFlags \<Rightarrow> nat \<Rightarrow> daemon_env \<Rightarrow> daemon_event list \<times> go_error option" where
  "serveDaemon parseCIDR cfg logger env =
     runDaemonWithDependencies (ServeConfig.truncate cfg)
       (env\<lparr>deBuildExporter := (case buildExporter parseCIDR None None cfg logger of Inl err \<Rightarrow> Some err | Inr _ \<Rightarrow> None)\<rparr>)"

text \<open>\<open>drainExporter\<close>: the deadline of the context that it passes to \<open>Shutdown\<close>, called at \<open>now\<close>, and the bound that \<open>Shutdown\<close> makes of it at
  \<open>later\<close>.\<close>

definition drain_deadline :: "ServeFlags \<Rightarrow> int \<Rightarrow> int" where
  "drain_deadline cfg now = now + scShutdownTimeout cfg"

definition drainExporter :: "ServeFlags \<Rightarrow> Exporter \<Rightarrow> int \<Rightarrow> int \<Rightarrow> int option" where
  "drainExporter cfg e now later = applyShutdownBackstop e (Some (drain_deadline cfg now)) later"

section \<open>What the flags mean\<close>

definition flags_valid :: "(string \<Rightarrow> go_error + string) \<Rightarrow> ServeFlags \<Rightarrow> bool" where
  "flags_valid parseCIDR cfg \<longleftrightarrow> (\<forall>c\<in>set (scAllowCIDR cfg). \<exists>n. parseCIDR c = Inr n) \<and> finite_rate (Some (scAcceptRateLimit cfg))"

lemma options_collected:
  "uecMaxSessions (collected (exporterOptions cfg logger)) = scMaxSessions cfg"
  "uecMaxSessionsPerPeer (collected (exporterOptions cfg logger)) = scMaxSessionsPerPeer cfg"
  "uecAcceptRateLimit (collected (exporterOptions cfg logger)) = scAcceptRateLimit cfg"
  "uecAcceptRateLimitSet (collected (exporterOptions cfg logger))"
  "uecMaxHandshakeBytes (collected (exporterOptions cfg logger)) = scMaxHandshakeBytes cfg"
  "uecHandshakeTimeout (collected (exporterOptions cfg logger)) = scHandshakeTimeout cfg"
  "uecShutdownTimeout (collected (exporterOptions cfg logger)) = scShutdownTimeout cfg"
  "uecAllowCIDRs (collected (exporterOptions cfg logger)) = scAllowCIDR cfg"
  "uecTransportOptions (collected (exporterOptions cfg logger)) = zero_options"
  by (simp_all add: collected_def exporterOptions_def apply_if_def zero_exporterConfig_def)

lemma zero_options_valid: "Validate zero_options = None"
  by (simp add: Validate_def zero_options_def)

lemma flags_acceptable: "acceptable p (exporterOptions cfg logger) \<longleftrightarrow> flags_valid p cfg"
  by (simp add: acceptable_def flags_valid_def exporterOptions_def zero_options_valid)

lemma buildExporter_valid:
  assumes "flags_valid p cfg"
  shows "\<exists>c e. buildExporter p None None cfg logger = Inr (c, e) \<and> parseACL p (scAllowCIDR cfg) = Inr (eAcl e)
    \<and> maxSessions (eCfg e) = or_default 128 (scMaxSessions cfg)
    \<and> maxSessionsPerPeer (eCfg e) = or_default 8 (scMaxSessionsPerPeer cfg)
    \<and> maxHandshakeBytes (eCfg e) = or_default 65536 (scMaxHandshakeBytes cfg)
    \<and> handshakeTimeout (eCfg e) = or_default (10 * second) (scHandshakeTimeout cfg)
    \<and> eShutdownTimeout e = scShutdownTimeout cfg \<and> exporter_reach e"
proof -
  have acc: "acceptable p (exporterOptions cfg logger)"
    using assms by (simp add: flags_acceptable)
  obtain acl where acl: "parseACL p (scAllowCIDR cfg) = Inr acl"
    using assms parseACL_Inr_iff [of p "scAllowCIDR cfg"] by (auto simp: flags_valid_def)
  have rate: "ValidateAcceptRateLimit (scAcceptRateLimit cfg) = None"
    using assms by (cases "scAcceptRateLimit cfg") (simp_all add: flags_valid_def)
  let ?app = "fold apply_app_option (exporterConfigToInternal (collected (exporterOptions cfg logger))) app_zero_config"
  obtain e where new: "NewExporterWithError p ?app = Inr e"
    using acl rate by (simp add: NewExporterWithError_def exporterConfigToInternal_rebuilds options_collected)
  moreover have "buildExporter p None None cfg logger = Inr (collected (exporterOptions cfg logger), e)"
    using new by (simp add: buildExporter_def newDefaultExporter_def resolveExporterConfig_ok [OF acc])
  ultimately show ?thesis
    using acl rate exporter_reach.new [OF new]
    by (auto simp: NewExporterWithError_def exporterConfigToInternal_rebuilds options_collected resolveExporterLimits_def or_default_def
        defaultMaxSessions_def defaultMaxSessionsPerPeer_def defaultMaxHandshakeBytes_def defaultHandshakeTimeout_def)
qed

lemma buildExporter_invalid:
  assumes "foreign_errors p" "\<not> flags_valid p cfg"
  shows "\<exists>s\<in>{PubACLInvalid, PubAcceptRateLimitInvalid}. buildExporter p None None cfg logger = Inl [Pub s]"
proof -
  obtain s where s: "s \<in> {PubTransportOptionsInvalid, PubACLInvalid, PubAcceptRateLimitInvalid}"
    "resolveExporterConfig p (exporterOptions cfg logger) = Inl [Pub s]"
    using resolveExporterConfig_error [OF assms(1), of "exporterOptions cfg logger"] assms(2) by (auto simp: flags_acceptable)
  have "Validate (uecTransportOptions (collected (exporterOptions cfg logger))) = None"
    by (simp add: options_collected zero_options_valid)
  hence "s \<noteq> PubTransportOptionsInvalid"
    using s(2) acl_check [OF assms(1), of "scAllowCIDR cfg"] rate_check [of "collected (exporterOptions cfg logger)"]
    by (auto simp: resolveExporterConfig_def Let_def collected_def [symmetric] options_collected translateInternalErr_def
        split: option.splits if_splits)
  thus ?thesis
    using s by (simp add: buildExporter_def newDefaultExporter_def)
qed

text \<open>From the flags to the daemon.  If every \<open>--allow-cidr\<close> parses and the accept rate is finite, the exporter that the daemon runs
  is a reachable one with the limits of the flags (zero means the default), exactly the given networks, and a drain
  bounded by the shutdown timeout from the moment the daemon asks for it, whatever time passes before
  \<open>Shutdown\<close> adds its own bound.  Otherwise the daemon closes the listener that it opened and returns one of two public
  sentinels without starting anything, and, unless its text has one of cobra's phrases, the process exits
  with the generic code and not with the usage code.\<close>

theorem daemon_flags:
  assumes "foreign_errors p" "deListen env = Inr lis"
  shows "(flags_valid p cfg \<and> (\<exists>c e. buildExporter p None None cfg logger = Inr (c, e) \<and> exporter_reach e
      \<and> parseACL p (scAllowCIDR cfg) = Inr (eAcl e)
      \<and> maxSessions (eCfg e) = or_default 128 (scMaxSessions cfg)
      \<and> maxSessionsPerPeer (eCfg e) = or_default 8 (scMaxSessionsPerPeer cfg)
      \<and> maxHandshakeBytes (eCfg e) = or_default 65536 (scMaxHandshakeBytes cfg)
      \<and> handshakeTimeout (eCfg e) = or_default (10 * second) (scHandshakeTimeout cfg)
      \<and> (\<forall>now. \<forall>later\<ge>now. drainExporter cfg e now later = Some (now + scShutdownTimeout cfg))))
    \<or> (\<not> flags_valid p cfg \<and> (\<exists>s\<in>{PubACLInvalid, PubAcceptRateLimitInvalid}.
        serveDaemon p cfg logger env = ([EvListen, BuildExporter, ListenerClose lis], Some [Pub s])
      \<and> (\<forall>msg. MapError msg (Some [Pub s]) = (if list_ex (Contains (msg [Pub s])) cobraUsagePrefixes then ExitUsage else ExitGeneric))))"
proof (cases "flags_valid p cfg")
  case True
  thus ?thesis
    using buildExporter_valid [OF True, of logger] by (auto simp: drainExporter_def drain_deadline_def applyShutdownBackstop_def)
next
  case False
  then obtain s where s: "s \<in> {PubACLInvalid, PubAcceptRateLimitInvalid}" "buildExporter p None None cfg logger = Inl [Pub s]"
    using buildExporter_invalid [OF assms(1)] by blast
  have "serveDaemon p cfg logger env = ([EvListen, BuildExporter, ListenerClose lis], Some [Pub s])"
    using s(2) assms(2) by (simp add: serveDaemon_def runDaemonWithDependencies_def defer_call_def emit_def go_return_trace prod_eq_iff Let_def)
  moreover have "MapError msg (Some [Pub s]) = (if list_ex (Contains (msg [Pub s])) cobraUsagePrefixes then ExitUsage else ExitGeneric)" for msg
    by (simp add: MapError_def isUsageError_def errorRegistry_def)
  ultimately show ?thesis
    using False s(1) by blast
qed

definition bad_flags :: ServeFlags where
  "bad_flags = serve_defaults\<lparr>scAllowCIDR := [''10.0.0.0/33'']\<rparr>"

theorem daemon_flags_witness:
  "serveDaemon (\<lambda>_. Inl [OtherErr 1]) bad_flags 0 sample_daemon_env
     = ([EvListen, BuildExporter, ListenerClose (Some 3)], snd (serveDaemon (\<lambda>_. Inl [OtherErr 1]) bad_flags 0 sample_daemon_env))"
proof -
  have "foreign_errors (\<lambda>_. Inl [OtherErr 1])" "deListen sample_daemon_env = Inr (Some 3)"
    "\<not> flags_valid (\<lambda>_. Inl [OtherErr 1]) bad_flags"
    by (simp_all add: foreign_errors_def sample_daemon_env_def flags_valid_def bad_flags_def)
  thus ?thesis
    using daemon_flags [of "\<lambda>_. Inl [OtherErr 1]" sample_daemon_env "Some 3" bad_flags 0] by auto
qed

text \<open>The flags' defaults are those of the library: a daemon with no flags runs the exporter that \<open>NewExporter\<close> makes of no options, with a
  shutdown timeout in addition, and the same accept rate.\<close>

theorem default_flags:
  "case (buildExporter p None None serve_defaults logger, newDefaultExporter p None None []) of
     (Inr (c, e), Inr (c0, e0)) \<Rightarrow> e = e0\<lparr>eShutdownTimeout := 30 * second\<rparr>
       \<and> resolveAcceptRate (fold apply_app_option (exporterConfigToInternal c) app_zero_config)
           = resolveAcceptRate (fold apply_app_option (exporterConfigToInternal c0) app_zero_config)
   | _ \<Rightarrow> False"
proof -
  have "flags_valid p serve_defaults"
    by (simp add: flags_valid_def serve_defaults_def)
  hence acc: "resolveExporterConfig p (exporterOptions serve_defaults logger) = Inr (collected (exporterOptions serve_defaults logger))"
    by (intro resolveExporterConfig_ok) (simp add: flags_acceptable)
  have none: "resolveExporterConfig p [] = Inr zero_exporterConfig"
    using resolveExporterConfig_ok [of p "[]"] by (simp add: acceptable_def zero_options_valid collected_def)
  show ?thesis
    unfolding buildExporter_def newDefaultExporter_def acc none
    by (simp add: NewExporterWithError_def exporterConfigToInternal_rebuilds options_collected resolveExporterLimits_def
        resolveAcceptRate_def defaultAcceptRateLimit_def zero_exporterConfig_def serve_defaults_def
        defaultMaxSessions_def defaultMaxSessionsPerPeer_def defaultMaxHandshakeBytes_def defaultHandshakeTimeout_def)
qed

end
