(* ===== verification/Cli_Ready.thy ===== *)
theory Cli_Ready
  imports Kernel_Sysfs
begin

text \<open>
  What the daemon says of itself: \<open>pkg/usbip/modules.go\<close> and \<open>modules_linux.go\<close> (which kernel modules are loaded),
  \<open>cmd/usbip-go/status_exporter.go\<close> (the flags and the module cache), \<open>health.go\<close> (\<open>/readyz\<close>), and from \<open>status.go\<close> and \<open>serve.go\<close>
  the drain handler, the accept hook and the readiness probe.  Any number of requests run at once with the
  accept loop and a drain; \<open>ready_step\<close> interleaves them at their atomic actions: a locked section, an
  atomic load or store, a system call.  Times are nanoseconds.
\<close>

section \<open>modules.go and modules_linux.go\<close>

datatype ModuleState = ModuleStateUnknown | ModuleStateLoaded | ModuleStateMissing

definition ModuleState_String :: "ModuleState \<Rightarrow> string" where
  "ModuleState_String s =
     (case s of ModuleStateLoaded \<Rightarrow> ''loaded'' | ModuleStateMissing \<Rightarrow> ''missing'' | ModuleStateUnknown \<Rightarrow> ''unknown'')"

definition KernelModuleUSBIPCore :: string where "KernelModuleUSBIPCore = ''usbip_core''"
definition KernelModuleVHCIHCD :: string where "KernelModuleVHCIHCD = ''vhci_hcd''"
definition KernelModuleUSBIPHost :: string where "KernelModuleUSBIPHost = ''usbip_host''"
definition moduleSysfsRoot :: string where "moduleSysfsRoot = ''/sys/module''"

lemmas module_names = KernelModuleUSBIPCore_def KernelModuleVHCIHCD_def KernelModuleUSBIPHost_def

type_synonym module_map = "string \<rightharpoonup> ModuleState"

definition probedModuleNames :: "string list" where
  "probedModuleNames = [KernelModuleUSBIPCore, KernelModuleVHCIHCD, KernelModuleUSBIPHost]"

definition unknownModuleStates :: module_map where
  "unknownModuleStates = foldl (\<lambda>out name. out(name \<mapsto> ModuleStateUnknown)) Map.empty probedModuleNames"

text \<open>\<open>stat\<close> is the error of \<open>os.Stat\<close>.\<close>

definition probeOneAtWithStat :: "string \<Rightarrow> string \<Rightarrow> (string \<Rightarrow> go_error option) \<Rightarrow> ModuleState" where
  "probeOneAtWithStat root name stat =
     (case stat (path_Join [root, name]) of
        None \<Rightarrow> ModuleStateLoaded
      | Some err \<Rightarrow> if errors_Is err (Io FsErrNotExist) then ModuleStateMissing else ModuleStateUnknown)"

text \<open>\<open>ctx n\<close> is the answer of the \<open>n\<close>-th call of \<open>ctx.Err()\<close>: a context may be cancelled while the loop runs.\<close>

fun probeKernelModulesWith :: "(nat \<Rightarrow> go_error option) \<Rightarrow> nat \<Rightarrow> module_map \<Rightarrow> (string \<Rightarrow> ModuleState) \<Rightarrow> string list \<Rightarrow>
    module_map \<times> go_error option" where
  "probeKernelModulesWith ctx n out probe [] = (out, None)"
| "probeKernelModulesWith ctx n out probe (name # names) =
     (case ctx n of
        Some err \<Rightarrow> (out, Some err)
      | None \<Rightarrow> probeKernelModulesWith ctx (Suc n) (out(name \<mapsto> probe name)) probe names)"

definition probeKernelModulesPlatform :: "(nat \<Rightarrow> go_error option) \<Rightarrow> module_map \<Rightarrow> (string \<Rightarrow> go_error option) \<Rightarrow>
    module_map \<times> go_error option" where
  "probeKernelModulesPlatform ctx out stat =
     probeKernelModulesWith ctx 1 out (\<lambda>name. probeOneAtWithStat moduleSysfsRoot name stat) probedModuleNames"

definition ProbeKernelModules :: "(nat \<Rightarrow> go_error option) \<Rightarrow> (string \<Rightarrow> go_error option) \<Rightarrow> module_map \<times> go_error option" where
  "ProbeKernelModules ctx stat =
     (case ctx 0 of
        Some err \<Rightarrow> (unknownModuleStates, Some err)
      | None \<Rightarrow> probeKernelModulesPlatform ctx unknownModuleStates stat)"

section \<open>status_exporter.go\<close>

definition kernelModuleProbeTTL :: int where "kernelModuleProbeTTL = 5 * 1000000000"

text \<open>\<open>seDrain\<close>: whether the callback is installed.  A nil map is \<open>None\<close>.\<close>

record statusExporter =
  seListenAddr :: string
  seActivation :: bool
  seAccepting :: bool
  seListenerBound :: bool
  seDrain :: bool
  kmValue :: "module_map option"
  kmExpiry :: int

text \<open>The address of a listener, \<open>None\<close> when the listener or its address is nil.\<close>

definition listenerAddr :: "string option \<Rightarrow> string" where
  "listenerAddr addr = (case addr of None \<Rightarrow> [] | Some a \<Rightarrow> a)"

definition newStatusExporter :: "string option \<Rightarrow> bool \<Rightarrow> statusExporter" where
  "newStatusExporter addr activation =
     \<lparr>seListenAddr = listenerAddr addr, seActivation = activation, seAccepting = False, seListenerBound = (addr \<noteq> None),
      seDrain = False, kmValue = None, kmExpiry = 0\<rparr>"

record listeningState =
  lsAddr :: string
  lsActivation :: bool
  lsAccepting :: bool

definition Listening :: "statusExporter \<Rightarrow> listeningState" where
  "Listening s = \<lparr>lsAddr = seListenAddr s, lsActivation = seActivation s, lsAccepting = seAccepting s\<rparr>"

definition markAccepting :: "bool \<Rightarrow> statusExporter \<Rightarrow> statusExporter" where
  "markAccepting v s = s\<lparr>seAccepting := v\<rparr>"

definition setDrain :: "statusExporter \<Rightarrow> statusExporter" where
  "setDrain s = s\<lparr>seDrain := True\<rparr>"

text \<open>The two locked sections of \<open>KernelModules\<close>: the lookup before the probe and the write after it.  The copies of
  the map are immaterial, maps being values here.\<close>

definition KernelModules_lookup :: "int \<Rightarrow> statusExporter \<Rightarrow> module_map option" where
  "KernelModules_lookup now s = (case kmValue s of Some m \<Rightarrow> if now < kmExpiry s then Some m else None | None \<Rightarrow> None)"

definition KernelModules_store :: "int \<Rightarrow> module_map \<Rightarrow> statusExporter \<Rightarrow> module_map \<times> statusExporter" where
  "KernelModules_store winnerNow mods s =
     (case KernelModules_lookup winnerNow s of
        Some m \<Rightarrow> (m, s)
      | None \<Rightarrow> (mods, s\<lparr>kmValue := Some mods, kmExpiry := winnerNow + kernelModuleProbeTTL\<rparr>))"

section \<open>health.go\<close>

record readinessState =
  ListenerBound :: bool
  Accepting :: bool
  StatusWritable :: bool
  Modules :: module_map

definition ready :: "readinessState \<Rightarrow> bool" where
  "ready s \<longleftrightarrow> ListenerBound s \<and> Accepting s \<and> StatusWritable s
     \<and> list_all (\<lambda>name. Modules s name = Some ModuleStateLoaded) [KernelModuleUSBIPCore, KernelModuleUSBIPHost]"

definition statusSocketWritable :: "string \<Rightarrow> go_error option \<Rightarrow> bool" where
  "statusSocketWritable path access = (if path = [] then True else access = None)"

definition readinessProbeConcurrency :: nat where "readinessProbeConcurrency = 1"

definition StatusOK :: nat where "StatusOK = 200"
definition StatusAccepted :: nat where "StatusAccepted = 202"
definition StatusServiceUnavailable :: nat where "StatusServiceUnavailable = 503"

lemmas http_codes = StatusOK_def StatusAccepted_def StatusServiceUnavailable_def

section \<open>The running daemon\<close>

text \<open>The accept loop: before \<open>Serve\<close>, in it, after it returned, and after \<open>markAccepting(false)\<close>.\<close>

datatype serve_phase = ServePending | ServeRunning | ServeReturned | ServeMarked

text \<open>The drain goroutine: not started, about to mark, about to cancel, done.\<close>

datatype drain_pc = DrainNone | DrainSpawned | DrainMarked | DrainDone

text \<open>A request: in \<open>KernelModules\<close> (the flag says whether it is a readiness probe or a status report), then, for a
  readiness probe, at its three loads, and finally with its result.  Values that were read are kept, and with
  them, for the statements, the clock and the phase at that moment.\<close>

datatype req_pc =
    ReqNew | ReqModules bool | ReqProbing bool | ReqProbed bool module_map | ReqReport module_map
  | ReqBound module_map int | ReqAccept module_map int bool | ReqWritable module_map int bool bool serve_phase
  | ReqResult readinessState int serve_phase

text \<open>\<open>dwSlot\<close> is the number of tokens in the probe channel, \<open>dwReply\<close> the status code sent for a request.  \<open>dwStats\<close> and
  \<open>dwLanded\<close> only record: the answers of \<open>os.Stat\<close> in each completed probe, and the maps written to the cache with
  the time.\<close>

record daemon_world =
  dwSrc :: statusExporter
  dwClock :: int
  dwPhase :: serve_phase
  dwOnce :: bool
  dwDrainStarted :: bool
  dwDrainPC :: drain_pc
  dwSlot :: nat
  dwPC :: "nat \<Rightarrow> req_pc"
  dwReply :: "nat \<Rightarrow> nat option"
  dwStats :: "(string \<Rightarrow> go_error option) list"
  dwLanded :: "(module_map \<times> int) list"

abbreviation at_pc :: "daemon_world \<Rightarrow> nat \<Rightarrow> req_pc \<Rightarrow> daemon_world" where
  "at_pc w c pc \<equiv> w\<lparr>dwPC := (dwPC w)(c := pc)\<rparr>"

abbreviation reply :: "daemon_world \<Rightarrow> nat \<Rightarrow> nat \<Rightarrow> daemon_world" where
  "reply w c code \<equiv> w\<lparr>dwReply := (dwReply w)(c := Some code)\<rparr>"

text \<open>\<open>firstAcceptListener.Accept\<close>: the hook, once, before the inner call.\<close>

definition accept_entry :: "daemon_world \<Rightarrow> daemon_world" where
  "accept_entry w = (if dwOnce w then w else w\<lparr>dwOnce := True, dwSrc := markAccepting True (dwSrc w)\<rparr>)"

text \<open>\<open>handleStatusDrain\<close>: compare-and-swap, then the goroutine.\<close>

definition handleStatusDrain :: "nat \<Rightarrow> daemon_world \<Rightarrow> daemon_world" where
  "handleStatusDrain c w =
     (if dwDrainStarted w then reply w c StatusOK
      else (reply w c StatusAccepted)\<lparr>dwDrainStarted := True, dwDrainPC := DrainSpawned\<rparr>)"

text \<open>\<open>statusExporter.Drain\<close>: the mark, then the callback.\<close>

definition Drain_mark :: "daemon_world \<Rightarrow> daemon_world" where
  "Drain_mark w = w\<lparr>dwSrc := markAccepting False (dwSrc w), dwDrainPC := DrainMarked\<rparr>"

text \<open>The select of the readiness handler: \<open>gone\<close> when the request's context is already done and its branch is taken.\<close>

definition readyz_request :: "bool \<Rightarrow> nat \<Rightarrow> daemon_world \<Rightarrow> daemon_world" where
  "readyz_request gone c w =
     (if gone then reply w c StatusServiceUnavailable
      else if dwSlot w < readinessProbeConcurrency then (at_pc w c (ReqModules True))\<lparr>dwSlot := Suc (dwSlot w)\<rparr>
      else reply w c StatusServiceUnavailable)"

definition km_enter :: "nat \<Rightarrow> bool \<Rightarrow> daemon_world \<Rightarrow> daemon_world" where
  "km_enter c probe w =
     (case KernelModules_lookup (dwClock w) (dwSrc w) of
        Some m \<Rightarrow> at_pc w c (if probe then ReqBound m (dwClock w) else ReqReport m)
      | None \<Rightarrow> at_pc w c (ReqProbing probe))"

text \<open>The probe's stats.  On an error a readiness probe goes on with the empty map, a report with the partial one.\<close>

definition km_probe :: "(nat \<Rightarrow> go_error option) \<Rightarrow> (string \<Rightarrow> go_error option) \<Rightarrow> nat \<Rightarrow> bool \<Rightarrow> daemon_world \<Rightarrow> daemon_world" where
  "km_probe ctx stat c probe w =
     (case ProbeKernelModules ctx stat of
        (mods, Some err) \<Rightarrow> at_pc w c (if probe then ReqBound Map.empty (dwClock w) else ReqReport mods)
      | (mods, None) \<Rightarrow> (at_pc w c (ReqProbed probe mods))\<lparr>dwStats := stat # dwStats w\<rparr>)"

definition km_store :: "nat \<Rightarrow> bool \<Rightarrow> module_map \<Rightarrow> daemon_world \<Rightarrow> daemon_world" where
  "km_store c probe mods w =
     (case KernelModules_store (dwClock w) mods (dwSrc w) of
        (m, src) \<Rightarrow> (at_pc w c (if probe then ReqBound m (dwClock w) else ReqReport m))
          \<lparr>dwSrc := src,
           dwLanded := (if KernelModules_lookup (dwClock w) (dwSrc w) = None then (m, dwClock w) # dwLanded w else dwLanded w)\<rparr>)"

text \<open>The last load, the result sent to the handler and the deferred release of the slot.\<close>

definition probe_finish :: "string \<Rightarrow> go_error option \<Rightarrow> nat \<Rightarrow> module_map \<Rightarrow> int \<Rightarrow> bool \<Rightarrow> bool \<Rightarrow> serve_phase \<Rightarrow> daemon_world \<Rightarrow> daemon_world" where
  "probe_finish path access c mods t bound acc ph w =
     (at_pc w c (ReqResult \<lparr>ListenerBound = bound, Accepting = acc, StatusWritable = statusSocketWritable path access, Modules = mods\<rparr> t ph))
       \<lparr>dwSlot := dwSlot w - 1\<rparr>"

fun in_probe :: "req_pc \<Rightarrow> bool" where
  "in_probe (ReqModules probe) = probe"
| "in_probe (ReqProbing probe) = probe"
| "in_probe (ReqProbed probe _) = probe"
| "in_probe (ReqBound _ _) = True"
| "in_probe (ReqAccept _ _ _) = True"
| "in_probe (ReqWritable _ _ _ _ _) = True"
| "in_probe _ = False"

definition readyz_answer :: "readinessState \<Rightarrow> nat" where
  "readyz_answer state = (if ready state then StatusOK else StatusServiceUnavailable)"

inductive ready_step :: "daemon_world \<Rightarrow> daemon_world \<Rightarrow> bool" where
  rs_tick: "0 \<le> d \<Longrightarrow> ready_step w (w\<lparr>dwClock := dwClock w + d\<rparr>)"
| rs_serve: "dwPhase w = ServePending \<Longrightarrow> ready_step w (w\<lparr>dwPhase := ServeRunning\<rparr>)"
| rs_accept: "dwPhase w = ServeRunning \<Longrightarrow> ready_step w (accept_entry w)"
| rs_return: "dwPhase w = ServeRunning \<Longrightarrow> ready_step w (w\<lparr>dwPhase := ServeReturned\<rparr>)"
| rs_marked: "dwPhase w = ServeReturned \<Longrightarrow>
    ready_step w (w\<lparr>dwPhase := ServeMarked, dwSrc := markAccepting False (dwSrc w)\<rparr>)"
| rs_drain: "dwPC w c = ReqNew \<Longrightarrow> dwReply w c = None \<Longrightarrow>
    ready_step w (at_pc (handleStatusDrain c w) c (ReqReport Map.empty))"
| rs_drain_mark: "dwDrainPC w = DrainSpawned \<Longrightarrow> ready_step w (Drain_mark w)"
| rs_drain_cancel: "dwDrainPC w = DrainMarked \<Longrightarrow> ready_step w (w\<lparr>dwDrainPC := DrainDone\<rparr>)"
| rs_request: "dwPC w c = ReqNew \<Longrightarrow> dwReply w c = None \<Longrightarrow> ready_step w (readyz_request gone c w)"
| rs_report: "dwPC w c = ReqNew \<Longrightarrow> dwReply w c = None \<Longrightarrow> ready_step w (at_pc w c (ReqModules False))"
| rs_enter: "dwPC w c = ReqModules probe \<Longrightarrow> ready_step w (km_enter c probe w)"
| rs_probe: "dwPC w c = ReqProbing probe \<Longrightarrow> ready_step w (km_probe ctx stat c probe w)"
| rs_store: "dwPC w c = ReqProbed probe mods \<Longrightarrow> ready_step w (km_store c probe mods w)"
| rs_bound: "dwPC w c = ReqBound mods t \<Longrightarrow> ready_step w (at_pc w c (ReqAccept mods t (seListenerBound (dwSrc w))))"
| rs_accepting: "dwPC w c = ReqAccept mods t bound \<Longrightarrow>
    ready_step w (at_pc w c (ReqWritable mods t bound (seAccepting (dwSrc w)) (dwPhase w)))"
| rs_finish: "dwPC w c = ReqWritable mods t bound acc ph \<Longrightarrow> ready_step w (probe_finish path access c mods t bound acc ph w)"
| rs_answer: "dwPC w c = ReqResult state t ph \<Longrightarrow> dwReply w c = None \<Longrightarrow> ready_step w (reply w c (readyz_answer state))"
| rs_timeout: "in_probe (dwPC w c) \<or> dwPC w c = ReqResult state t ph \<Longrightarrow> dwReply w c = None \<Longrightarrow> ready_step w (reply w c StatusServiceUnavailable)"
| rs_reported: "dwPC w c = ReqReport mods \<Longrightarrow> dwReply w c = None \<Longrightarrow> ready_step w (reply w c StatusOK)"

text \<open>The daemon as \<open>runDaemon\<close> sets it up.\<close>

definition ready_init :: "string option \<Rightarrow> bool \<Rightarrow> int \<Rightarrow> daemon_world" where
  "ready_init addr activation now =
     \<lparr>dwSrc = setDrain (newStatusExporter addr activation), dwClock = now, dwPhase = ServePending, dwOnce = False,
      dwDrainStarted = False, dwDrainPC = DrainNone, dwSlot = 0, dwPC = (\<lambda>_. ReqNew), dwReply = (\<lambda>_. None),
      dwStats = [], dwLanded = []\<rparr>"

inductive ready_reach :: "string option \<Rightarrow> daemon_world \<Rightarrow> bool" for addr where
  rr_init: "ready_reach addr (ready_init addr activation now)"
| rr_next: "ready_reach addr w \<Longrightarrow> ready_step w w' \<Longrightarrow> ready_reach addr w'"

inductive_cases ready_stepE: "ready_step w w'"

section \<open>Probing the modules\<close>

text \<open>What a probe that is not interrupted reports: the three modules, each by its own stat.\<close>

definition probed_map :: "(string \<Rightarrow> go_error option) \<Rightarrow> module_map" where
  "probed_map stat = (\<lambda>name. if name \<in> set probedModuleNames then Some (probeOneAtWithStat moduleSysfsRoot name stat) else None)"

lemma ProbeKernelModules_complete: "ProbeKernelModules ctx stat = (m, None) \<Longrightarrow> m = probed_map stat"
  by (auto simp: ProbeKernelModules_def probeKernelModulesPlatform_def probedModuleNames_def probed_map_def module_names
      unknownModuleStates_def split: option.splits intro!: ext)

lemma probed_loaded:
  "probed_map stat name = Some ModuleStateLoaded \<longleftrightarrow> name \<in> set probedModuleNames \<and> stat (path_Join [moduleSysfsRoot, name]) = None"
  by (auto simp: probed_map_def probeOneAtWithStat_def split: option.split if_splits)

section \<open>Invariants\<close>

text \<open>A map that was read at time \<open>t\<close>: empty, or written to the cache at most the cache's lifetime before.\<close>

definition fresh_mods :: "(module_map \<times> int) list \<Rightarrow> int \<Rightarrow> module_map \<Rightarrow> bool" where
  "fresh_mods landed t m \<longleftrightarrow> m = Map.empty \<or> (\<exists>s. (m, s) \<in> set landed \<and> s \<le> t \<and> t < s + kernelModuleProbeTTL)"

definition armed_phase :: "serve_phase \<Rightarrow> bool" where
  "armed_phase ph \<longleftrightarrow> ph = ServeRunning \<or> ph = ServeReturned"

fun pc_ok :: "bool \<Rightarrow> daemon_world \<Rightarrow> req_pc \<Rightarrow> bool" where
  "pc_ok b w (ReqProbed probe m) = (m \<in> probed_map ` set (dwStats w))"
| "pc_ok b w (ReqBound m t) = fresh_mods (dwLanded w) t m"
| "pc_ok b w (ReqAccept m t bound) = (fresh_mods (dwLanded w) t m \<and> bound = b)"
| "pc_ok b w (ReqWritable m t bound acc ph) = (fresh_mods (dwLanded w) t m \<and> bound = b \<and> (acc \<longrightarrow> armed_phase ph))"
| "pc_ok b w (ReqResult st t ph) = (fresh_mods (dwLanded w) t (Modules st) \<and> ListenerBound st = b \<and> (Accepting st \<longrightarrow> armed_phase ph))"
| "pc_ok b w _ = True"

definition reply_ok :: "nat option \<Rightarrow> req_pc \<Rightarrow> bool" where
  "reply_ok r pc \<longleftrightarrow> (r = Some StatusOK \<longrightarrow> pc \<noteq> ReqNew \<and> \<not> in_probe pc \<and> (\<forall>st t ph. pc = ReqResult st t ph \<longrightarrow> ready st))"

definition world_ok :: "string option \<Rightarrow> daemon_world \<Rightarrow> bool" where
  "world_ok addr w \<longleftrightarrow>
     (seAccepting (dwSrc w) \<longrightarrow> dwOnce w \<and> armed_phase (dwPhase w)) \<and> (dwOnce w \<longrightarrow> dwPhase w \<noteq> ServePending)
   \<and> seListenerBound (dwSrc w) = (addr \<noteq> None)
   \<and> (\<forall>(m, s) \<in> set (dwLanded w). m \<in> probed_map ` set (dwStats w) \<and> s \<le> dwClock w)
   \<and> (\<forall>m. kmValue (dwSrc w) = Some m \<longrightarrow> (\<exists>s. (m, s) \<in> set (dwLanded w) \<and> kmExpiry (dwSrc w) = s + kernelModuleProbeTTL))"

definition requests_ok :: "string option \<Rightarrow> daemon_world \<Rightarrow> bool" where
  "requests_ok addr w \<longleftrightarrow> (\<forall>c. pc_ok (addr \<noteq> None) w (dwPC w c) \<and> reply_ok (dwReply w c) (dwPC w c))"

definition slot_ok :: "daemon_world \<Rightarrow> bool" where
  "slot_ok w \<longleftrightarrow> finite {c. in_probe (dwPC w c)} \<and> card {c. in_probe (dwPC w c)} = dwSlot w \<and> dwSlot w \<le> readinessProbeConcurrency"

lemmas ready_ops = accept_entry_def handleStatusDrain_def Drain_mark_def readyz_request_def km_enter_def km_probe_def km_store_def
  probe_finish_def markAccepting_def KernelModules_lookup_def KernelModules_store_def

lemma slot_ok_upd:
  assumes "slot_ok w" "in_probe (dwPC w c) = in_probe pc" "dwPC w' = (dwPC w)(c := pc)" "dwSlot w' = dwSlot w"
  shows "slot_ok w'"
proof -
  have "{x. in_probe (dwPC w' x)} = {x. in_probe (dwPC w x)}"
    using assms(2,3) by auto
  thus ?thesis
    using assms(1,4) by (simp add: slot_ok_def)
qed

lemma slot_ok_step: "ready_step w w' \<Longrightarrow> slot_ok w \<Longrightarrow> slot_ok w'"
proof (induction rule: ready_step.induct)
  case (rs_request w c gone)
  have "in_probe (dwPC w c) = False"
    by (simp add: rs_request)
  moreover have "{x. x \<noteq> c \<longrightarrow> in_probe (dwPC w x)} = insert c {x. in_probe (dwPC w x)}"
    by auto
  ultimately show ?case
    using rs_request.prems by (auto simp: slot_ok_def readyz_request_def card_insert_if)
next
  case (rs_finish w c mods t bound acc ph path access)
  have probes: "{x. in_probe (dwPC (probe_finish path access c mods t bound acc ph w) x)} = {x. in_probe (dwPC w x)} - {c}"
    by (auto simp: probe_finish_def)
  have slot: "dwSlot (probe_finish path access c mods t bound acc ph w) = dwSlot w - 1"
    by (simp add: probe_finish_def)
  have "c \<in> {x. in_probe (dwPC w x)}"
    by (simp add: rs_finish)
  thus ?case
    using rs_finish.prems unfolding slot_ok_def probes slot by (simp add: card_Diff_singleton le_diff_conv)
next
  case (rs_drain w c)
  show ?case
    by (rule slot_ok_upd [OF rs_drain.prems, of c "ReqReport Map.empty"]) (simp_all add: rs_drain handleStatusDrain_def)
next
  case (rs_report w c)
  show ?case
    by (rule slot_ok_upd [OF rs_report.prems, of c "ReqModules False"]) (simp_all add: rs_report)
next
  case (rs_enter w c probe)
  show ?case
    by (rule slot_ok_upd [OF rs_enter.prems, of c "dwPC (km_enter c probe w) c"])
       (auto simp: rs_enter km_enter_def split: option.split)
next
  case (rs_probe w c probe ctx stat)
  show ?case
    by (rule slot_ok_upd [OF rs_probe.prems, of c "dwPC (km_probe ctx stat c probe w) c"])
       (auto simp: rs_probe km_probe_def split: option.split prod.split)
next
  case (rs_store w c probe mods)
  show ?case
    by (rule slot_ok_upd [OF rs_store.prems, of c "dwPC (km_store c probe mods w) c"])
       (auto simp: rs_store km_store_def split: prod.split)
next
  case (rs_bound w c mods t)
  show ?case
    by (rule slot_ok_upd [OF rs_bound.prems, of c]) (simp_all add: rs_bound)
next
  case (rs_accepting w c mods t bound)
  show ?case
    by (rule slot_ok_upd [OF rs_accepting.prems, of c]) (simp_all add: rs_accepting)
qed (auto simp: slot_ok_def accept_entry_def Drain_mark_def)

lemma world_ok_step: "ready_step w w' \<Longrightarrow> world_ok addr w \<Longrightarrow> requests_ok addr w \<Longrightarrow> world_ok addr w'"
proof (induction rule: ready_step.induct)
  case (rs_store w c probe mods)
  have m: "mods \<in> probed_map ` set (dwStats w)"
    using rs_store by (auto simp: requests_ok_def dest: spec [of _ c])
  show ?case
  proof (cases "KernelModules_lookup (dwClock w) (dwSrc w)")
    case None
    thus ?thesis
      using rs_store.prems(1) m by (auto simp: world_ok_def km_store_def KernelModules_store_def)
  next
    case (Some m')
    thus ?thesis
      using rs_store.prems(1) by (auto simp: world_ok_def km_store_def KernelModules_store_def)
  qed
next
  case (rs_probe w c probe ctx stat)
  thus ?case
    by (auto simp: world_ok_def km_probe_def split: prod.split option.split)
qed (auto simp: world_ok_def armed_phase_def accept_entry_def handleStatusDrain_def Drain_mark_def readyz_request_def km_enter_def
      probe_finish_def markAccepting_def split: option.split)

text \<open>Requests: what was read stays true because the recorded probes and cache writes only grow.\<close>

lemma pc_ok_mono:
  "pc_ok b w pc \<Longrightarrow> set (dwStats w) \<subseteq> set (dwStats w') \<Longrightarrow> set (dwLanded w) \<subseteq> set (dwLanded w') \<Longrightarrow> pc_ok b w' pc"
  by (cases "(b, w, pc)" rule: pc_ok.cases) (auto simp: fresh_mods_def)

lemma ready_step_grows: "ready_step w w' \<Longrightarrow> set (dwStats w) \<subseteq> set (dwStats w') \<and> set (dwLanded w) \<subseteq> set (dwLanded w')"
  by (induction rule: ready_step.induct)
     (auto simp: accept_entry_def handleStatusDrain_def Drain_mark_def readyz_request_def km_enter_def km_probe_def km_store_def
       probe_finish_def split: option.split prod.split)

lemma lookup_fresh:
  assumes "world_ok addr w" "KernelModules_lookup (dwClock w) (dwSrc w) = Some m"
  shows "fresh_mods (dwLanded w) (dwClock w) m"
  using assms by (fastforce simp: world_ok_def KernelModules_lookup_def fresh_mods_def split: option.splits if_splits)

text \<open>The request whose turn it is; every other request keeps its place.\<close>

lemma requests_ok_upd:
  assumes "ready_step w w'" "requests_ok addr w" "\<And>d. d \<noteq> c \<Longrightarrow> dwPC w' d = dwPC w d \<and> dwReply w' d = dwReply w d"
    and "pc_ok (addr \<noteq> None) w' (dwPC w' c)" "reply_ok (dwReply w' c) (dwPC w' c)"
  shows "requests_ok addr w'"
  unfolding requests_ok_def
proof
  fix d
  show "pc_ok (addr \<noteq> None) w' (dwPC w' d) \<and> reply_ok (dwReply w' d) (dwPC w' d)"
  proof (cases "d = c")
    case False
    thus ?thesis
      using assms(2,3) pc_ok_mono ready_step_grows [OF assms(1)] by (metis requests_ok_def)
  qed (use assms(4,5) in simp)
qed

lemma requests_ok_same:
  assumes "ready_step w w'" "requests_ok addr w" "dwPC w' = dwPC w" "dwReply w' = dwReply w"
  shows "requests_ok addr w'"
  using assms(2-4) pc_ok_mono ready_step_grows [OF assms(1)] by (metis requests_ok_def)

lemma requests_ok_step:
  assumes "ready_step w w'" "world_ok addr w" "requests_ok addr w"
  shows "requests_ok addr w'"
  using assms(1)
proof cases
  case (rs_enter c probe)
  show ?thesis
    by (rule requests_ok_upd [OF assms(1,3), of c])
       (use rs_enter assms(2,3) lookup_fresh in \<open>auto simp: km_enter_def requests_ok_def reply_ok_def split: option.split\<close>)
next
  case (rs_probe c probe ctx stat)
  show ?thesis
    by (rule requests_ok_upd [OF assms(1,3), of c])
       (use rs_probe assms(3) ProbeKernelModules_complete in
         \<open>auto simp: km_probe_def requests_ok_def reply_ok_def fresh_mods_def split: option.split prod.split\<close>)
next
  case (rs_store c probe mods)
  show ?thesis
    by (rule requests_ok_upd [OF assms(1,3), of c])
       (use rs_store assms(2,3) lookup_fresh in
         \<open>auto simp: km_store_def KernelModules_store_def requests_ok_def reply_ok_def fresh_mods_def kernelModuleProbeTTL_def split: option.split\<close>)
next
  case (rs_drain c)
  show ?thesis
    by (rule requests_ok_upd [OF assms(1,3), of c]) (use rs_drain in \<open>auto simp: handleStatusDrain_def reply_ok_def\<close>)
next
  case (rs_request c gone)
  show ?thesis
    by (rule requests_ok_upd [OF assms(1,3), of c]) (use rs_request in \<open>auto simp: readyz_request_def reply_ok_def http_codes\<close>)
next
  case (rs_report c)
  show ?thesis
    by (rule requests_ok_upd [OF assms(1,3), of c]) (use rs_report in \<open>auto simp: reply_ok_def\<close>)
next
  case (rs_bound c mods t)
  show ?thesis
    by (rule requests_ok_upd [OF assms(1,3), of c])
       (use rs_bound assms(2,3) in \<open>auto simp: requests_ok_def world_ok_def reply_ok_def dest: spec [of _ c]\<close>)
next
  case (rs_accepting c mods t bound)
  show ?thesis
    by (rule requests_ok_upd [OF assms(1,3), of c])
       (use rs_accepting assms(2,3) in \<open>auto simp: requests_ok_def world_ok_def reply_ok_def dest: spec [of _ c]\<close>)
next
  case (rs_finish c mods t bound acc ph path access)
  show ?thesis
    by (rule requests_ok_upd [OF assms(1,3), of c])
       (use rs_finish assms(3) in \<open>auto simp: requests_ok_def reply_ok_def probe_finish_def dest: spec [of _ c]\<close>)
next
  case (rs_answer c state t ph)
  show ?thesis
    by (rule requests_ok_upd [OF assms(1,3), of c])
       (use rs_answer assms(3) in \<open>auto simp: requests_ok_def reply_ok_def readyz_answer_def http_codes dest: spec [of _ c]\<close>)
next
  case (rs_timeout c state t ph)
  show ?thesis
    by (rule requests_ok_upd [OF assms(1,3), of c])
       (use rs_timeout assms(3) pc_ok_mono [of _ w] in \<open>auto simp: requests_ok_def reply_ok_def http_codes\<close>)
next
  case (rs_reported c mods)
  show ?thesis
    by (rule requests_ok_upd [OF assms(1,3), of c]) (use rs_reported in \<open>auto simp: reply_ok_def\<close>)
qed (rule requests_ok_same [OF assms(1,3)]; simp add: accept_entry_def Drain_mark_def)+

lemma ready_invariant:
  assumes "ready_reach addr w"
  shows "world_ok addr w \<and> requests_ok addr w \<and> slot_ok w"
  using assms
proof induction
  case (rr_init activation now)
  show ?case
    by (auto simp: ready_init_def world_ok_def requests_ok_def slot_ok_def newStatusExporter_def setDrain_def reply_ok_def
        readinessProbeConcurrency_def)
next
  case (rr_next w w')
  thus ?case
    using world_ok_step requests_ok_step slot_ok_step by blast
qed


text \<open>A daemon that serves, and one request for its readiness, step by step.\<close>

definition loaded_stat :: "string \<Rightarrow> go_error option" where
  "loaded_stat path = None"

definition serving_world :: daemon_world where
  "serving_world = accept_entry ((ready_init (Some '':3240'') False 0)\<lparr>dwPhase := ServeRunning\<rparr>)"

lemma probe_loaded: "ProbeKernelModules (\<lambda>_. None) loaded_stat = (probed_map loaded_stat, None)"
proof -
  have "\<exists>m. ProbeKernelModules (\<lambda>_. None) loaded_stat = (m, None)"
    by (simp add: ProbeKernelModules_def probeKernelModulesPlatform_def probedModuleNames_def)
  thus ?thesis
    using ProbeKernelModules_complete by blast
qed

lemma serving_reach: "ready_reach (Some '':3240'') serving_world"
  unfolding serving_world_def
  by (rule rr_next [OF rr_next [OF rr_init [of _ False 0] rs_serve] rs_accept]) (simp_all add: ready_init_def)

abbreviation all_loaded :: module_map where "all_loaded \<equiv> probed_map loaded_stat"

definition probed_world :: daemon_world where
  "probed_world = km_store 7 True all_loaded (km_probe (\<lambda>_. None) loaded_stat 7 True (km_enter 7 True (readyz_request False 7 serving_world)))"

lemmas sample_ready = serving_world_def ready_init_def newStatusExporter_def setDrain_def accept_entry_def markAccepting_def
  readyz_request_def readinessProbeConcurrency_def km_enter_def km_probe_def km_store_def KernelModules_lookup_def
  KernelModules_store_def probe_loaded kernelModuleProbeTTL_def

lemma probed_reach: "ready_reach (Some '':3240'') probed_world"
proof -
  have "ready_reach (Some '':3240'') (readyz_request False 7 serving_world)"
    by (rule rr_next [OF serving_reach rs_request]) (simp_all add: sample_ready)
  hence "ready_reach (Some '':3240'') (km_enter 7 True (readyz_request False 7 serving_world))"
    by (rule rr_next [OF _ rs_enter]) (simp add: sample_ready)
  hence "ready_reach (Some '':3240'') (km_probe (\<lambda>_. None) loaded_stat 7 True (km_enter 7 True (readyz_request False 7 serving_world)))"
    by (rule rr_next [OF _ rs_probe]) (simp add: sample_ready)
  thus ?thesis
    unfolding probed_world_def by (rule rr_next [OF _ rs_store]) (simp add: sample_ready)
qed

lemma probed_world_at:
  "dwPC probed_world 7 = ReqBound all_loaded 0" "seListenerBound (dwSrc probed_world)" "seAccepting (dwSrc probed_world)"
  "dwPhase probed_world = ServeRunning" "dwReply probed_world 7 = None"
  by (simp_all add: probed_world_def sample_ready)

definition answered_world :: daemon_world where
  "answered_world =
     (let w = at_pc (at_pc probed_world 7 (ReqAccept all_loaded 0 True)) 7 (ReqWritable all_loaded 0 True True ServeRunning)
      in reply (probe_finish [] None 7 all_loaded 0 True True ServeRunning w) 7 StatusOK)"

lemma answered_reach: "ready_reach (Some '':3240'') answered_world"
proof -
  have "ready_reach (Some '':3240'') (at_pc probed_world 7 (ReqAccept all_loaded 0 True))"
    using rr_next [OF probed_reach rs_bound [OF probed_world_at(1)]] by (simp add: probed_world_at)
  hence "ready_reach (Some '':3240'') (at_pc (at_pc probed_world 7 (ReqAccept all_loaded 0 True)) 7 (ReqWritable all_loaded 0 True True ServeRunning))"
    using rr_next [OF _ rs_accepting [of _ 7 all_loaded 0 True]] by (fastforce simp: probed_world_at)
  from rr_next [OF this rs_finish [of _ 7 all_loaded 0 True True ServeRunning "[]" None]]
  have r: "ready_reach (Some '':3240'') (probe_finish [] None 7 all_loaded 0 True True ServeRunning
      (at_pc (at_pc probed_world 7 (ReqAccept all_loaded 0 True)) 7 (ReqWritable all_loaded 0 True True ServeRunning)))"
    by simp
  have "ready \<lparr>ListenerBound = True, Accepting = True, StatusWritable = statusSocketWritable [] None, Modules = all_loaded\<rparr>"
    by (simp add: ready_def statusSocketWritable_def probed_loaded loaded_stat_def probedModuleNames_def)
  with rr_next [OF r rs_answer [of _ 7]] show ?thesis
    by (simp add: answered_world_def probe_finish_def probed_world_at readyz_answer_def)
qed


lemma once_cleared_step:
  "ready_step w w' \<Longrightarrow> dwOnce w \<and> \<not> seAccepting (dwSrc w) \<Longrightarrow> dwOnce w' \<and> \<not> seAccepting (dwSrc w')"
  by (induction rule: ready_step.induct)
     (auto simp: ready_ops split: option.split prod.split)

text \<open>Once the accept loop has been entered, accepting never comes back after it was cleared, by a drain or by the
  return of \<open>Serve\<close>: whatever the daemon does next, no probe reads it as set again.\<close>

theorem accepting_stays_cleared:
  assumes "ready_step\<^sup>*\<^sup>* w w'" "dwOnce w" "\<not> seAccepting (dwSrc w)"
  shows "dwOnce w' \<and> \<not> seAccepting (dwSrc w')"
  using assms(1) by (induction rule: rtranclp_induct) (use assms(2,3) once_cleared_step in auto)

theorem accepting_stays_cleared_witness:
  "\<not> seAccepting (dwSrc (serving_world\<lparr>dwPhase := ServeMarked, dwSrc := markAccepting False (dwSrc serving_world), dwClock := 9\<rparr>))"
proof -
  let ?w = "serving_world\<lparr>dwPhase := ServeMarked, dwSrc := markAccepting False (dwSrc serving_world)\<rparr>"
  have "ready_step ?w (?w\<lparr>dwClock := dwClock ?w + 9\<rparr>)"
    by (rule rs_tick) simp
  moreover have "dwClock ?w = 0" "dwOnce ?w" "\<not> seAccepting (dwSrc ?w)"
    by (simp_all add: sample_ready)
  ultimately show ?thesis
    using accepting_stays_cleared [of ?w "?w\<lparr>dwClock := dwClock ?w + 9\<rparr>"] by simp
qed

text \<open>A drain that is handled before the accept loop is entered has no such effect.  The status server answers requests
  before \<open>Serve\<close> is called; the drain clears the flag and cancels, and the loop's first \<open>Accept\<close> sets the flag again, so that
  the daemon reports that it accepts although its drain is under way.\<close>

theorem drain_before_accept:
  "\<exists>w. ready_reach (Some '':3240'') w \<and> dwDrainPC w = DrainDone \<and> dwPhase w = ServeRunning \<and> seAccepting (dwSrc w)"
proof -
  let ?w1 = "at_pc (handleStatusDrain 1 (ready_init (Some '':3240'') False 0)) 1 (ReqReport Map.empty)"
  let ?w2 = "(Drain_mark ?w1)\<lparr>dwDrainPC := DrainDone\<rparr>"
  have "ready_reach (Some '':3240'') ?w1"
    by (rule rr_next [OF rr_init rs_drain]) (simp_all add: ready_init_def)
  hence "ready_reach (Some '':3240'') (Drain_mark ?w1)"
    by (rule rr_next [OF _ rs_drain_mark]) (simp add: ready_init_def handleStatusDrain_def)
  hence "ready_reach (Some '':3240'') ?w2"
    by (rule rr_next [OF _ rs_drain_cancel]) (simp add: Drain_mark_def)
  hence "ready_reach (Some '':3240'') (?w2\<lparr>dwPhase := ServeRunning\<rparr>)"
    by (rule rr_next [OF _ rs_serve]) (simp add: ready_init_def handleStatusDrain_def Drain_mark_def)
  hence "ready_reach (Some '':3240'') (accept_entry (?w2\<lparr>dwPhase := ServeRunning\<rparr>))"
    by (rule rr_next [OF _ rs_accept]) simp
  thus ?thesis
    by (intro exI [of _ "accept_entry (?w2\<lparr>dwPhase := ServeRunning\<rparr>)"] conjI)
       (simp_all add: accept_entry_def markAccepting_def ready_init_def handleStatusDrain_def Drain_mark_def)
qed

end
