(* ===== verification/Cli_Render.thy ===== *)
theory Cli_Render
  imports Go_Text
begin

text \<open>
  \<open>cmd/usbip-go/table.go\<close>: the escaping that every dynamic cell of a table passes before it reaches the terminal.  Go's loop
  over a string decodes UTF-8, a malformed byte giving U+FFFD and advancing by one; both directions of
  the encoding are written out, since what a terminal sees are bytes.
\<close>

section \<open>UTF-8 as in unicode/utf8\<close>

definition RuneError :: nat where "RuneError = 0xFFFD"

abbreviation byte :: "char \<Rightarrow> nat" where "byte \<equiv> of_char"

definition cont_byte :: "char \<Rightarrow> bool" where
  "cont_byte c \<longleftrightarrow> 128 \<le> byte c \<and> byte c < 192"

definition decode2 :: "nat \<Rightarrow> string \<Rightarrow> nat \<times> nat" where
  "decode2 x s =
     (case s of b # _ \<Rightarrow> if cont_byte b then ((x - 192) * 64 + (byte b - 128), 2) else (RuneError, 1) | [] \<Rightarrow> (RuneError, 1))"

text \<open>The second byte's range depends on the first: no overlong forms and no surrogates.\<close>

definition decode3 :: "nat \<Rightarrow> string \<Rightarrow> nat \<times> nat" where
  "decode3 x s =
     (case s of
        b # c # _ \<Rightarrow>
          if cont_byte b \<and> cont_byte c \<and> (x = 224 \<longrightarrow> 160 \<le> byte b) \<and> (x = 237 \<longrightarrow> byte b < 160)
          then ((x - 224) * 4096 + (byte b - 128) * 64 + (byte c - 128), 3) else (RuneError, 1)
      | _ \<Rightarrow> (RuneError, 1))"

definition decode4 :: "nat \<Rightarrow> string \<Rightarrow> nat \<times> nat" where
  "decode4 x s =
     (case s of
        b # c # d # _ \<Rightarrow>
          if cont_byte b \<and> cont_byte c \<and> cont_byte d \<and> (x = 240 \<longrightarrow> 144 \<le> byte b) \<and> (x = 244 \<longrightarrow> byte b < 144)
          then ((x - 240) * 262144 + (byte b - 128) * 4096 + (byte c - 128) * 64 + (byte d - 128), 4) else (RuneError, 1)
      | _ \<Rightarrow> (RuneError, 1))"

text \<open>The rune at the front of a string that is not empty, and its width.\<close>

definition DecodeRune :: "char \<Rightarrow> string \<Rightarrow> nat \<times> nat" where
  "DecodeRune a s =
     (let x = byte a
      in if x < 128 then (x, 1)
         else if 194 \<le> x \<and> x < 224 then decode2 x s
         else if 224 \<le> x \<and> x < 240 then decode3 x s
         else if 240 \<le> x \<and> x < 245 then decode4 x s
         else (RuneError, 1))"

function runes :: "string \<Rightarrow> nat list" where
  "runes [] = []"
| "runes (a # s) = fst (DecodeRune a s) # runes (drop (snd (DecodeRune a s) - 1) s)"
  by pat_completeness auto
termination
  by (relation "measure length") auto

definition valid_rune :: "nat \<Rightarrow> bool" where
  "valid_rune r \<longleftrightarrow> r < 0xD800 \<or> 0xE000 \<le> r \<and> r \<le> 0x10FFFF"

definition EncodeRune :: "nat \<Rightarrow> string" where
  "EncodeRune rune =
     (let r = (if valid_rune rune then rune else RuneError)
      in if r < 0x80 then [char_of r]
         else if r < 0x800 then [char_of (192 + r div 64), char_of (128 + r mod 64)]
         else if r < 0x10000 then [char_of (224 + r div 4096), char_of (128 + r div 64 mod 64), char_of (128 + r mod 64)]
         else [char_of (240 + r div 262144), char_of (128 + r div 4096 mod 64), char_of (128 + r div 64 mod 64), char_of (128 + r mod 64)])"

section \<open>table.go\<close>

text \<open>\<open>unicode.IsControl\<close>: category Cc.\<close>

definition IsControl :: "nat \<Rightarrow> bool" where
  "IsControl r \<longleftrightarrow> r < 32 \<or> 127 \<le> r \<and> r < 160"

definition escape_rune :: "nat \<Rightarrow> string" where
  "escape_rune char =
     (if \<not> IsControl char then EncodeRune char
      else let hex = format_base 16 char
        in [CHR 0x5C, CHR ''x''] @ (if length hex = 1 then ''0'' else []) @ hex)"

definition escapeTerminalControls :: "string \<Rightarrow> string" where
  "escapeTerminalControls value =
     (if \<not> list_ex IsControl (runes value) then value
      else concat (map escape_rune (runes value)))"

definition terminalSafeRow :: "string list \<Rightarrow> string list" where
  "terminalSafeRow cells = map escapeTerminalControls cells"

section \<open>Encoding and decoding\<close>

lemma byte_lt: "byte c < 256"
  using nat_of_char_less_256 by simp

lemma RuneError_valid [simp]: "valid_rune RuneError"
  by (simp add: valid_rune_def RuneError_def)

lemma decode3_valid:
  assumes "224 \<le> x" "x < 240"
  shows "valid_rune (fst (decode3 x s))"
proof -
  have "valid_rune ((x - 224) * 4096 + (y - 128) * 64 + (z - 128))"
    if "128 \<le> y" "y < 192" "128 \<le> z" "z < 192" "x = 237 \<longrightarrow> y < 160" for y z :: nat
  proof -
    define p q u where "p = x - 224" and "q = y - 128" and "u = z - 128"
    hence "x = 224 + p" "y = 128 + q" "z = 128 + u"
      using assms that by simp_all
    thus ?thesis
      using assms that by (cases "p \<le> 12"; cases "p = 13") (auto simp: valid_rune_def)
  qed
  thus ?thesis
    by (auto simp: decode3_def cont_byte_def split: list.split)
qed

lemma decode4_valid:
  assumes "240 \<le> x" "x < 245"
  shows "valid_rune (fst (decode4 x s))"
proof -
  have "valid_rune ((x - 240) * 262144 + (y - 128) * 4096 + (z - 128) * 64 + (v - 128))"
    if "128 \<le> y" "y < 192" "128 \<le> z" "z < 192" "128 \<le> v" "v < 192" "x = 240 \<longrightarrow> 144 \<le> y" "x = 244 \<longrightarrow> y < 144" for y z v :: nat
  proof -
    define p q u k where "p = x - 240" and "q = y - 128" and "u = z - 128" and "k = v - 128"
    hence "x = 240 + p" "y = 128 + q" "z = 128 + u" "v = 128 + k"
      using assms that by simp_all
    thus ?thesis
      using assms that by (cases "p = 0"; cases "p = 4") (auto simp: valid_rune_def)
  qed
  thus ?thesis
    by (auto simp: decode4_def cont_byte_def split: list.split)
qed

lemma decode2_valid: "x < 224 \<Longrightarrow> valid_rune (fst (decode2 x s))"
  by (auto simp: decode2_def cont_byte_def valid_rune_def RuneError_def split: list.split)

lemma DecodeRune_valid: "valid_rune (fst (DecodeRune a s))"
  by (auto simp: DecodeRune_def Let_def decode2_valid decode3_valid decode4_valid) (simp add: valid_rune_def)

lemma byte_char_of: "n < 256 \<Longrightarrow> byte (char_of n) = n"
  by simp

lemma rune_digits:
  fixes r :: nat
  shows "r div 64 * 64 + r mod 64 = r"
    "r div 4096 * 4096 + r div 64 mod 64 * 64 + r mod 64 = r"
    "r div 262144 * 262144 + r div 4096 mod 64 * 4096 + r div 64 mod 64 * 64 + r mod 64 = r"
proof -
  have "r div 4096 = r div 64 div 64" "r div 262144 = r div 4096 div 64"
    by (simp_all add: div_mult2_eq [symmetric])
  thus "r div 64 * 64 + r mod 64 = r" "r div 4096 * 4096 + r div 64 mod 64 * 64 + r mod 64 = r"
    "r div 262144 * 262144 + r div 4096 mod 64 * 4096 + r div 64 mod 64 * 64 + r mod 64 = r"
    using div_mult_mod_eq [of r 64] div_mult_mod_eq [of "r div 64" 64] div_mult_mod_eq [of "r div 4096" 64] by linarith+
qed

text \<open>Decoding the bytes made of given digits.\<close>

lemma decode4_digits:
  assumes "x < 5" "y < 64" "z < 64" "u < 64" "x = 0 \<longrightarrow> 16 \<le> y" "x = 4 \<longrightarrow> y < 16"
  shows "DecodeRune (char_of (240 + x)) (char_of (128 + y) # char_of (128 + z) # char_of (128 + u) # t)
    = (x * 262144 + y * 4096 + z * 64 + u, 4)"
proof -
  have "byte (char_of (240 + x)) = 240 + x" "byte (char_of (128 + y)) = 128 + y" "byte (char_of (128 + z)) = 128 + z"
      "byte (char_of (128 + u)) = 128 + u"
    using assms by (simp_all add: byte_char_of)
  thus ?thesis
    using assms by (simp add: DecodeRune_def decode4_def cont_byte_def Let_def)
qed

lemma decode3_digits:
  assumes "x < 16" "y < 64" "z < 64" "x = 0 \<longrightarrow> 32 \<le> y" "x = 13 \<longrightarrow> y < 32"
  shows "DecodeRune (char_of (224 + x)) (char_of (128 + y) # char_of (128 + z) # t) = (x * 4096 + y * 64 + z, 3)"
proof -
  have "byte (char_of (224 + x)) = 224 + x" "byte (char_of (128 + y)) = 128 + y" "byte (char_of (128 + z)) = 128 + z"
    using assms by (simp_all add: byte_char_of)
  thus ?thesis
    using assms by (simp add: DecodeRune_def decode3_def cont_byte_def Let_def)
qed

lemma DecodeRune_Encode:
  assumes "valid_rune r" "EncodeRune r = a # s"
  shows "DecodeRune a (s @ t) = (r, Suc (length s))"
proof -
  consider "r < 0x80" | "0x80 \<le> r" "r < 0x800" | "0x800 \<le> r" "r < 0x10000" | "0x10000 \<le> r"
    by linarith
  thus ?thesis
  proof cases
    case 1
    thus ?thesis
      using assms by (auto simp: EncodeRune_def DecodeRune_def Let_def)
  next
    case 2
    have "r div 64 < 32" "2 \<le> r div 64" "r mod 64 < 64"
      using 2 by auto
    thus ?thesis
      using assms 2 rune_digits(1) [of r] by (auto simp: EncodeRune_def DecodeRune_def decode2_def cont_byte_def Let_def)
  next
    case 3
    have d: "r div 4096 < 16" "r div 64 mod 64 < 64" "r mod 64 < 64"
      using 3 by auto
    have e: "r div 4096 = 0 \<longrightarrow> 32 \<le> r div 64 mod 64" "r div 4096 = 13 \<longrightarrow> r div 64 mod 64 < 32"
      using 3 assms(1) rune_digits(2) [of r] d unfolding valid_rune_def by linarith+
    have "a = char_of (224 + r div 4096)" "s = [char_of (128 + r div 64 mod 64), char_of (128 + r mod 64)]"
      using assms 3 by (simp_all add: EncodeRune_def Let_def)
    thus ?thesis
      using decode3_digits [OF d e, of t] rune_digits(2) [of r] by simp
  next
    case 4
    have "r \<le> 0x10FFFF"
      using assms(1) by (auto simp: valid_rune_def)
    hence d: "r div 262144 < 5" "r div 4096 mod 64 < 64" "r div 64 mod 64 < 64" "r mod 64 < 64"
      by auto
    have e: "r div 262144 = 0 \<longrightarrow> 16 \<le> r div 4096 mod 64" "r div 262144 = 4 \<longrightarrow> r div 4096 mod 64 < 16"
      using 4 \<open>r \<le> 0x10FFFF\<close> rune_digits(3) [of r] d by linarith+
    have "a = char_of (240 + r div 262144)"
        "s = [char_of (128 + r div 4096 mod 64), char_of (128 + r div 64 mod 64), char_of (128 + r mod 64)]"
      using assms 4 by (simp_all add: EncodeRune_def Let_def)
    thus ?thesis
      using decode4_digits [OF d e, of t] rune_digits(3) [of r] by simp
  qed
qed

lemma runes_Encode: "valid_rune r \<Longrightarrow> runes (EncodeRune r @ t) = r # runes t"
proof -
  assume v: "valid_rune r"
  obtain a s where e: "EncodeRune r = a # s"
    by (cases "EncodeRune r") (auto simp: EncodeRune_def Let_def split: if_splits)
  show ?thesis
    using DecodeRune_Encode [OF v e, of t] by (simp add: e)
qed

lemma runes_valid: "r \<in> set (runes s) \<Longrightarrow> valid_rune r"
  by (induction s rule: runes.induct) (auto simp: DecodeRune_valid)

lemma runes_ascii: "\<forall>c \<in> set p. byte c < 128 \<Longrightarrow> runes (p @ t) = map byte p @ runes t"
  by (induction p) (auto simp: DecodeRune_def)

section \<open>Escaping\<close>

text \<open>The runes an escaped rune shows as: itself, or the backslash, the x and its two digits.\<close>

definition shown :: "nat \<Rightarrow> nat list" where
  "shown r = (if IsControl r then map byte (escape_rune r) else [r])"

lemma hex_digits:
  assumes "n < 256"
  shows "format_base 16 n = (if n < 16 then [digit_char n] else [digit_char (n div 16), digit_char (n mod 16)])"
proof -
  have "n div 16 < 16"
    using assms by simp
  thus ?thesis
    by (simp add: format_base.simps [of 16 n] format_base.simps [of 16 "n div 16"])
qed

lemma hex_printable: "d < 16 \<Longrightarrow> 32 \<le> byte (digit_char d) \<and> byte (digit_char d) < 127"
  using digit_char_cases [of d] by auto

lemma escape_control:
  assumes "IsControl r"
  shows "\<forall>c \<in> set (escape_rune r). 32 \<le> byte c \<and> byte c < 127"
proof -
  have "r < 160"
    using assms by (auto simp: IsControl_def)
  thus ?thesis
    using assms hex_printable [of r] hex_printable [of "r div 16"] hex_printable [of "r mod 16"]
    by (auto simp: escape_rune_def hex_digits)
qed

lemma runes_escape: "\<forall>r \<in> set rs. valid_rune r \<Longrightarrow> runes (concat (map escape_rune rs)) = concat (map shown rs)"
proof (induction rs)
  case (Cons r rs)
  show ?case
  proof (cases "IsControl r")
    case True
    thus ?thesis
      using Cons escape_control [OF True] runes_ascii [of "escape_rune r"] by (force simp: shown_def)
  next
    case False
    thus ?thesis
      using Cons by (simp add: shown_def escape_rune_def runes_Encode)
  qed
qed simp

text \<open>No table cell can drive the terminal.  The escaped text decodes to the runes of the cell with every control code point
  replaced by a backslash, an x and its two hexadecimal digits, so it contains no control code point; a cell without one is
  left as it is, byte for byte.\<close>

theorem terminal_safe:
  "runes (escapeTerminalControls v) = concat (map shown (runes v))
   \<and> list_all (\<lambda>r. \<not> IsControl r) (runes (escapeTerminalControls v))
   \<and> (list_all (\<lambda>r. \<not> IsControl r) (runes v) = (escapeTerminalControls v = v))"
proof -
  have shown: "runes (escapeTerminalControls v) = concat (map shown (runes v))"
  proof (cases "list_ex IsControl (runes v)")
    case True
    thus ?thesis
      using runes_escape runes_valid by (simp add: escapeTerminalControls_def)
  next
    case False
    hence "map shown (runes v) = map (\<lambda>r. [r]) (runes v)"
      by (auto simp: shown_def list_ex_iff)
    hence "concat (map shown (runes v)) = runes v"
      by (simp only: concat_map_singleton) simp
    thus ?thesis
      using False by (simp add: escapeTerminalControls_def)
  qed
  moreover have "\<not> IsControl c" if "c \<in> set (shown r)" for c r
    using that escape_control [of r] by (auto simp: shown_def IsControl_def split: if_splits)
  ultimately have "list_all (\<lambda>r. \<not> IsControl r) (runes (escapeTerminalControls v))"
    by (auto simp: list_all_iff)
  moreover from this have "list_all (\<lambda>r. \<not> IsControl r) (runes v)" if "escapeTerminalControls v = v"
    using that by simp
  moreover have "escapeTerminalControls v = v" if "list_all (\<lambda>r. \<not> IsControl r) (runes v)"
    using that by (auto simp: escapeTerminalControls_def list_all_iff list_ex_iff)
  ultimately show ?thesis
    using shown by blast
qed

text \<open>The boundary is one of code points, not of bytes.  A byte of the C1 range that stands alone is malformed UTF-8; it decodes
  to U+FFFD, which is not a control, and the cell is passed on unchanged, with the byte in it.  With any control code point beside it
  the same byte is replaced by the encoding of U+FFFD.\<close>

theorem raw_c1_passes:
  "escapeTerminalControls [CHR 0x9B, CHR ''m''] = [CHR 0x9B, CHR ''m'']
   \<and> CHR 0x9B \<notin> set (escapeTerminalControls [CHR 0x9B, CHR ''m'', CHR 0x07])"
  by (simp add: escapeTerminalControls_def escape_rune_def EncodeRune_def DecodeRune_def IsControl_def RuneError_def valid_rune_def hex_digits
      digit_char_def char_of_def Let_def)

end
