(* ===== verification/Go_Json.thy ===== *)
theory Go_Json
  imports Cli_Render
begin

text \<open>
  JSON as \<open>encoding/json\<close> writes it with HTML escaping off, and a parser of that compact form.  The encoder turns malformed UTF-8
  into the replacement character and escapes quotes, backslashes, control characters and the two Unicode line separators; the parser
  returns strings as their runes.  \<open>read_json_encode\<close>: what is written reads back; \<open>json_printable\<close>: it stays on one line.
\<close>

section \<open>Values and the encoder\<close>

datatype 's json = JNull | JStr 's | JNum int | JBool bool | JObj "('s \<times> 's json) list" | JArr "'s json list"

abbreviation quote_char :: char where "quote_char \<equiv> CHR 0x22"
abbreviation backslash :: char where "backslash \<equiv> CHR 0x5C"

definition hex2 :: "nat \<Rightarrow> string" where
  "hex2 n = [digit_char (n div 16), digit_char (n mod 16)]"

text \<open>One rune; \<open>bad\<close>: it comes from a malformed byte.\<close>

definition json_rune :: "bool \<Rightarrow> nat \<Rightarrow> string" where
  "json_rune bad r =
     (if bad then backslash # ''ufffd''
      else if r = 0x22 then [backslash, quote_char]
      else if r = 0x5C then [backslash, backslash]
      else if r = 8 then [backslash, CHR ''b'']
      else if r = 12 then [backslash, CHR ''f'']
      else if r = 10 then [backslash, CHR ''n'']
      else if r = 13 then [backslash, CHR ''r'']
      else if r = 9 then [backslash, CHR ''t'']
      else if r < 32 then backslash # ''u00'' @ hex2 r
      else if r = 0x2028 \<or> r = 0x2029 then backslash # ''u202'' @ [digit_char (r mod 16)]
      else EncodeRune r)"

function json_chars :: "string \<Rightarrow> string" where
  "json_chars [] = []"
| "json_chars (a # s) =
     json_rune (snd (DecodeRune a s) = 1 \<and> 128 \<le> byte a) (fst (DecodeRune a s)) @ json_chars (drop (snd (DecodeRune a s) - 1) s)"
  by pat_completeness auto
termination
  by (relation "measure length") auto

definition json_string :: "string \<Rightarrow> string" where
  "json_string s = quote_char # json_chars s @ [quote_char]"

definition FormatInt :: "int \<Rightarrow> string" where
  "FormatInt n = (if n < 0 then CHR ''-'' # FormatUint (nat (- n)) else FormatUint (nat n))"

fun json_encode :: "string json \<Rightarrow> string"
  and json_fields :: "(string \<times> string json) list \<Rightarrow> string"
  and json_items :: "string json list \<Rightarrow> string" where
  "json_encode (JStr s) = json_string s"
| "json_encode (JNum n) = FormatInt n"
| "json_encode (JBool b) = (if b then ''true'' else ''false'')"
| "json_encode (JObj fs) = CHR ''{'' # json_fields fs @ [CHR ''}'']"
| "json_encode (JArr vs) = CHR ''['' # json_items vs @ [CHR '']'']"
| "json_encode JNull = ''null''"
| "json_fields [] = []"
| "json_fields [(k, v)] = json_string k @ CHR '':'' # json_encode v"
| "json_fields ((k, v) # f # fs) = json_string k @ CHR '':'' # json_encode v @ CHR '','' # json_fields (f # fs)"
| "json_items [] = []"
| "json_items [v] = json_encode v"
| "json_items (v # w # vs) = json_encode v @ CHR '','' # json_items (w # vs)"

section \<open>The parser\<close>

text \<open>The escapes after a backslash other than \<open>u\<close>.\<close>

definition simple_escape :: "char \<Rightarrow> nat option" where
  "simple_escape c =
     (if c = quote_char then Some 0x22 else if c = backslash then Some 0x5C else if c = CHR ''/'' then Some 0x2F
      else if c = CHR ''b'' then Some 8 else if c = CHR ''f'' then Some 12 else if c = CHR ''n'' then Some 10
      else if c = CHR ''r'' then Some 13 else if c = CHR ''t'' then Some 9 else None)"

definition hex4 :: "string \<Rightarrow> (nat \<times> string) option" where
  "hex4 s =
     (case s of
        a # b # c # d # t \<Rightarrow>
          (case (digit_val a, digit_val b, digit_val c, digit_val d) of
             (Some w, Some x, Some y, Some z) \<Rightarrow>
               if w < 16 \<and> x < 16 \<and> y < 16 \<and> z < 16 \<and> valid_rune (((w * 16 + x) * 16 + y) * 16 + z)
               then Some (((w * 16 + x) * 16 + y) * 16 + z, t) else None
           | _ \<Rightarrow> None)
      | _ \<Rightarrow> None)"

text \<open>The rest of a string after its opening quote: one rune, or its end.\<close>

definition parse_escape :: "string \<Rightarrow> (nat \<times> string) option" where
  "parse_escape s =
     (case s of
        [] \<Rightarrow> None
      | e # t \<Rightarrow> if e = CHR ''u'' then hex4 t else map_option (\<lambda>r. (r, t)) (simple_escape e))"

lemma parse_escape_shorter: "parse_escape s = Some (r, t) \<Longrightarrow> length t < length s"
  by (auto simp: parse_escape_def hex4_def split: list.splits option.splits if_splits)

function parse_chars :: "string \<Rightarrow> (nat list \<times> string) option" where
  "parse_chars [] = None"
| "parse_chars (a # s) =
     (if a = quote_char then Some ([], s)
      else if a = backslash then
        (case parse_escape s of
           None \<Rightarrow> None
         | Some (r, t) \<Rightarrow> map_option (\<lambda>(rs, u). (r # rs, u)) (parse_chars t))
      else if byte a < 32 then None
      else map_option (\<lambda>(rs, u). (fst (DecodeRune a s) # rs, u)) (parse_chars (drop (snd (DecodeRune a s) - 1) s)))"
  by pat_completeness auto
termination
  by (relation "measure length") (auto dest: parse_escape_shorter)

declare parse_chars.simps [simp del]

definition json_digit :: "char \<Rightarrow> bool" where
  "json_digit c \<longleftrightarrow> 48 \<le> byte c \<and> byte c < 58"

definition dec_value :: "string \<Rightarrow> nat" where
  "dec_value s = foldl (\<lambda>n c. n * 10 + (byte c - 48)) 0 s"

definition parse_nat :: "string \<Rightarrow> (nat \<times> string) option" where
  "parse_nat s = (if takeWhile json_digit s = [] then None else Some (dec_value (takeWhile json_digit s), dropWhile json_digit s))"

text \<open>Recursion on fuel: the length of the input is enough.\<close>

fun parse_value :: "nat \<Rightarrow> string \<Rightarrow> (nat list json \<times> string) option"
  and parse_fields :: "nat \<Rightarrow> string \<Rightarrow> ((nat list \<times> nat list json) list \<times> string) option"
  and parse_items :: "nat \<Rightarrow> string \<Rightarrow> (nat list json list \<times> string) option" where
  "parse_value 0 s = None"
| "parse_value (Suc n) s =
     (case s of
        [] \<Rightarrow> None
      | c # t \<Rightarrow>
          if c = quote_char then map_option (\<lambda>(rs, u). (JStr rs, u)) (parse_chars t)
          else if c = CHR ''{'' then
            (if HasPrefix t ''}'' then Some (JObj [], tl t) else map_option (\<lambda>(fs, u). (JObj fs, u)) (parse_fields n t))
          else if c = CHR ''['' then
            (if HasPrefix t '']'' then Some (JArr [], tl t) else map_option (\<lambda>(vs, u). (JArr vs, u)) (parse_items n t))
          else if c = CHR ''-'' then map_option (\<lambda>(k, u). (JNum (- int k), u)) (parse_nat t)
          else if json_digit c then map_option (\<lambda>(k, u). (JNum (int k), u)) (parse_nat s)
          else if HasPrefix s ''true'' then Some (JBool True, drop 4 s)
          else if HasPrefix s ''false'' then Some (JBool False, drop 5 s)
          else if HasPrefix s ''null'' then Some (JNull, drop 4 s)
          else None)"
| "parse_fields 0 s = None"
| "parse_fields (Suc n) s =
     (case s of
        [] \<Rightarrow> None
      | c # t \<Rightarrow>
          if c \<noteq> quote_char then None
          else case parse_chars t of
            None \<Rightarrow> None
          | Some (k, u) \<Rightarrow>
              if \<not> HasPrefix u '':'' then None
              else case parse_value n (tl u) of
                None \<Rightarrow> None
              | Some (v, w) \<Rightarrow>
                  if HasPrefix w ''}'' then Some ([(k, v)], tl w)
                  else if HasPrefix w '','' then map_option (\<lambda>(fs, x). ((k, v) # fs, x)) (parse_fields n (tl w))
                  else None)"
| "parse_items 0 s = None"
| "parse_items (Suc n) s =
     (case parse_value n s of
        None \<Rightarrow> None
      | Some (v, w) \<Rightarrow>
          if HasPrefix w '']'' then Some ([v], tl w)
          else if HasPrefix w '','' then map_option (\<lambda>(vs, x). (v # vs, x)) (parse_items n (tl w))
          else None)"

definition json_space :: "char \<Rightarrow> bool" where
  "json_space c \<longleftrightarrow> byte c \<in> {9, 10, 13, 32}"

definition parse_json :: "string \<Rightarrow> nat list json option" where
  "parse_json s =
     (case parse_value (length s) s of Some (v, u) \<Rightarrow> if list_all json_space u then Some v else None | None \<Rightarrow> None)"

section \<open>Strings read back\<close>

lemma byte_eq: "a = b \<longleftrightarrow> byte a = byte b"
  by (simp add: of_char_eq_iff)

lemma EncodeRune_front:
  assumes "valid_rune r" "32 \<le> r" "r \<noteq> 34" "r \<noteq> 92" "EncodeRune r = a # s"
  shows "a \<noteq> quote_char \<and> a \<noteq> backslash \<and> 32 \<le> byte a"
proof -
  have le: "r \<le> 0x10FFFF"
    using assms(1) by (auto simp: valid_rune_def)
  have "128 \<le> byte a \<or> byte a = r"
    using assms(1,5) le by (auto simp: EncodeRune_def Let_def split: if_splits)
  thus ?thesis
    using assms(2,3,4) by (auto simp: byte_eq)
qed

lemma hex_values:
  "digit_val (CHR ''0'') = Some 0" "digit_val (CHR ''2'') = Some 2" "digit_val (CHR ''d'') = Some 13" "digit_val (CHR ''f'') = Some 15"
  by code_simp+

lemma hex4_control: "r < 32 \<Longrightarrow> hex4 (CHR ''0'' # CHR ''0'' # hex2 r @ t) = Some (r, t)"
  by (simp add: hex4_def hex2_def digit_val_char valid_rune_def hex_values)

lemma hex4_separator: "d < 16 \<Longrightarrow> hex4 (''202'' @ digit_char d # t) = Some (0x2020 + d, t)"
  by (simp add: hex4_def digit_val_char valid_rune_def hex_values)

lemma hex4_separators: "r = 0x2028 \<or> r = 0x2029 \<Longrightarrow> hex4 (''202'' @ digit_char (r mod 16) # t) = Some (r, t)"
  using hex4_separator [of 8 t] hex4_separator [of 9 t] by (elim disjE) simp_all

lemma hex4_fffd: "hex4 (''fffd'' @ t) = Some (RuneError, t)"
  by (simp add: hex4_def hex_values valid_rune_def RuneError_def)

lemma parse_rune:
  assumes "valid_rune r" "bad \<Longrightarrow> r = RuneError"
  shows "parse_chars (json_rune bad r @ t) = map_option (\<lambda>(rs, u). (r # rs, u)) (parse_chars t)"
proof (cases "bad \<or> r < 32 \<or> r = 34 \<or> r = 92 \<or> r = 0x2028 \<or> r = 0x2029")
  case True
  thus ?thesis
    using hex4_fffd [of t] hex4_control [of r t] hex4_separators [of r t] assms(2)
    by (auto simp: json_rune_def parse_chars.simps(2) parse_escape_def simple_escape_def)
next
  case False
  obtain a s where e: "EncodeRune r = a # s"
    by (cases "EncodeRune r") (auto simp: EncodeRune_def Let_def split: if_splits)
  have "a \<noteq> quote_char \<and> a \<noteq> backslash \<and> 32 \<le> byte a"
    using EncodeRune_front [OF assms(1) _ _ _ e] False by simp
  moreover have "json_rune bad r = a # s"
    using False e by (simp add: json_rune_def)
  ultimately show ?thesis
    using DecodeRune_Encode [OF assms(1) e, of t] by (simp add: parse_chars.simps(2))
qed

lemma malformed_rune: "snd (DecodeRune a s) = 1 \<Longrightarrow> 128 \<le> byte a \<Longrightarrow> fst (DecodeRune a s) = RuneError"
  by (auto simp: DecodeRune_def decode2_def decode3_def decode4_def Let_def split: list.splits if_splits)

lemma parse_chars_json: "parse_chars (json_chars s @ quote_char # t) = Some (runes s, t)"
proof (induction s rule: json_chars.induct)
  case 1
  show ?case
    by (simp add: parse_chars.simps(2))
next
  case (2 a s)
  thus ?case
    by (simp add: parse_rune DecodeRune_valid malformed_rune)
qed

lemma parse_json_string: "json_string s @ t = quote_char # u \<Longrightarrow> parse_chars u = Some (runes s, t)"
  using parse_chars_json [of s t] by (simp add: json_string_def)

section \<open>Numbers read back\<close>

lemma FormatUint_digits: "c \<in> set (FormatUint n) \<Longrightarrow> json_digit c"
  using set_FormatUint [of c n] by (simp add: json_digit_def less_eq_char_def)

lemma dec_value_Format: "dec_value (FormatUint n) = n"
proof (induction n rule: FormatUint.induct)
  case (1 n)
  show ?case
  proof (cases "n < 10")
    case True
    thus ?thesis
      by (simp add: FormatUint.simps [of n] dec_value_def)
  next
    case False
    have "byte (char_of (48 + n mod 10)) = 48 + n mod 10"
      by (simp add: byte_char_of)
    thus ?thesis
      using 1 [OF False] False by (simp add: FormatUint.simps [of n] dec_value_def)
  qed
qed

definition no_digit :: "string \<Rightarrow> bool" where
  "no_digit s \<longleftrightarrow> (case s of [] \<Rightarrow> True | c # _ \<Rightarrow> \<not> json_digit c)"

lemma parse_nat_Format:
  assumes "no_digit t"
  shows "parse_nat (FormatUint n @ t) = Some (n, t)"
proof -
  have "takeWhile json_digit t = []" "dropWhile json_digit t = t"
    using assms by (auto simp: no_digit_def split: list.splits)
  moreover have "\<forall>c\<in>set (FormatUint n). json_digit c"
    using FormatUint_digits by blast
  ultimately show ?thesis
    by (simp add: parse_nat_def takeWhile_append dropWhile_append dec_value_Format)
qed

section \<open>Values read back\<close>

lemma HasPrefix_one [simp]: "HasPrefix (c # s) [d] \<longleftrightarrow> c = d" "\<not> HasPrefix [] [d]"
  by (auto simp: HasPrefix_def)

lemma digit_class: "json_digit c \<Longrightarrow> c \<noteq> quote_char \<and> c \<noteq> CHR ''{'' \<and> c \<noteq> CHR ''['' \<and> c \<noteq> CHR ''-'' \<and> c \<noteq> CHR '']''"
  by (auto simp: json_digit_def)

lemma FormatUint_front: "FormatUint n = c # t \<Longrightarrow> json_digit c"
  using FormatUint_digits [of c n] by simp

lemma parse_number:
  assumes "no_digit rest"
  shows "parse_value (Suc m) (FormatInt k @ rest) = Some (JNum k, rest)"
proof (cases "k < 0")
  case True
  thus ?thesis
    using parse_nat_Format [OF assms, of "nat (- k)"] by (simp add: FormatInt_def)
next
  case False
  obtain c t where e: "FormatUint (nat k) = c # t"
    using FormatUint_not_Nil by (meson neq_Nil_conv)
  show ?thesis
    using False e parse_nat_Format [OF assms, of "nat k"] FormatUint_front [OF e] digit_class [of c]
    by (simp add: FormatInt_def)
qed

lemma encode_front: "\<exists>c t. json_encode v = c # t \<and> c \<noteq> CHR '']''"
proof (cases v)
  case (JNum k)
  obtain c t where e: "FormatUint (nat k) = c # t"
    using FormatUint_not_Nil by (meson neq_Nil_conv)
  thus ?thesis
    using FormatUint_front [OF e] digit_class [of c] by (simp add: JNum FormatInt_def)
qed (auto simp: json_string_def)

lemma parse_string_value: "parse_value (Suc m) (json_string s @ rest) = Some (JStr (runes s), rest)"
  by (simp add: json_string_def parse_chars_json)

lemma fields_front: "fs \<noteq> [] \<Longrightarrow> \<exists>t. json_fields fs = quote_char # t"
  by (cases fs rule: json_fields.cases) (auto simp: json_string_def)

lemma items_front: "vs \<noteq> [] \<Longrightarrow> \<exists>c t. json_items vs = c # t \<and> c \<noteq> CHR '']''"
  using encode_front by (cases vs rule: json_items.cases) (simp, metis json_items.simps(2), metis append_Cons json_items.simps(3))

abbreviation read_back :: "string json \<Rightarrow> nat list json" where "read_back \<equiv> map_json runes"

lemma no_digit_marks [simp]: "no_digit (CHR '','' # s)" "no_digit (CHR ''}'' # s)" "no_digit (CHR '']'' # s)" "no_digit []"
  by (auto simp: no_digit_def json_digit_def)

lemma parse_back:
  "\<And>n rest. length (json_encode v) \<le> n \<Longrightarrow> no_digit rest \<Longrightarrow> parse_value n (json_encode v @ rest) = Some (read_back v, rest)"
  "\<And>n rest. fs \<noteq> [] \<Longrightarrow> length (json_fields fs) \<le> n \<Longrightarrow>
     parse_fields n (json_fields fs @ CHR ''}'' # rest) = Some (map (map_prod runes read_back) fs, rest)"
  "\<And>n rest. vs \<noteq> [] \<Longrightarrow> length (json_items vs) < n \<Longrightarrow>
     parse_items n (json_items vs @ CHR '']'' # rest) = Some (map read_back vs, rest)"
proof (induction v and fs and vs rule: json_encode_json_fields_json_items.induct)
  case (1 s)
  then obtain m where "n = Suc m"
    by (cases n) (auto simp: json_string_def)
  thus ?case
    using parse_string_value by simp
next
  case (2 k)
  then obtain m where "n = Suc m"
    by (cases n) (auto simp: FormatInt_def split: if_splits)
  thus ?case
    using parse_number [OF 2(2)] by simp
next
  case (3 b)
  then obtain m where "n = Suc m"
    by (cases n) (auto split: if_splits)
  thus ?case
    by (simp add: json_digit_def HasPrefix_def)
next
  case (4 fs)
  then obtain m where n: "n = Suc m"
    by (cases n) auto
  show ?case
  proof (cases "fs = []")
    case False
    obtain t where "json_fields fs = quote_char # t"
      using fields_front [OF False] by blast
    thus ?thesis
      using 4(1) [OF False, of m rest] 4(2) by (simp add: n)
  qed (simp add: n)
next
  case (5 vs)
  then obtain m where n: "n = Suc m"
    by (cases n) auto
  show ?case
  proof (cases "vs = []")
    case False
    obtain c t where "json_items vs = c # t" "c \<noteq> CHR '']''"
      using items_front [OF False] by blast
    thus ?thesis
      using 5(1) [OF False, of m rest] 5(2) by (simp add: n)
  qed (simp add: n)
next
  case 6
  then obtain m where "n = Suc m"
    by (cases n) auto
  thus ?case
    by (simp add: json_digit_def HasPrefix_def)
next
  case 7
  thus ?case
    by simp
next
  case (8 k v)
  then obtain m where "n = Suc m"
    by (cases n) auto
  thus ?case
    using 8(1) [of m "CHR ''}'' # rest"] 8(3) by (simp add: json_string_def parse_chars_json)
next
  case (9 k v f fs)
  then obtain m where "n = Suc m"
    by (cases n) auto
  thus ?case
    using 9(1) [of m "CHR '','' # json_fields (f # fs) @ CHR ''}'' # rest"] 9(2) [of m rest] 9(4)
    by (simp add: json_string_def parse_chars_json)
next
  case 10
  thus ?case
    by simp
next
  case (11 v)
  then obtain m where "n = Suc m"
    by (cases n) auto
  thus ?case
    using 11(1) [of m "CHR '']'' # rest"] 11(3) by simp
next
  case (12 v w vs)
  then obtain m where "n = Suc m"
    by (cases n) auto
  thus ?case
    using 12(1) [of m "CHR '','' # json_items (w # vs) @ CHR '']'' # rest"] 12(2) [of m rest] 12(4) by simp
qed

lemma json_reads_back:
  assumes "list_all json_space u"
  shows "parse_json (json_encode v @ u) = Some (read_back v)"
proof -
  have "no_digit u"
    using assms by (auto simp: no_digit_def json_digit_def json_space_def split: list.splits)
  thus ?thesis
    using parse_back(1) [of v "length (json_encode v @ u)" u] assms by (simp add: parse_json_def)
qed

text \<open>A Go string from its runes; \<open>sanitize\<close> is \<open>strings.ToValidUTF8\<close> with U+FFFD for each malformed byte.\<close>

definition utf8 :: "nat list \<Rightarrow> string" where
  "utf8 rs = concat (map EncodeRune rs)"

definition sanitize :: "string \<Rightarrow> string" where
  "sanitize s = utf8 (runes s)"

definition read_json :: "string \<Rightarrow> string json option" where
  "read_json s = map_option (map_json utf8) (parse_json s)"

lemma read_json_encode: "list_all json_space u \<Longrightarrow> read_json (json_encode v @ u) = Some (map_json sanitize v)"
  by (simp add: read_json_def json_reads_back json.map_comp o_def sanitize_def [abs_def])

text \<open>One that is ASCII is unchanged.\<close>

lemma EncodeRune_ascii: "byte c < 128 \<Longrightarrow> EncodeRune (byte c) = [c]"
  by (simp add: EncodeRune_def valid_rune_def)

lemma sanitize_ascii: "\<forall>c\<in>set s. byte c < 128 \<Longrightarrow> sanitize s = s"
proof -
  assume a: "\<forall>c\<in>set s. byte c < 128"
  have "concat (map (\<lambda>c. EncodeRune (byte c)) s) = s"
    using a by (induction s) (simp_all add: EncodeRune_ascii)
  thus ?thesis
    using runes_ascii [OF a, of "[]"] by (simp add: sanitize_def utf8_def o_def)
qed

section \<open>One line\<close>

lemma hex2_printable: "n < 256 \<Longrightarrow> \<forall>c\<in>set (hex2 n). 32 \<le> byte c"
  using hex_printable [of "n div 16"] hex_printable [of "n mod 16"] by (auto simp: hex2_def)

lemma EncodeRune_printable: "valid_rune r \<Longrightarrow> 32 \<le> r \<Longrightarrow> \<forall>c\<in>set (EncodeRune r). 32 \<le> byte c"
proof -
  assume v: "valid_rune r" "32 \<le> r"
  hence "r \<le> 0x10FFFF"
    by (auto simp: valid_rune_def)
  thus ?thesis
    using v by (auto simp: EncodeRune_def Let_def)
qed

lemma json_rune_printable: "valid_rune r \<Longrightarrow> \<forall>c\<in>set (json_rune bad r). 32 \<le> byte c"
  using EncodeRune_printable [of r] hex2_printable [of r] hex_printable [of "r mod 16"]
  by (auto simp: json_rune_def split: if_splits)

lemma json_chars_printable: "\<forall>c\<in>set (json_chars s). 32 \<le> byte c"
  by (induction s rule: json_chars.induct) (auto dest!: json_rune_printable [OF DecodeRune_valid, rule_format])

lemma json_string_printable: "c \<in> set (json_string s) \<Longrightarrow> 32 \<le> byte c"
  using json_chars_printable [of s] by (auto simp: json_string_def)

lemma FormatInt_printable: "c \<in> set (FormatInt k) \<Longrightarrow> 32 \<le> byte c"
  using FormatUint_digits by (auto simp: FormatInt_def json_digit_def split: if_splits dest!: FormatUint_digits)

lemma json_printable:
  "\<And>c. c \<in> set (json_encode v) \<Longrightarrow> 32 \<le> byte c"
  "\<And>c. c \<in> set (json_fields fs) \<Longrightarrow> 32 \<le> byte c"
  "\<And>c. c \<in> set (json_items vs) \<Longrightarrow> 32 \<le> byte c"
proof (induction v and fs and vs rule: json_encode_json_fields_json_items.induct)
qed (auto simp: json_string_printable FormatInt_printable split: if_splits)

end
