(* ===== verification/Cli_Json.thy ===== *)
theory Cli_Json
  imports Go_Json Remote Domain_Session Cli_Exit Cli_Ready
begin

text \<open>
  The JSON that the command writes and that \<open>drain\<close> reads: the views, event records and acknowledgements of \<open>events.go\<close>, the
  renderer of \<open>output.go\<close>, the status response of \<open>status.go\<close> and its decoding in \<open>drain.go\<close>.  A struct is a record; the function
  \<open>*_json\<close> beside it is its marshalling, the keys being the struct's tags in the struct's order.  Times are nanoseconds since
  1970 in UTC.
\<close>

section \<open>formatTime\<close>

text \<open>\<open>t.UTC().Format(time.RFC3339Nano)\<close>, the days since 1970 turned to a date in the proleptic Gregorian calendar: years are
  counted from 1 March of year 0 in eras of 400, so that the leap day is the last of its year.\<close>

definition civil_date :: "int \<Rightarrow> int \<times> int \<times> int" where
  "civil_date days =
     (let z = days + 719468;
          era = z div 146097;
          doe = z mod 146097;
          yoe = (doe - doe div 1460 + doe div 36524 - doe div 146096) div 365;
          doy = doe - (365 * yoe + yoe div 4 - yoe div 100);
          mp = (5 * doy + 2) div 153;
          d = doy - (153 * mp + 2) div 5 + 1;
          m = (if mp < 10 then mp + 3 else mp - 9)
      in (yoe + era * 400 + (if m \<le> 2 then 1 else 0), m, d))"

text \<open>\<open>fmt\<close>'s zero padding of an integer to a width.\<close>

definition append_int :: "int \<Rightarrow> nat \<Rightarrow> string" where
  "append_int n w = (if n < 0 then CHR ''-'' # zero_pad w (FormatUint (nat (- n))) else zero_pad w (FormatUint (nat n)))"

definition time_fraction :: "int \<Rightarrow> string" where
  "time_fraction ns =
     (if ns = 0 then [] else CHR ''.'' # rev (dropWhile (\<lambda>c. c = CHR ''0'') (rev (append_int ns 9))))"

definition formatTime :: "int \<Rightarrow> string" where
  "formatTime t =
     (let secs = t div 1000000000;
          ns = t mod 1000000000;
          sod = secs mod 86400;
          (y, m, d) = civil_date (secs div 86400)
      in append_int y 4 @ ''-'' @ append_int m 2 @ ''-'' @ append_int d 2 @ ''T'' @ append_int (sod div 3600) 2 @ '':''
         @ append_int (sod div 60 mod 60) 2 @ '':'' @ append_int (sod mod 60) 2 @ time_fraction ns @ ''Z'')"

section \<open>events.go: views\<close>

record deviceView =
  dvBusID :: string
  dvBusNum :: u16
  dvDevNum :: u16
  dvSpeed :: string
  dvVendorID :: string
  dvProductID :: string

record portView =
  pvID :: u32
  pvStatus :: string
  pvSpeed :: string
  pvRemote :: string
  pvBusID :: string
  pvLocalBusID :: string

record sessionView =
  svID :: string
  svRemote :: string
  svBusID :: string
  svStartedAt :: string
  svBytesIn :: u64
  svBytesOut :: u64

definition deviceView_json :: "deviceView \<Rightarrow> string json" where
  "deviceView_json v =
     JObj [(''busid'', JStr (dvBusID v)), (''busnum'', JNum (uint (dvBusNum v))), (''devnum'', JNum (uint (dvDevNum v))),
       (''speed'', JStr (dvSpeed v)), (''vendor_id'', JStr (dvVendorID v)), (''product_id'', JStr (dvProductID v))]"

definition portView_json :: "portView \<Rightarrow> string json" where
  "portView_json v =
     JObj [(''id'', JNum (uint (pvID v))), (''status'', JStr (pvStatus v)), (''speed'', JStr (pvSpeed v)),
       (''remote'', JStr (pvRemote v)), (''busid'', JStr (pvBusID v)), (''local_busid'', JStr (pvLocalBusID v))]"

definition sessionView_json :: "sessionView \<Rightarrow> string json" where
  "sessionView_json v =
     JObj [(''id'', JStr (svID v)), (''remote'', JStr (svRemote v)), (''busid'', JStr (svBusID v)),
       (''started_at'', JStr (svStartedAt v)), (''bytes_in'', JNum (uint (svBytesIn v))), (''bytes_out'', JNum (uint (svBytesOut v)))]"

definition formatHex16 :: "u16 \<Rightarrow> string" where
  "formatHex16 v = zero_pad 4 (format_base 16 (unat v))"

definition formatRemoteEndpoint :: "RemoteEndpoint \<Rightarrow> string" where
  "formatRemoteEndpoint remote = (if reHost remote = [] then [] else RemoteEndpoint_String remote)"

definition newDeviceView :: "Device \<Rightarrow> deviceView" where
  "newDeviceView d =
     \<lparr>dvBusID = dBusID d, dvBusNum = dBusNum d, dvDevNum = dDevNum d, dvSpeed = Speed_String (dSpeed d),
      dvVendorID = formatHex16 (dVendorID d), dvProductID = formatHex16 (dProductID d)\<rparr>"

definition newPortView :: "Port \<Rightarrow> portView" where
  "newPortView p =
     \<lparr>pvID = pID p, pvStatus = Status_String (pStatus p), pvSpeed = Speed_String (pSpeed p),
      pvRemote = formatRemoteEndpoint (pRemote p), pvBusID = pBusID p, pvLocalBusID = pLocalBusID p\<rparr>"

definition newSessionView :: "Session \<Rightarrow> sessionView" where
  "newSessionView s =
     \<lparr>svID = SessionID_String (sID s), svRemote = sRemoteAddr s, svBusID = sBusID s,
      svStartedAt = formatTime (sStartedAt s), svBytesIn = sBytesIn s, svBytesOut = sBytesOut s\<rparr>"

section \<open>events.go: event records\<close>

definition EventKind_String :: "EventKind \<Rightarrow> string" where
  "EventKind_String k =
     (case k of
        EventPortAttached \<Rightarrow> ''port_attached''
      | EventPortDetached \<Rightarrow> ''port_detached''
      | EventPortErrored \<Rightarrow> ''port_errored''
      | EventPortReconnectExhausted \<Rightarrow> ''port_reconnect_exhausted''
      | EventDeviceBound \<Rightarrow> ''device_bound''
      | EventDeviceUnbound \<Rightarrow> ''device_unbound''
      | EventSessionStarted \<Rightarrow> ''session_started''
      | EventSessionEnded \<Rightarrow> ''session_ended'')"

record eventBase =
  ebSchema :: string
  ebKind :: string
  ebAt :: string

definition newEventBase :: "EventKind \<Rightarrow> int \<Rightarrow> eventBase" where
  "newEventBase k at = \<lparr>ebSchema = schemaVersion, ebKind = EventKind_String k, ebAt = formatTime at\<rparr>"

datatype event_record =
    portAttachedRecord eventBase portView
  | portDetachedRecord eventBase portView string
  | portErroredRecord eventBase portView string
  | portReconnectExhaustedRecord eventBase portView int string
  | deviceBoundRecord eventBase deviceView
  | deviceUnboundRecord eventBase deviceView
  | sessionStartedRecord eventBase sessionView
  | sessionEndedRecord eventBase sessionView string

text \<open>An embedded struct contributes its fields in its place.\<close>

definition eventBase_fields :: "eventBase \<Rightarrow> (string \<times> string json) list" where
  "eventBase_fields b = [(''schema'', JStr (ebSchema b)), (''kind'', JStr (ebKind b)), (''at'', JStr (ebAt b))]"

fun event_record_json :: "event_record \<Rightarrow> string json" where
  "event_record_json (portAttachedRecord b p) = JObj (eventBase_fields b @ [(''port'', portView_json p)])"
| "event_record_json (portDetachedRecord b p reason) =
     JObj (eventBase_fields b @ [(''port'', portView_json p), (''reason'', JStr reason)])"
| "event_record_json (portErroredRecord b p err) =
     JObj (eventBase_fields b @ [(''port'', portView_json p), (''err'', JStr err)])"
| "event_record_json (portReconnectExhaustedRecord b p attempts lastError) =
     JObj (eventBase_fields b @ [(''port'', portView_json p), (''attempts'', JNum attempts), (''last_error'', JStr lastError)])"
| "event_record_json (deviceBoundRecord b d) = JObj (eventBase_fields b @ [(''device'', deviceView_json d)])"
| "event_record_json (deviceUnboundRecord b d) = JObj (eventBase_fields b @ [(''device'', deviceView_json d)])"
| "event_record_json (sessionStartedRecord b s) = JObj (eventBase_fields b @ [(''session'', sessionView_json s)])"
| "event_record_json (sessionEndedRecord b s reason) =
     JObj (eventBase_fields b @ [(''session'', sessionView_json s), (''reason'', JStr reason)])"

text \<open>The default branch returns nil for a type outside the union, which \<open>Event\<close> has not.\<close>

fun classifyEvent :: "Event \<Rightarrow> event_record" where
  "classifyEvent (PortAttachedEvent at p) = portAttachedRecord (newEventBase EventPortAttached at) (newPortView p)"
| "classifyEvent (PortDetachedEvent at p reason) =
     portDetachedRecord (newEventBase EventPortDetached at) (newPortView p) reason"
| "classifyEvent (PortErroredEvent at p err) = portErroredRecord (newEventBase EventPortErrored at) (newPortView p) err"
| "classifyEvent (PortReconnectExhaustedEvent at p attempts lastError) =
     portReconnectExhaustedRecord (newEventBase EventPortReconnectExhausted at) (newPortView p) attempts lastError"
| "classifyEvent (DeviceBoundEvent at d) = deviceBoundRecord (newEventBase EventDeviceBound at) (newDeviceView d)"
| "classifyEvent (DeviceUnboundEvent at d) = deviceUnboundRecord (newEventBase EventDeviceUnbound at) (newDeviceView d)"
| "classifyEvent (SessionStartedEvent at s) = sessionStartedRecord (newEventBase EventSessionStarted at) (newSessionView s)"
| "classifyEvent (SessionEndedEvent at s reason) =
     sessionEndedRecord (newEventBase EventSessionEnded at) (newSessionView s) reason"

fun eventHeader :: "event_record \<Rightarrow> string \<times> string" where
  "eventHeader (portAttachedRecord b _) = (ebKind b, ebAt b)"
| "eventHeader (portDetachedRecord b _ _) = (ebKind b, ebAt b)"
| "eventHeader (portErroredRecord b _ _) = (ebKind b, ebAt b)"
| "eventHeader (portReconnectExhaustedRecord b _ _ _) = (ebKind b, ebAt b)"
| "eventHeader (deviceBoundRecord b _) = (ebKind b, ebAt b)"
| "eventHeader (deviceUnboundRecord b _) = (ebKind b, ebAt b)"
| "eventHeader (sessionStartedRecord b _) = (ebKind b, ebAt b)"
| "eventHeader (sessionEndedRecord b _ _) = (ebKind b, ebAt b)"

section \<open>events.go: acknowledgements\<close>

record ackEnvelope =
  akSchema :: string
  akOp :: string
  akOK :: bool

definition newAckEnvelope :: "string \<Rightarrow> ackEnvelope" where
  "newAckEnvelope op = \<lparr>akSchema = schemaVersion, akOp = op, akOK = True\<rparr>"

text \<open>The four structs that embed the envelope: \<open>attachAck\<close>, \<open>detachAck\<close>, \<open>bindAck\<close> and \<open>unbindAck\<close>.\<close>

datatype ack = attachAck ackEnvelope portView | detachAck ackEnvelope u64 | bindAck ackEnvelope string | unbindAck ackEnvelope string

definition ackEnvelope_fields :: "ackEnvelope \<Rightarrow> (string \<times> string json) list" where
  "ackEnvelope_fields e = [(''schema'', JStr (akSchema e)), (''op'', JStr (akOp e)), (''ok'', JBool (akOK e))]"

fun ack_json :: "ack \<Rightarrow> string json" where
  "ack_json (attachAck e p) = JObj (ackEnvelope_fields e @ [(''port'', portView_json p)])"
| "ack_json (detachAck e pid) = JObj (ackEnvelope_fields e @ [(''port_id'', JNum (uint pid))])"
| "ack_json (bindAck e busID) = JObj (ackEnvelope_fields e @ [(''busid'', JStr busID)])"
| "ack_json (unbindAck e busID) = JObj (ackEnvelope_fields e @ [(''busid'', JStr busID)])"

section \<open>output.go\<close>

text \<open>\<open>json.Encoder.Encode\<close>: one \<open>Write\<close> of the value and a newline.  \<open>w\<close> is the writer, its result whatever a write yields; an error is
  only wrapped.\<close>

definition writeJSON :: "(string \<Rightarrow> 'r) \<Rightarrow> string json \<Rightarrow> 'r" where
  "writeJSON w v = w (json_encode v @ [CHR 0x0A])"

definition jsonDevices :: "Device list \<Rightarrow> deviceView list" where
  "jsonDevices devs = map newDeviceView devs"

definition jsonPorts :: "Port list \<Rightarrow> portView list" where
  "jsonPorts ports = map newPortView ports"

definition jsonSessions :: "Session list \<Rightarrow> sessionView list" where
  "jsonSessions sessions = map newSessionView sessions"

text \<open>The envelopes of a list: \<open>devicesEnvelope\<close>, \<open>portsEnvelope\<close> and \<open>sessionsEnvelope\<close>.\<close>

datatype envelope =
  devicesEnvelope string "deviceView list" | portsEnvelope string "portView list" | sessionsEnvelope string "sessionView list"

fun envelope_json :: "envelope \<Rightarrow> string json" where
  "envelope_json (devicesEnvelope schema vs) = JObj [(''schema'', JStr schema), (''devices'', JArr (map deviceView_json vs))]"
| "envelope_json (portsEnvelope schema vs) = JObj [(''schema'', JStr schema), (''ports'', JArr (map portView_json vs))]"
| "envelope_json (sessionsEnvelope schema vs) = JObj [(''schema'', JStr schema), (''sessions'', JArr (map sessionView_json vs))]"

definition json_Devices :: "(string \<Rightarrow> 'r) \<Rightarrow> Device list \<Rightarrow> 'r" where
  "json_Devices w devs = writeJSON w (envelope_json (devicesEnvelope schemaVersion (jsonDevices devs)))"

definition json_Ports :: "(string \<Rightarrow> 'r) \<Rightarrow> Port list \<Rightarrow> 'r" where
  "json_Ports w ports = writeJSON w (envelope_json (portsEnvelope schemaVersion (jsonPorts ports)))"

definition json_Sessions :: "(string \<Rightarrow> 'r) \<Rightarrow> Session list \<Rightarrow> 'r" where
  "json_Sessions w sessions = writeJSON w (envelope_json (sessionsEnvelope schemaVersion (jsonSessions sessions)))"

definition json_Event :: "(string \<Rightarrow> 'r) \<Rightarrow> Event \<Rightarrow> 'r" where
  "json_Event w ev = writeJSON w (event_record_json (classifyEvent ev))"

definition json_AttachAck :: "(string \<Rightarrow> 'r) \<Rightarrow> Port \<Rightarrow> 'r" where
  "json_AttachAck w port = writeJSON w (ack_json (attachAck (newAckEnvelope ''attach'') (newPortView port)))"

definition json_DetachAck :: "(string \<Rightarrow> 'r) \<Rightarrow> PortID \<Rightarrow> 'r" where
  "json_DetachAck w portID = writeJSON w (ack_json (detachAck (newAckEnvelope ''detach'') (ucast portID)))"

definition json_BindAck :: "(string \<Rightarrow> 'r) \<Rightarrow> string \<Rightarrow> 'r" where
  "json_BindAck w busID = writeJSON w (ack_json (bindAck (newAckEnvelope ''bind'') busID))"

definition json_UnbindAck :: "(string \<Rightarrow> 'r) \<Rightarrow> string \<Rightarrow> 'r" where
  "json_UnbindAck w busID = writeJSON w (ack_json (unbindAck (newAckEnvelope ''unbind'') busID))"

section \<open>status.go: the status response\<close>

record boundDeviceJSON =
  bdBusID :: string
  bdVendorID :: string
  bdProductID :: string

record sessionJSON =
  sjID :: string
  sjRemote :: string
  sjBusID :: string
  sjStartedAt :: string
  sjBytesIn :: u64
  sjBytesOut :: u64

record statusResponse =
  srSchema :: string
  srVersion :: string
  srCommit :: string
  srUptimeSec :: int
  srListening :: listeningState
  srBoundDevices :: "boundDeviceJSON list"
  srBoundDevicesError :: string
  srSessions :: "sessionJSON list"
  srKernelModules :: module_map

definition boundDeviceJSON_json :: "boundDeviceJSON \<Rightarrow> string json" where
  "boundDeviceJSON_json d = JObj [(''busid'', JStr (bdBusID d)), (''vid'', JStr (bdVendorID d)), (''pid'', JStr (bdProductID d))]"

definition sessionJSON_json :: "sessionJSON \<Rightarrow> string json" where
  "sessionJSON_json s =
     JObj [(''id'', JStr (sjID s)), (''remote'', JStr (sjRemote s)), (''busid'', JStr (sjBusID s)),
       (''started_at'', JStr (sjStartedAt s)), (''bytes_in'', JNum (uint (sjBytesIn s))), (''bytes_out'', JNum (uint (sjBytesOut s)))]"

definition listeningState_json :: "listeningState \<Rightarrow> string json" where
  "listeningState_json l =
     JObj [(''addr'', JStr (lsAddr l)), (''activation'', JBool (lsActivation l)), (''accepting'', JBool (lsAccepting l))]"

text \<open>A map is written with its keys sorted; this one has no keys but the probed names.  \<open>ModuleState.MarshalJSON\<close> writes the
  label.\<close>

definition ModuleState_MarshalJSON :: "ModuleState \<Rightarrow> string json" where
  "ModuleState_MarshalJSON s = JStr (ModuleState_String s)"

definition module_map_json :: "module_map \<Rightarrow> string json" where
  "module_map_json m =
     JObj (concat (map (\<lambda>k. case m k of None \<Rightarrow> [] | Some s \<Rightarrow> [(k, ModuleState_MarshalJSON s)])
       [KernelModuleUSBIPCore, KernelModuleUSBIPHost, KernelModuleVHCIHCD]))"

text \<open>\<open>bound_devices_error\<close> is omitted when empty.\<close>

definition statusResponse_json :: "statusResponse \<Rightarrow> string json" where
  "statusResponse_json r =
     JObj ([(''schema'', JStr (srSchema r)), (''version'', JStr (srVersion r)), (''commit'', JStr (srCommit r)),
         (''uptime_sec'', JNum (srUptimeSec r)), (''listening'', listeningState_json (srListening r)),
         (''bound_devices'', JArr (map boundDeviceJSON_json (srBoundDevices r)))]
       @ (if srBoundDevicesError r = [] then [] else [(''bound_devices_error'', JStr (srBoundDevicesError r))])
       @ [(''sessions'', JArr (map sessionJSON_json (srSessions r))), (''kernel_modules'', module_map_json (srKernelModules r))])"

definition devicesToJSON :: "Device list \<Rightarrow> boundDeviceJSON list" where
  "devicesToJSON ds =
     map (\<lambda>d. \<lparr>bdBusID = dBusID d, bdVendorID = ''0x'' @ formatHex16 (dVendorID d), bdProductID = ''0x'' @ formatHex16 (dProductID d)\<rparr>) ds"

definition sessionsToJSON :: "Session list \<Rightarrow> sessionJSON list" where
  "sessionsToJSON ss =
     map (\<lambda>s. \<lparr>sjID = SessionID_String (sID s), sjRemote = sRemoteAddr s, sjBusID = sBusID s,
       sjStartedAt = formatTime (sStartedAt s), sjBytesIn = sBytesIn s, sjBytesOut = sBytesOut s\<rparr>) ss"

text \<open>The answer to a GET: the code and the body.  \<open>version\<close> and \<open>commit\<close> are set when the program is linked, \<open>uptime\<close> is the
  whole seconds since it started, \<open>text\<close> is \<open>err.Error()\<close>.\<close>

definition handleStatusGet ::
  "(go_error \<Rightarrow> string) \<Rightarrow> string \<Rightarrow> string \<Rightarrow> int \<Rightarrow> statusExporter \<Rightarrow> go_error + Device list \<Rightarrow> Session list \<Rightarrow> module_map \<Rightarrow> nat \<times> string"
where
  "handleStatusGet text version commit uptime src bound sessions km =
     (let bdErrStr = (case bound of Inl err \<Rightarrow> text err | Inr _ \<Rightarrow> []);
          devs = (case bound of Inl _ \<Rightarrow> [] | Inr ds \<Rightarrow> ds);
          resp = \<lparr>srSchema = schemaVersion, srVersion = version, srCommit = commit, srUptimeSec = uptime,
            srListening = Listening src, srBoundDevices = devicesToJSON devs, srBoundDevicesError = bdErrStr,
            srSessions = sessionsToJSON sessions, srKernelModules = km\<rparr>
      in (StatusOK, json_encode (statusResponse_json resp) @ [CHR 0x0A]))"

section \<open>drain.go: decoding the answer\<close>

text \<open>\<open>json.Unmarshal\<close> matches the keys of a struct up to the simple case folding of Unicode, in which the long s and the Kelvin
  sign fold with ASCII letters; a later field overrides, null resets a pointer and leaves a string alone, and a value of another kind is an
  error that does not stop the decoding.\<close>

definition fold_rune :: "nat \<Rightarrow> nat" where
  "fold_rune r = (if 97 \<le> r \<and> r \<le> 122 then r - 32 else if r = 0x17F then 83 else if r = 0x212A then 75 else r)"

definition foldName :: "string \<Rightarrow> nat list" where
  "foldName name = map fold_rune (runes name)"

definition same_name :: "string \<Rightarrow> string \<Rightarrow> bool" where
  "same_name k name \<longleftrightarrow> foldName k = foldName name"

fun accepting_field :: "bool option \<times> bool \<Rightarrow> string \<times> string json \<Rightarrow> bool option \<times> bool" where
  "accepting_field (l, bad) (k, v) =
     (if same_name k ''accepting'' then (case v of JBool b \<Rightarrow> (Some b, bad) | JNull \<Rightarrow> (None, bad) | _ \<Rightarrow> (l, True)) else (l, bad))"

fun probe_field :: "statusProbe \<times> bool \<Rightarrow> string \<times> string json \<Rightarrow> statusProbe \<times> bool" where
  "probe_field (p, bad) (k, v) =
     (if same_name k ''schema'' then
        (case v of JStr s \<Rightarrow> (p\<lparr>spSchema := s\<rparr>, bad) | JNull \<Rightarrow> (p, bad) | _ \<Rightarrow> (p, True))
      else if same_name k ''sessions'' then
        (case v of JArr vs \<Rightarrow> (p\<lparr>spSessions := Some (map json_encode vs)\<rparr>, bad) | JNull \<Rightarrow> (p\<lparr>spSessions := None\<rparr>, bad) | _ \<Rightarrow> (p, True))
      else if same_name k ''listening'' then
        (case v of
           JObj fs \<Rightarrow>
             (let (l, bad) = foldl accepting_field (case spListening p of Some l \<Rightarrow> l | None \<Rightarrow> None, bad) fs
              in (p\<lparr>spListening := Some l\<rparr>, bad))
         | JNull \<Rightarrow> (p\<lparr>spListening := None\<rparr>, bad)
         | _ \<Rightarrow> (p, True))
      else (p, bad))"

definition json_error :: go_error where "json_error = [OtherErr 0]"

definition Unmarshal_probe :: "string \<Rightarrow> go_error + statusProbe" where
  "Unmarshal_probe body =
     (case read_json body of
        Some (JObj fs) \<Rightarrow>
          (let (p, bad) = foldl probe_field (\<lparr>spSchema = [], spSessions = None, spListening = None\<rparr>, False) fs
           in if bad then Inl json_error else Inr p)
      | Some JNull \<Rightarrow> Inr \<lparr>spSchema = [], spSessions = None, spListening = None\<rparr>
      | _ \<Rightarrow> Inl json_error)"

section \<open>Lemmas\<close>

lemma newline_not_in_json: "CHR 0x0A \<notin> set (json_encode v)"
  using json_printable(1) [of "CHR 0x0A" v] by auto

lemma foldName_ascii: "\<forall>c\<in>set p. byte c < 128 \<Longrightarrow> foldName p = map (\<lambda>c. fold_rune (byte c)) p"
  using runes_ascii [of p "[]"] by (simp add: foldName_def)

lemma sanitize_schema [simp]: "sanitize schemaVersion = schemaVersion"
  by (simp add: sanitize_ascii schemaVersion_def)

lemma folded_names:
  "foldName ''schema'' = [83, 67, 72, 69, 77, 65]"
  "foldName ''sessions'' = [83, 69, 83, 83, 73, 79, 78, 83]"
  "foldName ''listening'' = [76, 73, 83, 84, 69, 78, 73, 78, 71]"
  "foldName ''accepting'' = [65, 67, 67, 69, 80, 84, 73, 78, 71]"
  "foldName ''addr'' = [65, 68, 68, 82]"
  "foldName ''activation'' = [65, 67, 84, 73, 86, 65, 84, 73, 79, 78]"
  "foldName ''version'' = [86, 69, 82, 83, 73, 79, 78]"
  "foldName ''commit'' = [67, 79, 77, 77, 73, 84]"
  "foldName ''uptime_sec'' = [85, 80, 84, 73, 77, 69, 95, 83, 69, 67]"
  "foldName ''bound_devices'' = [66, 79, 85, 78, 68, 95, 68, 69, 86, 73, 67, 69, 83]"
  "foldName ''bound_devices_error'' = [66, 79, 85, 78, 68, 95, 68, 69, 86, 73, 67, 69, 83, 95, 69, 82, 82, 79, 82]"
  "foldName ''kernel_modules'' = [75, 69, 82, 78, 69, 76, 95, 77, 79, 68, 85, 76, 69, 83]"
  by (simp_all add: foldName_ascii fold_rune_def)

lemma response_names:
  "same_name ''schema'' ''schema''" "same_name ''sessions'' ''sessions''" "same_name ''listening'' ''listening''"
  "same_name ''accepting'' ''accepting''" "\<not> same_name ''addr'' ''accepting''" "\<not> same_name ''activation'' ''accepting''"
  "\<not> same_name ''sessions'' ''schema''" "\<not> same_name ''listening'' ''schema''" "\<not> same_name ''listening'' ''sessions''"
  by (simp_all add: same_name_def folded_names)

lemma other_names:
  "probe_field (p, bad) (''version'', v) = (p, bad)" "probe_field (p, bad) (''commit'', v) = (p, bad)"
  "probe_field (p, bad) (''uptime_sec'', v) = (p, bad)" "probe_field (p, bad) (''bound_devices'', v) = (p, bad)"
  "probe_field (p, bad) (''bound_devices_error'', v) = (p, bad)" "probe_field (p, bad) (''kernel_modules'', v) = (p, bad)"
  by (simp_all add: same_name_def folded_names)

lemma probe_fields:
  "probe_field (p, bad) (''schema'', JStr s) = (p\<lparr>spSchema := s\<rparr>, bad)"
  "probe_field (p, bad) (''sessions'', JArr vs) = (p\<lparr>spSessions := Some (map json_encode vs)\<rparr>, bad)"
  by (simp_all add: response_names)

lemma probe_listening:
  "spListening p = None \<Longrightarrow>
   probe_field (p, bad) (''listening'', JObj [(''addr'', x), (''activation'', y), (''accepting'', JBool b)]) = (p\<lparr>spListening := Some (Some b)\<rparr>, bad)"
  by (simp add: response_names)

declare probe_field.simps [simp del]

lemma response_keys:
  "sanitize k = k" if "k \<in> set [''schema'', ''version'', ''commit'', ''uptime_sec'', ''listening'', ''bound_devices'', ''bound_devices_error'',
    ''sessions'', ''kernel_modules'', ''addr'', ''activation'', ''accepting'']"
proof -
  have "list_all (list_all (\<lambda>c. byte c < 128)) [''schema'', ''version'', ''commit'', ''uptime_sec'', ''listening'', ''bound_devices'',
      ''bound_devices_error'', ''sessions'', ''kernel_modules'', ''addr'', ''activation'', ''accepting'']"
    by simp
  thus ?thesis
    using that by (intro sanitize_ascii) (auto simp: list_all_iff)
qed

lemma drain_reads_status:
  assumes "srSchema r = schemaVersion"
  shows "Unmarshal_probe (json_encode (statusResponse_json r) @ [CHR 0x0A])
    = Inr \<lparr>spSchema = schemaVersion,
           spSessions = Some (map (\<lambda>s. json_encode (map_json sanitize (sessionJSON_json s))) (srSessions r)),
           spListening = Some (Some (lsAccepting (srListening r)))\<rparr>"
proof -
  have read: "read_json (json_encode (statusResponse_json r) @ [CHR 0x0A]) = Some (map_json sanitize (statusResponse_json r))"
    by (rule read_json_encode) (simp add: json_space_def)
  have listening: "map_json sanitize (listeningState_json l)
      = JObj [(''addr'', JStr (sanitize (lsAddr l))), (''activation'', JBool (lsActivation l)), (''accepting'', JBool (lsAccepting l))]" for l
    by (simp add: listeningState_json_def response_keys)
  show ?thesis
    unfolding Unmarshal_probe_def read
    using assms
    by (cases "srBoundDevicesError r")
      (simp_all add: statusResponse_json_def listening response_keys probe_fields probe_listening other_names o_def)
qed

text \<open>Text without quotes, backslashes and controls is written as it is.\<close>

definition plain :: "string \<Rightarrow> bool" where
  "plain s = list_all (\<lambda>c. 32 \<le> byte c \<and> byte c < 127 \<and> c \<noteq> quote_char \<and> c \<noteq> backslash) s"

lemma json_chars_plain: "plain s \<Longrightarrow> json_chars s = s"
proof (induction s)
  case (Cons a s)
  hence "byte a \<noteq> 34" "byte a \<noteq> 92"
    by (auto simp: plain_def byte_eq)
  thus ?case
    using Cons by (simp add: plain_def DecodeRune_def json_rune_def EncodeRune_ascii)
qed simp

lemma plain_kind: "plain (EventKind_String k)"
  by (cases k) (simp_all add: EventKind_String_def plain_def)

lemma json_string_plain: "plain s \<Longrightarrow> json_string s = quote_char # s @ [quote_char]"
  by (simp add: json_string_def json_chars_plain)

lemma record_fields:
  "\<exists>k v fs. event_record_json (classifyEvent ev) = JObj (eventBase_fields (newEventBase (EventKind_of ev) (evAt ev)) @ (k, v) # fs)"
  by (cases ev) auto

lemma event_prefix:
  "HasPrefix (json_encode (event_record_json (classifyEvent ev)))
     (''{\"schema\":\"v1\",\"kind\":\"'' @ EventKind_String (EventKind_of ev) @ [quote_char])"
proof -
  obtain k v fs where e: "event_record_json (classifyEvent ev)
      = JObj (eventBase_fields (newEventBase (EventKind_of ev) (evAt ev)) @ (k, v) # fs)"
    using record_fields by blast
  have "json_string ''schema'' = ''\"schema\"''" "json_string ''kind'' = ''\"kind\"''" "json_string schemaVersion = ''\"v1\"''"
    by (simp_all add: json_string_plain plain_def schemaVersion_def)
  thus ?thesis
    by (simp add: e eventBase_fields_def newEventBase_def json_string_plain [OF plain_kind] HasPrefix_def)
qed

lemma uint_same: "uint a = uint b \<longleftrightarrow> a = b"
  by (simp add: word_uint_eq_iff)

lemma portView_inj: "portView_json p = portView_json q \<longleftrightarrow> p = q"
  by (cases p; cases q) (auto simp: portView_json_def uint_same)

lemma deviceView_inj: "deviceView_json p = deviceView_json q \<longleftrightarrow> p = q"
  by (cases p; cases q) (auto simp: deviceView_json_def uint_same)

lemma sessionView_inj: "sessionView_json p = sessionView_json q \<longleftrightarrow> p = q"
  by (cases p; cases q) (auto simp: sessionView_json_def uint_same)

lemma kind_inj: "EventKind_String k = EventKind_String l \<longleftrightarrow> k = l"
  by (cases k; cases l) (simp_all add: EventKind_String_def)

lemma base_inj: "eventBase_fields b = eventBase_fields c \<longleftrightarrow> b = c"
  by (cases b; cases c) (simp add: eventBase_fields_def)

lemma append_same_base:
  "eventBase_fields b @ xs = eventBase_fields c @ ys \<longleftrightarrow> eventBase_fields b = eventBase_fields c \<and> xs = ys"
  by (simp add: eventBase_fields_def)

lemma record_kind:
  assumes "event_record_json (classifyEvent ev) = event_record_json (classifyEvent ev')"
  shows "EventKind_of ev = EventKind_of ev'"
proof -
  obtain k v fs where e: "event_record_json (classifyEvent ev)
      = JObj (eventBase_fields (newEventBase (EventKind_of ev) (evAt ev)) @ (k, v) # fs)"
    using record_fields by blast
  obtain l w gs where f: "event_record_json (classifyEvent ev')
      = JObj (eventBase_fields (newEventBase (EventKind_of ev') (evAt ev')) @ (l, w) # gs)"
    using record_fields by blast
  show ?thesis
    using assms unfolding e f by (simp add: append_same_base base_inj newEventBase_def kind_inj)
qed

lemma same_constructor:
  "event_record_json (portAttachedRecord b p) = event_record_json (portAttachedRecord c q) \<longleftrightarrow> b = c \<and> p = q"
  "event_record_json (portDetachedRecord b p r) = event_record_json (portDetachedRecord c q s) \<longleftrightarrow> b = c \<and> p = q \<and> r = s"
  "event_record_json (portErroredRecord b p r) = event_record_json (portErroredRecord c q s) \<longleftrightarrow> b = c \<and> p = q \<and> r = s"
  "event_record_json (portReconnectExhaustedRecord b p n r) = event_record_json (portReconnectExhaustedRecord c q m s)
    \<longleftrightarrow> b = c \<and> p = q \<and> n = m \<and> r = s"
  "event_record_json (deviceBoundRecord b d) = event_record_json (deviceBoundRecord c e) \<longleftrightarrow> b = c \<and> d = e"
  "event_record_json (deviceUnboundRecord b d) = event_record_json (deviceUnboundRecord c e) \<longleftrightarrow> b = c \<and> d = e"
  "event_record_json (sessionStartedRecord b v) = event_record_json (sessionStartedRecord c w) \<longleftrightarrow> b = c \<and> v = w"
  "event_record_json (sessionEndedRecord b v r) = event_record_json (sessionEndedRecord c w s) \<longleftrightarrow> b = c \<and> v = w \<and> r = s"
  by (auto simp: append_same_base base_inj portView_inj deviceView_inj sessionView_inj)

declare event_record_json.simps [simp del]

lemma records_inj: "inj_on event_record_json (range classifyEvent)"
proof (rule inj_onI)
  fix x y
  assume "x \<in> range classifyEvent" "y \<in> range classifyEvent" and e: "event_record_json x = event_record_json y"
  then obtain ev ev' where x: "x = classifyEvent ev" "y = classifyEvent ev'"
    by auto
  have k: "EventKind_of ev = EventKind_of ev'"
    by (rule record_kind) (use e x in blast)
  show "x = y"
    using e k unfolding x
    by (cases ev; cases ev') (simp_all add: same_constructor)
qed

section \<open>Properties\<close>


text \<open>What a poll of the daemon sees: its flags, the devices or the error, the sessions, the modules and the time.\<close>

type_synonym poll_state = "statusExporter \<times> (go_error + Device list) \<times> Session list \<times> module_map \<times> int"

definition poll_reply :: "(go_error \<Rightarrow> string) \<Rightarrow> string \<Rightarrow> string \<Rightarrow> poll_state \<Rightarrow> http_reply" where
  "poll_reply text version commit p =
     (case p of (src, bound, sessions, km, uptime) \<Rightarrow>
        (case handleStatusGet text version commit uptime src bound sessions km of (code, body) \<Rightarrow> Inr (code, Unmarshal_probe body)))"

definition daemon_idle :: "poll_state \<Rightarrow> bool" where
  "daemon_idle p = (case p of (src, _, sessions, _, _) \<Rightarrow> sessions = [] \<and> \<not> seAccepting src)"

lemma probe_reply: "probeStatusOnce (poll_reply text version commit p) = Inr (daemon_idle p)"
  by (cases p) (simp add: poll_reply_def handleStatusGet_def drain_reads_status probeStatusOnce_def http_ok_def StatusOK_def
      validateStatusProbe_def daemon_idle_def Listening_def sessionsToJSON_def Let_def)

lemma poll_daemon:
  "pollUntilIdle (map (\<lambda>p. (poll_reply text version commit p, PollTick)) polls) = (if list_ex daemon_idle polls then Some None else None)"
  by (induction polls) (simp_all add: probe_reply waitNextPoll_def)

text \<open>C40: \<open>drain\<close> and the daemon understand each other.  Against a daemon that answers every request, \<open>drain\<close> returns, and with
  success, exactly when some poll met the daemon with no session and not accepting; until then it goes on.  It holds
  for every content of the answers: any bytes in bus identifiers, addresses and errors, any number of sessions, a failed device list.\<close>

theorem drain_reads_daemon:
  "runDrain socketPath pollInterval (Inr (if first then StatusAccepted else StatusOK))
       (map (\<lambda>p. (poll_reply text version commit p, PollTick)) polls) =
     (if socketPath = [] then Some (Some [Cli StatusSocketDisabled])
      else if pollInterval \<le> 0 then Some (Some [Cli DrainPollIntervalInvalid])
      else if list_ex daemon_idle polls then Some None else None)"
  by (simp add: runDrain_def poll_daemon postDrain_def http_ok_def StatusAccepted_def StatusOK_def)

end
