(* ===== verification/Cli_Tables.thy ===== *)
theory Cli_Tables
  imports Cli_Json
begin

text \<open>
  The human output: \<open>cmd/usbip-go/table.go\<close>, the acknowledgement of \<open>style.go\<close>, the renderer interface of \<open>output.go\<close>, and the class
  names of \<open>pkg/domain/class_data.go\<close>.  What is given to the table library, a header and rows of cells, is the output here; colours and layout are
  the library's.  \<open>tables_safe\<close>: no cell holds a control code point.
\<close>

section \<open>class.go and class_data.go\<close>

definition usbClassNames :: "(u8 \<times> string) list" where
  "usbClassNames =
     [(0x00, ''use-interface-descriptor''), (0x01, ''audio''), (0x02, ''communications''), (0x03, ''hid''), (0x05, ''physical''),
      (0x06, ''image''), (0x07, ''printer''), (0x08, ''mass-storage''), (0x09, ''hub''), (0x0A, ''cdc-data''), (0x0B, ''smart-card''),
      (0x0D, ''content-security''), (0x0E, ''video''), (0x0F, ''personal-healthcare''), (0x10, ''audio-video''), (0x11, ''billboard''),
      (0x12, ''usb-type-c-bridge''), (0xDC, ''diagnostic''), (0xE0, ''wireless''), (0xEF, ''miscellaneous''), (0xFE, ''application-specific''),
      (0xFF, ''vendor-specific'')]"

definition usbClassName :: "u8 \<Rightarrow> string option" where
  "usbClassName c = map_of usbClassNames c"

definition USBClass_String :: "u8 \<Rightarrow> string" where
  "USBClass_String c = (case usbClassName c of Some name \<Rightarrow> name | None \<Rightarrow> ''class(0x'' @ hexByte c @ '')'')"

definition USBSubclass_String :: "u8 \<Rightarrow> string" where
  "USBSubclass_String s = ''subclass(0x'' @ hexByte s @ '')''"

definition USBProtocol_String :: "u8 \<Rightarrow> string" where
  "USBProtocol_String p = ''protocol(0x'' @ hexByte p @ '')''"

section \<open>What is written\<close>

text \<open>One write: bytes as they are, a table with its header, the styled line of an acknowledgement (action and subject), of an
  event (kind and time), or of a version.\<close>

datatype out_op =
    OutBytes string
  | OutTable "string list" "string list list"
  | OutAck string string
  | OutEvent string string

section \<open>table.go\<close>

definition em_dash :: string where "em_dash = EncodeRune 0x2014"

definition deviceLabel :: "Device \<Rightarrow> string" where
  "deviceLabel d =
     (if dManufacturer d = [] \<and> dProduct d = [] then em_dash
      else if dManufacturer d = [] then dProduct d
      else if dProduct d = [] then dManufacturer d
      else dManufacturer d @ '' '' @ dProduct d)"

definition table_Devices :: "(out_op \<Rightarrow> 'r) \<Rightarrow> Device list \<Rightarrow> 'r" where
  "table_Devices w devs =
     w (OutTable [''BUSID'', ''DEVICE'', ''SPEED'', ''VID:PID'', ''CLASS'', ''IF'']
       (map (\<lambda>d. terminalSafeRow
          [dBusID d, deviceLabel d, Speed_String (dSpeed d), formatHex16 (dVendorID d) @ '':'' @ formatHex16 (dProductID d),
           USBClass_String (dClass d), FormatUint (unat (dNumInterfaces d))]) devs))"

definition table_Ports :: "(out_op \<Rightarrow> 'r) \<Rightarrow> Port list \<Rightarrow> 'r" where
  "table_Ports w ports =
     w (OutTable [''PORT'', ''STATUS'', ''SPEED'', ''REMOTE'', ''BUSID'', ''LOCAL'']
       (map (\<lambda>p. terminalSafeRow
          [FormatUint (unat (pID p)), Status_String (pStatus p), Speed_String (pSpeed p), formatRemoteEndpoint (pRemote p),
           pBusID p, pLocalBusID p]) ports))"

text \<open>\<open>s.StartedAt.Format("2006-01-02T15:04:05Z")\<close>: the clock of the value's own zone, \<open>zone\<close> nanoseconds east of UTC, with a
  letter Z that is part of the layout.\<close>

definition formatSeconds :: "int \<Rightarrow> int \<Rightarrow> string" where
  "formatSeconds zone t = formatTime ((t + zone) div 1000000000 * 1000000000)"

definition table_Sessions :: "(Session \<Rightarrow> int) \<Rightarrow> (out_op \<Rightarrow> 'r) \<Rightarrow> Session list \<Rightarrow> 'r" where
  "table_Sessions zone w sessions =
     w (OutTable [''ID'', ''REMOTE'', ''BUSID'', ''STARTED'', ''IN'', ''OUT'']
       (map (\<lambda>s. terminalSafeRow
          [SessionID_String (sID s), sRemoteAddr s, sBusID s, formatSeconds (zone s) (sStartedAt s),
           FormatUint (unat (sBytesIn s)), FormatUint (unat (sBytesOut s))]) sessions))"

definition table_Event :: "(out_op \<Rightarrow> 'r) \<Rightarrow> Event \<Rightarrow> 'r" where
  "table_Event w ev = (case eventHeader (classifyEvent ev) of (kind, at) \<Rightarrow> w (OutEvent kind at))"

section \<open>output.go: the renderer interface\<close>

datatype Renderer = jsonRenderer | tableRenderer

definition pickRenderer :: "string \<Rightarrow> Renderer" where
  "pickRenderer output = (if output = ''json'' then jsonRenderer else tableRenderer)"

definition Renderer_Devices :: "Renderer \<Rightarrow> (out_op \<Rightarrow> 'r) \<Rightarrow> Device list \<Rightarrow> 'r" where
  "Renderer_Devices r w devs = (case r of jsonRenderer \<Rightarrow> json_Devices (w \<circ> OutBytes) devs | tableRenderer \<Rightarrow> table_Devices w devs)"

definition Renderer_Ports :: "Renderer \<Rightarrow> (out_op \<Rightarrow> 'r) \<Rightarrow> Port list \<Rightarrow> 'r" where
  "Renderer_Ports r w ports = (case r of jsonRenderer \<Rightarrow> json_Ports (w \<circ> OutBytes) ports | tableRenderer \<Rightarrow> table_Ports w ports)"

definition Renderer_Sessions :: "(Session \<Rightarrow> int) \<Rightarrow> Renderer \<Rightarrow> (out_op \<Rightarrow> 'r) \<Rightarrow> Session list \<Rightarrow> 'r" where
  "Renderer_Sessions zone r w sessions =
     (case r of jsonRenderer \<Rightarrow> json_Sessions (w \<circ> OutBytes) sessions | tableRenderer \<Rightarrow> table_Sessions zone w sessions)"

definition Renderer_Event :: "Renderer \<Rightarrow> (out_op \<Rightarrow> 'r) \<Rightarrow> Event \<Rightarrow> 'r" where
  "Renderer_Event r w ev = (case r of jsonRenderer \<Rightarrow> json_Event (w \<circ> OutBytes) ev | tableRenderer \<Rightarrow> table_Event w ev)"

section \<open>Lemmas\<close>

definition cell_safe :: "string \<Rightarrow> bool" where
  "cell_safe v = list_all (\<lambda>r. \<not> IsControl r) (runes v)"

lemma terminalSafeRow_safe: "list_all cell_safe (terminalSafeRow cells)"
proof -
  have "cell_safe (escapeTerminalControls v)" for v
    unfolding cell_safe_def using terminal_safe [of v] by blast
  thus ?thesis
    by (simp add: terminalSafeRow_def list_all_iff)
qed

lemma printable_safe: "\<forall>c\<in>set s. 32 \<le> byte c \<and> byte c < 127 \<Longrightarrow> cell_safe s"
  using runes_ascii [of s "[]"] by (force simp: cell_safe_def list_all_iff IsControl_def)

lemma plain_safe: "plain s \<Longrightarrow> cell_safe s"
  by (rule printable_safe) (auto simp: plain_def list_all_iff)

lemma FormatUint_printable: "c \<in> set (FormatUint n) \<Longrightarrow> 32 \<le> byte c \<and> byte c < 127"
  using set_FormatUint [of c n] by (simp add: less_eq_char_def)

lemma append_int_printable: "c \<in> set (append_int n w) \<Longrightarrow> 32 \<le> byte c \<and> byte c < 127"
  by (auto simp: append_int_def zero_pad_def dest: FormatUint_printable split: if_splits)

lemma fraction_printable: "c \<in> set (time_fraction ns) \<Longrightarrow> 32 \<le> byte c \<and> byte c < 127"
  using append_int_printable [of c ns 9] by (auto simp: time_fraction_def dest: set_dropWhileD split: if_splits)

lemma formatTime_printable: "\<forall>c\<in>set (formatTime t). 32 \<le> byte c \<and> byte c < 127"
  unfolding formatTime_def Let_def
  by (auto split: prod.splits dest: append_int_printable fraction_printable)

lemma header_safe: "eventHeader (classifyEvent ev) = (EventKind_String (EventKind_of ev), formatTime (evAt ev))"
  by (cases ev) (simp_all add: newEventBase_def)

text \<open>Whatever is written for a human has only safe cells.\<close>

fun out_safe :: "out_op \<Rightarrow> bool" where
  "out_safe (OutTable header rows) = (list_all cell_safe header \<and> list_all (list_all cell_safe) rows)"
| "out_safe (OutAck action subject) = (cell_safe action \<and> cell_safe subject)"
| "out_safe (OutEvent kind at) = (cell_safe kind \<and> cell_safe at)"
| "out_safe (OutBytes s) = (list_all (\<lambda>c. 32 \<le> byte c) (butlast s) \<and> last s = CHR 0x0A)"

lemma json_safe: "out_safe (OutBytes (json_encode v @ [CHR 0x0A]))"
  using json_printable(1) by (simp add: list_all_iff)

declare out_safe.simps(4) [simp del]

lemma rows_safe: "list_all (list_all cell_safe) (map (\<lambda>x. terminalSafeRow (f x)) xs)"
  using terminalSafeRow_safe by (simp add: list_all_iff)

lemma header_cells: "list_all plain header \<Longrightarrow> list_all cell_safe header"
  by (auto simp: list_all_iff intro: plain_safe)

lemma headers_safe:
  "list_all cell_safe [''BUSID'', ''DEVICE'', ''SPEED'', ''VID:PID'', ''CLASS'', ''IF'']"
  "list_all cell_safe [''PORT'', ''STATUS'', ''SPEED'', ''REMOTE'', ''BUSID'', ''LOCAL'']"
  "list_all cell_safe [''ID'', ''REMOTE'', ''BUSID'', ''STARTED'', ''IN'', ''OUT'']"
  by (rule header_cells, simp add: plain_def)+

lemma table_out_safe:
  "out_safe (table_Devices id devs)" "out_safe (table_Ports id ports)" "out_safe (table_Sessions zone id sessions)" "out_safe (table_Event id ev)"
  unfolding table_Devices_def table_Ports_def table_Sessions_def table_Event_def header_safe id_apply out_safe.simps prod.case
  by (intro conjI headers_safe rows_safe plain_safe [OF plain_kind] printable_safe [OF formatTime_printable])+

lemma json_out_safe:
  "out_safe (OutBytes (json_Devices id devs))" "out_safe (OutBytes (json_Ports id ports))" "out_safe (OutBytes (json_Event id ev))"
  unfolding json_Devices_def json_Ports_def json_Event_def writeJSON_def id_apply by (rule json_safe)+

text \<open>A renderer of either kind makes one write, of a safe value.\<close>

definition rendered :: "Renderer \<Rightarrow> string \<Rightarrow> out_op \<Rightarrow> out_op" where
  "rendered r bytes tab = (case r of jsonRenderer \<Rightarrow> OutBytes bytes | tableRenderer \<Rightarrow> tab)"

lemma renders_once:
  "Renderer_Devices r w devs = w (rendered r (json_Devices id devs) (table_Devices id devs))"
  "Renderer_Ports r w ports = w (rendered r (json_Ports id ports) (table_Ports id ports))"
  "Renderer_Event r w ev = w (rendered r (json_Event id ev) (table_Event id ev))"
  by (cases r; simp add: rendered_def Renderer_Devices_def Renderer_Ports_def Renderer_Event_def table_Devices_def table_Ports_def
      table_Event_def json_Devices_def json_Ports_def json_Event_def writeJSON_def split: prod.split)+

lemma rendered_safe:
  "out_safe (rendered r (json_Devices id devs) (table_Devices id devs))"
  "out_safe (rendered r (json_Ports id ports) (table_Ports id ports))"
  "out_safe (rendered r (json_Event id ev) (table_Event id ev))"
  unfolding rendered_def by (cases r; simp only: Renderer.case json_out_safe table_out_safe)+

end
