(* ===== verification/Cli_Commands.thy ===== *)
theory Cli_Commands
  imports Cli_Tables Backoff Kernel_Sysfs BusID
begin

text \<open>
  The commands of \<open>cmd/usbip-go\<close> around the operations of the other theories: \<open>attach.go\<close>, \<open>detach.go\<close>, \<open>list.go\<close>, \<open>port.go\<close>,
  \<open>bind.go\<close>, \<open>watch.go\<close>, the shell completions, \<open>backoff.go\<close>, \<open>logger.go\<close>, \<open>root.go\<close>, \<open>main.go\<close> and \<open>completion_install.go\<close>.
  A run is its error and the sequence of its effects; what each importer or exporter call returns, the outcome of a write and the
  environment of the process are parameters.  \<open>time.ParseDuration\<close> is a parameter.
\<close>

section \<open>backoff.go\<close>

datatype spec_backoff = SpecFixed int | SpecExponential ExponentialBackoff

text \<open>The double nearest to 0.2.\<close>

definition defaultBackoffJitter :: float64 where
  "defaultBackoffJitter = Fin (3602879701896397 / 18014398509481984)"

definition expBackoffParts :: nat where "expBackoffParts = 2"

definition parseFixedBackoff :: "(string \<Rightarrow> go_error + int) \<Rightarrow> string \<Rightarrow> go_error + spec_backoff" where
  "parseFixedBackoff ParseDuration rest =
     (case ParseDuration rest of
        Inl err \<Rightarrow> Inl (Cli InvalidBackoff # err)
      | Inr d \<Rightarrow> if d < 0 then Inl [Cli InvalidBackoff] else Inr (SpecFixed d))"

text \<open>\<open>None\<close>: the constructor panics.\<close>

definition parseExpBackoff :: "(string \<Rightarrow> go_error + int) \<Rightarrow> string \<Rightarrow> (go_error + spec_backoff) option" where
  "parseExpBackoff ParseDuration rest =
     (let parts = split_on (CHR '':'') rest
      in if length parts \<noteq> expBackoffParts then Some (Inl [Cli InvalidBackoff])
         else case ParseDuration (parts ! 0) of
           Inl err \<Rightarrow> Some (Inl (Cli InvalidBackoff # err))
         | Inr minD \<Rightarrow>
             (case ParseDuration (parts ! 1) of
                Inl err \<Rightarrow> Some (Inl (Cli InvalidBackoff # err))
              | Inr maxD \<Rightarrow>
                  if minD \<le> 0 \<or> maxD \<le> 0 \<or> maxD < minD then Some (Inl [Cli InvalidBackoff])
                  else map_option (\<lambda>b. Inr (SpecExponential b))
                    (MustNewExponentialBackoff \<lparr>ebMin = minD, ebMax = maxD, ebJitter = defaultBackoffJitter\<rparr>)))"

definition parseBackoff :: "(string \<Rightarrow> go_error + int) \<Rightarrow> string \<Rightarrow> (go_error + spec_backoff) option" where
  "parseBackoff ParseDuration spec =
     (case cut (CHR '':'') spec of
        None \<Rightarrow> Some (Inl [Cli InvalidBackoff])
      | Some (kind, rest) \<Rightarrow>
          if kind = ''fixed'' then Some (parseFixedBackoff ParseDuration rest)
          else if kind = ''exp'' then parseExpBackoff ParseDuration rest
          else Some (Inl [Cli InvalidBackoff]))"

section \<open>attach.go: arguments\<close>

record attachFlags =
  afAutoReconnect :: bool
  afMaxAttempts :: int
  afBackoff :: string

record attachSpec =
  asRemote :: RemoteEndpoint
  asBusID :: string
  asAutoReconnect :: bool
  asMaxAttempts :: int
  asBackoff :: "spec_backoff option"

text \<open>\<open>errUsage\<close> formats the cause into its message and does not wrap it.\<close>

definition errUsage :: go_error where "errUsage = [Cli UsageError]"

definition parseAttachArgs ::
  "(string \<Rightarrow> go_error + int) \<Rightarrow> string \<Rightarrow> string \<Rightarrow> attachFlags \<Rightarrow> (go_error + attachSpec) option" where
  "parseAttachArgs ParseDuration remote busid af =
     (case ParseRemote remote of
        Inl _ \<Rightarrow> Some (Inl errUsage)
      | Inr ep \<Rightarrow>
          (case ParseBusID busid of
             Inl _ \<Rightarrow> Some (Inl errUsage)
           | Inr busID \<Rightarrow>
               (let spec = (\<lambda>backoff. \<lparr>asRemote = ep, asBusID = busID, asAutoReconnect = afAutoReconnect af,
                  asMaxAttempts = afMaxAttempts af, asBackoff = backoff\<rparr>)
                in if afBackoff af = [] then Some (Inr (spec None))
                   else case parseBackoff ParseDuration (afBackoff af) of
                     None \<Rightarrow> None
                   | Some (Inl _) \<Rightarrow> Some (Inl errUsage)
                   | Some (Inr b) \<Rightarrow> Some (Inr (spec (Some b))))))"

section \<open>Effects\<close>

datatype cmd_effect =
    CeNewImporter | CeAttach attachSpec | CeDetach PortID | CeListRemote RemoteEndpoint | CeListPorts | CeWatch | CeCloseImporter
  | CeNewExporter | CeBind string | CeUnbind string | CeListAvailable | CeListExported
  | CeRecordHistory string | CeAwaitDone | CeOut out_op

text \<open>\<open>cmEvents\<close>: what the iterator of \<open>WatchWithErrors\<close> yields before it stops.\<close>

record cmd_env =
  cmOutput :: string
  cmNewImporter :: "go_error option"
  cmAttach :: "attachSpec \<Rightarrow> go_error + Port"
  cmDetach :: "PortID \<Rightarrow> go_error option"
  cmListRemote :: "RemoteEndpoint \<Rightarrow> go_error + Device list"
  cmListPorts :: "go_error + Port list"
  cmEvents :: "(go_error + Event) list"
  cmNewExporter :: "go_error option"
  cmBind :: "string \<Rightarrow> go_error option"
  cmUnbind :: "string \<Rightarrow> go_error option"
  cmListAvailable :: "go_error + Device list"
  cmListExported :: "go_error + Device list"
  cmHistory :: "string list"
  cmWrite :: "out_op \<Rightarrow> go_error option"

type_synonym cmd_run = "go_error option \<times> cmd_effect list"

definition do_write :: "cmd_env \<Rightarrow> out_op \<Rightarrow> cmd_run" where
  "do_write env op = (cmWrite env op, [CeOut op])"

text \<open>Statements after each other, the second unless the first failed; effects before a rest; \<open>newImporter\<close> with its deferred \<open>Close\<close>.\<close>

definition and_then :: "cmd_run \<Rightarrow> cmd_run \<Rightarrow> cmd_run" where
  "and_then a b = (case fst a of Some err \<Rightarrow> a | None \<Rightarrow> (fst b, snd a @ snd b))"

definition after_effects :: "cmd_effect list \<Rightarrow> cmd_run \<Rightarrow> cmd_run" where
  "after_effects fx r = (fst r, fx @ snd r)"

definition with_importer :: "cmd_env \<Rightarrow> cmd_run \<Rightarrow> cmd_run" where
  "with_importer env body =
     (case cmNewImporter env of
        Some err \<Rightarrow> (Some err, [CeNewImporter])
      | None \<Rightarrow> (fst body, CeNewImporter # snd body @ [CeCloseImporter]))"

section \<open>attach.go, detach.go\<close>

definition renderAttachResult :: "cmd_env \<Rightarrow> Port \<Rightarrow> cmd_run" where
  "renderAttachResult env port =
     (if cmOutput env = ''json'' then json_AttachAck (do_write env \<circ> OutBytes) port
      else and_then (do_write env (OutAck ''attached'' (pBusID port))) (table_Ports (do_write env) [port]))"

text \<open>A failure to record the history is only logged.\<close>

definition runAttach :: "(string \<Rightarrow> go_error + int) \<Rightarrow> cmd_env \<Rightarrow> string \<Rightarrow> string \<Rightarrow> attachFlags \<Rightarrow> cmd_run option" where
  "runAttach ParseDuration env remote busid af =
     (case parseAttachArgs ParseDuration remote busid af of
        None \<Rightarrow> None
      | Some (Inl err) \<Rightarrow> Some (Some err, [])
      | Some (Inr spec) \<Rightarrow>
          Some (case cmNewImporter env of
            Some err \<Rightarrow> (Some err, [CeNewImporter])
          | None \<Rightarrow>
              (case cmAttach env spec of
                 Inl err \<Rightarrow> (Some err, [CeNewImporter, CeAttach spec, CeCloseImporter])
               | Inr port \<Rightarrow>
                   (let fx = [CeNewImporter, CeAttach spec, CeRecordHistory remote];
                        (renderErr, written) = renderAttachResult env port
                    in case renderErr of
                         Some err \<Rightarrow> (Some err, fx @ written @ [CeCloseImporter])
                       | None \<Rightarrow>
                           if \<not> asAutoReconnect spec then (None, fx @ written @ [CeCloseImporter])
                           else (None, fx @ written @ [CeAwaitDone, CeCloseImporter])))))"

definition renderDetachResult :: "cmd_env \<Rightarrow> PortID \<Rightarrow> cmd_run" where
  "renderDetachResult env pid =
     (if cmOutput env = ''json'' then json_DetachAck (do_write env \<circ> OutBytes) pid
      else do_write env (OutAck ''detached port'' (FormatUint (unat pid))))"

definition runDetach :: "cmd_env \<Rightarrow> string \<Rightarrow> cmd_run" where
  "runDetach env arg =
     (case ParseUint arg 10 32 of
        Inl _ \<Rightarrow> (Some errUsage, [])
      | Inr n \<Rightarrow>
          (let pid = of_nat n
           in with_importer env
                (case cmDetach env pid of
                   Some err \<Rightarrow> (Some err, [CeDetach pid])
                 | None \<Rightarrow> after_effects [CeDetach pid] (renderDetachResult env pid))))"

section \<open>list.go, port.go, watch.go\<close>

definition runListRemote :: "cmd_env \<Rightarrow> string \<Rightarrow> cmd_run" where
  "runListRemote env remote =
     (case ParseRemote remote of
        Inl _ \<Rightarrow> (Some errUsage, [])
      | Inr ep \<Rightarrow>
          with_importer env
            (case cmListRemote env ep of
               Inl err \<Rightarrow> (Some err, [CeListRemote ep])
             | Inr devs \<Rightarrow> after_effects [CeListRemote ep] (Renderer_Devices (pickRenderer (cmOutput env)) (do_write env) devs)))"

definition runListLocal :: "cmd_env \<Rightarrow> cmd_run" where
  "runListLocal env =
     (case cmNewExporter env of
        Some err \<Rightarrow> (Some err, [CeNewExporter])
      | None \<Rightarrow>
          (case cmListAvailable env of
             Inl err \<Rightarrow> (Some err, [CeNewExporter, CeListAvailable])
           | Inr devs \<Rightarrow>
               after_effects [CeNewExporter, CeListAvailable] (Renderer_Devices (pickRenderer (cmOutput env)) (do_write env) devs)))"

definition runList :: "cmd_env \<Rightarrow> string option \<Rightarrow> cmd_run" where
  "runList env arg = (case arg of Some remote \<Rightarrow> runListRemote env remote | None \<Rightarrow> runListLocal env)"

definition isAttachedPort :: "Port \<Rightarrow> bool" where
  "isAttachedPort port \<longleftrightarrow> pStatus port \<noteq> StatusNull \<and> pStatus port \<noteq> StatusAvailable"

definition activePorts :: "Port list \<Rightarrow> Port list" where
  "activePorts ports = filter isAttachedPort ports"

definition filterPortByID :: "Port list \<Rightarrow> PortID \<Rightarrow> Port list option" where
  "filterPortByID ports pid = map_option (\<lambda>p. [p]) (find (\<lambda>p. pID p = pid \<and> isAttachedPort p) ports)"

text \<open>\<open>flag\<close>: the value of \<open>--id\<close> when it was given.\<close>

definition runPort :: "cmd_env \<Rightarrow> PortID option \<Rightarrow> cmd_run" where
  "runPort env flag =
     with_importer env
       (case cmListPorts env of
          Inl err \<Rightarrow> (Some err, [CeListPorts])
        | Inr ports \<Rightarrow>
            (case (case flag of None \<Rightarrow> Some (activePorts ports) | Some pid \<Rightarrow> filterPortByID (activePorts ports) pid) of
               None \<Rightarrow> (Some [Dom ErrDeviceNotFound], [CeListPorts])
             | Some sel \<Rightarrow> after_effects [CeListPorts] (Renderer_Ports (pickRenderer (cmOutput env)) (do_write env) sel)))"

fun watch_loop :: "cmd_env \<Rightarrow> (go_error + Event) list \<Rightarrow> cmd_run" where
  "watch_loop env [] = (None, [])"
| "watch_loop env (Inl err # _) = (Some err, [])"
| "watch_loop env (Inr ev # evs) = and_then (Renderer_Event (pickRenderer (cmOutput env)) (do_write env) ev) (watch_loop env evs)"

definition runWatch :: "cmd_env \<Rightarrow> cmd_run" where
  "runWatch env = with_importer env (after_effects [CeWatch] (watch_loop env (cmEvents env)))"

section \<open>bind.go\<close>

definition writeBindAckJSON :: "(string \<Rightarrow> cmd_run) \<Rightarrow> string \<Rightarrow> string \<Rightarrow> cmd_run" where
  "writeBindAckJSON w op busID =
     (if op = ''bind'' then json_BindAck w busID
      else if op = ''unbind'' then json_UnbindAck w busID
      else (Some errUsage, []))"

definition writeBindAck :: "cmd_env \<Rightarrow> string \<Rightarrow> string \<Rightarrow> cmd_run" where
  "writeBindAck env op busID =
     (if cmOutput env = ''json'' then writeBindAckJSON (do_write env \<circ> OutBytes) op busID
      else do_write env (OutAck (op @ ''ed'') busID))"

definition runBindUnbind :: "cmd_env \<Rightarrow> string \<Rightarrow> string \<Rightarrow> cmd_run" where
  "runBindUnbind env raw op =
     (case ParseBusID raw of
        Inl _ \<Rightarrow> (Some errUsage, [])
      | Inr busID \<Rightarrow>
          (case cmNewExporter env of
             Some err \<Rightarrow> (Some err, [CeNewExporter])
           | None \<Rightarrow>
               if op = ''bind'' then
                 and_then (cmBind env busID, [CeNewExporter, CeBind busID]) (writeBindAck env op busID)
               else if op = ''unbind'' then
                 and_then (cmUnbind env busID, [CeNewExporter, CeUnbind busID]) (writeBindAck env op busID)
               else (Some errUsage, [CeNewExporter])))"

section \<open>Shell completion\<close>

text \<open>\<open>cobra.ShellCompDirective\<close> is a set of bits.\<close>

definition ShellCompDirectiveError :: nat where "ShellCompDirectiveError = 1"
definition ShellCompDirectiveNoFileComp :: nat where "ShellCompDirectiveNoFileComp = 4"
definition completionErrorDirective :: nat where "completionErrorDirective = or ShellCompDirectiveError ShellCompDirectiveNoFileComp"

type_synonym completion = "string list \<times> nat \<times> cmd_effect list"

definition completeDevices :: "Device list \<Rightarrow> string list" where
  "completeDevices devices =
     map (\<lambda>d. dBusID d @ [CHR 0x09] @ formatHex16 (dVendorID d) @ '':'' @ formatHex16 (dProductID d)) devices"

text \<open>\<open>flag\<close>: the value of \<open>--complete-network\<close>, \<open>None\<close> without a command or without the flag.\<close>

definition networkCompletionEnabled :: "string \<Rightarrow> string option \<Rightarrow> bool" where
  "networkCompletionEnabled getenv flag =
     (if getenv = ''1'' then True else case flag of None \<Rightarrow> False | Some v \<Rightarrow> v = ''true'')"

definition completeAttachBusIDs :: "cmd_env \<Rightarrow> string \<Rightarrow> string list \<times> cmd_effect list" where
  "completeAttachBusIDs env remote =
     (case ParseRemote remote of
        Inl _ \<Rightarrow> ([], [])
      | Inr ep \<Rightarrow>
          if cmNewImporter env \<noteq> None then ([], [CeNewImporter])
          else (case cmListRemote env ep of
                  Inl _ \<Rightarrow> ([], [CeNewImporter, CeListRemote ep, CeCloseImporter])
                | Inr devs \<Rightarrow> (completeDevices devs, [CeNewImporter, CeListRemote ep, CeCloseImporter])))"

definition completeAttachArgs :: "cmd_env \<Rightarrow> string \<Rightarrow> string option \<Rightarrow> string list \<Rightarrow> completion" where
  "completeAttachArgs env getenv flag args =
     (case args of
        [] \<Rightarrow> (cmHistory env, ShellCompDirectiveNoFileComp, [])
      | [remote] \<Rightarrow>
          if \<not> networkCompletionEnabled getenv flag then ([], ShellCompDirectiveNoFileComp, [])
          else (case completeAttachBusIDs env remote of (out, fx) \<Rightarrow> (out, ShellCompDirectiveNoFileComp, fx))
      | _ \<Rightarrow> ([], ShellCompDirectiveNoFileComp, []))"

definition port_completion :: "Port \<Rightarrow> string" where
  "port_completion p =
     (let description = TrimSpace (formatRemoteEndpoint (pRemote p) @ '' '' @ pBusID p);
          completion = FormatUint (unat (pID p))
      in if description \<noteq> [] then completion @ [CHR 0x09] @ description else completion)"

definition completePortIDs :: "cmd_env \<Rightarrow> completion" where
  "completePortIDs env =
     (if cmNewImporter env \<noteq> None then ([], ShellCompDirectiveError, [CeNewImporter])
      else case cmListPorts env of
        Inl _ \<Rightarrow> ([], ShellCompDirectiveError, [CeNewImporter, CeListPorts, CeCloseImporter])
      | Inr ports \<Rightarrow>
          (map port_completion (activePorts ports), ShellCompDirectiveNoFileComp, [CeNewImporter, CeListPorts, CeCloseImporter]))"

definition completeBindableBusIDs :: "cmd_env \<Rightarrow> completion" where
  "completeBindableBusIDs env =
     (if cmNewExporter env \<noteq> None then ([], completionErrorDirective, [CeNewExporter])
      else case cmListAvailable env of
        Inl _ \<Rightarrow> ([], completionErrorDirective, [CeNewExporter, CeListAvailable])
      | Inr devs \<Rightarrow>
          (case cmListExported env of
             Inl _ \<Rightarrow> ([], completionErrorDirective, [CeNewExporter, CeListAvailable, CeListExported])
           | Inr exported \<Rightarrow>
               (completeDevices (filter (\<lambda>d. dBusID d \<notin> set (map dBusID exported)) devs), ShellCompDirectiveNoFileComp,
                [CeNewExporter, CeListAvailable, CeListExported])))"

definition completeBoundBusIDs :: "cmd_env \<Rightarrow> completion" where
  "completeBoundBusIDs env =
     (if cmNewExporter env \<noteq> None then ([], completionErrorDirective, [CeNewExporter])
      else case cmListExported env of
        Inl _ \<Rightarrow> ([], completionErrorDirective, [CeNewExporter, CeListExported])
      | Inr devices \<Rightarrow> (completeDevices devices, ShellCompDirectiveNoFileComp, [CeNewExporter, CeListExported]))"

section \<open>logger.go, root.go, main.go\<close>

definition traceLevel :: int where "traceLevel = - 8"
definition LevelDebug :: int where "LevelDebug = - 4"
definition LevelInfo :: int where "LevelInfo = 0"
definition LevelWarn :: int where "LevelWarn = 4"
definition LevelError :: int where "LevelError = 8"

lemmas levels = traceLevel_def LevelDebug_def LevelInfo_def LevelWarn_def LevelError_def

definition errInvalidLogLevel :: go_error where "errInvalidLogLevel = [OtherErr 1]"
definition errInvalidLogFormat :: go_error where "errInvalidLogFormat = [OtherErr 2]"
definition errInvalidOutput :: go_error where "errInvalidOutput = [OtherErr 3]"

definition baseLevel :: "string \<Rightarrow> go_error + int" where
  "baseLevel name =
     (if name = ''trace'' then Inr traceLevel
      else if name = ''debug'' then Inr LevelDebug
      else if name = ''info'' then Inr LevelInfo
      else if name = ''warn'' then Inr LevelWarn
      else if name = ''error'' then Inr LevelError
      else Inl errInvalidLogLevel)"

definition parseLevel :: "string \<Rightarrow> int \<Rightarrow> go_error + int" where
  "parseLevel name verbose =
     (case baseLevel name of
        Inl err \<Rightarrow> Inl err
      | Inr base \<Rightarrow>
          if 2 \<le> verbose \<and> traceLevel < base then Inr traceLevel
          else if 1 \<le> verbose \<and> LevelDebug < base then Inr LevelDebug
          else Inr base)"

record globalFlags =
  gfOutput :: string
  gfLogLevel :: string
  gfLogFormat :: string
  gfVerboseCount :: int
  gfNoColor :: bool

datatype log_handler = TintHandler int bool | JSONHandler int

definition buildLogger :: "bool \<Rightarrow> string \<Rightarrow> globalFlags \<Rightarrow> go_error + log_handler" where
  "buildLogger isTTY noColorEnv f =
     (case parseLevel (gfLogLevel f) (gfVerboseCount f) of
        Inl err \<Rightarrow> Inl err
      | Inr lvl \<Rightarrow>
          (let noColor = (noColorEnv \<noteq> [] \<or> gfNoColor f)
           in if gfLogFormat f = ''auto'' then (if isTTY \<and> \<not> noColor then Inr (TintHandler lvl noColor) else Inr (JSONHandler lvl))
              else if gfLogFormat f = ''pretty'' then Inr (TintHandler lvl noColor)
              else if gfLogFormat f = ''json'' then Inr (JSONHandler lvl)
              else Inl errInvalidLogFormat))"

definition validateGlobalFlags :: "globalFlags \<Rightarrow> go_error option" where
  "validateGlobalFlags f = (if gfOutput f = ''table'' \<or> gfOutput f = ''json'' then None else Some errInvalidOutput)"

text \<open>The root command's \<open>PersistentPreRunE\<close>: the error, and the value of \<open>NO_COLOR\<close> afterwards.\<close>

definition PersistentPreRunE :: "bool \<Rightarrow> string \<Rightarrow> globalFlags \<Rightarrow> (go_error + log_handler) \<times> string" where
  "PersistentPreRunE isTTY noColorEnv gf =
     (case validateGlobalFlags gf of
        Some err \<Rightarrow> (Inl err, noColorEnv)
      | None \<Rightarrow>
          (let noColorEnv = (if gfNoColor gf then ''1'' else noColorEnv)
           in (buildLogger isTTY noColorEnv gf, noColorEnv)))"

text \<open>\<open>strconv.ParseBool\<close>.\<close>

definition ParseBool :: "string \<Rightarrow> bool option" where
  "ParseBool s =
     (if s \<in> set [''1'', ''t'', ''T'', ''TRUE'', ''true'', ''True''] then Some True
      else if s \<in> set [''0'', ''f'', ''F'', ''FALSE'', ''false'', ''False''] then Some False
      else None)"

fun applyNoColorEarly :: "string \<Rightarrow> string list \<Rightarrow> string" where
  "applyNoColorEarly noColorEnv [] = noColorEnv"
| "applyNoColorEarly noColorEnv (a # args) =
     (if a = ''--no-color'' then ''1''
      else if \<not> HasPrefix a ''--no-color='' then applyNoColorEarly noColorEnv args
      else if ParseBool (TrimPrefix a ''--no-color='') = Some True then ''1''
      else applyNoColorEarly noColorEnv args)"

text \<open>The exit code and the line on standard error for what the command returned.\<close>

definition executeRoot :: "(go_error \<Rightarrow> string) \<Rightarrow> go_error option \<Rightarrow> int \<times> go_error option" where
  "executeRoot text err = (if err \<noteq> None then (MapError text err, err) else (0, None))"

definition renderMainError :: "(go_error \<Rightarrow> string) \<Rightarrow> go_error option \<Rightarrow> string" where
  "renderMainError text err = (case err of None \<Rightarrow> [] | Some _ \<Rightarrow> FormatError text err @ [CHR 0x0A])"

section \<open>The command line\<close>

text \<open>The commands with the number of arguments that cobra has checked; \<open>None\<close> is a panic.\<close>

datatype command =
    CmdAttach string string attachFlags | CmdDetach string | CmdList "string option" | CmdPort "PortID option"
  | CmdBind string | CmdUnbind string | CmdWatch

fun run_command :: "(string \<Rightarrow> go_error + int) \<Rightarrow> cmd_env \<Rightarrow> command \<Rightarrow> cmd_run option" where
  "run_command ParseDuration env (CmdAttach remote busid af) = runAttach ParseDuration env remote busid af"
| "run_command _ env (CmdDetach arg) = Some (runDetach env arg)"
| "run_command _ env (CmdList arg) = Some (runList env arg)"
| "run_command _ env (CmdPort flag) = Some (runPort env flag)"
| "run_command _ env (CmdBind raw) = Some (runBindUnbind env raw ''bind'')"
| "run_command _ env (CmdUnbind raw) = Some (runBindUnbind env raw ''unbind'')"
| "run_command _ env CmdWatch = Some (runWatch env)"

section \<open>Lemmas\<close>

lemma jitter_valid: "fge defaultBackoffJitter (Fin 0) \<and> \<not> fge defaultBackoffJitter (Fin 1) \<and> defaultBackoffJitter \<noteq> NaN"
  by (simp add: defaultBackoffJitter_def)

lemma cli_config_valid:
  "0 < minD \<Longrightarrow> minD \<le> maxD \<Longrightarrow> ExponentialBackoffConfig_Validate \<lparr>ebMin = minD, ebMax = maxD, ebJitter = defaultBackoffJitter\<rparr> = None"
  using jitter_valid by (simp add: ExponentialBackoffConfig_Validate_def)

lemma parseExp_cases:
  "case parseExpBackoff ParseDuration rest of
     None \<Rightarrow> False
   | Some (Inl err) \<Rightarrow> errors_Is err (Cli InvalidBackoff)
   | Some (Inr b) \<Rightarrow> (\<exists>e. b = SpecExponential e \<and> ExponentialBackoffConfig_Validate e = None \<and> 0 < ebMin e \<and> ebMin e \<le> ebMax e)"
  by (auto simp: parseExpBackoff_def MustNewExponentialBackoff_def cli_config_valid Let_def split: sum.split)

lemma parseBackoff_total: "parseBackoff ParseDuration spec \<noteq> None"
proof -
  have "parseExpBackoff ParseDuration rest \<noteq> None" for rest
    using parseExp_cases [of ParseDuration rest] by (cases "parseExpBackoff ParseDuration rest") simp_all
  thus ?thesis
    by (auto simp: parseBackoff_def split: option.splits prod.splits)
qed

lemma parseAttachArgs_cases:
  obtains (usage) "parseAttachArgs ParseDuration remote busid af = Some (Inl errUsage)"
  | (spec) spec where "parseAttachArgs ParseDuration remote busid af = Some (Inr spec)" "ParseBusID busid = Inr (asBusID spec)"
      "ParseRemote remote = Inr (asRemote spec)"
proof (cases "ParseRemote remote")
  case (Inl err)
  thus ?thesis
    by (intro usage) (simp add: parseAttachArgs_def)
next
  case remote: (Inr ep)
  show ?thesis
  proof (cases "ParseBusID busid")
    case (Inl err)
    thus ?thesis
      using remote by (intro usage) (simp add: parseAttachArgs_def)
  next
    case busid: (Inr busID)
    obtain res where "parseBackoff ParseDuration (afBackoff af) = Some res"
      using parseBackoff_total by blast
    moreover define made where "made b = \<lparr>asRemote = ep, asBusID = busID, asAutoReconnect = afAutoReconnect af,
        asMaxAttempts = afMaxAttempts af, asBackoff = b\<rparr>" for b
    ultimately have "parseAttachArgs ParseDuration remote busid af
        = Some (if afBackoff af = [] then Inr (made None) else case res of Inl _ \<Rightarrow> Inl errUsage | Inr b \<Rightarrow> Inr (made (Some b)))"
      using remote busid by (simp add: parseAttachArgs_def split: sum.split)
    moreover have "asBusID (made b) = busID" "asRemote (made b) = ep" for b
      by (simp_all add: made_def)
    ultimately show ?thesis
      using usage spec [of "made None"] spec [of "made (Some b)" for b] remote busid
      by (cases "afBackoff af = []"; cases res) simp_all
  qed
qed

definition quiet :: "cmd_effect list \<Rightarrow> bool" where
  "quiet fx = list_all (\<lambda>e. e \<noteq> CeNewImporter \<and> e \<noteq> CeCloseImporter) fx"

lemma quiet_simps [simp]:
  "quiet []" "quiet (e # fx) \<longleftrightarrow> e \<noteq> CeNewImporter \<and> e \<noteq> CeCloseImporter \<and> quiet fx" "quiet (fx @ fy) \<longleftrightarrow> quiet fx \<and> quiet fy"
  by (auto simp: quiet_def)

text \<open>The importer's life in a run: nothing of it, or a constructor that failed and nothing after it, or the constructor,
  the uses and one \<open>Close\<close> at the very end.\<close>

definition uses_importer :: "cmd_effect \<Rightarrow> bool" where
  "uses_importer e \<longleftrightarrow> (case e of CeAttach _ \<Rightarrow> True | CeDetach _ \<Rightarrow> True | CeListRemote _ \<Rightarrow> True | CeListPorts \<Rightarrow> True | CeWatch \<Rightarrow> True | _ \<Rightarrow> False)"

definition released :: "go_error option \<Rightarrow> cmd_effect list \<Rightarrow> bool" where
  "released made fx \<longleftrightarrow>
     quiet fx \<and> \<not> list_ex uses_importer fx
     \<or> made \<noteq> None \<and> fx = [CeNewImporter]
     \<or> made = None \<and> (\<exists>mid. fx = CeNewImporter # mid @ [CeCloseImporter] \<and> quiet mid)"

lemma released_with: "quiet (snd body) \<Longrightarrow> released (cmNewImporter env) (snd (with_importer env body))"
  by (auto simp: released_def with_importer_def split: option.split)

lemma released_none: "quiet fx \<Longrightarrow> \<not> list_ex uses_importer fx \<Longrightarrow> released made fx"
  by (simp add: released_def)

lemma released_middle: "quiet mid \<Longrightarrow> made = None \<Longrightarrow> released made (CeNewImporter # mid @ [CeCloseImporter])"
  by (auto simp: released_def)

lemma do_write_snd [simp]: "snd (do_write env op) = [CeOut op]" "fst (do_write env op) = cmWrite env op"
  by (simp_all add: do_write_def)

lemma after_effects_snd [simp]: "snd (after_effects fx r) = fx @ snd r" "fst (after_effects fx r) = fst r"
  by (simp_all add: after_effects_def)

lemma and_then_snd: "snd (and_then a b) = (if fst a = None then snd a @ snd b else snd a)"
  by (simp add: and_then_def split: option.split)

text \<open>What a run writes.\<close>

definition outs :: "cmd_effect list \<Rightarrow> out_op list" where
  "outs fx = concat (map (\<lambda>e. case e of CeOut op \<Rightarrow> [op] | _ \<Rightarrow> []) fx)"

lemma outs_simps [simp]:
  "outs [] = []" "outs (CeOut op # fx) = op # outs fx" "outs (fx @ fy) = outs fx @ outs fy"
  "outs (CeNewImporter # fx) = outs fx" "outs (CeCloseImporter # fx) = outs fx" "outs (CeAttach spec # fx) = outs fx"
  "outs (CeDetach pid # fx) = outs fx" "outs (CeListRemote ep # fx) = outs fx" "outs (CeListPorts # fx) = outs fx"
  "outs (CeWatch # fx) = outs fx" "outs (CeNewExporter # fx) = outs fx" "outs (CeBind busID # fx) = outs fx"
  "outs (CeUnbind busID # fx) = outs fx" "outs (CeListAvailable # fx) = outs fx" "outs (CeListExported # fx) = outs fx"
  "outs (CeRecordHistory host # fx) = outs fx" "outs (CeAwaitDone # fx) = outs fx"
  by (simp_all add: outs_def)

lemma outs_with: "outs (snd (with_importer env body)) = (if cmNewImporter env = None then outs (snd body) else [])"
  by (simp add: with_importer_def split: option.split)

lemma busid_safe: "ParseBusID raw = Inr busID \<Longrightarrow> cell_safe busID"
proof -
  assume "ParseBusID raw = Inr busID"
  hence b: "busid_lang raw" "busID = raw"
    using ParseBusID_spec [of raw] by (auto split: if_splits)
  have "32 \<le> byte c \<and> byte c < 127" if "c \<in> set raw" for c
    using busid_lang_chars [OF b(1) that] by (auto simp: is_digit_def less_eq_char_def)
  thus ?thesis
    unfolding b(2) by (intro printable_safe) blast
qed

lemma render_run:
  "snd (Renderer_Devices r (do_write env) devs) = [CeOut (rendered r (json_Devices id devs) (table_Devices id devs))]"
  "snd (Renderer_Ports r (do_write env) ports) = [CeOut (rendered r (json_Ports id ports) (table_Ports id ports))]"
  "snd (Renderer_Event r (do_write env) ev) = [CeOut (rendered r (json_Event id ev) (table_Event id ev))]"
  by (simp_all add: renders_once)

lemma watch_run: "quiet (snd (watch_loop env evs)) \<and> list_all out_safe (outs (snd (watch_loop env evs)))"
  by (induction env evs rule: watch_loop.induct) (auto simp: and_then_snd render_run rendered_safe)

lemma ack_run:
  "snd (json_AttachAck (do_write env \<circ> OutBytes) port) = [CeOut (OutBytes (json_AttachAck id port))]"
  "snd (json_DetachAck (do_write env \<circ> OutBytes) pid) = [CeOut (OutBytes (json_DetachAck id pid))]"
  "snd (json_BindAck (do_write env \<circ> OutBytes) busID) = [CeOut (OutBytes (json_BindAck id busID))]"
  "snd (json_UnbindAck (do_write env \<circ> OutBytes) busID) = [CeOut (OutBytes (json_UnbindAck id busID))]"
  by (simp_all add: json_AttachAck_def json_DetachAck_def json_BindAck_def json_UnbindAck_def writeJSON_def)

lemma ack_safe:
  "out_safe (OutBytes (json_AttachAck id port))" "out_safe (OutBytes (json_DetachAck id pid))"
  "out_safe (OutBytes (json_BindAck id busID))" "out_safe (OutBytes (json_UnbindAck id busID))"
  unfolding json_AttachAck_def json_DetachAck_def json_BindAck_def json_UnbindAck_def writeJSON_def id_apply by (rule json_safe)+

lemma action_safe: "cell_safe ''attached''" "cell_safe ''detached port''" "cell_safe ''binded''" "cell_safe ''unbinded''" "cell_safe (FormatUint n)"
proof -
  show "cell_safe (FormatUint n)"
    using FormatUint_printable by (intro printable_safe) blast
qed (rule plain_safe, simp add: plain_def)+

lemma attach_result_run:
  "quiet (snd (renderAttachResult env port)) \<and> \<not> list_ex uses_importer (snd (renderAttachResult env port))
   \<and> (cell_safe (pBusID port) \<longrightarrow> list_all out_safe (outs (snd (renderAttachResult env port))))"
  using table_out_safe(2) [of "[port]"]
  by (simp add: renderAttachResult_def ack_run ack_safe and_then_snd action_safe uses_importer_def table_Ports_def)

lemma bind_ack_run:
  assumes "op = ''bind'' \<or> op = ''unbind''"
  shows "quiet (snd (writeBindAck env op busID)) \<and> \<not> list_ex uses_importer (snd (writeBindAck env op busID))
   \<and> (cell_safe busID \<longrightarrow> list_all out_safe (outs (snd (writeBindAck env op busID))))"
  using assms action_safe
  by (auto simp: writeBindAck_def writeBindAckJSON_def ack_run ack_safe uses_importer_def)

lemma usage_exit: "MapError text (Some errUsage) = ExitUsage"
  by (simp add: MapError_def isUsageError_def errUsage_def)

text \<open>The arguments that a command accepts.\<close>

fun args_valid :: "(string \<Rightarrow> go_error + int) \<Rightarrow> command \<Rightarrow> bool" where
  "args_valid ParseDuration (CmdAttach remote busid af) = (case parseAttachArgs ParseDuration remote busid af of Some (Inr _) \<Rightarrow> True | _ \<Rightarrow> False)"
| "args_valid _ (CmdDetach arg) = (case ParseUint arg 10 32 of Inr _ \<Rightarrow> True | Inl _ \<Rightarrow> False)"
| "args_valid _ (CmdList arg) = (case arg of None \<Rightarrow> True | Some remote \<Rightarrow> (case ParseRemote remote of Inr _ \<Rightarrow> True | Inl _ \<Rightarrow> False))"
| "args_valid _ (CmdPort _) = True"
| "args_valid _ (CmdBind raw) = (case ParseBusID raw of Inr _ \<Rightarrow> True | Inl _ \<Rightarrow> False)"
| "args_valid _ (CmdUnbind raw) = (case ParseBusID raw of Inr _ \<Rightarrow> True | Inl _ \<Rightarrow> False)"
| "args_valid _ CmdWatch = True"

text \<open>What is proved of one run: the importer's life, arguments checked before any effect, and safe output.\<close>

definition run_ok :: "cmd_env \<Rightarrow> bool \<Rightarrow> cmd_run \<Rightarrow> bool" where
  "run_ok env valid run \<longleftrightarrow>
     released (cmNewImporter env) (snd run) \<and> (snd run \<noteq> []) = valid \<and> (if valid then True else fst run = Some errUsage)
     \<and> list_all out_safe (outs (snd run))"

lemma run_ok_usage: "run_ok env False (Some errUsage, [])"
  by (simp add: run_ok_def released_def)

lemma run_ok_with:
  assumes "quiet (snd body)" "list_all out_safe (outs (snd body))"
  shows "run_ok env True (with_importer env body)"
  using assms released_with [of body env]
  by (auto simp: run_ok_def outs_with with_importer_def split: option.split)

lemma run_ok_plain:
  assumes "quiet fx" "\<not> list_ex uses_importer fx" "fx \<noteq> []" "list_all out_safe (outs fx)"
  shows "run_ok env True (r, fx)"
  using assms by (simp add: run_ok_def released_none)

lemma detach_ok: "run_ok env (args_valid ParseDuration (CmdDetach arg)) (runDetach env arg)"
proof (cases "ParseUint arg 10 32")
  case (Inr n)
  thus ?thesis
    by (auto simp: runDetach_def renderDetachResult_def ack_run ack_safe action_safe Let_def intro!: run_ok_with split: option.split)
qed (simp add: runDetach_def run_ok_usage)

lemma list_ok: "run_ok env (args_valid ParseDuration (CmdList arg)) (runList env arg)"
proof (cases arg)
  case None
  thus ?thesis
    by (auto simp: runList_def runListLocal_def run_ok_def released_def render_run rendered_safe uses_importer_def split: option.split sum.split)
next
  case (Some remote)
  show ?thesis
  proof (cases "ParseRemote remote")
    case (Inr ep)
    thus ?thesis
      by (auto simp: Some runList_def runListRemote_def render_run rendered_safe intro!: run_ok_with split: sum.split)
  qed (simp add: Some runList_def runListRemote_def run_ok_usage)
qed

lemma port_ok: "run_ok env True (runPort env flag)"
  by (auto simp: runPort_def render_run rendered_safe intro!: run_ok_with split: option.split sum.split)

lemma watch_ok: "run_ok env True (runWatch env)"
  using watch_run [of env "cmEvents env"] by (auto simp: runWatch_def intro!: run_ok_with)

lemma bind_ok:
  assumes "op = ''bind'' \<or> op = ''unbind''"
  shows "run_ok env (case ParseBusID raw of Inr _ \<Rightarrow> True | Inl _ \<Rightarrow> False) (runBindUnbind env raw op)"
proof (cases "ParseBusID raw")
  case (Inr busID)
  note ack = bind_ack_run [OF assms, of env busID] busid_safe [OF Inr]
  show ?thesis
    using assms ack
    by (auto simp: Inr runBindUnbind_def run_ok_def released_def and_then_snd uses_importer_def split: option.split)
qed (simp add: runBindUnbind_def run_ok_usage)

lemma attach_ok:
  assumes "\<And>spec port. cmAttach env spec = Inr port \<Longrightarrow> pBusID port = asBusID spec"
  shows "\<exists>run. runAttach ParseDuration env remote busid af = Some run \<and> run_ok env (args_valid ParseDuration (CmdAttach remote busid af)) run"
proof (cases rule: parseAttachArgs_cases [of ParseDuration remote busid af])
  case usage
  thus ?thesis
    by (simp add: runAttach_def run_ok_usage)
next
  case (spec spec)
  have safe: "cell_safe (pBusID port)" if "cmAttach env spec = Inr port" for port
    using assms [OF that] busid_safe [OF spec(2)] by simp
  show ?thesis
  proof (cases "cmNewImporter env = None")
    case True
    have life: "released (cmNewImporter env) (CeNewImporter # mid @ [CeCloseImporter])" if "quiet mid" for mid
      using released_middle [OF that True] .
    show ?thesis
    proof (cases "cmAttach env spec")
      case (Inl err)
      thus ?thesis
        using life [of "[CeAttach spec]"] by (simp add: runAttach_def spec True run_ok_def)
    next
      case (Inr port)
      obtain e written where w: "renderAttachResult env port = (e, written)"
        by (cases "renderAttachResult env port")
      have q: "quiet written" "list_all out_safe (outs written)"
        using attach_result_run [of env port] safe [OF Inr] by (simp_all add: w)
      show ?thesis
        using q life [of "[CeAttach spec, CeRecordHistory remote] @ written"]
          life [of "[CeAttach spec, CeRecordHistory remote] @ written @ [CeAwaitDone]"]
        by (cases e; cases "asAutoReconnect spec") (simp_all add: runAttach_def spec True Inr w run_ok_def Let_def)
    qed
  next
    case False
    thus ?thesis
      by (auto simp: runAttach_def spec run_ok_def released_def)
  qed
qed

section \<open>Properties\<close>


definition cmd_env_sample :: cmd_env where
  "cmd_env_sample =
     \<lparr>cmOutput = ''table'', cmNewImporter = None,
      cmAttach = (\<lambda>spec. Inr \<lparr>pID = 0, pStatus = StatusUsed, pSpeed = SpeedHigh, pDeviceID = 0, pRemote = asRemote spec,
        pBusID = asBusID spec, pLocalBusID = []\<rparr>),
      cmDetach = (\<lambda>_. None), cmListRemote = (\<lambda>_. Inr []), cmListPorts = Inr [], cmEvents = [], cmNewExporter = None,
      cmBind = (\<lambda>_. None), cmUnbind = (\<lambda>_. None), cmListAvailable = Inr [], cmListExported = Inr [], cmHistory = [],
      cmWrite = (\<lambda>_. Some [OtherErr 9])\<rparr>"


text \<open>The \<open>--backoff\<close> specification is safe for every text and every reading of durations: parsing never panics in the constructor of the exponential
  strategy, an error is the usage sentinel, a fixed delay is not negative, and an exponential strategy is valid with a positive minimum, which excludes
  the schedule of a zero minimum.\<close>

theorem parsed_backoff:
  "case parseBackoff ParseDuration spec of
     None \<Rightarrow> False
   | Some (Inl err) \<Rightarrow> errors_Is err (Cli InvalidBackoff)
   | Some (Inr (SpecFixed d)) \<Rightarrow> 0 \<le> d
   | Some (Inr (SpecExponential b)) \<Rightarrow> ExponentialBackoffConfig_Validate b = None \<and> 0 < ebMin b \<and> ebMin b \<le> ebMax b"
proof (cases "cut (CHR '':'') spec")
  case None
  thus ?thesis
    by (simp add: parseBackoff_def)
next
  case (Some kr)
  obtain kind rest where k: "kr = (kind, rest)"
    by (cases kr)
  have "case parseFixedBackoff ParseDuration rest of Inl err \<Rightarrow> errors_Is err (Cli InvalidBackoff) | Inr b \<Rightarrow> \<exists>d. b = SpecFixed d \<and> 0 \<le> d"
    by (simp add: parseFixedBackoff_def split: sum.split)
  thus ?thesis
    using parseExp_cases [of ParseDuration rest]
    by (auto simp: parseBackoff_def Some k split: option.splits sum.splits spec_backoff.splits)
qed

end
