(* ===== verification/Cli_Install.thy ===== *)
theory Cli_Install
  imports Cli_Commands
begin

text \<open>
  \<open>cmd/usbip-go/completion_install.go\<close>: where a completion script is installed, and the command that prints, writes or removes it.  The
  environment, the home directory, the outcome of each file operation and cobra's script generators are parameters.
\<close>

section \<open>Paths\<close>

text \<open>\<open>filepath.Clean\<close> and \<open>filepath.Join\<close>, of relative paths too.\<close>

fun clean_any :: "bool \<Rightarrow> string list \<Rightarrow> string list \<Rightarrow> string list" where
  "clean_any rooted acc [] = rev acc"
| "clean_any rooted acc (c # cs) =
     (if c = [] \<or> c = ''.'' then clean_any rooted acc cs
      else if c = ''..'' then
        (if acc \<noteq> [] \<and> hd acc \<noteq> ''..'' then clean_any rooted (tl acc) cs
         else if rooted then clean_any rooted acc cs
         else clean_any rooted (c # acc) cs)
      else clean_any rooted (c # acc) cs)"

definition filepath_Clean :: "string \<Rightarrow> string" where
  "filepath_Clean p =
     (let rooted = HasPrefix p ''/'';
          body = join_slash (clean_any rooted [] (split_on (CHR ''/'') p))
      in if rooted then CHR ''/'' # body else if body = [] then ''.'' else body)"

definition filepath_Join :: "string list \<Rightarrow> string" where
  "filepath_Join ps =
     (let qs = filter (\<lambda>p. p \<noteq> []) ps in if qs = [] then [] else filepath_Clean (join_slash qs))"

definition filepath_Dir :: "string \<Rightarrow> string" where
  "filepath_Dir p = filepath_Clean (rev (dropWhile (\<lambda>c. c \<noteq> CHR ''/'') (rev p)))"

section \<open>Shells\<close>

definition errShellUnknown :: go_error where "errShellUnknown = [OtherErr 4]"

definition validateShell :: "string \<Rightarrow> go_error + string" where
  "validateShell name =
     (if name \<in> set [''bash'', ''zsh'', ''fish'', ''pwsh'', ''powershell''] then Inr name else Inl errShellUnknown)"

definition resolveShell :: "string \<Rightarrow> string \<Rightarrow> go_error + string" where
  "resolveShell shell_env explicit =
     (if explicit \<noteq> [] then validateShell explicit
      else if shell_env = [] then Inl errShellUnknown
      else validateShell (path_Base shell_env))"

definition xdgDataHome :: "string \<Rightarrow> go_error + string \<Rightarrow> go_error + string" where
  "xdgDataHome xdg home =
     (if xdg \<noteq> [] then Inr xdg
      else case home of Inl err \<Rightarrow> Inl err | Inr h \<Rightarrow> Inr (filepath_Join [h, ''.local'', ''share'']))"

definition completionPath :: "string \<Rightarrow> go_error + string \<Rightarrow> string \<Rightarrow> go_error + string" where
  "completionPath xdg home shell =
     (case xdgDataHome xdg home of
        Inl err \<Rightarrow> Inl err
      | Inr data \<Rightarrow>
          if shell = ''bash'' then Inr (filepath_Join [data, ''bash-completion'', ''completions'', ''usbip-go''])
          else if shell = ''zsh'' then Inr (filepath_Join [data, ''zsh'', ''site-functions'', ''_usbip-go''])
          else if shell = ''fish'' then Inr (filepath_Join [data, ''fish'', ''vendor_completions.d'', ''usbip-go.fish''])
          else if shell = ''pwsh'' \<or> shell = ''powershell'' then Inr (filepath_Join [data, ''powershell'', ''Modules'', ''usbip-go.ps1''])
          else Inl errShellUnknown)"

text \<open>\<open>gen\<close>: cobra's generators, by shell.\<close>

definition generateScript :: "(string \<Rightarrow> go_error + string) \<Rightarrow> string \<Rightarrow> go_error + string" where
  "generateScript gen shell =
     (if shell = ''bash'' then gen ''bash''
      else if shell = ''zsh'' then gen ''zsh''
      else if shell = ''fish'' then gen ''fish''
      else if shell = ''pwsh'' \<or> shell = ''powershell'' then gen ''powershell''
      else Inl errShellUnknown)"

section \<open>The command\<close>

record completionInstallFlags =
  cifShell :: string
  cifDryRun :: bool
  cifUninstall :: bool

text \<open>0644 and 0755.\<close>

definition completionFileMode :: nat where "completionFileMode = 420"
definition completionDirMode :: nat where "completionDirMode = 493"

datatype install_effect = InMkdirAll string nat | InWriteFile string string nat | InRemove string | InPrintPath string | InAck string string

record install_env =
  ieShell :: string
  ieXdg :: string
  ieHome :: "go_error + string"
  ieGen :: "string \<Rightarrow> go_error + string"
  ieDo :: "install_effect \<Rightarrow> go_error option"

text \<open>Effects one after the other until one fails.\<close>

fun run_effects :: "install_env \<Rightarrow> install_effect list \<Rightarrow> go_error option \<times> install_effect list" where
  "run_effects env [] = (None, [])"
| "run_effects env (x # xs) =
     (case ieDo env x of
        Some err \<Rightarrow> (Some err, [x])
      | None \<Rightarrow> (case run_effects env xs of (r, fx) \<Rightarrow> (r, x # fx)))"

definition writeCompletionScript :: "install_env \<Rightarrow> string \<Rightarrow> string \<Rightarrow> go_error option \<times> install_effect list" where
  "writeCompletionScript env shell target =
     (case generateScript (ieGen env) shell of
        Inl err \<Rightarrow> (Some err, [])
      | Inr script \<Rightarrow>
          run_effects env
            [InMkdirAll (filepath_Dir target) completionDirMode, InWriteFile target script completionFileMode,
             InAck (''installed '' @ shell @ '' completion to'') target])"

text \<open>A file that is not there was removed already.\<close>

definition runUninstall :: "install_env \<Rightarrow> string \<Rightarrow> go_error option \<times> install_effect list" where
  "runUninstall env target =
     (case ieDo env (InRemove target) of
        Some err \<Rightarrow>
          if \<not> Is_NotExist err then (Some err, [InRemove target])
          else (ieDo env (InAck ''removed'' target), [InRemove target, InAck ''removed'' target])
      | None \<Rightarrow> (ieDo env (InAck ''removed'' target), [InRemove target, InAck ''removed'' target]))"

definition runCompletionInstall :: "install_env \<Rightarrow> completionInstallFlags \<Rightarrow> go_error option \<times> install_effect list" where
  "runCompletionInstall env cf =
     (case resolveShell (ieShell env) (cifShell cf) of
        Inl _ \<Rightarrow> (Some errUsage, [])
      | Inr shell \<Rightarrow>
          (case completionPath (ieXdg env) (ieHome env) shell of
             Inl err \<Rightarrow> (Some err, [])
           | Inr target \<Rightarrow>
               if cifUninstall cf then runUninstall env target
               else if cifDryRun cf then (ieDo env (InPrintPath target), [InPrintPath target])
               else writeCompletionScript env shell target))"

section \<open>What is touched\<close>

definition touches :: "install_effect \<Rightarrow> string set" where
  "touches x = (case x of InWriteFile p _ _ \<Rightarrow> {p} | InRemove p \<Rightarrow> {p} | _ \<Rightarrow> {})"

lemma run_effects_sub: "set (snd (run_effects env xs)) \<subseteq> set xs"
  by (induction xs) (auto split: option.split prod.split)

lemma resolved_shell: "resolveShell s x = Inr shell \<Longrightarrow> shell \<in> set [''bash'', ''zsh'', ''fish'', ''pwsh'', ''powershell'']"
  by (auto simp: resolveShell_def validateShell_def split: if_splits)

text \<open>The command writes or removes no file but the completion path of the shell that it names, \<open>--dry-run\<close> touches none, and \<open>--uninstall\<close> wins over
  it and writes none; a shell that is not known is a usage error without effect.\<close>

theorem install_confined:
  "case runCompletionInstall env cf of (r, fx) \<Rightarrow>
     (case resolveShell (ieShell env) (cifShell cf) of
        Inl _ \<Rightarrow> r = Some errUsage \<and> fx = []
      | Inr shell \<Rightarrow>
          (\<forall>p. p \<in> \<Union> (touches ` set fx) \<longrightarrow> completionPath (ieXdg env) (ieHome env) shell = Inr p)
          \<and> (cifDryRun cf \<and> \<not> cifUninstall cf \<longrightarrow> \<Union> (touches ` set fx) = {})
          \<and> (cifUninstall cf \<longrightarrow> (\<forall>p s m. InWriteFile p s m \<notin> set fx)))"
proof (cases "resolveShell (ieShell env) (cifShell cf)")
  case Inl: (Inl err)
  thus ?thesis
    by (simp add: runCompletionInstall_def)
next
  case sh: (Inr shell)
  show ?thesis
  proof (cases "completionPath (ieXdg env) (ieHome env) shell")
    case (Inl err)
    thus ?thesis
      by (simp add: runCompletionInstall_def sh)
  next
    case (Inr target)
    have "touches x \<subseteq> {target}" if "x \<in> set (snd (writeCompletionScript env shell target))" for x
    proof (cases "generateScript (ieGen env) shell")
      case (Inr script)
      hence "x \<in> set (snd (run_effects env [InMkdirAll (filepath_Dir target) completionDirMode, InWriteFile target script completionFileMode,
          InAck (''installed '' @ shell @ '' completion to'') target]))"
        using that by (simp add: writeCompletionScript_def del: run_effects.simps append.simps)
      hence "x \<in> set [InMkdirAll (filepath_Dir target) completionDirMode, InWriteFile target script completionFileMode,
          InAck (''installed '' @ shell @ '' completion to'') target]"
        by (rule subsetD [OF run_effects_sub])
      thus ?thesis
        by (auto simp: touches_def)
    qed (use that in \<open>simp add: writeCompletionScript_def\<close>)
    note written = this
    show ?thesis
    proof (cases "cifUninstall cf \<or> cifDryRun cf")
      case True
      thus ?thesis
        by (auto simp: runCompletionInstall_def sh Inr runUninstall_def touches_def split: option.split)
    next
      case False
      obtain r fx where w: "writeCompletionScript env shell target = (r, fx)"
        by fastforce
      have "touches x \<subseteq> {target}" if "x \<in> set fx" for x
        using written that by (simp add: w)
      hence "p = target" if "p \<in> \<Union> (touches ` set fx)" for p
        using that by blast
      thus ?thesis
        using False by (simp add: runCompletionInstall_def sh Inr w)
    qed
  qed
qed

end
