(* ===== verification/Spec2Isabelle.thy ===== *)
theory Spec2Isabelle
  imports
    Exporter_Lifecycle Exporter_Timeout Exporter_Sessions Importer_Bus Reconnect_Callbacks Reconnect_Watcher Backoff
    Kernel_Device Kernel_Events Kernel_Handoff Transport Facade_Calls
    Cli_History Cli_Exit Cli_Daemon Cli_Server Cli_Build Cli_Ready Cli_Install
begin

text \<open>
  \<^bold>\<open>usbip-go: a verification of its protocol, exporter, importer, kernel adapter, transport, facade and daemon.\<close>

  The program exports USB devices over TCP (the exporter) and attaches remote ones (the importer)
  with the Linux USB/IP drivers.  An exporter accepts a connection, reads one request, answers it and,
  for an import, hands the socket to the kernel and watches the session until it ends.  An importer
  dials, performs the same handshake from the other side, hands its socket to the kernel's virtual host
  controller and keeps a handle per port, optionally reconnecting.  The kernel adapter performs both
  hand-overs, and binding, through sysfs, and turns the kernel's uevents into domain events that both
  sides watch.  A public package wraps the two services, and a command runs the exporter as a daemon with a
  status socket, readiness probes and socket activation, and offers each operation as a subcommand with text and
  JSON output.

  \<^bold>\<open>Theories and sources\<close> (paths under \<open>src/\<close>).

  \<^item> \<open>Prelude\<close>, \<open>Go_Text\<close>, \<open>Go_IO\<close>: Go itself.  Errors are chains of sentinels (\<open>errors.Is\<close> is membership),
    machine integers are words, \<open>strconv\<close>/\<open>strings\<close>/\<open>bufio\<close> functions are total functions on strings, a
    reader is a stream cut into arbitrary segments with an arbitrary end, a writer may fail at any byte.
  \<^item> \<open>Domain_Types\<close>, \<open>Domain_Session\<close>, \<open>BusID\<close>, \<open>Remote\<close>: \<open>pkg/domain\<close> (constants, device, port, session
    and event types, bus ids, session ids, remote endpoints) and the status codes of
    \<open>internal/protocol\<close>.
  \<^item> \<open>Codec_Spec\<close>, \<open>Wire_Header\<close>, \<open>Wire_Fields\<close>, \<open>Wire_Layout\<close>, \<open>Wire_Import\<close>, \<open>Wire_Devlist\<close>:
    \<open>internal/adapter/wire\<close>.  \<open>Codec_Spec\<close> states what a codec promises as a locale (encode a valid value,
    decode any segmentation of it, leave the rest); each message is an interpretation.
  \<^item> \<open>Exporter_Limits\<close>, \<open>Exporter_Registry\<close>, \<open>Session_Handle\<close>, \<open>Exporter_Serve\<close>, \<open>Exporter_Timeout\<close>,
    \<open>Exporter_Lifecycle\<close>, \<open>Exporter_Sessions\<close>: \<open>internal/app\<close>: \<open>options.go\<close>, \<open>limits.go\<close>, \<open>cidr.go\<close>, \<open>exporter.go\<close>,
    \<open>session.go\<close>, \<open>outcomes.go\<close>, and the snapshot \<open>Sessions\<close> of \<open>exporter_watch.go\<close>.  The registry is a record changed under one mutex, so its operations are functions and its
    history a step relation (\<open>exporter_step\<close>); a session's handler and Shutdown interleave in \<open>session_step\<close>; \<open>handleConn\<close>
    is the whole synchronous handler of one connection; the handshake timeout and the handler interleave in \<open>timeout_step\<close>;
    Serve calls, Shutdown calls, handlers and the wait group interleave in \<open>lifecycle_step\<close>.
  \<^item> \<open>Importer_State\<close>, \<open>Importer_Run\<close>, \<open>Importer_Attach\<close>: \<open>internal/app/importer.go\<close>.  Handles,
    reservations and detach attempts live in heaps addressed by number, as they are shared by pointer.
    \<open>importer_step\<close> interleaves the critical sections of Attach, Detach, rollback, Close and the watchers;
    a multiset of duties records what each goroutine still has to do.
  \<^item> \<open>Reconnect\<close>, \<open>Reconnect_Callbacks\<close>, \<open>Reconnect_Watcher\<close>: \<open>internal/app/reconnect.go\<close>: the two phases of the watcher, its
    callback worker, and the goroutine around them with its deferred calls and the wait group (\<open>frame_step\<close>).  \<open>Event_Feed\<close>, \<open>Importer_Bus\<close>: \<open>exporter_watch.go\<close>,
    \<open>importer_watch.go\<close>; the locale \<open>event_feed\<close> is the contract of a bounded event buffer and is interpreted on the
    subscribers of both files and on the channels of the kernel dispatcher.  \<open>Backoff\<close>: \<open>backoff.go\<close> in IEEE double
    arithmetic; the locale \<open>rounding\<close> is what it relies on and is interpreted on rounding to 53 bits.
  \<^item> \<open>Kernel_Sysfs\<close>, \<open>Kernel_Topology\<close>, \<open>Kernel_Ports\<close>, \<open>Kernel_Bind\<close>, \<open>Kernel_Device\<close>, \<open>Kernel_Uevent\<close>,
    \<open>Kernel_Events\<close>, \<open>Kernel_Handoff\<close>: \<open>internal/adapter/kernel\<close>.  The kernel is a parameter: what sysfs contains and how it answers a write
    are functions of all writes so far, so every operation maps a history of writes to its result and
    the longer history.  \<open>Kernel_Events\<close> has the life of the event adapter's dispatchers as a step relation, \<open>Kernel_Handoff\<close>
    the descriptors of the two handoffs.
  \<^item> \<open>Transport\<close>: \<open>internal/adapter/transport\<close> and \<open>internal/netopts\<close>; what a socket answers to an option is a parameter.
  \<^item> \<open>Facade\<close>, \<open>Facade_Calls\<close>: \<open>pkg/usbip\<close>: options, construction, the error boundary; the methods that forward to
    \<open>internal/app\<close> and who owns the listener in \<open>ListenAndServe\<close>.
  \<^item> \<open>Cli_History\<close>, \<open>Cli_Status\<close>, \<open>Cli_Server\<close>, \<open>Cli_Exit\<close>, \<open>Cli_Daemon\<close>, \<open>Cli_Build\<close>, \<open>Cli_Ready\<close>: \<open>cmd/usbip-go\<close>: \<open>history.go\<close>;
    binding in \<open>status.go\<close>, then serving and closing there and in \<open>health.go\<close> (\<open>coord_step\<close>); \<open>exitcode.go\<close> and \<open>drain.go\<close>;
    \<open>serve.go\<close> (as a trace of effects with its deferred calls) and \<open>activation.go\<close>; in \<open>Cli_Build\<close> the flags and the exporter made of them; the probes of \<open>health.go\<close>, \<open>status_exporter.go\<close>
    and the module probe of \<open>pkg/usbip/modules.go\<close>.
  \<^item> \<open>Go_Json\<close>, \<open>Cli_Json\<close>, \<open>Cli_Render\<close>, \<open>Cli_Tables\<close>, \<open>Cli_Commands\<close>, \<open>Cli_Install\<close>: \<open>encoding/json\<close> as far as the command
    uses it, a printer and a reader; the records of \<open>events.go\<close>, \<open>output.go\<close> and the status response of \<open>status.go\<close>; the escaping and the
    tables of \<open>table.go\<close> and the class names; the subcommands as traces of effects (bind, unbind, list, attach, detach, ports,
    events, info); \<open>completion_install.go\<close>.
  \<^item> this theory: the two sides put together.

  \<^bold>\<open>What is shown.\<close>

  \<^item> The codec: round trips for every message, rejection of every proper prefix, bounds on everything a
    peer can make the decoders return (\<open>devlist_roundtrip\<close>, \<open>import_reply_roundtrip\<close>,
    \<open>import_request_safe\<close>, \<open>devlist_decode_bounds\<close>, \<open>devlist_truncated\<close>), and that reading through the
    handshake limit refines reading the limited prefix (\<open>handshake_limit_refines\<close>).
  \<^item> The exporter: caps, uniqueness and counters in every reachable state, complete shutdown, at most one
    kernel disconnect per session and its cleanup's termination, one decodable answer per import request,
    the signals that end a session, a timeout that after disarming cannot close the connection
    (\<open>disarmed_timeout\<close>), and a Shutdown whose drain is final and whose wait is never for a loop nobody stops
    (\<open>shutdown_drains\<close>, \<open>shutdown_unblocked\<close>).
  \<^item> The importer: no panic and exclusive ownership in every interleaving, no lost teardown, no leak of
    ports, connections or slots by Attach, the effect of Detach and Close; reconnecting only for confirmed
    detaches and within its limit, with delays within their bound and callbacks for the latest outcome
    (\<open>backoff_bounded\<close>, \<open>callbacks_latest\<close>); the watcher's goroutines leave the wait group balanced, however they end, and
    a cancelled watcher ends (\<open>watcher_life\<close>).
  \<^item> Events: ordered, loss-free while a consumer keeps up, no double close, independent subscribers, a
    lost kernel stream reported exactly once, no watcher left open by Close (\<open>importer_bus_sound\<close>).
  \<^item> The adapter: Bind is all or nothing, Unbind's protocol, ports chosen and detached safely, status files
    and uevent messages read back, the flat port numbering is a bijection and port events use it,
    termination of the controller probe, listed devices fit the wire, attribute paths stay confined, the event
    source's sockets are closed once (\<open>events_adapter_sound\<close>), with the gap in which a subscriber is lost (\<open>subscriber_stranded\<close>); a
    handoff leaks no descriptor and closes the connection exactly when the kernel took it (\<open>handoff_owned\<close>).
  \<^item> Transport and facade: a dialled connection is tuned as configured or closed, a context's listener is closed once, one dead
    connection ends the accept loop (\<open>tuned_accept_ends_loop\<close>); the last option of each kind wins, construction never panics, and
    internal errors do not cross the public boundary (\<open>exporter_options\<close>, \<open>importer_options\<close>, \<open>facade_attach_errors\<close>), and
    \<open>ListenAndServe\<close> closes the listener it opened (\<open>listen_and_serve_owned\<close>).
  \<^item> The command: the history file is replaced as a transaction; one daemon owns the status socket, except in the race of
    \<open>status_socket_race\<close>; the order of the daemon's start and stop; what its
    flags make of the exporter, and that their defaults are the library's (\<open>daemon_flags\<close>, \<open>default_flags\<close>); no descriptor of systemd is lost; readiness and drain report the truth, with
    the two cases in which they do not (\<open>drain_before_accept\<close>, \<open>detach_einval_usage\<close>); no control character other
    than a raw byte reaches the terminal (\<open>terminal_safe\<close>, \<open>raw_c1_passes\<close>), also not through the tables.
  \<^item> The command's data and servers: what the printer writes is one line that the reader reads back, so the event stream
    is one record per line (\<open>event_stream\<close>) and the drain reads the counts the daemon served (\<open>drain_reads_daemon\<close>); its sessions are in
    an order that does not depend on the map's (\<open>sessions_canonical\<close>); the status and health servers stop, within
    their grace period or by force (\<open>status_server_stops\<close>); each subcommand closes what it
    opened and reports the first error that counts (\<open>commands_sound\<close>); a completion script is written only under the directory chosen (\<open>install_confined\<close>).
  \<^item> Together: the importer's handshake succeeds exactly when the exporter's handler is ready
    (\<open>importer_meets_exporter\<close>), and what the kernel adapter lists is what the importer decodes
    (\<open>exported_devices_reach_importer\<close>).

  \<^bold>\<open>Bounds and fuel.\<close>  Widths are those of the source; arithmetic that could wrap is on words and the
  theorems state the range in which it does not (for instance fewer than \<open>2 ^ 31\<close> controllers).  The
  only loop that need not end, the controller probe, is a partial function whose result \<open>None\<close> means it
  does not return; \<open>probe_counts\<close> shows when it does.  Loops driven by other goroutines (select loops, the
  rounds of Detach, the attempts of a reconnect, the polls of a drain) take the list of what happens to them, and their result
  says whether they returned; \<open>session_cleanup_completes\<close> and \<open>reconnect_bounded\<close> show that they do.

  \<^bold>\<open>Not modelled.\<close>  Logging, metrics and tracing; time except as values that are passed in; netlink sockets, TCP and HTTP themselves, and \<open>time.ParseDuration\<close> (parameters with their documented
  results); the type aliases of \<open>pkg/usbip\<close>; the registration of flags and subcommands, styling and the generators of
  completion scripts, which are calls into third-party libraries; examples, tests and vendored packages.
\<close>

lemma IsValid_wire:
  assumes "BusID_IsValid b"
  shows "ValidateWireBusID b = Inr b"
proof -
  have "busid_lang b" "b \<noteq> []" "length b < BusIDSize"
    using assms busIDPattern_lang by (auto simp: BusID_IsValid_def split: if_splits)
  thus ?thesis
    using wire_rune_of_busid [of b] by (auto simp: ValidateWireBusID_def list_ex_iff)
qed



text \<open>C23: What the kernel adapter lists reaches the importer.  When the exporter answers a device-list request
  from the adapter's list of exported devices, and the list and its bus ids fit the protocol, the
  importer decodes exactly the wire view of those devices: no device the adapter can read makes the
  reply fail.\<close>
theorem exported_devices_reach_importer:
  assumes "handshake_fits e" "rcontent conn = EncodeOpReqDevlist @ rest"
    and "ListExportedDevices fs = Inr devs" "ceListExported env = ListExportedDevices fs"
    and "length devs \<le> 1024" "\<forall>d\<in>set devs. length (dBusID d) < BusIDSize"
  shows "\<exists>w r' t. handleConn env e conn sink = (DevlistServed (length devs), w, e)
    \<and> DecodeOpRepDevlist (reader_of (wout w)) = (Inr (map devlist_view devs, noFlags\<lparr>TrailingBytes := t\<rparr>), r')"
proof (rule handleConn_devlist_answer [OF assms(1,2)])
  obtain all where "ListLocalDevices fs = Inr all" "set devs \<subseteq> set all"
    using assms(3) by (auto simp: ListExportedDevices_def split: sum.splits)
  hence "\<forall>d\<in>set devs. device_ok d"
    using assms(6) listed_device_facts by blast
  thus "devlist_ok devs"
    using assms(5) by (simp add: devlist_ok_def)
qed (use assms(3,4) in simp)

theorem exported_devices_reach_importer_witness:
  "\<exists>w. handleConn (sample_env\<lparr>ceListExported := ListExportedDevices device_fs\<rparr>) sample_exporter
      (reader_of EncodeOpReqDevlist) sink = (DevlistServed 1, w, sample_exporter)"
proof -
  have "handshake_fits sample_exporter"
    by (simp add: handshake_fits_def sample_exporter_def sample_config_def
        resolveExporterLimits_def defaultMaxHandshakeBytes_def)
  moreover have "length (dBusID listed_device) < BusIDSize"
    by (simp add: listed_device_def BusIDSize_def)
  ultimately show ?thesis
    using exported_devices_reach_importer [of sample_exporter "reader_of EncodeOpReqDevlist" "[]" device_fs
        "[listed_device]" "sample_env\<lparr>ceListExported := ListExportedDevices device_fs\<rparr>"]
    by (auto simp: sample_exported)
qed

end
